(* ===== verification/Prelude.thy ===== *)
theory Prelude
  imports Main "HOL-Library.Word"
begin

text \<open>
  Shared vocabulary of the development: the machine integers of the Go sources as
  words, the functions of Go's \<^verbatim>\<open>strings\<close> and \<^verbatim>\<open>path/filepath\<close> packages the sources call,
  generic lemmas on words, lists and options, and the collections of rewrite rules
  the component theories extend.

  A Go string is a sequence of bytes: it is modelled as a \<^typ>\<open>string\<close>, whose characters
  are exactly the 256 bytes.  The case mapping and the white-space test of the
  \<^verbatim>\<open>unicode\<close> package are modelled on ASCII, the alphabet of every literal of the sources.
\<close>

unbundle bit_operations_syntax

named_theorems go_strings \<open>defining equations of the string functions of the Go library\<close>
named_theorems lattice_simps \<open>componentwise reading of the label operations\<close>
named_theorems session_simps \<open>what each session operation leaves in the registry\<close>
named_theorems pipeline_simps \<open>the stages of the evaluation pipelines\<close>

section \<open>Machine types\<close>

type_synonym u8 = "8 word"
type_synonym u16 = "16 word"
type_synonym u32 = "32 word"
type_synonym u64 = "64 word"

text \<open>A \<^verbatim>\<open>time.Time\<close> is the number of nanoseconds since the zero time (1 January of year 1),
  so that \<^verbatim>\<open>IsZero\<close> is the test against 0; a \<^verbatim>\<open>time.Duration\<close> is a number of nanoseconds.\<close>

type_synonym gotime = int
type_synonym duration = int

definition second :: duration where
  "second = 1000000000"

definition IsZero :: "gotime \<Rightarrow> bool" where
  "IsZero t \<longleftrightarrow> t = 0"

text \<open>\<^verbatim>\<open>Time.Unix\<close>: whole seconds since 1970, rounded down.\<close>

definition Unix :: "gotime \<Rightarrow> int" where
  "Unix t = t div second - 62135596800"

section \<open>Lemmas on words, lists and options\<close>

lemma mask_zero_iff_bits: "a AND b = b \<longleftrightarrow> (\<forall>n. bit b n \<longrightarrow> bit a n)" for a b :: "'a::len word"
  by (metis bit_and_iff bit_eqI)

lemma or_absorb_iff: "a OR b = a \<longleftrightarrow> a AND b = b" for a b :: "'a::len word"
  by (auto simp: bit_eq_iff bit_and_iff bit_or_iff)

lemma and_or_self [simp]: "(a OR b) AND a = a" "(a OR b) AND b = b" for a b :: "'a::len word"
  by (auto simp: bit_eq_iff bit_and_iff bit_or_iff)

lemma superset_trans:
  "a AND b = b \<Longrightarrow> b AND c = c \<Longrightarrow> a AND c = c" for a b c :: "'a::len word"
  by (auto simp: mask_zero_iff_bits)

lemma superset_antisym:
  "a AND b = b \<Longrightarrow> b AND a = a \<Longrightarrow> a = b" for a b :: "'a::len word"
  by (metis and.commute)

lemma superset_or_iff:
  "c AND (a OR b) = a OR b \<longleftrightarrow> c AND a = a \<and> c AND b = b" for a b c :: "'a::len word"
  by (auto simp: mask_zero_iff_bits bit_or_iff)

lemma superset_and_iff:
  "(a AND b) AND c = c \<longleftrightarrow> a AND c = c \<and> b AND c = c" for a b c :: "'a::len word"
  by (auto simp: mask_zero_iff_bits bit_and_iff)

lemma and_nonzero_iff: "a AND m \<noteq> 0 \<longleftrightarrow> (\<exists>n. bit a n \<and> bit m n)" for a m :: "'a::len word"
  using bit_imp_le_length by (auto simp: bit_eq_iff bit_and_iff)

lemma and_nonzero_mono:
  "b AND m \<noteq> 0 \<Longrightarrow> a AND b = b \<Longrightarrow> a AND m \<noteq> 0" for a b m :: "'a::len word"
  by (auto simp: and_nonzero_iff mask_zero_iff_bits)

lemma or_and_nonzero: "(a OR b) AND m \<noteq> 0 \<longleftrightarrow> a AND m \<noteq> 0 \<or> b AND m \<noteq> 0"
  for a b m :: "'a::len word"
  by (auto simp: and_nonzero_iff bit_or_iff)

lemma map_option_cases_None [simp]: "map_option f x = None \<longleftrightarrow> x = None"
  by (cases x) auto

lemma case_option_map [simp]:
  "(case map_option f x of None \<Rightarrow> n | Some y \<Rightarrow> s y) = (case x of None \<Rightarrow> n | Some y \<Rightarrow> s (f y))"
  by (cases x) auto

lemma length_filter_split:
  "length (filter P xs) + length (filter (\<lambda>x. \<not> P x) xs) = length xs"
  by (induction xs) auto

section \<open>Observations that only move one way\<close>

text \<open>A component whose every step moves an observation (a label, a version, a sticky flag) up in
  some order: so does every sequence of steps.\<close>

locale monotone_observation =
  fixes step :: "'s \<Rightarrow> 's \<Rightarrow> bool"
    and obs :: "'s \<Rightarrow> 'k \<Rightarrow> 'v"
    and ge :: "'v \<Rightarrow> 'v \<Rightarrow> bool"
  assumes ge_refl: "ge v v"
    and ge_trans: "ge u v \<Longrightarrow> ge v w \<Longrightarrow> ge u w"
    and step_mono: "step s t \<Longrightarrow> ge (obs t k) (obs s k)"
begin

lemma steps_mono: "step\<^sup>*\<^sup>* s t \<Longrightarrow> ge (obs t k) (obs s k)"
  by (induction rule: rtranclp_induct) (auto intro: ge_refl ge_trans step_mono)

end

section \<open>The strings package\<close>

definition HasPrefix :: "string \<Rightarrow> string \<Rightarrow> bool" where
  [go_strings]: "HasPrefix s p \<longleftrightarrow> take (length p) s = p"

definition HasSuffix :: "string \<Rightarrow> string \<Rightarrow> bool" where
  [go_strings]: "HasSuffix s p \<longleftrightarrow> length p \<le> length s \<and> drop (length s - length p) s = p"

fun Contains :: "string \<Rightarrow> string \<Rightarrow> bool" where
  "Contains [] sub \<longleftrightarrow> sub = []"
| "Contains (c # s) sub \<longleftrightarrow> HasPrefix (c # s) sub \<or> Contains s sub"

text \<open>\<^verbatim>\<open>strings.Count\<close>, \<^verbatim>\<open>strings.IndexByte\<close> and \<^verbatim>\<open>strings.LastIndexByte\<close> are only called with one-byte needles.\<close>

definition CountByte :: "string \<Rightarrow> char \<Rightarrow> nat" where
  [go_strings]: "CountByte s c = length (filter (\<lambda>x. x = c) s)"

fun IndexByte :: "string \<Rightarrow> char \<Rightarrow> nat option" where
  "IndexByte [] c = None"
| "IndexByte (x # s) c = (if x = c then Some 0 else map_option Suc (IndexByte s c))"

fun LastIndexByte :: "string \<Rightarrow> char \<Rightarrow> nat option" where
  "LastIndexByte [] c = None"
| "LastIndexByte (x # s) c = (case LastIndexByte s c of
     Some i \<Rightarrow> Some (Suc i)
   | None \<Rightarrow> if x = c then Some 0 else None)"

fun Index :: "string \<Rightarrow> string \<Rightarrow> nat option" where
  "Index [] sub = (if sub = [] then Some 0 else None)"
| "Index (c # s) sub = (if HasPrefix (c # s) sub then Some 0 else map_option Suc (Index s sub))"

definition TrimPrefix :: "string \<Rightarrow> string \<Rightarrow> string" where
  [go_strings]: "TrimPrefix s p = (if HasPrefix s p then drop (length p) s else s)"

definition TrimSuffix :: "string \<Rightarrow> string \<Rightarrow> string" where
  [go_strings]: "TrimSuffix s p = (if HasSuffix s p then take (length s - length p) s else s)"

definition ascii_lower :: "char \<Rightarrow> char" where
  "ascii_lower c = (let n = (of_char c :: nat) in if 65 \<le> n \<and> n \<le> 90 then char_of (n + 32) else c)"

definition ToLower :: "string \<Rightarrow> string" where
  [go_strings]: "ToLower s = map ascii_lower s"

definition isSpace :: "char \<Rightarrow> bool" where
  "isSpace c = (let n = (of_char c :: nat) in n = 32 \<or> (9 \<le> n \<and> n \<le> 13))"

definition TrimLeft :: "(char \<Rightarrow> bool) \<Rightarrow> string \<Rightarrow> string" where
  [go_strings]: "TrimLeft P s = dropWhile P s"

definition TrimRight :: "(char \<Rightarrow> bool) \<Rightarrow> string \<Rightarrow> string" where
  [go_strings]: "TrimRight P s = rev (dropWhile P (rev s))"

definition Trim :: "(char \<Rightarrow> bool) \<Rightarrow> string \<Rightarrow> string" where
  [go_strings]: "Trim P s = TrimRight P (TrimLeft P s)"

definition TrimSpace :: "string \<Rightarrow> string" where
  [go_strings]: "TrimSpace s = Trim isSpace s"

text \<open>\<^verbatim>\<open>strings.Fields\<close>: the maximal runs of non-space bytes.\<close>

fun fields_acc :: "string \<Rightarrow> string \<Rightarrow> string list" where
  "fields_acc [] acc = (if acc = [] then [] else [rev acc])"
| "fields_acc (c # s) acc =
     (if isSpace c then (if acc = [] then fields_acc s [] else rev acc # fields_acc s [])
      else fields_acc s (c # acc))"

definition Fields :: "string \<Rightarrow> string list" where
  [go_strings]: "Fields s = fields_acc s []"

text \<open>\<^verbatim>\<open>strings.Split\<close> at a one-byte separator.\<close>

fun split_acc :: "char \<Rightarrow> string \<Rightarrow> string \<Rightarrow> string list" where
  "split_acc sep [] acc = [rev acc]"
| "split_acc sep (c # s) acc =
     (if c = sep then rev acc # split_acc sep s [] else split_acc sep s (c # acc))"

definition Split :: "string \<Rightarrow> char \<Rightarrow> string list" where
  [go_strings]: "Split s sep = split_acc sep s []"

fun JoinStrings :: "string list \<Rightarrow> string \<Rightarrow> string" where
  "JoinStrings [] sep = []"
| "JoinStrings [x] sep = x"
| "JoinStrings (x # y # xs) sep = x @ sep @ JoinStrings (y # xs) sep"

lemma HasPrefix_iff: "HasPrefix s p \<longleftrightarrow> (\<exists>t. s = p @ t)"
  unfolding HasPrefix_def by (metis append_eq_conv_conj append_take_drop_id)

lemma HasSuffix_iff: "HasSuffix s p \<longleftrightarrow> (\<exists>t. s = t @ p)"
  unfolding HasSuffix_def
  by (metis add_diff_cancel_right' append_eq_conv_conj append_take_drop_id le_add2 length_append)

lemma Contains_iff: "Contains s sub \<longleftrightarrow> (\<exists>u v. s = u @ sub @ v)"
proof (induction s)
  case (Cons c s)
  show ?case
  proof
    assume "Contains (c # s) sub"
    then consider "HasPrefix (c # s) sub" | "Contains s sub" by auto
    then show "\<exists>u v. c # s = u @ sub @ v"
    proof cases
      case 1
      then show ?thesis by (metis HasPrefix_iff append_Nil)
    next
      case 2
      then show ?thesis using Cons.IH by (metis append_Cons)
    qed
  next
    assume "\<exists>u v. c # s = u @ sub @ v"
    then obtain u v where e: "c # s = u @ sub @ v" by blast
    show "Contains (c # s) sub"
    proof (cases u)
      case Nil
      with e have "HasPrefix (c # s) sub" by (auto simp: HasPrefix_iff)
      then show ?thesis by simp
    next
      case (Cons d w)
      with e Cons.IH have "Contains s sub" by auto
      then show ?thesis by simp
    qed
  qed
qed auto

lemma Contains_self_prefix: "HasPrefix s p \<Longrightarrow> Contains s p"
  by (metis Contains_iff HasPrefix_iff append_Nil)

lemma HasPrefix_Nil [simp]: "HasPrefix s []"
  by (simp add: HasPrefix_def)

lemma TrimPrefix_append [simp]: "TrimPrefix (p @ s) p = s"
  by (simp add: TrimPrefix_def HasPrefix_def)

lemma split_acc_ne [simp]: "split_acc sep s acc \<noteq> []"
  by (induction s arbitrary: acc) auto

lemma Split_nonempty [simp]: "Split s sep \<noteq> []"
  by (simp add: Split_def)

lemma Split_JoinStrings: "JoinStrings (Split s sep) [sep] = s"
proof -
  have "JoinStrings (split_acc sep s acc) [sep] = rev acc @ s" for acc
  proof (induction s arbitrary: acc)
    case (Cons c s)
    obtain y ys where "split_acc sep s [] = y # ys"
      by (meson neq_Nil_conv split_acc_ne)
    with Cons.IH [of "[]"] Cons.IH [of "c # acc"] show ?case by auto
  qed simp
  from this [of "[]"] show ?thesis by (simp add: Split_def)
qed

lemma IndexByte_None: "IndexByte s c = None \<longleftrightarrow> c \<notin> set s"
  by (induction s) auto

lemma IndexByte_Some:
  "IndexByte s c = Some i \<Longrightarrow> i < length s \<and> s ! i = c \<and> c \<notin> set (take i s)"
  by (induction s arbitrary: i) (auto split: if_splits)

section \<open>filepath.Match\<close>

text \<open>
  The algorithm of the library: the pattern is cut into chunks at the stars, a chunk is
  matched at the current position or, after a star, at the first position that fits and is
  not beyond a separator (a chunk that follows no star is never empty).  A malformed pattern is an error of the library; every caller in
  the sources treats an error as no match, so both are \<^const>\<open>None\<close>.
\<close>

fun scan_chunk :: "bool \<Rightarrow> string \<Rightarrow> string \<times> string" where
  "scan_chunk inrange [] = ([], [])"
| "scan_chunk inrange (c # p) =
    (if c = CHR 0x5C then
       (case p of [] \<Rightarrow> ([c], [])
        | d # q \<Rightarrow> let (a, b) = scan_chunk inrange q in (c # d # a, b))
     else if c = CHR ''*'' \<and> \<not> inrange then ([], c # p)
     else let (a, b) = scan_chunk (if c = CHR ''['' then True else if c = CHR '']'' then False else inrange) p
          in (c # a, b))"

fun get_esc :: "string \<Rightarrow> (char \<times> string) option" where
  "get_esc [] = None"
| "get_esc (c # p) =
    (if c = CHR ''-'' \<or> c = CHR '']'' then None
     else if c = CHR 0x5C then
       (case p of [] \<Rightarrow> None | d # q \<Rightarrow> if q = [] then None else Some (d, q))
     else if p = [] then None else Some (c, p))"

lemma get_esc_length: "get_esc p = Some (c, q) \<Longrightarrow> length q < length p"
  by (cases p) (auto split: if_splits list.splits)

text \<open>The ranges of a bracket expression: whether the byte is in one of them, and the rest.\<close>

function match_class :: "string \<Rightarrow> nat \<Rightarrow> bool \<Rightarrow> char \<Rightarrow> (bool \<times> string) option" where
  "match_class p nrange m r =
    (if p \<noteq> [] \<and> hd p = CHR '']'' \<and> nrange > 0 then Some (m, tl p)
     else case get_esc p of None \<Rightarrow> None
       | Some (lo, q) \<Rightarrow>
         (if hd q = CHR ''-'' then
            (case get_esc (tl q) of None \<Rightarrow> None
             | Some (hi, q') \<Rightarrow> match_class q' (Suc nrange)
                 (m \<or> (of_char lo \<le> (of_char r :: nat) \<and> (of_char r :: nat) \<le> of_char hi)) r)
          else match_class q (Suc nrange) (m \<or> lo = r) r))"
  by pat_completeness auto
termination
proof (relation "measure (\<lambda>(p, _). length p)", goal_cases)
  case 1
  show ?case by simp
next
  case (2 p nrange m r x lo q x' hi q')
  from get_esc_length [of p lo q] get_esc_length [of "tl q" hi q'] 2 show ?case
    by (cases q) auto
next
  case (3 p nrange m r x lo q)
  from get_esc_length [of p lo q] 3 show ?case by auto
qed

declare match_class.simps [simp del]

text \<open>One chunk at the current position: the rest of the name when it fits.\<close>

primrec match_chunk :: "string \<Rightarrow> string \<Rightarrow> string option" where
  "match_chunk p [] = (if p = [] then Some [] else None)"
| "match_chunk p (x # s) = (case p of
     [] \<Rightarrow> Some (x # s)
   | c # p' \<Rightarrow>
     (if c = CHR ''['' then
        (let negated = (p' \<noteq> [] \<and> hd p' = CHR ''^''); q = (if negated then tl p' else p') in
         case match_class q 0 False x of None \<Rightarrow> None
         | Some (m, q') \<Rightarrow> if m = negated then None else match_chunk q' s)
      else if c = CHR ''?'' then (if x = CHR ''/'' then None else match_chunk p' s)
      else if c = CHR 0x5C then
        (case p' of [] \<Rightarrow> None | d # q \<Rightarrow> if d = x then match_chunk q s else None)
      else if c = x then match_chunk p' s else None))"

text \<open>The positions after a star: skip bytes up to the first separator.\<close>

fun match_skip :: "string \<Rightarrow> bool \<Rightarrow> string \<Rightarrow> string option" where
  "match_skip chunk final [] = None"
| "match_skip chunk final (x # s) =
    (if x = CHR ''/'' then None
     else case match_chunk chunk s of
       Some t \<Rightarrow> if final \<and> t \<noteq> [] then match_skip chunk final s else Some t
     | None \<Rightarrow> match_skip chunk final s)"

lemma scan_chunk_append: "fst (scan_chunk r p) @ snd (scan_chunk r p) = p"
  by (induction r p rule: scan_chunk.induct)
     (auto simp: Let_def case_prod_unfold split: list.splits)

lemma scan_chunk_shorter:
  assumes "scan_chunk False (dropWhile P p) = (c, r)" "c \<noteq> []"
  shows "length r < length p"
proof -
  have "c @ r = dropWhile P p"
    using scan_chunk_append [of False "dropWhile P p"] assms(1) by simp
  then have "length c + length r \<le> length p"
    by (metis length_append length_dropWhile_le)
  with assms(2) show ?thesis by (cases c) auto
qed

function filepath_Match :: "string \<Rightarrow> string \<Rightarrow> bool" where
  "filepath_Match pattern name =
    (if pattern = [] then name = []
     else let star = (hd pattern = CHR ''*'');
              body = dropWhile (\<lambda>c. c = CHR ''*'') pattern;
              (chunk, rest) = scan_chunk False body in
       if star \<and> chunk = [] then CHR ''/'' \<notin> set name
       else if chunk = [] then False
       else case match_chunk chunk name of
         Some t \<Rightarrow> if t = [] \<or> rest \<noteq> [] then filepath_Match rest t
                   else if star then (case match_skip chunk (rest = []) name of
                          Some t' \<Rightarrow> filepath_Match rest t' | None \<Rightarrow> False)
                   else False
       | None \<Rightarrow> if star then (case match_skip chunk (rest = []) name of
                          Some t' \<Rightarrow> filepath_Match rest t' | None \<Rightarrow> False)
                 else False)"
  by pat_completeness auto

termination
  by (relation "measure (\<lambda>(p, _). length p)")
     (auto dest: sym [THEN scan_chunk_shorter] simp: scan_chunk_shorter)

declare filepath_Match.simps [simp del]

text \<open>A pattern without wildcards matches itself only.\<close>

lemma scan_chunk_plain:
  "\<forall>c \<in> set p. c \<noteq> CHR ''*'' \<and> c \<noteq> CHR 0x5C \<Longrightarrow> scan_chunk r p = (p, [])"
  by (induction r p rule: scan_chunk.induct) auto

lemma match_chunk_plain:
  "\<forall>c \<in> set p. c \<noteq> CHR ''*'' \<and> c \<noteq> CHR ''['' \<and> c \<noteq> CHR ''?'' \<and> c \<noteq> CHR 0x5C \<Longrightarrow>
   match_chunk p s = (if HasPrefix s p then Some (drop (length p) s) else None)"
  by (induction s arbitrary: p) (auto simp: HasPrefix_def split: list.splits)

end
