(* ===== verification/Types.thy ===== *)
theory Types
  imports Prelude
begin

text \<open>
  The data of the package \<^verbatim>\<open>pkg/nixis\<close> and \<^verbatim>\<open>pkg/policy/types\<close>: security labels, actions, requests,
  decisions and responses, policy templates and bindings, the stream event; the JSON
  marshalling of an action; and the view of decoded JSON the sources take (a generic map, or
  one string field of a struct).  The JSON parser itself is a parameter of the definitions
  that read raw arguments: a function from bytes to an optional JSON value.
\<close>

section \<open>Labels, actions, requests and responses\<close>

record SecurityLabel =
  Confidentiality :: u16
  Integrity :: u16
  Category :: u32

definition zeroLabel :: SecurityLabel where
  "zeroLabel = \<lparr>Confidentiality = 0, Integrity = 0, Category = 0\<rparr>"

datatype Action = ActionDeny | ActionAllow | ActionRequireApproval | ActionAudit

text \<open>The Go type is an integer: values outside the enumeration are possible and are read as
  deny by every \<^verbatim>\<open>switch\<close>.\<close>

definition action_of_int :: "int \<Rightarrow> Action" where
  "action_of_int n = (if n = 1 then ActionAllow else if n = 2 then ActionRequireApproval
                      else if n = 3 then ActionAudit else ActionDeny)"

definition MarshalJSON :: "int \<Rightarrow> string" where
  "MarshalJSON a =
    (if a = 0 then ''deny'' else if a = 1 then ''allow'' else if a = 2 then ''require_approval''
     else if a = 3 then ''audit'' else ''deny'')"

definition UnmarshalJSON :: "string \<Rightarrow> int" where
  "UnmarshalJSON s =
    (if s = ''deny'' then 0 else if s = ''allow'' then 1 else if s = ''require_approval'' then 2
     else if s = ''audit'' then 3 else 0)"

datatype EnforcingLayer =
    LayerNone
  | EnforcingLayerArgSchema
  | EnforcingLayerCEL
  | EnforcingLayerIFC
  | EnforcingLayerDelegation
  | EnforcingLayerAdapter
  | EnforcingLayerSecretScan
  | EnforcingLayerSink

record DelegationRef =
  RefTokenID :: string
  RefIssuer :: string
  RefDeclassificationGate :: string
  RefAuditRef :: string

record CheckRequest =
  Tool :: string
  Args :: string
  SessionID :: string
  ParentSessionID :: string
  SpawnToken :: string
  ProjectRoot :: string
  RequestLabel :: SecurityLabel
  AuthorityChain :: "DelegationRef list"
  Nonce :: "u8 list"
  Timestamp :: int

record Decision =
  Verdict :: Action
  Reason :: string
  PolicyID :: string
  Labels :: SecurityLabel

type_synonym Annotation = "string \<times> string"

record CheckResponse =
  RespDecision :: Decision
  Annotations :: "Annotation list"
  LatencyNs :: int
  RespLayer :: EnforcingLayer
  PolicySourceLocation :: string
  ThreatSeverity :: string

definition zeroDecision :: Decision where
  "zeroDecision = \<lparr>Verdict = ActionDeny, Reason = [], PolicyID = [], Labels = zeroLabel\<rparr>"

text \<open>The zero value of the Go struct: a response nobody filled in is a denial.\<close>

definition zeroResponse :: CheckResponse where
  "zeroResponse = \<lparr>RespDecision = zeroDecision, Annotations = [], LatencyNs = 0,
     RespLayer = LayerNone, PolicySourceLocation = [], ThreatSeverity = []\<rparr>"

abbreviation resp_action :: "CheckResponse \<Rightarrow> Action" where
  "resp_action r \<equiv> Verdict (RespDecision r)"

definition MaxMessageSize :: nat where
  "MaxMessageSize = 2 * 1024 * 1024"

section \<open>Decoded JSON\<close>

text \<open>A number is kept by its literal.  An object keeps its members in document order.\<close>

datatype json =
    JNull
  | JBool bool
  | JNum string
  | JStr string
  | JArr "json list"
  | JObj "(string \<times> json) list"

text \<open>Decoding into a \<^verbatim>\<open>map[string]any\<close>: an object gives the map (the last of equal keys wins),
  \<^verbatim>\<open>null\<close> leaves the map nil, anything else is a type error.  The outer option is the error,
  the inner one the nil map.\<close>

type_synonym json_map = "string \<rightharpoonup> json"

fun decode_map :: "json \<Rightarrow> json_map option option" where
  "decode_map (JObj kvs) = Some (Some (map_of (rev kvs)))"
| "decode_map JNull = Some None"
| "decode_map _ = None"

text \<open>Decoding into a struct with one string field: member names are compared up to case, a
  \<^verbatim>\<open>null\<close> member leaves the field alone, a member of another type is an error.\<close>

fun decode_field :: "string \<Rightarrow> (string \<times> json) list \<Rightarrow> string \<Rightarrow> bool \<Rightarrow> string option" where
  "decode_field key [] acc bad = (if bad then None else Some acc)"
| "decode_field key ((k, v) # kvs) acc bad =
    (if ToLower k = ToLower key then
       (case v of JStr s \<Rightarrow> decode_field key kvs s bad
        | JNull \<Rightarrow> decode_field key kvs acc bad
        | _ \<Rightarrow> decode_field key kvs acc True)
     else decode_field key kvs acc bad)"

fun decode_struct_string :: "string \<Rightarrow> json \<Rightarrow> string option" where
  "decode_struct_string key (JObj kvs) = decode_field key kvs [] False"
| "decode_struct_string key JNull = Some []"
| "decode_struct_string key _ = None"

text \<open>The raw bytes are parsed by a parameter \<^verbatim>\<open>parse\<close>.\<close>

type_synonym json_parser = "string \<Rightarrow> json option"

definition unmarshal_map :: "json_parser \<Rightarrow> string \<Rightarrow> json_map option option" where
  "unmarshal_map parse args = Option.bind (parse args) decode_map"

definition unmarshal_field :: "json_parser \<Rightarrow> string \<Rightarrow> string \<Rightarrow> string option" where
  "unmarshal_field parse key args = Option.bind (parse args) (decode_struct_string key)"

text \<open>A struct with several string fields: the field values by name, unless one of them is of another
  type.\<close>

definition unmarshal_fields :: "json_parser \<Rightarrow> string list \<Rightarrow> string \<Rightarrow> (string \<Rightarrow> string) option" where
  "unmarshal_fields parse keys args =
    (if list_all (\<lambda>k. unmarshal_field parse k args \<noteq> None) keys
     then Some (\<lambda>k. case unmarshal_field parse k args of Some v \<Rightarrow> v | None \<Rightarrow> []) else None)"

text \<open>The type assertion \<^verbatim>\<open>m[k].(string)\<close>.\<close>

definition string_at :: "json_map \<Rightarrow> string \<Rightarrow> string option" where
  "string_at m k = (case m k of Some (JStr s) \<Rightarrow> Some s | _ \<Rightarrow> None)"

definition ExtractScanTarget :: "json_parser \<Rightarrow> string \<Rightarrow> string \<Rightarrow> string" where
  "ExtractScanTarget parse tool args =
    (let field = (\<lambda>key. case unmarshal_field parse key args of None \<Rightarrow> args | Some s \<Rightarrow> s) in
     if tool = ''SendMessage'' then field ''message''
     else if tool = ''Write'' then field ''content''
     else if tool = ''Edit'' then field ''new_string''
     else if tool = ''Read'' then []
     else args)"

section \<open>Policies\<close>

record PolicyScope =
  Tools :: "string list"
  Sessions :: "string list"
  ScopeEffects :: "string list"

record PolicyTemplate =
  TemplID :: string
  TemplName :: string
  Description :: string
  Expression :: string
  Params :: "json_map option"
  SourceFile :: string
  SourceLine :: int
  TemplDefaultAction :: string

record PolicyBinding =
  TemplateID :: string
  Scope :: PolicyScope
  Priority :: int
  Layer :: string
  RequireApproval :: bool
  Message :: string
  DefaultAction :: string

record CompiledBundle =
  BundleVersion :: u64
  BundleHash :: "u8 list"
  Templates :: "PolicyTemplate list"
  Bindings :: "PolicyBinding list"

record PolicySummary =
  SumID :: string
  SumName :: string
  SumLayer :: string
  SumEnabled :: bool
  SumCelExpression :: string
  SumDescription :: string

section \<open>Properties of the data\<close>

lemma MarshalJSON_action: "UnmarshalJSON (MarshalJSON a) = a \<longleftrightarrow> 0 \<le> a \<and> a \<le> 3"
  unfolding MarshalJSON_def UnmarshalJSON_def by auto

lemma action_of_Marshal: "action_of_int (UnmarshalJSON (MarshalJSON a)) = action_of_int a"
  unfolding MarshalJSON_def UnmarshalJSON_def action_of_int_def by auto

lemma UnmarshalJSON_allow: "action_of_int (UnmarshalJSON s) = ActionAllow \<longleftrightarrow> s = ''allow''"
  unfolding UnmarshalJSON_def action_of_int_def by auto

lemma zeroResponse_denies [simp]: "resp_action zeroResponse = ActionDeny"
  by (simp add: zeroResponse_def zeroDecision_def)

end
