(* ===== verification/Lattice.thy ===== *)
theory Lattice
  imports Types
begin

text \<open>
  The label algebra of \<^verbatim>\<open>internal/ifc/lattice.go\<close>: packing a label into the 64-bit word the
  session registry updates atomically, the operations \<^verbatim>\<open>Join\<close>, \<^verbatim>\<open>Meet\<close>, \<^verbatim>\<open>Dominates\<close>, \<^verbatim>\<open>Equal\<close> and
  \<^verbatim>\<open>elevateLabel\<close>.  The contract that the session registry relies on, a high-water mark over a
  partial order, is the locale \<^verbatim>\<open>high_water_mark\<close>; it is interpreted on \<^verbatim>\<open>Dominates\<close> and
  \<^verbatim>\<open>elevateLabel\<close>.
\<close>

section \<open>Definitions\<close>

definition CatCredentials :: u32 where "CatCredentials = push_bit 0 1"
definition CatFinance :: u32 where "CatFinance = push_bit 1 1"
definition CatPersonalData :: u32 where "CatPersonalData = push_bit 2 1"
definition CatInternal :: u32 where "CatInternal = push_bit 3 1"
definition CatCryptographic :: u32 where "CatCryptographic = push_bit 4 1"
definition CatSecurityKey :: u32 where "CatSecurityKey = push_bit 30 1"
definition TaintBit :: u32 where "TaintBit = push_bit 31 1"

lemmas category_defs =
  CatCredentials_def CatFinance_def CatPersonalData_def CatInternal_def
  CatCryptographic_def CatSecurityKey_def TaintBit_def

text \<open>Layout: confidentiality in the top 16 bits, integrity in the next 16, category below.\<close>

definition packLabel :: "SecurityLabel \<Rightarrow> u64" where
  "packLabel l = push_bit 48 (ucast (Confidentiality l)) OR push_bit 32 (ucast (Integrity l))
                 OR ucast (Category l)"

definition unpackLabel :: "u64 \<Rightarrow> SecurityLabel" where
  "unpackLabel v = \<lparr>Confidentiality = ucast (drop_bit 48 v), Integrity = ucast (drop_bit 32 v),
                    Category = ucast v\<rparr>"

definition Join :: "SecurityLabel \<Rightarrow> SecurityLabel \<Rightarrow> SecurityLabel" where
  "Join a b =
    (let c = (if Confidentiality b > Confidentiality a then Confidentiality b else Confidentiality a);
         i = (if Integrity b < Integrity a then Integrity b else Integrity a)
     in \<lparr>Confidentiality = c, Integrity = i, Category = Category a OR Category b\<rparr>)"

definition Meet :: "SecurityLabel \<Rightarrow> SecurityLabel \<Rightarrow> SecurityLabel" where
  "Meet a b =
    (let c = (if Confidentiality b < Confidentiality a then Confidentiality b else Confidentiality a);
         i = (if Integrity b > Integrity a then Integrity b else Integrity a)
     in \<lparr>Confidentiality = c, Integrity = i, Category = Category a AND Category b\<rparr>)"

definition Dominates :: "SecurityLabel \<Rightarrow> SecurityLabel \<Rightarrow> bool" where
  "Dominates subject object \<longleftrightarrow>
     Confidentiality subject \<ge> Confidentiality object \<and>
     Integrity subject \<ge> Integrity object \<and>
     Category subject AND Category object = Category object"

definition EqualLabel :: "SecurityLabel \<Rightarrow> SecurityLabel \<Rightarrow> bool" where
  "EqualLabel a b \<longleftrightarrow>
     Confidentiality a = Confidentiality b \<and> Integrity a = Integrity b \<and> Category a = Category b"

definition elevateLabel :: "SecurityLabel \<Rightarrow> SecurityLabel \<Rightarrow> SecurityLabel" where
  "elevateLabel session resource =
    (let c = (if Confidentiality resource > Confidentiality session
              then Confidentiality resource else Confidentiality session);
         i = (if Integrity resource > Integrity session
              then Integrity resource else Integrity session)
     in \<lparr>Confidentiality = c, Integrity = i, Category = Category session OR Category resource\<rparr>)"

section \<open>Componentwise readings\<close>

lemma label_eqI:
  "Confidentiality a = Confidentiality b \<Longrightarrow> Integrity a = Integrity b \<Longrightarrow>
   Category a = Category b \<Longrightarrow> a = b" for a b :: SecurityLabel
  by (rule SecurityLabel.equality) simp_all

lemma label_eq_iff:
  "a = b \<longleftrightarrow> Confidentiality a = Confidentiality b \<and> Integrity a = Integrity b \<and>
             Category a = Category b" for a b :: SecurityLabel
  by (auto intro: label_eqI)

lemma zeroLabel_fields [simp]:
  "Confidentiality zeroLabel = 0" "Integrity zeroLabel = 0" "Category zeroLabel = 0"
  by (simp_all add: zeroLabel_def)

lemma elevateLabel_fields [simp, lattice_simps]:
  "Confidentiality (elevateLabel s r) = max (Confidentiality s) (Confidentiality r)"
  "Integrity (elevateLabel s r) = max (Integrity s) (Integrity r)"
  "Category (elevateLabel s r) = Category s OR Category r"
  by (auto simp: elevateLabel_def Let_def max_def)

lemma Join_fields [simp, lattice_simps]:
  "Confidentiality (Join a b) = max (Confidentiality a) (Confidentiality b)"
  "Integrity (Join a b) = min (Integrity a) (Integrity b)"
  "Category (Join a b) = Category a OR Category b"
  by (auto simp: Join_def Let_def max_def min_def)

lemma Meet_fields [simp, lattice_simps]:
  "Confidentiality (Meet a b) = min (Confidentiality a) (Confidentiality b)"
  "Integrity (Meet a b) = max (Integrity a) (Integrity b)"
  "Category (Meet a b) = Category a AND Category b"
  by (auto simp: Meet_def Let_def max_def min_def)

lemma EqualLabel_iff [simp]: "EqualLabel a b \<longleftrightarrow> a = b"
  by (simp add: EqualLabel_def label_eq_iff)

section \<open>Packing\<close>

lemma unpack_pack [simp]: "unpackLabel (packLabel l) = l"
proof (rule label_eqI)
  show "Confidentiality (unpackLabel (packLabel l)) = Confidentiality l"
    unfolding unpackLabel_def packLabel_def
    by (auto simp: bit_eq_iff bit_simps dest: bit_imp_le_length)
  show "Integrity (unpackLabel (packLabel l)) = Integrity l"
    unfolding unpackLabel_def packLabel_def
    by (auto simp: bit_eq_iff bit_simps dest: bit_imp_le_length)
  show "Category (unpackLabel (packLabel l)) = Category l"
    unfolding unpackLabel_def packLabel_def
    by (auto simp: bit_eq_iff bit_simps)
qed

lemma pack_unpack [simp]: "packLabel (unpackLabel v) = v"
proof (rule bit_word_eqI)
  fix n
  assume "n < LENGTH(64)"
  then consider "n < 32" | "32 \<le> n" "n < 48" | "48 \<le> n" "n < 64" by force
  then show "bit (packLabel (unpackLabel v)) n = bit v n"
    by cases (auto simp: unpackLabel_def packLabel_def bit_simps)
qed

lemma packLabel_inj [simp]: "packLabel a = packLabel b \<longleftrightarrow> a = b"
  by (metis unpack_pack)

lemma unpackLabel_inj [simp]: "unpackLabel a = unpackLabel b \<longleftrightarrow> a = b"
  by (metis pack_unpack)

lemma packLabel_zero [simp]: "packLabel zeroLabel = 0"
  by (simp add: packLabel_def)

lemma unpackLabel_zero [simp]: "unpackLabel 0 = zeroLabel"
  by (metis packLabel_zero unpack_pack)

lemma packLabel_eq_zero [simp]: "packLabel l = 0 \<longleftrightarrow> l = zeroLabel"
  by (metis packLabel_zero packLabel_inj)

section \<open>The high-water mark contract\<close>

text \<open>What the session registry needs of the label algebra: \<^verbatim>\<open>dom\<close> orders the labels, \<^verbatim>\<open>elev\<close> gives
  the least label above both arguments, \<^verbatim>\<open>bot\<close> is the label of a session nobody has seen.\<close>

locale high_water_mark =
  fixes dom :: "'l \<Rightarrow> 'l \<Rightarrow> bool"
    and elev :: "'l \<Rightarrow> 'l \<Rightarrow> 'l"
    and bot :: 'l
  assumes dom_refl: "dom a a"
    and dom_trans: "dom a b \<Longrightarrow> dom b c \<Longrightarrow> dom a c"
    and dom_antisym: "dom a b \<Longrightarrow> dom b a \<Longrightarrow> a = b"
    and elev_upper1: "dom (elev a b) a"
    and elev_upper2: "dom (elev a b) b"
    and elev_least: "dom c a \<Longrightarrow> dom c b \<Longrightarrow> dom c (elev a b)"
    and dom_bot: "dom a bot"
begin

lemma elev_commute: "elev a b = elev b a"
  by (intro dom_antisym elev_least elev_upper1 elev_upper2)

lemma elev_assoc: "elev (elev a b) c = elev a (elev b c)"
  by (rule dom_antisym;
      intro elev_least; meson dom_trans elev_upper1 elev_upper2)

lemma elev_absorb: "elev a b = a \<longleftrightarrow> dom a b"
  by (metis dom_antisym dom_refl elev_least elev_upper1 elev_upper2)

lemma elev_idem: "elev a a = a"
  by (simp add: elev_absorb dom_refl)

lemma elev_bot: "elev a bot = a"
  by (simp add: elev_absorb dom_bot)

text \<open>A whole history of accesses leaves the least label above the start and every access.\<close>

lemma history_upper:
  "dom (foldl elev s rs) s \<and> (\<forall>r \<in> set rs. dom (foldl elev s rs) r)"
proof (induction rs arbitrary: s)
  case (Cons r rs)
  from Cons.IH [of "elev s r"] show ?case
    by (auto intro: dom_trans elev_upper1 elev_upper2)
qed (simp add: dom_refl)

lemma history_least:
  "dom c s \<Longrightarrow> \<forall>r \<in> set rs. dom c r \<Longrightarrow> dom c (foldl elev s rs)"
  by (induction rs arbitrary: s) (auto intro: elev_least)

lemma history_set:
  assumes "set rs = set rs'"
  shows "foldl elev s rs = foldl elev s rs'"
  by (rule dom_antisym; rule history_least) (use assms history_upper in auto)

end

lemma Dominates_elevate_least:
  "Dominates c a \<Longrightarrow> Dominates c b \<Longrightarrow> Dominates c (elevateLabel a b)"
  by (simp add: Dominates_def superset_or_iff)

interpretation hwm: high_water_mark Dominates elevateLabel zeroLabel
proof
  show "Dominates a a" for a by (simp add: Dominates_def)
  show "Dominates a c" if "Dominates a b" "Dominates b c" for a b c
    using that by (auto simp: Dominates_def intro: superset_trans)
  show "a = b" if "Dominates a b" "Dominates b a" for a b
    using that superset_antisym [of "Category a" "Category b"]
    by (intro label_eqI) (auto simp: Dominates_def)
  show "Dominates (elevateLabel a b) a" for a b by (simp add: Dominates_def)
  show "Dominates (elevateLabel a b) b" for a b by (simp add: Dominates_def)
  show "Dominates c (elevateLabel a b)" if "Dominates c a" "Dominates c b" for a b c
    using that by (rule Dominates_elevate_least)
  show "Dominates a zeroLabel" for a by (simp add: Dominates_def)
qed

text \<open>The tainted predicate of a label and how it propagates.\<close>

definition label_tainted :: "SecurityLabel \<Rightarrow> bool" where
  "label_tainted l \<longleftrightarrow> Category l AND TaintBit \<noteq> 0"

lemma label_tainted_mono: "Dominates a b \<Longrightarrow> label_tainted b \<Longrightarrow> label_tainted a"
  unfolding label_tainted_def Dominates_def
  using and_nonzero_mono [of "Category b" TaintBit "Category a"] by simp

lemma label_tainted_zero [simp]: "\<not> label_tainted zeroLabel"
  by (simp add: label_tainted_def)

lemma label_tainted_elevate [simp]:
  "label_tainted (elevateLabel a b) \<longleftrightarrow> label_tainted a \<or> label_tainted b"
  using or_and_nonzero [of "Category a" "Category b" TaintBit] by (simp add: label_tainted_def)

section \<open>Join and Meet under the Bell-LaPadula and Biba reading\<close>

text \<open>\<^verbatim>\<open>Join\<close> and \<^verbatim>\<open>Meet\<close> are the bounds of the order in which integrity is reversed.\<close>

definition flows_to :: "SecurityLabel \<Rightarrow> SecurityLabel \<Rightarrow> bool" where
  "flows_to a b \<longleftrightarrow> Confidentiality a \<le> Confidentiality b \<and> Integrity b \<le> Integrity a \<and>
                   Category b AND Category a = Category a"

lemma flows_to_antisym: "flows_to a b \<Longrightarrow> flows_to b a \<Longrightarrow> a = b"
  using superset_antisym [of "Category b" "Category a"]
  by (intro label_eqI) (auto simp: flows_to_def)

lemma Join_least_iff: "flows_to (Join a b) c \<longleftrightarrow> flows_to a c \<and> flows_to b c"
  by (auto simp: flows_to_def superset_or_iff)

lemma Meet_greatest_iff: "flows_to c (Meet a b) \<longleftrightarrow> flows_to c a \<and> flows_to c b"
  by (auto simp: flows_to_def superset_and_iff)

end
