(* ===== verification/Sessions.thy ===== *)
theory Sessions
  imports Lattice
begin

text \<open>
  The session registry of \<^verbatim>\<open>internal/ifc/session.go\<close>: per-session packed label, ceiling, state
  ordinal, approval state, standing rules and project root, and every operation on it; the
  declassification gate of \<^verbatim>\<open>lattice.go\<close>; the taint history of \<^verbatim>\<open>history.go\<close>.  Each operation is a
  function on the registry (the compare-and-swap loops run to completion when nobody
  interferes; their interleavings are the theory \<^verbatim>\<open>CasLoop\<close>).  The clock is an argument
  \<^verbatim>\<open>now\<close>.  The step relation \<^verbatim>\<open>session_step\<close> has one rule per public operation; what every
  sequence of operations preserves is proved once in the locale \<^verbatim>\<open>monotone_observation\<close> and
  interpreted on the label, the state ordinal, the ceiling and the project root.
\<close>

section \<open>State\<close>

definition stateOrdinalFresh :: u32 where "stateOrdinalFresh = 0"
definition stateOrdinalEscalated :: u32 where "stateOrdinalEscalated = 1"
definition stateOrdinalTainted :: u32 where "stateOrdinalTainted = 2"
definition stateOrdinalDeclassified :: u32 where "stateOrdinalDeclassified = 3"

lemmas ordinal_defs = stateOrdinalFresh_def stateOrdinalEscalated_def stateOrdinalTainted_def
  stateOrdinalDeclassified_def

datatype LabelState =
  LabelStateFresh | LabelStateEscalated | LabelStateTaintedBySecret | LabelStateDeclassified

definition ApprovalNone :: u32 where "ApprovalNone = 0"
definition ApprovalPending :: u32 where "ApprovalPending = 1"
definition ApprovalStandingRule :: u32 where "ApprovalStandingRule = 2"
definition ApprovalSessionGranted :: u32 where "ApprovalSessionGranted = 3"

lemmas approval_defs = ApprovalNone_def ApprovalPending_def ApprovalStandingRule_def
  ApprovalSessionGranted_def

record StandingRule =
  RuleEffect :: string
  ResourcePattern :: string
  ExpiresAt :: gotime
  GrantedAt :: gotime
  GrantedBy :: string

record sessionData =
  sdLabel :: u64
  sdCeiling :: u64
  sdState :: u32
  sdApproval :: u32
  sdRules :: "StandingRule list"
  sdProjectRoot :: string
  sdRootOnce :: bool

record SessionSnapshot =
  SnapLabel :: SecurityLabel
  IsTaintedSnap :: bool
  SnapApproval :: u32
  SnapRules :: "StandingRule list"

type_synonym SessionLabels = "string \<rightharpoonup> sessionData"

definition freshSession :: sessionData where
  "freshSession = \<lparr>sdLabel = 0, sdCeiling = 0, sdState = 0, sdApproval = 0, sdRules = [],
                   sdProjectRoot = [], sdRootOnce = False\<rparr>"

definition maxUint64Label :: u64 where
  "maxUint64Label = 0xFFFFFFFFFFFFFFFF"

section \<open>Operations\<close>

text \<open>The pointer \<^verbatim>\<open>getOrCreate\<close> returns is into the registry: the entry read here is written
  back by the operations that change it, and is stored even when they do not.\<close>

definition getOrCreate :: "SessionLabels \<Rightarrow> string \<Rightarrow> sessionData" where
  "getOrCreate s sid = (case s sid of Some d \<Rightarrow> d | None \<Rightarrow> freshSession)"

definition advanceState :: "sessionData \<Rightarrow> u32 \<Rightarrow> sessionData" where
  "advanceState entry nxt = (if sdState entry \<ge> nxt then entry else entry\<lparr>sdState := nxt\<rparr>)"

definition Elevate :: "SessionLabels \<Rightarrow> string \<Rightarrow> SecurityLabel \<Rightarrow> SessionLabels \<times> SecurityLabel" where
  "Elevate s sid resource =
    (let entry = getOrCreate s sid;
         old = sdLabel entry;
         current = unpackLabel old;
         elevated = elevateLabel current resource;
         newPacked = packLabel elevated;
         result = (if newPacked = old then current else elevated);
         entry1 = (if newPacked = old then entry else entry\<lparr>sdLabel := newPacked\<rparr>);
         entry2 = (if Category result AND TaintBit \<noteq> 0 then advanceState entry1 stateOrdinalTainted
                   else if Confidentiality result \<noteq> 0 \<or> Integrity result \<noteq> 0 \<or> Category result \<noteq> 0
                   then advanceState entry1 stateOrdinalEscalated
                   else entry1)
     in (s(sid \<mapsto> entry2), result))"

definition Current :: "SessionLabels \<Rightarrow> string \<Rightarrow> SecurityLabel" where
  "Current s sid = (case s sid of None \<Rightarrow> zeroLabel | Some d \<Rightarrow> unpackLabel (sdLabel d))"

definition LabelStateOf :: "SessionLabels \<Rightarrow> string \<Rightarrow> LabelState" where
  "LabelStateOf s sid = (case s sid of None \<Rightarrow> LabelStateFresh
    | Some d \<Rightarrow> if sdState d = stateOrdinalTainted then LabelStateTaintedBySecret
                else if sdState d = stateOrdinalDeclassified then LabelStateDeclassified
                else if sdState d = stateOrdinalEscalated then LabelStateEscalated
                else LabelStateFresh)"

definition TaintWithSecret :: "SessionLabels \<Rightarrow> string \<Rightarrow> SessionLabels \<times> SecurityLabel" where
  "TaintWithSecret s sid = Elevate s sid (zeroLabel\<lparr>Category := TaintBit\<rparr>)"

definition InitWithCeiling :: "SessionLabels \<Rightarrow> string \<Rightarrow> SecurityLabel \<Rightarrow> SessionLabels" where
  "InitWithCeiling s sid parentLabel =
    (let entry = getOrCreate s sid;
         packed = packLabel parentLabel;
         c = (if packed = 0 then maxUint64Label else packed)
     in s(sid \<mapsto> (if sdCeiling entry = 0 then entry\<lparr>sdCeiling := c\<rparr> else entry)))"

definition CeilingOf :: "SessionLabels \<Rightarrow> string \<Rightarrow> SecurityLabel" where
  "CeilingOf s sid = (case s sid of None \<Rightarrow> unpackLabel maxUint64Label
    | Some d \<Rightarrow> if sdCeiling d = 0 then unpackLabel maxUint64Label else unpackLabel (sdCeiling d))"

definition CheckCeiling :: "SessionLabels \<Rightarrow> string \<Rightarrow> SecurityLabel \<Rightarrow> bool" where
  "CheckCeiling s sid proposed = Dominates (CeilingOf s sid) proposed"

definition markDeclassified :: "SessionLabels \<Rightarrow> string \<Rightarrow> SessionLabels" where
  "markDeclassified s sid = s(sid \<mapsto> advanceState (getOrCreate s sid) stateOrdinalDeclassified)"

definition IsTainted :: "SessionLabels \<Rightarrow> string \<Rightarrow> bool" where
  "IsTainted s sid = (case s sid of None \<Rightarrow> False
    | Some d \<Rightarrow> Category (unpackLabel (sdLabel d)) AND TaintBit \<noteq> 0)"

definition Snapshot :: "SessionLabels \<Rightarrow> string \<Rightarrow> SessionSnapshot" where
  "Snapshot s sid = (case s sid of
     None \<Rightarrow> \<lparr>SnapLabel = zeroLabel, IsTaintedSnap = False, SnapApproval = ApprovalNone, SnapRules = []\<rparr>
   | Some d \<Rightarrow>
       (let l = unpackLabel (sdLabel d)
        in \<lparr>SnapLabel = l, IsTaintedSnap = (Category l AND TaintBit \<noteq> 0),
            SnapApproval = sdApproval d, SnapRules = sdRules d\<rparr>))"

definition SetApprovalState :: "SessionLabels \<Rightarrow> string \<Rightarrow> u32 \<Rightarrow> SessionLabels" where
  "SetApprovalState s sid st = s(sid \<mapsto> (getOrCreate s sid)\<lparr>sdApproval := st\<rparr>)"

definition AddStandingRule :: "SessionLabels \<Rightarrow> string \<Rightarrow> StandingRule \<Rightarrow> SessionLabels" where
  "AddStandingRule s sid rule =
    (let entry = getOrCreate s sid;
         entry1 = entry\<lparr>sdRules := sdRules entry @ [rule]\<rparr>
     in s(sid \<mapsto> (if sdApproval entry1 \<ge> ApprovalStandingRule then entry1
                  else entry1\<lparr>sdApproval := ApprovalStandingRule\<rparr>)))"

text \<open>\<^verbatim>\<open>matchesPattern\<close> of the registry; \<^verbatim>\<open>pattern[1:]\<close> and \<^verbatim>\<open>pattern[2:]\<close> drop the star and the dot.\<close>

definition matchesPattern :: "string \<Rightarrow> string \<Rightarrow> bool" where
  "matchesPattern pattern target =
    (if \<not> Contains pattern ''*'' then pattern = target
     else if HasPrefix pattern ''*.'' then
       (let suffix = drop 1 pattern in
        if target = drop 2 pattern then True
        else if HasSuffix target suffix
        then CountByte target CHR ''.'' = CountByte suffix CHR ''.''
        else False)
     else if HasSuffix pattern ''/**'' then HasPrefix target (take (length pattern - 3) pattern)
     else filepath_Match pattern target)"

definition rule_expired :: "gotime \<Rightarrow> StandingRule \<Rightarrow> bool" where
  "rule_expired now rule \<longleftrightarrow> \<not> IsZero (ExpiresAt rule) \<and> now > ExpiresAt rule"

definition MatchesStandingRule ::
    "SessionLabels \<Rightarrow> gotime \<Rightarrow> string \<Rightarrow> string \<Rightarrow> string \<Rightarrow> StandingRule option" where
  "MatchesStandingRule s now sid effect resource = (case s sid of None \<Rightarrow> None
    | Some d \<Rightarrow>
       (let res = TrimSuffix (ToLower resource) ''.'' in
        List.find (\<lambda>rule. \<not> rule_expired now rule \<and> RuleEffect rule = effect \<and>
              matchesPattern (TrimSuffix (ToLower (ResourcePattern rule)) ''.'') res) (sdRules d)))"

definition pruneEntry :: "gotime \<Rightarrow> sessionData \<Rightarrow> sessionData" where
  "pruneEntry now entry =
    (let kept = filter (\<lambda>r. IsZero (ExpiresAt r) \<or> now < ExpiresAt r) (sdRules entry);
         entry1 = entry\<lparr>sdRules := kept\<rparr>
     in if kept = [] \<and> sdApproval entry1 = ApprovalStandingRule
        then entry1\<lparr>sdApproval := ApprovalNone\<rparr> else entry1)"

definition PruneExpiredRules :: "gotime \<Rightarrow> SessionLabels \<Rightarrow> SessionLabels" where
  "PruneExpiredRules now s = (\<lambda>sid. map_option (pruneEntry now) (s sid))"

definition SetProjectRoot :: "SessionLabels \<Rightarrow> string \<Rightarrow> string \<Rightarrow> SessionLabels" where
  "SetProjectRoot s sid root =
    (if root = [] then s
     else let entry = getOrCreate s sid
          in s(sid \<mapsto> (if sdRootOnce entry then entry
                       else entry\<lparr>sdProjectRoot := root, sdRootOnce := True\<rparr>)))"

definition ProjectRootOf :: "SessionLabels \<Rightarrow> string \<Rightarrow> string" where
  "ProjectRootOf s sid = (case s sid of None \<Rightarrow> [] | Some d \<Rightarrow> sdProjectRoot d)"

record DeclassificationAnnotation =
  AnnSessionID :: string
  AnnAuditRef :: string
  AnnLabel :: SecurityLabel

definition ApplyGate :: "string \<Rightarrow> SessionLabels \<Rightarrow> string \<Rightarrow> SessionLabels \<times> DeclassificationAnnotation" where
  "ApplyGate auditRef s sid =
    (let current = Current s sid
     in (markDeclassified s sid,
         \<lparr>AnnSessionID = sid, AnnAuditRef = auditRef, AnnLabel = current\<rparr>))"

text \<open>The public operations that change the registry, one rule each.\<close>

inductive session_step :: "SessionLabels \<Rightarrow> SessionLabels \<Rightarrow> bool" where
  st_elevate: "session_step s (fst (Elevate s sid r))"
| st_taint: "session_step s (fst (TaintWithSecret s sid))"
| st_ceiling: "session_step s (InitWithCeiling s sid l)"
| st_gate: "session_step s (fst (ApplyGate a s sid))"
| st_approval: "session_step s (SetApprovalState s sid st)"
| st_rule: "session_step s (AddStandingRule s sid rule)"
| st_prune: "session_step s (PruneExpiredRules now s)"
| st_root: "session_step s (SetProjectRoot s sid root)"

inductive_cases session_stepE: "session_step s t"

section \<open>Taint history\<close>

text \<open>The table has the primary key (session, resource); a row also holds the category and the
  time in seconds.  A database error leaves the table alone and is not modelled.\<close>

record TaintRecord =
  TrSession :: string
  TrResource :: string
  TrCategory :: u32
  TaintedAt :: int

type_synonym TaintHistory = "TaintRecord list"

definition same_key :: "string \<Rightarrow> string \<Rightarrow> TaintRecord \<Rightarrow> bool" where
  "same_key sid res r \<longleftrightarrow> TrSession r = sid \<and> TrResource r = res"

definition RecordTaint :: "gotime \<Rightarrow> TaintHistory \<Rightarrow> string \<Rightarrow> string \<Rightarrow> u32 \<Rightarrow> TaintHistory" where
  "RecordTaint now h sid res cat =
    (if \<exists>r \<in> set h. same_key sid res r
     then map (\<lambda>r. if same_key sid res r then r\<lparr>TrCategory := cat, TaintedAt := Unix now\<rparr> else r) h
     else h @ [\<lparr>TrSession = sid, TrResource = res, TrCategory = cat, TaintedAt = Unix now\<rparr>])"

definition RecentFor :: "gotime \<Rightarrow> TaintHistory \<Rightarrow> string \<Rightarrow> duration \<Rightarrow> TaintRecord list" where
  "RecentFor now h sid since =
     sort_key (\<lambda>r. - TaintedAt r) (filter (\<lambda>r. TrSession r = sid \<and> TaintedAt r \<ge> Unix (now - since)) h)"

definition PruneOlderThan :: "gotime \<Rightarrow> TaintHistory \<Rightarrow> duration \<Rightarrow> TaintHistory \<times> nat" where
  "PruneOlderThan now h age =
    (let threshold = Unix (now - age)
     in (filter (\<lambda>r. \<not> TaintedAt r < threshold) h, length (filter (\<lambda>r. TaintedAt r < threshold) h)))"

section \<open>Reading the registry after an operation\<close>

lemma getOrCreate_upd [session_simps]:
  "getOrCreate (s(sid \<mapsto> d)) sid' = (if sid' = sid then d else getOrCreate s sid')"
  by (simp add: getOrCreate_def)

lemma getOrCreate_empty [simp]: "getOrCreate (\<lambda>_. None) sid = freshSession"
  by (simp add: getOrCreate_def)

lemma pruneEntry_fields [simp]:
  "sdLabel (pruneEntry now d) = sdLabel d" "sdCeiling (pruneEntry now d) = sdCeiling d"
  "sdState (pruneEntry now d) = sdState d" "sdProjectRoot (pruneEntry now d) = sdProjectRoot d"
  "sdRootOnce (pruneEntry now d) = sdRootOnce d"
  "sdRules (pruneEntry now d) = filter (\<lambda>r. IsZero (ExpiresAt r) \<or> now < ExpiresAt r) (sdRules d)"
  by (simp_all add: pruneEntry_def Let_def)

lemma pruneEntry_fresh [simp]: "pruneEntry now freshSession = freshSession"
  by (simp add: pruneEntry_def freshSession_def approval_defs)

lemma getOrCreate_prune [session_simps]:
  "getOrCreate (PruneExpiredRules now s) sid = pruneEntry now (getOrCreate s sid)"
  by (simp add: getOrCreate_def PruneExpiredRules_def split: option.splits)

lemma advanceState_fields [simp]:
  "sdLabel (advanceState d n) = sdLabel d" "sdCeiling (advanceState d n) = sdCeiling d"
  "sdProjectRoot (advanceState d n) = sdProjectRoot d" "sdRootOnce (advanceState d n) = sdRootOnce d"
  "sdApproval (advanceState d n) = sdApproval d" "sdRules (advanceState d n) = sdRules d"
  "sdState (advanceState d n) = max (sdState d) n"
  by (auto simp: advanceState_def max_def)

lemma freshSession_fields [simp]:
  "sdLabel freshSession = 0" "sdCeiling freshSession = 0" "sdState freshSession = 0"
  "sdApproval freshSession = 0" "sdRules freshSession = []" "sdProjectRoot freshSession = []"
  "\<not> sdRootOnce freshSession"
  by (simp_all add: freshSession_def)

text \<open>An absent session reads like a fresh one.\<close>

lemma Current_get: "Current s sid = unpackLabel (sdLabel (getOrCreate s sid))"
  by (simp add: Current_def getOrCreate_def split: option.splits)

lemma IsTainted_get: "IsTainted s sid \<longleftrightarrow> label_tainted (Current s sid)"
  by (simp add: IsTainted_def Current_def label_tainted_def split: option.splits)

lemma CeilingOf_get:
  "CeilingOf s sid = unpackLabel (if sdCeiling (getOrCreate s sid) = 0 then maxUint64Label
                                  else sdCeiling (getOrCreate s sid))"
  by (simp add: CeilingOf_def getOrCreate_def split: option.splits)

lemma ProjectRootOf_get: "ProjectRootOf s sid = sdProjectRoot (getOrCreate s sid)"
  by (simp add: ProjectRootOf_def getOrCreate_def split: option.splits)

lemma Snapshot_get:
  "Snapshot s sid = \<lparr>SnapLabel = Current s sid, IsTaintedSnap = IsTainted s sid,
     SnapApproval = sdApproval (getOrCreate s sid), SnapRules = sdRules (getOrCreate s sid)\<rparr>"
  by (simp add: Snapshot_def Current_def IsTainted_def getOrCreate_def Let_def approval_defs
      split: option.splits)

text \<open>What \<^verbatim>\<open>Elevate\<close> leaves in the entry: the two branches of the loop agree.\<close>

definition elevateOrdinal :: "SecurityLabel \<Rightarrow> u32" where
  "elevateOrdinal l = (if label_tainted l then stateOrdinalTainted
                       else if l \<noteq> zeroLabel then stateOrdinalEscalated else stateOrdinalFresh)"

definition elevateEntry :: "sessionData \<Rightarrow> SecurityLabel \<Rightarrow> sessionData" where
  "elevateEntry d r = (let l = elevateLabel (unpackLabel (sdLabel d)) r
     in d\<lparr>sdLabel := packLabel l, sdState := max (sdState d) (elevateOrdinal l)\<rparr>)"

lemma packed_eq_iff: "packLabel l = w \<longleftrightarrow> l = unpackLabel w"
  by (metis pack_unpack unpack_pack)

lemma advanceState_ordinal:
  "(if Category l AND TaintBit \<noteq> 0 then advanceState d stateOrdinalTainted
    else if Confidentiality l \<noteq> 0 \<or> Integrity l \<noteq> 0 \<or> Category l \<noteq> 0
    then advanceState d stateOrdinalEscalated else d) = d\<lparr>sdState := max (sdState d) (elevateOrdinal l)\<rparr>"
proof -
  have z: "(Confidentiality l \<noteq> 0 \<or> Integrity l \<noteq> 0 \<or> Category l \<noteq> 0) = (l \<noteq> zeroLabel)"
    by (simp add: label_eq_iff)
  have "advanceState d n = d\<lparr>sdState := max (sdState d) n\<rparr>" for n
    by (simp add: advanceState_def max_def)
  then show ?thesis
    unfolding z elevateOrdinal_def label_tainted_def by (simp add: stateOrdinalFresh_def)
qed

lemma Elevate_entry:
  "Elevate s sid r = (s(sid \<mapsto> elevateEntry (getOrCreate s sid) r), elevateLabel (Current s sid) r)"
proof -
  let ?d = "getOrCreate s sid"
  let ?l = "elevateLabel (unpackLabel (sdLabel ?d)) r"
  have 1: "(if packLabel ?l = sdLabel ?d then unpackLabel (sdLabel ?d) else ?l) = ?l"
    by (auto simp: packed_eq_iff)
  have 2: "(if packLabel ?l = sdLabel ?d then ?d else ?d\<lparr>sdLabel := packLabel ?l\<rparr>) =
           ?d\<lparr>sdLabel := packLabel ?l\<rparr>"
    by simp
  show ?thesis
    unfolding Elevate_def Let_def 1 2 advanceState_ordinal by (simp add: elevateEntry_def Current_get Let_def)
qed

lemma Elevate_get [session_simps]:
  "getOrCreate (fst (Elevate s sid r)) sid' =
     (if sid' = sid then elevateEntry (getOrCreate s sid) r else getOrCreate s sid')"
  by (simp add: Elevate_entry getOrCreate_upd)

lemma elevateEntry_fields [simp]:
  "sdLabel (elevateEntry d r) = packLabel (elevateLabel (unpackLabel (sdLabel d)) r)"
  "sdCeiling (elevateEntry d r) = sdCeiling d" "sdProjectRoot (elevateEntry d r) = sdProjectRoot d"
  "sdRootOnce (elevateEntry d r) = sdRootOnce d" "sdApproval (elevateEntry d r) = sdApproval d"
  "sdRules (elevateEntry d r) = sdRules d"
  "sdState (elevateEntry d r) =
     max (sdState d) (elevateOrdinal (elevateLabel (unpackLabel (sdLabel d)) r))"
  by (simp_all add: elevateEntry_def Let_def)

lemma Elevate_result [simp]: "snd (Elevate s sid r) = elevateLabel (Current s sid) r"
  by (simp add: Elevate_entry)

lemma Current_Elevate [session_simps]:
  "Current (fst (Elevate s sid r)) sid' =
     (if sid' = sid then elevateLabel (Current s sid) r else Current s sid')"
  by (simp add: Current_get session_simps)

lemmas registry_ops = TaintWithSecret_def InitWithCeiling_def ApplyGate_def markDeclassified_def
  SetApprovalState_def AddStandingRule_def SetProjectRoot_def

section \<open>What every sequence of operations keeps\<close>

abbreviation session_reach :: "SessionLabels \<Rightarrow> SessionLabels \<Rightarrow> bool" where
  "session_reach \<equiv> session_step\<^sup>*\<^sup>*"

definition ceiling_kept :: "u64 \<Rightarrow> u64 \<Rightarrow> bool" where
  "ceiling_kept new old \<longleftrightarrow> (old = 0 \<or> new = old)"

definition root_kept :: "bool \<times> string \<Rightarrow> bool \<times> string \<Rightarrow> bool" where
  "root_kept new old \<longleftrightarrow> (\<not> fst old \<or> new = old)"

lemma entry_step:
  assumes "session_step s t"
  shows "Dominates (unpackLabel (sdLabel (getOrCreate t k))) (unpackLabel (sdLabel (getOrCreate s k)))"
    and "sdState (getOrCreate t k) \<ge> sdState (getOrCreate s k)"
    and "ceiling_kept (sdCeiling (getOrCreate t k)) (sdCeiling (getOrCreate s k))"
    and "root_kept (sdRootOnce (getOrCreate t k), sdProjectRoot (getOrCreate t k))
                   (sdRootOnce (getOrCreate s k), sdProjectRoot (getOrCreate s k))"
  using assms
  by (cases; simp add: session_simps registry_ops Let_def hwm.dom_refl hwm.elev_upper1
      ceiling_kept_def root_kept_def)+

interpretation label_mono: monotone_observation session_step Current Dominates
proof
  show "Dominates a a" for a by (rule hwm.dom_refl)
  show "Dominates a c" if "Dominates a b" "Dominates b c" for a b c
    using that by (rule hwm.dom_trans)
  show "Dominates (Current t k) (Current s k)" if "session_step s t" for s t k
    using entry_step(1) [OF that] by (simp add: Current_get)
qed

interpretation state_mono:
  monotone_observation session_step "\<lambda>s k. sdState (getOrCreate s k)" "(\<ge>)"
  by unfold_locales (auto intro: entry_step(2))

interpretation ceiling_mono:
  monotone_observation session_step "\<lambda>s k. sdCeiling (getOrCreate s k)" ceiling_kept
  by unfold_locales (auto simp: ceiling_kept_def dest: entry_step(3))

interpretation root_mono:
  monotone_observation session_step
    "\<lambda>s k. (sdRootOnce (getOrCreate s k), sdProjectRoot (getOrCreate s k))" root_kept
  by unfold_locales (auto simp: root_kept_def dest: entry_step(4))

text \<open>The invariant of an entry: the state ordinal is one of the four, it agrees with the label,
  and the project root is non-empty exactly when it was set.\<close>

definition session_ok :: "sessionData \<Rightarrow> bool" where
  "session_ok d \<longleftrightarrow>
     sdState d \<le> stateOrdinalDeclassified \<and>
     elevateOrdinal (unpackLabel (sdLabel d)) \<le> sdState d \<and>
     (sdState d \<noteq> stateOrdinalDeclassified \<longrightarrow> sdState d = elevateOrdinal (unpackLabel (sdLabel d))) \<and>
     (sdRootOnce d \<longleftrightarrow> sdProjectRoot d \<noteq> [])"

definition registry_ok :: "SessionLabels \<Rightarrow> bool" where
  "registry_ok s \<longleftrightarrow> (\<forall>sid. session_ok (getOrCreate s sid))"

lemma elevateOrdinal_range: "elevateOrdinal l \<le> stateOrdinalDeclassified"
  by (simp add: elevateOrdinal_def ordinal_defs)

lemma elevateOrdinal_mono:
  assumes "Dominates a b" shows "elevateOrdinal b \<le> elevateOrdinal a"
proof -
  have "label_tainted b \<Longrightarrow> label_tainted a"
    using assms by (rule label_tainted_mono)
  moreover have "a = zeroLabel \<Longrightarrow> b = zeroLabel"
    using assms hwm.dom_antisym hwm.dom_bot by blast
  ultimately show ?thesis by (auto simp: elevateOrdinal_def ordinal_defs)
qed

lemma session_ok_fresh [simp]: "session_ok freshSession"
  by (simp add: session_ok_def elevateOrdinal_def ordinal_defs)

lemma session_ok_elevate:
  assumes "session_ok d" shows "session_ok (elevateEntry d r)"
proof -
  let ?l = "unpackLabel (sdLabel d)" and ?m = "elevateLabel (unpackLabel (sdLabel d)) r"
  have m: "elevateOrdinal ?l \<le> elevateOrdinal ?m" "elevateOrdinal ?m \<le> stateOrdinalDeclassified"
    by (simp_all add: elevateOrdinal_mono hwm.elev_upper1 elevateOrdinal_range)
  then have x: "max (elevateOrdinal ?l) (elevateOrdinal ?m) = elevateOrdinal ?m"
    "max stateOrdinalDeclassified (elevateOrdinal ?m) = stateOrdinalDeclassified"
    by (simp_all add: max_def)
  show ?thesis
    using assms m x by (cases "sdState d = stateOrdinalDeclassified") (auto simp: session_ok_def)
qed

lemma session_ok_advance:
  assumes "session_ok d" shows "session_ok (advanceState d stateOrdinalDeclassified)"
proof -
  have "max (sdState d) stateOrdinalDeclassified = stateOrdinalDeclassified"
    using assms by (simp add: session_ok_def max_def)
  then show ?thesis using assms by (auto simp: session_ok_def)
qed

lemma session_ok_prune: "session_ok d \<Longrightarrow> session_ok (pruneEntry now d)"
  by (simp add: session_ok_def)

lemma registry_ok_step: "session_step s t \<Longrightarrow> registry_ok s \<Longrightarrow> registry_ok t"
proof (unfold registry_ok_def, rule allI)
  fix k
  assume step: "session_step s t" and ok: "\<forall>sid. session_ok (getOrCreate s sid)"
  from step show "session_ok (getOrCreate t k)"
    by cases (use ok in \<open>auto simp: session_simps registry_ops Let_def session_ok_elevate
        session_ok_prune session_ok_advance session_ok_def [of "_\<lparr>sdCeiling := _\<rparr>"]
        session_ok_def [of "_\<lparr>sdApproval := _\<rparr>"] session_ok_def [of "_\<lparr>sdRules := _\<rparr>"]
        session_ok_def [of "_\<lparr>sdProjectRoot := _, sdRootOnce := _\<rparr>"]
        simp: session_ok_def [of "getOrCreate s _"]\<close>)
qed

lemma registry_ok_empty [simp]: "registry_ok Map.empty"
  by (simp add: registry_ok_def getOrCreate_def)

lemma registry_ok_reach: "session_reach s t \<Longrightarrow> registry_ok s \<Longrightarrow> registry_ok t"
  by (induction rule: rtranclp_induct) (auto intro: registry_ok_step)

section \<open>Standing rules\<close>

lemma CountByte_append [simp]: "CountByte (a @ b) c = CountByte a c + CountByte b c"
  by (simp add: CountByte_def)

lemma CountByte_zero: "CountByte s c = 0 \<longleftrightarrow> c \<notin> set s"
  by (auto simp: CountByte_def filter_empty_conv)

lemma HasPrefix_Cons [simp]: "HasPrefix (x # xs) (y # ys) \<longleftrightarrow> x = y \<and> HasPrefix xs ys"
  by (auto simp: HasPrefix_def)

lemma domain_wildcard:
  "matchesPattern (''*.'' @ base) target \<longleftrightarrow>
     target = base \<or> (\<exists>label. target = label @ ''.'' @ base \<and> CHR ''.'' \<notin> set label)"
proof -
  have c: "Contains (''*.'' @ base) ''*''" by (simp add: HasPrefix_def)
  have p: "HasPrefix (''*.'' @ base) ''*.''" by (simp add: HasPrefix_def)
  have "HasSuffix target (''.'' @ base) \<and>
          CountByte target CHR ''.'' = CountByte (''.'' @ base) CHR ''.'' \<longleftrightarrow>
        (\<exists>label. target = label @ ''.'' @ base \<and> CHR ''.'' \<notin> set label)"
    by (auto simp: HasSuffix_iff CountByte_zero)
  with c p show ?thesis by (auto simp: matchesPattern_def Let_def)
qed

lemma recursive_wildcard:
  assumes "\<not> HasPrefix (dir @ ''/**'') ''*.''"
  shows "matchesPattern (dir @ ''/**'') target \<longleftrightarrow> HasPrefix target dir"
proof -
  have "Contains (dir @ ''/**'') ''*''"
    unfolding Contains_iff by (rule exI [of _ "dir @ ''/''"], rule exI [of _ "''*''"]) simp
  moreover have "HasSuffix (dir @ ''/**'') ''/**''" by (simp add: HasSuffix_def)
  ultimately show ?thesis using assms by (simp add: matchesPattern_def)
qed

lemma find_filter_irrelevant:
  "(\<And>x. x \<in> set xs \<Longrightarrow> P x \<Longrightarrow> Q x) \<Longrightarrow> List.find P (filter Q xs) = List.find P xs"
  by (induction xs) auto

lemma find_live_after_prune:
  assumes "now < later" and "\<And>r. P r \<Longrightarrow> \<not> rule_expired later r"
  shows "List.find P (filter (\<lambda>r. IsZero (ExpiresAt r) \<or> now < ExpiresAt r) rules) = List.find P rules"
  by (rule find_filter_irrelevant) (use assms in \<open>force simp: rule_expired_def\<close>)

section \<open>Properties\<close>

text \<open>Claim C4. The session label is a high-water mark over the whole life of the registry: after any
  sequence of operations (elevations, taints, ceilings, declassification gates, approvals, rules,
  pruning, project roots) on any sessions, the label of every session dominates the label it
  had before; in particular a session that was tainted by a secret stays tainted.\<close>

theorem session_label_never_lowered:
  assumes "session_reach s t"
  shows "Dominates (Current t sid) (Current s sid) \<and> (IsTainted s sid \<longrightarrow> IsTainted t sid)"
  using label_mono.steps_mono [OF assms, of sid] label_tainted_mono
  by (auto simp: IsTainted_get)

lemma reach_taint_gate:
  "session_reach (fst (TaintWithSecret Map.empty ''s1''))
     (fst (ApplyGate ''audit-7'' (fst (TaintWithSecret Map.empty ''s1'')) ''s1''))"
  by (intro r_into_rtranclp st_gate)

theorem session_label_never_lowered_witness:
  "IsTainted (fst (ApplyGate ''audit-7'' (fst (TaintWithSecret Map.empty ''s1'')) ''s1'')) ''s1''"
proof -
  have "IsTainted (fst (TaintWithSecret Map.empty ''s1'')) ''s1''"
    by (simp add: IsTainted_get TaintWithSecret_def Current_Elevate label_tainted_def TaintBit_def)
  with session_label_never_lowered [OF reach_taint_gate, of "''s1''"] show ?thesis by simp
qed

text \<open>The lifecycle state agrees with the label in every registry that can arise: a state
  fresh means the zero label, escalated a nonzero untainted one, tainted a tainted one; and a
  tainted session is reported as tainted or, once a gate was applied, as declassified, with its
  label still tainted.\<close>

theorem lifecycle_state_agrees:
  assumes "session_reach Map.empty s"
  shows "(LabelStateOf s sid = LabelStateFresh \<longrightarrow> Current s sid = zeroLabel) \<and>
         (LabelStateOf s sid = LabelStateEscalated \<longrightarrow>
            Current s sid \<noteq> zeroLabel \<and> \<not> IsTainted s sid) \<and>
         (LabelStateOf s sid = LabelStateTaintedBySecret \<longrightarrow> IsTainted s sid) \<and>
         (IsTainted s sid \<longrightarrow> LabelStateOf s sid \<in> {LabelStateTaintedBySecret, LabelStateDeclassified})"
proof -
  have "session_ok (getOrCreate s sid)"
    using registry_ok_reach [OF assms] by (simp add: registry_ok_def)
  then show ?thesis
    by (cases "s sid") (auto simp: session_ok_def LabelStateOf_def Current_get IsTainted_get
        elevateOrdinal_def getOrCreate_def ordinal_defs split: if_splits)
qed

theorem lifecycle_state_agrees_witness:
  "LabelStateOf (fst (TaintWithSecret Map.empty ''s1'')) ''s1''
     \<in> {LabelStateTaintedBySecret, LabelStateDeclassified}"
proof -
  have r: "session_reach Map.empty (fst (TaintWithSecret Map.empty ''s1''))"
    by (intro r_into_rtranclp st_taint)
  have "IsTainted (fst (TaintWithSecret Map.empty ''s1'')) ''s1''"
    by (simp add: IsTainted_get TaintWithSecret_def Current_Elevate label_tainted_def TaintBit_def)
  with lifecycle_state_agrees [OF r, of "''s1''"] show ?thesis by blast
qed

text \<open>Elevate returns, and stores, the least label that dominates both the session's label
  and the resource's, and touches no other session.\<close>

theorem Elevate_least_upper_bound:
  "Current (fst (Elevate s sid r)) sid = snd (Elevate s sid r) \<and>
   (\<forall>l. Dominates l (snd (Elevate s sid r)) \<longleftrightarrow> Dominates l (Current s sid) \<and> Dominates l r) \<and>
   (\<forall>k. k = sid \<or> fst (Elevate s sid r) k = s k)"
proof -
  have "Dominates l (elevateLabel a b) \<longleftrightarrow> Dominates l a \<and> Dominates l b" for l a b
    by (meson hwm.dom_trans hwm.elev_least hwm.elev_upper1 hwm.elev_upper2)
  then show ?thesis by (simp add: session_simps) (simp add: Elevate_entry)
qed

text \<open>The ceiling and the project root of a session are written once: whatever happens
  later, the first ceiling set by InitWithCeiling and the first non-empty project root stay.\<close>

theorem ceiling_and_root_first_write_wins:
  assumes "session_reach (SetProjectRoot (InitWithCeiling s sid parent) sid root) t"
    and "sdCeiling (getOrCreate s sid) = 0" and "\<not> sdRootOnce (getOrCreate s sid)" and "root \<noteq> []"
  shows "CeilingOf t sid = (if parent = zeroLabel then unpackLabel maxUint64Label else parent) \<and>
         ProjectRootOf t sid = root"
proof -
  let ?s = "SetProjectRoot (InitWithCeiling s sid parent) sid root"
  have "ceiling_kept (sdCeiling (getOrCreate t sid)) (sdCeiling (getOrCreate ?s sid))"
    by (rule ceiling_mono.steps_mono [OF assms(1)])
  moreover have "sdCeiling (getOrCreate ?s sid) =
      (if parent = zeroLabel then maxUint64Label else packLabel parent)"
    using assms(2-4) by (simp add: registry_ops session_simps Let_def)
  moreover have "(maxUint64Label :: u64) \<noteq> 0" by (simp add: maxUint64Label_def)
  ultimately have c: "sdCeiling (getOrCreate t sid) =
      (if parent = zeroLabel then maxUint64Label else packLabel parent)"
    by (auto simp: ceiling_kept_def split: if_splits)
  have "root_kept (sdRootOnce (getOrCreate t sid), sdProjectRoot (getOrCreate t sid))
          (sdRootOnce (getOrCreate ?s sid), sdProjectRoot (getOrCreate ?s sid))"
    by (rule root_mono.steps_mono [OF assms(1)])
  moreover have "sdRootOnce (getOrCreate ?s sid)" "sdProjectRoot (getOrCreate ?s sid) = root"
    using assms(3,4) by (simp_all add: registry_ops session_simps Let_def)
  ultimately have "ProjectRootOf t sid = root" by (simp add: root_kept_def ProjectRootOf_get)
  with c show ?thesis by (simp add: CeilingOf_get maxUint64Label_def)
qed

theorem ceiling_and_root_first_write_wins_witness:
  "ProjectRootOf (SetProjectRoot
      (SetProjectRoot (InitWithCeiling Map.empty ''c'' zeroLabel) ''c'' ''/home/p'') ''c'' ''/etc'') ''c''
     = ''/home/p''"
proof -
  have r: "session_reach (SetProjectRoot (InitWithCeiling Map.empty ''c'' zeroLabel) ''c'' ''/home/p'')
    (SetProjectRoot (SetProjectRoot (InitWithCeiling Map.empty ''c'' zeroLabel) ''c'' ''/home/p'') ''c'' ''/etc'')"
    by (intro r_into_rtranclp st_root)
  show ?thesis
    using ceiling_and_root_first_write_wins [OF r] by (simp add: getOrCreate_def)
qed

text \<open>A domain pattern \<^verbatim>\<open>*.base\<close> of a standing rule covers exactly the base domain and its
  subdomains one level deep, never a deeper one.\<close>

theorem domain_pattern_single_level:
  "matchesPattern (''*.'' @ base) target \<longleftrightarrow>
     target = base \<or> (\<exists>label. target = label @ ''.'' @ base \<and> CHR ''.'' \<notin> set label)"
  by (rule domain_wildcard)

text \<open>A pattern that ends in a slash and two stars covers every target that has the
  directory name as a string prefix: sibling paths such as \<^verbatim>\<open>/tmpfoo\<close> for the pattern \<^verbatim>\<open>/tmp/**\<close> as
  well as the paths below the directory.\<close>

theorem recursive_pattern_is_string_prefix:
  assumes "\<not> HasPrefix (dir @ ''/**'') ''*.''"
  shows "matchesPattern (dir @ ''/**'') (dir @ rest)"
  using recursive_wildcard [OF assms, of "dir @ rest"] by (simp add: HasPrefix_def)

theorem recursive_pattern_is_string_prefix_witness: "matchesPattern ''/tmp/**'' ''/tmpfoo/secrets''"
proof -
  have "\<not> HasPrefix (''/tmp'' @ ''/**'') ''*.''" by (simp add: HasPrefix_def)
  from recursive_pattern_is_string_prefix [OF this, of "''foo/secrets''"] show ?thesis by simp
qed

text \<open>Pruning expired rules changes no later answer: at every later time the first matching
  live rule of a session is the same before and after the pruning.\<close>

theorem PruneExpiredRules_keeps_matches:
  assumes "now < later"
  shows "MatchesStandingRule (PruneExpiredRules now s) later sid effect res =
         MatchesStandingRule s later sid effect res"
  by (cases "s sid")
     (auto simp: MatchesStandingRule_def PruneExpiredRules_def Let_def
       intro!: find_live_after_prune [OF assms])

theorem PruneExpiredRules_keeps_matches_witness:
  "MatchesStandingRule (PruneExpiredRules 5 (AddStandingRule Map.empty ''s''
      \<lparr>RuleEffect = ''network_egress'', ResourcePattern = ''*.github.com'', ExpiresAt = 9,
       GrantedAt = 1, GrantedBy = ''u''\<rparr>)) 6 ''s'' ''network_egress'' ''api.github.com.'' \<noteq> None"
  unfolding PruneExpiredRules_keeps_matches [of 5 6, simplified]
  by (simp add: MatchesStandingRule_def AddStandingRule_def Let_def approval_defs getOrCreate_def
      rule_expired_def IsZero_def matchesPattern_def go_strings ascii_lower_def)

end
