(* ===== verification/CasLoop.thy ===== *)
theory CasLoop
  imports Sessions
begin

text \<open>
  The compare-and-swap loops of \<^verbatim>\<open>internal/ifc/session.go\<close> under interference.  Each goroutine
  runs \<^verbatim>\<open>for { old := Load(); new := f(old); if new == old return; if CAS(old, new) return }\<close> on a
  shared word; the step relation \<^verbatim>\<open>cas_step\<close> interleaves the loads and the swaps of any number
  of them.  \<^verbatim>\<open>Elevate\<close> is the instance whose update packs \<^verbatim>\<open>elevateLabel\<close>, \<^verbatim>\<open>advanceState\<close> the one
  that takes the maximum of state ordinals.  The locale \<^verbatim>\<open>cas_high_water\<close> proves once that no
  update is lost and that losing a swap means another goroutine made progress.
\<close>

section \<open>The step relation\<close>

datatype 'v pc = Start | Loaded 'v | Done 'v

text \<open>The shared word and the program counter of every goroutine.\<close>

type_synonym 'v cas_state = "'v \<times> (nat \<Rightarrow> 'v pc)"

inductive cas_step :: "(nat \<Rightarrow> 'v \<Rightarrow> 'v) \<Rightarrow> 'v cas_state \<Rightarrow> 'v cas_state \<Rightarrow> bool"
  for upd :: "nat \<Rightarrow> 'v \<Rightarrow> 'v" where
  cas_load: "p i = Start \<Longrightarrow> cas_step upd (w, p) (w, p(i := Loaded w))"
| cas_same: "p i = Loaded old \<Longrightarrow> upd i old = old \<Longrightarrow> cas_step upd (w, p) (w, p(i := Done old))"
| cas_win: "p i = Loaded old \<Longrightarrow> upd i old \<noteq> old \<Longrightarrow> w = old \<Longrightarrow>
            cas_step upd (w, p) (upd i old, p(i := Done (upd i old)))"
| cas_lose: "p i = Loaded old \<Longrightarrow> upd i old \<noteq> old \<Longrightarrow> w \<noteq> old \<Longrightarrow>
             cas_step upd (w, p) (w, p(i := Start))"

inductive_cases cas_stepE: "cas_step upd (w, p) st"

definition elevate_upd :: "(nat \<Rightarrow> SecurityLabel) \<Rightarrow> nat \<Rightarrow> u64 \<Rightarrow> u64" where
  "elevate_upd resource i old = packLabel (elevateLabel (unpackLabel old) (resource i))"

definition advance_upd :: "(nat \<Rightarrow> u32) \<Rightarrow> nat \<Rightarrow> u32 \<Rightarrow> u32" where
  "advance_upd nxt i old = (if old \<ge> nxt i then old else nxt i)"

section \<open>No lost update\<close>

text \<open>The client of a high-water mark: goroutine \<^verbatim>\<open>i\<close> raises the word by its argument \<^verbatim>\<open>r i\<close>.\<close>

locale cas_high_water = high_water_mark dom elev bot
  for dom :: "'v \<Rightarrow> 'v \<Rightarrow> bool" and elev and bot +
  fixes r :: "nat \<Rightarrow> 'v"
    and upd :: "nat \<Rightarrow> 'v \<Rightarrow> 'v"
  assumes upd_elev: "upd i v = elev v (r i)"
begin

text \<open>From a start \<^verbatim>\<open>w0\<close>: the word is above the start, every loaded value is below the word, every
  finished goroutine's argument is below its result and its result below the word; and the word is
  below any bound of the start and the arguments.\<close>

definition cas_inv :: "'v \<Rightarrow> 'v cas_state \<Rightarrow> bool" where
  "cas_inv w0 st \<longleftrightarrow> dom (fst st) w0 \<and>
     (\<forall>i v. snd st i = Loaded v \<longrightarrow> dom (fst st) v) \<and>
     (\<forall>i v. snd st i = Done v \<longrightarrow> dom (fst st) v \<and> dom v (r i)) \<and>
     (\<forall>c. dom c w0 \<longrightarrow> (\<forall>i. dom c (r i)) \<longrightarrow> dom c (fst st))"

lemma cas_inv_start: "(\<And>i. p i = Start) \<Longrightarrow> cas_inv w0 (w0, p)"
  by (simp add: cas_inv_def dom_refl)

lemma cas_step_inv:
  assumes "cas_step upd st st'" and inv: "cas_inv w0 st"
  shows "cas_inv w0 st' \<and> dom (fst st') (fst st)"
  using assms(1)
proof cases
  case (cas_load p i w)
  with inv show ?thesis by (auto simp: cas_inv_def dom_refl)
next
  case (cas_same p i old w)
  then have "dom old (r i)" by (simp add: upd_elev elev_absorb)
  with cas_same inv show ?thesis by (auto simp: cas_inv_def dom_refl)
next
  case (cas_win p i old w)
  have up: "dom (elev old (r i)) old" "dom (elev old (r i)) (r i)"
    by (rule elev_upper1 elev_upper2)+
  have below: "dom (elev old (r i)) v" if "dom old v" for v
    using dom_trans [OF up(1) that] .
  from cas_win inv up show ?thesis
    by (auto simp: cas_inv_def upd_elev dom_refl below intro: elev_least)
next
  case (cas_lose p i old w)
  with inv show ?thesis by (auto simp: cas_inv_def dom_refl)
qed

lemma cas_reach_inv:
  assumes "(cas_step upd)\<^sup>*\<^sup>* (w0, p0) st" and "\<And>i. p0 i = Start"
  shows "cas_inv w0 st"
  using assms(1)
  by (induction rule: rtranclp_induct) (auto simp: cas_inv_start assms(2) dest: cas_step_inv)

text \<open>When the first \<^verbatim>\<open>n\<close> goroutines have returned and no other one exists, the word is the high-water
  mark of the start and all their arguments, whatever the interleaving.\<close>

lemma cas_no_lost_update:
  assumes run: "(cas_step upd)\<^sup>*\<^sup>* (w0, p0) (w, p)" and start: "\<And>i. p0 i = Start"
    and idle: "\<And>i. i \<ge> n \<Longrightarrow> r i = bot" and fin: "\<And>i. i < n \<Longrightarrow> \<exists>v. p i = Done v"
  shows "w = foldl elev w0 (map r [0..<n])"
proof (rule dom_antisym)
  have inv: "cas_inv w0 (w, p)" by (rule cas_reach_inv [OF run start])
  show "dom w (foldl elev w0 (map r [0..<n]))"
  proof (rule history_least)
    have "dom w (r i)" if i: "i < n" for i
    proof -
      obtain v where "p i = Done v" using fin [OF i] by blast
      with inv have "dom w v" "dom v (r i)" by (auto simp: cas_inv_def)
      then show ?thesis by (rule dom_trans)
    qed
    then show "\<forall>x \<in> set (map r [0..<n]). dom w x" by auto
  qed (use inv in \<open>simp add: cas_inv_def\<close>)
  have "dom (foldl elev w0 (map r [0..<n])) (r i)" for i
    using history_upper [of w0 "map r [0..<n]"] idle [of i] dom_bot by (cases "i < n") auto
  with inv history_upper [of w0 "map r [0..<n]"] show "dom (foldl elev w0 (map r [0..<n])) w"
    by (simp add: cas_inv_def)
qed

text \<open>A swap is lost only when the word has strictly risen since the load.\<close>

lemma cas_lose_progress:
  assumes "(cas_step upd)\<^sup>*\<^sup>* (w0, p0) (w, p)" "\<And>i. p0 i = Start"
    and "p i = Loaded old" "w \<noteq> old"
  shows "dom w old \<and> \<not> dom old w"
  using cas_reach_inv [OF assms(1,2)] assms(3,4) by (auto simp: cas_inv_def intro: dom_antisym)

end

section \<open>The two loops\<close>

text \<open>The packed words ordered by the labels they hold.\<close>

definition packed_dom :: "u64 \<Rightarrow> u64 \<Rightarrow> bool" where
  "packed_dom a b \<longleftrightarrow> Dominates (unpackLabel a) (unpackLabel b)"

definition packed_elev :: "u64 \<Rightarrow> u64 \<Rightarrow> u64" where
  "packed_elev a b = packLabel (elevateLabel (unpackLabel a) (unpackLabel b))"

interpretation elevate_loop:
  cas_high_water packed_dom packed_elev 0 "\<lambda>i. packLabel (resource i)" "elevate_upd resource"
  for resource
proof
  show "a = b" if "packed_dom a b" "packed_dom b a" for a b
    using hwm.dom_antisym that unfolding packed_dom_def by (metis pack_unpack)
qed (auto simp: packed_dom_def packed_elev_def elevate_upd_def hwm.dom_refl hwm.elev_upper1
     hwm.elev_upper2 hwm.elev_least hwm.dom_bot intro: hwm.dom_trans)

interpretation advance_loop: cas_high_water "(\<ge>)" max "0 :: u32" nxt "advance_upd nxt"
  for nxt
  by unfold_locales (auto simp: advance_upd_def max_def)

lemma unpack_foldl:
  "unpackLabel (foldl packed_elev w (map (\<lambda>i. packLabel (resource i)) xs)) =
   foldl elevateLabel (unpackLabel w) (map resource xs)"
  by (induction xs arbitrary: w) (simp_all add: packed_elev_def)

text \<open>The sequential registry operations are the runs of the loops without interference.\<close>

lemma elevate_upd_sequential:
  "sdLabel (getOrCreate (fst (Elevate s sid l)) sid) =
     elevate_upd (\<lambda>_. l) i (sdLabel (getOrCreate s sid))"
  by (simp add: session_simps elevate_upd_def)

lemma advance_upd_sequential:
  "sdState (advanceState d n) = advance_upd (\<lambda>_. n) i (sdState d)"
  by (simp add: advanceState_def advance_upd_def)

section \<open>Properties\<close>

text \<open>Claim C3. Concurrent elevations of one session lose no update: however the loads and the
  compare-and-swaps of \<^verbatim>\<open>n\<close> goroutines interleave, once all of them have returned the session label is
  the high-water mark of the initial label and of all \<^verbatim>\<open>n\<close> resources.\<close>

theorem concurrent_Elevate_loses_nothing:
  assumes "(cas_step (elevate_upd resource))\<^sup>*\<^sup>* (w0, \<lambda>_. Start) (w, p)"
    and "\<And>i. i \<ge> n \<Longrightarrow> resource i = zeroLabel" and "\<And>i. i < n \<Longrightarrow> \<exists>v. p i = Done v"
  shows "unpackLabel w = foldl elevateLabel (unpackLabel w0) (map resource [0..<n])"
proof -
  have "w = foldl packed_elev w0 (map (\<lambda>i. packLabel (resource i)) [0..<n])"
    by (rule elevate_loop.cas_no_lost_update [OF assms(1)]) (use assms(2,3) in auto)
  then show ?thesis by (simp only: unpack_foldl)
qed

text \<open>Two goroutines race from the zero label: both load, the first wins, the second loses its swap,
  reloads and wins.\<close>

definition race_resource :: "nat \<Rightarrow> SecurityLabel" where
  "race_resource i = (if i = 0 then \<lparr>Confidentiality = 700, Integrity = 1, Category = TaintBit\<rparr>
                      else if i = 1 then \<lparr>Confidentiality = 100, Integrity = 300, Category = CatInternal\<rparr>
                      else zeroLabel)"

definition race_w0 :: u64 where
  "race_w0 = elevate_upd race_resource 0 0"

definition race_w1 :: u64 where
  "race_w1 = elevate_upd race_resource 1 race_w0"

lemma race_differs: "race_w0 \<noteq> 0" "race_w1 \<noteq> race_w0" "elevate_upd race_resource 1 0 \<noteq> 0"
  by (simp_all add: race_w0_def race_w1_def elevate_upd_def race_resource_def packed_eq_iff
      label_eq_iff TaintBit_def CatInternal_def)

lemma race_run:
  "(cas_step (elevate_upd race_resource))\<^sup>*\<^sup>* (0, \<lambda>_. Start)
     (race_w1, ((\<lambda>_. Start)(0 := Done race_w0))(1 := Done race_w1))"
proof -
  let ?R = "cas_step (elevate_upd race_resource)" and ?s = "(\<lambda>_. Start) :: nat \<Rightarrow> u64 pc"
  have "?R (0, ?s) (0, ?s(0 := Loaded 0))" by (rule cas_load) simp
  moreover have "?R (0, ?s(0 := Loaded 0)) (0, (?s(0 := Loaded 0))(1 := Loaded 0))"
    by (rule cas_load) simp
  moreover have "?R (0, (?s(0 := Loaded 0))(1 := Loaded 0))
      (race_w0, ((?s(0 := Loaded 0))(1 := Loaded 0))(0 := Done race_w0))"
    unfolding race_w0_def by (rule cas_win) (use race_differs(1) in \<open>simp_all add: race_w0_def\<close>)
  moreover have "?R (race_w0, ((?s(0 := Loaded 0))(1 := Loaded 0))(0 := Done race_w0))
      (race_w0, (((?s(0 := Loaded 0))(1 := Loaded 0))(0 := Done race_w0))(1 := Start))"
    by (rule cas_lose [where old = 0]) (use race_differs in simp_all)
  moreover have "?R (race_w0, (((?s(0 := Loaded 0))(1 := Loaded 0))(0 := Done race_w0))(1 := Start))
      (race_w0, ((((?s(0 := Loaded 0))(1 := Loaded 0))(0 := Done race_w0))(1 := Start))(1 := Loaded race_w0))"
    by (rule cas_load) simp
  moreover have "?R (race_w0, ((((?s(0 := Loaded 0))(1 := Loaded 0))(0 := Done race_w0))(1 := Start))(1 := Loaded race_w0))
      (race_w1, (((((?s(0 := Loaded 0))(1 := Loaded 0))(0 := Done race_w0))(1 := Start))(1 := Loaded race_w0))(1 := Done race_w1))"
    unfolding race_w1_def
    by (rule cas_win) (use race_differs(2) in \<open>simp_all add: race_w1_def\<close>)
  moreover have "(((((?s(0 := Loaded 0))(1 := Loaded 0))(0 := Done race_w0))(1 := Start))(1 := Loaded race_w0))(1 := Done race_w1)
      = (?s(0 := Done race_w0))(1 := Done race_w1)" by auto
  ultimately show ?thesis by (metis (no_types, lifting) converse_rtranclp_into_rtranclp rtranclp.rtrancl_refl)
qed

theorem concurrent_Elevate_loses_nothing_witness:
  "unpackLabel race_w1 = foldl elevateLabel zeroLabel (map race_resource [0..<2])"
proof -
  have "unpackLabel race_w1 = foldl elevateLabel (unpackLabel 0) (map race_resource [0..<2])"
    by (rule concurrent_Elevate_loses_nothing [OF race_run])
       (auto simp: race_resource_def less_2_cases_iff)
  then show ?thesis by simp
qed

text \<open>The same for the lifecycle state: concurrent \<^verbatim>\<open>advanceState\<close> calls leave the maximum of
  the start and all requested ordinals, so the state never retreats; and a goroutine loses a swap
  only after another one has strictly raised the word.\<close>

theorem concurrent_advanceState_monotone:
  assumes "(cas_step (advance_upd nxt))\<^sup>*\<^sup>* (w0, \<lambda>_. Start) (w, p)"
  shows "w \<ge> w0 \<and> (\<forall>i v. p i = Done v \<longrightarrow> w \<ge> v \<and> v \<ge> nxt i) \<and>
         (\<forall>i old. p i = Loaded old \<and> w \<noteq> old \<longrightarrow> w > old)"
proof -
  have "advance_loop.cas_inv nxt w0 (w, p)"
    by (rule advance_loop.cas_reach_inv [OF assms]) simp
  moreover have "w > old" if "p i = Loaded old" "w \<noteq> old" for i old
    using advance_loop.cas_lose_progress [OF assms _ that] by auto
  ultimately show ?thesis by (auto simp: advance_loop.cas_inv_def)
qed

theorem concurrent_advanceState_monotone_witness:
  "(cas_step (advance_upd (\<lambda>_. 2)))\<^sup>*\<^sup>* (1, \<lambda>_. Start) (2, (\<lambda>_. Start)(0 := Done 2)) \<and> (2 :: u32) \<ge> 1"
proof
  let ?R = "cas_step (advance_upd (\<lambda>_. 2))" and ?s = "(\<lambda>_. Start) :: nat \<Rightarrow> u32 pc"
  have "?R (1, ?s) (1, ?s(0 := Loaded 1))" by (rule cas_load) simp
  moreover have "?R (1, ?s(0 := Loaded 1)) (advance_upd (\<lambda>_. 2) 0 1, (?s(0 := Loaded 1))(0 := Done (advance_upd (\<lambda>_. 2) 0 1)))"
    by (rule cas_win) (simp_all add: advance_upd_def word_le_nat_alt)
  moreover have "advance_upd (\<lambda>_. 2) 0 1 = 2" by (simp add: advance_upd_def word_le_nat_alt)
  ultimately show run: "?R\<^sup>*\<^sup>* (1, ?s) (2, ?s(0 := Done 2))"
    by (metis (no_types, lifting) converse_rtranclp_into_rtranclp fun_upd_upd rtranclp.rtrancl_refl)
  show "(2 :: u32) \<ge> 1" using concurrent_advanceState_monotone [OF run] by simp
qed

end
