(* ===== verification/Regex.thy ===== *)
theory Regex
  imports Prelude
begin

text \<open>
  The fragment of Go's \<^verbatim>\<open>regexp\<close> package the sources use: literals, byte classes with the
  quantifiers star, plus and optional, sequences, alternatives and bounded repetition, the
  anchors and the word boundary.  \<^verbatim>\<open>rests r pre s\<close> lists the ways \<open>r\<close> can match a prefix of \<open>s\<close> after
  the bytes \<open>pre\<close> (kept reversed), as the pairs of the bytes passed and the bytes that remain.
\<close>

datatype re =
    Lit string
  | Cls "char \<Rightarrow> bool"
  | ClsStar "char \<Rightarrow> bool"
  | Opt re
  | Seq re re
  | Alt re re
  | AtBegin
  | AtEnd
  | WordB

definition is_word_byte :: "char \<Rightarrow> bool" where
  "is_word_byte c = (let n = (of_char c :: nat) in
     (48 \<le> n \<and> n \<le> 57) \<or> (65 \<le> n \<and> n \<le> 90) \<or> (97 \<le> n \<and> n \<le> 122) \<or> n = 95)"

definition is_re_space :: "char \<Rightarrow> bool" where
  "is_re_space c = (let n = (of_char c :: nat) in n = 9 \<or> n = 10 \<or> n = 12 \<or> n = 13 \<or> n = 32)"

definition is_digit :: "char \<Rightarrow> bool" where
  "is_digit c = (let n = (of_char c :: nat) in 48 \<le> n \<and> n \<le> 57)"

text \<open>All splits after a prefix of bytes of the class, longest first.\<close>

fun star_rests :: "(char \<Rightarrow> bool) \<Rightarrow> string \<Rightarrow> string \<Rightarrow> (string \<times> string) list" where
  "star_rests P pre [] = [(pre, [])]"
| "star_rests P pre (c # s) = (if P c then star_rests P (c # pre) s @ [(pre, c # s)] else [(pre, c # s)])"

definition word_edge :: "string \<Rightarrow> string \<Rightarrow> bool" where
  "word_edge pre s = ((case pre of [] \<Rightarrow> False | c # _ \<Rightarrow> is_word_byte c) \<noteq>
                      (case s of [] \<Rightarrow> False | c # _ \<Rightarrow> is_word_byte c))"

primrec rests :: "re \<Rightarrow> string \<times> string \<Rightarrow> (string \<times> string) list" where
  "rests (Lit l) ps = (if HasPrefix (snd ps) l then [(rev l @ fst ps, drop (length l) (snd ps))] else [])"
| "rests (Cls P) ps = (case snd ps of [] \<Rightarrow> [] | c # s \<Rightarrow> if P c then [(c # fst ps, s)] else [])"
| "rests (ClsStar P) ps = star_rests P (fst ps) (snd ps)"
| "rests (Opt r) ps = rests r ps @ [ps]"
| "rests (Seq r1 r2) ps = concat (map (rests r2) (rests r1 ps))"
| "rests (Alt r1 r2) ps = rests r1 ps @ rests r2 ps"
| "rests AtBegin ps = (if fst ps = [] then [ps] else [])"
| "rests AtEnd ps = (if snd ps = [] then [ps] else [])"
| "rests WordB ps = (if word_edge (fst ps) (snd ps) then [ps] else [])"

text \<open>\<^verbatim>\<open>MatchString\<close>: some position of the text starts a match.\<close>

fun match_from :: "re \<Rightarrow> string \<Rightarrow> string \<Rightarrow> bool" where
  "match_from r pre [] = (rests r (pre, []) \<noteq> [])"
| "match_from r pre (c # s) = (rests r (pre, c # s) \<noteq> [] \<or> match_from r (c # pre) s)"

definition MatchString :: "re \<Rightarrow> string \<Rightarrow> bool" where
  "MatchString r s = match_from r [] s"

definition ClsPlus :: "(char \<Rightarrow> bool) \<Rightarrow> re" where
  "ClsPlus P = Seq (Cls P) (ClsStar P)"

fun SeqL :: "re list \<Rightarrow> re" where
  "SeqL [] = Lit []"
| "SeqL [r] = r"
| "SeqL (r # r' # rs) = Seq r (SeqL (r' # rs))"

text \<open>Every listed remainder is a real split of the text, so a match is never invented.\<close>

lemma star_rests_split: "(p', s') \<in> set (star_rests P p s) \<Longrightarrow> rev p' @ s' = rev p @ s"
  by (induction P p s rule: star_rests.induct) (auto split: if_splits)

lemma rests_split: "(p', s') \<in> set (rests r (p, s)) \<Longrightarrow> rev p' @ s' = rev p @ s"
proof (induction r arbitrary: p s p' s')
  case (Seq r1 r2)
  then obtain q t where "(q, t) \<in> set (rests r1 (p, s))" "(p', s') \<in> set (rests r2 (q, t))" by auto
  with Seq.IH show ?case by metis
qed (auto simp: HasPrefix_iff star_rests_split split: list.splits if_splits)

end
