(* ===== verification/Classify.thy ===== *)
theory Classify
  imports Types Regex
begin

text \<open>
  The tool classifier of \<^verbatim>\<open>internal/classify\<close>: the open-addressing verdict table built from the
  adapter catalog, the three-tier classifier with the credential pre-scan for shell commands, and
  the argument schemas of \<^verbatim>\<open>argschema.go\<close>.  The probing loops of the table have no bound in the
  code; they are partial functions here, and the table invariant proves that they return.  What
  a table promises its client is the locale \<^verbatim>\<open>first_wins_table\<close>.
\<close>

section \<open>Catalog and verdicts\<close>

record AdapterDef =
  AdTool :: string
  AdFamily :: string
  AdOperation :: string
  AdEffects :: "string list"
  AdResourceType :: string
  AdRiskLevel :: string

record VerdictEntry =
  Classification :: string
  Effects :: "string list"
  RiskLevel :: string
  DefaultClassification :: string
  AdapterName :: string
  ResourceType :: string
  AdapterMatch :: bool

definition zeroVerdict :: VerdictEntry where
  "zeroVerdict = \<lparr>Classification = [], Effects = [], RiskLevel = [], DefaultClassification = [],
                  AdapterName = [], ResourceType = [], AdapterMatch = False\<rparr>"

definition RiskCritical :: string where "RiskCritical = ''critical''"
definition RiskHigh :: string where "RiskHigh = ''high''"
definition RiskMedium :: string where "RiskMedium = ''medium''"
definition RiskLow :: string where "RiskLow = ''low''"
definition RiskNone :: string where "RiskNone = ''none''"

lemmas risk_defs = RiskCritical_def RiskHigh_def RiskMedium_def RiskLow_def RiskNone_def

definition EffectReadFiles :: string where "EffectReadFiles = ''read_files''"
definition EffectWriteFiles :: string where "EffectWriteFiles = ''write_files''"
definition EffectExecProcess :: string where "EffectExecProcess = ''exec_process''"
definition EffectNetworkEgress :: string where "EffectNetworkEgress = ''network_egress''"
definition EffectStateChange :: string where "EffectStateChange = ''state_change''"
definition EffectCredentialUse :: string where "EffectCredentialUse = ''credential_use''"
definition EffectContentInternal :: string where "EffectContentInternal = ''content_internal''"
definition EffectProcessCoordination :: string where "EffectProcessCoordination = ''process_coordination''"
definition EffectContentPublish :: string where "EffectContentPublish = ''content_publish''"
definition EffectMessageContent :: string where "EffectMessageContent = ''message_content''"

lemmas effect_defs = EffectReadFiles_def EffectWriteFiles_def EffectExecProcess_def
  EffectNetworkEgress_def EffectStateChange_def EffectCredentialUse_def EffectContentInternal_def
  EffectProcessCoordination_def EffectContentPublish_def EffectMessageContent_def

definition coordinationTools :: "string list" where
  "coordinationTools = [''TaskCreate'', ''TaskUpdate'', ''TaskGet'', ''TaskList'', ''SendMessage'',
     ''TeamCreate'', ''TeamDelete'', ''Agent'', ''Skill'', ''ExitPlanMode'']"

definition classificationFromOperation :: "string \<Rightarrow> string" where
  "classificationFromOperation op =
    (if op = ''read'' then ''readonly''
     else if op = ''write'' \<or> op = ''update'' then ''write''
     else if op = ''exec'' then ''exec''
     else if op = ''create'' then ''write''
     else if op = ''delete'' then ''write''
     else if op = ''publish'' then ''write''
     else ''unknown'')"

definition adapterDefToVerdict :: "AdapterDef \<Rightarrow> VerdictEntry" where
  "adapterDefToVerdict d =
    (let cls = classificationFromOperation (AdOperation d)
     in \<lparr>Classification = cls, Effects = AdEffects d, RiskLevel = AdRiskLevel d,
         DefaultClassification = cls, AdapterName = AdFamily d @ '':'' @ AdTool d,
         ResourceType = AdResourceType d, AdapterMatch = True\<rparr>)"

section \<open>The verdict table\<close>

type_synonym bucket = "string \<times> VerdictEntry"

record VerdictMap =
  buckets :: "bucket list"
  vmMask :: u64
  vmCount :: nat

definition fnv1aHash :: "string \<Rightarrow> u64" where
  "fnv1aHash s = foldl (\<lambda>h c. (h XOR of_nat (of_char c)) * 1099511628211) 14695981039346656037 s"

text \<open>The lengths of the sources stay far below the width of an \<^verbatim>\<open>int\<close>.\<close>

definition nextPow2 :: "nat \<Rightarrow> nat" where
  "nextPow2 n0 =
    (if n0 \<le> 1 then 1
     else let n = n0 - 1;
              n = n OR drop_bit 1 n;
              n = n OR drop_bit 2 n;
              n = n OR drop_bit 4 n;
              n = n OR drop_bit 8 n;
              n = n OR drop_bit 16 n;
              n = n OR drop_bit 32 n
          in n + 1)"

text \<open>The loop shared by insertion and lookup: advance until the bucket satisfies the exit test.\<close>

partial_function (option) probe :: "(bucket \<Rightarrow> bool) \<Rightarrow> bucket list \<Rightarrow> u64 \<Rightarrow> u64 \<Rightarrow> u64 option" where
  "probe stop bs msk h =
    (if stop (bs ! unat h) then Some h else probe stop bs msk ((h + 1) AND msk))"

definition vm_insert :: "string \<Rightarrow> VerdictEntry \<Rightarrow> VerdictMap \<Rightarrow> VerdictMap option" where
  "vm_insert key value vm =
    map_option (\<lambda>h. vm\<lparr>buckets := (buckets vm)[unat h := (key, value)], vmCount := vmCount vm + 1\<rparr>)
      (probe (\<lambda>b. fst b = []) (buckets vm) (vmMask vm) (fnv1aHash key AND vmMask vm))"

text \<open>\<^verbatim>\<open>VerdictMap.Classify\<close>: the outer option is termination of the loop, the inner one the hit.\<close>

definition vm_Classify :: "VerdictMap \<Rightarrow> string \<Rightarrow> VerdictEntry option option" where
  "vm_Classify vm toolName =
    map_option (\<lambda>h. let b = buckets vm ! unat h in if fst b = [] then None else Some (snd b))
      (probe (\<lambda>b. fst b = [] \<or> fst b = toolName) (buckets vm) (vmMask vm)
         (fnv1aHash toolName AND vmMask vm))"

fun insert_all :: "AdapterDef list \<Rightarrow> VerdictMap \<Rightarrow> VerdictMap option" where
  "insert_all [] vm = Some vm"
| "insert_all (d # ds) vm = Option.bind (vm_insert (AdTool d) (adapterDefToVerdict d) vm) (insert_all ds)"

definition emptyVerdictMap :: "nat \<Rightarrow> VerdictMap" where
  "emptyVerdictMap n = \<lparr>buckets = replicate n ([], zeroVerdict), vmMask = of_nat (n - 1), vmCount = 0\<rparr>"

definition BuildVerdictMap :: "AdapterDef list \<Rightarrow> VerdictMap option" where
  "BuildVerdictMap catalog =
    (let n0 = nextPow2 (length catalog * 10 div 7);
         n = (if n0 < 16 then 16 else n0)
     in insert_all catalog (emptyVerdictMap n))"

section \<open>The classifier\<close>

definition hasAnyPrefix :: "string \<Rightarrow> string list \<Rightarrow> bool" where
  "hasAnyPrefix s prefixes = list_ex (HasPrefix s) prefixes"

definition classifyByPrefix :: "string \<Rightarrow> VerdictEntry option" where
  "classifyByPrefix toolName =
    (if HasPrefix toolName ''mcp__'' then
       Some \<lparr>Classification = ''network'', Effects = [EffectNetworkEgress], RiskLevel = RiskMedium,
             DefaultClassification = ''network'', AdapterName = ''heuristic:mcp-prefix'',
             ResourceType = ''network'', AdapterMatch = False\<rparr>
     else None)"

definition heuristic_entry :: "string \<Rightarrow> string list \<Rightarrow> string \<Rightarrow> string \<Rightarrow> VerdictEntry" where
  "heuristic_entry cls effs risk res =
     \<lparr>Classification = cls, Effects = effs, RiskLevel = risk, DefaultClassification = cls,
      AdapterName = ''heuristic'', ResourceType = res, AdapterMatch = False\<rparr>"

definition heuristic :: "string \<Rightarrow> VerdictEntry" where
  "heuristic toolName =
    (let lower = ToLower toolName in
     if hasAnyPrefix lower [''write'', ''create'', ''update'', ''delete'', ''remove'', ''rm'', ''mv'',
          ''cp'', ''put'', ''set'', ''save'', ''store'']
     then heuristic_entry ''write'' [EffectWriteFiles] RiskMedium ''file''
     else if hasAnyPrefix lower [''fetch'', ''download'', ''upload'', ''send'', ''post'', ''request'',
          ''http'', ''curl'', ''wget'']
     then heuristic_entry ''network'' [EffectNetworkEgress] RiskMedium ''network''
     else if hasAnyPrefix lower [''run'', ''exec'', ''execute'', ''spawn'', ''start'', ''launch'', ''invoke'']
     then heuristic_entry ''exec'' [EffectExecProcess] RiskHigh ''process''
     else if hasAnyPrefix lower [''read'', ''get'', ''list'', ''show'', ''view'', ''describe'', ''query'',
          ''search'', ''find'', ''grep'']
     then heuristic_entry ''readonly'' [EffectReadFiles] RiskLow ''file''
     else heuristic_entry ''unknown'' [] RiskHigh ''file'')"

text \<open>\<^verbatim>\<open>Classifier.Classify\<close> on the table of the classifier; \<^verbatim>\<open>None\<close> is a lookup that does not return.\<close>

definition Classify :: "VerdictMap \<Rightarrow> string \<Rightarrow> (VerdictEntry \<times> bool) option" where
  "Classify vm toolName =
    map_option (\<lambda>hit. case hit of
        Some entry \<Rightarrow> (entry, True)
      | None \<Rightarrow>
        if toolName \<in> set coordinationTools then
          (zeroVerdict\<lparr>Classification := ''unknown'', RiskLevel := RiskCritical,
                       DefaultClassification := ''unknown''\<rparr>, False)
        else case classifyByPrefix toolName of
          Some entry \<Rightarrow> (entry, False)
        | None \<Rightarrow> (heuristic toolName, False))
      (vm_Classify vm toolName)"

definition quote_byte :: "char \<Rightarrow> bool" where
  "quote_byte c \<longleftrightarrow> c = CHR 0x22 \<or> c = CHR 0x27"

definition export_re :: "re \<Rightarrow> re" where
  "export_re tail = SeqL [Lit ''export'', ClsPlus is_re_space, ClsPlus is_word_byte,
     ClsStar is_re_space, Lit ''='', ClsStar is_re_space, Opt (Cls quote_byte), tail]"

definition credentialPatterns :: "re list" where
  "credentialPatterns = [export_re (Lit ''sk-''), export_re (Lit ''ghp_''), export_re (Lit ''AKIA''),
     export_re (SeqL [Lit ''xox'', Cls (\<lambda>c. c \<in> set ''baprs''), Lit ''-''])]"

definition hasCredentialPattern :: "string \<Rightarrow> bool" where
  "hasCredentialPattern text = list_ex (\<lambda>r. MatchString r text) credentialPatterns"

definition effectsContain :: "string list \<Rightarrow> string \<Rightarrow> bool" where
  "effectsContain effects target = list_ex (\<lambda>e. e = target) effects"

definition ClassifyBash :: "VerdictMap \<Rightarrow> string \<Rightarrow> string \<Rightarrow> VerdictEntry option" where
  "ClassifyBash vm toolName commandText =
    map_option (\<lambda>(entry, _).
      if hasCredentialPattern commandText \<and> \<not> effectsContain (Effects entry) EffectCredentialUse
      then entry\<lparr>Effects := Effects entry @ [EffectCredentialUse]\<rparr> else entry)
      (Classify vm toolName)"

section \<open>Argument schemas\<close>

record ArgSchema =
  Required :: "(string \<times> string) list"
  Optional :: "(string \<times> string) list"

record ArgSchemaError =
  ErrField :: string
  ErrExpected :: string
  ErrGot :: string

record ArgSchemaResult =
  SchemaErr :: "ArgSchemaError option"
  UnknownTool :: bool

fun jsonTypeName :: "json \<Rightarrow> string" where
  "jsonTypeName (JStr _) = ''string''"
| "jsonTypeName (JNum _) = ''int''"
| "jsonTypeName (JBool _) = ''bool''"
| "jsonTypeName (JObj _) = ''object''"
| "jsonTypeName (JArr _) = ''array''"
| "jsonTypeName JNull = ''unknown''"

text \<open>The fields are Go maps, ranged over in an unspecified order: the first violation found depends
  on it, whether there is one does not.  The lists below are in the order of the source.\<close>

fun check_required :: "json_map \<Rightarrow> (string \<times> string) list \<Rightarrow> ArgSchemaError option" where
  "check_required args [] = None"
| "check_required args ((f, ty) # fs) = (case args f of
     None \<Rightarrow> Some \<lparr>ErrField = f, ErrExpected = ty, ErrGot = ''missing''\<rparr>
   | Some JNull \<Rightarrow> Some \<lparr>ErrField = f, ErrExpected = ty, ErrGot = ''null''\<rparr>
   | Some v \<Rightarrow> if jsonTypeName v \<noteq> ty then Some \<lparr>ErrField = f, ErrExpected = ty, ErrGot = jsonTypeName v\<rparr>
               else check_required args fs)"

fun check_optional :: "json_map \<Rightarrow> (string \<times> string) list \<Rightarrow> ArgSchemaError option" where
  "check_optional args [] = None"
| "check_optional args ((f, ty) # fs) = (case args f of
     None \<Rightarrow> check_optional args fs
   | Some JNull \<Rightarrow> check_optional args fs
   | Some v \<Rightarrow> if jsonTypeName v \<noteq> ty then Some \<lparr>ErrField = f, ErrExpected = ty, ErrGot = jsonTypeName v\<rparr>
               else check_optional args fs)"

definition validate :: "ArgSchema \<Rightarrow> json_map \<Rightarrow> ArgSchemaError option" where
  "validate s args = (case check_required args (Required s) of
     Some e \<Rightarrow> Some e | None \<Rightarrow> check_optional args (Optional s))"

definition toolSchemas :: "(string \<times> ArgSchema) list" where
  "toolSchemas = [
    (''Bash'', \<lparr>Required = [(''command'', ''string'')],
       Optional = [(''description'', ''string''), (''timeout'', ''int''),
         (''dangerouslyDisableSandbox'', ''bool''), (''run_in_background'', ''bool'')]\<rparr>),
    (''Read'', \<lparr>Required = [(''file_path'', ''string'')],
       Optional = [(''offset'', ''int''), (''limit'', ''int''), (''pages'', ''string'')]\<rparr>),
    (''Write'', \<lparr>Required = [(''file_path'', ''string''), (''content'', ''string'')], Optional = []\<rparr>),
    (''Edit'', \<lparr>Required = [],
       Optional = [(''file_path'', ''string''), (''old_string'', ''string''),
         (''new_string'', ''string''), (''replace_all'', ''bool'')]\<rparr>),
    (''WebFetch'', \<lparr>Required = [], Optional = [(''url'', ''string''), (''prompt'', ''string'')]\<rparr>),
    (''WebSearch'', \<lparr>Required = [],
       Optional = [(''query'', ''string''), (''allowed_domains'', ''array''), (''blocked_domains'', ''array'')]\<rparr>),
    (''Agent'', \<lparr>Required = [],
       Optional = [(''description'', ''string''), (''prompt'', ''string''), (''model'', ''string''),
         (''team_name'', ''string''), (''name'', ''string''), (''subagent_type'', ''string'')]\<rparr>),
    (''SendMessage'', \<lparr>Required = [],
       Optional = [(''to'', ''string''), (''message'', ''string''), (''summary'', ''string'')]\<rparr>),
    (''NotebookEdit'', \<lparr>Required = [],
       Optional = [(''notebook_path'', ''string''), (''new_source'', ''string''), (''cell_id'', ''string''),
         (''cell_type'', ''string''), (''edit_mode'', ''string'')]\<rparr>)]"

text \<open>A nil map reads as an empty one.\<close>

definition CheckArgSchema :: "string \<Rightarrow> json_map option \<Rightarrow> ArgSchemaResult" where
  "CheckArgSchema tool args = (case map_of toolSchemas tool of
     None \<Rightarrow> \<lparr>SchemaErr = None, UnknownTool = True\<rparr>
   | Some s \<Rightarrow> \<lparr>SchemaErr = validate s (case args of None \<Rightarrow> Map.empty | Some m \<Rightarrow> m),
               UnknownTool = False\<rparr>)"

section \<open>Powers of two\<close>

definition smear :: "nat \<Rightarrow> nat \<Rightarrow> nat" where
  "smear k n = n OR drop_bit k n"

lemma bit_smear:
  assumes "\<And>i. bit n i \<longleftrightarrow> (\<exists>j<k. bit m (i + j))"
  shows "bit (smear k n) i \<longleftrightarrow> (\<exists>j<k + k. bit m (i + j))"
proof -
  have "(\<exists>j<k + k. bit m (i + j)) \<longleftrightarrow> (\<exists>j<k. bit m (i + j)) \<or> (\<exists>j<k. bit m (i + k + j))"
  proof
    assume "\<exists>j<k + k. bit m (i + j)"
    then obtain j where j: "j < k + k" "bit m (i + j)" by blast
    show "(\<exists>j<k. bit m (i + j)) \<or> (\<exists>j<k. bit m (i + k + j))"
    proof (cases "j < k")
      case False
      with j have "j - k < k" "bit m (i + k + (j - k))" by auto
      then show ?thesis by blast
    qed (use j in blast)
  next
    assume "(\<exists>j<k. bit m (i + j)) \<or> (\<exists>j<k. bit m (i + k + j))"
    then show "\<exists>j<k + k. bit m (i + j)"
    proof
      assume "\<exists>j<k. bit m (i + k + j)"
      then obtain j where "j < k" "bit m (i + (k + j))" by (auto simp: add.assoc)
      then show ?thesis by (intro exI [of _ "k + j"]) simp
    qed (auto intro: trans_less_add1)
  qed
  then show ?thesis by (simp add: smear_def bit_simps assms add.commute add.left_commute)
qed

lemma bit_smear_double:
  assumes "\<forall>i. bit n i \<longleftrightarrow> (\<exists>j<k. bit m (i + j))" and "k2 = k + k"
  shows "\<forall>i. bit (smear k n) i \<longleftrightarrow> (\<exists>j<k2. bit m (i + j))"
  using bit_smear [of n k m] assms by blast

lemma smear_64:
  "\<forall>i. bit (smear 32 (smear 16 (smear 8 (smear 4 (smear 2 (smear 1 m)))))) i \<longleftrightarrow>
     (\<exists>j<64. bit m (i + j))" for m :: nat
proof -
  have "\<forall>i. bit m i \<longleftrightarrow> (\<exists>j<1. bit m (i + j))" by simp
  from bit_smear_double [OF this, of 2] have "\<forall>i. bit (smear 1 m) i \<longleftrightarrow> (\<exists>j<2. bit m (i + j))" by simp
  note bit_smear_double [OF this, of 4, simplified]
  note bit_smear_double [OF this, of 8, simplified]
  note bit_smear_double [OF this, of 16, simplified]
  note bit_smear_double [OF this, of 32, simplified]
  note bit_smear_double [OF this, of 64, simplified]
  then show ?thesis by simp
qed

lemma nat_bit_bound: "bit (m :: nat) j \<Longrightarrow> m < 2 ^ k \<Longrightarrow> j < k"
  by (metis bit_take_bit_iff take_bit_nat_eq_self)

lemma nat_exists_bit_ge: "(\<exists>j. bit m (i + j)) \<longleftrightarrow> 2 ^ i \<le> m" for m :: nat
proof -
  have "(\<exists>j. bit m (i + j)) \<longleftrightarrow> drop_bit i m \<noteq> 0"
    by (auto simp: bit_eq_iff bit_simps)
  also have "\<dots> \<longleftrightarrow> 2 ^ i \<le> m"
    by (simp add: drop_bit_eq_div div_eq_0_iff not_less)
  finally show ?thesis .
qed

lemma smeared_is_mask:
  fixes m N :: nat
  assumes "m < 2 ^ 64" and "\<forall>i. bit N i \<longleftrightarrow> (\<exists>j<64. bit m (i + j))"
  shows "\<exists>k. N + 1 = 2 ^ k \<and> m < 2 ^ k \<and> (\<forall>K. m < 2 ^ K \<longrightarrow> k \<le> K)"
proof -
  define k where "k = (LEAST k. m < 2 ^ k)"
  have k: "m < 2 ^ k" unfolding k_def by (rule LeastI [of _ 64]) (rule assms(1))
  have least: "\<forall>K. m < 2 ^ K \<longrightarrow> k \<le> K" unfolding k_def by (auto intro: Least_le)
  have "bit N i \<longleftrightarrow> i < k" for i
  proof -
    have "bit N i \<longleftrightarrow> (\<exists>j. bit m (i + j))"
      using assms(2) nat_bit_bound [OF _ assms(1)] by (metis add_lessD1 add.commute)
    also have "\<dots> \<longleftrightarrow> i < k"
      using k not_less_Least [of i "\<lambda>k. m < 2 ^ k"] power_increasing [of k i "2 :: nat"]
      unfolding nat_exists_bit_ge k_def [symmetric] by (metis not_le order_less_le_trans one_le_numeral)
    finally show ?thesis .
  qed
  then have "N = mask k" by (auto simp: bit_eq_iff bit_simps)
  then have "N + 1 = 2 ^ k" by (simp add: mask_eq_exp_minus_1)
  with k least show ?thesis by blast
qed

lemma nextPow2_power:
  assumes "n \<le> 2 ^ 64"
  shows "\<exists>k. nextPow2 n = 2 ^ k \<and> n \<le> 2 ^ k \<and> (\<forall>K. n \<le> 2 ^ K \<longrightarrow> k \<le> K)"
proof (cases "n \<le> 1")
  case True
  then show ?thesis by (intro exI [of _ 0]) (simp add: nextPow2_def)
next
  case False
  let ?N = "smear 32 (smear 16 (smear 8 (smear 4 (smear 2 (smear 1 (n - 1))))))"
  have "nextPow2 n = ?N + 1" using False by (simp add: nextPow2_def smear_def Let_def)
  moreover have "n - 1 < 2 ^ 64" using assms False by linarith
  then obtain k where "?N + 1 = 2 ^ k" "n - 1 < 2 ^ k" "\<forall>K. n - 1 < 2 ^ K \<longrightarrow> k \<le> K"
    using smeared_is_mask [OF _ smear_64] by blast
  moreover have "n \<le> 2 ^ K \<longleftrightarrow> n - 1 < 2 ^ K" for K using False by linarith
  ultimately show ?thesis by (intro exI [of _ k]) simp
qed

section \<open>Probing\<close>

text \<open>The bucket \<open>d\<close> steps after the home position of a key, and the table invariant: a power of two
  of buckets, and from the home of every stored key to its bucket no bucket is free.\<close>

definition home :: "VerdictMap \<Rightarrow> string \<Rightarrow> nat" where
  "home vm key = unat (fnv1aHash key) mod length (buckets vm)"

definition slot :: "VerdictMap \<Rightarrow> string \<Rightarrow> nat \<Rightarrow> nat" where
  "slot vm key d = (home vm key + d) mod length (buckets vm)"

abbreviation key_at :: "VerdictMap \<Rightarrow> nat \<Rightarrow> string" where
  "key_at vm i \<equiv> fst (buckets vm ! i)"

definition table_shape :: "VerdictMap \<Rightarrow> bool" where
  "table_shape vm \<longleftrightarrow> (\<exists>k<64. length (buckets vm) = 2 ^ k \<and> vmMask vm = mask k)"

definition no_gaps :: "VerdictMap \<Rightarrow> bool" where
  "no_gaps vm \<longleftrightarrow> (\<forall>j < length (buckets vm). key_at vm j \<noteq> [] \<longrightarrow>
     (\<exists>D. j = slot vm (key_at vm j) D \<and> (\<forall>d<D. key_at vm (slot vm (key_at vm j) d) \<noteq> [])))"

definition free_slots :: "VerdictMap \<Rightarrow> nat" where
  "free_slots vm = length (filter (\<lambda>b. fst b = []) (buckets vm))"

definition table_room :: "VerdictMap \<Rightarrow> nat \<Rightarrow> bool" where
  "table_room vm r \<longleftrightarrow> table_shape vm \<and> no_gaps vm \<and> r < free_slots vm"

lemma mask_step: "unat (w AND mask k :: u64) = unat w mod 2 ^ k"
proof -
  have "unat (take_bit k w) = take_bit k (unat w)" by (rule unsigned_take_bit_eq)
  then show ?thesis by (simp only: take_bit_eq_mask) (simp only: take_bit_eq_mask [symmetric] take_bit_eq_mod)
qed

lemma mask_next:
  assumes "k < 64" shows "unat ((h + 1) AND mask k :: u64) = (unat h + 1) mod 2 ^ k"
proof -
  have "(2 :: nat) ^ k dvd 2 ^ LENGTH(64)" by (rule le_imp_power_dvd) (use assms in simp)
  then have "(unat h + unat (1 :: u64)) mod 2 ^ LENGTH(64) mod 2 ^ k = (unat h + unat (1 :: u64)) mod 2 ^ k"
    by (rule mod_mod_cancel)
  then have "unat (h + 1) mod 2 ^ k = (unat h + unat (1 :: u64)) mod 2 ^ k"
    by (simp only: unat_word_ariths)
  then show ?thesis by (simp only: mask_step unsigned_1)
qed

lemma probe_finds:
  assumes "k < 64" and "length bs = 2 ^ k" and "unat h = a mod 2 ^ k"
    and "\<forall>d<D. \<not> stop (bs ! ((a + d) mod 2 ^ k))" and "stop (bs ! ((a + D) mod 2 ^ k))"
  shows "\<exists>h'. probe stop bs (mask k) h = Some h' \<and> unat h' = (a + D) mod 2 ^ k"
  using assms(3-5)
proof (induction D arbitrary: a h)
  case 0
  then show ?case by (subst probe.simps) simp
next
  case (Suc D)
  have "\<not> stop (bs ! unat h)" using Suc.prems(1) Suc.prems(2) [rule_format, of 0] by simp
  moreover have "unat ((h + 1) AND mask k) = Suc a mod 2 ^ k"
    using mask_next [OF assms(1), of h] Suc.prems(1) by (simp add: mod_Suc_eq)
  moreover have "\<forall>d<D. \<not> stop (bs ! ((Suc a + d) mod 2 ^ k))"
    using Suc.prems(2) by (metis Suc_less_eq add_Suc add_Suc_right)
  ultimately show ?case
    using Suc.IH [of "(h + 1) AND mask k" "Suc a"] Suc.prems(3)
    by (subst probe.simps) (simp add: add.commute)
qed

lemma probe_home:
  assumes "table_shape vm" and "\<forall>d<D. \<not> stop (buckets vm ! slot vm key d)"
    and "stop (buckets vm ! slot vm key D)"
  shows "\<exists>h. probe stop (buckets vm) (vmMask vm) (fnv1aHash key AND vmMask vm) = Some h \<and>
             unat h = slot vm key D"
proof -
  obtain k where k: "k < 64" "length (buckets vm) = 2 ^ k" "vmMask vm = mask k"
    using assms(1) by (auto simp: table_shape_def)
  have "unat (fnv1aHash key AND mask k) = unat (fnv1aHash key) mod 2 ^ k"
    by (rule mask_step)
  from probe_finds [OF k(1,2) this] assms(2,3) k show ?thesis
    by (simp add: slot_def home_def mod_add_left_eq)
qed

lemma slot_less: "table_shape vm \<Longrightarrow> slot vm key d < length (buckets vm)"
  by (auto simp: table_shape_def slot_def)

lemma slot_reaches:
  assumes "table_shape vm" "j < length (buckets vm)" shows "\<exists>d. slot vm key d = j"
proof -
  let ?n = "length (buckets vm)"
  have "home vm key < ?n" using assms by (auto simp: home_def table_shape_def)
  then have "slot vm key (j + ?n - home vm key) = j"
    using assms(2) by (simp add: slot_def)
  then show ?thesis by blast
qed

text \<open>The first place where the probing of a key stops.\<close>

lemma first_stop:
  assumes "table_shape vm" "0 < free_slots vm" "\<And>b. fst b = [] \<Longrightarrow> stop b"
  obtains D where "stop (buckets vm ! slot vm key D)" "\<forall>d<D. \<not> stop (buckets vm ! slot vm key d)"
proof -
  have "filter (\<lambda>b. fst b = []) (buckets vm) \<noteq> []" using assms(2) by (auto simp: free_slots_def)
  then obtain j where "j < length (buckets vm)" "key_at vm j = []"
    by (auto simp: filter_empty_conv in_set_conv_nth)
  with slot_reaches [OF assms(1)] assms(3) obtain d where "stop (buckets vm ! slot vm key d)" by metis
  then have "stop (buckets vm ! slot vm key (LEAST d. stop (buckets vm ! slot vm key d)))"
    by (rule LeastI)
  then show ?thesis using that not_less_Least by blast
qed

lemma Classify_hit:
  assumes "table_shape vm" "key_at vm (slot vm t D) = t" "t \<noteq> []"
    "\<forall>d<D. key_at vm (slot vm t d) \<notin> {[], t}"
  shows "vm_Classify vm t = Some (Some (snd (buckets vm ! slot vm t D)))"
proof -
  obtain h where "probe (\<lambda>b. fst b = [] \<or> fst b = t) (buckets vm) (vmMask vm) (fnv1aHash t AND vmMask vm) = Some h"
      "unat h = slot vm t D"
    using probe_home [OF assms(1), of D "\<lambda>b. fst b = [] \<or> fst b = t" t] assms(2,4) by auto
  with assms(2,3) show ?thesis by (simp add: vm_Classify_def Let_def)
qed

lemma Classify_miss:
  assumes "table_shape vm" "key_at vm (slot vm t D) = []" "\<forall>d<D. key_at vm (slot vm t d) \<notin> {[], t}"
  shows "vm_Classify vm t = Some None"
  using probe_home [OF assms(1), of D "\<lambda>b. fst b = [] \<or> fst b = t" t] assms(2,3)
  by (auto simp: vm_Classify_def Let_def)

text \<open>Overwriting a free bucket.\<close>

definition put :: "VerdictMap \<Rightarrow> nat \<Rightarrow> string \<Rightarrow> VerdictEntry \<Rightarrow> VerdictMap" where
  "put vm e key v = vm\<lparr>buckets := (buckets vm)[e := (key, v)], vmCount := vmCount vm + 1\<rparr>"

lemma put_slot [simp]: "slot (put vm e key v) = slot vm" "home (put vm e key v) = home vm"
  by (simp_all add: fun_eq_iff slot_def home_def put_def)

lemma put_length [simp]: "length (buckets (put vm e key v)) = length (buckets vm)"
  by (simp add: put_def)

lemma put_shape [simp]: "table_shape (put vm e key v) = table_shape vm"
  by (simp add: table_shape_def put_def)

lemma put_at:
  "i < length (buckets vm) \<Longrightarrow>
   buckets (put vm e key v) ! i = (if i = e then (key, v) else buckets vm ! i)"
  by (simp add: put_def nth_list_update)

lemma put_free:
  assumes "e < length (buckets vm)" "key_at vm e = []"
  shows "free_slots vm \<le> free_slots (put vm e key v) + 1"
proof -
  have "length (filter P (xs[i := y])) + 1 \<ge> length (filter P xs)" for P :: "bucket \<Rightarrow> bool" and xs i y
    by (induction xs arbitrary: i) (auto split: nat.splits)
  then show ?thesis by (simp add: free_slots_def put_def)
qed

lemma insert_puts:
  assumes "table_shape vm" "0 < free_slots vm"
  obtains E where "vm_insert key v vm = Some (put vm (slot vm key E) key v)"
    "key_at vm (slot vm key E) = []" "\<forall>d<E. key_at vm (slot vm key d) \<noteq> []"
proof -
  obtain E where E: "key_at vm (slot vm key E) = []" "\<forall>d<E. key_at vm (slot vm key d) \<noteq> []"
    using first_stop [OF assms, of "\<lambda>b. fst b = []" key] by blast
  with probe_home [OF assms(1), of E "\<lambda>b. fst b = []" key] that show ?thesis
    by (auto simp: vm_insert_def put_def)
qed

lemma put_no_gaps:
  assumes "table_shape vm" "no_gaps vm" "key_at vm (slot vm key E) = []"
    "\<forall>d<E. key_at vm (slot vm key d) \<noteq> []"
  shows "no_gaps (put vm (slot vm key E) key v)"
  unfolding no_gaps_def
proof (intro allI impI)
  let ?e = "slot vm key E"
  let ?vm = "put vm ?e key v"
  fix j
  assume j: "j < length (buckets ?vm)" "key_at ?vm j \<noteq> []"
  have keep: "key_at ?vm (slot vm t d) \<noteq> []" if "key_at vm (slot vm t d) \<noteq> []" for t d
    using that assms(3) slot_less [OF assms(1), of t d] by (auto simp: put_at)
  show "\<exists>D. j = slot ?vm (key_at ?vm j) D \<and> (\<forall>d<D. key_at ?vm (slot ?vm (key_at ?vm j) d) \<noteq> [])"
  proof (cases "j = ?e")
    case True
    with j have "key_at ?vm j = key" by (simp add: put_at)
    with True keep assms(4) show ?thesis by auto
  next
    case False
    with j have same: "key_at ?vm j = key_at vm j" by (simp add: put_at)
    with assms(2) j obtain D where "j = slot vm (key_at vm j) D" "\<forall>d<D. key_at vm (slot vm (key_at vm j) d) \<noteq> []"
      unfolding no_gaps_def by (metis put_length)
    with keep same show ?thesis by (metis put_slot(1))
  qed
qed

text \<open>When an insertion fills the free bucket where the probing of another key stopped, that key
  is not further down the chain either.\<close>

lemma lookup_past:
  assumes shape: "table_shape vm" and gaps: "no_gaps vm" and room: "1 < free_slots vm"
    and E: "key_at vm (slot vm key E) = []" "\<forall>d<E. key_at vm (slot vm key d) \<noteq> []"
    and D: "\<forall>d<D. key_at vm (slot vm t d) \<notin> {[], t}" "key_at vm (slot vm t D) = []"
    and same: "slot vm t D = slot vm key E" and ne: "t \<noteq> key"
  shows "vm_Classify (put vm (slot vm key E) key v) t = Some None"
proof -
  let ?vm = "put vm (slot vm key E) key v"
  note less = slot_less [OF shape]
  note at = put_at [OF less]
  have "0 < free_slots ?vm"
    using room put_free [OF less E(1), of key v] by linarith
  then obtain D' where D': "key_at ?vm (slot vm t D') = []" "\<forall>d<D'. key_at ?vm (slot vm t d) \<noteq> []"
    using first_stop [of ?vm "\<lambda>b. fst b = []" t] shape by auto
  have "key_at ?vm (slot vm t d) \<noteq> t" if d: "d < D'" for d
  proof
    assume a: "key_at ?vm (slot vm t d) = t"
    with ne have off: "slot vm t d \<noteq> slot vm key E" by (auto simp: at)
    with a have k: "key_at vm (slot vm t d) = t" by (simp add: at)
    moreover have "t \<noteq> []" using a d D'(2) by auto
    ultimately obtain D0 where D0: "slot vm t d = slot vm t D0" "\<forall>i<D0. key_at vm (slot vm t i) \<noteq> []"
      using gaps less unfolding no_gaps_def by metis
    then have "D0 < D" using same off D(2) by (metis linorder_neqE_nat)
    with D(1) D0(1) k show False by auto
  qed
  with D' shape show ?thesis by (intro Classify_miss [of _ _ D']) auto
qed

text \<open>Lookup after an insertion: the inserted key is found if it was absent, every other answer is
  unchanged.  In particular a key that is already present keeps its first value.\<close>

lemma lookup_put:
  assumes shape: "table_shape vm" and gaps: "no_gaps vm" and room: "1 < free_slots vm"
    and E: "key_at vm (slot vm key E) = []" "\<forall>d<E. key_at vm (slot vm key d) \<noteq> []"
  shows "vm_Classify (put vm (slot vm key E) key v) t =
     (if key \<noteq> [] \<and> t = key \<and> vm_Classify vm key = Some None then Some (Some v) else vm_Classify vm t)"
proof -
  let ?e = "slot vm key E"
  let ?vm = "put vm ?e key v"
  note less = slot_less [OF shape]
  note at = put_at [OF less]
  obtain D where D: "key_at vm (slot vm t D) = [] \<or> key_at vm (slot vm t D) = t"
      "\<forall>d<D. key_at vm (slot vm t d) \<notin> {[], t}"
    using first_stop [OF shape, of "\<lambda>b. fst b = [] \<or> fst b = t" t] room by auto
  have before: "slot vm t d \<noteq> ?e" if "d < D" for d using D(2) E(1) that by auto
  show ?thesis
  proof (cases "key_at vm (slot vm t D) = []")
    case False
    then have hit: "key_at vm (slot vm t D) = t" "t \<noteq> []" using D(1) by auto
    then have "slot vm t D \<noteq> ?e" using E(1) by auto
    moreover from this have "vm_Classify ?vm t = Some (Some (snd (buckets ?vm ! slot ?vm t D)))"
      using hit D(2) before shape by (intro Classify_hit) (auto simp: at)
    ultimately show ?thesis using Classify_hit [OF shape hit D(2)] by (auto simp: at)
  next
    case True
    note miss = Classify_miss [OF shape True D(2)]
    show ?thesis
    proof (cases "slot vm t D = ?e \<and> key \<noteq> []")
      case False
      then have "vm_Classify ?vm t = Some None"
        using True D(2) before shape by (intro Classify_miss [of _ _ D]) (auto simp: at)
      moreover have "\<not> (key \<noteq> [] \<and> t = key)"
      proof
        assume kt: "key \<noteq> [] \<and> t = key"
        with False have "slot vm key D \<noteq> slot vm key E" by simp
        with kt D True E show False
          by (metis insert_iff linorder_neqE_nat)
      qed
      ultimately show ?thesis using miss by auto
    next
      case same: True
      show ?thesis
      proof (cases "t = key")
        case True
        then have "vm_Classify ?vm t = Some (Some (snd (buckets ?vm ! slot ?vm t D)))"
          using same D(2) before shape by (intro Classify_hit) (auto simp: at)
        then show ?thesis using True same miss by (simp add: at)
      next
        case False
        have "vm_Classify ?vm t = Some None"
          by (rule lookup_past [OF shape gaps room E D(2) True])
             (use same False in auto)
        then show ?thesis using False miss by simp
      qed
    qed
  qed
qed

section \<open>The table contract\<close>

text \<open>What a client of an insert-only table relies on: with room for an insertion the insertion
  returns, consumes at most one unit of room, and makes a proper key findable unless it already was.
  Loading a whole list then gives the first value of every key.\<close>

locale first_wins_table =
  fixes ins :: "'k \<Rightarrow> 'v \<Rightarrow> 't \<Rightarrow> 't option"
    and lookup :: "'t \<Rightarrow> 'k \<Rightarrow> 'v option option"
    and room :: "'t \<Rightarrow> nat \<Rightarrow> bool"
    and proper :: "'k \<Rightarrow> bool"
  assumes ins_returns: "room t (Suc r) \<Longrightarrow> \<exists>t'. ins k v t = Some t' \<and> room t' r"
    and lookup_ins: "room t (Suc r) \<Longrightarrow> ins k v t = Some t' \<Longrightarrow>
      lookup t' k' = (if proper k \<and> k' = k \<and> lookup t k = Some None then Some (Some v) else lookup t k')"
begin

fun load :: "('k \<times> 'v) list \<Rightarrow> 't \<Rightarrow> 't option" where
  "load [] t = Some t"
| "load ((k, v) # kvs) t = Option.bind (ins k v t) (load kvs)"

definition first_value :: "('k \<times> 'v) list \<Rightarrow> 'k \<Rightarrow> 'v option" where
  "first_value kvs k = (if proper k then map_of kvs k else None)"

lemma load_lookup:
  assumes "room t (length kvs)" and "\<And>k. lookup t k = Some (base k)"
  shows "\<exists>t'. load kvs t = Some t' \<and>
     (\<forall>k. lookup t' k = Some (case base k of Some v \<Rightarrow> Some v | None \<Rightarrow> first_value kvs k))"
  using assms
proof (induction kvs arbitrary: t base)
  case Nil
  then show ?case by (auto simp: first_value_def split: option.splits)
next
  case (Cons kv kvs)
  obtain k v where kv: "kv = (k, v)" by (cases kv)
  have room: "room t (Suc (length kvs))" using Cons.prems(1) by simp
  then obtain t1 where t1: "ins k v t = Some t1" "room t1 (length kvs)"
    using ins_returns by blast
  define base1 where "base1 k' = (if proper k \<and> k' = k \<and> base k = None then Some v else base k')" for k'
  have "lookup t1 k' = Some (base1 k')" for k'
    using lookup_ins [OF room t1(1)] Cons.prems(2) by (simp add: base1_def)
  from Cons.IH [OF t1(2) this] obtain t2 where "load kvs t1 = Some t2"
      "\<forall>k. lookup t2 k = Some (case base1 k of Some v \<Rightarrow> Some v | None \<Rightarrow> first_value kvs k)" by blast
  with kv t1(1) show ?case
    by (auto simp: base1_def first_value_def split: option.splits)
qed

end

lemma room_insert:
  assumes "table_room vm (Suc r)"
  shows "\<exists>vm'. vm_insert key v vm = Some vm' \<and> table_room vm' r \<and>
     (\<forall>t. vm_Classify vm' t =
       (if key \<noteq> [] \<and> t = key \<and> vm_Classify vm key = Some None then Some (Some v) else vm_Classify vm t))"
proof -
  have vm: "table_shape vm" "no_gaps vm" "1 < free_slots vm" "Suc r < free_slots vm"
    using assms by (auto simp: table_room_def)
  then have free: "0 < free_slots vm" by simp
  obtain E where E: "vm_insert key v vm = Some (put vm (slot vm key E) key v)"
    "key_at vm (slot vm key E) = []" "\<forall>d<E. key_at vm (slot vm key d) \<noteq> []"
    by (rule insert_puts [OF vm(1) free, of key v])
  have "r < free_slots (put vm (slot vm key E) key v)"
    using put_free [OF slot_less [OF vm(1)] E(2), of key v] vm(4) by linarith
  then have "table_room (put vm (slot vm key E) key v) r"
    using vm(1) put_no_gaps [OF vm(1,2) E(2,3)] by (simp add: table_room_def)
  with E(1) lookup_put [OF vm(1-3) E(2,3)] show ?thesis by blast
qed

interpretation vmap: first_wins_table vm_insert vm_Classify table_room "\<lambda>k. k \<noteq> []"
proof
  fix t :: VerdictMap and r :: nat and k k' :: string and v t'
  assume room: "table_room t (Suc r)"
  from room_insert [OF room] show "\<exists>t'. vm_insert k v t = Some t' \<and> table_room t' r" by blast
  assume "vm_insert k v t = Some t'"
  with room_insert [OF room, of k v]
  show "vm_Classify t' k' =
      (if k \<noteq> [] \<and> k' = k \<and> vm_Classify t k = Some None then Some (Some v) else vm_Classify t k')"
    by auto
qed

lemma insert_all_load:
  "insert_all ds vm = vmap.load (map (\<lambda>d. (AdTool d, adapterDefToVerdict d)) ds) vm"
proof (induction ds arbitrary: vm)
  case (Cons d ds)
  have "Option.bind m (insert_all ds) =
        Option.bind m (vmap.load (map (\<lambda>d. (AdTool d, adapterDefToVerdict d)) ds))" for m
    by (cases m) (simp_all add: Cons.IH)
  then show ?case by simp
qed simp

lemma emptyVerdictMap_shape:
  assumes "k < 64" shows "table_shape (emptyVerdictMap (2 ^ k))"
proof -
  have "of_nat (2 ^ k - 1) = (mask k :: u64)"
    by (simp add: mask_eq_exp_minus_1 of_nat_diff)
  then show ?thesis using assms by (auto simp: table_shape_def emptyVerdictMap_def)
qed

lemma emptyVerdictMap_room:
  assumes "k < 64" "r < 2 ^ k" shows "table_room (emptyVerdictMap (2 ^ k)) r"
  using assms emptyVerdictMap_shape [OF assms(1)]
  by (auto simp: table_room_def no_gaps_def free_slots_def emptyVerdictMap_def)

lemma emptyVerdictMap_lookup:
  assumes "k < 64" shows "vm_Classify (emptyVerdictMap (2 ^ k)) t = Some None"
proof (rule Classify_miss [of _ _ 0])
  show "key_at (emptyVerdictMap (2 ^ k)) (slot (emptyVerdictMap (2 ^ k)) t 0) = []"
    using slot_less [OF emptyVerdictMap_shape [OF assms], of t 0] by (simp add: emptyVerdictMap_def)
qed (use emptyVerdictMap_shape [OF assms] in auto)

lemma build_size:
  assumes "length catalog < 2 ^ 60"
  shows "\<exists>k<64. (let n0 = nextPow2 (length catalog * 10 div 7) in if n0 < 16 then 16 else n0) = 2 ^ k \<and>
           length catalog < 2 ^ k"
proof -
  let ?m = "length catalog * 10 div 7"
  have m: "?m \<le> 2 ^ 61" using assms by simp
  then obtain k where k: "nextPow2 ?m = 2 ^ k" "?m \<le> 2 ^ k" "k \<le> 61"
    using nextPow2_power [of ?m] by auto
  show ?thesis
  proof (cases "nextPow2 ?m < 16")
    case True
    with k have "length catalog < 16" by simp
    with True show ?thesis by (intro exI [of _ 4]) (simp add: Let_def)
  next
    case False
    with k have "length catalog < 2 ^ k" by linarith
    with False k show ?thesis by (intro exI [of _ k]) (simp add: Let_def)
  qed
qed

lemma map_of_catalog:
  "map_of (map (\<lambda>d. (AdTool d, adapterDefToVerdict d)) ds) t =
   map_option adapterDefToVerdict (List.find (\<lambda>d. AdTool d = t) ds)"
  by (induction ds) auto

lemma build_lookup:
  assumes "length catalog < 2 ^ 60"
  shows "\<exists>vm. BuildVerdictMap catalog = Some vm \<and>
    (\<forall>t. vm_Classify vm t = Some (if t = [] then None
        else map_option adapterDefToVerdict (List.find (\<lambda>d. AdTool d = t) catalog)))"
proof -
  let ?n = "let n0 = nextPow2 (length catalog * 10 div 7) in if n0 < 16 then 16 else n0"
  obtain k where k: "k < 64" "?n = 2 ^ k" "length catalog < 2 ^ k"
    using build_size [OF assms] by blast
  let ?kvs = "map (\<lambda>d. (AdTool d, adapterDefToVerdict d)) catalog"
  have "table_room (emptyVerdictMap (2 ^ k)) (length ?kvs)"
    using emptyVerdictMap_room [OF k(1)] k(3) by simp
  from vmap.load_lookup [OF this, of "\<lambda>_. None"] emptyVerdictMap_lookup [OF k(1)] k(2)
  show ?thesis
    by (auto simp: BuildVerdictMap_def Let_def insert_all_load vmap.first_value_def map_of_catalog)
qed

section \<open>Schema validation\<close>

definition required_ok :: "json_map \<Rightarrow> string \<times> string \<Rightarrow> bool" where
  "required_ok args ft \<longleftrightarrow> (\<exists>v. args (fst ft) = Some v \<and> v \<noteq> JNull \<and> jsonTypeName v = snd ft)"

definition optional_ok :: "json_map \<Rightarrow> string \<times> string \<Rightarrow> bool" where
  "optional_ok args ft \<longleftrightarrow> (\<forall>v. args (fst ft) = Some v \<and> v \<noteq> JNull \<longrightarrow> jsonTypeName v = snd ft)"

lemma check_required_None: "check_required args fs = None \<longleftrightarrow> list_all (required_ok args) fs"
  by (induction args fs rule: check_required.induct)
     (auto simp: required_ok_def split: option.splits json.splits)

lemma check_optional_None: "check_optional args fs = None \<longleftrightarrow> list_all (optional_ok args) fs"
  by (induction args fs rule: check_optional.induct)
     (auto simp: optional_ok_def split: option.splits json.splits)

lemma validate_None:
  "validate s args = None \<longleftrightarrow>
     (\<forall>ft \<in> set (Required s). required_ok args ft) \<and> (\<forall>ft \<in> set (Optional s). optional_ok args ft)"
  by (auto simp: validate_def check_required_None check_optional_None list_all_iff
      simp flip: not_None_eq split: option.splits)

section \<open>Properties\<close>

text \<open>Claim C9. The verdict table built from a catalog is the catalog: building it returns (every
  probing loop ends), and looking a tool up returns too, with the verdict of the first catalog entry
  of that name and a miss for every other name and for the empty one.\<close>

theorem verdict_table_is_catalog:
  assumes "length catalog < 2 ^ 60"
  shows "\<exists>vm. BuildVerdictMap catalog = Some vm \<and>
    (\<forall>t. vm_Classify vm t = Some (if t = [] then None
        else map_option adapterDefToVerdict (List.find (\<lambda>d. AdTool d = t) catalog)))"
  using assms by (rule build_lookup)

definition demo_catalog :: "AdapterDef list" where
  "demo_catalog =
    [\<lparr>AdTool = ''Read'', AdFamily = ''filesystem'', AdOperation = ''read'', AdEffects = [''read_files''],
      AdResourceType = ''file'', AdRiskLevel = ''low''\<rparr>,
     \<lparr>AdTool = ''Bash'', AdFamily = ''bash'', AdOperation = ''exec'', AdEffects = [''exec_process''],
      AdResourceType = ''process'', AdRiskLevel = ''high''\<rparr>,
     \<lparr>AdTool = ''Read'', AdFamily = ''other'', AdOperation = ''delete'', AdEffects = [],
      AdResourceType = ''file'', AdRiskLevel = ''none''\<rparr>]"

theorem verdict_table_is_catalog_witness:
  "\<exists>vm. BuildVerdictMap demo_catalog = Some vm \<and> vm_Classify vm ''Glob'' = Some None \<and>
     map_option (map_option AdapterName) (vm_Classify vm ''Read'') = Some (Some ''filesystem:Read'')"
proof -
  have "length demo_catalog < 2 ^ 60" by (simp add: demo_catalog_def)
  from verdict_table_is_catalog [OF this] show ?thesis
    by (auto simp: demo_catalog_def adapterDefToVerdict_def Let_def)
qed

text \<open>The classifier answers every tool: a catalogued tool by its catalog entry, any other
  one without an adapter match, and a coordination tool the catalog lacks as critical risk, never
  by a heuristic.\<close>

theorem classifier_three_tiers:
  assumes "length catalog < 2 ^ 60"
  shows "\<exists>vm. BuildVerdictMap catalog = Some vm \<and>
    (\<forall>t d. t \<noteq> [] \<and> List.find (\<lambda>d. AdTool d = t) catalog = Some d \<longrightarrow>
        Classify vm t = Some (adapterDefToVerdict d, True)) \<and>
    (\<forall>t. List.find (\<lambda>d. AdTool d = t) catalog = None \<longrightarrow>
        (\<exists>e. Classify vm t = Some (e, False) \<and> \<not> AdapterMatch e \<and>
          (t \<in> set coordinationTools \<longrightarrow> RiskLevel e = RiskCritical)))"
proof -
  obtain vm where vm: "BuildVerdictMap catalog = Some vm"
    "\<forall>t. vm_Classify vm t = Some (if t = [] then None
        else map_option adapterDefToVerdict (List.find (\<lambda>d. AdTool d = t) catalog))"
    using build_lookup [OF assms] by blast
  have heur: "\<not> AdapterMatch (heuristic t)" for t
    by (simp add: heuristic_def heuristic_entry_def Let_def)
  have pre: "classifyByPrefix t = Some e \<Longrightarrow> \<not> AdapterMatch e" for t e
    by (auto simp: classifyByPrefix_def split: if_splits)
  have "\<exists>e. Classify vm t = Some (e, False) \<and> \<not> AdapterMatch e \<and>
          (t \<in> set coordinationTools \<longrightarrow> RiskLevel e = RiskCritical)"
    if "List.find (\<lambda>d. AdTool d = t) catalog = None" for t
    using vm(2) that heur pre by (auto simp: Classify_def zeroVerdict_def split: option.splits)
  with vm show ?thesis by (auto simp: Classify_def)
qed

theorem classifier_three_tiers_witness:
  "\<exists>vm e. BuildVerdictMap demo_catalog = Some vm \<and> Classify vm ''Agent'' = Some (e, False) \<and>
     RiskLevel e = RiskCritical"
proof -
  have "length demo_catalog < 2 ^ 60" by (simp add: demo_catalog_def)
  moreover have "List.find (\<lambda>d. AdTool d = ''Agent'') demo_catalog = None" by (simp add: demo_catalog_def)
  moreover have "''Agent'' \<in> set coordinationTools" by (simp add: coordinationTools_def)
  ultimately show ?thesis using classifier_three_tiers [of demo_catalog] by blast
qed

text \<open>Whether a schema accepts arguments does not depend on the order in which its fields
  are visited: it accepts exactly when every required field is present, not null and of its type, and
  every optional field that is present and not null is of its type.\<close>

theorem schema_acceptance:
  assumes "set (Required s') = set (Required s)" and "set (Optional s') = set (Optional s)"
  shows "validate s' args = None \<longleftrightarrow>
     (\<forall>(f, ty) \<in> set (Required s). \<exists>v. args f = Some v \<and> v \<noteq> JNull \<and> jsonTypeName v = ty) \<and>
     (\<forall>(f, ty) \<in> set (Optional s). \<forall>v. args f = Some v \<and> v \<noteq> JNull \<longrightarrow> jsonTypeName v = ty)"
  using assms by (auto simp: validate_None required_ok_def optional_ok_def)

theorem schema_acceptance_witness:
  "validate \<lparr>Required = [(''content'', ''string''), (''file_path'', ''string'')], Optional = []\<rparr>
     [''file_path'' \<mapsto> JStr ''a.go'', ''content'' \<mapsto> JNum ''3''] \<noteq> None"
proof -
  let ?s = "\<lparr>Required = [(''file_path'', ''string''), (''content'', ''string'')], Optional = []\<rparr>"
  let ?s' = "\<lparr>Required = [(''content'', ''string''), (''file_path'', ''string'')], Optional = []\<rparr>"
  have "set (Required ?s') = set (Required ?s)" "set (Optional ?s') = set (Optional ?s)" by auto
  from schema_acceptance [OF this] show ?thesis by simp
qed

end
