(* ===== verification/Labeler.thy ===== *)
theory Labeler
  imports Resource Sessions Classify
begin

text \<open>
  The request labeler of \<^verbatim>\<open>internal/label/labeler.go\<close>, which the engine runs on every call: it extends
  the resource extraction with broader shell parsing, classifies every path and URL with its own rule
  tables, joins the labels and records the metadata the policies read.  It ignores the verdict
  argument of its interface.
\<close>

section \<open>Definitions\<close>

record LabeledRequest =
  Matched :: bool
  ResourceLabel :: SecurityLabel
  AllResourceLabels :: "SecurityLabel list"
  LabResourceType :: string
  ResourcePath :: string
  ResourcePaths :: "string list"
  ContainsNetworkCmd :: bool
  ContainsInterpreterExec :: bool
  LabUnknownTool :: bool

text \<open>The zero value: what the engine has when no labeler is configured.\<close>

definition zeroLabeled :: LabeledRequest where
  "zeroLabeled = \<lparr>Matched = False, ResourceLabel = zeroLabel, AllResourceLabels = [], LabResourceType = [],
     ResourcePath = [], ResourcePaths = [], ContainsNetworkCmd = False, ContainsInterpreterExec = False,
     LabUnknownTool = False\<rparr>"

definition proc_re :: "string \<Rightarrow> re" where
  "proc_re leaf = SeqL [Lit ''/proc/'', ClsPlus is_digit, Lit leaf]"

definition reProcPIDEnviron :: re where "reProcPIDEnviron = proc_re ''/environ''"
definition reProcPIDMem :: re where "reProcPIDMem = proc_re ''/mem''"
definition reProcPIDMaps :: re where "reProcPIDMaps = proc_re ''/maps''"

definition extDefaultPathRules :: "rule list" where
  "extDefaultPathRules = (let credType = ''credential''; kernelType = ''kernel_special''; fileType = ''file'' in [
      (MatchExact ''/etc/shadow'', lbl 2000 500 CatCredentials, credType),
      (MatchExact ''/etc/gshadow'', lbl 2000 500 CatCredentials, credType),
      (MatchExact ''/etc/sudoers'', lbl 2000 500 CatCredentials, credType),
      (MatchPrefix ''/etc/sudoers.d/'', lbl 2000 500 CatCredentials, credType),
      (MatchExact ''/etc/passwd'', lbl 2000 500 CatCredentials, credType),
      (MatchExact ''/etc/master.passwd'', lbl 2000 500 CatCredentials, credType),
      (MatchRegex reProcPIDEnviron, lbl 2000 500 CatCredentials, credType),
      (MatchRegex reProcPIDMem, lbl 2000 500 (CatCredentials OR CatSecurityKey), kernelType),
      (MatchRegex reProcPIDMaps, lbl 2000 500 CatCredentials, credType),
      (MatchExact ''/dev/mem'', lbl 2000 500 CatSecurityKey, kernelType),
      (MatchExact ''/dev/kmem'', lbl 2000 500 CatSecurityKey, kernelType),
      (MatchExact ''/dev/port'', lbl 2000 500 CatSecurityKey, kernelType),
      (MatchContains ''/.ssh/'', lbl 1500 500 (CatCredentials OR CatSecurityKey), credType),
      (MatchContains ''id_rsa'', lbl 1500 500 (CatCredentials OR CatSecurityKey), credType),
      (MatchContains ''id_ed25519'', lbl 1500 500 (CatCredentials OR CatSecurityKey), credType),
      (MatchContains ''id_ecdsa'', lbl 1500 500 (CatCredentials OR CatSecurityKey), credType),
      (MatchContains ''authorized_keys'', lbl 1500 500 (CatCredentials OR CatSecurityKey), credType),
      (MatchContains ''/.aws/credentials'', lbl 1500 500 (CatCredentials OR CatSecurityKey), credType),
      (MatchContains ''/.gnupg/'', lbl 1500 500 (CatCredentials OR CatSecurityKey), credType),
      (MatchContains ''/.config/gcloud/'', lbl 1500 500 (CatCredentials OR CatSecurityKey), credType),
      (MatchContains ''/.azure/'', lbl 1500 500 (CatCredentials OR CatSecurityKey), credType),
      (MatchContains ''/.gcloud/'', lbl 1500 500 (CatCredentials OR CatSecurityKey), credType),
      (MatchContains ''/.kube/config'', lbl 1500 500 (CatCredentials OR CatSecurityKey), credType),
      (MatchPrefix ''/var/run/secrets/'', lbl 1500 500 (CatCredentials OR CatSecurityKey), credType),
      (MatchPrefix ''/etc/ssl/private/'', lbl 1500 500 (CatCredentials OR CatSecurityKey), credType),
      (MatchPrefix ''/etc/pki/'', lbl 1500 500 (CatCredentials OR CatSecurityKey), credType),
      (MatchSuffix ''.env'', lbl 1000 500 CatCredentials, credType),
      (MatchContains ''.env.'', lbl 1000 500 CatCredentials, credType),
      (MatchSuffix ''.pem'', lbl 1000 500 CatCredentials, credType),
      (MatchSuffix ''.key'', lbl 1000 500 CatCredentials, credType),
      (MatchSuffix ''.p12'', lbl 1000 500 CatCredentials, credType),
      (MatchSuffix ''.pfx'', lbl 1000 500 CatCredentials, credType),
      (MatchSuffix ''.jks'', lbl 1000 500 CatCredentials, credType),
      (MatchContains ''/.docker/config.json'', lbl 1000 500 CatCredentials, credType),
      (MatchSuffix ''.npmrc'', lbl 1000 500 CatCredentials, credType),
      (MatchSuffix ''.pypirc'', lbl 1000 500 CatCredentials, credType),
      (MatchSuffix ''.netrc'', lbl 1000 500 CatCredentials, credType),
      (MatchContains ''/.git-credentials'', lbl 1000 500 CatCredentials, credType),
      (MatchSuffix ''.secret'', lbl 1000 500 CatCredentials, credType),
      (MatchContains ''credentials.json'', lbl 1000 500 CatCredentials, credType),
      (MatchContains ''service-account'', lbl 1000 500 CatCredentials, credType),
      (MatchPrefix ''/var/log/audit/'', lbl 800 400 (CatPersonalData OR CatSecurityKey), fileType),
      (MatchPrefix ''/var/log/'', lbl 500 300 CatPersonalData, fileType),
      (MatchSuffix ''.go'', lbl 100 300 CatInternal, fileType),
      (MatchSuffix ''.py'', lbl 100 300 CatInternal, fileType),
      (MatchSuffix ''.js'', lbl 100 300 CatInternal, fileType),
      (MatchSuffix ''.ts'', lbl 100 300 CatInternal, fileType),
      (MatchPrefix ''/tmp'', lbl 0 0 0, fileType),
      (MatchPrefix ''/var/tmp'', lbl 0 0 0, fileType)])"

definition extDefaultDomainRules :: "rule list" where
  "extDefaultDomainRules = (let cloudMetaType = ''cloud_metadata''; urlType = ''url'' in [
      (MatchContains ''169.254.169.254'', lbl 2000 500 CatSecurityKey, cloudMetaType),
      (MatchContains ''metadata.google.internal'', lbl 2000 500 CatSecurityKey, cloudMetaType),
      (MatchContains ''100.100.100.200'', lbl 2000 500 CatSecurityKey, cloudMetaType),
      (MatchContains ''metadata.azure.com'', lbl 2000 500 CatSecurityKey, cloudMetaType),
      (MatchContains ''fd00:ec2::254'', lbl 2000 500 CatSecurityKey, cloudMetaType),
      (MatchSuffix ''.internal'', lbl 500 300 CatInternal, urlType),
      (MatchSuffix ''.corp'', lbl 500 300 CatInternal, urlType),
      (MatchSuffix ''.local'', lbl 500 300 CatInternal, urlType)])"

text \<open>\<^verbatim>\<open>classifyPath\<close> and \<^verbatim>\<open>classifyDomain\<close>: label, resource type and whether a rule fired.\<close>

fun classify_rules :: "rule list \<Rightarrow> string \<Rightarrow> SecurityLabel \<times> string \<times> bool" where
  "classify_rules [] s = (zeroLabel, ''unknown'', False)"
| "classify_rules ((mt, l, ty) # rs) s = (if rule_matches mt s then (l, ty, True) else classify_rules rs s)"

definition classifyPath :: "string \<Rightarrow> SecurityLabel \<times> string \<times> bool" where
  "classifyPath = classify_rules extDefaultPathRules"

definition classifyDomain :: "string \<Rightarrow> SecurityLabel \<times> string \<times> bool" where
  "classifyDomain = classify_rules extDefaultDomainRules"

definition broadCmds :: "string list" where
  "broadCmds = [''ls'', ''ll'', ''dir'', ''chmod'', ''chown'', ''find'', ''touch'', ''mkdir'', ''rmdir'', ''rm'',
     ''mv'', ''cp'', ''ln'', ''stat'', ''file'']"

definition looksLikePathToken :: "string \<Rightarrow> bool" where
  "looksLikePathToken s \<longleftrightarrow> s \<noteq> [] \<and> (hd s = CHR ''/'' \<or> hd s = CHR ''~'' \<or> hd s = CHR ''.'')"

definition extractBashPaths :: "string \<Rightarrow> string list" where
  "extractBashPaths cmd =
    (let tokens = Fields cmd in
     if tokens = [] then []
     else if baseCommand (hd tokens) \<in> set broadCmds
     then filter (\<lambda>t. \<not> HasPrefix t ''-'' \<and> looksLikePathToken t) (tl tokens) else [])"

fun merge_new :: "string list \<Rightarrow> string list \<Rightarrow> string list" where
  "merge_new seen [] = []"
| "merge_new seen (p # ps) = (if p \<in> set seen then merge_new seen ps else p # merge_new (p # seen) ps)"

definition mergePaths :: "string list \<Rightarrow> string list \<Rightarrow> string list" where
  "mergePaths a b = (if b = [] then a else a @ merge_new a b)"

fun joinAll :: "SecurityLabel list \<Rightarrow> SecurityLabel" where
  "joinAll [] = zeroLabel"
| "joinAll (l # ls) = foldl Join l ls"

definition networkBinaries :: "string list" where
  "networkBinaries = [''curl'', ''wget'', ''nc'', ''ncat'', ''netcat'', ''socat'', ''telnet'', ''ftp'', ''sftp'',
     ''ssh'', ''scp'', ''rsync'', ''rclone'', ''s3cmd'', ''openssl'', ''nmap'', ''aws'', ''gcloud'', ''az'',
     ''kubectl'', ''git'', ''dig'', ''nslookup'', ''host'', ''xmrig'', ''minerd'']"

definition interpreterExecPatterns :: "string list" where
  "interpreterExecPatterns = [''bash -c'', ''sh -c'', ''zsh -c'', ''fish -c'', ''ksh -c'', ''dash -c'',
     ''python -c'', ''python3 -c'', ''perl -e'', ''ruby -e'', ''node -e'', ''nodejs -e'', ''php -r'',
     ''osascript -e'', '' eval '', '' << '', ''| bash'', ''| sh'', ''| /bin/bash'', ''| /bin/sh'', ''|bash'', ''|sh'',
     ''BASH_ENV='', '' ENV='']"

definition containsInterpreterExec :: "string \<Rightarrow> bool" where
  "containsInterpreterExec cmd = list_ex (Contains cmd) interpreterExecPatterns"

definition containsNetworkCmd :: "string \<Rightarrow> bool" where
  "containsNetworkCmd command = list_ex (\<lambda>t. baseCommand t \<in> set networkBinaries) (Fields command)"

text \<open>\<^verbatim>\<open>Label\<close>: a decoding error leaves the argument map nil.\<close>

definition decode_args :: "json_parser \<Rightarrow> string \<Rightarrow> json_map option" where
  "decode_args parse args =
    (if args = [] then None else case unmarshal_map parse args of Some m \<Rightarrow> m | None \<Rightarrow> None)"

definition bash_command :: "string \<Rightarrow> json_map option \<Rightarrow> string option" where
  "bash_command tool margs =
    (if tool = ''Bash'' then Option.bind margs (\<lambda>args. string_at args ''command'') else None)"

definition request_paths :: "string \<Rightarrow> json_map option \<Rightarrow> string list" where
  "request_paths tool args =
    (let paths = ExtractPaths tool args in
     case bash_command tool args of Some cmd \<Rightarrow> mergePaths paths (extractBashPaths cmd) | None \<Rightarrow> paths)"

definition Label :: "json_parser \<Rightarrow> CheckRequest \<Rightarrow> LabeledRequest" where
  "Label parse req =
    (let args = decode_args parse (Args req);
         paths = request_paths (Tool req) args;
         domains = ExtractDomains (Tool req) args;
         allRaw = paths @ domains;
         classified = map classifyPath paths @ map classifyDomain domains;
         allLabels = map fst classified;
         allTypes = map (fst \<circ> snd) classified;
         matched = list_ex (snd \<circ> snd) classified;
         type0 = (case List.find (\<lambda>t. t \<noteq> ''unknown'') allTypes of Some t \<Rightarrow> t | None \<Rightarrow> ''unknown'');
         primaryType = (if \<not> matched \<and> type0 = ''unknown'' \<and> domains \<noteq> [] \<and>
                           (Tool req = ''WebFetch'' \<or> Tool req = ''WebSearch'') then ''url'' else type0);
         cmd = bash_command (Tool req) args
     in \<lparr>Matched = matched, ResourceLabel = joinAll allLabels, AllResourceLabels = allLabels,
         LabResourceType = primaryType, ResourcePath = (if allRaw = [] then [] else hd allRaw),
         ResourcePaths = allRaw,
         ContainsNetworkCmd = (case cmd of Some c \<Rightarrow> containsNetworkCmd c | None \<Rightarrow> False),
         ContainsInterpreterExec = (case cmd of Some c \<Rightarrow> containsInterpreterExec c | None \<Rightarrow> False),
         LabUnknownTool = False\<rparr>)"

section \<open>Lemmas\<close>

lemma merge_new_spec:
  "set (merge_new seen ps) = set ps - set seen \<and> distinct (merge_new seen ps)"
  by (induction seen ps rule: merge_new.induct) auto

lemma mergePaths_set: "set (mergePaths a b) = set a \<union> set b"
  using merge_new_spec [of a b] by (auto simp: mergePaths_def)

lemma mergePaths_distinct: "distinct a \<Longrightarrow> distinct (mergePaths a b)"
  using merge_new_spec [of a b] by (auto simp: mergePaths_def)

lemma flows_to_trans: "flows_to a b \<Longrightarrow> flows_to b c \<Longrightarrow> flows_to a c"
  unfolding flows_to_def by (auto elim: superset_trans)

lemma foldl_Join_least: "flows_to (foldl Join l ls) c \<longleftrightarrow> flows_to l c \<and> (\<forall>x \<in> set ls. flows_to x c)"
  by (induction ls arbitrary: l) (auto simp: Join_least_iff)

lemma joinAll_least:
  "ls \<noteq> [] \<Longrightarrow> flows_to (joinAll ls) c \<longleftrightarrow> (\<forall>x \<in> set ls. flows_to x c)"
  by (cases ls) (auto simp: foldl_Join_least)

lemma flows_to_refl: "flows_to a a"
  by (simp add: flows_to_def)

lemma joinAll_upper: "x \<in> set ls \<Longrightarrow> flows_to x (joinAll ls)"
  using joinAll_least [of ls "joinAll ls"] flows_to_refl by (cases ls) auto

lemma classify_rules_secret:
  assumes "\<forall>(mt, l, ty) \<in> set rs. P l \<or> \<not> rule_matches mt s" "\<exists>(mt, l, ty) \<in> set rs. rule_matches mt s"
  shows "P (fst (classify_rules rs s))"
  using assms by (induction rs s rule: classify_rules.induct) auto

text \<open>The categories that taint a session when a resource carries one of them.\<close>

definition taintMask :: u32 where
  "taintMask = CatCredentials OR CatSecurityKey OR CatCryptographic"

definition secret_label :: "SecurityLabel \<Rightarrow> bool" where
  "secret_label l \<longleftrightarrow> Category l AND taintMask \<noteq> 0"

text \<open>The rules for credentials, key material, kernel devices and audit logs are the first of the table.\<close>

definition secretPathRules :: "rule list" where
  "secretPathRules = take 42 extDefaultPathRules"

lemma secretPathRules_secret: "list_all (\<lambda>(mt, l, ty). secret_label l) secretPathRules"
  by (simp add: secretPathRules_def extDefaultPathRules_def Let_def secret_label_def taintMask_def
      category_defs lbl_def)

lemma classify_rules_append:
  "classify_rules (rs @ rs') s =
     (if list_ex (\<lambda>(mt, _). rule_matches mt s) rs then classify_rules rs s else classify_rules rs' s)"
  by (induction rs s rule: classify_rules.induct) auto

lemma classifyPath_secret:
  assumes "list_ex (\<lambda>(mt, _). rule_matches mt p) secretPathRules"
  shows "secret_label (fst (classifyPath p))"
proof -
  have "extDefaultPathRules = secretPathRules @ drop 42 extDefaultPathRules"
    by (simp add: secretPathRules_def)
  then have "classifyPath p = classify_rules secretPathRules p"
    using assms classify_rules_append [of secretPathRules "drop 42 extDefaultPathRules" p]
    by (simp add: classifyPath_def)
  moreover have "secret_label (fst (classify_rules secretPathRules p))"
    by (rule classify_rules_secret [where P = secret_label])
       (use assms secretPathRules_secret in \<open>fastforce simp: list_all_iff list_ex_iff\<close>)+
  ultimately show ?thesis by simp
qed

lemma secret_label_flows: "flows_to a b \<Longrightarrow> secret_label a \<Longrightarrow> secret_label b"
  unfolding flows_to_def secret_label_def
  using and_nonzero_mono [of "Category a" taintMask "Category b"] by simp

lemma Label_paths:
  "ResourcePaths (Label parse req) =
     request_paths (Tool req) (decode_args parse (Args req)) @ ExtractDomains (Tool req) (decode_args parse (Args req))"
  "AllResourceLabels (Label parse req) =
     map (fst \<circ> classifyPath) (request_paths (Tool req) (decode_args parse (Args req))) @
     map (fst \<circ> classifyDomain) (ExtractDomains (Tool req) (decode_args parse (Args req)))"
  "ResourceLabel (Label parse req) = joinAll (AllResourceLabels (Label parse req))"
  by (simp_all add: Label_def Let_def)

lemma Label_secret_path:
  assumes "p \<in> set (request_paths (Tool req) (decode_args parse (Args req)))"
    and "list_ex (\<lambda>(mt, _). rule_matches mt p) secretPathRules"
  shows "secret_label (ResourceLabel (Label parse req))"
proof -
  have "fst (classifyPath p) \<in> set (AllResourceLabels (Label parse req))"
    using assms(1) by (auto simp: Label_paths(2))
  from joinAll_upper [OF this] classifyPath_secret [OF assms(2)] show ?thesis
    unfolding Label_paths(3) by (rule secret_label_flows)
qed

section \<open>Properties\<close>

text \<open>Claim C10. The label the engine works with loses no resource: for every path or URL the labeler
  reports, the joined label has at least its confidentiality, at most its integrity and all its
  categories; and it is the least such label.\<close>

theorem Label_joins_all_resources:
  assumes "ResourcePaths (Label parse req) \<noteq> []"
  shows "flows_to (ResourceLabel (Label parse req)) c \<longleftrightarrow>
     (\<forall>p \<in> set (request_paths (Tool req) (decode_args parse (Args req))). flows_to (fst (classifyPath p)) c) \<and>
     (\<forall>d \<in> set (ExtractDomains (Tool req) (decode_args parse (Args req))). flows_to (fst (classifyDomain d)) c)"
proof -
  have ne: "AllResourceLabels (Label parse req) \<noteq> []" using assms by (auto simp: Label_paths)
  show ?thesis
    unfolding Label_paths(3) joinAll_least [OF ne] by (auto simp: Label_paths(2))
qed

definition demo_read :: "string \<Rightarrow> CheckRequest" where
  "demo_read args = \<lparr>Tool = ''Read'', Args = args, SessionID = ''s1'', ParentSessionID = [], SpawnToken = [],
     ProjectRoot = [], RequestLabel = zeroLabel, AuthorityChain = [], Nonce = replicate 16 0, Timestamp = 0\<rparr>"

definition demo_parse :: json_parser where
  "demo_parse s = Some (JObj [(''file_path'', JStr s)])"

theorem Label_joins_all_resources_witness:
  "flows_to (ResourceLabel (Label demo_parse (demo_read ''/repo/main.go''))) (lbl 100 300 CatInternal)"
proof -
  have p: "request_paths ''Read'' (decode_args demo_parse ''/repo/main.go'') = [''/repo/main.go'']"
    "ExtractDomains ''Read'' (decode_args demo_parse ''/repo/main.go'') = []"
    by code_simp+
  have c: "classifyPath ''/repo/main.go'' = (lbl 100 300 CatInternal, ''file'', True)" by code_simp
  have "ResourcePaths (Label demo_parse (demo_read ''/repo/main.go'')) \<noteq> []"
    by (simp add: Label_paths demo_read_def p)
  from Label_joins_all_resources [OF this] show ?thesis
    by (simp add: demo_read_def p c flows_to_refl)
qed

end
