(* ===== verification/GoPath.thy ===== *)
theory GoPath
  imports Prelude
begin

text \<open>
  The lexical functions of \<^verbatim>\<open>path/filepath\<close> on Unix: \<^verbatim>\<open>Clean\<close>, \<^verbatim>\<open>Join\<close>, \<^verbatim>\<open>Base\<close>, \<^verbatim>\<open>Dir\<close> and \<^verbatim>\<open>Ext\<close>.
\<close>

text \<open>The components kept by \<^verbatim>\<open>Clean\<close>, in reverse: a double dot removes the last proper component, is
  dropped at the root and kept at the start of a relative path.\<close>

fun clean_comps :: "bool \<Rightarrow> string list \<Rightarrow> string list \<Rightarrow> string list" where
  "clean_comps rooted acc [] = rev acc"
| "clean_comps rooted acc (c # cs) =
    (if c = [] \<or> c = ''.'' then clean_comps rooted acc cs
     else if c = ''..'' then
       (case acc of
          [] \<Rightarrow> if rooted then clean_comps rooted [] cs else clean_comps rooted [''..''] cs
        | a # as \<Rightarrow> if a = ''..'' then clean_comps rooted (''..'' # acc) cs else clean_comps rooted as cs)
     else clean_comps rooted (c # acc) cs)"

definition Clean :: "string \<Rightarrow> string" where
  "Clean path =
    (let rooted = HasPrefix path ''/'';
         body = JoinStrings (clean_comps rooted [] (Split path CHR ''/'')) ''/''
     in if rooted then CHR ''/'' # body else if body = [] then ''.'' else body)"

definition filepath_Join :: "string list \<Rightarrow> string" where
  "filepath_Join elems =
    (let ne = filter (\<lambda>e. e \<noteq> []) elems in if ne = [] then [] else Clean (JoinStrings ne ''/''))"

definition Base :: "string \<Rightarrow> string" where
  "Base path =
    (if path = [] then ''.''
     else let p = TrimRight (\<lambda>c. c = CHR ''/'') path;
              b = (case LastIndexByte p CHR ''/'' of Some i \<Rightarrow> drop (i + 1) p | None \<Rightarrow> p)
          in if b = [] then ''/'' else b)"

definition Dir :: "string \<Rightarrow> string" where
  "Dir path = Clean (case LastIndexByte path CHR ''/'' of Some i \<Rightarrow> take (i + 1) path | None \<Rightarrow> [])"

text \<open>\<^verbatim>\<open>filepath.Ext\<close>: from the last dot of the last path element.\<close>

definition Ext :: "string \<Rightarrow> string" where
  "Ext path = (let base = (case LastIndexByte path CHR ''/'' of Some i \<Rightarrow> drop (i + 1) path | None \<Rightarrow> path) in
     case LastIndexByte base CHR ''.'' of None \<Rightarrow> [] | Some i \<Rightarrow> drop i base)"

text \<open>Cleaning leaves no empty component, no dot, and a double dot only in front of a relative path.\<close>

fun clean_acc :: "bool \<Rightarrow> string list \<Rightarrow> bool" where
  "clean_acc rooted [] = True"
| "clean_acc rooted (c # cs) =
    (c \<noteq> [] \<and> c \<noteq> ''.'' \<and> clean_acc rooted cs \<and>
     (c = ''..'' \<longrightarrow> \<not> rooted \<and> (\<forall>d \<in> set cs. d = ''..'')))"

lemma clean_comps_acc:
  "clean_acc rooted acc \<Longrightarrow> clean_acc rooted (rev (clean_comps rooted acc cs))"
proof (induction rooted acc cs rule: clean_comps.induct)
  case (2 rooted acc c cs)
  show ?case
  proof (cases "c = [] \<or> c = ''.''")
    case True
    with 2 show ?thesis by simp
  next
    case a: False
    show ?thesis
    proof (cases "c = ''..''")
      case True
      with a 2 show ?thesis by (cases acc) auto
    next
      case False
      with a 2 show ?thesis by simp
    qed
  qed
qed simp

lemma clean_rooted_no_dotdot:
  "c \<in> set (clean_comps True [] cs) \<Longrightarrow> c \<noteq> ''..'' \<and> c \<noteq> ''.'' \<and> c \<noteq> []"
proof -
  have *: "clean_acc True xs \<Longrightarrow> x \<in> set xs \<Longrightarrow> x \<noteq> ''..'' \<and> x \<noteq> ''.'' \<and> x \<noteq> []" for x xs
    by (induction xs) auto
  assume "c \<in> set (clean_comps True [] cs)"
  then show ?thesis using * [OF clean_comps_acc [of True "[]" cs], of c] by simp
qed

end
