(* ===== verification/Cel.thy ===== *)
theory Cel
  imports Labeler GoPath
begin

text \<open>
  The CEL layer, \<^verbatim>\<open>internal/cel\<close>: compiling the policy templates into the program cache with its
  limits, the AST depth, the activation an evaluation sees, and the string functions policies call
  (\<^verbatim>\<open>bash.*\<close>, \<^verbatim>\<open>path.*\<close>, \<^verbatim>\<open>label.*\<close>).  The cel-go library is the parameter record \<^verbatim>\<open>CelLib\<close>: parser, checker,
  cost estimator, program construction and evaluation.
\<close>

section \<open>The library and the AST\<close>

datatype cexpr =
    EUnspecified
  | ECall "cexpr option" "cexpr list"
  | ESelect cexpr
  | EList "cexpr list"
  | EMap "(cexpr \<times> cexpr) list"
  | EComprehension cexpr cexpr cexpr cexpr cexpr
  | EIdent
  | ELiteral
  | EStruct

fun countExprDepth :: "cexpr \<Rightarrow> nat \<Rightarrow> nat" where
  "countExprDepth EUnspecified current = current"
| "countExprDepth (ECall target args) current =
    (let m = fold (\<lambda>a m. max m (countExprDepth a (current + 1))) args (current + 1)
     in case target of None \<Rightarrow> m | Some t \<Rightarrow> max m (countExprDepth t (current + 1)))"
| "countExprDepth (ESelect e) current = max (current + 1) (countExprDepth e (current + 1))"
| "countExprDepth (EList es) current =
    fold (\<lambda>a m. max m (countExprDepth a (current + 1))) es (current + 1)"
| "countExprDepth (EMap kvs) current =
    fold (\<lambda>(k, v) m. max (max m (countExprDepth k (current + 1))) (countExprDepth v (current + 1)))
      kvs (current + 1)"
| "countExprDepth (EComprehension a b c d e) current =
    fold (\<lambda>x m. max m (countExprDepth x (current + 1))) [a, b, c, d, e] (current + 1)"
| "countExprDepth EIdent current = current + 1"
| "countExprDepth ELiteral current = current + 1"
| "countExprDepth EStruct current = current + 1"

datatype cel_val =
    VBool bool
  | VInt int
  | VStr string
  | VStrs "string list"
  | VMap json_map
  | VOther

type_synonym activation = "(string \<times> cel_val) list"

record ('ast, 'prog) CelLib =
  celParse :: "string \<Rightarrow> string + 'ast"
  celCheck :: "'ast \<Rightarrow> string + 'ast"
  celExpr :: "'ast \<Rightarrow> cexpr option"
  celCost :: "'ast \<Rightarrow> string + nat"
  celProgram :: "'ast \<Rightarrow> string + 'prog"
  celEval :: "'prog \<Rightarrow> activation \<Rightarrow> string + cel_val"

definition maxExpressionLength :: nat where "maxExpressionLength = 32768"
definition maxASTDepth :: nat where "maxASTDepth = 32"
definition maxCostBudget :: nat where "maxCostBudget = 500000"

definition astDepth :: "('ast, 'prog) CelLib \<Rightarrow> 'ast \<Rightarrow> nat" where
  "astDepth lib ast = (case celExpr lib ast of None \<Rightarrow> 0 | Some e \<Rightarrow> countExprDepth e 0)"

section \<open>The program cache\<close>

record 'prog programMeta =
  metaProg :: 'prog
  metaFile :: string
  metaLine :: int

type_synonym 'prog ProgramCache = "string \<rightharpoonup> 'prog programMeta"

datatype CompileCause =
    TooLong
  | ParseFailed string
  | TooDeep
  | CostFailed string
  | CostExceeded
  | ProgramFailed string

record CompileError =
  CePolicyID :: string
  CeSourceFile :: string
  CeSourceLine :: int
  CeCause :: CompileCause

record SkippedPolicy =
  SkTemplateID :: string
  SkDefaultAction :: string
  SkCompileErr :: string

datatype 'prog compiled = Compiled 'prog | Skipped string | Failed CompileCause

text \<open>One turn of the loop of \<^verbatim>\<open>CompileAll\<close>.\<close>

definition compile_one :: "('ast, 'prog) CelLib \<Rightarrow> PolicyTemplate \<Rightarrow> 'prog compiled" where
  "compile_one lib t =
    (if length (Expression t) > maxExpressionLength then Failed TooLong
     else case celParse lib (Expression t) of Inl err \<Rightarrow> Failed (ParseFailed err)
     | Inr parsed \<Rightarrow> (case celCheck lib parsed of Inl err \<Rightarrow> Skipped err
        | Inr ast \<Rightarrow>
          (if astDepth lib ast > maxASTDepth then Failed TooDeep
           else case celCost lib ast of Inl err \<Rightarrow> Failed (CostFailed err)
           | Inr cost \<Rightarrow>
             (if cost > maxCostBudget then Failed CostExceeded
              else case celProgram lib ast of Inl err \<Rightarrow> Failed (ProgramFailed err)
              | Inr prog \<Rightarrow> Compiled prog))))"

fun compile_loop ::
    "('ast, 'prog) CelLib \<Rightarrow> PolicyTemplate list \<Rightarrow> 'prog ProgramCache \<Rightarrow> SkippedPolicy list \<Rightarrow>
     CompileError + 'prog ProgramCache \<times> SkippedPolicy list" where
  "compile_loop lib [] cache skipped = Inr (cache, skipped)"
| "compile_loop lib (t # ts) cache skipped = (case compile_one lib t of
     Failed cause \<Rightarrow> Inl \<lparr>CePolicyID = TemplID t, CeSourceFile = SourceFile t, CeSourceLine = SourceLine t,
                           CeCause = cause\<rparr>
   | Skipped err \<Rightarrow> compile_loop lib ts cache (skipped @ [\<lparr>SkTemplateID = TemplID t,
                           SkDefaultAction = TemplDefaultAction t, SkCompileErr = err\<rparr>])
   | Compiled prog \<Rightarrow> compile_loop lib ts (cache(TemplID t \<mapsto> \<lparr>metaProg = prog, metaFile = SourceFile t,
                           metaLine = SourceLine t\<rparr>)) skipped)"

definition CompileAll ::
    "('ast, 'prog) CelLib \<Rightarrow> PolicyTemplate list \<Rightarrow> CompileError + 'prog ProgramCache \<times> SkippedPolicy list" where
  "CompileAll lib templates = compile_loop lib templates Map.empty []"

definition cache_Get :: "'prog ProgramCache \<Rightarrow> string \<Rightarrow> 'prog option" where
  "cache_Get c policyID = map_option metaProg (c policyID)"

fun itoa_digits :: "nat \<Rightarrow> string" where
  "itoa_digits n = (if n = 0 then [] else itoa_digits (n div 10) @ [char_of (48 + n mod 10)])"

declare itoa_digits.simps [simp del]

definition itoa :: "int \<Rightarrow> string" where
  "itoa n = (if n \<le> 0 then ''0'' else itoa_digits (nat n))"

definition SourceLocation :: "'prog ProgramCache \<Rightarrow> string \<Rightarrow> string" where
  "SourceLocation c policyID = (case c policyID of None \<Rightarrow> []
   | Some m \<Rightarrow> if metaFile m = [] then []
               else if metaLine m \<le> 0 then metaFile m
               else metaFile m @ '':'' @ itoa (metaLine m))"

section \<open>Evaluation\<close>

definition emptyOr :: "json_map option \<Rightarrow> json_map" where
  "emptyOr m = (case m of None \<Rightarrow> Map.empty | Some a \<Rightarrow> a)"

definition build_activation ::
    "CheckRequest \<Rightarrow> VerdictEntry \<Rightarrow> json_map option \<Rightarrow> LabeledRequest \<Rightarrow> json_map option \<Rightarrow> string \<Rightarrow> activation" where
  "build_activation req verdict decodedArgs labeled params projectRoot =
    [(''tool'', VStr (Tool req)), (''args'', VMap (emptyOr decodedArgs)), (''session_id'', VStr (SessionID req)),
     (''session'', VMap [''projectRoot'' \<mapsto> JStr projectRoot]),
     (''confidentiality'', VInt (uint (Confidentiality (RequestLabel req)))),
     (''integrity'', VInt (uint (Integrity (RequestLabel req)))),
     (''categories'', VInt (uint (Category (RequestLabel req)))),
     (''risk_level'', VStr (RiskLevel verdict)), (''effects'', VStrs (Effects verdict)),
     (''resource_matched'', VBool (Matched labeled)),
     (''resource_conf'', VInt (uint (Confidentiality (ResourceLabel labeled)))),
     (''resource_cat'', VInt (uint (Category (ResourceLabel labeled)))),
     (''resource_type'', VStr (LabResourceType labeled)), (''resource_path'', VStr (ResourcePath labeled)),
     (''resource_network_cmd'', VBool (ContainsNetworkCmd labeled)),
     (''resource_unknown_tool'', VBool (LabUnknownTool labeled)),
     (''resource_interpreter_exec'', VBool (ContainsInterpreterExec labeled)),
     (''params'', VMap (emptyOr params))]"

definition cel_Evaluate ::
    "('ast, 'prog) CelLib \<Rightarrow> 'prog \<Rightarrow> CheckRequest \<Rightarrow> VerdictEntry \<Rightarrow> json_map option \<Rightarrow> LabeledRequest \<Rightarrow>
     json_map option \<Rightarrow> string \<Rightarrow> string + cel_val" where
  "cel_Evaluate lib prog req verdict decodedArgs labeled params projectRoot =
     celEval lib prog (build_activation req verdict decodedArgs labeled params projectRoot)"

section \<open>Functions of the policy language\<close>

definition clampUint16 :: "int \<Rightarrow> u16" where
  "clampUint16 n = (if n < 0 then 0 else if n > 65535 then 65535 else of_int n)"

definition clampUint32 :: "int \<Rightarrow> u32" where
  "clampUint32 n = (if n < 0 then 0 else if n > 4294967295 then 4294967295 else of_int n)"

definition label_dominates :: "int \<Rightarrow> int \<Rightarrow> int \<Rightarrow> int \<Rightarrow> int \<Rightarrow> int \<Rightarrow> bool" where
  "label_dominates aC aI aCat bC bI bCat =
     Dominates \<lparr>Confidentiality = clampUint16 aC, Integrity = clampUint16 aI, Category = clampUint32 aCat\<rparr>
               \<lparr>Confidentiality = clampUint16 bC, Integrity = clampUint16 bI, Category = clampUint32 bCat\<rparr>"

definition label_join :: "int \<Rightarrow> int \<Rightarrow> int \<Rightarrow> int \<Rightarrow> int \<Rightarrow> int \<Rightarrow> int list" where
  "label_join aC aI aCat bC bI bCat =
    (let r = Join \<lparr>Confidentiality = clampUint16 aC, Integrity = clampUint16 aI, Category = clampUint32 aCat\<rparr>
               \<lparr>Confidentiality = clampUint16 bC, Integrity = clampUint16 bI, Category = clampUint32 bCat\<rparr>
     in [uint (Confidentiality r), uint (Integrity r), uint (Category r)])"

text \<open>CEL integers are 64-bit; \<^verbatim>\<open>uint64(cat)\<close> keeps their bits.\<close>

definition label_hasCategory :: "int \<Rightarrow> int \<Rightarrow> bool" where
  "label_hasCategory cat b = (if b \<le> 0 then False else (of_int cat :: u64) AND of_int b \<noteq> 0)"

definition ifc_highWaterMark :: "SessionLabels option \<Rightarrow> string \<Rightarrow> int" where
  "ifc_highWaterMark sessions sid = (case sessions of None \<Rightarrow> 0
     | Some s \<Rightarrow> uint (Confidentiality (Current s sid)))"

fun AltLit :: "string list \<Rightarrow> re" where
  "AltLit [] = Lit []"
| "AltLit [x] = Lit x"
| "AltLit (x # y # xs) = Alt (Lit x) (AltLit (y # xs))"

definition reReadOnlyCmds :: re where
  "reReadOnlyCmds = SeqL [AtBegin, AltLit [''ls'', ''ll'', ''la'', ''cat'', ''head'', ''tail'', ''grep'', ''find'',
     ''echo'', ''pwd'', ''wc'', ''sort'', ''uniq'', ''diff'', ''less'', ''more'', ''file'', ''stat'', ''du'', ''df'', ''id'',
     ''whoami'', ''uname'', ''hostname'', ''date'', ''env'', ''printenv'', ''which'', ''type'', ''man'', ''help'', ''true'',
     ''false'', ''test'', ''read'', ''source'', ''.''], Alt (Cls is_re_space) AtEnd]"

definition bashIsSafeReadOnly :: "string \<Rightarrow> bool" where
  "bashIsSafeReadOnly cmd = MatchString reReadOnlyCmds (TrimSpace cmd)"

definition bashExtractTool :: "string \<Rightarrow> string" where
  "bashExtractTool cmd =
    (let trimmed = TrimSpace cmd in
     if trimmed = [] then []
     else case IndexByte trimmed CHR '' '' of None \<Rightarrow> trimmed | Some i \<Rightarrow> take i trimmed)"

definition bashHasFlag :: "string \<Rightarrow> string \<Rightarrow> bool" where
  "bashHasFlag cmd flag = list_ex (\<lambda>t. t = flag) (Fields cmd)"

definition bashArgCount :: "string \<Rightarrow> nat" where
  "bashArgCount cmd = (let n = length (Fields cmd) in if n \<le> 1 then 0 else n - 1)"

definition parseRefspec :: "string \<Rightarrow> string" where
  "parseRefspec refspec0 =
    (let r1 = TrimPrefix refspec0 ''+'';
         r2 = TrimPrefix r1 '':'';
         r3 = (case IndexByte r2 CHR '':'' of Some i \<Rightarrow> drop (i + 1) r2 | None \<Rightarrow> r2)
     in ToLower (TrimPrefix r3 ''refs/heads/''))"

definition extractBranchFromBranchCmd :: "string list \<Rightarrow> string" where
  "extractBranchFromBranchCmd args =
    (case List.find (\<lambda>a. \<not> HasPrefix a ''-'') args of Some a \<Rightarrow> ToLower a | None \<Rightarrow> [])"

definition extractBranchFromPushCmd :: "string list \<Rightarrow> string" where
  "extractBranchFromPushCmd args =
    (let nonFlags = filter (\<lambda>a. \<not> HasPrefix a ''-'') args in
     if length nonFlags < 2 then [] else parseRefspec (last nonFlags))"

definition bashGitBranchTarget :: "string \<Rightarrow> string" where
  "bashGitBranchTarget cmd =
    (let tokens = Fields cmd in
     if length tokens < 2 then []
     else if tokens ! 0 \<noteq> ''git'' then []
     else if length tokens < 3 then []
     else if tokens ! 1 = ''branch'' then extractBranchFromBranchCmd (drop 2 tokens)
     else if tokens ! 1 = ''push'' then extractBranchFromPushCmd (drop 2 tokens)
     else [])"

definition bashIsGitForcePush :: "string \<Rightarrow> bool" where
  "bashIsGitForcePush cmd =
    (let tokens = Fields cmd in
     if length tokens < 2 \<or> tokens ! 0 \<noteq> ''git'' \<or> tokens ! 1 \<noteq> ''push'' then False
     else list_ex (\<lambda>t. t = ''--force'' \<or> t = ''-f'' \<or> (HasPrefix t ''+'' \<and> \<not> HasPrefix t ''+-''))
            (drop 2 tokens))"

definition bashIsGitBranchDelete :: "string \<Rightarrow> bool" where
  "bashIsGitBranchDelete cmd =
    (let tokens = Fields cmd in
     if length tokens < 2 \<or> tokens ! 0 \<noteq> ''git'' then False
     else if tokens ! 1 = ''branch'' then list_ex (\<lambda>t. t = ''-D'' \<or> t = ''-d'') (drop 2 tokens)
     else if tokens ! 1 = ''push'' then list_ex (\<lambda>t. HasPrefix t '':'' \<and> length t > 1) (drop 2 tokens)
     else False)"

definition bashFindSearchRoot :: "(string \<Rightarrow> string option) \<Rightarrow> string \<Rightarrow> string" where
  "bashFindSearchRoot evalSymlinks cmd =
    (let tokens = Fields cmd in
     if length tokens < 2 \<or> tokens ! 0 \<noteq> ''find'' then []
     else case List.find (\<lambda>t. \<not> HasPrefix t ''-'') (drop 1 tokens) of
       None \<Rightarrow> []
     | Some t \<Rightarrow> (case evalSymlinks (Clean t) of Some r \<Rightarrow> r | None \<Rightarrow> []))"

definition pathIsWithinProject :: "(string \<Rightarrow> string option) \<Rightarrow> string \<Rightarrow> string \<Rightarrow> bool" where
  "pathIsWithinProject evalSymlinks path root =
    (case evalSymlinks (Clean path) of None \<Rightarrow> False
     | Some search \<Rightarrow> (case evalSymlinks (Clean root) of None \<Rightarrow> False
        | Some project0 \<Rightarrow>
          (let project = (if HasSuffix project0 ''/'' then project0 else project0 @ ''/'')
           in HasPrefix search project \<or> search = TrimSuffix project ''/'')))"

end
