(* ===== verification/Sink.thy ===== *)
theory Sink
  imports Sessions Classify
begin

text \<open>
  Sink enforcement for tainted sessions, \<^verbatim>\<open>internal/sink/enforcer.go\<close>: which resources are external,
  which operations are restricted, and the decision from the session snapshot, the effects of the
  tool and the resources it names.  The address parser of the \<^verbatim>\<open>net\<close> package that \<^verbatim>\<open>isExternal\<close> calls
  is modelled with it.
\<close>

section \<open>Addresses\<close>

text \<open>\<^verbatim>\<open>net.ParseIP\<close>: an address is its 16 bytes, an IPv4 address in the mapped form.\<close>

definition dec_value :: "string \<Rightarrow> nat" where
  "dec_value s = foldl (\<lambda>acc c. 10 * acc + (of_char c - 48)) 0 s"

definition parse_octet :: "string \<Rightarrow> nat option" where
  "parse_octet s =
    (if s = [] \<or> \<not> list_all is_digit s \<or> (length s > 1 \<and> hd s = CHR ''0'') \<or> length s > 3 then None
     else if dec_value s > 255 then None else Some (dec_value s))"

definition parse_ipv4 :: "string \<Rightarrow> nat list option" where
  "parse_ipv4 s = (let os = map parse_octet (Split s CHR ''.'') in
     if length os = 4 \<and> list_all (\<lambda>x. x \<noteq> None) os then Some (map the os) else None)"

definition hex_digit :: "char \<Rightarrow> nat option" where
  "hex_digit c = (let n = (of_char c :: nat) in
     if 48 \<le> n \<and> n \<le> 57 then Some (n - 48)
     else if 97 \<le> n \<and> n \<le> 102 then Some (n - 87)
     else if 65 \<le> n \<and> n \<le> 70 then Some (n - 55) else None)"

definition hex_value :: "string \<Rightarrow> nat" where
  "hex_value s = foldl (\<lambda>acc c. 16 * acc + the (hex_digit c)) 0 s"

text \<open>The groups of an IPv6 address: the bytes read so far (reversed pairs appended), the position of
  the ellipsis, and the rest of the text.  The recursion stops after 16 bytes.\<close>

function ipv6_groups :: "nat list \<Rightarrow> nat option \<Rightarrow> string \<Rightarrow> (nat list \<times> nat option) option" where
  "ipv6_groups bs ell s =
    (if length bs \<ge> 16 then (if s = [] then Some (bs, ell) else None)
     else let g = takeWhile (\<lambda>c. hex_digit c \<noteq> None) s; t = drop (length g) s in
       if g = [] \<or> length g > 4 then None
       else if t \<noteq> [] \<and> hd t = CHR ''.'' then
         (if (ell = None \<and> length bs \<noteq> 12) \<or> length bs + 4 > 16 then None
          else map_option (\<lambda>v4. (bs @ v4, ell)) (parse_ipv4 s))
       else let bs' = bs @ [hex_value g div 256, hex_value g mod 256] in
         if t = [] then Some (bs', ell)
         else if hd t \<noteq> CHR '':'' \<or> length t = 1 then None
         else let u = tl t in
           if hd u = CHR '':'' then
             (if ell \<noteq> None then None
              else if tl u = [] then Some (bs', Some (length bs'))
              else ipv6_groups bs' (Some (length bs')) (tl u))
           else ipv6_groups bs' ell u)"
  by pat_completeness auto
termination by (relation "measure (\<lambda>(bs, _, _). 16 - length bs)") auto

declare ipv6_groups.simps [simp del]

definition parse_ipv6 :: "string \<Rightarrow> nat list option" where
  "parse_ipv6 s =
    (let r = (if HasPrefix s ''::'' then
                (if drop 2 s = [] then Some ([], Some 0) else ipv6_groups [] (Some 0) (drop 2 s))
              else ipv6_groups [] None s)
     in case r of None \<Rightarrow> None
        | Some (bs, None) \<Rightarrow> if length bs = 16 then Some bs else None
        | Some (bs, Some e) \<Rightarrow> if length bs < 16
            then Some (take e bs @ replicate (16 - length bs) 0 @ drop e bs) else None)"

definition ParseIP :: "string \<Rightarrow> nat list option" where
  "ParseIP s = (case List.find (\<lambda>c. c = CHR ''.'' \<or> c = CHR '':'' \<or> c = CHR ''%'') s of
     Some c \<Rightarrow> if c = CHR ''.'' then map_option (\<lambda>v4. replicate 10 0 @ [255, 255] @ v4) (parse_ipv4 s)
               else if c = CHR '':'' then (if CHR ''%'' \<in> set s then None else parse_ipv6 s)
               else None
   | None \<Rightarrow> None)"

definition To4 :: "nat list \<Rightarrow> nat list option" where
  "To4 ip = (if take 12 ip = replicate 10 0 @ [255, 255] then Some (drop 12 ip) else None)"

definition IsLoopback :: "nat list \<Rightarrow> bool" where
  "IsLoopback ip = (case To4 ip of Some v \<Rightarrow> v ! 0 = 127 | None \<Rightarrow> ip = replicate 15 0 @ [1])"

definition IsPrivate :: "nat list \<Rightarrow> bool" where
  "IsPrivate ip = (case To4 ip of
     Some v \<Rightarrow> v ! 0 = 10 \<or> (v ! 0 = 172 \<and> v ! 1 div 16 = 1) \<or> (v ! 0 = 192 \<and> v ! 1 = 168)
   | None \<Rightarrow> ip ! 0 div 2 = 126)"

definition IsLinkLocalUnicast :: "nat list \<Rightarrow> bool" where
  "IsLinkLocalUnicast ip = (case To4 ip of
     Some v \<Rightarrow> v ! 0 = 169 \<and> v ! 1 = 254
   | None \<Rightarrow> ip ! 0 = 254 \<and> ip ! 1 div 64 = 2)"

definition IsLinkLocalMulticast :: "nat list \<Rightarrow> bool" where
  "IsLinkLocalMulticast ip = (case To4 ip of
     Some v \<Rightarrow> v ! 0 = 224 \<and> v ! 1 = 0 \<and> v ! 2 = 0
   | None \<Rightarrow> ip ! 0 = 255 \<and> ip ! 1 mod 16 = 2)"

section \<open>Definitions\<close>

definition restrictedEffects :: "string list" where
  "restrictedEffects = [EffectNetworkEgress, EffectContentPublish, EffectProcessCoordination,
     EffectContentInternal, EffectMessageContent]"

definition IsRestrictedEffect :: "string \<Rightarrow> bool" where
  "IsRestrictedEffect effect \<longleftrightarrow> effect \<in> set restrictedEffects"

fun strip_scheme :: "string list \<Rightarrow> string \<Rightarrow> string" where
  "strip_scheme [] r = r"
| "strip_scheme (p # ps) r = (if HasPrefix r p then drop (length p) r else strip_scheme ps r)"

definition host_of :: "string \<Rightarrow> string" where
  "host_of resource =
    (let r = strip_scheme [''https://'', ''http://'', ''ws://'', ''wss://'', ''ftp://'', ''ssh://''] resource
     in if HasPrefix r ''['' then
          (case IndexByte r CHR '']'' of Some e \<Rightarrow> take (e - 1) (drop 1 r) | None \<Rightarrow> r)
        else takeWhile (\<lambda>c. c \<notin> set ''/:?#'') r)"

definition isExternal :: "string \<Rightarrow> bool" where
  "isExternal resource =
    (let r = ToLower (TrimSpace (host_of resource)) in
     if r = [] then False
     else if r = ''localhost'' \<or> HasSuffix r ''.localhost'' \<or> r = ''host.docker.internal'' then False
     else case ParseIP r of
       Some ip \<Rightarrow> \<not> IsLoopback ip \<and> \<not> IsPrivate ip \<and> \<not> IsLinkLocalUnicast ip \<and> \<not> IsLinkLocalMulticast ip
     | None \<Rightarrow> True)"

definition isExternalResource :: "string list \<Rightarrow> bool" where
  "isExternalResource resources = list_ex isExternal resources"

definition isRestrictedSink :: "string list \<Rightarrow> bool \<Rightarrow> bool" where
  "isRestrictedSink effects containsNetworkCmd \<longleftrightarrow>
     containsNetworkCmd \<or> list_ex (\<lambda>e. e \<in> set restrictedEffects) effects"

definition effectMatches :: "string \<Rightarrow> string list \<Rightarrow> bool" where
  "effectMatches ruleEffect effects = list_ex (\<lambda>e. e = ruleEffect) effects"

text \<open>The enforcer has its own copy of the pattern matcher, without the fallback to
  \<^verbatim>\<open>filepath.Match\<close>; it lowers and trims both sides itself.\<close>

definition sink_matchesPattern :: "string \<Rightarrow> string \<Rightarrow> bool" where
  "sink_matchesPattern pattern0 resource0 =
    (let pattern = TrimSuffix (ToLower pattern0) ''.'';
         resource = TrimSuffix (ToLower resource0) ''.'' in
     if \<not> Contains pattern ''*'' then pattern = resource
     else if HasPrefix pattern ''*.'' then
       (let suffix = drop 1 pattern in
        if resource = drop 2 pattern then True
        else if HasSuffix resource suffix
        then CountByte resource CHR ''.'' = CountByte suffix CHR ''.''
        else False)
     else if HasSuffix pattern ''/**'' then HasPrefix resource (take (length pattern - 3) pattern)
     else False)"

definition resourceMatchesAnyRule ::
    "gotime \<Rightarrow> StandingRule list \<Rightarrow> string list \<Rightarrow> string \<Rightarrow> bool" where
  "resourceMatchesAnyRule now rules effects resource =
    list_ex (\<lambda>rule. \<not> rule_expired now rule \<and> effectMatches (RuleEffect rule) effects \<and>
                    sink_matchesPattern (ResourcePattern rule) resource) rules"

definition allResourcesCovered ::
    "gotime \<Rightarrow> StandingRule list \<Rightarrow> string list \<Rightarrow> string list \<Rightarrow> bool" where
  "allResourcesCovered now rules effects resources =
    (if resources = [] then False
     else list_all (resourceMatchesAnyRule now rules effects) resources)"

definition sink_Decision ::
    "gotime \<Rightarrow> SessionSnapshot \<Rightarrow> string list \<Rightarrow> string list \<Rightarrow> bool \<Rightarrow> Action" where
  "sink_Decision now snap effects resources containsNetworkCmd =
    (if \<not> IsTaintedSnap snap then ActionAllow
     else if \<not> isRestrictedSink effects containsNetworkCmd then ActionAllow
     else if SnapApproval snap = ApprovalSessionGranted then ActionAllow
     else if SnapApproval snap = ApprovalStandingRule \<and>
             allResourcesCovered now (SnapRules snap) effects resources then ActionAllow
     else if isExternalResource resources \<or> (containsNetworkCmd \<and> resources = []) then ActionDeny
     else ActionAllow)"

section \<open>Lemmas\<close>

text \<open>On normalised arguments the copy agrees with the registry's matcher except for the fallback.\<close>

lemma sink_matches_registry:
  "sink_matchesPattern p r \<Longrightarrow>
   matchesPattern (TrimSuffix (ToLower p) ''.'') (TrimSuffix (ToLower r) ''.'')"
  by (auto simp: sink_matchesPattern_def matchesPattern_def Let_def split: if_splits)

lemma covering_rule:
  assumes "resourceMatchesAnyRule now rules effs x"
  shows "\<exists>rule \<in> set rules. (IsZero (ExpiresAt rule) \<or> now \<le> ExpiresAt rule) \<and> RuleEffect rule \<in> set effs \<and>
     matchesPattern (TrimSuffix (ToLower (ResourcePattern rule)) ''.'') (TrimSuffix (ToLower x) ''.'')"
proof -
  obtain rule where r: "rule \<in> set rules" "\<not> rule_expired now rule" "effectMatches (RuleEffect rule) effs"
      "sink_matchesPattern (ResourcePattern rule) x"
    using assms by (auto simp: resourceMatchesAnyRule_def list_ex_iff)
  from r(2) have "IsZero (ExpiresAt rule) \<or> now \<le> ExpiresAt rule" by (auto simp: rule_expired_def)
  moreover from r(3) have "RuleEffect rule \<in> set effs" by (auto simp: effectMatches_def list_ex_iff)
  ultimately show ?thesis using r(1) sink_matches_registry [OF r(4)] by blast
qed

lemma sink_Decision_cases: "sink_Decision now snap effs res net \<in> {ActionAllow, ActionDeny}"
  by (simp add: sink_Decision_def)

lemma sink_Decision_deny_iff:
  "sink_Decision now snap effs res net = ActionDeny \<longleftrightarrow>
     IsTaintedSnap snap \<and> isRestrictedSink effs net \<and>
     SnapApproval snap \<noteq> ApprovalSessionGranted \<and>
     \<not> (SnapApproval snap = ApprovalStandingRule \<and> allResourcesCovered now (SnapRules snap) effs res) \<and>
     (isExternalResource res \<or> net \<and> res = [])"
  by (auto simp: sink_Decision_def)

section \<open>Properties\<close>

text \<open>Claim C5. Exfiltration is blocked: in a registry, for a tainted session without a session-wide
  grant, an operation with a restricted effect or a network command on an external resource (or on
  no resource the daemon could find, for a network command) is denied, unless every resource it names
  matches a standing rule of that session that has not expired and whose effect the tool has.\<close>

theorem tainted_session_cannot_exfiltrate:
  assumes "IsTainted s sid" and "isRestrictedSink effs net"
    and "sdApproval (getOrCreate s sid) \<noteq> ApprovalSessionGranted"
    and "isExternalResource res \<or> net \<and> res = []"
    and "sink_Decision now (Snapshot s sid) effs res net \<noteq> ActionDeny"
  shows "res \<noteq> [] \<and> (\<forall>x \<in> set res. \<exists>rule \<in> set (sdRules (getOrCreate s sid)).
           (IsZero (ExpiresAt rule) \<or> now \<le> ExpiresAt rule) \<and> RuleEffect rule \<in> set effs \<and>
           matchesPattern (TrimSuffix (ToLower (ResourcePattern rule)) ''.'') (TrimSuffix (ToLower x) ''.''))"
proof -
  have "allResourcesCovered now (sdRules (getOrCreate s sid)) effs res"
    using assms by (auto simp: sink_Decision_deny_iff Snapshot_get)
  then show ?thesis
    using covering_rule by (auto simp: allResourcesCovered_def list_all_iff split: if_splits)
qed

definition demo_rule :: StandingRule where
  "demo_rule = \<lparr>RuleEffect = ''network_egress'', ResourcePattern = ''*.github.com'', ExpiresAt = 100,
                GrantedAt = 1, GrantedBy = ''alice''\<rparr>"

definition demo_registry :: SessionLabels where
  "demo_registry = AddStandingRule (fst (TaintWithSecret Map.empty ''s1'')) ''s1'' demo_rule"

lemma demo_registry_facts:
  "IsTainted demo_registry ''s1''" "sdApproval (getOrCreate demo_registry ''s1'') = ApprovalStandingRule"
  "sdRules (getOrCreate demo_registry ''s1'') = [demo_rule]"
  by (simp_all add: demo_registry_def AddStandingRule_def TaintWithSecret_def session_simps Let_def
      IsTainted_get Current_get label_tainted_def TaintBit_def approval_defs)

lemmas sink_eval = sink_Decision_def isRestrictedSink_def isExternalResource_def isExternal_def host_of_def
  Let_def allResourcesCovered_def resourceMatchesAnyRule_def effectMatches_def sink_matchesPattern_def
  rule_expired_def restrictedEffects_def IsZero_def ascii_lower_def isSpace_def ParseIP_def effect_defs go_strings

theorem tainted_session_cannot_exfiltrate_witness:
  "\<exists>rule \<in> set (sdRules (getOrCreate demo_registry ''s1'')). RuleEffect rule \<in> set [''network_egress''] \<and>
     (IsZero (ExpiresAt rule) \<or> 50 \<le> ExpiresAt rule)"
proof -
  have r: "isRestrictedSink [''network_egress''] True" by (simp add: isRestrictedSink_def)
  have x: "isExternalResource [''https://api.github.com''] \<or> True \<and> [''https://api.github.com''] = []"
    by (simp add: sink_eval parse_ipv4_def parse_octet_def is_digit_def)
  have a: "sink_Decision 50 (Snapshot demo_registry ''s1'') [''network_egress''] [''https://api.github.com''] True
      \<noteq> ActionDeny"
    by (simp add: Snapshot_get demo_registry_facts demo_rule_def sink_eval)
  have g: "sdApproval (getOrCreate demo_registry ''s1'') \<noteq> ApprovalSessionGranted"
    by (simp add: demo_registry_facts approval_defs)
  from tainted_session_cannot_exfiltrate [OF demo_registry_facts(1) r g x a] show ?thesis by auto
qed

text \<open>Standing rules are matched against the whole resource string, not its host: a rule for
  \<^verbatim>\<open>*.github.com\<close> lets a tainted session reach an unrelated external address when the URL merely
  ends in \<^verbatim>\<open>.github.com\<close>.\<close>

theorem wildcard_rule_covers_foreign_host:
  "sink_Decision 50 (Snapshot demo_registry ''s1'') [''network_egress'']
      [''http://[2001:db8::1]/?q=.github.com''] True = ActionAllow \<and>
   isExternal ''http://[2001:db8::1]/?q=.github.com'' \<and>
   host_of ''http://[2001:db8::1]/?q=.github.com'' = ''2001:db8::1''"
proof (intro conjI)
  show "host_of ''http://[2001:db8::1]/?q=.github.com'' = ''2001:db8::1''" by code_simp
  show "isExternal ''http://[2001:db8::1]/?q=.github.com''" by code_simp
  show "sink_Decision 50 (Snapshot demo_registry ''s1'') [''network_egress'']
      [''http://[2001:db8::1]/?q=.github.com''] True = ActionAllow"
    by (simp add: Snapshot_get demo_registry_facts demo_rule_def sink_Decision_def isRestrictedSink_def
        approval_defs allResourcesCovered_def resourceMatchesAnyRule_def effectMatches_def
        sink_matchesPattern_def rule_expired_def IsZero_def ascii_lower_def Let_def go_strings)
qed

end
