(* ===== verification/SelfProtect.thy ===== *)
theory SelfProtect
  imports Types Regex GoPath
begin

text \<open>
  The self-protection guard of \<^verbatim>\<open>internal/policy/selfprotect.go\<close>, which runs before every policy:
  writes to nixis' own files and shell commands against its daemon are denied.  The home directory
  and the resolution of symbolic links by the operating system are parameters.
\<close>

section \<open>Definitions\<close>

record SelfProtectGuard =
  homeDir :: string
  protectedPaths :: "string list"

definition NewSelfProtectGuard :: "string option \<Rightarrow> SelfProtectGuard" where
  "NewSelfProtectGuard userHome =
    (let home = (case userHome of Some h \<Rightarrow> h | None \<Rightarrow> ''/tmp'')
     in \<lparr>homeDir = home,
         protectedPaths = [filepath_Join [home, ''.nixis''] @ ''/'',
           filepath_Join [home, ''.nixis''],
           filepath_Join [home, ''.claude'', ''settings.json''],
           filepath_Join [home, ''Library'', ''LaunchAgents'', ''com.nixis.daemon.plist''],
           filepath_Join [home, ''.config'', ''systemd'', ''user'', ''nixis-daemon.service'']]\<rparr>)"

text \<open>The shell patterns.  They ignore case: the text is lowered first.  A dot is any byte but a newline.\<close>

definition anyStar :: re where
  "anyStar = ClsStar (\<lambda>c. c \<noteq> CHR 0x0A)"

fun AltL :: "string list \<Rightarrow> re" where
  "AltL [] = Lit []"
| "AltL [x] = Lit x"
| "AltL (x # y # xs) = Alt (Lit x) (AltL (y # xs))"

definition slash_dot :: re where
  "slash_dot = Cls (\<lambda>c. c = CHR ''/'' \<or> c = CHR ''.'')"

definition shellPatterns :: "re list" where
  "shellPatterns = [
    SeqL [WordB, Lit ''nixis'', WordB, anyStar, WordB, AltL [''daemon'', ''setup''], WordB, anyStar,
      WordB, AltL [''stop'', ''restart'', ''uninstall'', ''remove''], WordB],
    SeqL [WordB, AltL [''kill'', ''pkill'', ''killall''], WordB, anyStar, Lit ''nixis''],
    SeqL [WordB, Lit ''launchctl'', WordB, anyStar, AltL [''bootout'', ''unload'', ''remove''], anyStar, Lit ''nixis''],
    SeqL [WordB, Lit ''systemctl'', WordB, anyStar, AltL [''stop'', ''disable'', ''mask''], anyStar, Lit ''nixis''],
    SeqL [WordB, AltL [''rm'', ''mv'', ''chmod'', ''chown''], WordB, anyStar, slash_dot, Lit ''nixis''],
    SeqL [WordB, AltL [''rm'', ''mv'', ''chmod'', ''chown''], WordB, anyStar, Lit ''settings.json''],
    SeqL [AltL [''echo'', ''cat'', ''tee'', ''sed'', ''awk''], anyStar, Lit ''>'', anyStar, slash_dot, Lit ''nixis''],
    SeqL [WordB, Lit ''crontab'', WordB, anyStar, Lit ''nixis''],
    SeqL [WordB, Lit ''git'', WordB, anyStar, WordB, AltL [''checkout'', ''reset'', ''clean''], WordB, anyStar,
      slash_dot, Lit ''nixis''],
    SeqL [Lit ''cd'', ClsPlus is_re_space, anyStar, slash_dot, Lit ''nixis'', anyStar, Lit ''&&'']]"

definition fileTools :: "string list" where
  "fileTools = [''Write'', ''write'', ''Edit'', ''edit'', ''StrReplace'', ''str_replace'', ''MultiEdit'',
     ''multi_edit'', ''Delete'', ''delete'']"

definition sp_extractFilePath :: "json_parser \<Rightarrow> CheckRequest \<Rightarrow> string" where
  "sp_extractFilePath parse req =
    (if Args req = [] then []
     else if Tool req \<notin> set fileTools then []
     else case unmarshal_fields parse [''path'', ''file_path'', ''target_file''] (Args req) of
       None \<Rightarrow> []
     | Some f \<Rightarrow> if f ''path'' \<noteq> [] then f ''path''
                 else if f ''file_path'' \<noteq> [] then f ''file_path'' else f ''target_file'')"

definition shellTools :: "string list" where
  "shellTools = [''Shell'', ''shell'', ''Bash'', ''bash'', ''Terminal'', ''terminal'']"

definition sp_extractCommand :: "json_parser \<Rightarrow> CheckRequest \<Rightarrow> string" where
  "sp_extractCommand parse req =
    (if Tool req \<notin> set shellTools then []
     else if Args req = [] then []
     else case unmarshal_fields parse [''command'', ''cmd'', ''input''] (Args req) of
       None \<Rightarrow> []
     | Some f \<Rightarrow> if f ''command'' \<noteq> [] then f ''command''
                 else if f ''cmd'' \<noteq> [] then f ''cmd'' else f ''input'')"

text \<open>\<^verbatim>\<open>evalSymlinks\<close> is the file system: \<^verbatim>\<open>None\<close> when a component does not exist.\<close>

definition resolvePath :: "(string \<Rightarrow> string option) \<Rightarrow> SelfProtectGuard \<Rightarrow> string \<Rightarrow> string" where
  "resolvePath evalSymlinks g path0 =
    (let path1 = (if HasPrefix path0 ''~/'' then filepath_Join [homeDir g, drop 2 path0] else path0);
         path = (if HasPrefix path1 ''$HOME/'' then filepath_Join [homeDir g, drop 6 path1] else path1)
     in case evalSymlinks path of
          Some resolved \<Rightarrow> resolved
        | None \<Rightarrow> (case evalSymlinks (Dir path) of
             Some resolvedDir \<Rightarrow> filepath_Join [resolvedDir, Base path]
           | None \<Rightarrow> Clean path))"

definition isProtectedPath :: "SelfProtectGuard \<Rightarrow> string \<Rightarrow> bool" where
  "isProtectedPath g resolved =
    list_ex (\<lambda>p. if HasSuffix p ''/'' then HasPrefix resolved p else resolved = p) (protectedPaths g)"

definition checkFilePath :: "json_parser \<Rightarrow> (string \<Rightarrow> string option) \<Rightarrow> SelfProtectGuard \<Rightarrow> CheckRequest \<Rightarrow> bool" where
  "checkFilePath parse evalSymlinks g req =
    (let path = sp_extractFilePath parse req in
     if path = [] then False else isProtectedPath g (resolvePath evalSymlinks g path))"

definition pathIndicators :: "string list" where
  "pathIndicators = [''.nixis/'', ''.nixis'' @ [CHR 0x22], ''.nixis'' @ [CHR 0x27], ''nixis.sock'',
     ''com.nixis.daemon'', ''nixis-daemon.service'', ''.claude/settings.json'']"

definition destructiveVerbs :: "string list" where
  "destructiveVerbs = [''rm '', ''mv '', ''cp '', ''chmod '', ''chown '', ''echo '', ''cat '', ''tee '', ''sed '',
     ''awk '', ''truncate '', ''shred '', ''> '', ''>> '']"

definition commandTargetsProtectedPath :: "string \<Rightarrow> bool" where
  "commandTargetsProtectedPath cmd =
    (let cmdLower = ToLower cmd in
     list_ex (\<lambda>i. Contains cmdLower i \<and> list_ex (Contains cmdLower) destructiveVerbs) pathIndicators)"

definition checkShellCommand :: "json_parser \<Rightarrow> CheckRequest \<Rightarrow> bool" where
  "checkShellCommand parse req =
    (let cmd = sp_extractCommand parse req in
     if cmd = [] then False
     else list_ex (\<lambda>r. MatchString r (ToLower cmd)) shellPatterns \<or> commandTargetsProtectedPath cmd)"

definition selfProtectDenyReason :: string where
  "selfProtectDenyReason = ''Nixis self-protection: AI agents cannot modify governance configuration. '' @
     ''To change policies, edit ~/.nixis/policies/custom/ directly in your terminal. '' @
     ''To manage the daemon, run '' @ [CHR 0x27] @ ''nixis daemon stop'' @ [CHR 0x27] @ '' in your terminal.''"

definition SelfProtect_Check ::
    "json_parser \<Rightarrow> (string \<Rightarrow> string option) \<Rightarrow> SelfProtectGuard \<Rightarrow> CheckRequest \<Rightarrow> Decision option" where
  "SelfProtect_Check parse evalSymlinks g req =
    (if checkFilePath parse evalSymlinks g req \<or> checkShellCommand parse req
     then Some \<lparr>Verdict = ActionDeny, Reason = selfProtectDenyReason,
                PolicyID = ''nixis-self-protection-guard'', Labels = zeroLabel\<rparr>
     else None)"

section \<open>Lemmas\<close>

lemma SelfProtect_denies: "SelfProtect_Check parse fs g req = Some d \<Longrightarrow> Verdict d = ActionDeny"
  by (auto simp: SelfProtect_Check_def split: if_splits)

lemma isProtectedPath_below:
  assumes "protectedPaths g = protectedPaths (NewSelfProtectGuard (Some home))"
  shows "isProtectedPath g (filepath_Join [home, ''.nixis''] @ ''/'' @ rest)"
  using assms by (simp add: isProtectedPath_def NewSelfProtectGuard_def HasSuffix_def HasPrefix_def)

section \<open>Properties\<close>

definition demo_write :: CheckRequest where
  "demo_write = \<lparr>Tool = ''Write'', Args = ''{}'', SessionID = ''s1'', ParentSessionID = [], SpawnToken = [],
     ProjectRoot = [], RequestLabel = zeroLabel, AuthorityChain = [], Nonce = [], Timestamp = 0\<rparr>"

text \<open>The guard looks at one path field only, \<^verbatim>\<open>path\<close> before \<^verbatim>\<open>file_path\<close>: a Write whose
  \<^verbatim>\<open>file_path\<close> is nixis' own policy passes the guard when a harmless \<^verbatim>\<open>path\<close> is sent along, while the
  same Write without it is denied.\<close>

theorem guard_shadowed_by_second_path_field:
  "SelfProtect_Check (\<lambda>_. Some (JObj [(''path'', JStr ''/tmp/x''),
       (''file_path'', JStr ''/home/u/.nixis/policies/p.yaml'')])) Some (NewSelfProtectGuard (Some ''/home/u'')) demo_write
     = None \<and>
   SelfProtect_Check (\<lambda>_. Some (JObj [(''file_path'', JStr ''/home/u/.nixis/policies/p.yaml'')])) Some
       (NewSelfProtectGuard (Some ''/home/u'')) demo_write \<noteq> None"
  by (intro conjI) code_simp+

end
