(* ===== verification/Secret.thy ===== *)
theory Secret
  imports Lattice
begin

text \<open>
  The secret scanner of \<^verbatim>\<open>internal/secret/scanner.go\<close>.  The Gitleaks detector and the clock are outside:
  a scan is given the way it ended, a parameter of type \<^verbatim>\<open>scan_outcome\<close>.
\<close>

datatype BoundaryType = BoundaryToolArgs | BoundaryToolResponse | BoundaryFileContent

record raw_finding =
  ruleID :: string
  rawSecret :: string
  startColumn :: int
  endColumn :: int

record Finding =
  FindBoundary :: BoundaryType
  FindRule :: string
  FindCategory :: u32
  Redacted :: string
  StartOffset :: int
  EndOffset :: int

text \<open>How the select of \<^verbatim>\<open>ScanBoundary\<close> ends: the timer, the context, the panicking or the finished goroutine.\<close>

datatype scan_outcome =
    ScanTimeout
  | ScanCancelled
  | ScanPanicked
  | ScanDone "raw_finding list"

definition ShouldScan :: "string list \<Rightarrow> BoundaryType \<Rightarrow> bool" where
  "ShouldScan effects boundary = (case boundary of
     BoundaryToolArgs \<Rightarrow> True
   | BoundaryFileContent \<Rightarrow> True
   | BoundaryToolResponse \<Rightarrow> list_ex (\<lambda>e. HasPrefix e ''write:'' \<or> e = ''write'') effects)"

definition denyLabel :: SecurityLabel where
  "denyLabel = \<lparr>Confidentiality = 3, Integrity = 0, Category = CatCredentials\<rparr>"

definition redact :: "string \<Rightarrow> string" where
  "redact secret =
    (if length secret \<le> 8 then ''****''
     else take 4 secret @ ''...'' @ drop (length secret - 4) secret)"

definition to_finding :: "BoundaryType \<Rightarrow> raw_finding \<Rightarrow> Finding" where
  "to_finding boundary f =
     \<lparr>FindBoundary = boundary, FindRule = ruleID f, FindCategory = CatCredentials,
      Redacted = redact (rawSecret f), StartOffset = startColumn f, EndOffset = endColumn f\<rparr>"

text \<open>\<^verbatim>\<open>enabled\<close>: the detector was initialised; \<^verbatim>\<open>ctxErr\<close>: the context had ended on entry; \<^verbatim>\<open>detect\<close>: the
  outcome of the scan of the content.\<close>

definition ScanBoundary ::
    "bool \<Rightarrow> bool \<Rightarrow> (string \<Rightarrow> scan_outcome) \<Rightarrow> string \<Rightarrow> BoundaryType \<Rightarrow> Finding list \<times> SecurityLabel" where
  "ScanBoundary enabled ctxErr detect content boundary =
    (if \<not> enabled then ([], zeroLabel)
     else if ctxErr then ([], denyLabel)
     else case detect content of
       ScanTimeout \<Rightarrow> ([], denyLabel)
     | ScanCancelled \<Rightarrow> ([], denyLabel)
     | ScanPanicked \<Rightarrow> ([], denyLabel)
     | ScanDone fs \<Rightarrow> if fs = [] then ([], zeroLabel) else (map (to_finding boundary) fs, denyLabel))"

section \<open>Properties\<close>

text \<open>A finding reveals at most eight bytes of the secret: what is shown depends only on
  the first four and the last four bytes of a secret longer than eight bytes, and on nothing at all for
  a shorter one.\<close>

theorem redact_hides_the_middle:
  "length (redact s) \<le> 11 \<and>
   (length s \<le> 8 \<and> length t \<le> 8 \<longrightarrow> redact s = redact t) \<and>
   (length s > 8 \<and> length t > 8 \<longrightarrow>
      (redact s = redact t \<longleftrightarrow> take 4 s = take 4 t \<and> drop (length s - 4) s = drop (length t - 4) t))"
  by (auto simp: redact_def append_eq_append_conv)

theorem redact_hides_the_middle_witness:
  "redact ''sk-live-51H8xSECRETxYz90'' = redact ''sk-l----------Yz90''"
  using redact_hides_the_middle [of "''sk-live-51H8xSECRETxYz90''" "''sk-l----------Yz90''"] by simp

end
