(* ===== verification/Bytes.thy ===== *)
theory Bytes
  imports Prelude
begin

text \<open>
  Byte strings: the big-endian and little-endian encodings of \<^verbatim>\<open>encoding/binary\<close> with their round
  trips, and the conversion between strings and bytes.  Shared by the delegation tokens, the wire
  framing and the audit chain.
\<close>

type_synonym bytes = "u8 list"

definition bytes_of :: "string \<Rightarrow> bytes" where
  "bytes_of s = map (\<lambda>c. of_nat (of_char c)) s"

definition string_of :: "bytes \<Rightarrow> string" where
  "string_of bs = map (\<lambda>b. char_of (unat b)) bs"

text \<open>\<^verbatim>\<open>hex.EncodeToString\<close>.\<close>

definition hexEncode :: "bytes \<Rightarrow> string" where
  "hexEncode bs = concat (map (\<lambda>x. [''0123456789abcdef'' ! (unat x div 16), ''0123456789abcdef'' ! (unat x mod 16)]) bs)"

text \<open>The \<open>n\<close> low bytes of a word, most significant first.\<close>

fun be_bytes :: "nat \<Rightarrow> 'a::len word \<Rightarrow> bytes" where
  "be_bytes 0 w = []"
| "be_bytes (Suc n) w = ucast (drop_bit (8 * n) w) # be_bytes n w"

definition be_step :: "'a::len word \<Rightarrow> u8 \<Rightarrow> 'a word" where
  "be_step acc b = push_bit 8 acc OR ucast b"

definition be_word :: "bytes \<Rightarrow> 'a::len word" where
  "be_word bs = foldl be_step 0 bs"

definition le_bytes :: "nat \<Rightarrow> 'a::len word \<Rightarrow> bytes" where
  "le_bytes n w = rev (be_bytes n w)"

lemma string_of_bytes_of [simp]: "string_of (bytes_of s) = s"
proof -
  have "char_of (unat (of_nat (of_char c) :: u8)) = c" for c :: char
  proof -
    have "(of_char c :: nat) < 256" using nat_of_char_less_256 by simp
    then have "unat (of_nat (of_char c) :: u8) = of_char c" by (simp add: unat_of_nat)
    then show ?thesis by simp
  qed
  then show ?thesis by (simp add: string_of_def bytes_of_def comp_def)
qed

lemma bytes_of_inj [simp]: "bytes_of a = bytes_of b \<longleftrightarrow> a = b"
  by (metis string_of_bytes_of)

lemma length_bytes_of [simp]: "length (bytes_of s) = length s"
  by (simp add: bytes_of_def)

lemma length_be_bytes [simp]: "length (be_bytes n w) = n"
  by (induction n) auto

lemma be_fold:
  "foldl be_step acc (be_bytes n w) = push_bit (8 * n) acc OR take_bit (8 * n) w" for w :: "'a::len word"
proof (induction n arbitrary: acc)
  case (Suc n)
  have "push_bit (8 * n) (push_bit 8 acc OR ucast (ucast (drop_bit (8 * n) w) :: u8)) OR take_bit (8 * n) w
      = push_bit (8 * Suc n) acc OR take_bit (8 * Suc n) w"
    by (rule bit_word_eqI) (auto simp: bit_simps add.commute)
  then show ?case using Suc by (simp add: be_step_def)
qed simp

lemma be_roundtrip: "LENGTH('a) = 8 * n \<Longrightarrow> be_word (be_bytes n w) = w" for w :: "'a::len word"
  by (simp add: be_word_def be_fold take_bit_word_eq_self)

lemma be_bytes_inj:
  "LENGTH('a) = 8 * n \<Longrightarrow> be_bytes n w = be_bytes n v \<longleftrightarrow> w = v" for w v :: "'a::len word"
  by (metis be_roundtrip)

lemma be2_inj [simp]: "be_bytes 2 w = be_bytes 2 v \<longleftrightarrow> w = v" for w v :: u16
  by (rule be_bytes_inj) simp

lemma be4_inj [simp]: "be_bytes 4 w = be_bytes 4 v \<longleftrightarrow> w = v" for w v :: u32
  by (rule be_bytes_inj) simp

lemma be8_inj [simp]: "be_bytes 8 w = be_bytes 8 v \<longleftrightarrow> w = v" for w v :: u64
  by (rule be_bytes_inj) simp

text \<open>A length-prefixed field can be read off the front of a buffer.\<close>

definition prefixed :: "bytes \<Rightarrow> bytes" where
  "prefixed b = be_bytes 4 (of_nat (length b) :: u32) @ b"

lemma u32_length_inj:
  "m < 2 ^ 32 \<Longrightarrow> n < 2 ^ 32 \<Longrightarrow> (of_nat m :: u32) = of_nat n \<longleftrightarrow> m = n"
  by (simp add: of_nat_inverse word_unat_eq_iff unat_of_nat)

lemma prefixed_inj:
  assumes "prefixed a @ x = prefixed b @ y" and "length a < 2 ^ 32" and "length b < 2 ^ 32"
  shows "a = b \<and> x = y"
proof -
  have "be_bytes 4 (of_nat (length a) :: u32) = be_bytes 4 (of_nat (length b) :: u32) \<and> a @ x = b @ y"
    using assms(1) by (simp add: prefixed_def)
  moreover from this assms(2,3) have "length a = length b" using u32_length_inj by simp
  ultimately show ?thesis by simp
qed

end
