(* ===== verification/Delegation.thy ===== *)
theory Delegation
  imports Lattice Bytes
begin

text \<open>
  Delegation chains, \<^verbatim>\<open>internal/delegation\<close>: capability sets, the canonical encoding that tokens are
  signed and chained over, chain validation with its capability ceiling, and the engine's registry of
  active chains.  SHA-256, Ed25519 verification and the JSON decoding of a token are the fields of
  the parameter record \<^verbatim>\<open>Crypto\<close>.
\<close>

section \<open>Capabilities and tokens\<close>

record CapabilitySet =
  Operations :: u16
  CapEffects :: u16
  Resources :: u16
  MaxRisk :: u8

definition ReadOnlyCeiling :: CapabilitySet where
  "ReadOnlyCeiling = \<lparr>Operations = push_bit 0 1, CapEffects = 0, Resources = 0xFFFF, MaxRisk = 0\<rparr>"

definition Intersect :: "CapabilitySet \<Rightarrow> CapabilitySet \<Rightarrow> CapabilitySet" where
  "Intersect cs other = \<lparr>Operations = Operations cs AND Operations other,
     CapEffects = CapEffects cs AND CapEffects other, Resources = Resources cs AND Resources other,
     MaxRisk = min (MaxRisk cs) (MaxRisk other)\<rparr>"

text \<open>\<^verbatim>\<open>x &^ y\<close> is \<open>x AND NOT y\<close>.\<close>

definition IsSubsetOf :: "CapabilitySet \<Rightarrow> CapabilitySet \<Rightarrow> bool" where
  "IsSubsetOf cs other \<longleftrightarrow>
     Operations cs AND NOT (Operations other) = 0 \<and>
     CapEffects cs AND NOT (CapEffects other) = 0 \<and>
     Resources cs AND NOT (Resources other) = 0 \<and>
     MaxRisk cs \<le> MaxRisk other"

record DelegationToken =
  TokIssuer :: string
  TokAudience :: string
  Capabilities :: CapabilitySet
  MaxDepth :: int
  TokExpiresAt :: gotime
  ParentHash :: bytes
  Signature :: bytes

text \<open>\<^verbatim>\<open>UnixNano\<close> of the expiry as the 64 bits written to the buffer.\<close>

definition unixNano :: "gotime \<Rightarrow> int" where
  "unixNano t = t - 62135596800 * second"

definition canonicalBytes :: "DelegationToken \<Rightarrow> bytes" where
  "canonicalBytes t =
     prefixed (bytes_of (TokIssuer t)) @ prefixed (bytes_of (TokAudience t)) @
     be_bytes 2 (Operations (Capabilities t)) @ be_bytes 2 (CapEffects (Capabilities t)) @
     be_bytes 2 (Resources (Capabilities t)) @ [MaxRisk (Capabilities t)] @
     be_bytes 8 (of_int (unixNano (TokExpiresAt t)) :: u64) @ be_bytes 4 (of_int (MaxDepth t) :: u32) @
     ParentHash t"

record 'key Crypto =
  sha256 :: "bytes \<Rightarrow> bytes"
  ed25519Verify :: "'key \<Rightarrow> bytes \<Rightarrow> bytes \<Rightarrow> bool"
  decodeToken :: "string \<Rightarrow> DelegationToken option"

definition TokHash :: "'key Crypto \<Rightarrow> DelegationToken \<Rightarrow> bytes" where
  "TokHash cr t = sha256 cr (canonicalBytes t)"

definition verifySignature :: "'key Crypto \<Rightarrow> 'key \<Rightarrow> bytes \<Rightarrow> bytes \<Rightarrow> bool" where
  "verifySignature cr pub msg sig = (if length sig \<noteq> 64 then False else ed25519Verify cr pub msg sig)"

section \<open>Chains\<close>

datatype DelegationError =
    ErrExpired nat
  | ErrParentHash nat
  | ErrExpansion nat
  | ErrDepth nat
  | ErrGate nat
  | ErrDecode nat
  | ErrSignature nat
  | PanicEmptyChain

record Chain =
  chTokens :: "DelegationToken list"
  chCeiling :: CapabilitySet
  chDepth :: nat

record EffectiveCeiling =
  CeilCapabilities :: "string list"
  CeilMaxDepth :: nat
  CeilExpiresAt :: gotime

definition Permits :: "Chain \<Rightarrow> u16 \<Rightarrow> u16 \<Rightarrow> u16 \<Rightarrow> u8 \<Rightarrow> bool" where
  "Permits c ops effects res maxRisk \<longleftrightarrow>
     Operations (chCeiling c) AND ops = ops \<and> CapEffects (chCeiling c) AND effects = effects \<and>
     Resources (chCeiling c) AND res = res \<and> MaxRisk (chCeiling c) \<ge> maxRisk"

definition Ceiling :: "Chain \<Rightarrow> EffectiveCeiling" where
  "Ceiling c =
     \<lparr>CeilCapabilities = [], CeilMaxDepth = chDepth c,
      CeilExpiresAt = foldl (\<lambda>e t. if TokExpiresAt t < e then TokExpiresAt t else e)
         (TokExpiresAt (hd (chTokens c))) (tl (chTokens c))\<rparr>"

text \<open>The loops of \<^verbatim>\<open>buildChain\<close>, each with the index it reports.\<close>

fun check_ttl :: "gotime \<Rightarrow> nat \<Rightarrow> DelegationToken list \<Rightarrow> DelegationError option" where
  "check_ttl now i [] = None"
| "check_ttl now i (t # ts) = (if now > TokExpiresAt t then Some (ErrExpired i) else check_ttl now (Suc i) ts)"

fun check_links :: "'key Crypto \<Rightarrow> nat \<Rightarrow> DelegationToken list \<Rightarrow> DelegationError option" where
  "check_links cr i (p # t # ts) =
    (if TokHash cr p \<noteq> ParentHash t then Some (ErrParentHash i) else check_links cr (Suc i) (t # ts))"
| "check_links cr i _ = None"

fun narrow :: "nat \<Rightarrow> CapabilitySet \<Rightarrow> DelegationToken list \<Rightarrow> DelegationError + CapabilitySet" where
  "narrow i ceil [] = Inr ceil"
| "narrow i ceil (t # ts) =
    (if \<not> IsSubsetOf (Capabilities t) ceil then Inl (ErrExpansion i)
     else narrow (Suc i) (Intersect ceil (Capabilities t)) ts)"

definition buildChain :: "'key Crypto \<Rightarrow> DelegationToken list \<Rightarrow> gotime \<Rightarrow> DelegationError + Chain" where
  "buildChain cr tokens now =
    (case check_ttl now 0 tokens of Some e \<Rightarrow> Inl e
     | None \<Rightarrow> (case check_links cr 1 tokens of Some e \<Rightarrow> Inl e
        | None \<Rightarrow> (if tokens = [] then Inl PanicEmptyChain
            else case narrow 1 (Capabilities (hd tokens)) (tl tokens) of
              Inl e \<Rightarrow> Inl e
            | Inr ceil \<Rightarrow> Inr \<lparr>chTokens = tokens,
                              chCeiling = (if length tokens > 2 then ReadOnlyCeiling else ceil),
                              chDepth = length tokens\<rparr>)))"

section \<open>The engine\<close>

definition maxChainDepth :: nat where "maxChainDepth = 8"

text \<open>The active chains are a Go map, kept as a list of distinct ids.  The emitted events are returned.\<close>

record 'key DelegationEngine =
  trustedKeys :: "'key list"
  activeChains :: "(string \<times> Chain) list"

datatype NewError = NoKeys | TooManyKeys nat

definition NewEngine :: "'key list \<Rightarrow> NewError + 'key DelegationEngine" where
  "NewEngine keys =
    (if keys = [] then Inl NoKeys
     else if length keys > 3 then Inl (TooManyKeys (length keys))
     else Inr \<lparr>trustedKeys = keys, activeChains = []\<rparr>)"

definition verifyWithAnyKey :: "'key Crypto \<Rightarrow> 'key DelegationEngine \<Rightarrow> bytes \<Rightarrow> bytes \<Rightarrow> bool" where
  "verifyWithAnyKey cr e msg sig = list_ex (\<lambda>key. verifySignature cr key msg sig) (trustedKeys e)"

definition decodeAndVerify ::
    "'key Crypto \<Rightarrow> 'key DelegationEngine \<Rightarrow> DelegationRef \<Rightarrow> nat \<Rightarrow> DelegationError + DelegationToken" where
  "decodeAndVerify cr e ref idx = (case decodeToken cr (RefTokenID ref) of
     None \<Rightarrow> Inl (ErrDecode idx)
   | Some tok \<Rightarrow> if \<not> verifyWithAnyKey cr e (canonicalBytes tok) (Signature tok)
                 then Inl (ErrSignature idx) else Inr tok)"

fun decode_all ::
    "bool \<Rightarrow> 'key Crypto \<Rightarrow> 'key DelegationEngine \<Rightarrow> nat \<Rightarrow> DelegationRef list \<Rightarrow>
     DelegationError + DelegationToken list" where
  "decode_all gate cr e i [] = Inr []"
| "decode_all gate cr e i (ref # refs) =
    (if gate \<and> RefDeclassificationGate ref \<noteq> [] \<and> RefAuditRef ref = [] then Inl (ErrGate i)
     else case decodeAndVerify cr e ref i of Inl err \<Rightarrow> Inl err
       | Inr tok \<Rightarrow> (case decode_all gate cr e (Suc i) refs of Inl err \<Rightarrow> Inl err | Inr toks \<Rightarrow> Inr (tok # toks)))"

definition Validate ::
    "'key Crypto \<Rightarrow> 'key DelegationEngine \<Rightarrow> DelegationRef list \<Rightarrow> gotime \<Rightarrow> DelegationError option" where
  "Validate cr e chain now =
    (if chain = [] then None
     else if length chain > maxChainDepth then Some (ErrDepth (length chain))
     else case decode_all True cr e 0 chain of Inl err \<Rightarrow> Some err
       | Inr tokens \<Rightarrow> (case buildChain cr tokens now of Inl err \<Rightarrow> Some err | Inr _ \<Rightarrow> None))"

text \<open>\<^verbatim>\<open>ValidateChain\<close> returns the chain (nil for no references) and has no gate check.\<close>

definition ValidateChain ::
    "'key Crypto \<Rightarrow> 'key DelegationEngine \<Rightarrow> DelegationRef list \<Rightarrow> gotime \<Rightarrow> DelegationError + Chain option" where
  "ValidateChain cr e chain now =
    (if chain = [] then Inr None
     else if length chain > maxChainDepth then Inl (ErrDepth (length chain))
     else case decode_all False cr e 0 chain of Inl err \<Rightarrow> Inl err
       | Inr tokens \<Rightarrow> (case buildChain cr tokens now of Inl err \<Rightarrow> Inl err | Inr c \<Rightarrow> Inr (Some c)))"

definition Register :: "string \<Rightarrow> Chain \<Rightarrow> 'key DelegationEngine \<Rightarrow> 'key DelegationEngine" where
  "Register chainID chain e =
     e\<lparr>activeChains := (chainID, chain) # filter (\<lambda>p. fst p \<noteq> chainID) (activeChains e)\<rparr>"

definition Revoke :: "string \<Rightarrow> 'key DelegationEngine \<Rightarrow> 'key DelegationEngine \<times> (string \<times> string \<times> string) list" where
  "Revoke chainID e =
     (e\<lparr>activeChains := filter (\<lambda>p. fst p \<noteq> chainID) (activeChains e)\<rparr>,
      [(''delegation.revoked'', chainID, ''explicit_revocation'')])"

definition ApplyCeiling :: "gotime \<Rightarrow> CheckRequest \<Rightarrow> EffectiveCeiling \<Rightarrow> bool" where
  "ApplyCeiling now req ceil =
    (if now > CeilExpiresAt ceil then False
     else if CeilCapabilities ceil = [] then True
     else list_ex (\<lambda>c. c = Tool req) (CeilCapabilities ceil))"

definition isChainExpired :: "Chain \<Rightarrow> gotime \<Rightarrow> bool" where
  "isChainExpired chain now = list_ex (\<lambda>tok. now > TokExpiresAt tok) (chTokens chain)"

definition removeExpired ::
    "gotime \<Rightarrow> 'key DelegationEngine \<Rightarrow> 'key DelegationEngine \<times> (string \<times> string \<times> string) list" where
  "removeExpired now e =
     (e\<lparr>activeChains := filter (\<lambda>p. \<not> isChainExpired (snd p) now) (activeChains e)\<rparr>,
      map (\<lambda>p. (''delegation.expired'', fst p, ''ttl_elapsed''))
        (filter (\<lambda>p. isChainExpired (snd p) now) (activeChains e)))"

definition ListActive :: "'key DelegationEngine \<Rightarrow> (string \<times> gotime) list" where
  "ListActive e = map (\<lambda>p. (fst p, CeilExpiresAt (Ceiling (snd p)))) (activeChains e)"

section \<open>Capabilities only narrow\<close>

lemma and_not_zero_iff: "a AND NOT b = 0 \<longleftrightarrow> b AND a = a" for a b :: "'a::len word"
  by (auto simp: bit_eq_iff bit_and_iff bit_not_iff)

lemma and_and_not [simp]: "(a AND b) AND NOT a = 0" "(a AND b) AND NOT b = 0" for a b :: "'a::len word"
  by (auto simp: bit_eq_iff bit_and_iff bit_not_iff)

lemma cap_eqI:
  "Operations a = Operations b \<Longrightarrow> CapEffects a = CapEffects b \<Longrightarrow> Resources a = Resources b \<Longrightarrow>
   MaxRisk a = MaxRisk b \<Longrightarrow> a = b" for a b :: CapabilitySet
  by (rule CapabilitySet.equality) simp_all

definition fullCapabilities :: CapabilitySet where
  "fullCapabilities = \<lparr>Operations = - 1, CapEffects = - 1, Resources = - 1, MaxRisk = - 1\<rparr>"

lemmas subset_iff = IsSubsetOf_def and_not_zero_iff

text \<open>Seen from below, capability sets are a high-water mark too: every further delegation moves
  down, and the intersection is the greatest set below both.\<close>

interpretation caps: high_water_mark IsSubsetOf Intersect fullCapabilities
proof
  show "IsSubsetOf a a" for a by (simp add: subset_iff)
  show "IsSubsetOf a c" if "IsSubsetOf a b" "IsSubsetOf b c" for a b c
    using that by (auto simp: subset_iff elim: superset_trans)
  show "a = b" if "IsSubsetOf a b" "IsSubsetOf b a" for a b
    using that superset_antisym [of "Operations a" "Operations b"]
      superset_antisym [of "CapEffects a" "CapEffects b"] superset_antisym [of "Resources a" "Resources b"]
    by (intro cap_eqI) (auto simp: subset_iff)
  show "IsSubsetOf (Intersect a b) a" for a b by (simp add: IsSubsetOf_def Intersect_def)
  show "IsSubsetOf (Intersect a b) b" for a b by (simp add: IsSubsetOf_def Intersect_def)
  show "IsSubsetOf c (Intersect a b)" if "IsSubsetOf c a" "IsSubsetOf c b" for a b c
    using that unfolding subset_iff Intersect_def by (simp add: superset_and_iff)
  show "IsSubsetOf a fullCapabilities" for a
    by (simp add: subset_iff fullCapabilities_def word_order.extremum)
qed

lemma narrow_Inr:
  assumes "narrow i ceil ts = Inr c"
  shows "c = (if ts = [] then ceil else Capabilities (last ts)) \<and>
    IsSubsetOf c ceil \<and> (\<forall>t \<in> set ts. IsSubsetOf c (Capabilities t) \<and> IsSubsetOf (Capabilities t) ceil)"
  using assms
proof (induction i ceil ts rule: narrow.induct)
  case (1 i ceil)
  then show ?case by (simp add: caps.dom_refl)
next
  case (2 i ceil t ts)
  then have sub: "IsSubsetOf (Capabilities t) ceil" and rest: "narrow (Suc i) (Capabilities t) ts = Inr c"
    using caps.elev_absorb [of "Capabilities t" ceil] caps.elev_commute [of ceil "Capabilities t"]
    by (auto split: if_splits)
  have "Intersect ceil (Capabilities t) = Capabilities t"
    using sub caps.elev_absorb caps.elev_commute by metis
  with 2 rest sub show ?case by (auto intro: caps.dom_trans split: if_splits)
qed

section \<open>The canonical encoding\<close>

definition small_strings :: "DelegationToken \<Rightarrow> bool" where
  "small_strings t \<longleftrightarrow> length (TokIssuer t) < 2 ^ 32 \<and> length (TokAudience t) < 2 ^ 32"

definition canonical_tail :: "DelegationToken \<Rightarrow> bytes" where
  "canonical_tail t = be_bytes 2 (Operations (Capabilities t)) @ be_bytes 2 (CapEffects (Capabilities t)) @
     be_bytes 2 (Resources (Capabilities t)) @ [MaxRisk (Capabilities t)] @
     be_bytes 8 (of_int (unixNano (TokExpiresAt t)) :: u64) @ be_bytes 4 (of_int (MaxDepth t) :: u32) @
     ParentHash t"

lemma canonical_split:
  "canonicalBytes t = prefixed (bytes_of (TokIssuer t)) @ prefixed (bytes_of (TokAudience t)) @ canonical_tail t"
  by (simp add: canonicalBytes_def canonical_tail_def)

lemma canonical_inj:
  assumes "canonicalBytes t = canonicalBytes u" and "small_strings t" and "small_strings u"
  shows "TokIssuer t = TokIssuer u \<and> TokAudience t = TokAudience u \<and> Capabilities t = Capabilities u \<and>
    (of_int (unixNano (TokExpiresAt t)) :: u64) = of_int (unixNano (TokExpiresAt u)) \<and>
    (of_int (MaxDepth t) :: u32) = of_int (MaxDepth u) \<and> ParentHash t = ParentHash u"
proof -
  have "bytes_of (TokIssuer t) = bytes_of (TokIssuer u) \<and>
      prefixed (bytes_of (TokAudience t)) @ canonical_tail t = prefixed (bytes_of (TokAudience u)) @ canonical_tail u"
    by (rule prefixed_inj) (use assms in \<open>simp_all add: canonical_split small_strings_def\<close>)
  then have "TokIssuer t = TokIssuer u"
      and "prefixed (bytes_of (TokAudience t)) @ canonical_tail t = prefixed (bytes_of (TokAudience u)) @ canonical_tail u"
    by simp_all
  moreover from this(2) have "bytes_of (TokAudience t) = bytes_of (TokAudience u) \<and> canonical_tail t = canonical_tail u"
    by (rule prefixed_inj) (use assms in \<open>simp_all add: small_strings_def\<close>)
  ultimately show ?thesis by (auto simp: canonical_tail_def intro: cap_eqI)
qed

section \<open>Validated chains\<close>

fun linked :: "'key Crypto \<Rightarrow> DelegationToken list \<Rightarrow> bool" where
  "linked cr (p # t # ts) \<longleftrightarrow> ParentHash t = TokHash cr p \<and> linked cr (t # ts)"
| "linked cr _ \<longleftrightarrow> True"

lemma check_ttl_None: "check_ttl now i ts = None \<longleftrightarrow> (\<forall>t \<in> set ts. now \<le> TokExpiresAt t)"
  by (induction now i ts rule: check_ttl.induct) auto

lemma check_links_None: "check_links cr i ts = None \<longleftrightarrow> linked cr ts"
  by (induction cr i ts rule: check_links.induct) auto

lemma decode_all_Inr:
  "decode_all gate cr e i refs = Inr toks \<Longrightarrow>
   length toks = length refs \<and>
   list_all2 (\<lambda>ref tok. decodeToken cr (RefTokenID ref) = Some tok \<and>
      (\<exists>key \<in> set (trustedKeys e). verifySignature cr key (canonicalBytes tok) (Signature tok)) \<and>
      (gate \<longrightarrow> RefDeclassificationGate ref = [] \<or> RefAuditRef ref \<noteq> [])) refs toks"
  by (induction gate cr e i refs arbitrary: toks rule: decode_all.induct)
     (auto simp: decodeAndVerify_def verifyWithAnyKey_def list_ex_iff split: if_splits option.splits sum.splits)

lemma buildChain_Inr:
  assumes "buildChain cr tokens now = Inr c"
  shows "tokens \<noteq> [] \<and> (\<forall>t \<in> set tokens. now \<le> TokExpiresAt t) \<and> linked cr tokens \<and>
    chTokens c = tokens \<and> chDepth c = length tokens \<and>
    (\<forall>t \<in> set tokens. IsSubsetOf (Capabilities (last tokens)) (Capabilities t) \<and>
       IsSubsetOf (Capabilities t) (Capabilities (hd tokens))) \<and>
    chCeiling c = (if length tokens > 2 then ReadOnlyCeiling else Capabilities (last tokens))"
proof -
  have ne: "tokens \<noteq> []" and ttl: "\<forall>t \<in> set tokens. now \<le> TokExpiresAt t" and link: "linked cr tokens"
    using assms by (auto simp: buildChain_def check_ttl_None check_links_None split: option.splits if_splits)
  obtain ceil where n: "narrow 1 (Capabilities (hd tokens)) (tl tokens) = Inr ceil"
      and c: "c = \<lparr>chTokens = tokens, chCeiling = (if length tokens > 2 then ReadOnlyCeiling else ceil),
                   chDepth = length tokens\<rparr>"
    using assms by (auto simp: buildChain_def split: option.splits if_splits sum.splits)
  obtain h ts where tok: "tokens = h # ts" using ne by (cases tokens) auto
  from narrow_Inr [OF n] tok have "ceil = Capabilities (last tokens)" by auto
  with narrow_Inr [OF n] tok ne ttl link c show ?thesis by (auto simp: caps.dom_refl)
qed

lemma Validate_ok_chain:
  assumes "Validate cr e chain now = None" "chain \<noteq> []"
  obtains tokens c where "decode_all True cr e 0 chain = Inr tokens" "buildChain cr tokens now = Inr c"
    "length chain \<le> maxChainDepth"
  using assms by (auto simp: Validate_def split: if_splits sum.splits)

text \<open>Two linked chains that end in tokens with the same signed fields are the same chain, token by
  token, as far as the signed fields go.\<close>

lemma linked_unique:
  assumes inj: "inj_on (sha256 cr) (canonicalBytes ` A)"
    and "linked cr (rev xs)" "linked cr (rev ys)" "length xs = length ys"
    and "xs \<noteq> [] \<Longrightarrow> canonicalBytes (hd xs) = canonicalBytes (hd ys)"
    and "\<forall>t \<in> set xs \<union> set ys. small_strings t" "set xs \<union> set ys \<subseteq> A"
  shows "map canonicalBytes xs = map canonicalBytes ys"
  using assms(2-)
proof (induction xs arbitrary: ys)
  case (Cons x xs)
  then obtain y ys' where ys: "ys = y # ys'" by (cases ys) auto
  have last_link: "linked cr (us @ [p, t]) \<longleftrightarrow> linked cr (us @ [p]) \<and> ParentHash t = TokHash cr p" for us p t
    by (induction us rule: induct_list012) auto
  have xy: "canonicalBytes x = canonicalBytes y" using Cons.prems(4) ys by simp
  show ?case
  proof (cases xs)
    case Nil
    with Cons.prems(3) ys xy show ?thesis by simp
  next
    case (Cons x' xs')
    with Cons.prems(3) ys obtain y' ys'' where ys': "ys' = y' # ys''" by (cases ys') auto
    have "ParentHash x = TokHash cr x'" "ParentHash y = TokHash cr y'"
        and l: "linked cr (rev xs)" "linked cr (rev ys')"
      using Cons.prems(1,2) Cons ys ys' last_link by auto
    moreover have "ParentHash x = ParentHash y"
      using canonical_inj [OF xy] Cons.prems(5) ys by auto
    moreover have "x' \<in> A" "y' \<in> A" using Cons.prems(6) Cons ys ys' by auto
    ultimately have "canonicalBytes x' = canonicalBytes y'"
      using inj by (auto simp: TokHash_def dest: inj_onD)
    then show ?thesis
      using Cons.IH [of ys'] Cons.prems(3,5,6) l xy ys ys' Cons by auto
  qed
qed simp

section \<open>Properties\<close>

text \<open>Claim C7. An accepted delegation chain is authentic: every reference decodes to a token with a
  64-byte signature by a trusted key over its canonical bytes, no token has expired, each token names
  the hash of its parent, no link grants a capability its predecessors lack, no link declassifies without
  an audit reference, and there are at most eight links.\<close>

theorem Validate_accepts_authentic_chains:
  assumes "Validate cr e chain now = None" and "chain \<noteq> []"
  shows "\<exists>tokens. length tokens = length chain \<and> length chain \<le> 8 \<and>
    list_all2 (\<lambda>ref tok. decodeToken cr (RefTokenID ref) = Some tok \<and> length (Signature tok) = 64 \<and>
      (\<exists>key \<in> set (trustedKeys e). ed25519Verify cr key (canonicalBytes tok) (Signature tok)) \<and>
      (RefDeclassificationGate ref = [] \<or> RefAuditRef ref \<noteq> [])) chain tokens \<and>
    (\<forall>t \<in> set tokens. now \<le> TokExpiresAt t) \<and>
    (\<forall>i. Suc i < length tokens \<longrightarrow> ParentHash (tokens ! Suc i) = sha256 cr (canonicalBytes (tokens ! i)) \<and>
       IsSubsetOf (Capabilities (tokens ! Suc i)) (Capabilities (tokens ! 0)))"
proof -
  obtain tokens c where t: "decode_all True cr e 0 chain = Inr tokens" "buildChain cr tokens now = Inr c"
      "length chain \<le> maxChainDepth"
    by (rule Validate_ok_chain [OF assms])
  have link_nth: "Suc i < length ts \<Longrightarrow> linked cr ts \<Longrightarrow> ParentHash (ts ! Suc i) = TokHash cr (ts ! i)" for i ts
    by (induction cr ts arbitrary: i rule: linked.induct) (auto simp: nth_Cons split: nat.splits)
  have sig: "verifySignature cr k m s \<longleftrightarrow> length s = 64 \<and> ed25519Verify cr k m s" for k m s
    by (simp add: verifySignature_def)
  show ?thesis
    using decode_all_Inr [OF t(1)] buildChain_Inr [OF t(2)] t(3) link_nth [of _ tokens]
    by (intro exI [of _ tokens]) (auto simp: maxChainDepth_def TokHash_def sig hd_conv_nth elim!: list_all2_mono)
qed

definition demo_token :: DelegationToken where
  "demo_token = \<lparr>TokIssuer = ''root'', TokAudience = ''agent'', Capabilities = ReadOnlyCeiling, MaxDepth = 1,
     TokExpiresAt = 100, ParentHash = [], Signature = replicate 64 0\<rparr>"

definition demo_crypto :: "nat Crypto" where
  "demo_crypto = \<lparr>sha256 = (\<lambda>x. x), ed25519Verify = (\<lambda>k m s. k = 7), decodeToken = (\<lambda>_. Some demo_token)\<rparr>"

definition demo_engine :: "nat DelegationEngine" where
  "demo_engine = \<lparr>trustedKeys = [7], activeChains = []\<rparr>"

definition demo_ref :: DelegationRef where
  "demo_ref = \<lparr>RefTokenID = ''t'', RefIssuer = ''root'', RefDeclassificationGate = [], RefAuditRef = []\<rparr>"

theorem Validate_accepts_authentic_chains_witness:
  "\<exists>tokens :: DelegationToken list. length tokens = 1 \<and> (\<forall>t \<in> set tokens. 50 \<le> TokExpiresAt t)"
proof -
  have "Validate demo_crypto demo_engine [demo_ref] 50 = None"
    by (simp add: Validate_def demo_crypto_def demo_engine_def demo_ref_def demo_token_def maxChainDepth_def
        decodeAndVerify_def verifyWithAnyKey_def verifySignature_def buildChain_def)
  from Validate_accepts_authentic_chains [OF this] show ?thesis by auto
qed

text \<open>Capabilities never widen along a chain of at most two links: the ceiling is the
  capability set of the last token, and it is contained in that of every token of the chain.\<close>

theorem short_chain_ceiling_narrows:
  assumes "buildChain cr tokens now = Inr c" and "length tokens \<le> 2" and "t \<in> set tokens"
  shows "chCeiling c = Capabilities (last tokens) \<and> IsSubsetOf (chCeiling c) (Capabilities t)"
  using buildChain_Inr [OF assms(1)] assms(2,3) by auto

theorem short_chain_ceiling_narrows_witness:
  "\<exists>c. buildChain demo_crypto [demo_token] 50 = Inr c \<and> IsSubsetOf (chCeiling c) (Capabilities demo_token)"
proof -
  obtain c where c: "buildChain demo_crypto [demo_token] 50 = Inr c"
    by (simp add: buildChain_def demo_token_def)
  from short_chain_ceiling_narrows [OF c, of demo_token] c show ?thesis by auto
qed

definition empty_caps :: CapabilitySet where
  "empty_caps = \<lparr>Operations = 0, CapEffects = 0, Resources = 0, MaxRisk = 0\<rparr>"

definition bare_token :: "bytes \<Rightarrow> DelegationToken" where
  "bare_token h = demo_token\<lparr>Capabilities := empty_caps, ParentHash := h\<rparr>"

text \<open>Beyond two links the ceiling is replaced, not intersected, by the read-only ceiling: a
  chain of three tokens none of which holds any capability is accepted and permits reading every
  resource.\<close>

theorem deep_chain_widens_capabilities:
  "\<exists>c. buildChain demo_crypto [bare_token [], bare_token (canonicalBytes (bare_token [])),
         bare_token (canonicalBytes (bare_token (canonicalBytes (bare_token []))))] 50 = Inr c \<and>
       Permits c 1 0 0xFFFF 0 \<and> map Capabilities (chTokens c) = replicate 3 empty_caps"
proof -
  have "sha256 demo_crypto = (\<lambda>x. x)" by (simp add: demo_crypto_def)
  moreover have "ParentHash (bare_token h) = h" "Capabilities (bare_token h) = empty_caps"
      "TokExpiresAt (bare_token h) = 100" for h
    by (simp_all add: bare_token_def demo_token_def)
  moreover have "IsSubsetOf empty_caps empty_caps" "Intersect empty_caps empty_caps = empty_caps"
    by (simp_all add: caps.dom_refl caps.elev_idem)
  ultimately show ?thesis
    by (simp add: buildChain_def TokHash_def Permits_def ReadOnlyCeiling_def numeral_3_eq_3)
qed



end
