(* ===== verification/Engine.thy ===== *)
theory Engine
  imports Sink Labeler SelfProtect Secret Delegation Cel
begin

text \<open>
  The policy engine, \<^verbatim>\<open>internal/policy/engine.go\<close>: the evaluation pipeline of a tool call, the spawn
  tokens that hand a parent's taint to its child, the snapshot built by a reload and the binding index.
  The mutable state is the record \<^verbatim>\<open>engineState\<close>; what is fixed at construction (the CEL library, the
  JSON parser, the file system, the self-protection guard, the labeler, scanner and validator interfaces)
  is the record \<^verbatim>\<open>EngineEnv\<close>.  The clock readings of one evaluation and its random token are the
  record \<^verbatim>\<open>EvalInput\<close>.  The stages of \<^verbatim>\<open>evaluateWithSnapshot\<close> are separate definitions in the order of
  the code; a stage answers \<^const>\<open>Some\<close> response to end the evaluation.
\<close>

section \<open>State\<close>

record scopeKey =
  skTool :: string
  skSession :: string

record compiledBinding =
  cbBinding :: PolicyBinding
  cbScope :: scopeKey

record bindingIndex =
  byTool :: "(string \<rightharpoonup> compiledBinding list) option"
  biAll :: "compiledBinding list"

record 'prog engineSnapshot =
  snapVersion :: u64
  snapBindings :: "compiledBinding list"
  snapPrograms :: "'prog ProgramCache"
  snapClassifier :: "VerdictMap option"
  classifierIntf :: "((string \<Rightarrow> VerdictEntry) \<times> (string \<Rightarrow> string \<Rightarrow> VerdictEntry)) option"
  bindingIdx :: bindingIndex
  compiledAt :: int
  sourceHash :: bytes
  templateParams :: "string \<rightharpoonup> json_map"
  snapTemplates :: "PolicyTemplate list"

record pendingSpawn =
  parentSessionID :: string
  spawnCreated :: int

definition spawnTokenTTL :: duration where
  "spawnTokenTTL = 30 * second"

record 'prog engineState =
  esSnapshot :: "'prog engineSnapshot option"
  esSessions :: "SessionLabels option"
  esHistory :: "TaintHistory option"
  esSpawns :: "string \<rightharpoonup> pendingSpawn"
  esLastSkipped :: "string list"

record SecretScanner =
  scShould :: "string list \<Rightarrow> BoundaryType \<Rightarrow> bool"
  scScan :: "string \<Rightarrow> BoundaryType \<Rightarrow> Finding list \<times> SecurityLabel"

record ('ast, 'prog) EngineEnv =
  envCel :: "('ast, 'prog) CelLib"
  envParse :: json_parser
  envSymlinks :: "string \<Rightarrow> string option"
  envGuard :: "SelfProtectGuard option"
  envLabeler :: "(CheckRequest \<Rightarrow> VerdictEntry \<Rightarrow> LabeledRequest) option"
  envScanner :: SecretScanner
  envValidator :: "DelegationRef list \<Rightarrow> gotime \<Rightarrow> bool"

text \<open>\<^verbatim>\<open>rndToken\<close> is the hex token drawn from the random source, \<^const>\<open>None\<close> when the source fails.\<close>

record EvalInput =
  tStart :: gotime
  tNow :: gotime
  tEnd :: gotime
  rndToken :: "string option"

definition noopSecretScanner :: SecretScanner where
  "noopSecretScanner = \<lparr>scShould = (\<lambda>_ _. False), scScan = (\<lambda>_ _. ([], zeroLabel))\<rparr>"

definition noopDelegationValidator :: "DelegationRef list \<Rightarrow> gotime \<Rightarrow> bool" where
  "noopDelegationValidator = (\<lambda>_ _. True)"

section \<open>Responses\<close>

definition denyResponse :: "EvalInput \<Rightarrow> string \<Rightarrow> EnforcingLayer \<Rightarrow> CheckResponse" where
  "denyResponse inp why layer = zeroResponse\<lparr>RespDecision := zeroDecision\<lparr>Verdict := ActionDeny, Reason := why\<rparr>,
     LatencyNs := tEnd inp - tStart inp, RespLayer := layer\<rparr>"

definition severityOf :: "string \<Rightarrow> string" where
  "severityOf risk =
    (if risk = RiskCritical then ''critical'' else if risk = RiskHigh then ''high''
     else if risk = RiskMedium then ''medium'' else if risk = RiskLow then ''low'' else [])"

definition denyResponseWithVerdict ::
    "EvalInput \<Rightarrow> string \<Rightarrow> EnforcingLayer \<Rightarrow> VerdictEntry \<Rightarrow> CheckResponse" where
  "denyResponseWithVerdict inp why layer verdict =
     (denyResponse inp why layer)\<lparr>ThreatSeverity := severityOf (RiskLevel verdict)\<rparr>"

text \<open>The UTF-8 bytes of the dash in the messages.\<close>

definition em_dash :: string where
  "em_dash = [CHR 0xE2, CHR 0x80, CHR 0x94]"

section \<open>Argument helpers\<close>

definition ascii_upper :: "char \<Rightarrow> char" where
  "ascii_upper c = (let n = (of_char c :: nat) in if 97 \<le> n \<and> n \<le> 122 then char_of (n - 32) else c)"

definition isExemptPath :: "string \<Rightarrow> bool" where
  "isExemptPath path \<longleftrightarrow>
     HasSuffix path ''_test.go'' \<or>
     Contains path ''/testdata/'' \<or> HasSuffix path ''/testdata'' \<or>
     Contains path ''/docs/'' \<or> HasSuffix path ''/docs'' \<or>
     HasSuffix path ''.example'' \<or> HasSuffix path ''.sample'' \<or> HasSuffix path ''.template'' \<or>
     HasSuffix path ''.tmpl'' \<or>
     Contains path ''/examples/'' \<or> HasSuffix path ''/examples'' \<or>
     HasPrefix (map ascii_upper (Base path)) ''README''"

definition extractFilePath :: "json_parser \<Rightarrow> string \<Rightarrow> string" where
  "extractFilePath parse args = (case unmarshal_field parse ''file_path'' args of Some p \<Rightarrow> p | None \<Rightarrow> [])"

definition extractCommandText :: "json_parser \<Rightarrow> string \<Rightarrow> string option" where
  "extractCommandText parse args =
    (if args = [] then None
     else case unmarshal_map parse args of
       Some (Some m) \<Rightarrow> string_at m ''command''
     | _ \<Rightarrow> None)"

definition hasAllEffects :: "string list \<Rightarrow> string list \<Rightarrow> bool" where
  "hasAllEffects actual required = list_all (\<lambda>r. r \<in> set actual) required"

definition extractResourcePath :: "string \<Rightarrow> json_map option \<Rightarrow> string" where
  "extractResourcePath tool margs = (case margs of None \<Rightarrow> []
   | Some args \<Rightarrow>
      (if tool \<in> {''Read'', ''Write'', ''Edit''} then (case string_at args ''file_path'' of Some p \<Rightarrow> p | None \<Rightarrow> [])
       else if tool = ''Bash'' then (case string_at args ''command'' of Some c \<Rightarrow> c | None \<Rightarrow> [])
       else []))"

definition url_byte :: "char \<Rightarrow> bool" where
  "url_byte c \<longleftrightarrow> \<not> is_re_space c \<and> c \<noteq> CHR 0x22 \<and> c \<noteq> CHR 0x27 \<and> c \<noteq> CHR ''<'' \<and> c \<noteq> CHR ''>''"

text \<open>A match of \<^verbatim>\<open>urlRegex\<close> at the start of the text, and all matches, leftmost first without overlap.\<close>

definition url_at :: "string \<Rightarrow> string option" where
  "url_at s =
    (let p = (if HasPrefix s ''http://'' then 7 else if HasPrefix s ''https://'' then 8 else 0);
         body = takeWhile url_byte (drop p s)
     in if p > 0 \<and> body \<noteq> [] then Some (take p s @ body) else None)"

fun find_urls :: "nat \<Rightarrow> string \<Rightarrow> string list" where
  "find_urls k [] = []"
| "find_urls (Suc k) (c # s) = find_urls k s"
| "find_urls 0 (c # s) = (case url_at (c # s) of
     Some u \<Rightarrow> u # find_urls (length u - 1) s
   | None \<Rightarrow> find_urls 0 s)"

definition extractAllURLsFromCommand :: "string \<Rightarrow> string list" where
  "extractAllURLsFromCommand cmd = find_urls 0 cmd"

definition opt_list :: "'a option \<Rightarrow> 'a list" where
  "opt_list x = (case x of Some a \<Rightarrow> [a] | None \<Rightarrow> [])"

definition extractResourcePaths :: "string \<Rightarrow> json_map option \<Rightarrow> string list" where
  "extractResourcePaths tool margs = (case margs of None \<Rightarrow> []
   | Some args \<Rightarrow>
      (if tool = ''WebFetch'' then opt_list (string_at args ''url'')
       else if tool = ''WebSearch'' then opt_list (string_at args ''query'')
       else if tool = ''Bash'' then
         (case string_at args ''command'' of Some cmd \<Rightarrow> extractAllURLsFromCommand cmd | None \<Rightarrow> [])
       else if tool \<in> {''Write'', ''Edit'', ''Read''} then opt_list (string_at args ''file_path'')
       else if tool = ''SendMessage'' then opt_list (string_at args ''to'')
       else []))"

definition engineNetworkTools :: "string list" where
  "engineNetworkTools = [''curl'', ''wget'', ''nc'', ''netcat'', ''ncat'', ''socat'', ''ssh'', ''scp'', ''sftp'', ''ftp'',
     ''rsync'', ''telnet'', ''openssl'', ''nmap'', ''aws'', ''gcloud'', ''az'', ''kubectl'', ''git'', ''dig'', ''nslookup'',
     ''host'', ''rclone'', ''s3cmd'']"

definition containsNetworkBinary :: "string \<Rightarrow> bool" where
  "containsNetworkBinary commandText = list_ex (\<lambda>t. Base t \<in> set engineNetworkTools) (Fields commandText)"

definition approvalStateString :: "u32 \<Rightarrow> string" where
  "approvalStateString st =
    (if st = ApprovalNone then ''none'' else if st = ApprovalPending then ''pending''
     else if st = ApprovalStandingRule then ''standing_rule''
     else if st = ApprovalSessionGranted then ''session_granted'' else ''unknown'')"

definition findRestrictedEffect :: "string list \<Rightarrow> bool \<Rightarrow> string" where
  "findRestrictedEffect effects containsNetCmd =
    (if containsNetCmd then EffectNetworkEgress
     else case List.find IsRestrictedEffect effects of Some e \<Rightarrow> e | None \<Rightarrow> ''restricted_sink'')"

section \<open>Bindings\<close>

definition matchesScope :: "scopeKey \<Rightarrow> string \<Rightarrow> string \<Rightarrow> bool" where
  "matchesScope scope tool session \<longleftrightarrow>
     \<not> (skTool scope \<noteq> [] \<and> skTool scope \<noteq> tool) \<and> \<not> (skSession scope \<noteq> [] \<and> skSession scope \<noteq> session)"

definition filterByScope :: "compiledBinding list \<Rightarrow> string \<Rightarrow> string \<Rightarrow> compiledBinding list" where
  "filterByScope bs tool session =
    (if bs = [] then bs
     else if skTool (cbScope (hd bs)) = [] \<and> skSession (cbScope (hd bs)) = [] then bs
     else filter (\<lambda>b. matchesScope (cbScope b) tool session) bs)"

definition matchBindings :: "bindingIndex \<Rightarrow> string \<Rightarrow> string \<Rightarrow> compiledBinding list" where
  "matchBindings idx tool session = (case byTool idx of
     None \<Rightarrow> filterByScope (biAll idx) tool session
   | Some m \<Rightarrow> (case m tool of
       None \<Rightarrow> filterByScope (biAll idx) tool session
     | Some ms \<Rightarrow> if ms = [] then filterByScope (biAll idx) tool session
                  else filterByScope ms tool session))"

fun index_tools :: "compiledBinding \<Rightarrow> string list \<Rightarrow> (string \<rightharpoonup> compiledBinding list) \<Rightarrow> (string \<rightharpoonup> compiledBinding list)" where
  "index_tools b [] m = m"
| "index_tools b (t # ts) m =
     index_tools b ts (m(t \<mapsto> (case m t of Some bs \<Rightarrow> bs | None \<Rightarrow> []) @ [b]))"

definition buildBindingIndex :: "compiledBinding list \<Rightarrow> bindingIndex" where
  "buildBindingIndex bs =
     \<lparr>byTool = Some (foldl (\<lambda>m b. index_tools b (Tools (Scope (cbBinding b))) m) Map.empty bs), biAll = bs\<rparr>"

definition compileBinding :: "PolicyBinding \<Rightarrow> compiledBinding" where
  "compileBinding b =
     \<lparr>cbBinding = b,
      cbScope = \<lparr>skTool = (case Tools (Scope b) of [t] \<Rightarrow> t | _ \<Rightarrow> []),
                 skSession = (case Sessions (Scope b) of [s] \<Rightarrow> s | _ \<Rightarrow> [])\<rparr>\<rparr>"

section \<open>Taint and spawn tokens\<close>

text \<open>The registry is a nilable pointer; operations on it happen only when it is there.\<close>

definition on_sessions :: "(SessionLabels \<Rightarrow> SessionLabels) \<Rightarrow> 'prog engineState \<Rightarrow> 'prog engineState" where
  "on_sessions f st = st\<lparr>esSessions := map_option f (esSessions st)\<rparr>"

definition maybeTaint :: "gotime \<Rightarrow> string \<Rightarrow> SecurityLabel \<Rightarrow> string \<Rightarrow> 'prog engineState \<Rightarrow> 'prog engineState" where
  "maybeTaint now sid resourceLabel resourcePath st =
    (if Option.is_none (esSessions st) then st
     else let cat = Category resourceLabel in
       if cat AND (CatCredentials OR CatSecurityKey OR CatCryptographic) \<noteq> 0 then
         (let st1 = on_sessions (\<lambda>s. fst (TaintWithSecret s sid)) st in
          if resourcePath \<noteq> [] then st1\<lparr>esHistory := map_option (\<lambda>h. RecordTaint now h sid resourcePath cat) (esHistory st1)\<rparr>
          else st1)
       else st)"

definition storeSpawnToken :: "string \<Rightarrow> pendingSpawn \<Rightarrow> 'prog engineState \<Rightarrow> 'prog engineState" where
  "storeSpawnToken token spawn st = st\<lparr>esSpawns := (esSpawns st)(token \<mapsto> spawn)\<rparr>"

text \<open>\<^const>\<open>None\<close> is the panic when the random source fails.\<close>

definition generateSpawnToken ::
    "EvalInput \<Rightarrow> string \<Rightarrow> 'prog engineState \<Rightarrow> ('prog engineState \<times> string) option" where
  "generateSpawnToken inp parent st = (case rndToken inp of None \<Rightarrow> None
   | Some token \<Rightarrow> Some (storeSpawnToken token \<lparr>parentSessionID = parent, spawnCreated = unixNano (tNow inp)\<rparr> st, token))"

definition propagateParentState :: "string \<Rightarrow> string \<Rightarrow> SessionLabels \<Rightarrow> SessionLabels" where
  "propagateParentState childID parentID s =
    (let s1 = (if IsTainted s parentID then fst (TaintWithSecret s childID) else s);
         parentLabel = Current s1 parentID
     in if parentLabel \<noteq> zeroLabel then InitWithCeiling s1 childID parentLabel else s1)"

definition validateAndPropagateTaint ::
    "gotime \<Rightarrow> string \<Rightarrow> string \<Rightarrow> 'prog engineState \<Rightarrow> 'prog engineState" where
  "validateAndPropagateTaint now childID token st = (case esSpawns st token of
     None \<Rightarrow> st
   | Some spawn \<Rightarrow>
      (let st1 = st\<lparr>esSpawns := (esSpawns st)(token := None)\<rparr> in
       if unixNano now - spawnCreated spawn > spawnTokenTTL then st1
       else on_sessions (propagateParentState childID (parentSessionID spawn)) st1))"

section \<open>The pipeline\<close>

text \<open>What the stages share: the results of classification, decoding and labelling.\<close>

record EvalContext =
  ecCommand :: string
  ecVerdict :: VerdictEntry
  ecArgs :: "json_map option"
  ecLabeled :: LabeledRequest
  ecResourceLabel :: SecurityLabel
  ecResourcePath :: string

text \<open>The lookups of the classifier return, by the table invariant of \<^verbatim>\<open>Classify\<close>.\<close>

definition classify_request :: "'prog engineSnapshot \<Rightarrow> string \<Rightarrow> string \<Rightarrow> VerdictEntry" where
  "classify_request snap tool commandText = (case snapClassifier snap of
     Some vm \<Rightarrow> if commandText \<noteq> []
        then (case ClassifyBash vm tool commandText of Some v \<Rightarrow> v | None \<Rightarrow> zeroVerdict)
        else (case Classify vm tool of Some (v, _) \<Rightarrow> v | None \<Rightarrow> zeroVerdict)
   | None \<Rightarrow> (case classifierIntf snap of
       Some (cls, clsBash) \<Rightarrow> if commandText \<noteq> [] then clsBash tool commandText else cls tool
     | None \<Rightarrow> zeroVerdict\<lparr>Classification := ''unknown'', RiskLevel := RiskHigh\<rparr>))"

definition commandTextOf :: "json_parser \<Rightarrow> CheckRequest \<Rightarrow> string" where
  "commandTextOf parse req =
    (if Tool req = ''Bash'' then (case extractCommandText parse (Args req) of Some c \<Rightarrow> c | None \<Rightarrow> []) else [])"

definition schemaErrorText :: "ArgSchemaError \<Rightarrow> string" where
  "schemaErrorText e = ''arg schema violation: field '' @ [CHR 0x22] @ ErrField e @ [CHR 0x22] @
     '' expected '' @ ErrExpected e @ '' got '' @ ErrGot e"

definition prepare_context :: "('ast, 'prog) EngineEnv \<Rightarrow> 'prog engineSnapshot \<Rightarrow> CheckRequest \<Rightarrow> EvalContext" where
  "prepare_context env snap req =
    (let parse = envParse env;
         command = commandTextOf parse req;
         verdict = classify_request snap (Tool req) command;
         args = decode_args parse (Args req);
         labeled0 = (case envLabeler env of Some l \<Rightarrow> l req verdict | None \<Rightarrow> zeroLabeled);
         labeled = labeled0\<lparr>LabUnknownTool := UnknownTool (CheckArgSchema (Tool req) args)\<rparr>;
         resourceLabel = (if ResourceLabel labeled = zeroLabel then RequestLabel req else ResourceLabel labeled);
         resourcePath = (if ResourcePaths labeled \<noteq> [] then hd (ResourcePaths labeled)
                         else extractResourcePath (Tool req) args)
     in \<lparr>ecCommand = command, ecVerdict = verdict, ecArgs = args, ecLabeled = labeled,
         ecResourceLabel = resourceLabel, ecResourcePath = resourcePath\<rparr>)"

type_synonym 'prog stage = "'prog engineState \<Rightarrow> 'prog engineState \<times> CheckResponse option"

text \<open>Spawn token and project root, before anything is decided.\<close>

definition session_stage :: "EvalInput \<Rightarrow> CheckRequest \<Rightarrow> 'prog stage" where
  "session_stage inp req st =
    (let st1 = (if SpawnToken req \<noteq> []
                then validateAndPropagateTaint (tNow inp) (SessionID req) (SpawnToken req) st else st);
         st2 = (if ProjectRoot req \<noteq> []
                then on_sessions (\<lambda>s. SetProjectRoot s (SessionID req) (ProjectRoot req)) st1 else st1)
     in (st2, None))"

definition risk_stage :: "EvalInput \<Rightarrow> EvalContext \<Rightarrow> 'prog stage" where
  "risk_stage inp ctx st =
    (st, if RiskLevel (ecVerdict ctx) = RiskCritical
         then Some (denyResponseWithVerdict inp ''tool classified as critical risk'' EnforcingLayerAdapter (ecVerdict ctx))
         else None)"

definition schema_stage :: "EvalInput \<Rightarrow> CheckRequest \<Rightarrow> EvalContext \<Rightarrow> 'prog stage" where
  "schema_stage inp req ctx st =
    (st, case SchemaErr (CheckArgSchema (Tool req) (ecArgs ctx)) of
       Some e \<Rightarrow> if \<not> Option.is_none (ecArgs ctx) then
           Some (zeroResponse\<lparr>RespDecision := zeroDecision\<lparr>Verdict := ActionDeny, Reason := schemaErrorText e,
              PolicyID := ''builtin:arg-schema''\<rparr>, LatencyNs := tEnd inp - tStart inp,
              RespLayer := EnforcingLayerArgSchema, ThreatSeverity := ''medium''\<rparr>)
         else None
     | None \<Rightarrow> None)"

definition taint_stage :: "EvalInput \<Rightarrow> CheckRequest \<Rightarrow> EvalContext \<Rightarrow> 'prog stage" where
  "taint_stage inp req ctx st =
    (maybeTaint (tNow inp) (SessionID req) (ecResourceLabel ctx) (ecResourcePath ctx) st, None)"

definition sessionLabelOf :: "'prog engineState \<Rightarrow> string \<Rightarrow> SecurityLabel" where
  "sessionLabelOf st sid = (case esSessions st of Some s \<Rightarrow> Current s sid | None \<Rightarrow> zeroLabel)"

definition sessionCeilingOf :: "'prog engineState \<Rightarrow> string \<Rightarrow> SecurityLabel" where
  "sessionCeilingOf st sid = (case esSessions st of Some s \<Rightarrow> CeilingOf s sid | None \<Rightarrow> zeroLabel)"

definition ifc_stage :: "EvalInput \<Rightarrow> CheckRequest \<Rightarrow> EvalContext \<Rightarrow> 'prog stage" where
  "ifc_stage inp req ctx st =
    (let sessionLabel = sessionLabelOf st (SessionID req) in
     (st, if \<not> Dominates sessionLabel (ecResourceLabel ctx) then
            Some (denyResponseWithVerdict inp
              ''IFC dominance check failed: session label does not dominate resource label''
              EnforcingLayerIFC (ecVerdict ctx))
          else if \<not> Dominates (sessionCeilingOf st (SessionID req)) sessionLabel then
            Some (denyResponseWithVerdict inp ''delegation ceiling exceeded'' EnforcingLayerDelegation (ecVerdict ctx))
          else None))"

definition sinkInputs :: "CheckRequest \<Rightarrow> EvalContext \<Rightarrow> string list \<times> bool" where
  "sinkInputs req ctx =
    (if ResourcePaths (ecLabeled ctx) \<noteq> [] then ResourcePaths (ecLabeled ctx)
     else extractResourcePaths (Tool req) (ecArgs ctx),
     ContainsNetworkCmd (ecLabeled ctx) \<or> (ecCommand ctx \<noteq> [] \<and> containsNetworkBinary (ecCommand ctx)))"

definition sink_stage :: "EvalInput \<Rightarrow> CheckRequest \<Rightarrow> EvalContext \<Rightarrow> 'prog stage" where
  "sink_stage inp req ctx st =
    (st, case esSessions st of None \<Rightarrow> None
     | Some s \<Rightarrow>
       (let snap = Snapshot s (SessionID req);
            (resources, net) = sinkInputs req ctx;
            act = sink_Decision (tNow inp) snap (Effects (ecVerdict ctx)) resources net;
            effectName = findRestrictedEffect (Effects (ecVerdict ctx)) net
        in if act \<noteq> ActionAllow then
             Some (zeroResponse\<lparr>RespDecision := \<lparr>Verdict = act,
                 Reason = ''tainted session requires approval for '' @ effectName,
                 PolicyID = ''sink:taint-enforcement'', Labels = SnapLabel snap\<rparr>,
               RespLayer := EnforcingLayerSink,
               Annotations := [(''sink.resources'', JoinStrings resources '',''), (''sink.effect'', effectName),
                 (''session.approval_state'', approvalStateString (SnapApproval snap))],
               LatencyNs := tEnd inp - tStart inp\<rparr>)
           else None))"

text \<open>\<^verbatim>\<open>val.Value().(bool)\<close> is false.\<close>

fun is_false :: "cel_val \<Rightarrow> bool" where
  "is_false (VBool b) = (\<not> b)"
| "is_false _ = False"

text \<open>One binding of the CEL loop: skip, or end with a response.\<close>

definition eval_binding ::
    "('ast, 'prog) EngineEnv \<Rightarrow> EvalInput \<Rightarrow> 'prog engineSnapshot \<Rightarrow> CheckRequest \<Rightarrow> EvalContext \<Rightarrow> SecurityLabel \<Rightarrow>
     string \<Rightarrow> compiledBinding \<Rightarrow> CheckResponse option" where
  "eval_binding env inp snap req ctx sessionLabel projectRoot cb =
    (let b = cbBinding cb in
     if ScopeEffects (Scope b) \<noteq> [] \<and> \<not> hasAllEffects (Effects (ecVerdict ctx)) (ScopeEffects (Scope b)) then None
     else case cache_Get (snapPrograms snap) (TemplateID b) of
       None \<Rightarrow> None
     | Some prog \<Rightarrow> (case cel_Evaluate (envCel env) prog req (ecVerdict ctx) (ecArgs ctx) (ecLabeled ctx)
                            (templateParams snap (TemplateID b)) projectRoot of
         Inl err \<Rightarrow> if DefaultAction b = ''DENY''
           then Some (denyResponse inp (''policy eval error '' @ em_dash @ '' fail-secure: '' @ TemplateID b) EnforcingLayerCEL)
           else None
       | Inr val \<Rightarrow> if is_false val then
             Some (zeroResponse\<lparr>RespDecision := \<lparr>
                 Verdict = (if RequireApproval b then ActionRequireApproval else ActionDeny),
                 Reason = (if Message b = [] then ''CEL policy evaluation returned false'' else Message b),
                 PolicyID = TemplateID b, Labels = sessionLabel\<rparr>,
               LatencyNs := tEnd inp - tStart inp, RespLayer := EnforcingLayerCEL,
               PolicySourceLocation := SourceLocation (snapPrograms snap) (TemplateID b)\<rparr>)
           else None))"

fun first_response :: "('b \<Rightarrow> 'r option) \<Rightarrow> 'b list \<Rightarrow> 'r option" where
  "first_response f [] = None"
| "first_response f (b # bs) = (case f b of Some r \<Rightarrow> Some r | None \<Rightarrow> first_response f bs)"

definition projectRootFor :: "'prog engineState \<Rightarrow> string \<Rightarrow> string" where
  "projectRootFor st sid = (case esSessions st of Some s \<Rightarrow> ProjectRootOf s sid | None \<Rightarrow> [])"

definition cel_stage ::
    "('ast, 'prog) EngineEnv \<Rightarrow> EvalInput \<Rightarrow> 'prog engineSnapshot \<Rightarrow> CheckRequest \<Rightarrow> EvalContext \<Rightarrow> 'prog stage" where
  "cel_stage env inp snap req ctx st =
    (st, first_response (eval_binding env inp snap req ctx (sessionLabelOf st (SessionID req))
                           (projectRootFor st (SessionID req)))
           (matchBindings (bindingIdx snap) (Tool req) (SessionID req)))"

definition maxScanBytes :: nat where
  "maxScanBytes = 2 ^ 20"

definition scanContent :: "('ast, 'prog) EngineEnv \<Rightarrow> CheckRequest \<Rightarrow> EvalContext \<Rightarrow> string" where
  "scanContent env req ctx =
    (if ecCommand ctx \<noteq> [] then ecCommand ctx
     else if Args req \<noteq> [] then ExtractScanTarget (envParse env) (Tool req) (Args req) else [])"

definition scan_stage :: "('ast, 'prog) EngineEnv \<Rightarrow> EvalInput \<Rightarrow> CheckRequest \<Rightarrow> EvalContext \<Rightarrow> 'prog stage" where
  "scan_stage env inp req ctx st =
    (if \<not> scShould (envScanner env) (Effects (ecVerdict ctx)) BoundaryToolArgs then (st, None)
     else if isExemptPath (extractFilePath (envParse env) (Args req)) then (st, None)
     else let content = scanContent env req ctx in
       if content = [] then (st, None)
       else let (findings, elevated) = scScan (envScanner env) (take maxScanBytes content) BoundaryToolArgs in
         if findings \<noteq> [] then
           (on_sessions (\<lambda>s. fst (TaintWithSecret s (SessionID req))) st,
            Some (zeroResponse\<lparr>RespDecision := \<lparr>Verdict = ActionRequireApproval,
                Reason = ''secret pattern detected in content '' @ em_dash @ '' human approval required'',
                PolicyID = ''builtin:secret-scan'', Labels = elevated\<rparr>,
              LatencyNs := tEnd inp - tStart inp, RespLayer := EnforcingLayerSecretScan, ThreatSeverity := ''high''\<rparr>))
         else if length content > maxScanBytes then
           (st, Some (zeroResponse\<lparr>RespDecision := zeroDecision\<lparr>Verdict := ActionRequireApproval,
                Reason := ''content exceeds 1MB scan limit '' @ em_dash @ '' remainder unverified for secrets'',
                PolicyID := ''builtin:secret-scan-partial''\<rparr>,
              LatencyNs := tEnd inp - tStart inp, RespLayer := EnforcingLayerSecretScan, ThreatSeverity := ''medium''\<rparr>))
         else (st, None))"

definition delegation_stage :: "('ast, 'prog) EngineEnv \<Rightarrow> EvalInput \<Rightarrow> CheckRequest \<Rightarrow> EvalContext \<Rightarrow> 'prog stage" where
  "delegation_stage env inp req ctx st =
    (st, if AuthorityChain req \<noteq> [] \<and> \<not> envValidator env (AuthorityChain req) (tNow inp)
         then Some (denyResponseWithVerdict inp ''delegation chain validation failed'' EnforcingLayerDelegation (ecVerdict ctx))
         else None)"

text \<open>The allow path: late elevation, spawn token, response.  The failing random source panics, which the
  deferred handler turns into a denial.\<close>

definition allow_response :: "EvalInput \<Rightarrow> SecurityLabel \<Rightarrow> Annotation list \<Rightarrow> CheckResponse" where
  "allow_response inp l anns = zeroResponse\<lparr>RespDecision := zeroDecision\<lparr>Verdict := ActionAllow, Labels := l\<rparr>,
     Annotations := anns, LatencyNs := tEnd inp - tStart inp, RespLayer := EnforcingLayerAdapter\<rparr>"

definition elevate_allowed :: "CheckRequest \<Rightarrow> EvalContext \<Rightarrow> 'prog engineState \<Rightarrow> 'prog engineState" where
  "elevate_allowed req ctx st =
    (if Confidentiality (ecResourceLabel ctx) \<ge> 500
     then on_sessions (\<lambda>s. fst (Elevate s (SessionID req) (ecResourceLabel ctx))) st else st)"

definition allow_stage ::
    "EvalInput \<Rightarrow> CheckRequest \<Rightarrow> EvalContext \<Rightarrow> 'prog engineState \<Rightarrow> 'prog engineState \<times> CheckResponse" where
  "allow_stage inp req ctx st =
    (let st1 = elevate_allowed req ctx st;
         l = sessionLabelOf st1 (SessionID req);
         tainted = (case esSessions st1 of Some s \<Rightarrow> IsTainted s (SessionID req) | None \<Rightarrow> False)
     in if Tool req = ''Agent'' \<and> tainted then
          (case generateSpawnToken inp (SessionID req) st1 of
             None \<Rightarrow> (st1, denyResponse inp ''internal evaluation panic'' EnforcingLayerAdapter)
           | Some (st2, token) \<Rightarrow> (st2, allow_response inp l [(''nixis.spawn_token'', token)]))
        else (st1, allow_response inp l []))"

fun run_stages :: "('s \<Rightarrow> 's \<times> 'r option) list \<Rightarrow> ('s \<Rightarrow> 's \<times> 'r) \<Rightarrow> 's \<Rightarrow> 's \<times> 'r" where
  "run_stages [] final st = final st"
| "run_stages (f # fs) final st = (case f st of
     (st1, Some r) \<Rightarrow> (st1, r)
   | (st1, None) \<Rightarrow> run_stages fs final st1)"

definition pipeline ::
    "('ast, 'prog) EngineEnv \<Rightarrow> EvalInput \<Rightarrow> 'prog engineSnapshot \<Rightarrow> CheckRequest \<Rightarrow> EvalContext \<Rightarrow> 'prog stage list" where
  "pipeline env inp snap req ctx =
     [session_stage inp req, risk_stage inp ctx, schema_stage inp req ctx, taint_stage inp req ctx,
      ifc_stage inp req ctx, sink_stage inp req ctx, cel_stage env inp snap req ctx,
      scan_stage env inp req ctx, delegation_stage env inp req ctx]"

definition evaluateWithSnapshot ::
    "('ast, 'prog) EngineEnv \<Rightarrow> EvalInput \<Rightarrow> CheckRequest \<Rightarrow> 'prog engineSnapshot \<Rightarrow> 'prog engineState \<Rightarrow>
     'prog engineState \<times> CheckResponse" where
  "evaluateWithSnapshot env inp req snap st =
    (let ctx = prepare_context env snap req
     in run_stages (pipeline env inp snap req ctx) (allow_stage inp req ctx) st)"

definition Evaluate ::
    "('ast, 'prog) EngineEnv \<Rightarrow> EvalInput \<Rightarrow> CheckRequest \<Rightarrow> 'prog engineState \<Rightarrow> 'prog engineState \<times> CheckResponse" where
  "Evaluate env inp req st =
    (case (case envGuard env of None \<Rightarrow> None
           | Some g \<Rightarrow> SelfProtect_Check (envParse env) (envSymlinks env) g req) of
       Some d \<Rightarrow> (st, zeroResponse\<lparr>RespDecision := d, LatencyNs := tEnd inp - tStart inp\<rparr>)
     | None \<Rightarrow> (case esSnapshot st of
         None \<Rightarrow> (st, denyResponse inp ''policy engine not initialized'' EnforcingLayerAdapter)
       | Some snap \<Rightarrow> evaluateWithSnapshot env inp req snap st))"

section \<open>Reload\<close>

datatype ReloadError = ReloadCompile CompileError | ReloadDenySkipped string

definition paramsIndex :: "PolicyTemplate list \<Rightarrow> (string \<rightharpoonup> json_map)" where
  "paramsIndex ts = foldl (\<lambda>m t. case Params t of Some p \<Rightarrow> m(TemplID t \<mapsto> p) | None \<Rightarrow> m) Map.empty ts"

definition buildSnapshot ::
    "('ast, 'prog) EngineEnv \<Rightarrow> gotime \<Rightarrow> CompiledBundle \<Rightarrow> u64 \<Rightarrow> ReloadError + 'prog engineSnapshot \<times> string list" where
  "buildSnapshot env now bundle version = (case CompileAll (envCel env) (Templates bundle) of
     Inl e \<Rightarrow> Inl (ReloadCompile e)
   | Inr (programs, skipped) \<Rightarrow>
      (case List.find (\<lambda>s. SkDefaultAction s = ''DENY'') skipped of
         Some s \<Rightarrow> Inl (ReloadDenySkipped (SkTemplateID s))
       | None \<Rightarrow>
         (let compiled = map compileBinding (Bindings bundle)
          in Inr (\<lparr>snapVersion = version, snapBindings = compiled, snapPrograms = programs,
                   snapClassifier = None, classifierIntf = None, bindingIdx = buildBindingIndex compiled,
                   compiledAt = unixNano now, sourceHash = BundleHash bundle,
                   templateParams = paramsIndex (Templates bundle), snapTemplates = Templates bundle\<rparr>,
                  map SkTemplateID skipped))))"

definition Reload ::
    "('ast, 'prog) EngineEnv \<Rightarrow> gotime \<Rightarrow> CompiledBundle \<Rightarrow> 'prog engineState \<Rightarrow> 'prog engineState \<times> ReloadError option" where
  "Reload env now bundle st =
    (let nextVersion = (case esSnapshot st of None \<Rightarrow> 1 | Some prev \<Rightarrow> snapVersion prev + 1)
     in case buildSnapshot env now bundle nextVersion of
          Inl e \<Rightarrow> (st, Some e)
        | Inr (newSnap, skipped) \<Rightarrow> (st\<lparr>esLastSkipped := skipped, esSnapshot := Some newSnap\<rparr>, None))"

definition layerByTemplateID :: "compiledBinding list \<Rightarrow> (string \<rightharpoonup> string)" where
  "layerByTemplateID bs = foldl (\<lambda>m cb. if Layer (cbBinding cb) \<noteq> []
      then m(TemplateID (cbBinding cb) \<mapsto> Layer (cbBinding cb)) else m) Map.empty bs"

definition ListPolicies :: "'prog engineState \<Rightarrow> PolicySummary list" where
  "ListPolicies st = (case esSnapshot st of None \<Rightarrow> []
   | Some snap \<Rightarrow> map (\<lambda>t. \<lparr>SumID = TemplID t, SumName = TemplName t,
        SumLayer = (case layerByTemplateID (snapBindings snap) (TemplID t) of Some l \<Rightarrow> l | None \<Rightarrow> ''cel''),
        SumEnabled = True, SumCelExpression = Expression t, SumDescription = Description t\<rparr>) (snapTemplates snap))"

section \<open>Staged decisions\<close>

text \<open>The contract of a fail-secure pipeline: stages may only deny or pass, every stage moves the state
  along a given relation.  Then an allowed answer means that every stage passed, in order.\<close>

fun passes :: "('s \<Rightarrow> 's \<times> 'r option) list \<Rightarrow> 's \<Rightarrow> 's \<Rightarrow> bool" where
  "passes [] s t \<longleftrightarrow> t = s"
| "passes (f # fs) s t \<longleftrightarrow> snd (f s) = None \<and> passes fs (fst (f s)) t"

locale fail_secure_stages =
  fixes stages :: "('s \<Rightarrow> 's \<times> 'r option) list"
    and final :: "'s \<Rightarrow> 's \<times> 'r"
    and allowed :: "'r \<Rightarrow> bool"
    and rel :: "'s \<Rightarrow> 's \<Rightarrow> bool"
  assumes rel_refl: "rel s s"
    and rel_trans: "rel s t \<Longrightarrow> rel t u \<Longrightarrow> rel s u"
    and stage_rel: "f \<in> set stages \<Longrightarrow> rel s (fst (f s))"
    and final_rel: "rel s (fst (final s))"
    and stage_denies: "f \<in> set stages \<Longrightarrow> snd (f s) = Some r \<Longrightarrow> \<not> allowed r"
begin

lemma run_sub_rel: "set fs \<subseteq> set stages \<Longrightarrow> rel s (fst (run_stages fs final s))"
proof (induction fs arbitrary: s)
  case (Cons f fs)
  have "rel s (fst (f s))" using Cons.prems stage_rel by simp
  moreover have "rel (fst (f s)) (fst (run_stages fs final (fst (f s))))" using Cons by simp
  ultimately show ?case by (cases "f s") (auto split: option.splits intro: rel_trans)
qed (simp add: final_rel)

lemma run_rel: "rel s (fst (run_stages stages final s))"
  by (rule run_sub_rel) simp

lemma run_sub_allowed:
  "set fs \<subseteq> set stages \<Longrightarrow> allowed (snd (run_stages fs final s)) \<Longrightarrow>
   \<exists>t. passes fs s t \<and> run_stages fs final s = final t"
proof (induction fs arbitrary: s)
  case (Cons f fs)
  obtain t r where ft: "f s = (t, r)" by (cases "f s")
  have "r = None"
    using Cons.prems stage_denies [of f s] ft by (cases r) auto
  with Cons ft show ?case by auto
qed simp

lemma run_allowed:
  "allowed (snd (run_stages stages final s)) \<Longrightarrow>
   \<exists>t. passes stages s t \<and> run_stages stages final s = final t"
  by (rule run_sub_allowed) simp_all

end

section \<open>What an evaluation may do to the state\<close>

text \<open>The snapshot is only read; the registry moves by registry operations.\<close>

definition state_rel :: "'prog engineState \<Rightarrow> 'prog engineState \<Rightarrow> bool" where
  "state_rel st st' \<longleftrightarrow> esSnapshot st' = esSnapshot st \<and> esLastSkipped st' = esLastSkipped st \<and>
     rel_option session_reach (esSessions st) (esSessions st')"

lemma state_rel_refl: "state_rel st st"
  by (simp add: state_rel_def option.rel_refl)

lemma state_rel_trans: "state_rel a b \<Longrightarrow> state_rel b c \<Longrightarrow> state_rel a c"
  by (auto simp: state_rel_def option.rel_sel)

lemma on_sessions_rel:
  "(\<And>s. session_reach s (f s)) \<Longrightarrow> state_rel st (on_sessions f st)"
  by (cases "esSessions st") (auto simp: state_rel_def on_sessions_def)

lemma on_sessions_step: "(\<And>s. session_step s (f s)) \<Longrightarrow> state_rel st (on_sessions f st)"
  by (rule on_sessions_rel) (rule r_into_rtranclp)

lemma state_rel_upd [simp]:
  "state_rel st (st'\<lparr>esHistory := h\<rparr>) = state_rel st st'" "state_rel st (st'\<lparr>esSpawns := m\<rparr>) = state_rel st st'"
  "state_rel (st\<lparr>esSpawns := m\<rparr>) st' = state_rel st st'"
  by (simp_all add: state_rel_def)

lemma maybeTaint_rel: "state_rel st (maybeTaint now sid l p st)"
  by (simp add: maybeTaint_def Let_def state_rel_refl on_sessions_step st_taint)

lemma propagate_reach: "session_reach s (propagateParentState c p s)"
proof -
  have "session_reach s (if IsTainted s p then fst (TaintWithSecret s c) else s)"
    by (simp add: r_into_rtranclp st_taint)
  then show ?thesis
    by (auto simp: propagateParentState_def Let_def intro: rtranclp.rtrancl_into_rtrancl st_ceiling)
qed

lemma validate_rel: "state_rel st (validateAndPropagateTaint now c tok st)"
proof (cases "esSpawns st tok")
  case (Some sp)
  have "state_rel (st\<lparr>esSpawns := (esSpawns st)(tok := None)\<rparr>)
     (on_sessions (propagateParentState c (parentSessionID sp)) (st\<lparr>esSpawns := (esSpawns st)(tok := None)\<rparr>))"
    by (rule on_sessions_rel) (rule propagate_reach)
  with Some show ?thesis by (simp add: validateAndPropagateTaint_def Let_def state_rel_refl)
qed (simp add: validateAndPropagateTaint_def state_rel_refl)

lemma session_stage_rel: "state_rel st (fst (session_stage inp req st))"
proof -
  let ?st1 = "if SpawnToken req \<noteq> [] then validateAndPropagateTaint (tNow inp) (SessionID req) (SpawnToken req) st else st"
  have "state_rel st ?st1" by (simp add: validate_rel state_rel_refl)
  moreover have "state_rel ?st1 (fst (session_stage inp req st))"
    by (simp add: session_stage_def Let_def state_rel_refl on_sessions_step st_root)
  ultimately show ?thesis by (rule state_rel_trans)
qed

lemma scan_stage_rel: "state_rel st (fst (scan_stage env inp req ctx st))"
  by (simp add: scan_stage_def Let_def case_prod_unfold state_rel_refl on_sessions_step st_taint)

lemma allow_stage_rel: "state_rel st (fst (allow_stage inp req ctx st))"
proof -
  have "state_rel st (elevate_allowed req ctx st)"
    by (simp add: elevate_allowed_def state_rel_refl on_sessions_step st_elevate)
  moreover have "state_rel (elevate_allowed req ctx st) (fst (allow_stage inp req ctx st))"
    by (auto simp: allow_stage_def Let_def generateSpawnToken_def storeSpawnToken_def state_rel_refl
        split: option.splits)
  ultimately show ?thesis by (rule state_rel_trans)
qed

lemmas stage_defs = session_stage_def risk_stage_def schema_stage_def taint_stage_def ifc_stage_def
  sink_stage_def cel_stage_def delegation_stage_def

lemma first_response_None: "first_response f bs = None \<longleftrightarrow> (\<forall>b \<in> set bs. f b = None)"
  by (induction bs) (auto split: option.splits)

lemma first_response_Some: "first_response f bs = Some r \<Longrightarrow> \<exists>b \<in> set bs. f b = Some r"
  by (induction bs) (auto split: option.splits)

lemma deny_actions [simp]:
  "resp_action (denyResponse inp why layer) = ActionDeny"
  "resp_action (denyResponseWithVerdict inp why layer v) = ActionDeny"
  by (simp_all add: denyResponse_def denyResponseWithVerdict_def)

lemma eval_binding_denies: "eval_binding env inp snap req ctx l root cb = Some r \<Longrightarrow> resp_action r \<noteq> ActionAllow"
  by (auto simp: eval_binding_def Let_def split: if_splits option.splits sum.splits)

lemma cel_stage_denies: "snd (cel_stage env inp snap req ctx st) = Some r \<Longrightarrow> resp_action r \<noteq> ActionAllow"
  by (auto simp: cel_stage_def dest!: first_response_Some eval_binding_denies)

lemma scan_stage_denies: "snd (scan_stage env inp req ctx st) = Some r \<Longrightarrow> resp_action r \<noteq> ActionAllow"
  by (auto simp: scan_stage_def Let_def case_prod_unfold split: if_splits)

lemma sink_stage_denies: "snd (sink_stage inp req ctx st) = Some r \<Longrightarrow> resp_action r \<noteq> ActionAllow"
  by (auto simp: sink_stage_def Let_def case_prod_unfold split: if_splits option.splits)

interpretation engine_stages: fail_secure_stages "pipeline env inp snap req ctx" "allow_stage inp req ctx"
    "\<lambda>r. resp_action r = ActionAllow" state_rel
  for env :: "('ast, 'prog) EngineEnv" and inp snap req ctx
proof
  fix f :: "'prog stage" and s r
  assume f: "f \<in> set (pipeline env inp snap req ctx)"
  then show "state_rel s (fst (f s))"
    by (auto simp: pipeline_def session_stage_rel scan_stage_rel taint_stage_def maybeTaint_rel
        risk_stage_def schema_stage_def ifc_stage_def sink_stage_def cel_stage_def delegation_stage_def
        state_rel_refl Let_def)
  assume "snd (f s) = Some r"
  with f show "resp_action r \<noteq> ActionAllow"
    by (auto simp: pipeline_def session_stage_def taint_stage_def risk_stage_def schema_stage_def
        ifc_stage_def delegation_stage_def Let_def split: if_splits option.splits
        dest: cel_stage_denies scan_stage_denies sink_stage_denies)
qed (auto simp: state_rel_refl allow_stage_rel intro: state_rel_trans)

lemma Evaluate_rel: "state_rel st (fst (Evaluate env inp req st))"
  by (simp add: Evaluate_def evaluateWithSnapshot_def Let_def engine_stages.run_rel state_rel_refl
      split: option.splits)

end
