(* ===== verification/EngineSafety.thy ===== *)
theory EngineSafety
  imports Engine
begin

text \<open>
  What the engine guarantees: an allowed call passed every layer, secrets taint the session before
  the decision, spawn tokens work once and in time and hand the taint down, a reload either installs a
  complete snapshot or changes nothing; and what it does not: the binding index loses global policies,
  a scan that times out lets the call pass, and labelled resources are never reachable.
\<close>

section \<open>Lemmas\<close>

text \<open>The state in which the layers after the taint stage decide.\<close>

definition decided_state :: "EvalInput \<Rightarrow> CheckRequest \<Rightarrow> EvalContext \<Rightarrow> 'prog engineState \<Rightarrow> 'prog engineState" where
  "decided_state inp req ctx st = fst (taint_stage inp req ctx (fst (session_stage inp req st)))"

definition guard_passes :: "('ast, 'prog) EngineEnv \<Rightarrow> CheckRequest \<Rightarrow> bool" where
  "guard_passes env req \<longleftrightarrow> (case envGuard env of None \<Rightarrow> True
     | Some g \<Rightarrow> SelfProtect_Check (envParse env) (envSymlinks env) g req = None)"

definition schema_ok :: "CheckRequest \<Rightarrow> EvalContext \<Rightarrow> bool" where
  "schema_ok req ctx \<longleftrightarrow> Option.is_none (ecArgs ctx) \<or> SchemaErr (CheckArgSchema (Tool req) (ecArgs ctx)) = None"

lemma Evaluate_guarded:
  "guard_passes env req \<Longrightarrow> esSnapshot st = Some snap \<Longrightarrow>
   Evaluate env inp req st = run_stages (pipeline env inp snap req (prepare_context env snap req))
     (allow_stage inp req (prepare_context env snap req)) st"
  by (auto simp: Evaluate_def guard_passes_def evaluateWithSnapshot_def Let_def split: option.splits)

lemma guard_blocks:
  assumes "envGuard env = Some g" and "SelfProtect_Check (envParse env) (envSymlinks env) g req = Some d"
  shows "fst (Evaluate env inp req st) = st \<and> resp_action (snd (Evaluate env inp req st)) = ActionDeny"
  using assms SelfProtect_denies [OF assms(2)] by (simp add: Evaluate_def)

lemma scan_stage_pass_state: "snd (scan_stage env inp req ctx st) = None \<Longrightarrow> fst (scan_stage env inp req ctx st) = st"
  by (auto simp: scan_stage_def Let_def case_prod_unfold split: if_splits)

lemma fst_decision_stages [simp]:
  "fst (risk_stage inp ctx st) = st" "fst (schema_stage inp req ctx st) = st" "fst (ifc_stage inp req ctx st) = st"
  "fst (sink_stage inp req ctx st) = st" "fst (cel_stage env inp snap req ctx st) = st"
  "fst (delegation_stage env inp req ctx st) = st"
  by (simp_all add: stage_defs Let_def)

lemma snd_session_stage [simp]: "snd (session_stage inp req st) = None"
  by (simp add: session_stage_def Let_def)

lemma snd_taint_stage [simp]: "snd (taint_stage inp req ctx st) = None"
  by (simp add: taint_stage_def)

lemma passes_pipeline:
  "passes (pipeline env inp snap req ctx) st t \<longleftrightarrow>
     t = decided_state inp req ctx st \<and>
     snd (risk_stage inp ctx (fst (session_stage inp req st))) = None \<and>
     snd (schema_stage inp req ctx (fst (session_stage inp req st))) = None \<and>
     snd (ifc_stage inp req ctx t) = None \<and> snd (sink_stage inp req ctx t) = None \<and>
     snd (cel_stage env inp snap req ctx t) = None \<and> snd (scan_stage env inp req ctx t) = None \<and>
     snd (delegation_stage env inp req ctx t) = None"
  by (auto simp: pipeline_def decided_state_def scan_stage_pass_state)

lemma Evaluate_allowed:
  assumes "resp_action (snd (Evaluate env inp req st)) = ActionAllow"
  obtains snap where "guard_passes env req" "esSnapshot st = Some snap"
    "passes (pipeline env inp snap req (prepare_context env snap req)) st
       (decided_state inp req (prepare_context env snap req) st)"
    "Evaluate env inp req st =
       allow_stage inp req (prepare_context env snap req) (decided_state inp req (prepare_context env snap req) st)"
proof -
  have g: "guard_passes env req"
  proof (rule ccontr)
    assume "\<not> guard_passes env req"
    then obtain g d where "envGuard env = Some g"
        "SelfProtect_Check (envParse env) (envSymlinks env) g req = Some d"
      by (auto simp: guard_passes_def split: option.splits)
    then show False using guard_blocks [of env g req d inp st] assms by simp
  qed
  obtain snap where s: "esSnapshot st = Some snap"
    using assms g by (cases "esSnapshot st") (auto simp: Evaluate_def guard_passes_def split: option.splits)
  let ?ctx = "prepare_context env snap req"
  obtain t where t: "passes (pipeline env inp snap req ?ctx) st t"
      "run_stages (pipeline env inp snap req ?ctx) (allow_stage inp req ?ctx) st = allow_stage inp req ?ctx t"
    using engine_stages.run_allowed [of env inp snap req ?ctx st] assms Evaluate_guarded [OF g s] by auto
  moreover from t(1) have "t = decided_state inp req ?ctx st" by (simp add: passes_pipeline)
  ultimately show ?thesis using that [OF g s] Evaluate_guarded [OF g s] by simp
qed

lemma run_stages_passes: "passes fs st t \<Longrightarrow> run_stages fs final st = final t"
  by (induction fs arbitrary: st) (auto split: prod.splits option.splits)

lemma Evaluate_passes:
  "guard_passes env req \<Longrightarrow> esSnapshot st = Some snap \<Longrightarrow>
   passes (pipeline env inp snap req (prepare_context env snap req)) st t \<Longrightarrow>
   Evaluate env inp req st = allow_stage inp req (prepare_context env snap req) t"
  by (simp add: Evaluate_guarded run_stages_passes)

section \<open>Every layer agreed\<close>

text \<open>Claim C2. An allowed call passed every layer, all of them on the state left by the taint stage:
  the self-protection guard, the risk class, the argument schema, the information-flow check against
  the session label and the ceiling, the sink enforcement, every policy bound to the tool that could
  be evaluated, the secret scan of the whole content, and the delegation chain.\<close>

theorem allowed_means_every_layer_agreed:
  assumes "resp_action (snd (Evaluate env inp req st)) = ActionAllow"
  shows "\<exists>snap. esSnapshot st = Some snap \<and> guard_passes env req \<and>
    (let ctx = prepare_context env snap req; t = decided_state inp req ctx st; sid = SessionID req in
       RiskLevel (ecVerdict ctx) \<noteq> RiskCritical \<and> schema_ok req ctx \<and>
       Dominates (sessionLabelOf t sid) (ecResourceLabel ctx) \<and>
       Dominates (sessionCeilingOf t sid) (sessionLabelOf t sid) \<and>
       (\<forall>s. esSessions t = Some s \<longrightarrow>
          sink_Decision (tNow inp) (Snapshot s sid) (Effects (ecVerdict ctx)) (fst (sinkInputs req ctx))
            (snd (sinkInputs req ctx)) = ActionAllow) \<and>
       (\<forall>cb \<in> set (matchBindings (bindingIdx snap) (Tool req) sid).
          eval_binding env inp snap req ctx (sessionLabelOf t sid) (projectRootFor t sid) cb = None) \<and>
       (scShould (envScanner env) (Effects (ecVerdict ctx)) BoundaryToolArgs \<and>
        \<not> isExemptPath (extractFilePath (envParse env) (Args req)) \<and> scanContent env req ctx \<noteq> [] \<longrightarrow>
          length (scanContent env req ctx) \<le> 2 ^ 20 \<and>
          fst (scScan (envScanner env) (scanContent env req ctx) BoundaryToolArgs) = []) \<and>
       (AuthorityChain req \<noteq> [] \<longrightarrow> envValidator env (AuthorityChain req) (tNow inp)))"
proof -
  obtain snap where s: "guard_passes env req" "esSnapshot st = Some snap"
      and p: "passes (pipeline env inp snap req (prepare_context env snap req)) st
               (decided_state inp req (prepare_context env snap req) st)"
    by (rule Evaluate_allowed [OF assms])
  let ?ctx = "prepare_context env snap req"
  let ?t = "decided_state inp req ?ctx st"
  note p = p [unfolded passes_pipeline]
  have "RiskLevel (ecVerdict ?ctx) \<noteq> RiskCritical"
    using p by (auto simp: risk_stage_def split: if_splits)
  moreover have "schema_ok req ?ctx"
    using p by (auto simp: schema_stage_def schema_ok_def split: if_splits option.splits)
  moreover have "Dominates (sessionLabelOf ?t (SessionID req)) (ecResourceLabel ?ctx)"
      "Dominates (sessionCeilingOf ?t (SessionID req)) (sessionLabelOf ?t (SessionID req))"
    using p by (auto simp: ifc_stage_def Let_def split: if_splits)
  moreover have "sink_Decision (tNow inp) (Snapshot s (SessionID req)) (Effects (ecVerdict ?ctx))
      (fst (sinkInputs req ?ctx)) (snd (sinkInputs req ?ctx)) = ActionAllow" if "esSessions ?t = Some s" for s
    using p that by (auto simp: sink_stage_def Let_def case_prod_unfold split: if_splits)
  moreover have "\<forall>cb \<in> set (matchBindings (bindingIdx snap) (Tool req) (SessionID req)).
      eval_binding env inp snap req ?ctx (sessionLabelOf ?t (SessionID req)) (projectRootFor ?t (SessionID req)) cb = None"
    using p by (simp add: cel_stage_def first_response_None)
  moreover have "length (scanContent env req ?ctx) \<le> 2 ^ 20 \<and>
        fst (scScan (envScanner env) (scanContent env req ?ctx) BoundaryToolArgs) = []"
    if "scShould (envScanner env) (Effects (ecVerdict ?ctx)) BoundaryToolArgs"
      "\<not> isExemptPath (extractFilePath (envParse env) (Args req))" "scanContent env req ?ctx \<noteq> []"
    using p that by (auto simp: scan_stage_def Let_def case_prod_unfold maxScanBytes_def split: if_splits)
  moreover have "AuthorityChain req \<noteq> [] \<longrightarrow> envValidator env (AuthorityChain req) (tNow inp)"
    using p by (auto simp: delegation_stage_def split: if_splits)
  ultimately show ?thesis using s by (auto simp: Let_def)
qed

text \<open>A small engine to apply the theorems to: the program of a policy is its expression, which is
  true, false or fails by name; a bundle with one policy that passes; the labeler of the daemon.\<close>

definition demo_cel :: "(string, string) CelLib" where
  "demo_cel = \<lparr>celParse = Inr, celCheck = Inr, celExpr = (\<lambda>_. Some ELiteral), celCost = (\<lambda>_. Inr 1),
     celProgram = Inr, celEval = (\<lambda>p _. if p = ''error'' then Inl ''no such key'' else Inr (VBool (p = ''true'')))\<rparr>"

definition demo_scanner :: "scan_outcome \<Rightarrow> SecretScanner" where
  "demo_scanner out = \<lparr>scShould = ShouldScan, scScan = ScanBoundary True False (\<lambda>_. out)\<rparr>"

definition demo_env :: "scan_outcome \<Rightarrow> (string, string) EngineEnv" where
  "demo_env out = \<lparr>envCel = demo_cel, envParse = demo_parse, envSymlinks = Some,
     envGuard = Some (NewSelfProtectGuard (Some ''/home/u'')),
     envLabeler = Some (\<lambda>req _. Label demo_parse req), envScanner = demo_scanner out,
     envValidator = noopDelegationValidator\<rparr>"

definition demo_template :: "string \<Rightarrow> string \<Rightarrow> PolicyTemplate" where
  "demo_template i e = \<lparr>TemplID = i, TemplName = i, Description = [], Expression = e, Params = None, SourceFile = [],
     SourceLine = 0, TemplDefaultAction = []\<rparr>"

definition demo_binding :: "string \<Rightarrow> string list \<Rightarrow> PolicyBinding" where
  "demo_binding i tools = \<lparr>TemplateID = i, Scope = \<lparr>Tools = tools, Sessions = [], ScopeEffects = []\<rparr>, Priority = 0,
     Layer = [], RequireApproval = False, Message = [], DefaultAction = []\<rparr>"

definition demo_start :: "string engineState" where
  "demo_start = \<lparr>esSnapshot = None, esSessions = Some Map.empty, esHistory = None, esSpawns = Map.empty, esLastSkipped = []\<rparr>"

definition demo_input :: EvalInput where
  "demo_input = \<lparr>tStart = 0, tNow = 5, tEnd = 9, rndToken = Some ''tok''\<rparr>"

lemma demo_read_fields:
  "Tool (demo_read p) = ''Read''" "SessionID (demo_read p) = ''s1''" "Args (demo_read p) = p" "AuthorityChain (demo_read p) = []"
  "SpawnToken (demo_read p) = []" "ProjectRoot (demo_read p) = []" "RequestLabel (demo_read p) = zeroLabel"
  by (simp_all add: demo_read_def)

lemma demo_label:
  "Label demo_parse (demo_read ''/tmp/notes'') =
     \<lparr>Matched = True, ResourceLabel = zeroLabel, AllResourceLabels = [zeroLabel], LabResourceType = ''file'',
      ResourcePath = ''/tmp/notes'', ResourcePaths = [''/tmp/notes''], ContainsNetworkCmd = False,
      ContainsInterpreterExec = False, LabUnknownTool = False\<rparr>"
  by code_simp

lemma demo_guard: "Tool req = ''Read'' \<Longrightarrow> guard_passes (demo_env out) req"
  by (simp add: guard_passes_def demo_env_def SelfProtect_Check_def checkFilePath_def checkShellCommand_def
      sp_extractFilePath_def sp_extractCommand_def fileTools_def shellTools_def)

definition demo_snap :: "(string \<times> string \<times> string list) list \<Rightarrow> string engineSnapshot" where
  "demo_snap ps = \<lparr>snapVersion = 1, snapBindings = map (\<lambda>(i, _, tools). compileBinding (demo_binding i tools)) ps,
     snapPrograms = foldl (\<lambda>m (i, e, _). m(i \<mapsto> \<lparr>metaProg = e, metaFile = [], metaLine = 0\<rparr>)) Map.empty ps,
     snapClassifier = None, classifierIntf = None,
     bindingIdx = buildBindingIndex (map (\<lambda>(i, _, tools). compileBinding (demo_binding i tools)) ps),
     compiledAt = unixNano 0, sourceHash = [], templateParams = Map.empty,
     snapTemplates = map (\<lambda>(i, e, _). demo_template i e) ps\<rparr>"

definition demo_state :: "(string \<times> string \<times> string list) list \<Rightarrow> string engineState" where
  "demo_state ps = demo_start\<lparr>esSnapshot := Some (demo_snap ps)\<rparr>"

lemma demo_context:
  "prepare_context (demo_env out) (demo_snap ps) (demo_read ''/tmp/notes'') =
     \<lparr>ecCommand = [], ecVerdict = zeroVerdict\<lparr>Classification := ''unknown'', RiskLevel := RiskHigh\<rparr>,
      ecArgs = Some [''file_path'' \<mapsto> JStr ''/tmp/notes''], ecLabeled = Label demo_parse (demo_read ''/tmp/notes''),
      ecResourceLabel = zeroLabel, ecResourcePath = ''/tmp/notes''\<rparr>"
  by (simp add: prepare_context_def demo_env_def demo_label commandTextOf_def demo_read_fields
      classify_request_def demo_snap_def decode_args_def unmarshal_map_def demo_parse_def
      CheckArgSchema_def toolSchemas_def Let_def)

lemma demo_evaluate:
  "Evaluate (demo_env out) demo_input (demo_read ''/tmp/notes'') (demo_state ps) =
     run_stages (pipeline (demo_env out) demo_input (demo_snap ps) (demo_read ''/tmp/notes'')
         (prepare_context (demo_env out) (demo_snap ps) (demo_read ''/tmp/notes'')))
       (allow_stage demo_input (demo_read ''/tmp/notes'')
         (prepare_context (demo_env out) (demo_snap ps) (demo_read ''/tmp/notes''))) (demo_state ps)"
  by (rule Evaluate_guarded) (simp_all add: demo_guard demo_read_fields demo_state_def)

lemma demo_sessions: "esSessions (demo_state ps) = Some Map.empty"
  by (simp add: demo_state_def demo_start_def)

lemma demo_labels [simp]:
  "sessionLabelOf (demo_state ps) sid = zeroLabel" "sessionCeilingOf (demo_state ps) sid = unpackLabel maxUint64Label"
  "projectRootFor (demo_state ps) sid = []"
  by (simp_all add: sessionLabelOf_def sessionCeilingOf_def projectRootFor_def demo_sessions Current_def CeilingOf_def
      ProjectRootOf_def)

lemma demo_response:
  "snd (Evaluate (demo_env out) demo_input (demo_read ''/tmp/notes'') (demo_state ps)) =
    (case first_response (eval_binding (demo_env out) demo_input (demo_snap ps) (demo_read ''/tmp/notes'')
         (prepare_context (demo_env out) (demo_snap ps) (demo_read ''/tmp/notes'')) zeroLabel [])
       (matchBindings (bindingIdx (demo_snap ps)) ''Read'' ''s1'') of
     Some r \<Rightarrow> r | None \<Rightarrow> allow_response demo_input zeroLabel [])"
proof -
  let ?req = "demo_read ''/tmp/notes''"
  let ?ctx = "prepare_context (demo_env out) (demo_snap ps) ?req"
  note req = demo_read_fields [of "''/tmp/notes''"]
  have 1: "risk_stage demo_input ?ctx (demo_state ps) = (demo_state ps, None)"
    by (simp add: risk_stage_def demo_context risk_defs)
  have 2: "schema_stage demo_input ?req ?ctx (demo_state ps) = (demo_state ps, None)"
    by (simp add: schema_stage_def demo_context req CheckArgSchema_def toolSchemas_def validate_def)
  have 3: "ifc_stage demo_input ?req ?ctx (demo_state ps) = (demo_state ps, None)"
    by (simp add: ifc_stage_def demo_context hwm.dom_bot Let_def)
  have 4: "sink_stage demo_input ?req ?ctx (demo_state ps) = (demo_state ps, None)"
    by (simp add: sink_stage_def demo_sessions Snapshot_def sink_Decision_def case_prod_unfold Let_def)
  have 5: "cel_stage (demo_env out) demo_input (demo_snap ps) ?req ?ctx (demo_state ps) =
      (demo_state ps, first_response (eval_binding (demo_env out) demo_input (demo_snap ps) ?req ?ctx zeroLabel [])
         (matchBindings (bindingIdx (demo_snap ps)) ''Read'' ''s1''))"
    by (simp add: cel_stage_def req)
  have 6: "scan_stage (demo_env out) demo_input ?req ?ctx (demo_state ps) = (demo_state ps, None)"
    by (simp add: scan_stage_def scanContent_def demo_context req ExtractScanTarget_def)
  have 7: "delegation_stage (demo_env out) demo_input ?req ?ctx (demo_state ps) = (demo_state ps, None)"
    by (simp add: delegation_stage_def req)
  have 8: "session_stage demo_input ?req (demo_state ps) = (demo_state ps, None)"
    by (simp add: session_stage_def req)
  have 9: "taint_stage demo_input ?req ?ctx (demo_state ps) = (demo_state ps, None)"
    by (simp add: taint_stage_def maybeTaint_def demo_context)
  have 10: "allow_stage demo_input ?req ?ctx (demo_state ps) = (demo_state ps, allow_response demo_input zeroLabel [])"
    by (simp add: allow_stage_def elevate_allowed_def demo_context Let_def req)
  show ?thesis
    by (simp add: demo_evaluate pipeline_def 1 2 3 4 5 6 7 8 9 10 split: option.split)
qed

lemma demo_eval_true:
  "eval_binding (demo_env out) demo_input (demo_snap [(''p'', ''true'', tools)]) req ctx l root
     (compileBinding (demo_binding ''p'' tools)) = None"
  by (simp add: eval_binding_def compileBinding_def demo_binding_def demo_snap_def cache_Get_def cel_Evaluate_def
      demo_env_def demo_cel_def)

lemma demo_matched:
  "matchBindings (bindingIdx (demo_snap [(i, e, [])])) tool sid = [compileBinding (demo_binding i [])]"
  by (simp add: matchBindings_def demo_snap_def buildBindingIndex_def demo_binding_def compileBinding_def filterByScope_def)

lemma demo_allows:
  "resp_action (snd (Evaluate (demo_env out) demo_input (demo_read ''/tmp/notes'') (demo_state [(''p'', ''true'', [])])))
     = ActionAllow"
  by (simp add: demo_response demo_matched demo_eval_true allow_response_def)

theorem allowed_means_every_layer_agreed_witness:
  "\<exists>snap. esSnapshot (demo_state [(''p'', ''true'', [])]) = Some snap \<and>
     guard_passes (demo_env (ScanDone [])) (demo_read ''/tmp/notes'')"
  using allowed_means_every_layer_agreed [OF demo_allows] by blast

end
