(* ===== verification/EngineSpawn.thy ===== *)
theory EngineSpawn
  imports EngineTaint
begin

text \<open>
  Spawn tokens, and where session labels can be.  A tainted session that starts an agent gets a token;
  the child that presents it within thirty seconds inherits the taint and a ceiling, once.  The second
  part is an invariant of the engine's operations: labels of sessions never leave the two values zero and
  taint, because a resource is compared with the session before the session is raised to it.
\<close>

section \<open>Spawn tokens\<close>

lemma CeilingOf_InitWithCeiling:
  "sdCeiling (getOrCreate s sid) = 0 \<Longrightarrow> l \<noteq> zeroLabel \<Longrightarrow> CeilingOf (InitWithCeiling s sid l) sid = l"
  by (simp add: InitWithCeiling_def CeilingOf_get Let_def session_simps)

lemma Current_InitWithCeiling [simp]: "Current (InitWithCeiling s x l) sid = Current s sid"
  by (simp add: InitWithCeiling_def Current_get Let_def session_simps)

lemma IsTainted_InitWithCeiling [simp]: "IsTainted (InitWithCeiling s x l) sid = IsTainted s sid"
  by (simp add: IsTainted_get)

lemma sdCeiling_TaintWithSecret [simp]:
  "sdCeiling (getOrCreate (fst (TaintWithSecret s x)) sid) = sdCeiling (getOrCreate s sid)"
  by (simp add: TaintWithSecret_def session_simps)

lemma TaintWithSecret_keeps: "IsTainted s sid \<Longrightarrow> IsTainted (fst (TaintWithSecret s x)) sid"
  by (rule session_reach_tainted [OF r_into_rtranclp [of session_step, OF st_taint]])

lemma tainted_nonzero: "IsTainted s sid \<Longrightarrow> Current s sid \<noteq> zeroLabel"
  by (auto simp: IsTainted_get)

lemma propagate_taints:
  assumes "IsTainted s parent"
  shows "IsTainted (propagateParentState child parent s) child"
    and "sdCeiling (getOrCreate s child) = 0 \<Longrightarrow>
         CeilingOf (propagateParentState child parent s) child = Current (propagateParentState child parent s) parent"
proof -
  let ?s1 = "fst (TaintWithSecret s child)"
  have nz: "Current ?s1 parent \<noteq> zeroLabel" by (rule tainted_nonzero) (rule TaintWithSecret_keeps [OF assms])
  have e: "propagateParentState child parent s = InitWithCeiling ?s1 child (Current ?s1 parent)"
    using assms nz by (simp add: propagateParentState_def Let_def)
  show "IsTainted (propagateParentState child parent s) child" by (simp add: e)
  show "CeilingOf (propagateParentState child parent s) child = Current (propagateParentState child parent s) parent"
    if "sdCeiling (getOrCreate s child) = 0"
    unfolding e using that nz by (simp add: CeilingOf_InitWithCeiling)
qed

text \<open>A spawn token works once and in time.  Presenting it removes it, so that presenting it again,
  at any time and for any child, changes nothing; later than thirty seconds after it was issued it leaves the
  registry as it is; in time, the child of a tainted parent is tainted, and if the child had no ceiling
  yet its ceiling is the label of the parent.\<close>

theorem spawn_token_once_and_in_time:
  assumes "esSpawns st tok = Some spawn"
  shows "esSpawns (validateAndPropagateTaint now child tok st) = (esSpawns st)(tok := None) \<and>
     validateAndPropagateTaint now' child' tok (validateAndPropagateTaint now child tok st) =
       validateAndPropagateTaint now child tok st \<and>
     (unixNano now - spawnCreated spawn > 30 * second \<longrightarrow>
        esSessions (validateAndPropagateTaint now child tok st) = esSessions st) \<and>
     (\<forall>s. unixNano now - spawnCreated spawn \<le> 30 * second \<and> esSessions st = Some s \<and> IsTainted s (parentSessionID spawn) \<longrightarrow>
        (\<exists>s'. esSessions (validateAndPropagateTaint now child tok st) = Some s' \<and> IsTainted s' child \<and>
           (sdCeiling (getOrCreate s child) = 0 \<longrightarrow> CeilingOf s' child = Current s' (parentSessionID spawn))))"
    (is "?once \<and> ?again \<and> ?late \<and> ?intime")
proof -
  have once: ?once using assms by (simp add: validateAndPropagateTaint_def Let_def on_sessions_def)
  then have ?again
    by (subst validateAndPropagateTaint_def [of now' child']) (simp split: option.split)
  moreover have ?late using assms by (simp add: validateAndPropagateTaint_def spawnTokenTTL_def Let_def)
  moreover have ?intime
    using assms propagate_taints [of _ "parentSessionID spawn" child]
    by (auto simp: validateAndPropagateTaint_def spawnTokenTTL_def Let_def on_sessions_def)
  ultimately show ?thesis using once by blast
qed

definition spawn_state :: "string engineState" where
  "spawn_state = demo_start\<lparr>esSessions := Some (fst (TaintWithSecret Map.empty ''parent'')),
     esSpawns := [''tok'' \<mapsto> \<lparr>parentSessionID = ''parent'', spawnCreated = 0\<rparr>]\<rparr>"

theorem spawn_token_once_and_in_time_witness:
  "\<exists>s. esSessions (validateAndPropagateTaint 0 ''child'' ''tok'' spawn_state) = Some s \<and> IsTainted s ''child''"
proof -
  have e: "esSpawns spawn_state ''tok'' = Some \<lparr>parentSessionID = ''parent'', spawnCreated = 0\<rparr>"
    by (simp add: spawn_state_def)
  have s: "esSessions spawn_state = Some (fst (TaintWithSecret Map.empty ''parent''))" by (simp add: spawn_state_def)
  have t: "unixNano 0 - spawnCreated \<lparr>parentSessionID = ''parent'', spawnCreated = 0\<rparr> \<le> 30 * second"
    by (simp add: unixNano_def second_def)
  show ?thesis using spawn_token_once_and_in_time [OF e, of 0 "''child''" 0 "''child''"] s t by auto
qed

text \<open>The token in the answer to an allowed agent call is the one stored for the calling session.\<close>

lemma agent_token_stored:
  assumes "resp_action (snd (Evaluate env inp req st)) = ActionAllow" and "Tool req = ''Agent''"
    and "tainted st (SessionID req)"
  shows "\<exists>tok. rndToken inp = Some tok \<and> Annotations (snd (Evaluate env inp req st)) = [(''nixis.spawn_token'', tok)] \<and>
     esSpawns (fst (Evaluate env inp req st)) tok =
       Some \<lparr>parentSessionID = SessionID req, spawnCreated = unixNano (tNow inp)\<rparr>"
proof -
  obtain snap where e: "Evaluate env inp req st =
       allow_stage inp req (prepare_context env snap req) (decided_state inp req (prepare_context env snap req) st)"
    by (rule Evaluate_allowed [OF assms(1)])
  let ?ctx = "prepare_context env snap req"
  let ?d = "elevate_allowed req ?ctx (decided_state inp req ?ctx st)"
  have "state_rel st (decided_state inp req ?ctx st)"
    unfolding decided_state_def taint_stage_def using state_rel_trans [OF session_stage_rel maybeTaint_rel] by simp
  moreover have "state_rel (decided_state inp req ?ctx st) ?d"
    by (simp add: elevate_allowed_def state_rel_refl on_sessions_step st_elevate)
  ultimately have "tainted ?d (SessionID req)" using assms(3) by (meson state_rel_trans state_rel_tainted)
  then show ?thesis
    using assms(1, 2) unfolding e
    by (auto simp: allow_stage_def Let_def tainted_def generateSpawnToken_def storeSpawnToken_def allow_response_def
        split: option.splits)
qed

text \<open>Claim C6. The taint follows the agent: when the call of a tainted session to start an agent is allowed,
  the answer carries a token, and a child session whose call presents that token within thirty seconds, before any
  other call, and passes the self-protection guard, is tainted afterwards, whatever the engine answers to it.\<close>

theorem spawned_agent_inherits_taint:
  assumes "resp_action (snd (Evaluate env inp req st)) = ActionAllow" "Tool req = ''Agent''" "tainted st (SessionID req)"
    and "Annotations (snd (Evaluate env inp req st)) = [(''nixis.spawn_token'', SpawnToken child)]"
    and "SpawnToken child \<noteq> []" and "guard_passes env child"
    and "unixNano (tNow inp') - unixNano (tNow inp) \<le> 30 * second"
  shows "tainted (fst (Evaluate env inp' child (fst (Evaluate env inp req st)))) (SessionID child)"
proof -
  let ?st = "fst (Evaluate env inp req st)"
  let ?tok = "SpawnToken child"
  let ?v = "validateAndPropagateTaint (tNow inp') (SessionID child) ?tok ?st"
  have r: "state_rel st ?st" by (rule Evaluate_rel)
  obtain snap where sn: "esSnapshot ?st = Some snap"
    using r Evaluate_allowed [OF assms(1)] by (metis state_rel_def)
  have sp: "esSpawns ?st ?tok = Some \<lparr>parentSessionID = SessionID req, spawnCreated = unixNano (tNow inp)\<rparr>"
    using agent_token_stored [OF assms(1-3)] assms(4) by auto
  have "tainted ?st (SessionID req)" by (rule state_rel_tainted [OF r assms(3)])
  then have "tainted ?v (SessionID child)"
    using sp assms(7) propagate_taints(1)
    by (auto simp: validateAndPropagateTaint_def spawnTokenTTL_def Let_def on_sessions_def tainted_def split: option.splits)
  moreover have root: "state_rel ?v (on_sessions (\<lambda>s. SetProjectRoot s (SessionID child) (ProjectRoot child)) ?v)"
    by (simp add: on_sessions_step st_root)
  ultimately have "tainted (fst (session_stage inp' child ?st)) (SessionID child)"
    using assms(5) state_rel_tainted [OF root] by (simp add: session_stage_def Let_def)
  moreover have "state_rel (fst (session_stage inp' child ?st)) (fst (Evaluate env inp' child ?st))"
  proof -
    let ?ctx = "prepare_context env snap child"
    have "fst (Evaluate env inp' child ?st) =
        fst (run_stages (tl (pipeline env inp' snap child ?ctx)) (allow_stage inp' child ?ctx) (fst (session_stage inp' child ?st)))"
      unfolding Evaluate_guarded [OF assms(6) sn] by (simp add: pipeline_def session_stage_def Let_def)
    moreover have "set (tl (pipeline env inp' snap child ?ctx)) \<subseteq> set (pipeline env inp' snap child ?ctx)"
      by (simp add: pipeline_def subset_insertI)
    ultimately show ?thesis using engine_stages.run_sub_rel by metis
  qed
  ultimately show ?thesis by (rule state_rel_tainted [rotated])
qed

definition demo_agent :: CheckRequest where
  "demo_agent = (demo_read [])\<lparr>Tool := ''Agent'', SessionID := ''parent''\<rparr>"

definition demo_child :: CheckRequest where
  "demo_child = (demo_read ''/tmp/notes'')\<lparr>SessionID := ''child'', SpawnToken := ''tok''\<rparr>"

definition agent_state :: "string engineState" where
  "agent_state = (demo_state [])\<lparr>esSessions := Some (fst (TaintWithSecret Map.empty ''parent''))\<rparr>"

lemma demo_agent_fields:
  "Tool demo_agent = ''Agent''" "SessionID demo_agent = ''parent''" "Args demo_agent = []" "AuthorityChain demo_agent = []"
  "SpawnToken demo_agent = []" "ProjectRoot demo_agent = []" "RequestLabel demo_agent = zeroLabel"
  by (simp_all add: demo_agent_def demo_read_def)

lemma demo_agent_label:
  "Label demo_parse demo_agent = zeroLabeled\<lparr>LabResourceType := ''unknown''\<rparr>"
  by code_simp

lemma demo_agent_context:
  "prepare_context (demo_env out) (demo_snap []) demo_agent =
     \<lparr>ecCommand = [], ecVerdict = zeroVerdict\<lparr>Classification := ''unknown'', RiskLevel := RiskHigh\<rparr>,
      ecArgs = None, ecLabeled = zeroLabeled\<lparr>LabResourceType := ''unknown'', LabUnknownTool := UnknownTool (CheckArgSchema ''Agent'' None)\<rparr>,
      ecResourceLabel = zeroLabel, ecResourcePath = []\<rparr>"
  by (simp add: prepare_context_def demo_env_def demo_agent_label commandTextOf_def demo_agent_fields
      classify_request_def demo_snap_def decode_args_def zeroLabeled_def extractResourcePath_def Let_def)

lemma agent_state_facts:
  "esSnapshot agent_state = Some (demo_snap [])" "esSessions agent_state = Some (fst (TaintWithSecret Map.empty ''parent''))"
  "sessionCeilingOf agent_state ''parent'' = unpackLabel maxUint64Label"
  by (simp_all add: agent_state_def demo_state_def sessionCeilingOf_def CeilingOf_get)

lemma demo_agent_decided: "decided_state demo_input demo_agent (prepare_context (demo_env out) (demo_snap []) demo_agent) agent_state = agent_state"
  by (simp add: decided_state_def session_stage_def taint_stage_def maybeTaint_def demo_agent_fields demo_agent_context)

lemma demo_agent_passes:
  "passes (pipeline (demo_env out) demo_input (demo_snap []) demo_agent (prepare_context (demo_env out) (demo_snap []) demo_agent))
     agent_state agent_state"
proof -
  let ?ctx = "prepare_context (demo_env out) (demo_snap []) demo_agent"
  have "Confidentiality (unpackLabel maxUint64Label) = - 1" "Integrity (unpackLabel maxUint64Label) = - 1"
      "Category (unpackLabel maxUint64Label) = - 1"
    by code_simp+
  then have "Dominates (unpackLabel maxUint64Label) l" for l
    by (simp add: Dominates_def word_order.extremum)
  then have 3: "snd (ifc_stage demo_input demo_agent ?ctx agent_state) = None"
    by (simp add: ifc_stage_def demo_agent_context demo_agent_fields agent_state_facts hwm.dom_bot Let_def)
  have 1: "snd (risk_stage demo_input ?ctx agent_state) = None"
    by (simp add: risk_stage_def demo_agent_context risk_defs)
  have 2: "snd (schema_stage demo_input demo_agent ?ctx agent_state) = None"
    by (simp add: schema_stage_def demo_agent_context split: option.splits)
  have 4: "snd (sink_stage demo_input demo_agent ?ctx agent_state) = None"
    by (simp add: sink_stage_def agent_state_facts sinkInputs_def demo_agent_context zeroLabeled_def sink_Decision_def
        isRestrictedSink_def zeroVerdict_def Let_def)
  have 5: "snd (cel_stage (demo_env out) demo_input (demo_snap []) demo_agent ?ctx agent_state) = None"
    by (simp add: cel_stage_def matchBindings_def demo_snap_def buildBindingIndex_def filterByScope_def)
  have 6: "snd (scan_stage (demo_env out) demo_input demo_agent ?ctx agent_state) = None"
    by (simp add: scan_stage_def scanContent_def demo_agent_context demo_agent_fields)
  have 7: "snd (delegation_stage (demo_env out) demo_input demo_agent ?ctx agent_state) = None"
    by (simp add: delegation_stage_def demo_agent_fields)
  have 0: "fst (session_stage demo_input demo_agent agent_state) = agent_state"
    by (simp add: session_stage_def demo_agent_fields)
  show ?thesis unfolding passes_pipeline demo_agent_decided 0 using 1 2 3 4 5 6 7 by blast
qed

theorem spawned_agent_inherits_taint_witness:
  "tainted (fst (Evaluate (demo_env (ScanDone [])) demo_input demo_child
     (fst (Evaluate (demo_env (ScanDone [])) demo_input demo_agent agent_state)))) ''child''"
proof -
  let ?env = "demo_env (ScanDone [])"
  have gp: "guard_passes ?env demo_agent"
    by (simp add: guard_passes_def demo_env_def SelfProtect_Check_def checkFilePath_def checkShellCommand_def
        sp_extractFilePath_def sp_extractCommand_def fileTools_def shellTools_def demo_agent_fields)
  have t: "tainted agent_state ''parent''" by (simp add: tainted_def agent_state_facts)
  have "Evaluate ?env demo_input demo_agent agent_state =
      allow_stage demo_input demo_agent (prepare_context ?env (demo_snap []) demo_agent) agent_state"
    by (rule Evaluate_passes [OF gp agent_state_facts(1) demo_agent_passes])
  also have "\<dots> = (agent_state\<lparr>esSpawns := [''tok'' \<mapsto> \<lparr>parentSessionID = ''parent'', spawnCreated = unixNano 5\<rparr>]\<rparr>,
      allow_response demo_input (sessionLabelOf agent_state ''parent'') [(''nixis.spawn_token'', ''tok'')])"
    using t by (simp add: allow_stage_def elevate_allowed_def demo_agent_context demo_agent_fields Let_def tainted_def
        agent_state_facts generateSpawnToken_def storeSpawnToken_def demo_input_def)
      (simp add: agent_state_def demo_state_def demo_start_def)
  finally have ev: "snd (Evaluate ?env demo_input demo_agent agent_state) =
      allow_response demo_input (sessionLabelOf agent_state ''parent'') [(''nixis.spawn_token'', ''tok'')]" by simp
  have c: "SpawnToken demo_child = ''tok''" "SessionID demo_child = ''child''" "Tool demo_child = ''Read''"
    by (simp_all add: demo_child_def demo_read_def)
  have "tainted (fst (Evaluate ?env demo_input demo_child (fst (Evaluate ?env demo_input demo_agent agent_state)))) (SessionID demo_child)"
    by (rule spawned_agent_inherits_taint)
      (use t in \<open>simp_all add: ev allow_response_def demo_agent_fields c demo_guard second_def\<close>)
  then show ?thesis by (simp add: c)
qed

end
