(* ===== verification/EnginePolicies.thy ===== *)
theory EnginePolicies
  imports EngineSafety
begin

text \<open>
  The policies in force: what the compiler accepts, what a reload installs, which bindings the index
  finds for a call and which it misses, and what a scan that ran out of time does to a call.
\<close>

section \<open>Compiling a bundle\<close>

definition accepted :: "('ast, 'prog) CelLib \<Rightarrow> PolicyTemplate \<Rightarrow> 'prog \<Rightarrow> bool" where
  "accepted lib t prog \<longleftrightarrow> length (Expression t) \<le> 32768 \<and>
     (\<exists>parsed ast cost. celParse lib (Expression t) = Inr parsed \<and> celCheck lib parsed = Inr ast \<and>
        astDepth lib ast \<le> 32 \<and> celCost lib ast = Inr cost \<and> cost \<le> 500000 \<and> celProgram lib ast = Inr prog)"

lemma compile_one_accepted: "compile_one lib t = Compiled prog \<longleftrightarrow> accepted lib t prog"
  by (auto simp: compile_one_def accepted_def maxExpressionLength_def maxASTDepth_def maxCostBudget_def not_less
      split: if_splits sum.splits)

lemma compile_loop_ok:
  assumes "compile_loop lib ts cache sk = Inr (cache', sk')"
  shows "(\<forall>i m. cache' i = Some m \<longrightarrow> cache i = Some m \<or>
            (\<exists>t \<in> set ts. TemplID t = i \<and> accepted lib t (metaProg m))) \<and>
         (\<forall>t \<in> set ts. (\<exists>prog. accepted lib t prog) \<and> cache' (TemplID t) \<noteq> None \<or>
            (\<exists>err. compile_one lib t = Skipped err) \<and> (\<exists>s \<in> set sk'. SkTemplateID s = TemplID t \<and> SkDefaultAction s = TemplDefaultAction t)) \<and>
         set sk \<subseteq> set sk' \<and> dom cache \<subseteq> dom cache'"
  using assms
proof (induction ts arbitrary: cache sk)
  case (Cons t ts)
  show ?case
  proof (cases "compile_one lib t")
    case (Compiled prog)
    let ?c = "cache(TemplID t \<mapsto> \<lparr>metaProg = prog, metaFile = SourceFile t, metaLine = SourceLine t\<rparr>)"
    have "compile_loop lib ts ?c sk = Inr (cache', sk')" using Cons.prems Compiled by simp
    note IH = Cons.IH [OF this]
    have a: "accepted lib t prog" using Compiled by (simp add: compile_one_accepted)
    from IH have "dom ?c \<subseteq> dom cache'" by blast
    then have "insert (TemplID t) (dom cache) \<subseteq> dom cache'" by (simp only: dom_fun_upd option.distinct if_False)
    then have "cache' (TemplID t) \<noteq> None" "dom cache \<subseteq> dom cache'" by auto
    moreover have "cache i = Some m \<or> (\<exists>t \<in> set (t # ts). TemplID t = i \<and> accepted lib t (metaProg m))"
      if "cache' i = Some m" for i m
    proof -
      from IH that consider "?c i = Some m" | "\<exists>t \<in> set ts. TemplID t = i \<and> accepted lib t (metaProg m)" by blast
      then show ?thesis
      proof cases
        case 1
        then show ?thesis using a by (cases "i = TemplID t") auto
      qed auto
    qed
    ultimately show ?thesis using IH a by simp blast
  next
    case (Skipped err)
    let ?s = "\<lparr>SkTemplateID = TemplID t, SkDefaultAction = TemplDefaultAction t, SkCompileErr = err\<rparr>"
    have "compile_loop lib ts cache (sk @ [?s]) = Inr (cache', sk')" using Cons.prems Skipped by simp
    note IH = Cons.IH [OF this]
    then have "?s \<in> set sk'" by auto
    then have "\<exists>s \<in> set sk'. SkTemplateID s = TemplID t \<and> SkDefaultAction s = TemplDefaultAction t" by force
    with IH Skipped show ?thesis by auto
  next
    case (Failed cause)
    then show ?thesis using Cons.prems by simp
  qed
qed simp

section \<open>Reload\<close>

text \<open>Claim C8. A reload is all or nothing.  When it reports an error, nothing of the engine's state has changed.
  When it succeeds, the new snapshot has the next version number and the bundle's bindings; every program in
  it comes from a template of the bundle that is at most 32768 bytes long, parses, type-checks, has an AST
  depth of at most 32 and an estimated cost of at most 500000; every template is either compiled or was
  skipped by the type checker, and then its default action is not \<^verbatim>\<open>DENY\<close>; sessions, history and
  spawn tokens are untouched.\<close>

theorem Reload_all_or_nothing:
  "(snd (Reload env now bundle st) \<noteq> None \<longrightarrow> fst (Reload env now bundle st) = st) \<and>
   (snd (Reload env now bundle st) = None \<longrightarrow>
     (\<exists>snap sk. fst (Reload env now bundle st) = st\<lparr>esLastSkipped := sk, esSnapshot := Some snap\<rparr> \<and>
       snapVersion snap = (case esSnapshot st of None \<Rightarrow> 1 | Some prev \<Rightarrow> snapVersion prev + 1) \<and>
       snapBindings snap = map compileBinding (Bindings bundle) \<and>
       bindingIdx snap = buildBindingIndex (map compileBinding (Bindings bundle)) \<and>
       (\<forall>i prog. cache_Get (snapPrograms snap) i = Some prog \<longrightarrow>
          (\<exists>t \<in> set (Templates bundle). TemplID t = i \<and> accepted (envCel env) t prog)) \<and>
       (\<forall>t \<in> set (Templates bundle). cache_Get (snapPrograms snap) (TemplID t) \<noteq> None \<or>
          (\<exists>err. compile_one (envCel env) t = Skipped err) \<and> TemplDefaultAction t \<noteq> ''DENY'' \<and> TemplID t \<in> set sk)))"
proof (cases "CompileAll (envCel env) (Templates bundle)")
  case (Inl e)
  then show ?thesis by (simp add: Reload_def buildSnapshot_def Let_def)
next
  case (Inr cs)
  obtain cache sk where cs: "cs = (cache, sk)" by fastforce
  with Inr have "compile_loop (envCel env) (Templates bundle) Map.empty [] = Inr (cache, sk)"
    by (simp add: CompileAll_def)
  note C = compile_loop_ok [OF this]
  have g: "cache_Get cache i = Some prog \<Longrightarrow> \<exists>t \<in> set (Templates bundle). TemplID t = i \<and> accepted (envCel env) t prog" for i prog
    using C by (fastforce simp: cache_Get_def)
  show ?thesis
  proof (cases "List.find (\<lambda>s. SkDefaultAction s = ''DENY'') sk")
    case None
    then have "\<forall>s \<in> set sk. SkDefaultAction s \<noteq> ''DENY''" by (auto simp: find_None_iff)
    then have sk: "s \<in> set sk \<Longrightarrow> SkTemplateID s = i \<Longrightarrow> SkDefaultAction s = d \<Longrightarrow> d \<noteq> ''DENY'' \<and> i \<in> SkTemplateID ` set sk" for s i d
      by blast
    have "\<forall>t \<in> set (Templates bundle). cache_Get cache (TemplID t) \<noteq> None \<or>
          (\<exists>err. compile_one (envCel env) t = Skipped err) \<and> TemplDefaultAction t \<noteq> ''DENY'' \<and> TemplID t \<in> SkTemplateID ` set sk"
    proof
      fix t assume "t \<in> set (Templates bundle)"
      then have "cache (TemplID t) \<noteq> None \<or> (\<exists>err. compile_one (envCel env) t = Skipped err) \<and>
          (\<exists>s \<in> set sk. SkTemplateID s = TemplID t \<and> SkDefaultAction s = TemplDefaultAction t)" using C by blast
      then show "cache_Get cache (TemplID t) \<noteq> None \<or> (\<exists>err. compile_one (envCel env) t = Skipped err) \<and>
          TemplDefaultAction t \<noteq> ''DENY'' \<and> TemplID t \<in> SkTemplateID ` set sk"
        using sk by (simp add: cache_Get_def) blast
    qed
    moreover obtain snap where "buildSnapshot env now bundle
          (case esSnapshot st of None \<Rightarrow> 1 | Some prev \<Rightarrow> snapVersion prev + 1) = Inr (snap, map SkTemplateID sk)"
        "snapVersion snap = (case esSnapshot st of None \<Rightarrow> 1 | Some prev \<Rightarrow> snapVersion prev + 1)"
        "snapBindings snap = map compileBinding (Bindings bundle)" "snapPrograms snap = cache"
        "bindingIdx snap = buildBindingIndex (map compileBinding (Bindings bundle))"
      using None Inr cs by (simp add: buildSnapshot_def Let_def)
    moreover from this(1) have "Reload env now bundle st =
        (st\<lparr>esLastSkipped := map SkTemplateID sk, esSnapshot := Some snap\<rparr>, None)"
      unfolding Reload_def Let_def by (simp only: sum.case prod.case)
    ultimately show ?thesis
      using g by (intro conjI impI exI [of _ snap] exI [of _ "map SkTemplateID sk"]) auto
  next
    case (Some s)
    with Inr cs show ?thesis by (simp add: Reload_def buildSnapshot_def Let_def)
  qed
qed

definition demo_bundle :: CompiledBundle where
  "demo_bundle = \<lparr>BundleVersion = 1, BundleHash = [], Templates = [demo_template ''p'' ''true''], Bindings = [demo_binding ''p'' []]\<rparr>"

theorem Reload_all_or_nothing_witness:
  "\<exists>snap. esSnapshot (fst (Reload (demo_env (ScanDone [])) 0 demo_bundle demo_start)) = Some snap \<and> snapVersion snap = 1 \<and>
     snapBindings snap = [compileBinding (demo_binding ''p'' [])]"
proof -
  have c: "compile_one demo_cel (demo_template ''p'' ''true'') = Compiled ''true''"
    by (simp add: compile_one_def demo_cel_def demo_template_def maxExpressionLength_def astDepth_def maxASTDepth_def maxCostBudget_def)
  have n: "esSnapshot demo_start = None" by (simp add: demo_start_def)
  have b: "Bindings demo_bundle = [demo_binding ''p'' []]" by (simp add: demo_bundle_def)
  have "snd (Reload (demo_env (ScanDone [])) 0 demo_bundle demo_start) = None"
    by (simp add: Reload_def buildSnapshot_def CompileAll_def demo_bundle_def demo_env_def c n Let_def)
  then obtain snap sk where
    "fst (Reload (demo_env (ScanDone [])) 0 demo_bundle demo_start) = demo_start\<lparr>esLastSkipped := sk, esSnapshot := Some snap\<rparr>"
    "snapVersion snap = 1" "snapBindings snap = [compileBinding (demo_binding ''p'' [])]"
    using Reload_all_or_nothing [of "demo_env (ScanDone [])" 0 demo_bundle demo_start] by (auto simp: n b)
  then show ?thesis by simp
qed

section \<open>The binding index\<close>

lemma index_tools_spec:
  "index_tools b ts m t = (if t \<in> set ts
     then Some ((case m t of Some bs \<Rightarrow> bs | None \<Rightarrow> []) @ replicate (count_list ts t) b) else m t)"
proof (induction ts arbitrary: m)
  case (Cons x ts)
  show ?case by (simp add: Cons.IH replicate_append_same [symmetric])
qed simp

definition tool_entry :: "(string \<rightharpoonup> compiledBinding list) \<Rightarrow> string \<Rightarrow> compiledBinding set" where
  "tool_entry m t = (case m t of Some xs \<Rightarrow> set xs | None \<Rightarrow> {})"

lemma tool_entry_index: "tool_entry (index_tools b ts m) t = tool_entry m t \<union> {b' \<in> {b}. t \<in> set ts}"
  by (auto simp: tool_entry_def index_tools_spec count_list_0_iff split: option.split if_splits)

lemma tool_entry_fold:
  "tool_entry (foldl (\<lambda>m b. index_tools b (Tools (Scope (cbBinding b))) m) m bs) t =
     tool_entry m t \<union> {b \<in> set bs. t \<in> set (Tools (Scope (cbBinding b)))}"
  by (induction bs arbitrary: m) (auto simp: tool_entry_index)

definition index_entry :: "bindingIndex \<Rightarrow> string \<Rightarrow> compiledBinding set" where
  "index_entry idx t = (case byTool idx of None \<Rightarrow> {} | Some m \<Rightarrow> tool_entry m t)"

lemma index_entry_built:
  "index_entry (buildBindingIndex bs) t = {b \<in> set bs. t \<in> set (Tools (Scope (cbBinding b)))}"
  by (simp add: index_entry_def buildBindingIndex_def tool_entry_fold) (simp add: tool_entry_def)

lemma matchBindings_named:
  assumes "b \<in> index_entry idx tool"
  shows "\<exists>xs. set xs = index_entry idx tool \<and> matchBindings idx tool sid = filterByScope xs tool sid"
  using assms by (auto simp: index_entry_def tool_entry_def matchBindings_def split: option.splits)

lemma filterByScope_member:
  "b \<in> set bs \<Longrightarrow> matchesScope (cbScope b) tool sid \<Longrightarrow> b \<in> set (filterByScope bs tool sid)"
  by (auto simp: filterByScope_def)

lemma filterByScope_subset: "set (filterByScope bs tool sid) \<subseteq> set bs"
  by (auto simp: filterByScope_def)

text \<open>A policy that names the tool is always found: for an index built from compiled bindings, a binding
  that lists the tool, and lists no session, only this session, or several, is among the bindings
  evaluated for the call; and every binding evaluated for a tool that some binding lists is a binding that lists it.\<close>

theorem named_bindings_found:
  assumes "b \<in> set bs" and "tool \<in> set (Tools (Scope b))" and "\<forall>s. Sessions (Scope b) = [s] \<longrightarrow> s = sid"
  shows "compileBinding b \<in> set (matchBindings (buildBindingIndex (map compileBinding bs)) tool sid) \<and>
    (\<forall>cb \<in> set (matchBindings (buildBindingIndex (map compileBinding bs)) tool sid).
       tool \<in> set (Tools (Scope (cbBinding cb))))"
proof -
  let ?idx = "buildBindingIndex (map compileBinding bs)"
  have e: "compileBinding b \<in> index_entry ?idx tool"
    using assms(1, 2) by (auto simp: index_entry_built compileBinding_def)
  obtain xs where xs: "set xs = index_entry ?idx tool" "matchBindings ?idx tool sid = filterByScope xs tool sid"
    using matchBindings_named [OF e] by blast
  have "matchesScope (cbScope (compileBinding b)) tool sid"
    using assms(2, 3) by (auto simp: matchesScope_def compileBinding_def split: list.splits)
  with e xs have "compileBinding b \<in> set (matchBindings ?idx tool sid)"
    by (simp add: filterByScope_member)
  moreover have "\<forall>cb \<in> set (matchBindings ?idx tool sid). tool \<in> set (Tools (Scope (cbBinding cb)))"
    using filterByScope_subset [of xs tool sid] xs by (auto simp: index_entry_built)
  ultimately show ?thesis by blast
qed

theorem named_bindings_found_witness:
  "compileBinding (demo_binding ''p'' [''Read'']) \<in>
     set (matchBindings (buildBindingIndex (map compileBinding [demo_binding ''g'' [], demo_binding ''p'' [''Read'']])) ''Read'' ''s1'')"
  using named_bindings_found [of "demo_binding ''p'' [''Read'']" "[demo_binding ''g'' [], demo_binding ''p'' [''Read'']]" "''Read''" "''s1''"]
  by (simp add: demo_binding_def)

lemma demo_eval_false:
  "eval_binding (demo_env out) demo_input (demo_snap [(''p'', ''false'', tools)]) req ctx l root
     (compileBinding (demo_binding ''p'' tools)) =
   Some (zeroResponse\<lparr>RespDecision := \<lparr>Verdict = ActionDeny, Reason = ''CEL policy evaluation returned false'',
       PolicyID = ''p'', Labels = l\<rparr>, LatencyNs := 9, RespLayer := EnforcingLayerCEL, PolicySourceLocation := []\<rparr>)"
  by (simp add: eval_binding_def compileBinding_def demo_binding_def demo_snap_def cache_Get_def cel_Evaluate_def
      demo_env_def demo_cel_def demo_input_def SourceLocation_def)

text \<open>The index loses global policies.  A policy bound to all tools that is false for every call denies
  a call as long as it is the only one; when a second policy that is always true is bound to the tool
  by name, the call is allowed, because the lookup returns only the bindings that name the tool.\<close>

theorem global_policy_lost_by_index:
  "resp_action (snd (Evaluate (demo_env (ScanDone [])) demo_input (demo_read ''/tmp/notes'') (demo_state [(''p'', ''false'', [])])))
     = ActionDeny \<and>
   resp_action (snd (Evaluate (demo_env (ScanDone [])) demo_input (demo_read ''/tmp/notes'')
     (demo_state [(''p'', ''false'', []), (''q'', ''true'', [''Read''])]))) = ActionAllow"
proof
  have "resp_action (snd (Evaluate (demo_env (ScanDone [])) demo_input (demo_read ''/tmp/notes'') (demo_state [(''p'', ''false'', [])])))
      = resp_action (the (eval_binding (demo_env (ScanDone [])) demo_input (demo_snap [(''p'', ''false'', [])]) (demo_read ''/tmp/notes'')
          (prepare_context (demo_env (ScanDone [])) (demo_snap [(''p'', ''false'', [])]) (demo_read ''/tmp/notes'')) zeroLabel []
          (compileBinding (demo_binding ''p'' []))))"
    by (simp add: demo_response demo_matched demo_eval_false)
  then show "resp_action (snd (Evaluate (demo_env (ScanDone [])) demo_input (demo_read ''/tmp/notes'') (demo_state [(''p'', ''false'', [])])))
      = ActionDeny"
    by (simp add: demo_eval_false)
next
  have m: "matchBindings (bindingIdx (demo_snap [(''p'', ''false'', []), (''q'', ''true'', [''Read''])])) ''Read'' ''s1'' =
      [compileBinding (demo_binding ''q'' [''Read''])]"
    by (simp add: matchBindings_def demo_snap_def buildBindingIndex_def demo_binding_def compileBinding_def filterByScope_def
        matchesScope_def)
  have "eval_binding (demo_env (ScanDone [])) demo_input (demo_snap [(''p'', ''false'', []), (''q'', ''true'', [''Read''])]) req ctx l root
     (compileBinding (demo_binding ''q'' [''Read''])) = None" for req ctx l root
    by (simp add: eval_binding_def compileBinding_def demo_binding_def demo_snap_def cache_Get_def cel_Evaluate_def
      demo_env_def demo_cel_def)
  then show "resp_action (snd (Evaluate (demo_env (ScanDone [])) demo_input (demo_read ''/tmp/notes'')
     (demo_state [(''p'', ''false'', []), (''q'', ''true'', [''Read''])]))) = ActionAllow"
    by (simp add: demo_response m allow_response_def)
qed

section \<open>Scans that do not finish\<close>

definition scanner_with :: "(string \<Rightarrow> scan_outcome) \<Rightarrow> SecretScanner" where
  "scanner_with detect = \<lparr>scShould = ShouldScan, scScan = ScanBoundary True False detect\<rparr>"

lemma eval_binding_scanner: "eval_binding (env\<lparr>envScanner := sc\<rparr>) = eval_binding env"
proof -
  have cel: "envCel (env\<lparr>envScanner := sc\<rparr>) = envCel env" by simp
  show ?thesis by (intro ext) (unfold eval_binding_def cel, rule refl)
qed

lemma scanner_irrelevant:
  "prepare_context (env\<lparr>envScanner := sc\<rparr>) = prepare_context env"
  "cel_stage (env\<lparr>envScanner := sc\<rparr>) = cel_stage env"
  "delegation_stage (env\<lparr>envScanner := sc\<rparr>) = delegation_stage env"
  "scanContent (env\<lparr>envScanner := sc\<rparr>) = scanContent env"
  by (simp_all add: prepare_context_def cel_stage_def delegation_stage_def eval_binding_scanner scanContent_def fun_eq_iff)

text \<open>A scan that runs into its time limit, is cancelled or panics finds nothing.\<close>

definition unfinished :: "scan_outcome \<Rightarrow> bool" where
  "unfinished out \<longleftrightarrow> out \<in> {ScanTimeout, ScanCancelled, ScanPanicked}"

lemma unfinished_no_findings:
  "unfinished out \<Longrightarrow> fst (ScanBoundary True False (\<lambda>_. out) c b) = []"
  by (auto simp: unfinished_def ScanBoundary_def)

text \<open>A scan that does not finish counts as clean: the engine looks only at the list of findings, so
  that the answer and the state after a call whose scan timed out, was cancelled or panicked are those of a call
  whose scan found nothing.\<close>

theorem unfinished_scan_passes:
  assumes "unfinished out"
  shows "Evaluate (env\<lparr>envScanner := scanner_with (\<lambda>_. out)\<rparr>) inp req st =
         Evaluate (env\<lparr>envScanner := scanner_with (\<lambda>_. ScanDone [])\<rparr>) inp req st"
proof -
  have "fst (ScanBoundary True False (\<lambda>_. ScanDone []) c b) = []" for c b by (simp add: ScanBoundary_def)
  then have scan: "scan_stage (env\<lparr>envScanner := scanner_with (\<lambda>_. out)\<rparr>) inp req ctx =
      scan_stage (env\<lparr>envScanner := scanner_with (\<lambda>_. ScanDone [])\<rparr>) inp req ctx" for ctx
    using unfinished_no_findings [OF assms]
    by (simp add: scan_stage_def fun_eq_iff scanner_with_def scanner_irrelevant case_prod_unfold Let_def)
  show ?thesis
    by (simp add: Evaluate_def evaluateWithSnapshot_def pipeline_def scanner_irrelevant scan Let_def split: option.split)
qed

theorem unfinished_scan_passes_witness:
  "resp_action (snd (Evaluate ((demo_env ScanTimeout)\<lparr>envScanner := scanner_with (\<lambda>_. ScanTimeout)\<rparr>) demo_input
     (demo_read ''/tmp/notes'') (demo_state [(''p'', ''true'', [])]))) = ActionAllow"
proof -
  have "unfinished ScanTimeout" by (simp add: unfinished_def)
  moreover have "(demo_env ScanTimeout)\<lparr>envScanner := scanner_with (\<lambda>_. ScanDone [])\<rparr> = demo_env (ScanDone [])"
    by (simp add: demo_env_def demo_scanner_def scanner_with_def)
  ultimately show ?thesis
    using unfinished_scan_passes [of ScanTimeout "demo_env ScanTimeout" demo_input "demo_read ''/tmp/notes''" "demo_state [(''p'', ''true'', [])]"]
      demo_allows [of "ScanDone []"] by simp
qed

end
