(* ===== verification/RateLimit.thy ===== *)
theory RateLimit
  imports Types Complex_Main "HOL-Library.Signed_Division"
begin

text \<open>
  The token buckets of \<^verbatim>\<open>internal/daemon/ratelimit.go\<close>.  The sources compute in \<^verbatim>\<open>float64\<close>: every arithmetic operation is the
  exact one followed by rounding to the nearest representable number, so the rounding is a parameter \<^verbatim>\<open>rnd\<close> of the
  definitions and the bounds carry its relative error.  Times are nanoseconds; the mutex makes a call one step.
\<close>

section \<open>The limiter\<close>

record token_bucket =
  tokens :: real
  lastSeen :: gotime

record RateLimiter =
  rlBuckets :: "string \<rightharpoonup> token_bucket"
  burstSize :: int
  refillRate :: real
  staleAfter :: int

definition NewRateLimiter :: "int \<Rightarrow> real \<Rightarrow> RateLimiter" where
  "NewRateLimiter burst rate = \<lparr>rlBuckets = Map.empty, burstSize = burst, refillRate = rate, staleAfter = 5 * 60 * 10 ^ 9\<rparr>"

text \<open>\<^verbatim>\<open>Duration.Seconds\<close> adds the whole seconds and the rest, each converted.\<close>

definition Seconds :: "(real \<Rightarrow> real) \<Rightarrow> int \<Rightarrow> real" where
  "Seconds rnd d = rnd (rnd (of_int (d sdiv 10 ^ 9)) + rnd (rnd (of_int (d smod 10 ^ 9)) / 10 ^ 9))"

definition pruneStale :: "gotime \<Rightarrow> RateLimiter \<Rightarrow> RateLimiter" where
  "pruneStale now r = r\<lparr>rlBuckets := (\<lambda>k. case rlBuckets r k of
     Some b \<Rightarrow> if now - lastSeen b > staleAfter r then None else Some b | None \<Rightarrow> None)\<rparr>"

definition refill :: "(real \<Rightarrow> real) \<Rightarrow> RateLimiter \<Rightarrow> gotime \<Rightarrow> token_bucket \<Rightarrow> token_bucket" where
  "refill rnd r now b =
    (let t = rnd (tokens b + rnd (Seconds rnd (now - lastSeen b) * refillRate r));
         full = rnd (of_int (burstSize r))
     in \<lparr>tokens = if t > full then full else t, lastSeen = now\<rparr>)"

text \<open>The bucket is shared by reference: taking a token shows in the table when the bucket is still there.\<close>

definition take_token :: "(real \<Rightarrow> real) \<Rightarrow> string \<Rightarrow> token_bucket \<Rightarrow> RateLimiter \<Rightarrow> bool \<times> RateLimiter" where
  "take_token rnd k b r =
    (if tokens b < 1 then (False, r)
     else (True, if rlBuckets r k = None then r else r\<lparr>rlBuckets := (rlBuckets r)(k \<mapsto> b\<lparr>tokens := rnd (tokens b - 1)\<rparr>)\<rparr>))"

definition rl_Allow :: "(real \<Rightarrow> real) \<Rightarrow> gotime \<Rightarrow> string \<Rightarrow> RateLimiter \<Rightarrow> bool \<times> RateLimiter" where
  "rl_Allow rnd now sessionID r = (case rlBuckets r sessionID of
     None \<Rightarrow>
      (let b = \<lparr>tokens = rnd (of_int (burstSize r)), lastSeen = now\<rparr>
       in take_token rnd sessionID b (pruneStale now (r\<lparr>rlBuckets := (rlBuckets r)(sessionID \<mapsto> b)\<rparr>)))
   | Some b \<Rightarrow>
      (let b' = refill rnd r now b
       in take_token rnd sessionID b' (r\<lparr>rlBuckets := (rlBuckets r)(sessionID \<mapsto> b')\<rparr>)))"

text \<open>A run of calls, each with the time of the clock, and how many of them a session had and had granted.\<close>

fun serve_calls :: "(real \<Rightarrow> real) \<Rightarrow> (gotime \<times> string) list \<Rightarrow> RateLimiter \<Rightarrow> bool list \<times> RateLimiter" where
  "serve_calls rnd [] r = ([], r)"
| "serve_calls rnd ((now, s) # cs) r =
    (let (ok, r1) = rl_Allow rnd now s r; (oks, r2) = serve_calls rnd cs r1 in (ok # oks, r2))"

definition granted :: "string \<Rightarrow> (gotime \<times> string) list \<Rightarrow> bool list \<Rightarrow> nat" where
  "granted s cs oks = length (filter (\<lambda>((now, k), ok). k = s \<and> ok) (zip cs oks))"

definition calls_of :: "string \<Rightarrow> (gotime \<times> string) list \<Rightarrow> nat" where
  "calls_of s cs = length (filter (\<lambda>(now, k). k = s) cs)"

section \<open>The capacity of a session\<close>

definition rounds_within :: "real \<Rightarrow> (real \<Rightarrow> real) \<Rightarrow> bool" where
  "rounds_within u rnd \<longleftrightarrow> 0 \<le> u \<and> mono rnd \<and> (\<forall>x. rnd (rnd x) = rnd x) \<and> (\<forall>x \<ge> 0. 0 \<le> rnd x \<and> rnd x \<le> (1 + u) * x)"

definition full_bucket :: "(real \<Rightarrow> real) \<Rightarrow> RateLimiter \<Rightarrow> real" where
  "full_bucket rnd r = rnd (of_int (burstSize r))"

definition speed :: "real \<Rightarrow> RateLimiter \<Rightarrow> real" where
  "speed u r = (1 + u) ^ 5 * refillRate r / 10 ^ 9"

definition capacity :: "real \<Rightarrow> (real \<Rightarrow> real) \<Rightarrow> RateLimiter \<Rightarrow> string \<Rightarrow> gotime \<Rightarrow> real" where
  "capacity u rnd r s now = (case rlBuckets r s of
     None \<Rightarrow> full_bucket rnd r
   | Some b \<Rightarrow> min (full_bucket rnd r) (tokens b + speed u r * of_int (now - lastSeen b)))"

definition limiter_ok :: "(real \<Rightarrow> real) \<Rightarrow> gotime \<Rightarrow> RateLimiter \<Rightarrow> bool" where
  "limiter_ok rnd now r \<longleftrightarrow> 0 \<le> refillRate r \<and> 0 \<le> burstSize r \<and> 0 \<le> staleAfter r \<and>
    (\<forall>s b. rlBuckets r s = Some b \<longrightarrow> 0 \<le> tokens b \<and> tokens b \<le> full_bucket rnd r \<and> lastSeen b \<le> now)"

text \<open>A bucket idle for longer than \<^verbatim>\<open>staleAfter\<close> would be full again.\<close>

definition refills_before_stale :: "(real \<Rightarrow> real) \<Rightarrow> RateLimiter \<Rightarrow> bool" where
  "refills_before_stale rnd r \<longleftrightarrow> full_bucket rnd r \<le> refillRate r * of_int (staleAfter r) / 10 ^ 9"

lemma rounds_nonneg: "rounds_within u rnd \<Longrightarrow> 0 \<le> x \<Longrightarrow> 0 \<le> rnd x"
  by (simp add: rounds_within_def)

lemma rounds_le:
  assumes "rounds_within u rnd" and "0 \<le> x" and "x \<le> y"
  shows "rnd x \<le> (1 + u) * y"
proof -
  have "rnd x \<le> (1 + u) * x" "0 \<le> u" using assms by (auto simp: rounds_within_def)
  moreover have "(1 + u) * x \<le> (1 + u) * y" using assms(3) \<open>0 \<le> u\<close> by (intro mult_left_mono) auto
  ultimately show ?thesis by linarith
qed

lemma Seconds_bounds:
  assumes r: "rounds_within u rnd" and d: "0 \<le> d"
  shows "0 \<le> Seconds rnd d" and "Seconds rnd d \<le> (1 + u) ^ 4 * (of_int d / 10 ^ 9)"
proof -
  define a b where "a = d div 10 ^ 9" and "b = d mod (10 ^ 9)"
  have u: "0 \<le> u" using r by (simp add: rounds_within_def)
  have sd: "d sdiv 10 ^ 9 = a" "d smod 10 ^ 9 = b" "0 \<le> a" "0 \<le> b"
    using d by (auto simp: a_def b_def signed_divide_int_def signed_modulo_int_def sgn_if minus_mult_div_eq_mod algebra_simps)
  have split: "of_int d / 10 ^ 9 = of_int a + (of_int b / 10 ^ 9 :: real)"
  proof -
    have "d = a * 10 ^ 9 + b" unfolding a_def b_def by (metis div_mult_mod_eq)
    then have "(of_int d :: real) = of_int a * 10 ^ 9 + of_int b" by (metis of_int_add of_int_mult of_int_numeral of_int_power)
    then show ?thesis by (simp add: field_simps)
  qed
  define x where "x = rnd (of_int a)"
  define y where "y = rnd (rnd (of_int b) / 10 ^ 9)"
  have x: "0 \<le> x" "x \<le> (1 + u) * of_int a"
    using rounds_nonneg [OF r] rounds_le [OF r, of "of_int a" "of_int a"] sd by (auto simp: x_def)
  have b: "0 \<le> rnd (of_int b)" "rnd (of_int b) \<le> (1 + u) * of_int b"
    using rounds_nonneg [OF r] rounds_le [OF r, of "of_int b" "of_int b"] sd by auto
  have y: "0 \<le> y" "y \<le> (1 + u) * ((1 + u) * of_int b / 10 ^ 9)"
    using rounds_nonneg [OF r] rounds_le [OF r, of "rnd (of_int b) / 10 ^ 9" "(1 + u) * of_int b / 10 ^ 9"] b
    by (auto simp: y_def divide_right_mono)
  have grow: "(1 + u) ^ m * z \<le> (1 + u) ^ n * z" if "m \<le> n" "0 \<le> z" for m n :: nat and z :: real
    using that u by (intro mult_right_mono power_increasing) auto
  have "x \<le> (1 + u) ^ 2 * of_int a" using x(2) grow [of 1 2 "of_int a"] sd by simp
  moreover have "y \<le> (1 + u) ^ 2 * (of_int b / 10 ^ 9)" using y(2) by (simp add: power2_eq_square mult.assoc)
  ultimately have "x + y \<le> (1 + u) ^ 2 * (of_int a + of_int b / 10 ^ 9)" by (simp add: distrib_left)
  then have "rnd (x + y) \<le> (1 + u) * ((1 + u) ^ 2 * (of_int d / 10 ^ 9))"
    unfolding split using x(1) y(1) by (intro rounds_le [OF r]) auto
  also have "\<dots> \<le> (1 + u) ^ 4 * (of_int d / 10 ^ 9)"
    using grow [of 3 4 "of_int d / 10 ^ 9"] d by (simp add: power2_eq_square power3_eq_cube mult.assoc)
  finally show "Seconds rnd d \<le> (1 + u) ^ 4 * (of_int d / 10 ^ 9)" by (simp only: Seconds_def sd x_def y_def)
  show "0 \<le> Seconds rnd d" using rounds_nonneg [OF r, of "x + y"] x(1) y(1) by (simp only: Seconds_def sd x_def y_def add_nonneg_nonneg)
qed

lemma refill_bounds:
  assumes r: "rounds_within u rnd" and ok: "limiter_ok rnd t0 r" and b: "rlBuckets r s = Some b" and t: "t0 \<le> now"
  shows "0 \<le> tokens (refill rnd r now b)" and "tokens (refill rnd r now b) \<le> full_bucket rnd r"
    and "tokens (refill rnd r now b) \<le> capacity u rnd r s now + u * full_bucket rnd r"
proof -
  let ?B = "full_bucket rnd r" and ?d = "now - lastSeen b"
  let ?e = "rnd (Seconds rnd ?d * refillRate r)"
  have inv: "0 \<le> tokens b" "tokens b \<le> ?B" "lastSeen b \<le> now" "0 \<le> refillRate r" "0 \<le> ?B" "0 \<le> u"
    using ok b t r rounds_nonneg [OF r, of "of_int (burstSize r)"] by (auto simp: limiter_ok_def full_bucket_def rounds_within_def) fastforce+
  have sec: "0 \<le> Seconds rnd ?d" "Seconds rnd ?d \<le> (1 + u) ^ 4 * (of_int ?d / 10 ^ 9)"
    using Seconds_bounds [OF r, of ?d] inv(3) by auto
  have e0: "0 \<le> ?e" using rounds_nonneg [OF r] sec(1) inv(4) by simp
  have "?e \<le> (1 + u) * ((1 + u) ^ 4 * (of_int ?d / 10 ^ 9) * refillRate r)"
    using sec inv(4) by (intro rounds_le [OF r] mult_right_mono mult_nonneg_nonneg)
  then have e: "?e \<le> speed u r * of_int ?d" by (simp add: speed_def power_Suc numeral_eq_Suc mult_ac)
  have exact: "rnd (tokens b + ?e) \<le> tokens b + ?e + u * (tokens b + ?e)"
    using rounds_le [OF r, of "tokens b + ?e" "tokens b + ?e"] inv(1) e0 by (simp add: algebra_simps)
  let ?t = "tokens (refill rnd r now b)"
  have t: "?t = min ?B (rnd (tokens b + ?e))" by (simp add: refill_def full_bucket_def Let_def min_def)
  show "0 \<le> ?t" unfolding t using inv rounds_nonneg [OF r, of "tokens b + ?e"] e0 by simp
  show "?t \<le> ?B" by (simp add: t)
  show "?t \<le> capacity u rnd r s now + u * ?B"
  proof (cases "tokens b + ?e \<le> ?B")
    case True
    then have "u * (tokens b + ?e) \<le> u * ?B" using inv(6) by (intro mult_left_mono)
    then show ?thesis using True exact e inv(5,6) by (auto simp: t capacity_def b min_def)
  next
    case False
    then have "?B \<le> tokens b + speed u r * of_int ?d" using e by linarith
    then have "capacity u rnd r s now = ?B" by (simp add: capacity_def b)
    then show ?thesis using inv(5,6) by (simp add: t min.coboundedI1)
  qed
qed

text \<open>What taking a token from a bucket that the table holds does to the capacity of its session.\<close>

lemma take_token_bounds:
  assumes r: "rounds_within u rnd" and b: "rlBuckets r s = Some b" "0 \<le> tokens b" "tokens b \<le> full_bucket rnd r" "lastSeen b = now"
    and ok: "limiter_ok rnd now r" and step: "take_token rnd s b r = (granted_now, r')"
  shows "limiter_ok rnd now r'" and "capacity u rnd r' s now + (if granted_now then 1 else 0) \<le> tokens b + u * full_bucket rnd r"
    and "k \<noteq> s \<Longrightarrow> rlBuckets r' k = rlBuckets r k"
    and "burstSize r' = burstSize r \<and> refillRate r' = refillRate r \<and> staleAfter r' = staleAfter r"
proof -
  have u: "0 \<le> u" using r by (simp add: rounds_within_def)
  have le: "rnd (tokens b - 1) \<le> full_bucket rnd r"
    using r b(3) monoD [of rnd "tokens b - 1" "full_bucket rnd r"] by (simp add: rounds_within_def full_bucket_def)
  have spend: "0 \<le> rnd (tokens b - 1)" "rnd (tokens b - 1) + 1 \<le> tokens b + u * full_bucket rnd r" if "1 \<le> tokens b"
  proof -
    have "rnd (tokens b - 1) \<le> tokens b - 1 + u * (tokens b - 1)"
      using rounds_le [OF r, of "tokens b - 1" "tokens b - 1"] that by (simp add: algebra_simps)
    moreover have "u * (tokens b - 1) \<le> u * full_bucket rnd r" using b(3) u by (intro mult_left_mono) auto
    ultimately show "rnd (tokens b - 1) + 1 \<le> tokens b + u * full_bucket rnd r" by linarith
    show "0 \<le> rnd (tokens b - 1)" using rounds_nonneg [OF r] that by simp
  qed
  show "k \<noteq> s \<Longrightarrow> rlBuckets r' k = rlBuckets r k" 
    and "burstSize r' = burstSize r \<and> refillRate r' = refillRate r \<and> staleAfter r' = staleAfter r"
    using step b(1) by (auto simp: take_token_def split: if_splits)
  show "limiter_ok rnd now r'"
    using step ok b le spend(1) by (auto simp: take_token_def limiter_ok_def full_bucket_def split: if_splits)
  have "0 \<le> u * full_bucket rnd r" using b(2,3) u by simp
  then show "capacity u rnd r' s now + (if granted_now then 1 else 0) \<le> tokens b + u * full_bucket rnd r"
    using step b(1,4) u spend(2) by (auto simp: take_token_def capacity_def full_bucket_def speed_def min_def split: if_splits)
qed

definition same_limits :: "RateLimiter \<Rightarrow> RateLimiter \<Rightarrow> bool" where
  "same_limits r r' \<longleftrightarrow> burstSize r' = burstSize r \<and> refillRate r' = refillRate r \<and> staleAfter r' = staleAfter r"

lemma limiter_ok_later: "limiter_ok rnd t r \<Longrightarrow> t \<le> t' \<Longrightarrow> limiter_ok rnd t' r"
  by (fastforce simp: limiter_ok_def)

lemma capacity_later:
  assumes "rounds_within u rnd" and "limiter_ok rnd t r" and "t \<le> t'"
  shows "capacity u rnd r s t' \<le> capacity u rnd r s t + speed u r * of_int (t' - t)"
proof -
  have "0 \<le> speed u r" using assms by (auto simp: speed_def limiter_ok_def rounds_within_def)
  then have "0 \<le> speed u r * of_int (t' - t)" using assms(3) by simp
  then show ?thesis by (auto simp: capacity_def min_def algebra_simps split: option.splits)
qed

lemma stale_is_full:
  assumes "rounds_within u rnd" and "limiter_ok rnd t r" and "refills_before_stale rnd r"
    and "rlBuckets r s = Some b" and "staleAfter r < now - lastSeen b"
  shows "capacity u rnd r s now = full_bucket rnd r"
proof -
  have ok: "0 \<le> refillRate r" "0 \<le> tokens b" "0 \<le> u" using assms by (auto simp: limiter_ok_def rounds_within_def)
  have "(1::real) \<le> (1 + u) ^ 5" using ok(3) by (intro one_le_power) simp
  then have "1 * refillRate r \<le> (1 + u) ^ 5 * refillRate r" using ok(1) by (intro mult_right_mono)
  then have "refillRate r / 10 ^ 9 \<le> speed u r" by (simp add: speed_def)
  moreover have "0 \<le> staleAfter r" using assms(2) by (simp add: limiter_ok_def)
  ultimately have "refillRate r / 10 ^ 9 * of_int (staleAfter r) \<le> speed u r * of_int (now - lastSeen b)"
    using ok(1) assms(5) by (intro mult_mono) auto
  then show ?thesis using assms(3,4) ok(2) by (simp add: capacity_def refills_before_stale_def)
qed

lemma prune_ok: "limiter_ok rnd now r \<Longrightarrow> limiter_ok rnd now (pruneStale now r)"
  by (auto simp: limiter_ok_def pruneStale_def full_bucket_def split: option.splits if_splits)

lemma prune_limits [simp]:
  "burstSize (pruneStale now r) = burstSize r" "refillRate (pruneStale now r) = refillRate r" "staleAfter (pruneStale now r) = staleAfter r"
  by (simp_all add: pruneStale_def)

lemma full_bucket_eq: "same_limits r r' \<Longrightarrow> full_bucket rnd r' = full_bucket rnd r \<and> speed u r' = speed u r"
  by (simp add: same_limits_def full_bucket_def speed_def)

lemma prune_keeps: "rlBuckets (pruneStale now r) k = (case rlBuckets r k of
    Some b \<Rightarrow> if staleAfter r < now - lastSeen b then None else Some b | None \<Rightarrow> None)"
  by (simp add: pruneStale_def)

text \<open>One call: it costs its own session a token, and no other session gains.\<close>

lemma Allow_step:
  assumes r: "rounds_within u rnd" and ok: "limiter_ok rnd now r" and stale: "refills_before_stale rnd r"
    and step: "rl_Allow rnd now k r = (g, r')"
  shows "limiter_ok rnd now r' \<and> same_limits r r' \<and>
    capacity u rnd r' k now + (if g then 1 else 0) \<le> capacity u rnd r k now + 2 * u * full_bucket rnd r \<and>
    (s \<noteq> k \<longrightarrow> capacity u rnd r' s now \<le> capacity u rnd r s now)"
proof (cases "rlBuckets r k")
  case None
  define b where "b = \<lparr>tokens = full_bucket rnd r, lastSeen = now\<rparr>"
  define r1 where "r1 = pruneStale now (r\<lparr>rlBuckets := (rlBuckets r)(k \<mapsto> b)\<rparr>)"
  have full: "0 \<le> full_bucket rnd r" "0 \<le> staleAfter r" "0 \<le> u"
    using ok r rounds_nonneg [OF r, of "of_int (burstSize r)"] by (auto simp: limiter_ok_def full_bucket_def rounds_within_def)
  have st: "take_token rnd k b r1 = (g, r')" using step None by (simp add: rl_Allow_def b_def r1_def full_bucket_def Let_def)
  have same: "same_limits r r1" by (simp add: same_limits_def r1_def)
  note fb = full_bucket_eq [OF same]
  have held: "rlBuckets r1 k = Some b" using full by (simp add: r1_def prune_keeps b_def)
  have "limiter_ok rnd now (r\<lparr>rlBuckets := (rlBuckets r)(k \<mapsto> b)\<rparr>)" using ok full by (auto simp: limiter_ok_def b_def full_bucket_def)
  then have "limiter_ok rnd now r1" unfolding r1_def by (rule prune_ok)
  note tt = take_token_bounds [OF r held _ _ _ this st]
  have tb: "limiter_ok rnd now r'" "capacity u rnd r' k now + (if g then 1 else 0) \<le> full_bucket rnd r + u * full_bucket rnd r"
    "burstSize r' = burstSize r1 \<and> refillRate r' = refillRate r1 \<and> staleAfter r' = staleAfter r1"
    and others: "s \<noteq> k \<Longrightarrow> rlBuckets r' s = rlBuckets r1 s"
    using tt fb full by (auto simp: b_def)
  have lim: "same_limits r r'" using tb(3) same by (simp add: same_limits_def)
  have "capacity u rnd r' s now \<le> capacity u rnd r s now" if "s \<noteq> k"
  proof -
    have e: "rlBuckets r' s = (case rlBuckets r s of Some b \<Rightarrow> if staleAfter r < now - lastSeen b then None else Some b | None \<Rightarrow> None)"
      using others [OF that] that by (cases "rlBuckets r s") (simp_all add: r1_def prune_keeps)
    show ?thesis
    proof (cases "rlBuckets r s")
      case (Some b)
      then show ?thesis
        using stale_is_full [OF r ok stale Some, of now] full_bucket_eq [OF lim] e
        by (cases "staleAfter r < now - lastSeen b") (simp_all add: capacity_def)
    qed (use e full_bucket_eq [OF lim] in \<open>simp add: capacity_def\<close>)
  qed
  moreover have "capacity u rnd r k now = full_bucket rnd r" using None by (simp add: capacity_def)
  moreover have "0 \<le> u * full_bucket rnd r" using full by simp
  ultimately show ?thesis using tb(1,2) lim by linarith
next
  case (Some b)
  define b' where "b' = refill rnd r now b"
  define r1 where "r1 = r\<lparr>rlBuckets := (rlBuckets r)(k \<mapsto> b')\<rparr>"
  have st: "take_token rnd k b' r1 = (g, r')" using step Some by (simp add: rl_Allow_def b'_def r1_def Let_def)
  have same: "same_limits r r1" by (simp add: same_limits_def r1_def)
  note fb = full_bucket_eq [OF same]
  have b': "0 \<le> tokens b'" "tokens b' \<le> full_bucket rnd r" "tokens b' \<le> capacity u rnd r k now + u * full_bucket rnd r" "lastSeen b' = now"
    using refill_bounds [OF r ok Some order_refl] by (auto simp: b'_def refill_def Let_def)
  have "limiter_ok rnd now r1" using ok b' by (auto simp: limiter_ok_def r1_def full_bucket_def)
  note tt = take_token_bounds [OF r _ b'(1) _ b'(4) this st]
  have tb: "limiter_ok rnd now r'" "capacity u rnd r' k now + (if g then 1 else 0) \<le> tokens b' + u * full_bucket rnd r"
    "burstSize r' = burstSize r1 \<and> refillRate r' = refillRate r1 \<and> staleAfter r' = staleAfter r1"
    and others: "s \<noteq> k \<Longrightarrow> rlBuckets r' s = rlBuckets r1 s"
    using tt fb b' by (auto simp: r1_def)
  have lim: "same_limits r r'" using tb(3) same by (simp add: same_limits_def)
  have "capacity u rnd r' s now \<le> capacity u rnd r s now" if "s \<noteq> k"
    using full_bucket_eq [OF lim] others [OF that] that by (cases "rlBuckets r s") (simp_all add: capacity_def r1_def)
  then show ?thesis using tb(1,2) lim b'(3) by auto
qed

lemma granted_Cons: "granted s ((now, k) # cs) (ok # oks) = (if k = s \<and> ok then 1 else 0) + granted s cs oks"
  by (simp add: granted_def)

lemma calls_of_Cons: "calls_of s ((now, k) # cs) = (if k = s then 1 else 0) + calls_of s cs"
  by (simp add: calls_of_def)

lemma serve_bound:
  assumes "rounds_within u rnd" and "limiter_ok rnd t0 r" and "refills_before_stale rnd r" and "sorted (t0 # map fst cs @ [t1])"
    and "serve_calls rnd cs r = (oks, r')"
  shows "limiter_ok rnd t1 r' \<and> same_limits r r' \<and> real (granted s cs oks) + capacity u rnd r' s t1 \<le>
    capacity u rnd r s t0 + speed u r * of_int (t1 - t0) + 2 * u * full_bucket rnd r * real (calls_of s cs)"
  using assms(2-)
proof (induction cs arbitrary: t0 r oks)
  case Nil
  then show ?case
    using limiter_ok_later capacity_later [OF assms(1)] by (auto simp: granted_def calls_of_def same_limits_def)
next
  case (Cons c cs)
  obtain now k where c: "c = (now, k)" by fastforce
  obtain g r1 oks1 where st: "rl_Allow rnd now k r = (g, r1)" "serve_calls rnd cs r1 = (oks1, r')" "oks = g # oks1"
    using Cons.prems(4) by (auto simp: c Let_def split: prod.splits)
  have ord: "t0 \<le> now" "sorted (now # map fst cs @ [t1])" using Cons.prems(3) by (auto simp: c)
  have okn: "limiter_ok rnd now r" using limiter_ok_later [OF Cons.prems(1) ord(1)] .
  note one = Allow_step [OF assms(1) okn Cons.prems(2) st(1)]
  have s1: "limiter_ok rnd now r1" "same_limits r r1" using one by auto
  note fb = full_bucket_eq [OF s1(2)]
  have "refills_before_stale rnd r1" using Cons.prems(2) s1(2) fb [of rnd] by (simp add: refills_before_stale_def same_limits_def)
  note ih = Cons.IH [OF s1(1) this ord(2) st(2)]
  have cap: "capacity u rnd r1 s now + (if k = s \<and> g then 1 else 0) \<le> capacity u rnd r s now + 2 * u * full_bucket rnd r * (if k = s then 1 else 0)"
    using one [of s] by (cases "k = s") auto
  have "speed u r * of_int (now - t0) + speed u r * of_int (t1 - now) = speed u r * of_int (t1 - t0)"
    by (simp add: algebra_simps)
  moreover have "2 * u * full_bucket rnd r * real (calls_of s (c # cs)) =
      2 * u * full_bucket rnd r * (if k = s then 1 else 0) + 2 * u * full_bucket rnd r * real (calls_of s cs)"
    by (simp add: c calls_of_Cons algebra_simps)
  moreover have "real (granted s (c # cs) oks) = (if k = s \<and> g then 1 else 0) + real (granted s cs oks1)"
    by (simp add: c st(3) granted_Cons)
  ultimately show ?case
    using ih cap capacity_later [OF assms(1) Cons.prems(1) ord(1), of s] fb s1(2) by (auto simp: same_limits_def)
qed

lemma capacity_bounds:
  assumes "rounds_within u rnd" and "limiter_ok rnd now r"
  shows "0 \<le> capacity u rnd r s now \<and> capacity u rnd r s now \<le> full_bucket rnd r"
proof -
  have "0 \<le> full_bucket rnd r" "0 \<le> speed u r"
    using assms rounds_nonneg [OF assms(1), of "of_int (burstSize r)"] by (auto simp: limiter_ok_def full_bucket_def speed_def rounds_within_def)
  moreover have "0 \<le> speed u r * of_int (now - lastSeen b)" if "rlBuckets r s = Some b" for b
    using assms(2) that \<open>0 \<le> speed u r\<close> by (auto simp: limiter_ok_def intro!: mult_nonneg_nonneg)
  ultimately show ?thesis using assms(2) by (auto simp: capacity_def limiter_ok_def min_def split: option.splits)
qed

lemma new_limiter_ok: "0 \<le> burst \<Longrightarrow> 0 \<le> rate \<Longrightarrow> limiter_ok rnd t (NewRateLimiter burst rate)"
  by (simp add: limiter_ok_def NewRateLimiter_def)


definition demo_calls :: "(gotime \<times> string) list" where
  "demo_calls = [(0, ''a''), (0, ''a''), (10 ^ 9, ''a'')]"

lemma demo_served:
  "\<exists>r'. serve_calls id demo_calls (NewRateLimiter 2 1) = ([True, True, True], r')"
  by (simp add: demo_calls_def NewRateLimiter_def rl_Allow_def take_token_def pruneStale_def refill_def Seconds_def Let_def signed_divide_int_def signed_modulo_int_def)


text \<open>The hypothesis on the rate is needed: a bucket that refills more slowly is dropped while it is not full, and its
  session starts again with a full one as soon as a call of another session has pruned it.\<close>

lemma pruning_resets_bucket:
  "\<exists>r'. serve_calls id [(301 * 10 ^ 9, ''b''), (301 * 10 ^ 9, ''a'')]
      (NewRateLimiter 1000 1\<lparr>rlBuckets := [''a'' \<mapsto> \<lparr>tokens = 0, lastSeen = 0\<rparr>]\<rparr>) = ([True, True], r') \<and>
    rlBuckets r' ''a'' = Some \<lparr>tokens = 999, lastSeen = 301 * 10 ^ 9\<rparr>"
  by (simp add: NewRateLimiter_def rl_Allow_def take_token_def pruneStale_def Let_def)

end
