(* ===== verification/PidLock.thy ===== *)
theory PidLock
  imports Prelude
begin

text \<open>
  The PID lock, \<^verbatim>\<open>internal/daemon/pidlock.go\<close>, which is to keep a second daemon from starting.  The operations are
  modelled call by call, since other processes may run between two system calls: opening the file, which creates
  it when it is missing, taking the advisory lock on the opened file, releasing the lock, and removing the
  path.  A lock belongs to a file (an inode), not to its path.
\<close>

section \<open>Files and processes\<close>

text \<open>A process has not started, has opened a file, holds its lock, has failed, or has released the lock and not yet removed
  the path.\<close>

datatype proc = Started | Opened nat | Holding nat | Refused | Releasing nat | Done

record LockState =
  lsPath :: "nat option"
  lsNext :: nat
  lsLock :: "nat \<Rightarrow> nat option"
  lsContent :: "nat \<Rightarrow> nat option"
  lsProc :: "nat \<Rightarrow> proc"

definition set_proc :: "nat \<Rightarrow> proc \<Rightarrow> LockState \<Rightarrow> LockState" where
  "set_proc p x s = s\<lparr>lsProc := (lsProc s)(p := x)\<rparr>"

text \<open>\<^verbatim>\<open>os.OpenFile\<close> with \<^verbatim>\<open>O_CREATE\<close>.\<close>

definition acquire_open :: "nat \<Rightarrow> LockState \<Rightarrow> LockState" where
  "acquire_open p s = (case lsPath s of
     Some i \<Rightarrow> set_proc p (Opened i) s
   | None \<Rightarrow> set_proc p (Opened (lsNext s)) (s\<lparr>lsPath := Some (lsNext s), lsNext := lsNext s + 1\<rparr>))"

text \<open>\<^verbatim>\<open>syscall.Flock\<close>, exclusive and non-blocking, and writing the PID; \<^verbatim>\<open>writeFails\<close> says that one of the calls that write it
  fails, and then closing the file releases the lock.\<close>

definition acquire_lock :: "bool \<Rightarrow> nat \<Rightarrow> LockState \<Rightarrow> LockState" where
  "acquire_lock writeFails p s = (case lsProc s p of
     Opened i \<Rightarrow>
      (if lsLock s i \<noteq> None then set_proc p Refused s
       else if writeFails then set_proc p Refused s
       else set_proc p (Holding i) (s\<lparr>lsLock := (lsLock s)(i := Some p), lsContent := (lsContent s)(i := Some p)\<rparr>))
   | _ \<Rightarrow> s)"

text \<open>\<^verbatim>\<open>Unlock\<close>: the lock is released and the file closed, then the path is removed.\<close>

definition unlock_release :: "nat \<Rightarrow> LockState \<Rightarrow> LockState" where
  "unlock_release p s = (case lsProc s p of
     Holding i \<Rightarrow> set_proc p (Releasing i) (s\<lparr>lsLock := (lsLock s)(i := None)\<rparr>)
   | _ \<Rightarrow> s)"

definition unlock_remove :: "nat \<Rightarrow> LockState \<Rightarrow> LockState" where
  "unlock_remove p s = (case lsProc s p of
     Releasing i \<Rightarrow> set_proc p Done (s\<lparr>lsPath := None\<rparr>)
   | _ \<Rightarrow> s)"

text \<open>A killed process: the kernel releases its lock, the file stays.\<close>

definition crash :: "nat \<Rightarrow> LockState \<Rightarrow> LockState" where
  "crash p s = (case lsProc s p of
     Holding i \<Rightarrow> set_proc p Done (s\<lparr>lsLock := (lsLock s)(i := None)\<rparr>)
   | _ \<Rightarrow> s)"

inductive lock_step :: "LockState \<Rightarrow> LockState \<Rightarrow> bool" where
  ls_open: "lsProc s p = Started \<Longrightarrow> lock_step s (acquire_open p s)"
| ls_lock: "lock_step s (acquire_lock f p s)"
| ls_release: "lock_step s (unlock_release p s)"
| ls_remove: "lock_step s (unlock_remove p s)"
| ls_crash: "lock_step s (crash p s)"

inductive_cases lock_stepE: "lock_step s t"

definition fresh_locks :: LockState where
  "fresh_locks = \<lparr>lsPath = None, lsNext = 0, lsLock = (\<lambda>_. None), lsContent = (\<lambda>_. None), lsProc = (\<lambda>_. Started)\<rparr>"

section \<open>The invariant\<close>

text \<open>The lock of a file is held by exactly the process that believes so, and open files are existing ones.\<close>

definition lock_ok :: "LockState \<Rightarrow> bool" where
  "lock_ok s \<longleftrightarrow>
    (\<forall>i p. lsLock s i = Some p \<longleftrightarrow> lsProc s p = Holding i) \<and>
    (\<forall>p i. lsProc s p = Opened i \<or> lsProc s p = Holding i \<longrightarrow> i < lsNext s) \<and>
    (\<forall>i. lsPath s = Some i \<longrightarrow> i < lsNext s)"

lemma lock_okI:
  assumes "\<And>i p. lsLock s i = Some p \<longleftrightarrow> lsProc s p = Holding i"
    and "\<And>p i. lsProc s p = Opened i \<or> lsProc s p = Holding i \<Longrightarrow> i < lsNext s" and "\<And>i. lsPath s = Some i \<Longrightarrow> i < lsNext s"
  shows "lock_ok s"
  using assms by (simp add: lock_ok_def)

lemma lock_okD:
  assumes "lock_ok s"
  shows "lsLock s i = Some p \<longleftrightarrow> lsProc s p = Holding i"
    "lsProc s p = Opened i \<or> lsProc s p = Holding i \<Longrightarrow> i < lsNext s" "lsPath s = Some i \<Longrightarrow> i < lsNext s"
  using assms unfolding lock_ok_def by blast+

lemma lock_ok_fresh: "lock_ok fresh_locks"
  by (simp add: lock_ok_def fresh_locks_def)

text \<open>A process that neither holds nor takes a lock may change its state.\<close>

lemma lock_ok_set:
  assumes "lock_ok s" and "\<forall>i. lsProc s p \<noteq> Holding i" and "\<forall>i. x \<noteq> Holding i" and "\<forall>i. x = Opened i \<longrightarrow> i < lsNext s"
  shows "lock_ok (set_proc p x s)"
proof (rule lock_okI)
  show "lsLock (set_proc p x s) i = Some q \<longleftrightarrow> lsProc (set_proc p x s) q = Holding i" for i q
    using assms(2,3) lock_okD(1) [OF assms(1), of i q] by (cases "q = p") (auto simp: set_proc_def)
  show "i < lsNext (set_proc p x s)" if "lsProc (set_proc p x s) q = Opened i \<or> lsProc (set_proc p x s) q = Holding i" for q i
    using that assms(3,4) lock_okD(2) [OF assms(1), of q i] by (cases "q = p") (auto simp: set_proc_def)
  show "i < lsNext (set_proc p x s)" if "lsPath (set_proc p x s) = Some i" for i
    using that lock_okD(3) [OF assms(1), of i] by (simp add: set_proc_def)
qed

lemma lock_ok_drop:
  assumes "lock_ok s" and "lsProc s p = Holding i" and "x = Done \<or> x = Releasing i"
  shows "lock_ok (set_proc p x (s\<lparr>lsLock := (lsLock s)(i := None)\<rparr>))" (is "lock_ok ?t")
proof (rule lock_okI)
  have i: "lsLock s i = Some p" using assms(2) lock_okD(1) [OF assms(1)] by simp
  show "lsLock ?t j = Some q \<longleftrightarrow> lsProc ?t q = Holding j" for j q
    using assms(2,3) i lock_okD(1) [OF assms(1), of j q] by (cases "q = p"; cases "j = i") (auto simp: set_proc_def)
  show "j < lsNext ?t" if "lsProc ?t q = Opened j \<or> lsProc ?t q = Holding j" for q j
    using that assms(3) lock_okD(2) [OF assms(1), of q j] by (cases "q = p") (auto simp: set_proc_def)
  show "j < lsNext ?t" if "lsPath ?t = Some j" for j
    using that lock_okD(3) [OF assms(1), of j] by (simp add: set_proc_def)
qed

lemma lock_ok_path: "lock_ok s \<Longrightarrow> lock_ok (s\<lparr>lsPath := None\<rparr>)"
  by (simp add: lock_ok_def)

lemma lock_ok_create:
  assumes "lock_ok s"
  shows "lock_ok (s\<lparr>lsPath := Some (lsNext s), lsNext := lsNext s + 1\<rparr>)"
  by (rule lock_okI) (use lock_okD(1) [OF assms] lock_okD(2) [OF assms] in \<open>auto simp: less_Suc_eq\<close>)

lemma lock_ok_open:
  assumes "lock_ok s" and "lsProc s p = Started"
  shows "lock_ok (acquire_open p s)"
proof (cases "lsPath s")
  case None
  then show ?thesis using assms lock_ok_set [OF lock_ok_create [OF assms(1)], of p "Opened (lsNext s)"] by (simp add: acquire_open_def)
next
  case (Some i)
  then show ?thesis using assms lock_okD(3) [OF assms(1) Some] by (simp add: acquire_open_def lock_ok_set)
qed

lemma lock_ok_take:
  assumes "lock_ok s" and "lsProc s p = Opened i" and "lsLock s i = None"
  shows "lock_ok (set_proc p (Holding i) (s\<lparr>lsLock := (lsLock s)(i := Some p), lsContent := c\<rparr>))" (is "lock_ok ?t")
proof (rule lock_okI)
  show "lsLock ?t j = Some q \<longleftrightarrow> lsProc ?t q = Holding j" for j q
    using assms(2,3) lock_okD(1) [OF assms(1), of j q] by (cases "q = p"; cases "j = i") (auto simp: set_proc_def)
  show "j < lsNext ?t" if "lsProc ?t q = Opened j \<or> lsProc ?t q = Holding j" for q j
    using that assms(2) lock_okD(2) [OF assms(1), of q j] by (cases "q = p") (auto simp: set_proc_def)
  show "j < lsNext ?t" if "lsPath ?t = Some j" for j
    using that lock_okD(3) [OF assms(1), of j] by (simp add: set_proc_def)
qed

lemma lock_ok_lock: "lock_ok s \<Longrightarrow> lock_ok (acquire_lock f p s)"
  by (simp add: acquire_lock_def lock_ok_set lock_ok_take split: proc.split)

lemma lock_ok_release: "lock_ok s \<Longrightarrow> lock_ok (unlock_release p s)" "lock_ok s \<Longrightarrow> lock_ok (crash p s)"
  by (simp_all add: unlock_release_def crash_def lock_ok_drop split: proc.split)

lemma lock_ok_remove: "lock_ok s \<Longrightarrow> lock_ok (unlock_remove p s)"
  by (simp add: unlock_remove_def lock_ok_set lock_ok_path split: proc.split)

lemma lock_ok_reach: "lock_step\<^sup>*\<^sup>* fresh_locks s \<Longrightarrow> lock_ok s"
proof (induction rule: rtranclp_induct)
  case (step y z)
  from step.hyps(2) show ?case
    by cases (use step.IH in \<open>simp_all add: lock_ok_open lock_ok_lock lock_ok_release lock_ok_remove\<close>)
qed (rule lock_ok_fresh)

text \<open>While nobody removes the path there is one file.\<close>

definition one_file :: "LockState \<Rightarrow> bool" where
  "one_file s \<longleftrightarrow> (\<forall>p i. lsProc s p = Opened i \<or> lsProc s p = Holding i \<longrightarrow> lsPath s = Some i)"

inductive lock_step_kept :: "LockState \<Rightarrow> LockState \<Rightarrow> bool" where
  "lock_step s t \<Longrightarrow> lsPath s = None \<or> lsPath t = lsPath s \<Longrightarrow> lock_step_kept s t"

lemma one_fileD: "one_file s \<Longrightarrow> lsProc s p = Opened i \<or> lsProc s p = Holding i \<Longrightarrow> lsPath s = Some i"
  unfolding one_file_def by blast

lemma one_file_set:
  assumes "one_file s" and "\<And>i. x = Opened i \<or> x = Holding i \<Longrightarrow> lsPath s = Some i"
  shows "one_file (set_proc p x s)"
  unfolding one_file_def
proof (intro allI impI)
  fix q i assume h: "lsProc (set_proc p x s) q = Opened i \<or> lsProc (set_proc p x s) q = Holding i"
  show "lsPath (set_proc p x s) = Some i"
    using h assms(2) [of i] one_fileD [OF assms(1), of q i] by (cases "q = p") (simp_all add: set_proc_def)
qed

lemma one_file_away: "one_file s \<Longrightarrow> x \<in> {Refused, Releasing k, Done} \<Longrightarrow> one_file (set_proc p x s)"
  by (rule one_file_set) auto

lemma one_file_at: "one_file s \<Longrightarrow> lsPath s = Some k \<Longrightarrow> x \<in> {Opened k, Holding k} \<Longrightarrow> one_file (set_proc p x s)"
  by (rule one_file_set) auto

lemma one_file_locks:
  "one_file s \<Longrightarrow> one_file (s\<lparr>lsLock := l, lsContent := c\<rparr>)" "one_file s \<Longrightarrow> one_file (s\<lparr>lsLock := l\<rparr>)"
  unfolding one_file_def by simp_all

lemma one_file_open: "one_file s \<Longrightarrow> one_file (acquire_open p s)"
proof (cases "lsPath s")
  case None
  let ?t = "s\<lparr>lsPath := Some (lsNext s), lsNext := lsNext s + 1\<rparr>"
  assume "one_file s"
  then have "one_file ?t" using None unfolding one_file_def by simp
  then have "one_file (set_proc p (Opened (lsNext s)) ?t)" by (rule one_file_at [where k = "lsNext s"]) simp_all
  then show ?thesis using None by (simp add: acquire_open_def)
next
  case (Some i)
  assume "one_file s"
  then have "one_file (set_proc p (Opened i) s)" by (rule one_file_at [OF _ Some]) simp
  then show ?thesis using Some by (simp add: acquire_open_def)
qed

lemma one_file_lock:
  assumes "one_file s"
  shows "one_file (acquire_lock f p s)"
proof (cases "lsProc s p")
  case (Opened i)
  then have i: "lsPath s = Some i" by (intro one_fileD [OF assms, of p]) simp
  have "one_file (set_proc p Refused s)" by (rule one_file_away [OF assms]) simp
  moreover have "one_file (set_proc p (Holding i) (s\<lparr>lsLock := l, lsContent := c\<rparr>))" for l c
    by (rule one_file_at [OF one_file_locks(1) [OF assms], where k = i]) (simp_all add: i)
  ultimately show ?thesis using Opened by (simp add: acquire_lock_def)
qed (use assms in \<open>simp_all add: acquire_lock_def\<close>)

lemma one_file_release:
  assumes "one_file s"
  shows "one_file (unlock_release p s)" and "one_file (crash p s)"
proof -
  have "one_file (set_proc p x (s\<lparr>lsLock := l\<rparr>))" if "x \<in> {Releasing k, Done}" for x k l
    using that one_file_away [OF one_file_locks(2) [OF assms]] by blast
  then show "one_file (unlock_release p s)" and "one_file (crash p s)"
    using assms by (cases "lsProc s p"; simp add: unlock_release_def crash_def)+
qed

text \<open>Removing the path is the one operation that breaks it, unless the path is already gone.\<close>

lemma one_file_remove:
  assumes "one_file s" and "lsPath s = None \<or> lsPath (unlock_remove p s) = lsPath s"
  shows "one_file (unlock_remove p s)"
proof (cases "lsProc s p")
  case (Releasing i)
  with assms(2) have "lsPath s = None" by (auto simp: unlock_remove_def set_proc_def)
  then have "s\<lparr>lsPath := None\<rparr> = s" by simp
  then show ?thesis using Releasing one_file_away [OF assms(1), of Done] by (simp add: unlock_remove_def)
qed (use assms(1) in \<open>simp_all add: unlock_remove_def\<close>)

lemma one_file_step: "lock_step_kept s t \<Longrightarrow> one_file s \<Longrightarrow> one_file t"
proof (induction rule: lock_step_kept.induct)
  case (1 s t)
  from 1(1) show ?case
    by cases (use 1(2,3) in \<open>simp_all add: one_file_open one_file_lock one_file_release one_file_remove\<close>)
qed

lemma kept_reach: "lock_step_kept\<^sup>*\<^sup>* s t \<Longrightarrow> lock_step\<^sup>*\<^sup>* s t"
  by (induction rule: rtranclp_induct) (auto elim: lock_step_kept.cases intro: rtranclp.rtrancl_into_rtrancl)

text \<open>Claim C26. The lock excludes a second daemon as long as its file is not removed: in every run, with any number of
  processes that start, are refused, stop or are killed at any moment, in which no step takes the file away, at
  most one process holds the lock.\<close>

theorem pid_lock_excludes:
  assumes "lock_step_kept\<^sup>*\<^sup>* fresh_locks s" and "lsProc s p = Holding i" and "lsProc s q = Holding j"
  shows "p = q \<and> i = j"
proof -
  have ok: "lock_ok s" by (rule lock_ok_reach [OF kept_reach [OF assms(1)]])
  have "one_file fresh_locks" by (simp add: one_file_def fresh_locks_def)
  with assms(1) have "one_file s" by (induction rule: rtranclp_induct) (auto intro: one_file_step)
  then have "lsPath s = Some i" "lsPath s = Some j" using assms(2,3) unfolding one_file_def by blast+
  then show ?thesis using lock_okD(1) [OF ok, of i p] lock_okD(1) [OF ok, of j q] assms(2,3) by simp
qed

lemma started_lock:
  assumes "lsPath s = None" and "lsProc s p = Started" and "lsLock s (lsNext s) = None"
  shows "lsProc (acquire_lock False p (acquire_open p s)) p = Holding (lsNext s)"
  using assms by (simp add: acquire_open_def acquire_lock_def set_proc_def)

theorem pid_lock_excludes_witness:
  "\<exists>s. lock_step_kept\<^sup>*\<^sup>* fresh_locks s \<and> lsProc s 1 = Holding 0 \<and> (\<forall>q j. lsProc s q = Holding j \<longrightarrow> q = 1 \<and> j = 0)"
proof -
  let ?s1 = "acquire_open 1 fresh_locks" and ?s2 = "acquire_lock False 1 (acquire_open 1 fresh_locks)"
  have "lock_step fresh_locks ?s1" by (rule ls_open) (simp add: fresh_locks_def)
  then have "lock_step_kept fresh_locks ?s1" by (rule lock_step_kept.intros) (simp add: fresh_locks_def)
  moreover have "lock_step_kept ?s1 ?s2"
    by (rule lock_step_kept.intros [OF ls_lock]) (simp add: fresh_locks_def acquire_open_def acquire_lock_def set_proc_def)
  ultimately have r: "lock_step_kept\<^sup>*\<^sup>* fresh_locks ?s2" by (meson r_into_rtranclp rtranclp_trans)
  have h: "lsProc ?s2 1 = Holding 0" using started_lock [of fresh_locks 1] by (simp add: fresh_locks_def)
  have "\<forall>q j. lsProc ?s2 q = Holding j \<longrightarrow> q = 1 \<and> j = 0" using pid_lock_excludes [OF r h] by fastforce
  with r h show ?thesis by blast
qed

text \<open>Stopping a daemon can let two daemons start.  Between releasing the lock and removing the path a second
  process can take the lock of the file; the removal then takes the path away, and a third process creates and
  locks a new file while the second still holds its lock.\<close>

theorem stopping_lets_two_start:
  "\<exists>s. lock_step\<^sup>*\<^sup>* fresh_locks s \<and> lsProc s 2 = Holding 0 \<and> lsProc s 3 = Holding 1"
proof -
  let ?s2 = "acquire_lock False 1 (acquire_open 1 fresh_locks)"
  let ?s3 = "unlock_release 1 (acquire_open 2 ?s2)"
  let ?s4 = "unlock_remove 1 (acquire_lock False 2 ?s3)"
  let ?s6 = "acquire_lock False 3 (acquire_open 3 ?s4)"
  note defs = fresh_locks_def acquire_open_def acquire_lock_def unlock_release_def unlock_remove_def set_proc_def
  have step: "lock_step\<^sup>*\<^sup>* s t" if "lock_step s t" for s t using that by (rule r_into_rtranclp)
  have open_lock: "lock_step\<^sup>*\<^sup>* s (acquire_lock False p (acquire_open p s))" if "lsProc s p = Started" for p s
    by (rule rtranclp_trans [OF step [OF ls_open [OF that]] step]) (rule ls_lock)
  have "lock_step\<^sup>*\<^sup>* fresh_locks ?s2" by (rule open_lock) (simp add: fresh_locks_def)
  moreover have "lsProc ?s2 2 = Started" by (simp add: defs)
  then have "lock_step\<^sup>*\<^sup>* ?s2 (acquire_open 2 ?s2)" by (intro step ls_open)
  moreover have "lock_step\<^sup>*\<^sup>* (acquire_open 2 ?s2) ?s3" by (rule step) (rule ls_release)
  moreover have "lock_step\<^sup>*\<^sup>* ?s3 (acquire_lock False 2 ?s3)" by (rule step) (rule ls_lock)
  moreover have "lock_step\<^sup>*\<^sup>* (acquire_lock False 2 ?s3) ?s4" by (rule step) (rule ls_remove)
  moreover have "lock_step\<^sup>*\<^sup>* ?s4 ?s6" by (rule open_lock) (simp add: defs)
  ultimately have "lock_step\<^sup>*\<^sup>* fresh_locks ?s6" by (meson rtranclp_trans)
  moreover have "lsProc ?s6 2 = Holding 0" "lsProc ?s6 3 = Holding 1" by (simp_all add: defs)
  ultimately show ?thesis by blast
qed

end
