(* ===== verification/EngineConfine.thy ===== *)
theory EngineConfine
  imports EngineSpawn
begin

text \<open>
  Where session labels can be.  The engine compares the label of a resource with the session before it
  raises the session to it, so that the elevation on the allow path never changes anything: from an empty
  registry the only labels that arise are zero and the taint bit, and a resource with any other label is
  never allowed.
\<close>

section \<open>The invariant\<close>

lemma and_one_bit: "(c :: u32) AND push_bit n 1 = 0 \<or> c AND push_bit n 1 = push_bit n 1"
  by (cases "bit c n") (auto simp: bit_simps simp del: push_bit_of_1 intro!: bit_eqI)

definition taintLabel :: SecurityLabel where
  "taintLabel = zeroLabel\<lparr>Category := TaintBit\<rparr>"

definition confined :: "'prog engineState \<Rightarrow> bool" where
  "confined st \<longleftrightarrow> (\<forall>sid. sessionLabelOf st sid \<in> {zeroLabel, taintLabel})"

lemma Current_TaintWithSecret:
  "Current (fst (TaintWithSecret s x)) sid = (if sid = x then elevateLabel (Current s sid) taintLabel else Current s sid)"
  by (simp add: TaintWithSecret_def Current_Elevate taintLabel_def)

lemma elevate_taint: "l \<in> {zeroLabel, taintLabel} \<Longrightarrow> elevateLabel l taintLabel = taintLabel"
  by (auto simp: taintLabel_def label_eq_iff)

lemma Current_other [simp]:
  "Current (SetProjectRoot s x root) sid = Current s sid" "Current (AddStandingRule s x rule) sid = Current s sid"
  "Current (SetApprovalState s x a) sid = Current s sid" "Current (PruneExpiredRules now s) sid = Current s sid"
  by (simp_all add: SetProjectRoot_def AddStandingRule_def SetApprovalState_def Current_get session_simps Let_def)

lemma label_on_sessions:
  "sessionLabelOf (on_sessions f st) sid = (case esSessions st of None \<Rightarrow> zeroLabel | Some s \<Rightarrow> Current (f s) sid)"
  by (simp add: sessionLabelOf_def on_sessions_def split: option.splits)

lemma label_upd [simp]:
  "sessionLabelOf (st\<lparr>esHistory := h\<rparr>) = sessionLabelOf st" "sessionLabelOf (st\<lparr>esSpawns := m\<rparr>) = sessionLabelOf st"
  by (simp_all add: sessionLabelOf_def fun_eq_iff)

lemma confined_upd [simp]:
  "confined (st\<lparr>esHistory := h\<rparr>) = confined st" "confined (st\<lparr>esSpawns := m\<rparr>) = confined st"
  by (simp_all add: confined_def)

definition reg_confined :: "SessionLabels \<Rightarrow> bool" where
  "reg_confined s \<longleftrightarrow> (\<forall>sid. Current s sid \<in> {zeroLabel, taintLabel})"

lemma reg_confined_taint: "reg_confined s \<Longrightarrow> reg_confined (fst (TaintWithSecret s x))"
  unfolding reg_confined_def Current_TaintWithSecret by (simp add: elevate_taint)

lemma reg_confined_propagate: "reg_confined s \<Longrightarrow> reg_confined (propagateParentState c p s)"
  using reg_confined_taint [of s c] by (simp add: propagateParentState_def Let_def reg_confined_def)

lemma confined_iff: "confined st \<longleftrightarrow> (case esSessions st of None \<Rightarrow> True | Some s \<Rightarrow> reg_confined s)"
  by (simp add: confined_def sessionLabelOf_def reg_confined_def split: option.split)

lemma confined_on_sessions:
  "(\<And>s. reg_confined s \<Longrightarrow> reg_confined (f s)) \<Longrightarrow> confined st \<Longrightarrow> confined (on_sessions f st)"
  by (simp add: confined_iff on_sessions_def split: option.splits)

lemma confined_same: "(\<And>s sid. Current (f s) sid = Current s sid) \<Longrightarrow> confined st \<Longrightarrow> confined (on_sessions f st)"
  by (rule confined_on_sessions) (simp_all add: reg_confined_def)

lemmas confined_taint = confined_on_sessions [OF reg_confined_taint]
lemmas confined_propagate = confined_on_sessions [OF reg_confined_propagate]

lemma confined_validate: "confined st \<Longrightarrow> confined (validateAndPropagateTaint now c tok st)"
  by (auto simp: validateAndPropagateTaint_def Let_def confined_propagate split: option.splits)

lemma confined_session_stage: "confined st \<Longrightarrow> confined (fst (session_stage inp req st))"
  by (auto simp: session_stage_def Let_def confined_same confined_validate)

lemma confined_maybeTaint: "confined st \<Longrightarrow> confined (maybeTaint now sid l p st)"
  by (auto simp: maybeTaint_def Let_def confined_taint)

lemma confined_scan: "confined st \<Longrightarrow> confined (fst (scan_stage env inp req ctx st))"
  by (auto simp: scan_stage_def Let_def case_prod_unfold confined_taint)

text \<open>The late elevation changes no label: the session already dominates the resource.\<close>

lemma elevate_allowed_same:
  assumes "Dominates (sessionLabelOf st (SessionID req)) (ecResourceLabel ctx)"
  shows "sessionLabelOf (elevate_allowed req ctx st) = sessionLabelOf st"
proof (cases "esSessions st")
  case (Some s)
  then have "elevateLabel (Current s (SessionID req)) (ecResourceLabel ctx) = Current s (SessionID req)"
    using assms by (simp add: sessionLabelOf_def hwm.elev_absorb)
  then show ?thesis using Some
    by (auto simp: elevate_allowed_def on_sessions_def sessionLabelOf_def Current_Elevate fun_eq_iff)
qed (simp add: elevate_allowed_def on_sessions_def sessionLabelOf_def fun_eq_iff)

lemma confined_allow:
  assumes "passes (pipeline env inp snap req ctx) s t" "confined t"
  shows "confined (fst (allow_stage inp req ctx t))"
proof -
  have "Dominates (sessionLabelOf t (SessionID req)) (ecResourceLabel ctx)"
    using assms(1) by (auto simp: passes_pipeline ifc_stage_def Let_def split: if_splits)
  then have "confined (elevate_allowed req ctx t)" using assms(2) by (simp add: confined_def elevate_allowed_same)
  then show ?thesis
    by (auto simp: allow_stage_def Let_def generateSpawnToken_def storeSpawnToken_def split: option.splits)
qed

interpretation engine_labels: stage_invariant "pipeline env inp snap req ctx" "allow_stage inp req ctx"
    "confined :: 'prog engineState \<Rightarrow> bool"
  for env :: "('ast, 'prog) EngineEnv" and inp snap req ctx
proof
  fix f :: "'prog stage" and s :: "'prog engineState"
  assume "f \<in> set (pipeline env inp snap req ctx)" "confined s"
  then show "confined (fst (f s))"
    by (auto simp: pipeline_def confined_session_stage confined_scan taint_stage_def confined_maybeTaint)
qed (rule confined_allow)

lemma confined_Evaluate: "confined st \<Longrightarrow> confined (fst (Evaluate env inp req st))"
  by (simp add: Evaluate_def evaluateWithSnapshot_def Let_def engine_labels.run_inv split: option.splits)

lemma confined_Reload: "confined st \<Longrightarrow> confined (fst (Reload env now b st))"
  by (auto simp: Reload_def Let_def confined_def sessionLabelOf_def split: sum.splits prod.splits)

text \<open>What a confined session may reach.\<close>

lemma confined_allows:
  assumes "confined st" and "esSnapshot st = Some snap" and "resp_action (snd (Evaluate env inp req st)) = ActionAllow"
  shows "Confidentiality (ecResourceLabel (prepare_context env snap req)) = 0 \<and>
         Integrity (ecResourceLabel (prepare_context env snap req)) = 0 \<and>
         Category (ecResourceLabel (prepare_context env snap req)) \<in> {0, TaintBit}"
proof -
  let ?ctx = "prepare_context env snap req"
  let ?d = "decided_state inp req ?ctx st"
  have "confined ?d" using assms(1)
    by (simp add: decided_state_def taint_stage_def confined_maybeTaint confined_session_stage)
  then have l: "sessionLabelOf ?d (SessionID req) \<in> {zeroLabel, taintLabel}" by (simp add: confined_def)
  obtain snap' where "esSnapshot st = Some snap'"
      and p: "passes (pipeline env inp snap' req (prepare_context env snap' req)) st (decided_state inp req (prepare_context env snap' req) st)"
    by (rule Evaluate_allowed [OF assms(3)])
  then have "snap' = snap" using assms(2) by simp
  with p have "Dominates (sessionLabelOf ?d (SessionID req)) (ecResourceLabel ?ctx)"
    by (auto simp: passes_pipeline ifc_stage_def Let_def split: if_splits)
  with l have d: "Dominates taintLabel (ecResourceLabel ?ctx)"
    using hwm.dom_bot hwm.dom_trans by (metis insert_iff singletonD)
  then have "Category (ecResourceLabel ?ctx) AND TaintBit = Category (ecResourceLabel ?ctx)"
    by (simp add: Dominates_def taintLabel_def and.commute)
  moreover have "c AND TaintBit = 0 \<or> c AND TaintBit = TaintBit" for c :: u32
    using and_one_bit [of c 31] by (simp add: TaintBit_def)
  ultimately have "Category (ecResourceLabel ?ctx) \<in> {0, TaintBit}" by (metis insert_iff)
  then show ?thesis using d by (simp add: Dominates_def taintLabel_def)
qed

end
