(* ===== verification/AuditLog.thy ===== *)
theory AuditLog
  imports Types Bytes "HOL-Library.Sublist"
begin

text \<open>
  The audit log of \<^verbatim>\<open>internal/audit/audit.go\<close>: hash-chained rows, written in batches by one goroutine from a
  bounded queue.  The database is the record \<^verbatim>\<open>AuditDB\<close> with the tables of the schema; a transaction is
  given the fault that hits it, if any.  SHA-256 is a parameter.  The select loop of \<^verbatim>\<open>Start\<close> is the step
  relation \<^verbatim>\<open>writer_step\<close>, together with the two enqueueing operations and a restart of the process.
\<close>

section \<open>Records and tables\<close>

record AuditRecord =
  AuTimestamp :: int
  AuSession :: string
  AuTool :: string
  AuArgs :: string
  AuDecision :: Decision
  AuLatency :: int
  AuPolicy :: string
  AuLayer :: EnforcingLayer
  LabelBefore :: SecurityLabel
  LabelAfter :: SecurityLabel

record SessionLabelRecord =
  SlSession :: string
  SlState :: string
  SlLabel :: SecurityLabel
  ChangedAt :: int

datatype writeItem = RecordItem AuditRecord | LabelItem SessionLabelRecord

record AuditRow =
  RowRecord :: AuditRecord
  RowHash :: bytes

record AuditDB =
  dbLog :: "AuditRow list"
  dbLabels :: "SessionLabelRecord list"
  dbSeq :: "int option"

text \<open>What happens to a transaction: nothing, or one of its statements fails.  The number is the index of the
  failing insert.\<close>

datatype db_fault = DbOk | BeginFails | ExecFails nat | CommitFails

definition channelCap :: nat where "channelCap = 1024"
definition batchSize :: nat where "batchSize = 64"
definition checkpointEvery :: nat where "checkpointEvery = 100"

section \<open>The chain\<close>

fun actionName :: "Action \<Rightarrow> string" where
  "actionName ActionDeny = ''deny''"
| "actionName ActionAllow = ''allow''"
| "actionName ActionRequireApproval = ''require_approval''"
| "actionName ActionAudit = ''audit''"

fun layerName :: "EnforcingLayer \<Rightarrow> string" where
  "layerName LayerNone = []"
| "layerName EnforcingLayerArgSchema = ''arg-schema''"
| "layerName EnforcingLayerCEL = ''cel''"
| "layerName EnforcingLayerIFC = ''ifc''"
| "layerName EnforcingLayerDelegation = ''delegation''"
| "layerName EnforcingLayerAdapter = ''adapter''"
| "layerName EnforcingLayerSecretScan = ''secret-scan''"
| "layerName EnforcingLayerSink = ''sink''"

text \<open>Two's complement, eight bytes, least significant first.\<close>

definition appendInt64LE :: "int \<Rightarrow> bytes" where
  "appendInt64LE n = le_bytes 8 (of_int n :: u64)"

definition writeChainField :: "bytes \<Rightarrow> bytes" where
  "writeChainField d = d @ [0]"

definition chainBytes :: "AuditRecord \<Rightarrow> bytes" where
  "chainBytes r =
     writeChainField (appendInt64LE (AuTimestamp r)) @
     writeChainField (bytes_of (AuSession r)) @
     writeChainField (bytes_of (AuTool r)) @
     writeChainField (bytes_of (AuArgs r)) @
     writeChainField (bytes_of (actionName (Verdict (AuDecision r)))) @
     writeChainField (bytes_of (Reason (AuDecision r))) @
     writeChainField (bytes_of (PolicyID (AuDecision r))) @
     writeChainField (bytes_of (layerName (AuLayer r))) @
     writeChainField (appendInt64LE (AuLatency r))"

definition chainHash :: "(bytes \<Rightarrow> bytes) \<Rightarrow> bytes \<Rightarrow> AuditRecord \<Rightarrow> bytes" where
  "chainHash sha prev r = sha (prev @ chainBytes r)"

definition zeroHash :: bytes where
  "zeroHash = replicate 32 0"

definition loadLastChainHash :: "AuditDB \<Rightarrow> bytes" where
  "loadLastChainHash db =
    (if dbLog db = [] then zeroHash
     else let blob = RowHash (last (dbLog db)) in if length blob \<noteq> 32 then zeroHash else blob)"

definition loadCheckpointSeq :: "AuditDB \<Rightarrow> int" where
  "loadCheckpointSeq db = (case dbSeq db of None \<Rightarrow> 0 | Some v \<Rightarrow> v)"

definition saveCheckpointSeq :: "int \<Rightarrow> AuditDB \<Rightarrow> AuditDB" where
  "saveCheckpointSeq s db = db\<lparr>dbSeq := Some s\<rparr>"

section \<open>Batches\<close>

definition insertRecord :: "(bytes \<Rightarrow> bytes) \<Rightarrow> AuditRecord \<Rightarrow> bytes \<Rightarrow> AuditDB \<Rightarrow> AuditDB \<times> bytes" where
  "insertRecord sha r prev db =
    (let nxt = chainHash sha prev r in (db\<lparr>dbLog := dbLog db @ [\<lparr>RowRecord = r, RowHash = nxt\<rparr>]\<rparr>, nxt))"

text \<open>The primary key of \<^verbatim>\<open>session_labels\<close> is the session with the time.\<close>

definition insertSessionLabel :: "SessionLabelRecord \<Rightarrow> AuditDB \<Rightarrow> AuditDB option" where
  "insertSessionLabel r db =
    (if list_ex (\<lambda>x. SlSession x = SlSession r \<and> ChangedAt x = ChangedAt r) (dbLabels db) then None
     else Some (db\<lparr>dbLabels := dbLabels db @ [r]\<rparr>))"

text \<open>The loop of \<^verbatim>\<open>writeBatch\<close>; \<^const>\<open>None\<close> is the rollback.\<close>

fun insert_items :: "(bytes \<Rightarrow> bytes) \<Rightarrow> nat option \<Rightarrow> writeItem list \<Rightarrow> bytes \<Rightarrow> AuditDB \<Rightarrow> (AuditDB \<times> bytes) option" where
  "insert_items sha fault [] current db = Some (db, current)"
| "insert_items sha fault (item # items) current db =
    (if fault = Some 0 then None
     else let fault' = map_option (\<lambda>n. n - 1) fault in
       case item of
         RecordItem r \<Rightarrow> (let (db', nxt) = insertRecord sha r current db in insert_items sha fault' items nxt db')
       | LabelItem l \<Rightarrow> (case insertSessionLabel l db of None \<Rightarrow> None
           | Some db' \<Rightarrow> insert_items sha fault' items current db'))"

definition writeBatch ::
    "(bytes \<Rightarrow> bytes) \<Rightarrow> db_fault \<Rightarrow> writeItem list \<Rightarrow> bytes \<Rightarrow> AuditDB \<Rightarrow> AuditDB \<times> bytes" where
  "writeBatch sha fault batch prev db =
    (if fault = BeginFails then (db, prev)
     else case insert_items sha (case fault of ExecFails n \<Rightarrow> Some n | _ \<Rightarrow> None) batch prev db of
       None \<Rightarrow> (db, prev)
     | Some (db', current) \<Rightarrow> if fault = CommitFails then (db, prev) else (db', current))"

section \<open>The writer\<close>

record Writer =
  wrDB :: AuditDB
  wrChan :: "writeItem list"
  wrDropped :: nat
  wrEmit :: bool
  wrPrev :: bytes
  wrBatch :: "writeItem list"
  wrSince :: nat
  wrSeq :: int
  wrPrevCp :: bytes
  wrCheckpoints :: "(int \<times> bytes \<times> bytes option \<times> nat) list"

text \<open>\<^verbatim>\<open>NewWriter\<close> followed by the prologue of \<^verbatim>\<open>Start\<close>, on a database left by an earlier run.\<close>

definition StartWriter :: "bool \<Rightarrow> AuditDB \<Rightarrow> Writer" where
  "StartWriter emit db =
     \<lparr>wrDB = db, wrChan = [], wrDropped = 0, wrEmit = emit, wrPrev = loadLastChainHash db, wrBatch = [], wrSince = 0,
      wrSeq = loadCheckpointSeq db, wrPrevCp = zeroHash, wrCheckpoints = []\<rparr>"

definition is_record :: "writeItem \<Rightarrow> bool" where
  "is_record item = (case item of RecordItem _ \<Rightarrow> True | LabelItem _ \<Rightarrow> False)"

text \<open>The checkpoint event holds the sequence number, the hash, the hash of the previous checkpoint (absent
  for the first) and the number of records.\<close>

definition flush :: "(bytes \<Rightarrow> bytes) \<Rightarrow> db_fault \<Rightarrow> Writer \<Rightarrow> Writer" where
  "flush sha fault w =
    (if wrBatch w = [] then w
     else let (db, newHash) = writeBatch sha fault (wrBatch w) (wrPrev w) (wrDB w);
              since = wrSince w + length (filter is_record (wrBatch w));
              w1 = w\<lparr>wrDB := db, wrPrev := newHash, wrBatch := [], wrSince := since\<rparr>
          in if since \<ge> checkpointEvery \<and> wrEmit w then
               let n = wrSeq w + 1;
                   prevHash = (if n > 1 then Some (wrPrevCp w) else None)
               in w1\<lparr>wrSeq := n, wrCheckpoints := wrCheckpoints w @ [(n, newHash, prevHash, since)], wrPrevCp := newHash,
                     wrSince := 0, wrDB := saveCheckpointSeq n db\<rparr>
             else w1)"

definition enqueue :: "writeItem \<Rightarrow> Writer \<Rightarrow> Writer" where
  "enqueue item w = (if length (wrChan w) < channelCap then w\<lparr>wrChan := wrChan w @ [item]\<rparr>
                     else w\<lparr>wrDropped := wrDropped w + 1\<rparr>)"

text \<open>The JSON codec of \<^verbatim>\<open>map[string]json.RawMessage\<close> is a parameter: members in some order with their raw
  values, \<^const>\<open>None\<close> on an error.\<close>

record RawCodec =
  rawUnmarshal :: "string \<Rightarrow> (string \<times> string) list option"
  rawMarshal :: "(string \<times> string) list \<Rightarrow> string option"

definition redactedValue :: string where
  "redactedValue = [CHR 0x22] @ ''[REDACTED]'' @ [CHR 0x22]"

definition sensitive_name :: "string \<Rightarrow> bool" where
  "sensitive_name k = (let lower = ToLower k in
     Contains lower ''key'' \<or> Contains lower ''token'' \<or> Contains lower ''secret'' \<or> Contains lower ''password'')"

definition SanitizeArgs :: "RawCodec \<Rightarrow> string \<Rightarrow> string" where
  "SanitizeArgs codec args =
    (if args = [] then args
     else case rawUnmarshal codec args of
       None \<Rightarrow> args
     | Some m \<Rightarrow>
        if \<not> list_ex (\<lambda>(k, _). sensitive_name k) m then args
        else case rawMarshal codec (map (\<lambda>(k, v). if sensitive_name k then (k, redactedValue) else (k, v)) m) of
          None \<Rightarrow> args
        | Some out \<Rightarrow> out)"

definition WriteRecord :: "RawCodec \<Rightarrow> AuditRecord \<Rightarrow> Writer \<Rightarrow> Writer" where
  "WriteRecord codec r w = enqueue (RecordItem (r\<lparr>AuArgs := SanitizeArgs codec (AuArgs r)\<rparr>)) w"

definition WriteSessionLabel :: "SessionLabelRecord \<Rightarrow> Writer \<Rightarrow> Writer" where
  "WriteSessionLabel r w = enqueue (LabelItem r) w"

definition receive_item :: "(bytes \<Rightarrow> bytes) \<Rightarrow> db_fault \<Rightarrow> Writer \<Rightarrow> Writer" where
  "receive_item sha fault w = (case wrChan w of [] \<Rightarrow> w
   | item # rest \<Rightarrow>
      (let w1 = w\<lparr>wrChan := rest, wrBatch := wrBatch w @ [item]\<rparr>
       in if length (wrBatch w1) \<ge> batchSize then flush sha fault w1 else w1))"

definition drain :: "(bytes \<Rightarrow> bytes) \<Rightarrow> db_fault \<Rightarrow> Writer \<Rightarrow> Writer" where
  "drain sha fault w = flush sha fault (w\<lparr>wrChan := [], wrBatch := wrBatch w @ wrChan w\<rparr>)"

inductive writer_step :: "(bytes \<Rightarrow> bytes) \<Rightarrow> RawCodec \<Rightarrow> Writer \<Rightarrow> Writer \<Rightarrow> bool" for sha codec where
  ws_record: "writer_step sha codec w (WriteRecord codec r w)"
| ws_label: "writer_step sha codec w (WriteSessionLabel l w)"
| ws_receive: "writer_step sha codec w (receive_item sha fault w)"
| ws_timer: "writer_step sha codec w (flush sha fault w)"
| ws_drain: "writer_step sha codec w (drain sha fault w)"
| ws_restart: "writer_step sha codec w (StartWriter emit (wrDB w))"

inductive_cases writer_stepE: "writer_step sha codec w w'"

abbreviation writer_reach :: "(bytes \<Rightarrow> bytes) \<Rightarrow> RawCodec \<Rightarrow> Writer \<Rightarrow> Writer \<Rightarrow> bool" where
  "writer_reach sha codec \<equiv> (writer_step sha codec)\<^sup>*\<^sup>*"

section \<open>The chain invariant\<close>

fun chained :: "(bytes \<Rightarrow> bytes) \<Rightarrow> bytes \<Rightarrow> AuditRow list \<Rightarrow> bool" where
  "chained sha prev [] \<longleftrightarrow> True"
| "chained sha prev (row # rows) \<longleftrightarrow> RowHash row = chainHash sha prev (RowRecord row) \<and> chained sha (RowHash row) rows"

definition last_hash :: "bytes \<Rightarrow> AuditRow list \<Rightarrow> bytes" where
  "last_hash prev rows = (if rows = [] then prev else RowHash (last rows))"

lemma chained_append:
  "chained sha prev (xs @ ys) \<longleftrightarrow> chained sha prev xs \<and> chained sha (last_hash prev xs) ys"
  by (induction xs arbitrary: prev) (auto simp: last_hash_def)

definition log_ok :: "(bytes \<Rightarrow> bytes) \<Rightarrow> AuditDB \<Rightarrow> bytes \<Rightarrow> bool" where
  "log_ok sha db prev \<longleftrightarrow> chained sha zeroHash (dbLog db) \<and> prev = last_hash zeroHash (dbLog db)"

lemma insertRecord_ok:
  assumes "log_ok sha db prev"
  shows "log_ok sha (fst (insertRecord sha r prev db)) (snd (insertRecord sha r prev db))"
  using assms by (auto simp: log_ok_def insertRecord_def chained_append Let_def last_hash_def)

lemma insert_items_ok:
  assumes "insert_items sha fault items prev db = Some (db', current)" and "log_ok sha db prev"
  shows "log_ok sha db' current \<and>
    map RowRecord (dbLog db') = map RowRecord (dbLog db) @ [r. RecordItem r \<leftarrow> items] \<and>
    (\<exists>rows. dbLog db' = dbLog db @ rows) \<and> dbLabels db' = dbLabels db @ [l. LabelItem l \<leftarrow> items] \<and> dbSeq db' = dbSeq db"
  using assms
proof (induction items arbitrary: fault prev db)
  case (Cons item items)
  have f: "fault \<noteq> Some 0" using Cons.prems(1) by auto
  let ?fault = "map_option (\<lambda>n. n - 1) fault"
  show ?case
  proof (cases item)
    case (RecordItem r)
    obtain d nxt where p: "insertRecord sha r prev db = (d, nxt)" by fastforce
    then have "insert_items sha ?fault items nxt d = Some (db', current)"
      using Cons.prems(1) RecordItem f by (simp add: Let_def)
    moreover have "log_ok sha d nxt" using insertRecord_ok [OF Cons.prems(2), of r] p by simp
    moreover have "\<exists>h. dbLog d = dbLog db @ [\<lparr>RowRecord = r, RowHash = h\<rparr>]" "dbLabels d = dbLabels db" "dbSeq d = dbSeq db"
      using p by (auto simp: insertRecord_def Let_def)
    ultimately show ?thesis using Cons.IH [of ?fault nxt d] RecordItem by auto
  next
    case (LabelItem l)
    obtain d where d: "insertSessionLabel l db = Some d" "insert_items sha ?fault items prev d = Some (db', current)"
      using Cons.prems(1) LabelItem f by (auto simp: Let_def split: option.splits)
    have e: "dbLog d = dbLog db" "dbLabels d = dbLabels db @ [l]" "dbSeq d = dbSeq db"
      using d(1) by (auto simp: insertSessionLabel_def split: if_splits)
    then have "log_ok sha d prev" using Cons.prems(2) by (simp add: log_ok_def)
    from Cons.IH [OF d(2) this] e LabelItem show ?thesis by auto
  qed
qed auto

lemma writeBatch_cases:
  assumes "log_ok sha db prev" and "writeBatch sha fault batch prev db = (db', current)"
  shows "db' = db \<and> current = prev \<or>
    fault \<notin> {BeginFails, CommitFails} \<and> log_ok sha db' current \<and>
    map RowRecord (dbLog db') = map RowRecord (dbLog db) @ [r. RecordItem r \<leftarrow> batch] \<and>
    (\<exists>rows. dbLog db' = dbLog db @ rows) \<and> dbLabels db' = dbLabels db @ [l. LabelItem l \<leftarrow> batch] \<and> dbSeq db' = dbSeq db"
proof (cases "insert_items sha (case fault of ExecFails n \<Rightarrow> Some n | _ \<Rightarrow> None) batch prev db")
  case None
  then show ?thesis using assms(2) by (auto simp: writeBatch_def split: if_splits)
next
  case (Some dc)
  then obtain d c where dc: "insert_items sha (case fault of ExecFails n \<Rightarrow> Some n | _ \<Rightarrow> None) batch prev db = Some (d, c)"
    by (cases dc) auto
  note ok = insert_items_ok [OF dc assms(1)]
  have "(db', current) = (if fault = BeginFails \<or> fault = CommitFails then (db, prev) else (d, c))"
    using assms(2) dc unfolding writeBatch_def by (auto split: if_splits)
  with ok show ?thesis by (auto split: if_splits)
qed

section \<open>The writer keeps the chain\<close>

definition writer_ok :: "(bytes \<Rightarrow> bytes) \<Rightarrow> Writer \<Rightarrow> bool" where
  "writer_ok sha w \<longleftrightarrow> log_ok sha (wrDB w) (wrPrev w)"

lemma flush_log:
  assumes "writer_ok sha w"
  shows "writer_ok sha (flush sha fault w) \<and> prefix (dbLog (wrDB w)) (dbLog (wrDB (flush sha fault w)))"
proof (cases "wrBatch w = []")
  case False
  obtain db h where wb: "writeBatch sha fault (wrBatch w) (wrPrev w) (wrDB w) = (db, h)" by fastforce
  have "log_ok sha db h \<and> prefix (dbLog (wrDB w)) (dbLog db)"
    using writeBatch_cases [OF _ wb] assms by (auto simp: writer_ok_def prefix_def)
  moreover have "dbLog (wrDB (flush sha fault w)) = dbLog db" "wrPrev (flush sha fault w) = h"
    using False wb by (simp_all add: flush_def Let_def saveCheckpointSeq_def)
  ultimately show ?thesis by (simp add: writer_ok_def log_ok_def)
qed (use assms in \<open>simp add: flush_def\<close>)

lemma enqueue_fields [simp]: "wrDB (enqueue item w) = wrDB w" "wrPrev (enqueue item w) = wrPrev w"
  by (simp_all add: enqueue_def)

lemma loadLast_ok:
  assumes "\<And>x. length (sha x) = 32" and "chained sha zeroHash (dbLog db)"
  shows "loadLastChainHash db = last_hash zeroHash (dbLog db)"
proof (cases "dbLog db" rule: rev_cases)
  case (snoc rows row)
  then have "RowHash row = chainHash sha (last_hash zeroHash rows) (RowRecord row)"
    using assms(2) by (simp add: chained_append)
  then show ?thesis using snoc assms(1) by (simp add: loadLastChainHash_def last_hash_def chainHash_def Let_def)
qed (simp add: loadLastChainHash_def last_hash_def)

lemma writer_step_log:
  assumes "\<And>x. length (sha x) = 32" and "writer_step sha codec w w'" and "writer_ok sha w"
  shows "writer_ok sha w' \<and> prefix (dbLog (wrDB w)) (dbLog (wrDB w'))"
  using assms(2)
proof (cases rule: writer_step.cases)
  case (ws_receive fault)
  then show ?thesis
  proof (cases "wrChan w")
    case (Cons item rest)
    let ?w1 = "w\<lparr>wrChan := rest, wrBatch := wrBatch w @ [item]\<rparr>"
    have "writer_ok sha ?w1" using assms(3) by (simp add: writer_ok_def)
    from flush_log [OF this, of fault] this Cons ws_receive show ?thesis
      by (simp add: receive_item_def Let_def)
  qed (use assms(3) in \<open>simp add: receive_item_def\<close>)
next
  case (ws_drain fault)
  have "writer_ok sha (w\<lparr>wrChan := [], wrBatch := wrBatch w @ wrChan w\<rparr>)" using assms(3) by (simp add: writer_ok_def)
  from flush_log [OF this, of fault] ws_drain show ?thesis by (simp add: drain_def)
next
  case (ws_restart emit)
  then show ?thesis
    using assms(1,3) loadLast_ok [of sha "wrDB w"] by (simp add: StartWriter_def writer_ok_def log_ok_def)
qed (use assms(3) flush_log in \<open>simp_all add: WriteRecord_def WriteSessionLabel_def writer_ok_def\<close>)

lemma writer_reach_log:
  assumes "\<And>x. length (sha x) = 32" and "writer_reach sha codec w w'" and "writer_ok sha w"
  shows "writer_ok sha w' \<and> prefix (dbLog (wrDB w)) (dbLog (wrDB w'))"
  using assms(2)
proof (induction rule: rtranclp_induct)
  case (step y z)
  then show ?case using writer_step_log [OF assms(1) step.hyps(2)] by (blast intro: prefix_order.trans)
qed (simp add: assms(3))

section \<open>Reading the chained bytes\<close>

lemma field_split: "a @ 0 # x = b @ 0 # y \<Longrightarrow> 0 \<notin> set a \<Longrightarrow> 0 \<notin> set b \<Longrightarrow> a = b \<and> x = y" for a b :: bytes
proof (induction a arbitrary: b)
  case Nil
  then show ?case by (cases b) auto
next
  case (Cons c a)
  then show ?case by (cases b) auto
qed

lemma of_char_zero_iff: "(of_char c :: nat) = 0 \<longleftrightarrow> c = CHR 0x00"
proof
  assume z: "(of_char c :: nat) = 0"
  have "c = char_of (of_char c :: nat)" by simp
  also have "\<dots> = CHR 0x00" unfolding z by (simp add: char_of_def)
  finally show "c = CHR 0x00" .
qed simp

lemma byte_zero_iff: "(of_nat (of_char c) :: u8) = 0 \<longleftrightarrow> c = CHR 0x00" for c :: char
proof -
  have "(of_char c :: nat) < 2 ^ 8" using nat_of_char_less_256 by simp
  then have "unat (of_nat (of_char c) :: u8) = of_char c" by (simp add: unat_of_nat)
  then show ?thesis by (metis of_char_zero_iff unat_eq_zero)
qed

lemma bytes_of_nul: "0 \<in> set (bytes_of s) \<longleftrightarrow> CHR 0x00 \<in> set s"
  by (induction s) (simp_all add: bytes_of_def byte_zero_iff eq_commute [of 0] eq_commute [of "CHR 0x00"])

lemma le8_inj: "le_bytes 8 (of_int a :: u64) = le_bytes 8 (of_int b :: u64) \<longleftrightarrow> (of_int a :: u64) = of_int b"
  by (simp add: le_bytes_def)

definition nul_free :: "AuditRecord \<Rightarrow> bool" where
  "nul_free r \<longleftrightarrow> list_all (\<lambda>s. CHR 0x00 \<notin> set s)
     [AuSession r, AuTool r, AuArgs r, Reason (AuDecision r), PolicyID (AuDecision r)]"

text \<open>What the chain covers of a record: everything but the labels and the copy of the policy.\<close>

definition covered :: "AuditRecord \<Rightarrow> u64 \<times> string list \<times> Action \<times> EnforcingLayer \<times> u64" where
  "covered r = (of_int (AuTimestamp r), [AuSession r, AuTool r, AuArgs r, Reason (AuDecision r), PolicyID (AuDecision r)],
     Verdict (AuDecision r), AuLayer r, of_int (AuLatency r))"

lemma names_nul [simp]: "CHR 0x00 \<notin> set (actionName a)" "CHR 0x00 \<notin> set (layerName l)"
  by (cases a; simp) (cases l; simp)

lemma names_inj [simp]: "actionName a = actionName b \<longleftrightarrow> a = b" "layerName l = layerName m \<longleftrightarrow> l = m"
  by (cases a; cases b; simp) (cases l; cases m; simp)

lemma chainBytes_inj:
  assumes "chainBytes r = chainBytes q" "nul_free r" "nul_free q"
  shows "covered r = covered q"
proof -
  have len: "length (appendInt64LE n) = 8" for n by (simp add: appendInt64LE_def le_bytes_def)
  have ts: "appendInt64LE (AuTimestamp r) = appendInt64LE (AuTimestamp q)"
    using assms(1) len [of "AuTimestamp r"] len [of "AuTimestamp q"] by (simp add: chainBytes_def writeChainField_def)
  note z = assms(2,3) [unfolded nul_free_def, simplified]
  from assms(1) ts have "bytes_of (AuSession r) @ 0 # bytes_of (AuTool r) @ 0 # bytes_of (AuArgs r) @ 0 #
      bytes_of (actionName (Verdict (AuDecision r))) @ 0 # bytes_of (Reason (AuDecision r)) @ 0 #
      bytes_of (PolicyID (AuDecision r)) @ 0 # bytes_of (layerName (AuLayer r)) @ 0 # appendInt64LE (AuLatency r) =
    bytes_of (AuSession q) @ 0 # bytes_of (AuTool q) @ 0 # bytes_of (AuArgs q) @ 0 #
      bytes_of (actionName (Verdict (AuDecision q))) @ 0 # bytes_of (Reason (AuDecision q)) @ 0 #
      bytes_of (PolicyID (AuDecision q)) @ 0 # bytes_of (layerName (AuLayer q)) @ 0 # appendInt64LE (AuLatency q)"
    by (simp add: chainBytes_def writeChainField_def)
  then show ?thesis
    using ts z by (auto simp: covered_def appendInt64LE_def le8_inj bytes_of_nul dest!: field_split)
qed

text \<open>The byte strings hashed for the rows of a log.\<close>

fun hash_inputs :: "bytes \<Rightarrow> AuditRow list \<Rightarrow> bytes list" where
  "hash_inputs prev [] = []"
| "hash_inputs prev (row # rows) = (prev @ chainBytes (RowRecord row)) # hash_inputs (RowHash row) rows"

lemma hash_inputs_append: "hash_inputs prev (xs @ ys) = hash_inputs prev xs @ hash_inputs (last_hash prev xs) ys"
  by (induction xs arbitrary: prev) (auto simp: last_hash_def)

lemma last_hash_length:
  "(\<And>x. length (sha x) = 32) \<Longrightarrow> length prev = 32 \<Longrightarrow> chained sha prev xs \<Longrightarrow> length (last_hash prev xs) = 32"
  by (cases xs rule: rev_cases) (auto simp: last_hash_def chained_append chainHash_def)

lemma chained_unique:
  assumes "\<And>x. length (sha x) = 32" "length prev = 32" "inj_on sha S"
    and "chained sha prev xs" "chained sha prev ys" "length xs = length ys" "last_hash prev xs = last_hash prev ys"
    and "set (hash_inputs prev xs) \<union> set (hash_inputs prev ys) \<subseteq> S"
    and "\<forall>row \<in> set xs \<union> set ys. nul_free (RowRecord row)"
  shows "map (\<lambda>row. covered (RowRecord row)) xs = map (\<lambda>row. covered (RowRecord row)) ys"
  using assms(4-)
proof (induction xs arbitrary: ys rule: rev_induct)
  case (snoc x xs)
  obtain y ys' where ys: "ys = ys' @ [y]" using snoc.prems(3) by (cases ys rule: rev_cases) auto
  let ?p = "last_hash prev xs" and ?q = "last_hash prev ys'"
  have hx: "RowHash x = sha (?p @ chainBytes (RowRecord x))" "chained sha prev xs"
    using snoc.prems(1) by (simp_all add: chained_append chainHash_def)
  have hy: "RowHash y = sha (?q @ chainBytes (RowRecord y))" "chained sha prev ys'"
    using snoc.prems(2) ys by (simp_all add: chained_append chainHash_def)
  have "RowHash x = RowHash y" using snoc.prems(4) ys by (simp add: last_hash_def)
  moreover have "?p @ chainBytes (RowRecord x) \<in> S" "?q @ chainBytes (RowRecord y) \<in> S"
    using snoc.prems(5) ys by (auto simp: hash_inputs_append)
  ultimately have "?p @ chainBytes (RowRecord x) = ?q @ chainBytes (RowRecord y)"
    using assms(3) hx(1) hy(1) by (auto dest: inj_onD)
  moreover have "length ?p = 32" "length ?q = 32"
    by (rule last_hash_length [OF assms(1,2) hx(2)], rule last_hash_length [OF assms(1,2) hy(2)])
  ultimately have pq: "?p = ?q" "chainBytes (RowRecord x) = chainBytes (RowRecord y)" by auto
  have "covered (RowRecord x) = covered (RowRecord y)"
    by (rule chainBytes_inj [OF pq(2)]) (use snoc.prems(6) ys in auto)
  moreover have "map (\<lambda>row. covered (RowRecord row)) xs = map (\<lambda>row. covered (RowRecord row)) ys'"
    by (rule snoc.IH [OF hx(2) hy(2) _ pq(1)]) (use snoc.prems(3,5,6) ys in \<open>auto simp: hash_inputs_append\<close>)
  ultimately show ?case using ys by simp
qed simp

section \<open>Properties\<close>


definition demo_sha :: "bytes \<Rightarrow> bytes" where
  "demo_sha x = take 32 (x @ replicate 32 0)"

definition demo_codec :: RawCodec where
  "demo_codec = \<lparr>rawUnmarshal = (\<lambda>_. None), rawMarshal = (\<lambda>_. None)\<rparr>"

definition demo_audit :: "string \<Rightarrow> string \<Rightarrow> AuditRecord" where
  "demo_audit sid tool = \<lparr>AuTimestamp = 7, AuSession = sid, AuTool = tool, AuArgs = [], AuDecision = zeroDecision, AuLatency = 3,
     AuPolicy = [], AuLayer = EnforcingLayerCEL, LabelBefore = zeroLabel, LabelAfter = zeroLabel\<rparr>"


text \<open>A batch is written whole or not at all.  If the log is chained and the writer holds its last
  hash, then after a batch either nothing has changed and the writer holds the same hash, or all records of
  the batch follow the old rows in order, all its label rows are stored, and the writer holds the new last hash.\<close>

theorem writeBatch_all_or_nothing:
  assumes "chained sha zeroHash (dbLog db)" and "prev = last_hash zeroHash (dbLog db)"
  shows "writeBatch sha fault batch prev db = (db, prev) \<or>
    (let (db', current) = writeBatch sha fault batch prev db in
      chained sha zeroHash (dbLog db') \<and> current = last_hash zeroHash (dbLog db') \<and>
      map RowRecord (dbLog db') = map RowRecord (dbLog db) @ [r. RecordItem r \<leftarrow> batch] \<and>
      dbLabels db' = dbLabels db @ [l. LabelItem l \<leftarrow> batch] \<and> dbSeq db' = dbSeq db)"
proof -
  obtain db' current where wb: "writeBatch sha fault batch prev db = (db', current)" by fastforce
  have "log_ok sha db prev" using assms by (simp add: log_ok_def)
  from writeBatch_cases [OF this wb] show ?thesis by (auto simp: wb log_ok_def)
qed

theorem writeBatch_all_or_nothing_witness:
  "writeBatch demo_sha (ExecFails 1) [RecordItem (demo_audit ''a'' ''Read''), RecordItem (demo_audit ''b'' ''Read'')] zeroHash
     \<lparr>dbLog = [], dbLabels = [], dbSeq = None\<rparr> = (\<lparr>dbLog = [], dbLabels = [], dbSeq = None\<rparr>, zeroHash)"
  using writeBatch_all_or_nothing [of demo_sha "\<lparr>dbLog = [], dbLabels = [], dbSeq = None\<rparr>" zeroHash "ExecFails 1"
      "[RecordItem (demo_audit ''a'' ''Read''), RecordItem (demo_audit ''b'' ''Read'')]"]
  by (simp add: last_hash_def writeBatch_def insertRecord_def Let_def)


definition demo_log :: "AuditRow list" where
  "demo_log = [\<lparr>RowRecord = demo_audit ''s1'' ''Read'', RowHash = chainHash demo_sha zeroHash (demo_audit ''s1'' ''Read'')\<rparr>]"


text \<open>The chain does not cover everything.  For every hash function and every predecessor, two records
  that differ in the session and the tool have the same hash when the names contain a NUL byte, which a
  JSON string may, and the labels of a record do not enter the hash at all.\<close>

theorem chain_misses_changes:
  "chainHash sha prev (demo_audit (''a'' @ [CHR 0x00] @ ''b'') ''c'') = chainHash sha prev (demo_audit ''a'' (''b'' @ [CHR 0x00] @ ''c'')) \<and>
   AuSession (demo_audit (''a'' @ [CHR 0x00] @ ''b'') ''c'') \<noteq> AuSession (demo_audit ''a'' (''b'' @ [CHR 0x00] @ ''c'')) \<and>
   chainHash sha prev (r\<lparr>LabelBefore := l, LabelAfter := m\<rparr>) = chainHash sha prev r"
  by (simp add: chainHash_def chainBytes_def writeChainField_def demo_audit_def bytes_of_def)

end
