(* ===== verification/Daemon.thy ===== *)
theory Daemon
  imports EngineConfine AuditLog
begin

text \<open>
  The daemon, \<^verbatim>\<open>internal/daemon\<close>: the wire framing, the handler of a socket connection with its mode check,
  evaluation, label update, answer, audit record and stream event, the operational mode, and the approval
  endpoint.  A connection is the bytes the peer sends before it closes or stalls and the frame written
  back.  The JSON codecs are parameters.  Connections are handled one at a time.
\<close>

section \<open>Framing\<close>

definition headerSize :: nat where "headerSize = 4"

datatype ReadError = ReadFailed | MessageTooLarge

definition ReadMessage :: "nat \<Rightarrow> bytes \<Rightarrow> ReadError + bytes" where
  "ReadMessage maxSize s =
    (if length s < headerSize then Inl ReadFailed
     else let len = be_word (take headerSize s) :: u32 in
       if unat len > maxSize then Inl MessageTooLarge
       else if length (drop headerSize s) < unat len then Inl ReadFailed
       else Inr (take (unat len) (drop headerSize s)))"

definition WriteMessage :: "bytes \<Rightarrow> bytes" where
  "WriteMessage payload = be_bytes headerSize (of_nat (length payload) :: u32) @ payload"

section \<open>Modes\<close>

datatype DaemonMode = ModeNormal | ModeDegraded | ModeDenyAll | ModeReadOnly

fun modeString :: "DaemonMode \<Rightarrow> string" where
  "modeString ModeNormal = ''normal''"
| "modeString ModeDegraded = ''degraded''"
| "modeString ModeDenyAll = ''deny_all''"
| "modeString ModeReadOnly = ''read_only''"

fun HealthStatus :: "DaemonMode \<Rightarrow> string" where
  "HealthStatus ModeNormal = ''healthy''"
| "HealthStatus ModeDegraded = ''degraded''"
| "HealthStatus ModeDenyAll = ''unhealthy''"
| "HealthStatus ModeReadOnly = ''unhealthy''"

record modeState =
  msMode :: DaemonMode
  msReason :: "string option"
  msSetAt :: int

definition mode_Set :: "gotime \<Rightarrow> DaemonMode \<Rightarrow> string \<Rightarrow> modeState \<Rightarrow> modeState" where
  "mode_Set now m reason s = \<lparr>msMode = m, msReason = Some reason, msSetAt = unixNano now\<rparr>"

definition mode_Get :: "modeState \<Rightarrow> DaemonMode \<times> string" where
  "mode_Get s = (msMode s, case msReason s of None \<Rightarrow> [] | Some r \<Rightarrow> r)"

section \<open>The daemon\<close>

record StreamEvent =
  EvType :: string
  EvSession :: string
  EvTool :: string
  EvAction :: Action
  EvReason :: string
  EvLabel :: SecurityLabel
  EvTimestamp :: int
  EvPolicy :: string
  EvLayer :: string
  EvLabelState :: string
  EvLatency :: int

text \<open>\<^verbatim>\<open>dmEngine\<close> holds the session registry too: the daemon is constructed with the registry of its engine,
  and \<^verbatim>\<open>dmSessions\<close> says whether it was given it.\<close>

record 'prog Daemon =
  dmEngine :: "'prog engineState"
  dmSessions :: bool
  dmWriter :: Writer
  dmStream :: bool
  dmMode :: modeState
  dmEvaluations :: nat
  dmEvents :: "StreamEvent list"

record DaemonCodec =
  reqUnmarshal :: "bytes \<Rightarrow> CheckRequest option"
  respMarshal :: "CheckResponse \<Rightarrow> bytes option"
  argCodec :: RawCodec

text \<open>The clock readings of one connection: the evaluation, the label record, the audit record, the event.\<close>

record ConnInput =
  ciEval :: EvalInput
  ciLabelTime :: gotime
  ciAuditTime :: gotime
  ciEventTime :: gotime

fun labelStateName :: "LabelState \<Rightarrow> string" where
  "labelStateName LabelStateFresh = ''fresh''"
| "labelStateName LabelStateEscalated = ''escalated''"
| "labelStateName LabelStateTaintedBySecret = ''tainted_by_secret''"
| "labelStateName LabelStateDeclassified = ''declassified''"

definition error_response :: "string \<Rightarrow> CheckResponse" where
  "error_response reason =
     zeroResponse\<lparr>RespDecision := zeroDecision\<lparr>Verdict := ActionDeny, Reason := reason\<rparr>, RespLayer := EnforcingLayerAdapter\<rparr>"

definition writeErrorResponse :: "DaemonCodec \<Rightarrow> string \<Rightarrow> bytes option" where
  "writeErrorResponse codec reason = map_option WriteMessage (respMarshal codec (error_response reason))"

definition writeModeResponse :: "DaemonCodec \<Rightarrow> DaemonMode \<Rightarrow> bytes option" where
  "writeModeResponse codec mode =
     map_option WriteMessage (respMarshal codec (error_response (''daemon in '' @ modeString mode @ '' mode'')))"

definition buildAuditRecord :: "gotime \<Rightarrow> CheckRequest \<Rightarrow> CheckResponse \<Rightarrow> AuditRecord" where
  "buildAuditRecord now req resp =
     \<lparr>AuTimestamp = unixNano now, AuSession = SessionID req, AuTool = Tool req, AuArgs = Args req, AuDecision = RespDecision resp,
      AuLatency = LatencyNs resp, AuPolicy = PolicyID (RespDecision resp), AuLayer = RespLayer resp,
      LabelBefore = zeroLabel, LabelAfter = zeroLabel\<rparr>"

text \<open>The label update after an answer that is not a denial.\<close>

definition persist_label :: "gotime \<Rightarrow> CheckRequest \<Rightarrow> CheckResponse \<Rightarrow> 'prog Daemon \<Rightarrow> 'prog Daemon" where
  "persist_label now req resp d =
    (if dmSessions d \<and> resp_action resp \<noteq> ActionDeny then
       (let eng = on_sessions (\<lambda>s. fst (Elevate s (SessionID req) (RequestLabel req))) (dmEngine d)
        in case esSessions eng of None \<Rightarrow> d
           | Some s \<Rightarrow> d\<lparr>dmEngine := eng,
               dmWriter := WriteSessionLabel \<lparr>SlSession = SessionID req, SlState = labelStateName (LabelStateOf s (SessionID req)),
                 SlLabel = Current s (SessionID req), ChangedAt = unixNano now\<rparr> (dmWriter d)\<rparr>)
     else d)"

definition decision_event :: "gotime \<Rightarrow> CheckRequest \<Rightarrow> CheckResponse \<Rightarrow> StreamEvent" where
  "decision_event now req resp =
     \<lparr>EvType = (if resp_action resp = ActionDeny then ''policy.denied'' else ''decision''), EvSession = SessionID req, EvTool = Tool req,
      EvAction = resp_action resp, EvReason = Reason (RespDecision resp), EvLabel = Labels (RespDecision resp),
      EvTimestamp = unixNano now, EvPolicy = PolicyID (RespDecision resp), EvLayer = layerName (RespLayer resp),
      EvLabelState = ''fresh'', EvLatency = LatencyNs resp\<rparr>"

definition serve_request ::
    "('ast, 'prog) EngineEnv \<Rightarrow> DaemonCodec \<Rightarrow> ConnInput \<Rightarrow> CheckRequest \<Rightarrow> 'prog Daemon \<Rightarrow> 'prog Daemon \<times> bytes option" where
  "serve_request env codec ci req d =
    (let (eng, resp) = Evaluate env (ciEval ci) req (dmEngine d);
         d1 = persist_label (ciLabelTime ci) req resp (d\<lparr>dmEngine := eng, dmEvaluations := dmEvaluations d + 1\<rparr>)
     in case respMarshal codec resp of
          None \<Rightarrow> (d1, writeErrorResponse codec ''failed to marshal response'')
        | Some b \<Rightarrow>
           (d1\<lparr>dmWriter := WriteRecord (argCodec codec) (buildAuditRecord (ciAuditTime ci) req resp) (dmWriter d1),
               dmEvents := dmEvents d1 @ (if dmStream d1 then [decision_event (ciEventTime ci) req resp] else [])\<rparr>,
            Some (WriteMessage b)))"

definition handleConnection ::
    "('ast, 'prog) EngineEnv \<Rightarrow> DaemonCodec \<Rightarrow> ConnInput \<Rightarrow> bytes \<Rightarrow> 'prog Daemon \<Rightarrow> 'prog Daemon \<times> bytes option" where
  "handleConnection env codec ci stream d = (case ReadMessage MaxMessageSize stream of
     Inl MessageTooLarge \<Rightarrow> (d, writeErrorResponse codec ''message exceeds MaxMessageSize'')
   | Inl ReadFailed \<Rightarrow> (d, None)
   | Inr raw \<Rightarrow> (case reqUnmarshal codec raw of
       None \<Rightarrow> (d, writeErrorResponse codec ''malformed JSON request'')
     | Some req \<Rightarrow>
        (if msMode (dmMode d) = ModeDenyAll \<or> msMode (dmMode d) = ModeReadOnly
         then (d, writeModeResponse codec (msMode (dmMode d)))
         else serve_request env codec ci req d)))"

section \<open>Approvals\<close>

definition maxApprovalTTLSeconds :: int where "maxApprovalTTLSeconds = 7200"

definition validEffects :: "string list" where
  "validEffects = [''network_egress'', ''content_publish'', ''process_coordination'', ''content_internal'', ''message_content'']"

record approvalRequest =
  ApEffect :: string
  ApPattern :: string
  ApTTL :: int
  ApGrantedBy :: string

definition extractSessionID :: "string \<Rightarrow> string" where
  "extractSessionID path0 =
    (let path = TrimRight (\<lambda>c. c = CHR ''/'') path0;
         prefix = ''/api/v1/sessions/'';
         suffix = ''/approve'' in
     if \<not> HasPrefix path prefix \<or> \<not> HasSuffix path suffix then []
     else if length path \<le> length prefix + length suffix then []
     else let mid = take (length path - length suffix - length prefix) (drop (length prefix) path)
          in if mid = [] \<or> Contains mid ''/'' then [] else mid)"

text \<open>The answer is the status code; \<^verbatim>\<open>body\<close> is the decoded request body, \<^const>\<open>None\<close> when it does not decode.\<close>

definition handleApprove ::
    "gotime \<Rightarrow> string \<Rightarrow> string \<Rightarrow> approvalRequest option \<Rightarrow> 'prog Daemon \<Rightarrow> 'prog Daemon \<times> nat" where
  "handleApprove now meth path body d =
    (if meth \<noteq> ''POST'' then (d, 405)
     else let sid = extractSessionID path in
     if sid = [] then (d, 400)
     else if \<not> dmSessions d then (d, 404)
     else case body of None \<Rightarrow> (d, 400)
     | Some req \<Rightarrow>
        (if ApEffect req \<notin> set validEffects then (d, 400)
         else if ApPattern req = [] then (d, 400)
         else let ttl = (if ApTTL req \<le> 0 then 1800 else ApTTL req) in
           if ttl > maxApprovalTTLSeconds then (d, 400)
           else (d\<lparr>dmEngine := on_sessions (\<lambda>s. AddStandingRule s sid
                  \<lparr>RuleEffect = ApEffect req, ResourcePattern = ApPattern req, ExpiresAt = now + ttl * second,
                   GrantedAt = now, GrantedBy = ApGrantedBy req\<rparr>) (dmEngine d)\<rparr>, 200)))"

text \<open>One turn of the maintenance loop.\<close>

definition prune_rules :: "gotime \<Rightarrow> 'prog Daemon \<Rightarrow> 'prog Daemon" where
  "prune_rules now d =
    (if dmSessions d then d\<lparr>dmEngine := on_sessions (PruneExpiredRules now) (dmEngine d)\<rparr> else d)"

definition prune_history :: "gotime \<Rightarrow> 'prog Daemon \<Rightarrow> 'prog Daemon" where
  "prune_history now d = d\<lparr>dmEngine := (dmEngine d)\<lparr>esHistory :=
     map_option (\<lambda>h. fst (PruneOlderThan now h (7 * 24 * 3600 * second))) (esHistory (dmEngine d))\<rparr>\<rparr>"

section \<open>Framing lemmas\<close>

lemma MaxMessageSize_small: "MaxMessageSize < 2 ^ 32"
  by (simp add: MaxMessageSize_def)

lemma frame_header:
  assumes "length p < 2 ^ 32"
  shows "unat (be_word (take headerSize (WriteMessage p @ rest)) :: u32) = length p"
    and "drop headerSize (WriteMessage p @ rest) = p @ rest"
proof -
  have "be_word (be_bytes 4 (of_nat (length p) :: u32)) = (of_nat (length p) :: u32)" by (rule be_roundtrip) simp
  then show "unat (be_word (take headerSize (WriteMessage p @ rest)) :: u32) = length p"
    using assms by (simp add: WriteMessage_def headerSize_def unat_of_nat)
  show "drop headerSize (WriteMessage p @ rest) = p @ rest"
    by (simp add: WriteMessage_def headerSize_def)
qed

lemma read_whole_frame:
  assumes "maxSize < 2 ^ 32" and "length p < 2 ^ 32"
  shows "ReadMessage maxSize (WriteMessage p @ rest) = (if length p \<le> maxSize then Inr p else Inl MessageTooLarge)"
  using frame_header [OF assms(2)] by (simp add: ReadMessage_def Let_def) (simp add: WriteMessage_def headerSize_def)

lemma read_cut_frame:
  assumes "length p < 2 ^ 32" and "k < length (WriteMessage p)" and "length p \<le> maxSize"
  shows "ReadMessage maxSize (take k (WriteMessage p)) = Inl ReadFailed"
proof (cases "k < headerSize")
  case False
  then have "take headerSize (take k (WriteMessage p)) = take headerSize (WriteMessage p)" by simp
  moreover have "length (drop headerSize (take k (WriteMessage p))) < length p"
    using assms(2) False by (simp add: WriteMessage_def headerSize_def)
  ultimately show ?thesis
    using frame_header(1) [OF assms(1), of "[]"] assms(3) False by (simp add: ReadMessage_def Let_def)
qed (use assms in \<open>simp add: ReadMessage_def\<close>)

text \<open>What one side frames the other reads: a payload of at most the maximum size is read back exactly,
  whatever follows it on the wire, a larger one that fits the length field is refused as too large without being
  read, and a frame cut short anywhere is an error, never a shorter payload.\<close>

theorem framing_round_trip:
  assumes "maxSize < 2 ^ 32" and "length p < 2 ^ 32"
  shows "ReadMessage maxSize (WriteMessage p @ rest) = (if length p \<le> maxSize then Inr p else Inl MessageTooLarge) \<and>
    (\<forall>k < length (WriteMessage p). length p \<le> maxSize \<longrightarrow> ReadMessage maxSize (take k (WriteMessage p)) = Inl ReadFailed)"
  using read_whole_frame [OF assms] read_cut_frame [OF assms(2)] by simp

theorem framing_round_trip_witness:
  "ReadMessage MaxMessageSize (WriteMessage [1, 2, 3] @ [9, 9]) = Inr [1, 2, 3]"
proof -
  have "length ([1, 2, 3] :: bytes) < 2 ^ 32" by simp
  from framing_round_trip [OF MaxMessageSize_small this, of "[9, 9]"] show ?thesis
    by (simp add: MaxMessageSize_def)
qed

section \<open>Answers and audit records\<close>

lemma persist_label_writer:
  "wrDropped (dmWriter (persist_label now req resp d)) \<ge> wrDropped (dmWriter d)"
  by (simp add: persist_label_def Let_def WriteSessionLabel_def enqueue_def split: option.split)

lemma WriteRecord_audited:
  "RecordItem (r\<lparr>AuArgs := SanitizeArgs codec (AuArgs r)\<rparr>) \<in> set (wrChan (WriteRecord codec r w)) \<or>
   wrDropped (WriteRecord codec r w) = wrDropped w + 1"
  by (simp add: WriteRecord_def enqueue_def)

lemma error_response_denies [simp]: "resp_action (error_response why) = ActionDeny"
  by (simp add: error_response_def)

lemma serve_request_reply:
  assumes "snd (serve_request env codec ci req d) = Some frame"
  shows "\<exists>resp b. respMarshal codec resp = Some b \<and> frame = WriteMessage b \<and>
    (resp_action resp = ActionDeny \<or> resp = snd (Evaluate env (ciEval ci) req (dmEngine d)) \<and>
      (let w = dmWriter (fst (serve_request env codec ci req d)); r = buildAuditRecord (ciAuditTime ci) req resp in
       RecordItem (r\<lparr>AuArgs := SanitizeArgs (argCodec codec) (AuArgs r)\<rparr>) \<in> set (wrChan w) \<or>
       wrDropped w > wrDropped (dmWriter d)))"
proof -
  obtain eng resp where ev: "Evaluate env (ciEval ci) req (dmEngine d) = (eng, resp)" by fastforce
  let ?d1 = "persist_label (ciLabelTime ci) req resp (d\<lparr>dmEngine := eng, dmEvaluations := dmEvaluations d + 1\<rparr>)"
  let ?r = "buildAuditRecord (ciAuditTime ci) req resp"
  show ?thesis
  proof (cases "respMarshal codec resp")
    case None
    then have "snd (serve_request env codec ci req d) = writeErrorResponse codec ''failed to marshal response''"
      by (simp add: serve_request_def ev Let_def)
    with assms obtain b where "respMarshal codec (error_response ''failed to marshal response'') = Some b" "frame = WriteMessage b"
      by (auto simp: writeErrorResponse_def)
    then show ?thesis using error_response_denies by blast
  next
    case (Some b)
    have w: "dmWriter (fst (serve_request env codec ci req d)) = WriteRecord (argCodec codec) ?r (dmWriter ?d1)"
      by (simp add: serve_request_def ev Let_def Some)
    have "wrDropped (dmWriter ?d1) \<ge> wrDropped (dmWriter d)"
      using persist_label_writer [of "d\<lparr>dmEngine := eng, dmEvaluations := dmEvaluations d + 1\<rparr>"] by simp
    then have "RecordItem (?r\<lparr>AuArgs := SanitizeArgs (argCodec codec) (AuArgs ?r)\<rparr>) \<in> set (wrChan (WriteRecord (argCodec codec) ?r (dmWriter ?d1))) \<or>
        wrDropped (WriteRecord (argCodec codec) ?r (dmWriter ?d1)) > wrDropped (dmWriter d)"
      using WriteRecord_audited [of "argCodec codec" ?r "dmWriter ?d1"] by linarith
    moreover have "frame = WriteMessage b" using assms by (simp add: serve_request_def ev Let_def Some)
    ultimately show ?thesis using Some ev unfolding w by (auto simp: Let_def)
  qed
qed

lemma handleConnection_reply:
  assumes "snd (handleConnection env codec ci stream d) = Some frame"
  shows "\<exists>resp b. respMarshal codec resp = Some b \<and> frame = WriteMessage b \<and>
    (resp_action resp = ActionDeny \<or>
     (\<exists>raw req. ReadMessage MaxMessageSize stream = Inr raw \<and> reqUnmarshal codec raw = Some req \<and>
       msMode (dmMode d) \<notin> {ModeDenyAll, ModeReadOnly} \<and>
       resp = snd (Evaluate env (ciEval ci) req (dmEngine d)) \<and>
       (let w = dmWriter (fst (handleConnection env codec ci stream d)); r = buildAuditRecord (ciAuditTime ci) req resp in
        RecordItem (r\<lparr>AuArgs := SanitizeArgs (argCodec codec) (AuArgs r)\<rparr>) \<in> set (wrChan w) \<or>
        wrDropped w > wrDropped (dmWriter d))))"
proof (cases "ReadMessage MaxMessageSize stream")
  case (Inl e)
  with assms have "writeErrorResponse codec ''message exceeds MaxMessageSize'' = Some frame"
    by (cases e) (simp_all add: handleConnection_def)
  then show ?thesis using error_response_denies by (fastforce simp: writeErrorResponse_def)
next
  case (Inr raw)
  show ?thesis
  proof (cases "reqUnmarshal codec raw")
    case None
    with Inr assms have "writeErrorResponse codec ''malformed JSON request'' = Some frame" by (simp add: handleConnection_def)
    then show ?thesis using error_response_denies by (fastforce simp: writeErrorResponse_def)
  next
    case (Some req)
    show ?thesis
    proof (cases "msMode (dmMode d) \<in> {ModeDenyAll, ModeReadOnly}")
      case True
      with Inr Some assms have "writeModeResponse codec (msMode (dmMode d)) = Some frame"
        by (auto simp: handleConnection_def)
      then show ?thesis using error_response_denies by (fastforce simp: writeModeResponse_def)
    next
      case False
      then have h: "handleConnection env codec ci stream d = serve_request env codec ci req d"
        using Inr Some by (simp add: handleConnection_def)
      show ?thesis using serve_request_reply [of env codec ci req d frame] assms Inr Some False unfolding h by blast
    qed
  qed
qed

text \<open>Claim C12. The daemon fails secure.  Whatever bytes a peer sends, a frame written back is a well-formed frame of
  one response, and that response is a denial unless the bytes held a complete request of at most two megabytes
  that decodes, the daemon is not in a denying mode, and the response is the one the engine gave to that very
  request; in that case the decision is in the audit queue, or the counter of dropped records has grown.\<close>

theorem connection_fails_secure:
  assumes "snd (handleConnection env codec ci stream d) = Some frame"
  shows "\<exists>resp b. respMarshal codec resp = Some b \<and> frame = WriteMessage b \<and>
    (resp_action resp = ActionDeny \<or>
     (\<exists>raw req. ReadMessage MaxMessageSize stream = Inr raw \<and> reqUnmarshal codec raw = Some req \<and>
       msMode (dmMode d) \<notin> {ModeDenyAll, ModeReadOnly} \<and>
       resp = snd (Evaluate env (ciEval ci) req (dmEngine d)) \<and>
       (let w = dmWriter (fst (handleConnection env codec ci stream d)); r = buildAuditRecord (ciAuditTime ci) req resp in
        RecordItem (r\<lparr>AuArgs := SanitizeArgs (argCodec codec) (AuArgs r)\<rparr>) \<in> set (wrChan w) \<or>
        wrDropped w > wrDropped (dmWriter d))))"
  using assms by (rule handleConnection_reply)

definition demo_dcodec :: DaemonCodec where
  "demo_dcodec = \<lparr>reqUnmarshal = (\<lambda>_. Some (demo_read ''/tmp/notes'')),
     respMarshal = (\<lambda>r. Some [if resp_action r = ActionAllow then 1 else 0]), argCodec = demo_codec\<rparr>"

definition demo_daemon :: "string Daemon" where
  "demo_daemon = \<lparr>dmEngine = demo_state [(''p'', ''true'', [])], dmSessions = True,
     dmWriter = StartWriter False \<lparr>dbLog = [], dbLabels = [], dbSeq = None\<rparr>, dmStream = False,
     dmMode = \<lparr>msMode = ModeNormal, msReason = None, msSetAt = 0\<rparr>, dmEvaluations = 0, dmEvents = []\<rparr>"

definition demo_conn :: ConnInput where
  "demo_conn = \<lparr>ciEval = demo_input, ciLabelTime = 0, ciAuditTime = 0, ciEventTime = 0\<rparr>"

theorem connection_fails_secure_witness:
  "\<exists>req. reqUnmarshal demo_dcodec [1, 2, 3] = Some req \<and>
     resp_action (snd (Evaluate (demo_env (ScanDone [])) demo_input req (dmEngine demo_daemon))) = ActionAllow"
proof -
  let ?s = "WriteMessage [1, 2, 3]"
  have r: "ReadMessage MaxMessageSize ?s = Inr [1, 2, 3]"
  proof -
    have "length ([1, 2, 3] :: bytes) < 2 ^ 32" by simp
    from frame_header [OF this, of "[]"] show ?thesis
      by (simp add: ReadMessage_def Let_def MaxMessageSize_def) (simp add: WriteMessage_def headerSize_def)
  qed
  have a: "resp_action (snd (Evaluate (demo_env (ScanDone [])) demo_input (demo_read ''/tmp/notes'') (demo_state [(''p'', ''true'', [])])))
      = ActionAllow" by (rule demo_allows)
  have "snd (handleConnection (demo_env (ScanDone [])) demo_dcodec demo_conn ?s demo_daemon) = Some (WriteMessage [1])"
    using a by (simp add: handleConnection_def r demo_dcodec_def demo_daemon_def serve_request_def demo_conn_def Let_def case_prod_unfold)
  from connection_fails_secure [OF this] obtain resp b raw req where
    "respMarshal demo_dcodec resp = Some b" "WriteMessage [1] = WriteMessage b"
    and "resp_action resp = ActionDeny \<or> ReadMessage MaxMessageSize ?s = Inr raw \<and> reqUnmarshal demo_dcodec raw = Some req \<and>
      resp = snd (Evaluate (demo_env (ScanDone [])) (ciEval demo_conn) req (dmEngine demo_daemon))" by blast
  then show ?thesis
    using r by (auto simp: demo_dcodec_def demo_conn_def WriteMessage_def headerSize_def split: if_splits)
qed

end
