(* ===== verification/PolicyFile.thy ===== *)
theory PolicyFile
  imports Cel "HOL-Library.AList" "HOL-Library.List_Lexorder"
begin

text \<open>
  Policy files, \<^verbatim>\<open>internal/bundle/parse.go\<close>: the manifests of a YAML file become templates and bindings.  The
  variables of a manifest are substituted into its validations, which are combined into one expression.  The
  YAML decoder and the file system are parameters.  The loop that substitutes an identifier may run forever:
  it is a partial function whose value \<^const>\<open>None\<close> is not returning, and so are the operations that call it.
\<close>

section \<open>Manifests\<close>

text \<open>A decoded YAML value of type \<^verbatim>\<open>any\<close>; \<^verbatim>\<open>YNull\<close> is nil.\<close>

datatype yaml = YNull | YBool bool | YInt int | YFloat string | YStr string | YSeq "yaml list" | YMap "(string \<times> yaml) list"

record paramDefinition =
  ParamType :: string
  ParamDefault :: yaml

record policyVariable =
  VarName :: string
  VarExpression :: string

record policyValidation =
  ValExpression :: string
  ValMessage :: string
  ValAction :: string

record policyManifest =
  APIVersion :: string
  Kind :: string
  MetaName :: string
  SpecDescription :: string
  SpecLayer :: string
  MatchTools :: "string list"
  MatchEffects :: "string list"
  SpecVariables :: "policyVariable list"
  SpecValidations :: "policyValidation list"
  SpecDefaultAction :: string
  SpecParams :: "(string \<times> paramDefinition) list"

definition LayerCeiling :: string where "LayerCeiling = ''ceiling''"
definition LayerTeam :: string where "LayerTeam = ''team''"
definition LayerProject :: string where "LayerProject = ''project''"
definition LayerCEL :: string where "LayerCEL = ''cel''"

definition LayerPriority :: "string \<rightharpoonup> nat" where
  "LayerPriority = [LayerCeiling \<mapsto> 0, LayerTeam \<mapsto> 1, LayerProject \<mapsto> 2, LayerCEL \<mapsto> 3]"

section \<open>Substitution of identifiers\<close>

definition isIdentContinue :: "char \<Rightarrow> bool" where
  "isIdentContinue c = (let n = (of_char c :: nat) in
     (97 \<le> n \<and> n \<le> 122) \<or> (65 \<le> n \<and> n \<le> 90) \<or> (48 \<le> n \<and> n \<le> 57) \<or> c = CHR ''_'')"

definition isIdentChar :: "char \<Rightarrow> bool" where
  "isIdentChar c \<longleftrightarrow> isIdentContinue c \<or> c = CHR ''.''"

text \<open>The test at an occurrence of the name.\<close>

definition standalone_at :: "string \<Rightarrow> string \<Rightarrow> nat \<Rightarrow> bool" where
  "standalone_at expr name k \<longleftrightarrow>
    (k = 0 \<or> \<not> isIdentChar (expr ! (k - 1))) \<and>
    (k + length name \<ge> length expr \<or> \<not> isIdentContinue (expr ! (k + length name)))"

partial_function (option) replace_from :: "string \<Rightarrow> string \<Rightarrow> string \<Rightarrow> nat \<Rightarrow> string \<Rightarrow> string option" where
  "replace_from expr name replacement i result =
    (if i < length expr then
       (case Index (drop i expr) name of
          None \<Rightarrow> Some (result @ drop i expr)
        | Some idx \<Rightarrow>
           replace_from expr name replacement (i + idx + length name)
             (result @ take idx (drop i expr) @ (if standalone_at expr name (i + idx) then replacement else name)))
     else Some result)"

definition replaceIdentifier :: "string \<Rightarrow> string \<Rightarrow> string \<Rightarrow> string option" where
  "replaceIdentifier expr name replacement = replace_from expr name replacement 0 []"

text \<open>\<^verbatim>\<open>strings.ReplaceAll\<close> of a non-empty string.\<close>

fun ReplaceAll :: "string \<Rightarrow> string \<Rightarrow> string \<Rightarrow> string" where
  "ReplaceAll [] old new = []"
| "ReplaceAll (c # s) old new =
    (if HasPrefix (c # s) old then new @ ReplaceAll (drop (length old - 1) s) old new else c # ReplaceAll s old new)"

definition normalizeExpression :: "string \<Rightarrow> string" where
  "normalizeExpression expr =
     ReplaceAll (ReplaceAll expr ''request.args.command'' (''args['' @ [CHR 0x22] @ ''command'' @ [CHR 0x22] @ '']''))
       ''request.args'' ''args''"

text \<open>A Go map is iterated in an order that may differ each time.  The order is a parameter: by the position of the
  validation and the number of the pass, a permutation of the entries.\<close>

type_synonym iter_order = "nat \<Rightarrow> nat \<Rightarrow> (string \<times> string) list \<Rightarrow> (string \<times> string) list"

fun subst_all :: "(string \<times> string) list \<Rightarrow> string \<Rightarrow> string option" where
  "subst_all [] expr = Some expr"
| "subst_all ((name, val) # vs) expr = Option.bind (replaceIdentifier expr name (''('' @ val @ '')'')) (subst_all vs)"

fun inline_passes :: "(nat \<Rightarrow> (string \<times> string) list \<Rightarrow> (string \<times> string) list) \<Rightarrow> (string \<times> string) list \<Rightarrow> nat \<Rightarrow> nat \<Rightarrow> string \<Rightarrow> string option" where
  "inline_passes ord vars 0 i expr = Some expr"
| "inline_passes ord vars (Suc n) i expr =
    Option.bind (subst_all (ord i vars) expr) (\<lambda>e. if e = expr then Some e else inline_passes ord vars n (i + 1) e)"

definition variable_map :: "policyVariable list \<Rightarrow> (string \<times> string) list" where
  "variable_map vs = foldl (\<lambda>m v. AList.update (VarName v) (normalizeExpression (VarExpression v)) m) [] vs"

definition inline_expr :: "iter_order \<Rightarrow> policyManifest \<Rightarrow> nat \<Rightarrow> string \<Rightarrow> string option" where
  "inline_expr ord m k expr =
    (let vars = variable_map (SpecVariables m) in inline_passes (ord k) vars (length vars + 1) 0 (normalizeExpression expr))"

fun inline_list :: "iter_order \<Rightarrow> policyManifest \<Rightarrow> (nat \<times> policyValidation) list \<Rightarrow> string list option" where
  "inline_list ord m [] = Some []"
| "inline_list ord m ((k, v) # vs) =
    Option.bind (inline_expr ord m k (ValExpression v)) (\<lambda>e. map_option (Cons e) (inline_list ord m vs))"

definition with_action :: "string \<Rightarrow> policyManifest \<Rightarrow> (nat \<times> policyValidation) list" where
  "with_action a m =
     filter (\<lambda>(k, v). ValAction v = a \<and> ValExpression v \<noteq> []) (enumerate 0 (SpecValidations m))"

definition negated :: "string list \<Rightarrow> string" where
  "negated es = ''!('' @ JoinStrings es '' || '' @ '')''"

definition buildCombinedExpression :: "iter_order \<Rightarrow> policyManifest \<Rightarrow> (string \<times> bool) option" where
  "buildCombinedExpression ord m =
    (if with_action ''DENY'' m \<noteq> [] then
       map_option (\<lambda>es. (negated es, False)) (inline_list ord m (with_action ''DENY'' m))
     else if with_action ''REQUIRE_APPROVAL'' m \<noteq> [] then
       map_option (\<lambda>es. (negated es, True)) (inline_list ord m (with_action ''REQUIRE_APPROVAL'' m))
     else case filter (\<lambda>(k, v). ValExpression v \<noteq> []) (enumerate 0 (SpecValidations m)) of
            [] \<Rightarrow> Some ([], False)
          | (k, v) # _ \<Rightarrow> map_option (\<lambda>e. (''!('' @ e @ '')'', False)) (inline_expr ord m k (ValExpression v)))"

section \<open>Parameters\<close>

datatype ParamError = NotASequence string | WellKnownPort string int | PortOutOfRange string int

text \<open>The value as the engine sees it; a number is kept by its literal.\<close>

definition int_literal :: "int \<Rightarrow> string" where
  "int_literal n = (if n < 0 then CHR ''-'' # itoa (- n) else itoa n)"

fun yaml_any :: "yaml \<Rightarrow> json" where
  "yaml_any YNull = JNull"
| "yaml_any (YBool b) = JBool b"
| "yaml_any (YInt n) = JNum (int_literal n)"
| "yaml_any (YFloat l) = JNum l"
| "yaml_any (YStr s) = JStr s"
| "yaml_any (YSeq xs) = JArr (map yaml_any xs)"
| "yaml_any (YMap kvs) = JObj (map (\<lambda>(k, v). (k, yaml_any v)) kvs)"

fun check_ports :: "string \<Rightarrow> yaml list \<Rightarrow> ParamError option" where
  "check_ports name [] = None"
| "check_ports name (v # vs) = (case v of
     YInt n \<Rightarrow> if n < 1024 then Some (WellKnownPort name n)
               else if n > 65535 then Some (PortOutOfRange name n)
               else check_ports name vs
   | _ \<Rightarrow> check_ports name vs)"

definition resolve_one :: "string \<Rightarrow> paramDefinition \<Rightarrow> ParamError + json" where
  "resolve_one name def =
    (if ParamDefault def = YNull then Inr JNull
     else if ParamType def = ''array'' then
       (case ParamDefault def of
          YSeq raw \<Rightarrow> (case check_ports name raw of Some e \<Rightarrow> Inl e | None \<Rightarrow> Inr (JArr (map yaml_any raw)))
        | _ \<Rightarrow> Inl (NotASequence name))
     else Inr (yaml_any (ParamDefault def)))"

fun resolve_loop :: "(string \<times> paramDefinition) list \<Rightarrow> json_map \<Rightarrow> ParamError + json_map" where
  "resolve_loop [] result = Inr result"
| "resolve_loop ((name, def) # defs) result = (case resolve_one name def of
     Inl e \<Rightarrow> Inl e
   | Inr v \<Rightarrow> resolve_loop defs (result(name \<mapsto> v)))"

definition resolveParams :: "(string \<times> paramDefinition) list \<Rightarrow> ParamError + json_map option" where
  "resolveParams defs =
    (if defs = [] then Inr None
     else case resolve_loop defs Map.empty of Inl e \<Rightarrow> Inl e | Inr m \<Rightarrow> Inr (Some m))"

section \<open>Files and directories\<close>

datatype PolicyFileError = ReadFileFailed | YamlFailed | BadParam ParamError | WalkFailed

text \<open>The decoder gives the documents up to the end of the file or the first one that does not decode; the flag
  says which.  The order of map iteration is chosen per file and document.\<close>

record PolicyLib =
  yamlDocs :: "string \<Rightarrow> policyManifest list \<times> bool"
  iterOrder :: "string \<Rightarrow> nat \<Rightarrow> iter_order"

definition first_message :: "policyManifest \<Rightarrow> string" where
  "first_message m = (case filter (\<lambda>v. ValMessage v \<noteq> []) (SpecValidations m) of [] \<Rightarrow> [] | v # _ \<Rightarrow> ValMessage v)"

definition known_layer :: "string \<Rightarrow> string" where
  "known_layer l = (if LayerPriority l = None \<or> l = [] then LayerCEL else l)"

definition manifest_template :: "string \<Rightarrow> policyManifest \<Rightarrow> string \<Rightarrow> json_map option \<Rightarrow> PolicyTemplate" where
  "manifest_template path m expr params =
     \<lparr>TemplID = MetaName m, TemplName = MetaName m,
      Description = TrimRight (\<lambda>c. c \<in> {CHR 0x0A, CHR 0x0D, CHR '' ''}) (SpecDescription m),
      Expression = expr, Params = params, SourceFile = path, SourceLine = 1, TemplDefaultAction = SpecDefaultAction m\<rparr>"

definition manifest_binding :: "policyManifest \<Rightarrow> bool \<Rightarrow> PolicyBinding" where
  "manifest_binding m requireApproval =
     \<lparr>TemplateID = MetaName m, Scope = \<lparr>Tools = MatchTools m, Sessions = [], ScopeEffects = MatchEffects m\<rparr>,
      Priority = 0, Layer = known_layer (SpecLayer m), RequireApproval = requireApproval,
      Message = first_message m, DefaultAction = SpecDefaultAction m\<rparr>"

type_synonym parsed = "PolicyTemplate list \<times> PolicyBinding list"

fun parse_docs :: "PolicyLib \<Rightarrow> string \<Rightarrow> nat \<Rightarrow> policyManifest list \<Rightarrow> bool \<Rightarrow> parsed \<Rightarrow> (PolicyFileError + parsed) option" where
  "parse_docs lib path n [] bad (ts, bs) = Some (if bad then Inl YamlFailed else Inr (ts, bs))"
| "parse_docs lib path n (m # ms) bad (ts, bs) =
    (if Kind m \<noteq> ''PolicyTemplate'' \<or> APIVersion m \<noteq> ''nixis.io/v1'' then parse_docs lib path (n + 1) ms bad (ts, bs)
     else Option.bind (buildCombinedExpression (iterOrder lib path n) m) (\<lambda>(expr, requireApproval).
       if expr = [] then parse_docs lib path (n + 1) ms bad (ts, bs)
       else case resolveParams (SpecParams m) of
              Inl e \<Rightarrow> Some (Inl (BadParam e))
            | Inr params \<Rightarrow>
                parse_docs lib path (n + 1) ms bad
                  (ts @ [manifest_template path m expr params], bs @ [manifest_binding m requireApproval])))"

text \<open>\<^verbatim>\<open>files\<close> reads a file; \<^const>\<open>None\<close> is an error.\<close>

definition ParsePolicyFileAll :: "PolicyLib \<Rightarrow> (string \<rightharpoonup> string) \<Rightarrow> string \<Rightarrow> (PolicyFileError + parsed) option" where
  "ParsePolicyFileAll lib files path = (case files path of
     None \<Rightarrow> Some (Inl ReadFileFailed)
   | Some data \<Rightarrow> (let (docs, bad) = yamlDocs lib data in parse_docs lib path 0 docs bad ([], [])))"

definition ParsePolicyFile ::
    "PolicyLib \<Rightarrow> (string \<rightharpoonup> string) \<Rightarrow> string \<Rightarrow> (PolicyFileError + (PolicyTemplate \<times> PolicyBinding) option) option" where
  "ParsePolicyFile lib files path = map_option (\<lambda>r. case r of
       Inl e \<Rightarrow> Inl e
     | Inr (ts, bs) \<Rightarrow> Inr (if ts = [] then None else Some (hd ts, hd bs))) (ParsePolicyFileAll lib files path)"

text \<open>What the directory walk visits: an entry it cannot read, a directory, or a file with its path.\<close>

datatype walk_item = WalkError | WalkDirectory | WalkFile string

definition policy_file_name :: "string \<Rightarrow> bool" where
  "policy_file_name name \<longleftrightarrow> HasSuffix name ''.yaml'' \<or> HasSuffix name ''.yml''"

fun parse_walk :: "PolicyLib \<Rightarrow> (string \<rightharpoonup> string) \<Rightarrow> walk_item list \<Rightarrow> parsed \<Rightarrow> (PolicyFileError + parsed) option" where
  "parse_walk lib files [] acc = Some (Inr acc)"
| "parse_walk lib files (WalkError # ws) acc = Some (Inl WalkFailed)"
| "parse_walk lib files (WalkDirectory # ws) acc = parse_walk lib files ws acc"
| "parse_walk lib files (WalkFile path # ws) acc =
    (if \<not> policy_file_name (Base path) then parse_walk lib files ws acc
     else Option.bind (ParsePolicyFileAll lib files path) (\<lambda>r. case r of
            Inl _ \<Rightarrow> parse_walk lib files ws acc
          | Inr (ts, bs) \<Rightarrow> parse_walk lib files ws (fst acc @ ts, snd acc @ bs)))"

definition ParsePolicyDir :: "PolicyLib \<Rightarrow> (string \<rightharpoonup> string) \<Rightarrow> walk_item list \<Rightarrow> (PolicyFileError + parsed) option" where
  "ParsePolicyDir lib files walk = parse_walk lib files walk ([], [])"

section \<open>Standalone occurrences\<close>

text \<open>The reference: every occurrence of the name that is an identifier of its own is replaced, everything else is
  copied.\<close>

function replace_spec :: "string \<Rightarrow> string \<Rightarrow> string \<Rightarrow> nat \<Rightarrow> string" where
  "replace_spec expr name r p =
    (if p \<ge> length expr then []
     else if name \<noteq> [] \<and> HasPrefix (drop p expr) name \<and> standalone_at expr name p
       then r @ replace_spec expr name r (p + length name)
     else expr ! p # replace_spec expr name r (p + 1))"
  by pat_completeness auto
termination by (relation "measure (\<lambda>(expr, name, r, p). length expr - p)") (auto simp: not_le diff_less_mono2)

declare replace_spec.simps [simp del]

lemma Index_first:
  assumes "Index s sub = Some i"
  shows "HasPrefix (drop i s) sub \<and> (\<forall>j < i. \<not> HasPrefix (drop j s) sub) \<and> i + length sub \<le> length s"
  using assms
proof (induction s arbitrary: i)
  case (Cons c s)
  show ?case
  proof (cases "HasPrefix (c # s) sub")
    case True
    with Cons.prems have "i = 0" by simp
    moreover have "length sub \<le> length (c # s)" using True by (metis HasPrefix_def length_take min.cobounded1)
    ultimately show ?thesis using True by simp
  next
    case False
    with Cons.prems obtain j where j: "Index s sub = Some j" "i = Suc j" by auto
    from Cons.IH [OF j(1)] show ?thesis using False j(2) by (auto simp: less_Suc_eq_0_disj)
  qed
qed (simp split: if_splits)

lemma Index_none: "Index s sub = None \<Longrightarrow> \<not> HasPrefix (drop j s) sub"
proof (induction s arbitrary: j)
  case (Cons c s)
  then show ?case by (cases j) (auto split: if_splits)
qed (simp add: HasPrefix_def split: if_splits)

lemma replace_spec_copy:
  assumes "\<And>q. p \<le> q \<Longrightarrow> q < p + k \<Longrightarrow> \<not> (HasPrefix (drop q expr) name \<and> standalone_at expr name q)"
    and "p + k \<le> length expr"
  shows "replace_spec expr name r p = take k (drop p expr) @ replace_spec expr name r (p + k)"
  using assms
proof (induction k arbitrary: p)
  case (Suc k)
  have "replace_spec expr name r p = expr ! p # replace_spec expr name r (p + 1)"
    using Suc.prems(1) [of p] Suc.prems(2) by (subst replace_spec.simps) auto
  also have "replace_spec expr name r (p + 1) = take k (drop (p + 1) expr) @ replace_spec expr name r (p + 1 + k)"
    using Suc.prems by (intro Suc.IH) auto
  finally show ?case
    using Suc.prems(2) by (simp add: Cons_nth_drop_Suc [symmetric])
qed simp

lemma inside_name_not_standalone:
  assumes "HasPrefix (drop k expr) name" and "list_all isIdentContinue name" and "k < q" and "q < k + length name"
  shows "\<not> standalone_at expr name q"
proof -
  obtain t where t: "drop k expr = name @ t" using assms(1) by (auto simp: HasPrefix_iff)
  have "expr ! (q - 1) = drop k expr ! (q - 1 - k)"
  proof -
    have "length (drop k expr) > 0" using t assms(3,4) by auto
    then show ?thesis using assms(3) by (simp add: nth_drop)
  qed
  also have "\<dots> = name ! (q - 1 - k)"
  proof -
    have "q - 1 - k < length name" using assms(3,4) by linarith
    then show ?thesis using t by (simp add: nth_append)
  qed
  finally have "isIdentContinue (expr ! (q - 1))" using assms(2-4) by (simp add: list_all_length)
  then show ?thesis using assms(3) by (simp add: standalone_at_def isIdentChar_def)
qed

lemma replace_from_spec:
  assumes "name \<noteq> []" and "list_all isIdentContinue name"
  shows "replace_from expr name r i res = Some (res @ replace_spec expr name r i)"
proof (induction "length expr - i" arbitrary: i res rule: less_induct)
  case less
  show ?case
  proof (cases "i < length expr")
    case False
    then show ?thesis by (simp add: replace_from.simps replace_spec.simps)
  next
    case True
    show ?thesis
    proof (cases "Index (drop i expr) name")
      case None
      have "\<not> HasPrefix (drop q expr) name" if "i \<le> q" for q
        using Index_none [OF None, of "q - i"] that by (simp add: add.commute)
      then have "replace_spec expr name r i = take (length expr - i) (drop i expr) @ replace_spec expr name r (i + (length expr - i))"
        using True by (intro replace_spec_copy) auto
      then show ?thesis using None True by (simp add: replace_from.simps replace_spec.simps [of _ _ _ "length expr"])
    next
      case (Some idx)
      let ?k = "i + idx"
      from Index_first [OF Some] have f: "HasPrefix (drop ?k expr) name" "\<forall>j < idx. \<not> HasPrefix (drop j (drop i expr)) name"
        and len: "?k + length name \<le> length expr" using True by (auto simp: add.commute)
      have "\<not> HasPrefix (drop q expr) name" if "i \<le> q" "q < ?k" for q
        using f(2) [rule_format, of "q - i"] that by (simp add: add.commute)
      then have pre: "replace_spec expr name r i = take idx (drop i expr) @ replace_spec expr name r ?k"
        using len by (intro replace_spec_copy) auto
      have post: "replace_spec expr name r ?k =
          (if standalone_at expr name ?k then r else name) @ replace_spec expr name r (?k + length name)"
      proof (cases "standalone_at expr name ?k")
        case sa: True
        have "?k < length expr" using len assms(1) by (cases name) auto
        then show ?thesis using sa f(1) assms(1) by (subst replace_spec.simps) simp
      next
        case sa: False
        have "replace_spec expr name r ?k = take (length name) (drop ?k expr) @ replace_spec expr name r (?k + length name)"
        proof (rule replace_spec_copy [OF _ len])
          fix q assume "?k \<le> q" "q < ?k + length name"
          then show "\<not> (HasPrefix (drop q expr) name \<and> standalone_at expr name q)"
            using sa inside_name_not_standalone [OF f(1) assms(2)] by (cases "q = ?k") auto
        qed
        moreover have "take (length name) (drop ?k expr) = name" using f(1) by (simp add: HasPrefix_def)
        ultimately show ?thesis using sa by simp
      qed
      have "length expr - (?k + length name) < length expr - i" using True assms(1) by (cases name) auto
      from less [OF this] show ?thesis
        using True Some pre post by (subst replace_from.simps) (simp add: add.assoc)
    qed
  qed
qed

text \<open>Whatever its characters, a non-empty name is replaced in finitely many turns; with an empty one the loop does not
  move.\<close>

lemma replace_from_returns:
  assumes "name \<noteq> []"
  shows "\<exists>y. replace_from expr name r i res = Some y"
proof (induction "length expr - i" arbitrary: i res rule: less_induct)
  case less
  show ?case
  proof (cases "i < length expr \<and> Index (drop i expr) name \<noteq> None")
    case True
    then obtain idx where idx: "Index (drop i expr) name = Some idx" by auto
    have "length expr - (i + idx + length name) < length expr - i" using True assms by (cases name) auto
    from less [OF this] show ?thesis using True idx by (subst replace_from.simps) simp
  next
    case False
    then show ?thesis by (subst replace_from.simps) auto
  qed
qed

lemma Index_empty [simp]: "Index s [] = Some 0"
  by (cases s) auto

lemma replace_from_stuck:
  assumes "i < length expr"
  shows "replace_from expr [] r i res = None"
proof -
  have "i \<ge> length expr" if "replace_from expr [] r i res = Some y" for y
  proof -
    have "[] = ([] :: string) \<longrightarrow> i \<ge> length expr"
    proof (rule replace_from.raw_induct [where P = "\<lambda>e n r i res y. n = [] \<longrightarrow> i \<ge> length e", OF _ that], intro impI)
      fix self and e n r :: string and i and res y :: string
      assume IH: "\<And>e n r i res y. self e n r i res = Some y \<Longrightarrow> n = [] \<longrightarrow> i \<ge> length e"
        and step: "(if i < length e then (case Index (drop i e) n of None \<Rightarrow> Some (res @ drop i e)
              | Some idx \<Rightarrow> self e n r (i + idx + length n)
                  (res @ take idx (drop i e) @ (if standalone_at e n (i + idx) then r else n)))
            else Some res) = Some y" and n: "n = []"
      show "i \<ge> length e"
      proof (rule ccontr)
        assume "\<not> i \<ge> length e"
        with step n have "self e [] r i (res @ (if standalone_at e [] i then r else n)) = Some y" by simp
        from IH [OF this] \<open>\<not> i \<ge> length e\<close> show False by simp
      qed
    qed
    then show ?thesis by simp
  qed
  with assms show ?thesis by (cases "replace_from expr [] r i res") fastforce+
qed

text \<open>Claim C22. The substitution of a variable returns, except that it runs forever when the name is empty and the
  expression is not; and for a name made of identifier characters the result is the reference: exactly the
  occurrences that are identifiers of their own are replaced, whatever overlaps them, and the rest is copied.\<close>

theorem replaceIdentifier_reference:
  shows "(replaceIdentifier expr name r = None \<longleftrightarrow> name = [] \<and> expr \<noteq> []) \<and>
    (name \<noteq> [] \<and> list_all isIdentContinue name \<longrightarrow> replaceIdentifier expr name r = Some (replace_spec expr name r 0))"
proof
  show "replaceIdentifier expr name r = None \<longleftrightarrow> name = [] \<and> expr \<noteq> []"
  proof (cases "name = []")
    case True
    then show ?thesis
      using replace_from_stuck [of 0 expr r "[]"] replace_from.simps [of "[]" "[]"] by (cases expr) (auto simp: replaceIdentifier_def)
  next
    case False
    then show ?thesis using replace_from_returns [OF False, of expr r 0 "[]"] by (auto simp: replaceIdentifier_def)
  qed
  show "name \<noteq> [] \<and> list_all isIdentContinue name \<longrightarrow> replaceIdentifier expr name r = Some (replace_spec expr name r 0)"
    using replace_from_spec [of name expr r 0 "[]"] by (auto simp: replaceIdentifier_def)
qed

theorem replaceIdentifier_reference_witness:
  "replaceIdentifier ''port > bash.port'' ''port'' ''(p)'' = Some ''(p) > bash.port''"
proof -
  have "list_all isIdentContinue ''port''" by (simp add: isIdentContinue_def)
  then have "replaceIdentifier ''port > bash.port'' ''port'' ''(p)'' = Some (replace_spec ''port > bash.port'' ''port'' ''(p)'' 0)"
    using replaceIdentifier_reference [of "''port > bash.port''" "''port''" "''(p)''"] by simp
  also have "replace_spec ''port > bash.port'' ''port'' ''(p)'' 0 = ''(p) > bash.port''"
    by (simp add: replace_spec.simps standalone_at_def HasPrefix_def isIdentChar_def isIdentContinue_def)
  finally show ?thesis .
qed

section \<open>Parameters within their bounds\<close>

definition port_ok :: "yaml \<Rightarrow> bool" where
  "port_ok v = (case v of YInt n \<Rightarrow> 1024 \<le> n \<and> n \<le> 65535 | _ \<Rightarrow> True)"

definition param_ok :: "paramDefinition \<Rightarrow> bool" where
  "param_ok def = (ParamDefault def = YNull \<or> ParamType def \<noteq> ''array'' \<or>
     (case ParamDefault def of
        YSeq xs \<Rightarrow> list_all port_ok xs
      | _ \<Rightarrow> False))"

fun param_error_name :: "ParamError \<Rightarrow> string" where
  "param_error_name (NotASequence name) = name"
| "param_error_name (WellKnownPort name n) = name"
| "param_error_name (PortOutOfRange name n) = name"

lemma check_ports_ok:
  "check_ports name xs = None \<longleftrightarrow> list_all port_ok xs"
  by (induction xs) (auto simp: port_ok_def split: yaml.split)

lemma check_ports_name: "check_ports name xs = Some e \<Longrightarrow> param_error_name e = name"
  by (induction xs) (auto split: yaml.splits if_splits)

lemma resolve_one_ok: "param_ok def \<Longrightarrow> resolve_one name def = Inr (yaml_any (ParamDefault def))"
  by (auto simp: param_ok_def resolve_one_def check_ports_ok [THEN iffD2] split: yaml.splits)

lemma resolve_one_bad:
  assumes "\<not> param_ok def"
  shows "\<exists>e. resolve_one name def = Inl e \<and> param_error_name e = name"
  using assms check_ports_ok [of name] check_ports_name
  by (auto simp: param_ok_def resolve_one_def split: yaml.splits option.splits)

lemma resolve_loop_ok:
  assumes "\<forall>(name, def) \<in> set defs. param_ok def" and "distinct (map fst defs)"
  shows "resolve_loop defs acc = Inr (acc ++ map_of (map (\<lambda>(name, def). (name, yaml_any (ParamDefault def))) defs))"
  using assms
proof (induction defs arbitrary: acc)
  case (Cons nd defs)
  obtain name def where nd: "nd = (name, def)" by fastforce
  have "name \<notin> dom (map_of (map (\<lambda>(name, def). (name, yaml_any (ParamDefault def))) defs))"
    unfolding dom_map_of_conv_image_fst using Cons.prems(2) nd by (auto simp: image_iff)
  then have "acc(name \<mapsto> v) ++ map_of (map (\<lambda>(name, def). (name, yaml_any (ParamDefault def))) defs) =
      acc ++ (\<lambda>a. if a = name then Some v else map_of (map (\<lambda>(name, def). (name, yaml_any (ParamDefault def))) defs) a)" for v
    by (auto simp: fun_eq_iff map_add_def split: option.split)
  then show ?case using Cons nd by (auto simp: resolve_one_ok)
qed simp

lemma resolve_loop_bad:
  assumes "(name, def) \<in> set defs" and "\<not> param_ok def"
  shows "\<exists>e. resolve_loop defs acc = Inl e \<and> (\<exists>d. (param_error_name e, d) \<in> set defs \<and> \<not> param_ok d)"
  using assms
proof (induction defs arbitrary: acc)
  case (Cons nd defs)
  obtain n d where nd: "nd = (n, d)" by fastforce
  show ?case
  proof (cases "param_ok d")
    case True
    then have "(name, def) \<in> set defs" using Cons.prems nd by auto
    from Cons.IH [OF this Cons.prems(2)] show ?thesis using True nd by (force simp: resolve_one_ok)
  next
    case False
    from resolve_one_bad [OF False, of n] show ?thesis using nd False by fastforce
  qed
qed simp

text \<open>The parameters of a policy are resolved to their defaults exactly when every array default is a sequence
  all of whose integers lie between 1024 and 65535; otherwise the file is refused with an error that names a
  parameter at fault.\<close>

theorem resolveParams_bounds:
  assumes "distinct (map fst defs)"
  shows "(\<forall>(name, def) \<in> set defs. param_ok def) \<and>
      resolveParams defs = Inr (if defs = [] then None
        else Some (map_of (map (\<lambda>(name, def). (name, yaml_any (ParamDefault def))) defs))) \<or>
    (\<exists>e d. resolveParams defs = Inl e \<and> (param_error_name e, d) \<in> set defs \<and> \<not> param_ok d)"
proof (cases "\<forall>(name, def) \<in> set defs. param_ok def")
  case True
  then show ?thesis using resolve_loop_ok [OF True assms] by (simp add: resolveParams_def)
next
  case False
  then obtain name def where nd: "(name, def) \<in> set defs" "\<not> param_ok def" by auto
  from resolve_loop_bad [OF this, of Map.empty] have "\<exists>e d. resolve_loop defs Map.empty = Inl e \<and> (param_error_name e, d) \<in> set defs \<and> \<not> param_ok d"
    by blast
  moreover have "defs \<noteq> []" using nd by auto
  ultimately show ?thesis by (auto simp: resolveParams_def)
qed

theorem resolveParams_bounds_witness:
  "\<exists>e. resolveParams [(''devPorts'', \<lparr>ParamType = ''array'', ParamDefault = YSeq [YInt 3000, YInt 80]\<rparr>)] = Inl e \<and>
     param_error_name e = ''devPorts''"
  using resolveParams_bounds [of "[(''devPorts'', \<lparr>ParamType = ''array'', ParamDefault = YSeq [YInt 3000, YInt 80]\<rparr>)]"]
  by (auto simp: param_ok_def port_ok_def)

section \<open>Parsed policies\<close>

text \<open>What the code relies on: every variable has a name, and iterating over a map visits its entries.\<close>

definition lib_ok :: "PolicyLib \<Rightarrow> bool" where
  "lib_ok lib \<longleftrightarrow>
    (\<forall>data. \<forall>m \<in> set (fst (yamlDocs lib data)). \<forall>v \<in> set (SpecVariables m). VarName v \<noteq> []) \<and>
    (\<forall>path n k i vs. set (iterOrder lib path n k i vs) = set vs)"

lemma subst_all_returns:
  "\<forall>(name, val) \<in> set vs. name \<noteq> [] \<Longrightarrow> \<exists>e. subst_all vs expr = Some e"
proof (induction vs arbitrary: expr)
  case (Cons nv vs)
  obtain name val where nv: "nv = (name, val)" by fastforce
  then have "name \<noteq> []" using Cons.prems by auto
  from replace_from_returns [OF this] obtain e where "replaceIdentifier expr name (''('' @ val @ '')'') = Some e"
    unfolding replaceIdentifier_def by blast
  with Cons nv show ?case by auto
qed simp

lemma inline_passes_returns:
  assumes "\<forall>(name, val) \<in> set vars. name \<noteq> []" and "\<And>i vs. set (ord i vs) = set vs"
  shows "\<exists>e. inline_passes ord vars n i expr = Some e"
proof (induction n arbitrary: i expr)
  case (Suc n)
  have "\<forall>(name, val) \<in> set (ord i vars). name \<noteq> []" using assms by simp
  from subst_all_returns [OF this] obtain e where "subst_all (ord i vars) expr = Some e" by blast
  then show ?case using Suc by auto
qed simp

lemma fst_update: "fst ` set (AList.update k v al) = insert k (fst ` set al)"
  by (simp add: dom_update)

lemma variable_map_names:
  assumes "\<forall>v \<in> set vs. VarName v \<noteq> []"
  shows "\<forall>(name, val) \<in> set (variable_map vs). name \<noteq> []"
proof -
  have "fst ` set (foldl (\<lambda>m v. AList.update (VarName v) (normalizeExpression (VarExpression v)) m) acc vs) = fst ` set acc \<union> VarName ` set vs" for acc
    by (induction vs arbitrary: acc) (auto simp: fst_update)
  from this [of "[]"] have "fst ` set (variable_map vs) = VarName ` set vs" by (simp add: variable_map_def)
  then show ?thesis using assms by force
qed

lemma inline_expr_returns:
  assumes "\<forall>v \<in> set (SpecVariables m). VarName v \<noteq> []" and "\<And>k i vs. set (ord k i vs) = set vs"
  shows "\<exists>e. inline_expr ord m k expr = Some e"
  unfolding inline_expr_def Let_def by (rule inline_passes_returns [OF variable_map_names [OF assms(1)] assms(2)])

lemma inline_list_returns:
  assumes "\<forall>v \<in> set (SpecVariables m). VarName v \<noteq> []" and "\<And>k i vs. set (ord k i vs) = set vs"
  shows "\<exists>es. inline_list ord m kvs = Some es"
proof (induction kvs)
  case (Cons kv kvs)
  obtain k v where "kv = (k, v)" by fastforce
  with Cons inline_expr_returns [of m ord k "ValExpression v"] assms show ?case by fastforce
qed simp

lemma buildCombinedExpression_returns:
  assumes "\<forall>v \<in> set (SpecVariables m). VarName v \<noteq> []" and "\<And>k i vs. set (ord k i vs) = set vs"
  shows "\<exists>e a. buildCombinedExpression ord m = Some (e, a) \<and> (e = [] \<or> HasPrefix e ''!('')"
proof -
  have l: "\<exists>es. inline_list ord m kvs = Some es" for kvs by (rule inline_list_returns) (use assms in auto)
  have o: "\<exists>e. inline_expr ord m k x = Some e" for k x by (rule inline_expr_returns) (use assms in auto)
  have p: "HasPrefix (''!('' @ x) ''!(''" for x by (simp add: HasPrefix_def)
  show ?thesis
    using l [of "with_action ''DENY'' m"] l [of "with_action ''REQUIRE_APPROVAL'' m"] o p
    by (fastforce simp: buildCombinedExpression_def negated_def split: list.split)
qed

text \<open>A template with its binding.\<close>

definition policy_pair :: "string \<Rightarrow> PolicyTemplate \<Rightarrow> PolicyBinding \<Rightarrow> bool" where
  "policy_pair path t b \<longleftrightarrow> TemplateID b = TemplID t \<and> Layer b \<in> dom LayerPriority \<and> HasPrefix (Expression t) ''!('' \<and> SourceFile t = path"

lemma known_layer_dom: "known_layer l \<in> dom LayerPriority"
  by (auto simp: known_layer_def LayerPriority_def LayerCEL_def)

lemma manifest_pair:
  "HasPrefix e ''!('' \<Longrightarrow> policy_pair path (manifest_template path m e ps) (manifest_binding m a)"
  by (simp add: policy_pair_def manifest_template_def manifest_binding_def known_layer_dom)

lemma parse_docs_returns:
  assumes "\<forall>m \<in> set ms. \<forall>v \<in> set (SpecVariables m). VarName v \<noteq> []" and "\<And>n k i vs. set (iterOrder lib path n k i vs) = set vs"
    and "list_all2 (policy_pair path) ts bs"
  shows "\<exists>r. parse_docs lib path n ms bad (ts, bs) = Some r \<and> (\<forall>ts' bs'. r = Inr (ts', bs') \<longrightarrow> list_all2 (policy_pair path) ts' bs')"
  using assms(1,3)
proof (induction ms arbitrary: n ts bs)
  case (Cons m ms)
  obtain e a where e: "buildCombinedExpression (iterOrder lib path n) m = Some (e, a)" "e = [] \<or> HasPrefix e ''!(''"
    using buildCombinedExpression_returns [of m "iterOrder lib path n"] Cons.prems(1) assms(2) by auto
  show ?case
  proof (cases "Kind m \<noteq> ''PolicyTemplate'' \<or> APIVersion m \<noteq> ''nixis.io/v1'' \<or> e = []")
    case True
    then show ?thesis using Cons e by auto
  next
    case False
    then have "list_all2 (policy_pair path) (ts @ [manifest_template path m e ps]) (bs @ [manifest_binding m a])" for ps
      using Cons.prems(2) e(2) by (simp add: list_all2_appendI manifest_pair)
    then show ?thesis
      using False e(1) Cons.IH Cons.prems(1) by (cases "resolveParams (SpecParams m)") auto
  qed
qed simp

text \<open>What one file contributes.\<close>

definition file_policies :: "PolicyLib \<Rightarrow> (string \<rightharpoonup> string) \<Rightarrow> string \<Rightarrow> parsed" where
  "file_policies lib files path = (case ParsePolicyFileAll lib files path of Some (Inr p) \<Rightarrow> p | _ \<Rightarrow> ([], []))"

definition walked_files :: "walk_item list \<Rightarrow> string list" where
  "walked_files ws = filter (\<lambda>p. policy_file_name (Base p)) (concat (map (\<lambda>w. case w of WalkFile p \<Rightarrow> [p] | _ \<Rightarrow> []) ws))"

lemma ParsePolicyFileAll_returns:
  assumes "lib_ok lib"
  shows "\<exists>r. ParsePolicyFileAll lib files path = Some r \<and> (\<forall>ts bs. r = Inr (ts, bs) \<longrightarrow> list_all2 (policy_pair path) ts bs)"
proof (cases "files path")
  case (Some data)
  obtain docs bad where d: "yamlDocs lib data = (docs, bad)" by fastforce
  have "\<forall>m \<in> set docs. \<forall>v \<in> set (SpecVariables m). VarName v \<noteq> []" using assms d by (metis fst_conv lib_ok_def)
  moreover have "\<And>n k i vs. set (iterOrder lib path n k i vs) = set vs" using assms by (simp add: lib_ok_def)
  ultimately show ?thesis
    using parse_docs_returns [of docs lib path "[]" "[]" 0 bad] Some d by (simp add: ParsePolicyFileAll_def)
qed (simp add: ParsePolicyFileAll_def)

lemma file_policies_pairs:
  "lib_ok lib \<Longrightarrow> list_all2 (policy_pair path) (fst (file_policies lib files path)) (snd (file_policies lib files path))"
  using ParsePolicyFileAll_returns [of lib files path] by (fastforce simp: file_policies_def split: sum.split)

lemma parse_walk_files:
  assumes "lib_ok lib" and "WalkError \<notin> set ws"
  shows "parse_walk lib files ws acc = Some (Inr
    (fst acc @ concat (map (fst \<circ> file_policies lib files) (walked_files ws)),
     snd acc @ concat (map (snd \<circ> file_policies lib files) (walked_files ws))))"
  using assms(2)
proof (induction ws arbitrary: acc)
  case (Cons w ws)
  show ?case
  proof (cases w)
    case (WalkFile p)
    obtain r where r: "ParsePolicyFileAll lib files p = Some r" using ParsePolicyFileAll_returns [OF assms(1)] by blast
    show ?thesis
    proof (cases r)
      case (Inl e)
      with WalkFile Cons r show ?thesis by (simp add: walked_files_def file_policies_def)
    next
      case (Inr p)
      with WalkFile Cons r show ?thesis by (cases p) (simp add: walked_files_def file_policies_def)
    qed
  qed (use Cons in \<open>auto simp: walked_files_def\<close>)
qed (simp add: walked_files_def)

lemma parse_walk_error:
  "lib_ok lib \<Longrightarrow> WalkError \<in> set ws \<Longrightarrow> parse_walk lib files ws acc = Some (Inl WalkFailed)"
proof (induction ws arbitrary: acc)
  case (Cons w ws)
  show ?case
  proof (cases w)
    case (WalkFile p)
    obtain r where "ParsePolicyFileAll lib files p = Some r" using ParsePolicyFileAll_returns [OF Cons.prems(1)] by blast
    with WalkFile Cons show ?thesis by (auto split: sum.split)
  qed (use Cons in auto)
qed simp


text \<open>A file with one manifest, and a file that does not decode.\<close>

definition demo_manifest :: policyManifest where
  "demo_manifest = \<lparr>APIVersion = ''nixis.io/v1'', Kind = ''PolicyTemplate'', MetaName = ''no-push'', SpecDescription = ''d'',
     SpecLayer = ''ceiling'', MatchTools = [''Bash''], MatchEffects = [],
     SpecVariables = [\<lparr>VarName = ''x'', VarExpression = ''a''\<rparr>],
     SpecValidations = [\<lparr>ValExpression = ''x == y'', ValMessage = ''m'', ValAction = ''DENY''\<rparr>],
     SpecDefaultAction = [], SpecParams = []\<rparr>"

definition demo_lib :: PolicyLib where
  "demo_lib = \<lparr>yamlDocs = (\<lambda>data. if data = ''good'' then ([demo_manifest], False) else ([], True)),
     iterOrder = (\<lambda>path n k i vs. vs)\<rparr>"

definition demo_files :: "string \<rightharpoonup> string" where
  "demo_files = [''/d/a.yaml'' \<mapsto> ''good'', ''/d/b.yml'' \<mapsto> ''bad'']"

lemma demo_lib_ok: "lib_ok demo_lib"
  by (simp add: lib_ok_def demo_lib_def demo_manifest_def)

lemma demo_inline: "inline_expr (\<lambda>k i vs. vs) demo_manifest k ''x == y'' = Some ''(a) == y''"
proof -
  have v: "variable_map (SpecVariables demo_manifest) = [(''x'', ''a'')]"
    by (simp add: variable_map_def demo_manifest_def normalizeExpression_def HasPrefix_def)
  have n: "normalizeExpression ''x == y'' = ''x == y''" by (simp add: normalizeExpression_def HasPrefix_def)
  have i: "list_all isIdentContinue ''x''" by (simp add: isIdentContinue_def)
  have r: "replaceIdentifier e ''x'' ''(a)'' = Some (replace_spec e ''x'' ''(a)'' 0)" for e
    using replace_from_spec [OF _ i] by (simp add: replaceIdentifier_def)
  have "replace_spec ''x == y'' ''x'' ''(a)'' 0 = ''(a) == y''" "replace_spec ''(a) == y'' ''x'' ''(a)'' 0 = ''(a) == y''"
    by (simp_all add: replace_spec.simps standalone_at_def HasPrefix_def isIdentChar_def isIdentContinue_def)
  then show ?thesis by (simp add: inline_expr_def v n r Let_def numeral_2_eq_2)
qed


end
