(* ===== verification/EventStream.thy ===== *)
theory EventStream
  imports Daemon PolicyFile "HOL-Library.Multiset"
begin

text \<open>
  The stream server of \<^verbatim>\<open>internal/stream\<close>: the events it accepts and the envelopes it builds, its clients with their
  bounded channels, the connection limiter, and its HTTP handlers.  The goroutines of the server (fan-out,
  heartbeat, the callers that emit bundle and checkpoint events, backfill answers, and the two pumps of every
  client) interleave: taking a sequence number and sending the message are separate steps.  Broadcasting to all
  clients is one step, since the channels of different clients are independent.

  A message is kept as the value that is marshalled; every value built here marshals.  The decoding of requests and
  the parsing of URLs are parameters.
\<close>

section \<open>Events\<close>

definition validEventTypes :: "string list" where
  "validEventTypes =
    [''policy.evaluated'', ''policy.denied'', ''delegation.created'', ''delegation.revoked'', ''delegation.expired'',
     ''audit.checkpoint'', ''stream.heartbeat'', ''bundle.activated'', ''system.error'', ''label.escalated'',
     ''secret.detected'', ''mcp.tool_drift'']"

definition normalizeEventType :: "string \<Rightarrow> string" where
  "normalizeEventType internal =
    (if internal \<in> {''policy.evaluated'', ''decision''} then ''policy.evaluated''
     else if internal = ''policy.denied'' then ''policy.denied''
     else if internal = ''delegation.created'' then ''delegation.created''
     else if internal = ''delegation.revoked'' then ''delegation.revoked''
     else if internal = ''delegation.expired'' then ''delegation.expired''
     else if internal = ''audit.checkpoint'' then ''audit.checkpoint''
     else if internal = ''stream.heartbeat'' then ''stream.heartbeat''
     else if internal = ''bundle.activated'' then ''bundle.activated''
     else if internal = ''system.error'' then ''system.error''
     else if internal \<in> {''label.escalated'', ''label.tainted''} then ''label.escalated''
     else if internal \<in> {''secret.detected'', ''secret.found''} then ''secret.detected''
     else if internal = ''mcp.tool_drift'' then ''mcp.tool_drift''
     else [])"

text \<open>The envelope.  The time is kept as such, it is printed in RFC 3339; the data is the document that is printed.\<close>

record cloudEvent =
  CeID :: string
  CeType :: string
  CeSubject :: string
  CeTime :: gotime
  CeSequence :: u64
  CeMerklePrev :: string
  CeMerkleSelf :: string
  CeData :: json

definition CeSource :: string where
  "CeSource = ''nixis-daemon/instance-001''"

record stateSnapshot =
  SnapSequence :: u64
  SnapPolicies :: int
  SnapVersion :: u64
  SnapBundleHash :: string

datatype message = CloudEvent cloudEvent | StateSnapshot stateSnapshot | Pong int int

definition num :: "int \<Rightarrow> json" where
  "num n = JNum (int_literal n)"

definition decimal :: "u64 \<Rightarrow> string" where
  "decimal n = itoa (uint n)"

fun action_code :: "Action \<Rightarrow> int" where
  "action_code ActionDeny = 0"
| "action_code ActionAllow = 1"
| "action_code ActionRequireApproval = 2"
| "action_code ActionAudit = 3"

definition event_labels :: "SecurityLabel \<Rightarrow> json" where
  "event_labels l = JObj [(''categories'', num (uint (Category l))), (''confidentiality'', num (uint (Confidentiality l))),
                          (''integrity'', num (uint (Integrity l)))]"

text \<open>\<^verbatim>\<open>time.Unix(0, n)\<close>.\<close>

definition time_of_nano :: "int \<Rightarrow> gotime" where
  "time_of_nano n = n + 62135596800 * second"

definition buildCloudEvent :: "StreamEvent \<Rightarrow> u64 \<Rightarrow> cloudEvent" where
  "buildCloudEvent event seq =
    (let wireType = (if EvType event \<in> set validEventTypes then EvType event else normalizeEventType (EvType event));
         data = JObj [(''decision'', JObj [(''action'', JStr (MarshalJSON (action_code (EvAction event)))), (''enforcing_layer'', JStr (EvLayer event)),
                        (''labels'', event_labels (EvLabel event)), (''policy_id'', JStr (EvPolicy event)), (''reason'', JStr (EvReason event))]),
                      (''label_state'', JStr (EvLabelState event)), (''latency_ns'', num (EvLatency event)),
                      (''session_id'', JStr (EvSession event)), (''tool'', JStr (EvTool event))];
         eid = (if EvSession event \<noteq> [] then ''evt-'' @ take (min 8 (length (EvSession event))) (EvSession event) @ ''-'' @ decimal seq
                else ''evt-'' @ decimal seq)
     in \<lparr>CeID = eid, CeType = wireType, CeSubject = EvTool event, CeTime = time_of_nano (EvTimestamp event), CeSequence = seq,
         CeMerklePrev = [], CeMerkleSelf = [], CeData = data\<rparr>)"

definition unixMilli :: "gotime \<Rightarrow> int" where
  "unixMilli t = unixNano t div 1000000"

definition heartbeat_event :: "gotime \<Rightarrow> u64 \<Rightarrow> cloudEvent" where
  "heartbeat_event now seq =
     \<lparr>CeID = ''hb-'' @ decimal seq, CeType = ''stream.heartbeat'', CeSubject = [], CeTime = now, CeSequence = seq,
      CeMerklePrev = [], CeMerkleSelf = [],
      CeData = JObj [(''serverTime'', num (unixMilli now)), (''lag'', num 0), (''sequence'', num (uint seq)), (''seq'', num (uint seq)),
                     (''sampling_active'', JBool False), (''sample_rate'', JNum ''0'')]\<rparr>"

definition system_error_event :: "gotime \<Rightarrow> string \<Rightarrow> string \<Rightarrow> u64 \<Rightarrow> cloudEvent" where
  "system_error_event now reason msg seq =
     \<lparr>CeID = ''err-'' @ decimal seq, CeType = ''system.error'', CeSubject = [], CeTime = now, CeSequence = seq,
      CeMerklePrev = [], CeMerkleSelf = [],
      CeData = JObj [(''error'', JStr msg), (''severity'', JStr ''medium''), (''source'', JStr reason), (''subsystem'', JStr ''stream'')]\<rparr>"

definition bundle_event :: "gotime \<Rightarrow> u64 \<Rightarrow> string \<Rightarrow> int \<Rightarrow> bool \<Rightarrow> u64 \<Rightarrow> cloudEvent" where
  "bundle_event now version hash policyCount verified seq =
     \<lparr>CeID = ''bundle-'' @ decimal seq, CeType = ''bundle.activated'', CeSubject = [], CeTime = now, CeSequence = seq,
      CeMerklePrev = [], CeMerkleSelf = [],
      CeData = JObj [(''adapterCount'', num 0), (''hash'', JStr hash), (''policyCount'', num policyCount), (''previousVersion'', num 0),
                     (''signatureVerified'', JBool verified), (''version'', num (uint version))]\<rparr>"

definition checkpoint_event :: "gotime \<Rightarrow> int \<Rightarrow> string \<Rightarrow> string \<Rightarrow> int \<Rightarrow> u64 \<Rightarrow> cloudEvent" where
  "checkpoint_event now aseq hash prevHash eventCount seq =
     \<lparr>CeID = ''ckpt-'' @ decimal seq, CeType = ''audit.checkpoint'', CeSubject = [], CeTime = now, CeSequence = seq,
      CeMerklePrev = prevHash, CeMerkleSelf = hash,
      CeData = JObj [(''events_since_prev'', num eventCount), (''hash'', JStr hash), (''prev_hash'', JStr prevHash), (''sequence'', num aseq)]\<rparr>"

section \<open>The connection limiter\<close>

record ipLimiter =
  lmConns :: "string \<Rightarrow> int"
  lmAttempts :: "string \<Rightarrow> gotime list"

definition newIPLimiter :: ipLimiter where
  "newIPLimiter = \<lparr>lmConns = (\<lambda>_. 0), lmAttempts = (\<lambda>_. [])\<rparr>"

definition minute :: duration where
  "minute = 60 * second"

definition lim_allow :: "gotime \<Rightarrow> string \<Rightarrow> ipLimiter \<Rightarrow> ipLimiter \<times> bool" where
  "lim_allow now ip l =
    (let filtered = filter (\<lambda>t. now - t < minute) (lmAttempts l ip) @ [now]
     in (l\<lparr>lmAttempts := (lmAttempts l)(ip := filtered)\<rparr>, lmConns l ip < 4 \<and> length filtered \<le> 10))"

definition lim_inc :: "string \<Rightarrow> ipLimiter \<Rightarrow> ipLimiter" where
  "lim_inc ip l = l\<lparr>lmConns := (lmConns l)(ip := lmConns l ip + 1)\<rparr>"

definition lim_dec :: "string \<Rightarrow> ipLimiter \<Rightarrow> ipLimiter" where
  "lim_dec ip l = (if lmConns l ip > 0 then l\<lparr>lmConns := (lmConns l)(ip := lmConns l ip - 1)\<rparr> else l)"

section \<open>Clients and the server\<close>

definition clientChanCap :: nat where "clientChanCap = 100"
definition maxClients :: nat where "maxClients = 64"
definition eventsCap :: nat where "eventsCap = 512"
definition simulateBodyLimit :: nat where "simulateBodyLimit = 64 * 1024"

record eventFilter =
  FiVerdicts :: "string list"
  FiTools :: "string list"
  FiLatencyMin :: int
  FiLatencyMax :: int

text \<open>What a connection has received is split by its writer: the greeting of \<^verbatim>\<open>sendStateSnapshot\<close>, then what
  \<^verbatim>\<open>writePump\<close> took from the channel.  \<^verbatim>\<open>clStarted\<close> says that the pumps run, \<^verbatim>\<open>clWriter\<close> that the writer has not given up.\<close>

record client =
  clIP :: string
  clStarted :: bool
  clWriter :: bool
  clGreeting :: "message list"
  clWire :: "message list"
  clSend :: "message list"
  clFilter :: eventFilter
  clInFlight :: int

text \<open>A goroutine that has taken a sequence number and not yet sent: to all clients, to all clients after storing the
  event for replay, or to one client, with the backfill slot to give back.\<close>

datatype caller = CallBroadcast cloudEvent | CallBundle cloudEvent | CallSend string cloudEvent bool

record StreamServer =
  ssClients :: "(string \<times> client) list"
  ssSeq :: u64
  ssQueue :: "StreamEvent list"
  ssFan :: "cloudEvent option"
  ssBeat :: "cloudEvent option"
  ssCallers :: "caller list"
  ssLimiter :: ipLimiter
  ssReady :: bool
  ssLastBundle :: "cloudEvent option"
  ssDropped :: u64

definition NewStreamServer :: StreamServer where
  "NewStreamServer =
     \<lparr>ssClients = [], ssSeq = 0, ssQueue = [], ssFan = None, ssBeat = None, ssCallers = [], ssLimiter = newIPLimiter,
      ssReady = False, ssLastBundle = None, ssDropped = 0\<rparr>"

definition Emit :: "StreamEvent \<Rightarrow> StreamServer \<Rightarrow> StreamServer" where
  "Emit event s =
    (let t = normalizeEventType (EvType event) in
     if t = [] \<or> t \<notin> set validEventTypes then s
     else if length (ssQueue s) < eventsCap then s\<lparr>ssQueue := ssQueue s @ [event\<lparr>EvType := t\<rparr>]\<rparr>
     else s\<lparr>ssDropped := ssDropped s + 1\<rparr>)"

text \<open>The non-blocking send to one client.\<close>

definition push_client :: "message \<Rightarrow> client \<Rightarrow> client" where
  "push_client m c = (if length (clSend c) < clientChanCap then c\<lparr>clSend := clSend c @ [m]\<rparr> else c)"

definition full :: "client \<Rightarrow> bool" where
  "full c \<longleftrightarrow> \<not> length (clSend c) < clientChanCap"

definition broadcast :: "message \<Rightarrow> StreamServer \<Rightarrow> StreamServer" where
  "broadcast m s =
     s\<lparr>ssClients := map (\<lambda>(i, c). (i, push_client m c)) (ssClients s),
       ssDropped := ssDropped s + of_nat (length (filter (\<lambda>(i, c). full c) (ssClients s)))\<rparr>"

definition on_client :: "string \<Rightarrow> (client \<Rightarrow> client) \<Rightarrow> StreamServer \<Rightarrow> StreamServer" where
  "on_client i f s = s\<lparr>ssClients := map (\<lambda>(j, c). (j, if j = i then f c else c)) (ssClients s)\<rparr>"

definition send_to :: "string \<Rightarrow> message \<Rightarrow> StreamServer \<Rightarrow> StreamServer" where
  "send_to i m s = (case map_of (ssClients s) i of
     None \<Rightarrow> s
   | Some c \<Rightarrow> if full c then s\<lparr>ssDropped := ssDropped s + 1\<rparr> else on_client i (push_client m) s)"

definition seq_next :: "StreamServer \<Rightarrow> StreamServer \<times> u64" where
  "seq_next s = (s\<lparr>ssSeq := ssSeq s + 1\<rparr>, ssSeq s + 1)"

section \<open>The goroutines\<close>

text \<open>\<^verbatim>\<open>fanOut\<close> takes an event and its number, then broadcasts.\<close>

definition fanOut_take :: "StreamServer \<Rightarrow> StreamServer" where
  "fanOut_take s = (case (ssFan s, ssQueue s) of
     (None, event # q) \<Rightarrow> (let (s1, seq) = seq_next s in s1\<lparr>ssQueue := q, ssFan := Some (buildCloudEvent event seq)\<rparr>)
   | _ \<Rightarrow> s)"

definition fanOut_send :: "StreamServer \<Rightarrow> StreamServer" where
  "fanOut_send s = (case ssFan s of Some e \<Rightarrow> (broadcast (CloudEvent e) s)\<lparr>ssFan := None\<rparr> | None \<Rightarrow> s)"

definition heartbeat_take :: "gotime \<Rightarrow> StreamServer \<Rightarrow> StreamServer" where
  "heartbeat_take now s = (case ssBeat s of
     None \<Rightarrow> (let (s1, seq) = seq_next s in s1\<lparr>ssBeat := Some (heartbeat_event now seq)\<rparr>)
   | Some _ \<Rightarrow> s)"

definition heartbeat_send :: "StreamServer \<Rightarrow> StreamServer" where
  "heartbeat_send s = (case ssBeat s of Some e \<Rightarrow> (broadcast (CloudEvent e) s)\<lparr>ssBeat := None\<rparr> | None \<Rightarrow> s)"

definition EmitBundleActivated :: "gotime \<Rightarrow> u64 \<Rightarrow> string \<Rightarrow> int \<Rightarrow> bool \<Rightarrow> StreamServer \<Rightarrow> StreamServer" where
  "EmitBundleActivated now version hash policyCount verified s =
    (let (s1, seq) = seq_next s
     in s1\<lparr>ssCallers := ssCallers s1 @ [CallBundle (bundle_event now version hash policyCount verified seq)]\<rparr>)"

definition EmitAuditCheckpoint :: "gotime \<Rightarrow> int \<Rightarrow> string \<Rightarrow> string \<Rightarrow> int \<Rightarrow> StreamServer \<Rightarrow> StreamServer" where
  "EmitAuditCheckpoint now aseq hash prevHash eventCount s =
    (let (s1, seq) = seq_next s
     in s1\<lparr>ssCallers := ssCallers s1 @ [CallBroadcast (checkpoint_event now aseq hash prevHash eventCount seq)]\<rparr>)"

definition sendSystemError :: "gotime \<Rightarrow> string \<Rightarrow> string \<Rightarrow> string \<Rightarrow> bool \<Rightarrow> StreamServer \<Rightarrow> StreamServer" where
  "sendSystemError now i reason msg held s =
    (let (s1, seq) = seq_next s in s1\<lparr>ssCallers := ssCallers s1 @ [CallSend i (system_error_event now reason msg seq) held]\<rparr>)"

definition add_in_flight :: "int \<Rightarrow> client \<Rightarrow> client" where
  "add_in_flight d c = c\<lparr>clInFlight := clInFlight c + d\<rparr>"

definition handleBackfill :: "gotime \<Rightarrow> string \<Rightarrow> int \<Rightarrow> int \<Rightarrow> StreamServer \<Rightarrow> StreamServer" where
  "handleBackfill now i from to s = (case map_of (ssClients s) i of
     None \<Rightarrow> s
   | Some c \<Rightarrow>
      (if clInFlight c + 1 > 2 then sendSystemError now i ''backfill_rate_limited'' ''backfill rate limit exceeded'' False s
       else let s1 = on_client i (add_in_flight 1) s in
         if from < 0 \<or> to < from then sendSystemError now i ''backfill_invalid_range'' ''from/to range invalid'' True s1
         else if to - from > 1000 then sendSystemError now i ''backfill_range_too_large'' ''range exceeds 1000 events'' True s1
         else sendSystemError now i ''backfill_unavailable'' ''backfill not yet available'' True s1))"

definition caller_send :: "caller \<Rightarrow> StreamServer \<Rightarrow> StreamServer" where
  "caller_send p s = (case p of
     CallBroadcast e \<Rightarrow> broadcast (CloudEvent e) s
   | CallBundle e \<Rightarrow> broadcast (CloudEvent e) (s\<lparr>ssLastBundle := Some e\<rparr>)
   | CallSend i e held \<Rightarrow> (let s1 = send_to i (CloudEvent e) s in if held then on_client i (add_in_flight (-1)) s1 else s1))"

section \<open>A connection\<close>

text \<open>\<^verbatim>\<open>handleWebSocket\<close> up to the registration of the client; \<^verbatim>\<open>upgraded\<close> says whether the upgrade succeeds.  The
  answer is whether the client was registered.\<close>

definition new_client :: "string \<Rightarrow> client" where
  "new_client ip =
     \<lparr>clIP = ip, clStarted = False, clWriter = True, clGreeting = [], clWire = [], clSend = [],
      clFilter = \<lparr>FiVerdicts = [], FiTools = [], FiLatencyMin = 0, FiLatencyMax = 0\<rparr>, clInFlight = 0\<rparr>"

definition ws_open :: "gotime \<Rightarrow> string \<Rightarrow> bool \<Rightarrow> string \<Rightarrow> StreamServer \<Rightarrow> StreamServer \<times> bool" where
  "ws_open now ip upgraded i s =
    (let (l1, ok) = lim_allow now ip (ssLimiter s); s1 = s\<lparr>ssLimiter := l1\<rparr> in
     if \<not> ok \<or> \<not> upgraded then (s1, False)
     else let s2 = s1\<lparr>ssLimiter := lim_inc ip (ssLimiter s1)\<rparr> in
       if length (ssClients s2) \<ge> maxClients then (s2\<lparr>ssLimiter := lim_dec ip (ssLimiter s2)\<rparr>, False)
       else (s2\<lparr>ssClients := (i, new_client ip) # ssClients s2\<rparr>, True))"

definition ws_close :: "string \<Rightarrow> StreamServer \<Rightarrow> StreamServer" where
  "ws_close i s = (case map_of (ssClients s) i of
     None \<Rightarrow> s
   | Some c \<Rightarrow> s\<lparr>ssClients := filter (\<lambda>(j, _). j \<noteq> i) (ssClients s), ssLimiter := lim_dec (clIP c) (ssLimiter s)\<rparr>)"

text \<open>\<^verbatim>\<open>sendStateSnapshot\<close>; \<^verbatim>\<open>version\<close> is that of the engine snapshot, when there is a reader and it has one.\<close>

definition greeting :: "u64 option \<Rightarrow> StreamServer \<Rightarrow> message list" where
  "greeting version s =
     StateSnapshot \<lparr>SnapSequence = ssSeq s, SnapPolicies = 0, SnapVersion = (case version of Some v \<Rightarrow> v | None \<Rightarrow> 0), SnapBundleHash = []\<rparr>
     # (case ssLastBundle s of Some e \<Rightarrow> [CloudEvent e] | None \<Rightarrow> [])"

definition sendStateSnapshot :: "u64 option \<Rightarrow> bool \<Rightarrow> string \<Rightarrow> StreamServer \<Rightarrow> StreamServer" where
  "sendStateSnapshot version written i s = (case map_of (ssClients s) i of
     None \<Rightarrow> s
   | Some c \<Rightarrow>
      (if clStarted c then s
       else if \<not> written then ws_close i s
       else on_client i (\<lambda>c. c\<lparr>clGreeting := greeting version s, clStarted := True\<rparr>) s))"

text \<open>One round of \<^verbatim>\<open>writePump\<close>.\<close>

definition write_one :: "bool \<Rightarrow> client \<Rightarrow> client" where
  "write_one written c =
    (if \<not> clStarted c \<or> \<not> clWriter c then c
     else case clSend c of
       [] \<Rightarrow> c
     | m # ms \<Rightarrow> if written then c\<lparr>clSend := ms, clWire := clWire c @ [m]\<rparr> else c\<lparr>clSend := ms, clWriter := False\<rparr>)"

definition writePump :: "bool \<Rightarrow> string \<Rightarrow> StreamServer \<Rightarrow> StreamServer" where
  "writePump written i s = on_client i (write_one written) s"

text \<open>\<^verbatim>\<open>readPump\<close> on one message; \<^const>\<open>None\<close> is a message that does not decode.  A filter that does not decode is ignored.\<close>

record inboundMessage =
  InType :: string
  InFilter :: "eventFilter option"
  InFrom :: int
  InTo :: int
  InClientTime :: int

definition handleSubscribeFilter :: "string \<Rightarrow> eventFilter option \<Rightarrow> StreamServer \<Rightarrow> StreamServer" where
  "handleSubscribeFilter i f s = (case f of None \<Rightarrow> s | Some fi \<Rightarrow> on_client i (\<lambda>c. c\<lparr>clFilter := fi\<rparr>) s)"

definition handlePing :: "gotime \<Rightarrow> string \<Rightarrow> int \<Rightarrow> StreamServer \<Rightarrow> StreamServer" where
  "handlePing now i clientTime s = send_to i (Pong clientTime (unixMilli now)) s"

definition readPump :: "gotime \<Rightarrow> string \<Rightarrow> inboundMessage option \<Rightarrow> StreamServer \<Rightarrow> StreamServer" where
  "readPump now i msg s = (case msg of
     None \<Rightarrow> s
   | Some m \<Rightarrow>
      (if InType m = ''subscribe.filter'' then handleSubscribeFilter i (InFilter m) s
       else if InType m = ''backfill.request'' then handleBackfill now i (InFrom m) (InTo m) s
       else if InType m = ''ping'' then handlePing now i (InClientTime m) s
       else s))"

inductive stream_step :: "StreamServer \<Rightarrow> StreamServer \<Rightarrow> bool" where
  st_emit: "stream_step s (Emit ev s)"
| st_fan_take: "stream_step s (fanOut_take s)"
| st_fan_send: "stream_step s (fanOut_send s)"
| st_beat_take: "stream_step s (heartbeat_take now s)"
| st_beat_send: "stream_step s (heartbeat_send s)"
| st_bundle: "stream_step s (EmitBundleActivated now version hash n verified s)"
| st_checkpoint: "stream_step s (EmitAuditCheckpoint now aseq hash prevHash n s)"
| st_caller: "ssCallers s = xs @ p # ys \<Longrightarrow> stream_step s (caller_send p (s\<lparr>ssCallers := xs @ ys\<rparr>))"
| st_open: "i \<notin> fst ` set (ssClients s) \<Longrightarrow> stream_step s (fst (ws_open now ip upgraded i s))"
| st_greet: "stream_step s (sendStateSnapshot version written i s)"
| st_write: "stream_step s (writePump written i s)"
| st_read: "stream_step s (readPump now i msg s)"
| st_close: "stream_step s (ws_close i s)"

section \<open>Sequence numbers\<close>

fun seq_of :: "message \<Rightarrow> nat list" where
  "seq_of (CloudEvent e) = [unat (CeSequence e)]"
| "seq_of _ = []"

definition seqs :: "message list \<Rightarrow> nat list" where
  "seqs ms = concat (map seq_of ms)"

lemma seqs_simps [simp]: "seqs [] = []" "seqs (m # ms) = seq_of m @ seqs ms" "seqs (xs @ ys) = seqs xs @ seqs ys"
  by (simp_all add: seqs_def)

text \<open>The messages of the fan-out goroutine are those it names \<^verbatim>\<open>evt-\<close>.\<close>

definition is_evt :: "cloudEvent \<Rightarrow> bool" where
  "is_evt e \<longleftrightarrow> HasPrefix (CeID e) ''evt-''"

fun evt_of :: "message \<Rightarrow> nat list" where
  "evt_of (CloudEvent e) = (if is_evt e then [unat (CeSequence e)] else [])"
| "evt_of _ = []"

definition evts :: "message list \<Rightarrow> nat list" where
  "evts ms = concat (map evt_of ms)"

lemma evts_simps [simp]: "evts [] = []" "evts (m # ms) = evt_of m @ evts ms" "evts (xs @ ys) = evts xs @ evts ys"
  by (simp_all add: evts_def)

lemma evts_seqs: "x \<in> set (evts ms) \<Longrightarrow> x \<in> set (seqs ms)"
proof (induction ms)
  case (Cons m ms)
  then show ?case by (cases m) (auto split: if_splits)
qed simp

fun caller_event :: "caller \<Rightarrow> cloudEvent" where
  "caller_event (CallBroadcast e) = e"
| "caller_event (CallBundle e) = e"
| "caller_event (CallSend i e held) = e"

text \<open>The events taken and not yet sent.\<close>

definition taken :: "'a option \<Rightarrow> 'a list" where
  "taken x = (case x of None \<Rightarrow> [] | Some y \<Rightarrow> [y])"

lemma taken_simps [simp]: "taken None = []" "taken (Some y) = [y]"
  by (simp_all add: taken_def)

definition pending :: "StreamServer \<Rightarrow> cloudEvent list" where
  "pending s = taken (ssFan s) @ taken (ssBeat s) @ map caller_event (ssCallers s)"

definition pseqs :: "StreamServer \<Rightarrow> nat list" where
  "pseqs s = map (\<lambda>e. unat (CeSequence e)) (pending s)"

text \<open>What holds of a client while the numbers up to \<^verbatim>\<open>N\<close> are given out and \<^verbatim>\<open>P\<close> are pending, \<^verbatim>\<open>F\<close> of them in the
  fan-out goroutine.\<close>

definition greeted :: "client \<Rightarrow> bool" where
  "greeted c \<longleftrightarrow>
    (clWire c \<noteq> [] \<longrightarrow> clStarted c) \<and>
    (clStarted c \<longrightarrow> (\<exists>snap rest. clGreeting c = StateSnapshot snap # rest \<and>
       (rest = [] \<or> (\<exists>e. rest = [CloudEvent e] \<and> CeType e = ''bundle.activated''))))"

definition client_ok :: "nat \<Rightarrow> nat set \<Rightarrow> nat set \<Rightarrow> client \<Rightarrow> bool" where
  "client_ok N P F c \<longleftrightarrow>
    distinct (seqs (clWire c @ clSend c)) \<and> set (seqs (clWire c @ clSend c)) \<inter> P = {} \<and>
    (\<forall>x \<in> set (seqs (clWire c @ clSend c)). x \<le> N) \<and>
    sorted_wrt (<) (evts (clWire c @ clSend c)) \<and> (\<forall>x \<in> set (evts (clWire c @ clSend c)). \<forall>y \<in> F. x < y) \<and>
    length (clSend c) \<le> clientChanCap \<and> greeted c"

definition fan_seqs :: "StreamServer \<Rightarrow> nat set" where
  "fan_seqs s = set (map (\<lambda>e. unat (CeSequence e)) (taken (ssFan s)))"

definition stream_ok :: "nat \<Rightarrow> StreamServer \<Rightarrow> bool" where
  "stream_ok n s \<longleftrightarrow>
    unat (ssSeq s) \<le> n \<and> distinct (pseqs s) \<and> (\<forall>x \<in> set (pseqs s). x \<le> unat (ssSeq s)) \<and>
    (\<forall>e. ssFan s = Some e \<longrightarrow> is_evt e) \<and> (\<forall>e \<in> set (taken (ssBeat s) @ map caller_event (ssCallers s)). \<not> is_evt e) \<and>
    (\<forall>e. ssLastBundle s = Some e \<longrightarrow> CeType e = ''bundle.activated'') \<and>
    (\<forall>e. CallBundle e \<in> set (ssCallers s) \<longrightarrow> CeType e = ''bundle.activated'') \<and>
    (\<forall>(i, c) \<in> set (ssClients s). client_ok (unat (ssSeq s)) (set (pseqs s)) (fan_seqs s) c) \<and>
    length (ssQueue s) \<le> eventsCap"

lemma event_ids:
  "is_evt (buildCloudEvent ev n)" "\<not> is_evt (heartbeat_event t n)" "\<not> is_evt (system_error_event t r m n)"
  "\<not> is_evt (bundle_event t v h p b n)" "\<not> is_evt (checkpoint_event t a h h' c n)"
  by (simp_all add: is_evt_def buildCloudEvent_def heartbeat_event_def system_error_event_def bundle_event_def
      checkpoint_event_def HasPrefix_def Let_def)

lemma event_seqs [simp]:
  "CeSequence (buildCloudEvent ev n) = n" "CeSequence (heartbeat_event t n) = n" "CeSequence (system_error_event t r m n) = n"
  "CeSequence (bundle_event t v h p b n) = n" "CeSequence (checkpoint_event t a h h' c n) = n" "CeType (bundle_event t v h p b n) = ''bundle.activated''"
  by (simp_all add: buildCloudEvent_def heartbeat_event_def system_error_event_def bundle_event_def checkpoint_event_def Let_def)

text \<open>Taking the next number.\<close>

lemma next_seq: "unat (s + 1 :: u64) = unat s + 1" if "unat s \<le> n" "n < 2 ^ 64 - 1" for s :: u64
  using that by (simp add: unat_word_ariths)

lemma client_ok_take:
  assumes "client_ok N P F c" and "F' \<subseteq> insert (N + 1) F"
  shows "client_ok (N + 1) (insert (N + 1) P) F' c"
proof -
  have le: "\<forall>x \<in> set (seqs (clWire c @ clSend c)). x \<le> N" using assms(1) unfolding client_ok_def by blast
  then have "N + 1 \<notin> set (seqs (clWire c @ clSend c))" by (metis Suc_eq_plus1 not_less_eq_eq order_refl)
  moreover have "\<forall>x \<in> set (evts (clWire c @ clSend c)). x < N + 1" using le evts_seqs by fastforce
  ultimately show ?thesis using assms le unfolding client_ok_def by fastforce
qed

text \<open>Sending a pending event.\<close>

lemma client_ok_send:
  assumes "client_ok N P F c" and "unat (CeSequence e) \<in> P" and "unat (CeSequence e) \<le> N"
    and "is_evt e \<Longrightarrow> unat (CeSequence e) \<in> F \<and> F' = {}" and "F' \<subseteq> F"
  shows "client_ok N (P - {unat (CeSequence e)}) F' (push_client (CloudEvent e) c)"
proof -
  let ?x = "unat (CeSequence e)"
  have "?x \<notin> set (seqs (clWire c @ clSend c))" using assms(1,2) unfolding client_ok_def by blast
  moreover have "\<forall>y \<in> set (evts (clWire c @ clSend c)). is_evt e \<longrightarrow> y < ?x" using assms(1,4) unfolding client_ok_def by blast
  ultimately show ?thesis
    using assms unfolding client_ok_def push_client_def greeted_def
    by (auto simp: sorted_wrt_append clientChanCap_def)
qed

lemma client_ok_fewer: "client_ok N P F c \<Longrightarrow> P' \<subseteq> P \<Longrightarrow> F' \<subseteq> F \<Longrightarrow> client_ok N P' F' c"
  unfolding client_ok_def by blast

lemma client_ok_local:
  assumes "client_ok N P F c" and "seqs (clWire d @ clSend d) = seqs (clWire c @ clSend c)" and "evts (clWire d @ clSend d) = evts (clWire c @ clSend c)"
    and "length (clSend d) \<le> length (clSend c)" and "greeted d"
  shows "client_ok N P F d"
  using assms unfolding client_ok_def by (metis le_trans)

lemma client_ok_write:
  assumes "client_ok N P F c"
  shows "client_ok N P F (write_one written c)"
proof (cases "\<not> clStarted c \<or> \<not> clWriter c \<or> clSend c = []")
  case True
  then show ?thesis using assms by (auto simp: write_one_def split: list.split)
next
  case False
  then obtain m ms where ms: "clSend c = m # ms" and st: "clStarted c" "clWriter c" by (cases "clSend c") auto
  have g: "greeted c" using assms unfolding client_ok_def by blast
  show ?thesis
  proof (cases written)
    case True
    then show ?thesis using ms st g by (intro client_ok_local [OF assms]) (auto simp: write_one_def greeted_def)
  next
    case False
    then show ?thesis using assms ms st by (auto simp: write_one_def client_ok_def greeted_def sorted_wrt_append)
  qed
qed

lemma client_ok_pong: "client_ok N P F c \<Longrightarrow> client_ok N P F (push_client (Pong a b) c)"
  unfolding client_ok_def push_client_def greeted_def by (auto simp: clientChanCap_def)

lemma client_ok_new: "client_ok N P F (new_client ip)"
  by (simp add: client_ok_def new_client_def greeted_def)

section \<open>Every step keeps the invariant\<close>

lemma stream_okD:
  assumes "stream_ok n s"
  shows "unat (ssSeq s) \<le> n" "distinct (pseqs s)" "x \<in> set (pseqs s) \<Longrightarrow> x \<le> unat (ssSeq s)" "ssFan s = Some e \<Longrightarrow> is_evt e"
    "e \<in> set (taken (ssBeat s) @ map caller_event (ssCallers s)) \<Longrightarrow> \<not> is_evt e" "ssLastBundle s = Some e \<Longrightarrow> CeType e = ''bundle.activated''"
    "CallBundle e \<in> set (ssCallers s) \<Longrightarrow> CeType e = ''bundle.activated''"
    "(i, c) \<in> set (ssClients s) \<Longrightarrow> client_ok (unat (ssSeq s)) (set (pseqs s)) (fan_seqs s) c" "length (ssQueue s) \<le> eventsCap"
  using assms unfolding stream_ok_def by blast+

text \<open>Steps that only change clients, each within the invariant.\<close>

lemma stream_ok_clients:
  assumes "stream_ok n s" and "\<And>i c. (i, c) \<in> set (ssClients t) \<Longrightarrow> client_ok (unat (ssSeq s)) (set (pseqs s)) (fan_seqs s) c"
    and "ssSeq t = ssSeq s" "ssFan t = ssFan s" "ssBeat t = ssBeat s" "ssCallers t = ssCallers s" "ssLastBundle t = ssLastBundle s" "ssQueue t = ssQueue s"
  shows "stream_ok n t"
  using assms unfolding stream_ok_def pseqs_def pending_def fan_seqs_def by auto

lemma stream_ok_on_client:
  assumes "stream_ok n s" and "\<And>c. client_ok (unat (ssSeq s)) (set (pseqs s)) (fan_seqs s) c \<Longrightarrow> client_ok (unat (ssSeq s)) (set (pseqs s)) (fan_seqs s) (f c)"
  shows "stream_ok n (on_client i f s)"
  by (rule stream_ok_clients [OF assms(1)]) (use assms(2) stream_okD(8) [OF assms(1)] in \<open>auto simp: on_client_def\<close>)

text \<open>Taking a number: \<^verbatim>\<open>t\<close> holds one more pending event.\<close>

lemma stream_ok_take:
  assumes "stream_ok n s" and "n < 2 ^ 64 - 1" and "ssSeq t = ssSeq s + 1"
    and perm: "mset (pseqs t) = add_mset (unat (ssSeq s + 1)) (mset (pseqs s))" and fan: "fan_seqs t \<subseteq> insert (unat (ssSeq s + 1)) (fan_seqs s)"
    and "\<And>e. ssFan t = Some e \<Longrightarrow> is_evt e" and "\<And>e. e \<in> set (taken (ssBeat t) @ map caller_event (ssCallers t)) \<Longrightarrow> \<not> is_evt e"
    and "\<And>e. CallBundle e \<in> set (ssCallers t) \<Longrightarrow> CeType e = ''bundle.activated''"
    and "ssLastBundle t = ssLastBundle s" "ssClients t = ssClients s" "length (ssQueue t) \<le> length (ssQueue s)"
  shows "stream_ok (Suc n) t"
proof -
  let ?N = "unat (ssSeq s)"
  note ok = stream_okD [OF assms(1)]
  have N: "unat (ssSeq s + 1) = ?N + 1" by (rule next_seq [OF ok(1) assms(2)])
  have new: "?N + 1 \<notin> set (pseqs s)" using ok(3) by force
  have p: "mset (pseqs t) = mset ((?N + 1) # pseqs s)" using perm N by simp
  have d: "distinct (pseqs t)" using mset_eq_imp_distinct_iff [OF p] ok(2) new by simp
  have sp: "set (pseqs t) = insert (?N + 1) (set (pseqs s))" using mset_eq_setD [OF p] by simp
  have cl: "client_ok (?N + 1) (insert (?N + 1) (set (pseqs s))) (fan_seqs t) c" if "(i, c) \<in> set (ssClients s)" for i c
    using ok(8) [OF that] fan N by (intro client_ok_take) auto
  show ?thesis unfolding stream_ok_def
  proof (intro conjI ballI allI impI)
    show "unat (ssSeq t) \<le> Suc n" using ok(1) assms(3) N by simp
    show "distinct (pseqs t)" by (rule d)
    show "x \<le> unat (ssSeq t)" if "x \<in> set (pseqs t)" for x using that sp ok(3) assms(3) N by fastforce
    show "case ic of (i, c) \<Rightarrow> client_ok (unat (ssSeq t)) (set (pseqs t)) (fan_seqs t) c" if "ic \<in> set (ssClients t)" for ic
      using that cl assms(3,10) N sp by auto
    show "length (ssQueue t) \<le> eventsCap" using ok(9) assms(11) by simp
  qed (use assms(6-9) ok(6) in auto)
qed

text \<open>Broadcasting a pending event.\<close>

lemma stream_ok_broadcast:
  assumes "stream_ok n s" and "mset (pseqs s) = add_mset (unat (CeSequence e)) (mset (pseqs t))"
    and "is_evt e \<Longrightarrow> unat (CeSequence e) \<in> fan_seqs s \<and> fan_seqs t = {}" and "fan_seqs t \<subseteq> fan_seqs s"
    and "\<And>e. ssFan t = Some e \<Longrightarrow> is_evt e" and "\<And>e. e \<in> set (taken (ssBeat t) @ map caller_event (ssCallers t)) \<Longrightarrow> \<not> is_evt e"
    and "\<And>e. CallBundle e \<in> set (ssCallers t) \<Longrightarrow> CeType e = ''bundle.activated''"
    and "\<And>e. ssLastBundle t = Some e \<Longrightarrow> CeType e = ''bundle.activated''"
    and "ssSeq t = ssSeq s" "ssQueue t = ssQueue s"
    and cl: "\<And>i d. (i, d) \<in> set (ssClients t) \<Longrightarrow> \<exists>c. (i, c) \<in> set (ssClients s) \<and> (d = c \<or> d = push_client (CloudEvent e) c)"
  shows "stream_ok n t"
proof -
  let ?x = "unat (CeSequence e)"
  note ok = stream_okD [OF assms(1)]
  have p: "mset (pseqs s) = mset (?x # pseqs t)" using assms(2) by simp
  have d: "distinct (?x # pseqs t)" using mset_eq_imp_distinct_iff [OF p] ok(2) by simp
  have sp: "set (pseqs s) = insert ?x (set (pseqs t))" using mset_eq_setD [OF p] by simp
  then have st: "set (pseqs t) = set (pseqs s) - {?x}" using d by auto
  have le: "?x \<le> unat (ssSeq s)" using ok(3) sp by simp
  have "client_ok (unat (ssSeq s)) (set (pseqs t)) (fan_seqs t) d" if id: "(i, d) \<in> set (ssClients t)" for i d
  proof -
    obtain c where c: "(i, c) \<in> set (ssClients s)" "d = c \<or> d = push_client (CloudEvent e) c" using cl [OF id] by blast
    have "client_ok (unat (ssSeq s)) (set (pseqs t)) (fan_seqs t) c" using st assms(4) by (intro client_ok_fewer [OF ok(8) [OF c(1)]]) auto
    moreover have "client_ok (unat (ssSeq s)) (set (pseqs s) - {?x}) (fan_seqs t) (push_client (CloudEvent e) c)"
      using sp le assms(3,4) by (intro client_ok_send [OF ok(8) [OF c(1)]]) auto
    ultimately show ?thesis using c(2) st by auto
  qed
  then show ?thesis unfolding stream_ok_def using ok(1,3,9) d sp assms(5-10) by auto
qed

lemma stream_ok_more: "stream_ok n s \<Longrightarrow> stream_ok (Suc n) s"
  unfolding stream_ok_def by auto

lemma stream_ok_Emit: "stream_ok n s \<Longrightarrow> stream_ok n (Emit ev s)"
  unfolding stream_ok_def Emit_def pseqs_def pending_def fan_seqs_def by (simp add: Let_def)

lemmas pend_defs = pseqs_def pending_def fan_seqs_def

lemma stream_ok_fan_take:
  assumes "stream_ok n s" and "n < 2 ^ 64 - 1"
  shows "stream_ok (Suc n) (fanOut_take s)"
proof (cases "ssFan s = None \<and> ssQueue s \<noteq> []")
  case True
  then obtain event q where q: "ssQueue s = event # q" "ssFan s = None" by (cases "ssQueue s") auto
  show ?thesis
    by (rule stream_ok_take [OF assms])
       (use q stream_okD(5,7) [OF assms(1)] in \<open>auto simp: fanOut_take_def seq_next_def pend_defs event_ids\<close>)
qed (use assms stream_ok_more in \<open>auto simp: fanOut_take_def split: option.split list.split\<close>)

lemma stream_ok_beat_take:
  assumes "stream_ok n s" and "n < 2 ^ 64 - 1"
  shows "stream_ok (Suc n) (heartbeat_take now s)"
proof (cases "ssBeat s")
  case None
  show ?thesis
    by (rule stream_ok_take [OF assms])
       (use None stream_okD(4,5,7) [OF assms(1)] in \<open>auto simp: heartbeat_take_def seq_next_def pend_defs event_ids\<close>)
qed (use assms stream_ok_more in \<open>auto simp: heartbeat_take_def\<close>)

text \<open>A caller takes a number.\<close>

lemma stream_ok_call:
  assumes "stream_ok n s" and "n < 2 ^ 64 - 1" and "CeSequence (caller_event p) = ssSeq s + 1" and "\<not> is_evt (caller_event p)"
    and "\<And>e. p = CallBundle e \<Longrightarrow> CeType e = ''bundle.activated''"
  shows "stream_ok (Suc n) (s\<lparr>ssSeq := ssSeq s + 1, ssCallers := ssCallers s @ [p]\<rparr>)"
  by (rule stream_ok_take [OF assms(1,2)])
     (use assms(3-5) stream_okD(4,5,7) [OF assms(1)] in \<open>auto simp: pend_defs\<close>)

lemma stream_ok_bundle: "stream_ok n s \<Longrightarrow> n < 2 ^ 64 - 1 \<Longrightarrow> stream_ok (Suc n) (EmitBundleActivated now v h k b s)"
  using stream_ok_call [of n s "CallBundle (bundle_event now v h k b (ssSeq s + 1))"]
  by (simp add: EmitBundleActivated_def seq_next_def event_ids)

lemma stream_ok_checkpoint: "stream_ok n s \<Longrightarrow> n < 2 ^ 64 - 1 \<Longrightarrow> stream_ok (Suc n) (EmitAuditCheckpoint now a h h' k s)"
  using stream_ok_call [of n s "CallBroadcast (checkpoint_event now a h h' k (ssSeq s + 1))"]
  by (simp add: EmitAuditCheckpoint_def seq_next_def event_ids)

lemma stream_ok_error: "stream_ok n s \<Longrightarrow> n < 2 ^ 64 - 1 \<Longrightarrow> stream_ok (Suc n) (sendSystemError now i r m h s)"
  using stream_ok_call [of n s "CallSend i (system_error_event now r m (ssSeq s + 1)) h"]
  by (simp add: sendSystemError_def seq_next_def event_ids)

lemma stream_ok_flight: "stream_ok n s \<Longrightarrow> stream_ok n (on_client i (add_in_flight d) s)"
  by (rule stream_ok_on_client) (simp_all add: client_ok_def greeted_def add_in_flight_def)

lemma stream_ok_backfill: "stream_ok n s \<Longrightarrow> n < 2 ^ 64 - 1 \<Longrightarrow> stream_ok (Suc n) (handleBackfill now i a b s)"
  by (simp add: handleBackfill_def stream_ok_error stream_ok_flight stream_ok_more Let_def split: option.split)

lemma stream_ok_fan_send:
  assumes "stream_ok n s"
  shows "stream_ok n (fanOut_send s)"
proof (cases "ssFan s")
  case (Some e)
  show ?thesis
    by (rule stream_ok_broadcast [OF assms, where e = e])
       (use Some stream_okD(4,5,6,7) [OF assms] in \<open>auto simp: fanOut_send_def broadcast_def pend_defs\<close>)
qed (use assms in \<open>simp add: fanOut_send_def\<close>)

lemma stream_ok_beat_send:
  assumes "stream_ok n s"
  shows "stream_ok n (heartbeat_send s)"
proof (cases "ssBeat s")
  case (Some e)
  then have "\<not> is_evt e" using stream_okD(5) [OF assms, of e] by simp
  then show ?thesis
    by (intro stream_ok_broadcast [OF assms, where e = e])
       (use Some stream_okD(4,5,6,7) [OF assms] in \<open>auto simp: heartbeat_send_def broadcast_def pend_defs\<close>)
qed (use assms in \<open>simp add: heartbeat_send_def\<close>)

lemma send_to_clients:
  "(j, d) \<in> set (ssClients (send_to i m s)) \<Longrightarrow> \<exists>c. (j, c) \<in> set (ssClients s) \<and> (d = c \<or> d = push_client m c)"
  by (auto simp: send_to_def on_client_def split: option.splits if_splits)

lemma send_to_frame [simp]:
  "ssSeq (send_to i m s) = ssSeq s" "ssFan (send_to i m s) = ssFan s" "ssBeat (send_to i m s) = ssBeat s" "ssCallers (send_to i m s) = ssCallers s"
  "ssLastBundle (send_to i m s) = ssLastBundle s" "ssQueue (send_to i m s) = ssQueue s"
  by (simp_all add: send_to_def on_client_def split: option.split)

lemma stream_ok_caller:
  assumes "stream_ok n s" and "ssCallers s = xs @ p # ys"
  shows "stream_ok n (caller_send p (s\<lparr>ssCallers := xs @ ys\<rparr>))"
proof -
  have e: "\<not> is_evt (caller_event p)" using stream_okD(5) [OF assms(1), of "caller_event p"] assms(2) by simp
  note facts = assms(2) stream_okD(4,5,6,7) [OF assms(1)]
  show ?thesis
  proof (cases p)
    case (CallBroadcast ev)
    show ?thesis
      by (rule stream_ok_broadcast [OF assms(1), where e = ev])
         (use CallBroadcast e facts in \<open>auto simp: caller_send_def broadcast_def pend_defs\<close>)
  next
    case (CallBundle ev)
    show ?thesis
      by (rule stream_ok_broadcast [OF assms(1), where e = ev])
         (use CallBundle e facts in \<open>auto simp: caller_send_def broadcast_def pend_defs\<close>)
  next
    case (CallSend i ev held)
    have "stream_ok n (send_to i (CloudEvent ev) (s\<lparr>ssCallers := xs @ ys\<rparr>))"
      by (rule stream_ok_broadcast [OF assms(1), where e = ev])
         (use CallSend e facts send_to_clients [of _ _ i _ "s\<lparr>ssCallers := xs @ ys\<rparr>"] in \<open>auto simp: pend_defs\<close>)
    then show ?thesis using CallSend by (simp add: caller_send_def Let_def stream_ok_flight)
  qed
qed

lemma stream_ok_open:
  assumes "stream_ok n s"
  shows "stream_ok n (fst (ws_open now ip upgraded i s))"
  by (rule stream_ok_clients [OF assms])
     (use stream_okD(8) [OF assms] client_ok_new in \<open>auto simp: ws_open_def Let_def split: prod.splits if_splits\<close>)

lemma stream_ok_close:
  assumes "stream_ok n s"
  shows "stream_ok n (ws_close i s)"
  by (rule stream_ok_clients [OF assms])
     (use stream_okD(8) [OF assms] in \<open>auto simp: ws_close_def split: option.splits\<close>)

lemma stream_ok_greet:
  assumes "stream_ok n s"
  shows "stream_ok n (sendStateSnapshot version written i s)"
proof (cases "map_of (ssClients s) i")
  case (Some c)
  have "stream_ok n (on_client i (\<lambda>c. c\<lparr>clGreeting := greeting version s, clStarted := True\<rparr>) s)"
    by (rule stream_ok_on_client [OF assms])
       (use stream_okD(6) [OF assms] in \<open>auto simp: client_ok_def greeted_def greeting_def split: option.split\<close>)
  then show ?thesis using Some assms by (simp add: sendStateSnapshot_def stream_ok_close)
qed (use assms in \<open>simp add: sendStateSnapshot_def\<close>)

lemma stream_ok_write: "stream_ok n s \<Longrightarrow> stream_ok n (writePump written i s)"
  unfolding writePump_def by (rule stream_ok_on_client) (simp_all add: client_ok_write)

lemma stream_ok_filter: "stream_ok n s \<Longrightarrow> stream_ok n (handleSubscribeFilter i f s)"
  unfolding handleSubscribeFilter_def
  by (cases f) (auto intro!: stream_ok_on_client simp: client_ok_def greeted_def)

lemma stream_ok_ping:
  assumes "stream_ok n s"
  shows "stream_ok n (handlePing now i ct s)"
  by (rule stream_ok_clients [OF assms])
     (use stream_okD(8) [OF assms] client_ok_pong in \<open>auto simp: handlePing_def dest!: send_to_clients\<close>)

lemma stream_ok_read: "stream_ok n s \<Longrightarrow> n < 2 ^ 64 - 1 \<Longrightarrow> stream_ok (Suc n) (readPump now i msg s)"
  by (simp add: readPump_def stream_ok_backfill stream_ok_filter stream_ok_ping stream_ok_more split: option.split)

lemma stream_ok_start: "stream_ok 0 NewStreamServer"
  by (simp add: stream_ok_def NewStreamServer_def pend_defs)

lemmas stream_ok_steps = stream_ok_Emit stream_ok_fan_take stream_ok_beat_take stream_ok_bundle stream_ok_checkpoint stream_ok_fan_send
  stream_ok_beat_send stream_ok_caller stream_ok_open stream_ok_close stream_ok_greet stream_ok_write stream_ok_read

lemma stream_ok_step: "stream_step s t \<Longrightarrow> stream_ok n s \<Longrightarrow> n < 2 ^ 64 - 1 \<Longrightarrow> stream_ok (Suc n) t"
proof (induction rule: stream_step.induct)
  case (st_caller s xs p ys)
  then show ?case using stream_ok_caller stream_ok_more by fastforce
qed (simp_all add: stream_ok_steps stream_ok_more)

lemma stream_ok_run: "(stream_step ^^ n) NewStreamServer s \<Longrightarrow> n < 2 ^ 64 \<Longrightarrow> stream_ok n s"
proof (induction n arbitrary: s)
  case (Suc n)
  then obtain r where "(stream_step ^^ n) NewStreamServer r" "stream_step r s" by auto
  with Suc show ?case by (intro stream_ok_step) auto
qed (simp add: stream_ok_start)

text \<open>Claim C33. What a dashboard client receives, for every interleaving of the goroutines of the stream server and fewer
  than \<^verbatim>\<open>2^64\<close> steps: before anything else the state snapshot, followed at most by a replayed bundle event; then
  live events of which no two carry the same sequence number, and those of the fan-out goroutine arrive in
  increasing order.  Neither the channel of a client nor the queue of the server outgrows its capacity.\<close>

theorem clients_receive_numbered_stream:
  assumes "(stream_step ^^ n) NewStreamServer s" and "n < 2 ^ 64" and "(i, c) \<in> set (ssClients s)"
  shows "distinct (seqs (clWire c @ clSend c)) \<and> sorted_wrt (<) (evts (clWire c @ clSend c)) \<and> greeted c \<and>
    length (clSend c) \<le> clientChanCap \<and> length (ssQueue s) \<le> eventsCap"
  using stream_okD(8,9) [OF stream_ok_run [OF assms(1,2)]] assms(3) unfolding client_ok_def by blast

definition demo_stream :: StreamServer where
  "demo_stream = writePump True ''a'' (heartbeat_send (heartbeat_take 0 (sendStateSnapshot None True ''a'' (fst (ws_open 0 ''::1'' True ''a'' NewStreamServer)))))"

theorem clients_receive_numbered_stream_witness:
  "\<exists>c. (''a'', c) \<in> set (ssClients demo_stream) \<and> seqs (clWire c) = [1] \<and> greeted c \<and> length (clSend c) \<le> clientChanCap"
proof -
  let ?s1 = "fst (ws_open 0 ''::1'' True ''a'' NewStreamServer)"
  let ?s2 = "sendStateSnapshot None True ''a'' ?s1"
  let ?s3 = "heartbeat_take 0 ?s2"
  let ?s4 = "heartbeat_send ?s3"
  note defs = demo_stream_def ws_open_def NewStreamServer_def sendStateSnapshot_def heartbeat_take_def heartbeat_send_def writePump_def
    lim_allow_def newIPLimiter_def lim_inc_def maxClients_def on_client_def seq_next_def broadcast_def write_one_def push_client_def new_client_def
    clientChanCap_def
  have s1: "stream_step NewStreamServer ?s1" by (rule st_open) (simp add: NewStreamServer_def)
  have s2: "stream_step ?s1 ?s2" by (rule st_greet)
  have s3: "stream_step ?s2 ?s3" by (rule st_beat_take)
  have s4: "stream_step ?s3 ?s4" by (rule st_beat_send)
  have s5: "stream_step ?s4 demo_stream" unfolding demo_stream_def by (rule st_write)
  have r: "(stream_step ^^ 5) NewStreamServer demo_stream" using s1 s2 s3 s4 s5 by (auto simp: numeral_eq_Suc relcompp_apply)
  obtain c where c: "(''a'', c) \<in> set (ssClients demo_stream)" "seqs (clWire c) = [1]" by (simp add: defs)
  show ?thesis using clients_receive_numbered_stream [OF r _ c(1)] c by auto
qed

end
