(* ===== verification/StreamHttp.thy ===== *)
theory StreamHttp
  imports EventStream EnginePolicies
begin

text \<open>
  The HTTP side of the stream server (\<^verbatim>\<open>internal/stream/server.go\<close>): the address it binds, the origins it accepts, the
  handlers for simulation, policies and readiness, and the rate its limiter lets a client connect at.
\<close>

section \<open>Addresses\<close>

text \<open>\<^verbatim>\<open>net.SplitHostPort\<close>; \<^const>\<open>None\<close> is an error.\<close>

definition SplitHostPort :: "string \<Rightarrow> (string \<times> string) option" where
  "SplitHostPort s = (case LastIndexByte s (CHR '':'') of
     None \<Rightarrow> None
   | Some i \<Rightarrow>
      (if hd s = CHR ''['' then
         (case IndexByte s (CHR '']'') of
            None \<Rightarrow> None
          | Some e \<Rightarrow>
             (if e + 1 \<noteq> i then None
              else if CHR ''['' \<in> set (drop 1 s) \<or> CHR '']'' \<in> set (drop (e + 1) s) then None
              else Some (drop 1 (take e s), drop (i + 1) s)))
       else if CHR '':'' \<in> set (take i s) \<or> CHR ''['' \<in> set s \<or> CHR '']'' \<in> set s then None
       else Some (take i s, drop (i + 1) s)))"

definition resolveLoopbackAddr :: "string \<Rightarrow> string" where
  "resolveLoopbackAddr addr = (case SplitHostPort addr of None \<Rightarrow> addr | Some (_, port) \<Rightarrow> ''127.0.0.1:'' @ port)"

lemma LastIndexByte_None: "LastIndexByte s c = None \<longleftrightarrow> c \<notin> set s"
  by (induction s) (auto split: option.splits)

lemma LastIndexByte_append: "c \<notin> set p \<Longrightarrow> LastIndexByte (x @ c # p) c = Some (length x)"
  by (induction x) (simp_all add: LastIndexByte_None [THEN iffD2])

lemma LastIndexByte_split:
  assumes "LastIndexByte s c = Some i"
  shows "s = take i s @ c # drop (i + 1) s \<and> c \<notin> set (drop (i + 1) s)"
proof -
  have "c \<in> set s" using assms LastIndexByte_None [of s c] by auto
  then obtain x p where s: "s = x @ c # p" "c \<notin> set p" by (meson split_list_last)
  then have "i = length x" using assms LastIndexByte_append [of c p x] by simp
  then show ?thesis using s by simp
qed

lemma SplitHostPort_port:
  assumes "SplitHostPort s = Some (h, p)"
  shows "CHR '':'' \<notin> set p \<and> CHR ''['' \<notin> set p \<and> CHR '']'' \<notin> set p"
proof -
  obtain i where i: "LastIndexByte s (CHR '':'') = Some i" using assms by (auto simp: SplitHostPort_def split: option.splits)
  have p: "p = drop (i + 1) s"
    and b: "CHR ''['' \<notin> set (drop 1 s) \<or> CHR ''['' \<notin> set s" "CHR '']'' \<notin> set (drop i s) \<or> CHR '']'' \<notin> set s"
    using assms i by (auto simp: SplitHostPort_def split: option.splits if_splits)
  have "set p \<subseteq> set (drop 1 s)" "set p \<subseteq> set (drop i s)" "set p \<subseteq> set s"
    unfolding p using set_drop_subset_set_drop [of 1 "i + 1" s] set_drop_subset_set_drop [of i "i + 1" s] set_drop_subset [of "i + 1" s] by auto
  then show ?thesis using b LastIndexByte_split [OF i] p by blast
qed

lemma SplitHostPort_loopback:
  assumes "CHR '':'' \<notin> set p" "CHR ''['' \<notin> set p" "CHR '']'' \<notin> set p"
  shows "SplitHostPort (''127.0.0.1:'' @ p) = Some (''127.0.0.1'', p)"
  using assms LastIndexByte_append [of "CHR '':''" p "''127.0.0.1''"] by (simp add: SplitHostPort_def)

text \<open>The stream server listens on the loopback interface only: whatever address it is configured with, the address it
  binds is refused by the listener or has the host 127.0.0.1, and the configured port is kept.\<close>

theorem stream_listens_on_loopback:
  "(\<forall>h p. SplitHostPort (resolveLoopbackAddr addr) = Some (h, p) \<longrightarrow> h = ''127.0.0.1'') \<and>
   (\<forall>h p. SplitHostPort addr = Some (h, p) \<longrightarrow> SplitHostPort (resolveLoopbackAddr addr) = Some (''127.0.0.1'', p))"
proof (cases "SplitHostPort addr")
  case (Some hp)
  then obtain h p where hp: "SplitHostPort addr = Some (h, p)" by (cases hp) auto
  have "SplitHostPort (resolveLoopbackAddr addr) = Some (''127.0.0.1'', p)"
    using hp SplitHostPort_port [OF hp] SplitHostPort_loopback by (simp add: resolveLoopbackAddr_def)
  then show ?thesis using hp by simp
qed (simp add: resolveLoopbackAddr_def)

theorem stream_listens_on_loopback_witness:
  "SplitHostPort (resolveLoopbackAddr ''0.0.0.0:9090'') = Some (''127.0.0.1'', ''9090'')"
proof -
  have "SplitHostPort ''0.0.0.0:9090'' = Some (''0.0.0.0'', ''9090'')" by code_simp
  then show ?thesis using stream_listens_on_loopback [of "''0.0.0.0:9090''"] by blast
qed

section \<open>The rate of upgrades\<close>

datatype lim_op = TryUpgrade gotime string | Connected string | Disconnected string

fun lim_apply :: "lim_op \<Rightarrow> ipLimiter \<times> (gotime \<times> string \<times> bool) list \<Rightarrow> ipLimiter \<times> (gotime \<times> string \<times> bool) list" where
  "lim_apply (TryUpgrade t ip) (l, log) = (let (l', ok) = lim_allow t ip l in (l', log @ [(t, ip, ok)]))"
| "lim_apply (Connected ip) (l, log) = (lim_inc ip l, log)"
| "lim_apply (Disconnected ip) (l, log) = (lim_dec ip l, log)"

definition lim_run :: "lim_op list \<Rightarrow> ipLimiter \<times> (gotime \<times> string \<times> bool) list" where
  "lim_run ops = foldl (\<lambda>s op. lim_apply op s) (newIPLimiter, []) ops"

lemma lim_run_snoc: "lim_run (ops @ [op]) = lim_apply op (lim_run ops)"
  by (simp add: lim_run_def)

definition attempt_times :: "string \<Rightarrow> (gotime \<times> string \<times> bool) list \<Rightarrow> gotime list" where
  "attempt_times ip log = map fst (filter (\<lambda>(t, j, b). j = ip) log)"

definition admitted :: "string \<Rightarrow> gotime \<Rightarrow> (gotime \<times> string \<times> bool) list \<Rightarrow> nat" where
  "admitted ip w log = length (filter (\<lambda>(t, j, b). j = ip \<and> b \<and> w \<le> t \<and> t < w + minute) log)"

lemma admitted_le: "admitted ip w log \<le> length (filter (\<lambda>t. w \<le> t) (attempt_times ip log))"
  unfolding admitted_def attempt_times_def by (induction log) auto

lemma recent_twice:
  fixes H :: "int list"
  assumes "sorted (H @ [t])"
  shows "filter (\<lambda>x. t - x < m) (filter (\<lambda>x. last H - x < m) H) = filter (\<lambda>x. t - x < m) H"
proof -
  have "last H \<le> t" if "x \<in> set H" for x using assms that by (cases H) (auto simp: sorted_append)
  then have "last H - x < m" if "x \<in> set H" "t - x < m" for x using that by force
  then show ?thesis by (auto intro: filter_cong)
qed

lemma recent_of_window:
  fixes H :: "int list"
  shows "t < w + m \<Longrightarrow> length (filter (\<lambda>x. w \<le> x) H) \<le> length (filter (\<lambda>x. t - x < m) H)"
  by (induction H) auto

lemma lim_run_inv:
  assumes "sorted (attempt_times ip (snd (lim_run ops)))"
  shows "lmAttempts (fst (lim_run ops)) ip =
      (let H = attempt_times ip (snd (lim_run ops)) in filter (\<lambda>x. last H - x < minute) H) \<and>
    (\<forall>w. admitted ip w (snd (lim_run ops)) \<le> 10)"
  using assms
proof (induction ops rule: rev_induct)
  case Nil
  then show ?case by (simp add: lim_run_def newIPLimiter_def attempt_times_def admitted_def)
next
  case (snoc op ops)
  obtain l log where run: "lim_run ops = (l, log)" by fastforce
  show ?case
  proof (cases op)
    case (TryUpgrade t j)
    then show ?thesis
    proof (cases "j = ip")
      case True
      let ?H = "attempt_times ip log"
      have sH: "sorted (?H @ [t])"
        using snoc.prems run TryUpgrade True by (simp add: lim_run_snoc lim_allow_def attempt_times_def)
      then have IH: "lmAttempts l ip = filter (\<lambda>x. last ?H - x < minute) ?H" "\<forall>w. admitted ip w log \<le> 10"
        using snoc.IH run by (simp_all add: sorted_append Let_def)
      then have f: "filter (\<lambda>x. t - x < minute) (lmAttempts l ip) = filter (\<lambda>x. t - x < minute) ?H" using recent_twice [OF sH] by simp
      have "admitted ip w log \<le> 9" if "length (filter (\<lambda>x. t - x < minute) ?H) \<le> 9" "t < w + minute" for w
        using admitted_le [of ip w log] recent_of_window [OF that(2), of ?H] that(1) by simp
      then show ?thesis using run TryUpgrade True IH(2) f
        by (auto simp: lim_run_snoc lim_allow_def attempt_times_def admitted_def minute_def second_def)
    next
      case False
      then show ?thesis using snoc run TryUpgrade by (simp add: lim_run_snoc lim_allow_def attempt_times_def admitted_def)
    qed
  next
    case (Connected j)
    then show ?thesis using snoc run by (simp add: lim_run_snoc lim_inc_def)
  next
    case (Disconnected j)
    then show ?thesis using snoc run by (simp add: lim_run_snoc lim_dec_def)
  qed
qed

text \<open>The limiter bounds the rate of upgrades: however attempts, connections and disconnections of all addresses are
  interleaved, at most ten attempts of one address are admitted in any window of one minute.\<close>

theorem upgrade_rate_bounded:
  assumes "sorted (attempt_times ip (snd (lim_run ops)))"
  shows "admitted ip w (snd (lim_run ops)) \<le> 10"
  using lim_run_inv [OF assms] by blast

theorem upgrade_rate_bounded_witness:
  "admitted ''::1'' 0 (snd (lim_run (replicate 12 (TryUpgrade 5 ''::1'')))) \<le> 10"
  by (rule upgrade_rate_bounded) code_simp

section \<open>Origins and handlers\<close>

text \<open>The parameters: \<^verbatim>\<open>url.Parse\<close> as scheme and host name, and the decoding of a request body.\<close>

record StreamLib =
  slURL :: "string \<Rightarrow> (string \<times> string) option"
  slRequest :: "string \<Rightarrow> CheckRequest option"

definition isAllowedOrigin :: "StreamLib \<Rightarrow> string \<Rightarrow> bool" where
  "isAllowedOrigin lib origin = (case slURL lib origin of
     None \<Rightarrow> False
   | Some (scheme, h) \<Rightarrow> (h = ''localhost'' \<or> h = ''127.0.0.1'') \<and> (scheme = ''http'' \<or> scheme = ''https''))"

definition isLocalhostOrigin :: "StreamLib \<Rightarrow> string \<Rightarrow> bool" where
  "isLocalhostOrigin lib origin = (case slURL lib origin of
     None \<Rightarrow> False
   | Some (scheme, h) \<Rightarrow> (h = ''localhost'' \<or> h = ''127.0.0.1'') \<and> scheme = ''http'')"

definition CheckOrigin :: "StreamLib \<Rightarrow> string \<Rightarrow> bool" where
  "CheckOrigin lib origin \<longleftrightarrow> origin = [] \<or> isAllowedOrigin lib origin"

record HttpReq =
  hqMethod :: string
  hqOrigin :: string
  hqBody :: string

text \<open>The status, the CORS headers (empty when not set) and the body, when it is not an error text.\<close>

record 'b HttpAns =
  haStatus :: nat
  haAllowOrigin :: string
  haAllowMethods :: string
  haAllowHeaders :: string
  haBody :: "'b option"

definition plain_answer :: "nat \<Rightarrow> string \<Rightarrow> 'b option \<Rightarrow> 'b HttpAns" where
  "plain_answer code origin body = \<lparr>haStatus = code, haAllowOrigin = origin, haAllowMethods = [], haAllowHeaders = [], haBody = body\<rparr>"

definition preflight_answer :: "StreamLib \<Rightarrow> string \<Rightarrow> HttpReq \<Rightarrow> 'b HttpAns" where
  "preflight_answer lib methods r =
    (if hqOrigin r \<noteq> [] \<and> isLocalhostOrigin lib (hqOrigin r)
     then \<lparr>haStatus = 204, haAllowOrigin = hqOrigin r, haAllowMethods = methods, haAllowHeaders = ''Content-Type'', haBody = None\<rparr>
     else plain_answer 204 [] None)"

definition cors_header :: "StreamLib \<Rightarrow> HttpReq \<Rightarrow> string" where
  "cors_header lib r = (if hqOrigin r \<noteq> [] \<and> isLocalhostOrigin lib (hqOrigin r) then hqOrigin r else [])"

text \<open>\<^verbatim>\<open>hasEval\<close> says whether an evaluator was injected; \<^verbatim>\<open>nowNano\<close>, \<^verbatim>\<open>newID\<close> and \<^verbatim>\<open>latency\<close> are the clock reading, the fresh identifier and the
  measured duration the handler may use.\<close>

definition simulate_request :: "int \<Rightarrow> string \<Rightarrow> CheckRequest \<Rightarrow> CheckRequest" where
  "simulate_request nowNano newID req =
    (let r1 = (if Timestamp req = 0 then req\<lparr>Timestamp := nowNano\<rparr> else req)
     in if SessionID r1 = [] then r1\<lparr>SessionID := newID\<rparr> else r1)"

definition simulate_event :: "CheckRequest \<Rightarrow> CheckResponse \<Rightarrow> StreamEvent" where
  "simulate_event req resp =
     \<lparr>EvType = (if resp_action resp = ActionDeny then ''policy.denied'' else ''policy.evaluated''), EvSession = SessionID req, EvTool = Tool req,
      EvAction = resp_action resp, EvReason = Reason (RespDecision resp), EvLabel = Labels (RespDecision resp),
      EvTimestamp = Timestamp req, EvPolicy = PolicyID (RespDecision resp), EvLayer = layerName (RespLayer resp),
      EvLabelState = ''fresh'', EvLatency = LatencyNs resp\<rparr>"

definition handleSimulate ::
    "StreamLib \<Rightarrow> bool \<Rightarrow> ('ast, 'prog) EngineEnv \<Rightarrow> EvalInput \<Rightarrow> int \<Rightarrow> string \<Rightarrow> int \<Rightarrow> HttpReq \<Rightarrow> StreamServer \<times> 'prog engineState
     \<Rightarrow> (StreamServer \<times> 'prog engineState) \<times> CheckResponse HttpAns" where
  "handleSimulate lib hasEval env inp nowNano newID latency r st =
    (if hqMethod r = ''OPTIONS'' then (st, preflight_answer lib ''POST, OPTIONS'' r)
     else if hqMethod r \<noteq> ''POST'' then (st, plain_answer 405 [] None)
     else if \<not> hasEval then (st, plain_answer 501 (cors_header lib r) None)
     else case slRequest lib (take simulateBodyLimit (hqBody r)) of
       None \<Rightarrow> (st, plain_answer 400 (cors_header lib r) None)
     | Some req0 \<Rightarrow>
        (let req = simulate_request nowNano newID req0;
             (eng, resp0) = Evaluate env inp req (snd st);
             resp = (if LatencyNs resp0 = 0 then resp0\<lparr>LatencyNs := latency\<rparr> else resp0)
         in ((Emit (simulate_event req resp) (fst st), eng), plain_answer 200 (cors_header lib r) (Some resp))))"

record PolicyInfo =
  PiID :: string
  PiName :: string
  PiLayer :: string
  PiEnabled :: bool
  PiCelExpression :: string
  PiDescription :: string

definition policy_info :: "PolicySummary \<Rightarrow> PolicyInfo" where
  "policy_info ps = \<lparr>PiID = SumID ps, PiName = SumName ps, PiLayer = SumLayer ps, PiEnabled = SumEnabled ps,
     PiCelExpression = SumCelExpression ps, PiDescription = SumDescription ps\<rparr>"

definition handlePolicies :: "StreamLib \<Rightarrow> bool \<Rightarrow> HttpReq \<Rightarrow> 'prog engineState \<Rightarrow> PolicyInfo list HttpAns" where
  "handlePolicies lib hasLister r st =
    (if hqMethod r = ''OPTIONS'' then preflight_answer lib ''GET, OPTIONS'' r
     else if hqMethod r \<noteq> ''GET'' then plain_answer 405 [] None
     else if \<not> hasLister then plain_answer 501 (cors_header lib r) None
     else plain_answer 200 (cors_header lib r) (Some (map policy_info (ListPolicies st))))"

definition handleHealthzReady :: "StreamServer \<Rightarrow> nat \<times> string" where
  "handleHealthzReady s = (if ssReady s then (200, ''ready'') else (503, ''starting''))"

text \<open>A simulation is a real evaluation, whatever page it comes from.  A POST whose body decodes is answered with the
  decision of the live engine, and the engine keeps the state that evaluation leaves; the origin of the request
  only decides whether the answer carries the header that lets a page read it.  Nothing but a POST touches the engine.\<close>

theorem simulate_runs_live_engine:
  "let run = handleSimulate lib True env inp nowNano newID latency in
    (hqMethod r \<noteq> ''POST'' \<or> slRequest lib (take simulateBodyLimit (hqBody r)) = None \<longrightarrow>
      fst (run r (s, eng)) = (s, eng) \<and> haStatus (snd (run r (s, eng))) \<noteq> 200) \<and>
    (\<forall>req. hqMethod r = ''POST'' \<and> slRequest lib (take simulateBodyLimit (hqBody r)) = Some req \<longrightarrow>
      snd (fst (run r (s, eng))) = fst (Evaluate env inp (simulate_request nowNano newID req) eng) \<and>
      haStatus (snd (run r (s, eng))) = 200 \<and>
      map_option resp_action (haBody (snd (run r (s, eng)))) =
        Some (resp_action (snd (Evaluate env inp (simulate_request nowNano newID req) eng))) \<and>
      haAllowOrigin (snd (run r (s, eng))) = (if isLocalhostOrigin lib (hqOrigin r) then hqOrigin r else []))"
  by (auto simp: handleSimulate_def preflight_answer_def plain_answer_def cors_header_def Let_def case_prod_beta)

definition demo_stream_lib :: StreamLib where
  "demo_stream_lib = \<lparr>slURL = (\<lambda>_. Some (''https'', ''evil.example'')), slRequest = (\<lambda>_. Some (demo_read ''/tmp/notes''))\<rparr>"

theorem simulate_runs_live_engine_witness:
  "let r = \<lparr>hqMethod = ''POST'', hqOrigin = ''https://evil.example'', hqBody = ''{}''\<rparr>;
       eng = demo_state [(''p'', ''true'', [])];
       run = handleSimulate demo_stream_lib True (demo_env (ScanDone [])) demo_input 0 ''s2'' 1
   in snd (fst (run r (NewStreamServer, eng))) = fst (Evaluate (demo_env (ScanDone [])) demo_input (simulate_request 0 ''s2'' (demo_read ''/tmp/notes'')) eng) \<and>
      haStatus (snd (run r (NewStreamServer, eng))) = 200"
  using simulate_runs_live_engine [where r = "\<lparr>hqMethod = ''POST'', hqOrigin = ''https://evil.example'', hqBody = ''{}''\<rparr>" and lib = demo_stream_lib
      and env = "demo_env (ScanDone [])" and inp = demo_input and nowNano = 0 and newID = "''s2''" and latency = 1 and s = NewStreamServer
      and eng = "demo_state [(''p'', ''true'', [])]"]
  by (simp add: demo_stream_lib_def Let_def)

text \<open>Messages of different goroutines can overtake each other: a heartbeat that took its number first may arrive after an
  event that took its number later.\<close>

definition demo_event :: StreamEvent where
  "demo_event = \<lparr>EvType = ''decision'', EvSession = [], EvTool = ''Bash'', EvAction = ActionAllow, EvReason = [], EvLabel = zeroLabel,
     EvTimestamp = 0, EvPolicy = [], EvLayer = [], EvLabelState = ''fresh'', EvLatency = 0\<rparr>"

lemma heartbeat_overtaken:
  "\<exists>s c. stream_step\<^sup>*\<^sup>* NewStreamServer s \<and> (''a'', c) \<in> set (ssClients s) \<and> seqs (clSend c) = [2, 1]"
proof -
  let ?s1 = "fst (ws_open 0 ''::1'' True ''a'' NewStreamServer)"
  let ?s2 = "Emit demo_event (heartbeat_take 0 ?s1)"
  let ?s3 = "heartbeat_send (fanOut_send (fanOut_take ?s2))"
  have "stream_step NewStreamServer ?s1" by (rule st_open) (simp add: NewStreamServer_def)
  moreover have "stream_step ?s1 (heartbeat_take 0 ?s1)" by (rule st_beat_take)
  moreover have "stream_step (heartbeat_take 0 ?s1) ?s2" by (rule st_emit)
  moreover have "stream_step ?s2 (fanOut_take ?s2)" by (rule st_fan_take)
  moreover have "stream_step (fanOut_take ?s2) (fanOut_send (fanOut_take ?s2))" by (rule st_fan_send)
  moreover have "stream_step (fanOut_send (fanOut_take ?s2)) ?s3" by (rule st_beat_send)
  ultimately have r: "stream_step\<^sup>*\<^sup>* NewStreamServer ?s3" by (meson r_into_rtranclp rtranclp_trans)
  have "\<exists>c. (''a'', c) \<in> set (ssClients ?s3) \<and> seqs (clSend c) = [2, 1]"
    by (simp add: ws_open_def NewStreamServer_def heartbeat_take_def heartbeat_send_def fanOut_take_def fanOut_send_def lim_allow_def
        newIPLimiter_def lim_inc_def maxClients_def seq_next_def broadcast_def push_client_def new_client_def clientChanCap_def Emit_def
        demo_event_def normalizeEventType_def validEventTypes_def eventsCap_def)
  with r show ?thesis by blast
qed

end
