(* ===== verification/CliSetup.thy ===== *)
theory CliSetup
  imports Types GoPath "HOL-Library.AList"
begin

text \<open>
  What \<^verbatim>\<open>nixis setup\<close> and \<^verbatim>\<open>nixis uninstall\<close> do to the files of the user: the hook entry in the settings of Claude Code
  (\<^verbatim>\<open>patchSettingsJSON\<close>, \<^verbatim>\<open>unpatchSettingsJSON\<close> of \<^verbatim>\<open>cmd/nixis/setup.go\<close>) and the \<^verbatim>\<open>PATH\<close> line in the shell configuration
  (\<^verbatim>\<open>patchShellPATH\<close>, and \<^verbatim>\<open>removeNixisLines\<close> of \<^verbatim>\<open>cmd/nixis/uninstall.go\<close>).  Files are a map from paths to contents; settings
  are kept as the parsed document, in which an object is a list of members with distinct names.
\<close>

section \<open>Settings\<close>

definition settingsJSONPath :: "string \<Rightarrow> string" where
  "settingsJSONPath homeDir = filepath_Join [homeDir, ''.claude'', ''settings.json'']"

text \<open>The document read, when the file exists; a document that is no object does not decode, except \<^verbatim>\<open>null\<close>, which leaves
  the map nil.\<close>

datatype SettingsFile = NoSettings | UnreadableSettings | ParsedSettings json

datatype 'a SettingsResult = SettingsError | SettingsPanic | SettingsUnchanged | SettingsWritten 'a

definition hook_config :: "string \<Rightarrow> json" where
  "hook_config hookPath =
     JObj [(''matcher'', JStr []), (''hooks'', JArr [JObj [(''type'', JStr ''command''), (''command'', JStr hookPath), (''timeout'', JNum ''10'')]])]"

type_synonym members = "(string \<times> json) list"

definition hooks_of :: "members \<Rightarrow> members option" where
  "hooks_of settings = (case map_of settings ''hooks'' of Some (JObj hs) \<Rightarrow> Some hs | _ \<Rightarrow> None)"

definition patched :: "string \<Rightarrow> members \<Rightarrow> members" where
  "patched hookPath settings =
    (let hooks = (case hooks_of settings of Some hs \<Rightarrow> hs | None \<Rightarrow> [])
     in AList.update ''hooks'' (JObj (AList.update ''PreToolUse'' (JArr [hook_config hookPath]) hooks)) settings)"

text \<open>\<^verbatim>\<open>agreed\<close> is the answer to the confirmation, asked unless \<^verbatim>\<open>yes\<close> is set.\<close>

definition patchSettingsJSON :: "bool \<Rightarrow> bool \<Rightarrow> bool \<Rightarrow> string \<Rightarrow> SettingsFile \<Rightarrow> members SettingsResult" where
  "patchSettingsJSON dryRun yes agreed hookPath file =
    (let write = (\<lambda>settings. if dryRun \<or> \<not> yes \<and> \<not> agreed then SettingsUnchanged else SettingsWritten (patched hookPath settings))
     in case file of
       UnreadableSettings \<Rightarrow> SettingsError
     | NoSettings \<Rightarrow> write []
     | ParsedSettings (JObj settings) \<Rightarrow> write settings
     | ParsedSettings JNull \<Rightarrow> SettingsPanic
     | ParsedSettings _ \<Rightarrow> SettingsError)"

definition unpatched :: "members \<Rightarrow> members \<Rightarrow> members" where
  "unpatched hooks settings =
    (let hooks1 = AList.delete ''PreToolUse'' hooks
     in if hooks1 = [] then AList.delete ''hooks'' settings else AList.update ''hooks'' (JObj hooks1) settings)"

definition unpatchSettingsJSON :: "bool \<Rightarrow> SettingsFile \<Rightarrow> members SettingsResult" where
  "unpatchSettingsJSON dryRun file = (case file of
     NoSettings \<Rightarrow> SettingsUnchanged
   | UnreadableSettings \<Rightarrow> SettingsError
   | ParsedSettings (JObj settings) \<Rightarrow>
      (case hooks_of settings of
         None \<Rightarrow> SettingsUnchanged
       | Some hooks \<Rightarrow> if dryRun then SettingsUnchanged else SettingsWritten (unpatched hooks settings))
   | ParsedSettings JNull \<Rightarrow> SettingsUnchanged
   | ParsedSettings _ \<Rightarrow> SettingsError)"

section \<open>Shell configuration\<close>

type_synonym files = "string \<rightharpoonup> string"

definition newline :: char where "newline = CHR 0x0A"

definition existing :: "files \<Rightarrow> string list \<Rightarrow> string" where
  "existing fs paths = (case filter (\<lambda>p. fs p \<noteq> None) paths of p # _ \<Rightarrow> p | [] \<Rightarrow> [])"

definition detectShellConfig :: "files \<Rightarrow> string \<Rightarrow> string \<Rightarrow> string" where
  "detectShellConfig fs homeDir shellPath =
    (let shell = Base shellPath;
         candidate = (if shell = ''zsh'' then Some (filepath_Join [homeDir, ''.zshrc''])
                      else if shell = ''bash'' then Some (filepath_Join [homeDir, ''.bashrc''])
                      else if shell = ''fish'' then Some (filepath_Join [homeDir, ''.config'', ''fish'', ''config.fish''])
                      else None);
         fallback = existing fs [filepath_Join [homeDir, ''.zshrc''], filepath_Join [homeDir, ''.bashrc''],
                                 filepath_Join [homeDir, ''.bash_profile''], filepath_Join [homeDir, ''.profile'']]
     in case candidate of Some cfg \<Rightarrow> if fs cfg \<noteq> None then cfg else fallback | None \<Rightarrow> fallback)"

definition path_line :: "string \<Rightarrow> string \<Rightarrow> string" where
  "path_line shell nixisDir =
    (if shell = ''fish'' then ''fish_add_path '' @ nixisDir
     else ''export PATH='' @ [CHR 0x22] @ nixisDir @ '':$PATH'' @ [CHR 0x22])"

definition marker :: string where "marker = ''# Nixis''"

definition path_block :: "string \<Rightarrow> string \<Rightarrow> string" where
  "path_block shell nixisDir = [newline] @ marker @ [newline] @ path_line shell nixisDir @ [newline]"

text \<open>The error is a missing configuration file or one that cannot be opened (\<^verbatim>\<open>writable\<close>).\<close>

definition patchShellPATH ::
    "bool \<Rightarrow> bool \<Rightarrow> string \<Rightarrow> string \<Rightarrow> string \<Rightarrow> string \<Rightarrow> files \<Rightarrow> files \<times> (string \<times> bool) option" where
  "patchShellPATH dryRun writable homeDir shellPath pathEnv nixisDir fs =
    (let inPath = nixisDir \<in> set (if pathEnv = [] then [] else Split pathEnv (CHR '':''));
         cfg = detectShellConfig fs homeDir shellPath
     in if cfg = [] then (fs, if inPath then Some ([], False) else None)
        else case fs cfg of
          Some data \<Rightarrow>
            (if Contains data nixisDir then (fs, Some (cfg, False))
             else if dryRun then (fs, Some (cfg, False))
             else if \<not> writable then (fs, None)
             else (fs(cfg \<mapsto> data @ path_block (Base shellPath) nixisDir), Some (cfg, True)))
        | None \<Rightarrow> (fs, if dryRun then Some (cfg, False) else None))"

text \<open>The loop of \<^verbatim>\<open>removeNixisLines\<close>: the lines collected so far, whether something was removed, whether the next line is
  skipped.\<close>

fun remove_lines :: "string list \<Rightarrow> bool \<Rightarrow> bool \<Rightarrow> string list \<Rightarrow> string list \<times> bool" where
  "remove_lines result modified skipNext [] = (result, modified)"
| "remove_lines result modified skipNext (line # lines) =
    (if skipNext then remove_lines result modified False lines
     else if Contains line marker
     then remove_lines (if result \<noteq> [] \<and> last result = [] then butlast result else result) True True lines
     else remove_lines (result @ [line]) modified False lines)"

definition removeNixisLines :: "string \<Rightarrow> files \<Rightarrow> files \<times> bool" where
  "removeNixisLines path fs = (case fs path of
     None \<Rightarrow> (fs, False)
   | Some data \<Rightarrow>
      (let (result, modified) = remove_lines [] False False (Split data newline)
       in (if modified then fs(path \<mapsto> JoinStrings result [newline]) else fs, modified)))"

definition cleaned_configs :: "string \<Rightarrow> string list" where
  "cleaned_configs homeDir =
     [filepath_Join [homeDir, ''.zshrc''], filepath_Join [homeDir, ''.bashrc''], filepath_Join [homeDir, ''.profile''],
      filepath_Join [homeDir, ''.config'', ''fish'', ''config.fish'']]"

definition cleanShellConfigs :: "string \<Rightarrow> files \<Rightarrow> files" where
  "cleanShellConfigs homeDir fs = foldl (\<lambda>fs cfg. fst (removeNixisLines cfg fs)) fs (cleaned_configs homeDir)"

section \<open>Settings: round trip\<close>

lemma update_fresh: "k \<notin> fst ` set xs \<Longrightarrow> AList.update k v xs = xs @ [(k, v)]"
  by (induction xs) auto

lemma delete_append: "AList.delete k (xs @ ys) = AList.delete k xs @ AList.delete k ys"
  by (simp add: AList.delete_eq)

lemma delete_fresh: "k \<notin> fst ` set xs \<Longrightarrow> AList.delete k xs = xs"
  by (force simp: AList.delete_eq filter_id_conv)

lemma map_of_fresh: "map_of xs k = None \<longleftrightarrow> k \<notin> fst ` set xs"
  by (simp add: map_of_eq_None_iff)

lemma update_update_same: "map_of xs k = Some v \<Longrightarrow> distinct (map fst xs) \<Longrightarrow> AList.update k v (AList.update k w xs) = xs"
proof (induction xs)
  case (Cons kv xs)
  then show ?case by (cases kv) (auto split: if_splits)
qed simp

definition has_other_hooks :: "members \<Rightarrow> bool" where
  "has_other_hooks settings \<longleftrightarrow>
    map_of settings ''hooks'' = None \<or> (\<exists>hs. map_of settings ''hooks'' = Some (JObj hs) \<and> hs \<noteq> [] \<and> ''PreToolUse'' \<notin> fst ` set hs)"

lemma hooks_of_patched:
  "hooks_of (patched hookPath settings) =
     Some (AList.update ''PreToolUse'' (JArr [hook_config hookPath]) (case hooks_of settings of Some hs \<Rightarrow> hs | None \<Rightarrow> []))"
  by (simp add: hooks_of_def patched_def Let_def update_conv')

lemma unpatch_patched:
  assumes "distinct (map fst settings)" and "has_other_hooks settings"
  shows "unpatchSettingsJSON False (ParsedSettings (JObj (patched hookPath settings))) = SettingsWritten settings"
proof (cases "map_of settings ''hooks''")
  case None
  then have h: "hooks_of settings = None" by (simp add: hooks_of_def)
  have "''hooks'' \<notin> fst ` set settings" using None map_of_fresh by metis
  then show ?thesis
    using h by (simp add: unpatchSettingsJSON_def hooks_of_patched)
      (simp add: unpatched_def patched_def update_fresh delete_append delete_fresh Let_def)
next
  case (Some v)
  then obtain hs where v: "v = JObj hs" "hs \<noteq> []" "''PreToolUse'' \<notin> fst ` set hs" using assms(2) by (auto simp: has_other_hooks_def)
  then have h: "hooks_of settings = Some hs" using Some by (simp add: hooks_of_def)
  have "AList.delete ''PreToolUse'' (AList.update ''PreToolUse'' (JArr [hook_config hookPath]) hs) = hs"
    using v(3) by (simp add: update_fresh delete_append delete_fresh)
  then show ?thesis
    using v Some h update_update_same [OF _ assms(1), of "''hooks''" "JObj hs"]
    by (simp add: unpatchSettingsJSON_def hooks_of_patched) (simp add: unpatched_def patched_def Let_def)
qed

text \<open>Setting up and uninstalling leaves the settings as they were.  After \<^verbatim>\<open>patchSettingsJSON\<close> the hook is the only entry of
  \<^verbatim>\<open>PreToolUse\<close>, and every other setting is kept; \<^verbatim>\<open>unpatchSettingsJSON\<close> then restores the document exactly, provided that it had
  no \<^verbatim>\<open>hooks\<close> section or one with hooks for other events only.\<close>

theorem settings_round_trip:
  assumes "distinct (map fst settings)" and "has_other_hooks settings"
    and "patchSettingsJSON False yes agreed hookPath (ParsedSettings (JObj settings)) = SettingsWritten settings'"
  shows "(\<exists>hs. hooks_of settings' = Some hs \<and> map_of hs ''PreToolUse'' = Some (JArr [hook_config hookPath])) \<and>
    (\<forall>k. k \<noteq> ''hooks'' \<longrightarrow> map_of settings' k = map_of settings k) \<and>
    unpatchSettingsJSON False (ParsedSettings (JObj settings')) = SettingsWritten settings"
proof -
  have p: "settings' = patched hookPath settings" using assms(3) by (simp add: patchSettingsJSON_def Let_def split: if_splits)
  show ?thesis
    using unpatch_patched [OF assms(1,2), of hookPath] unfolding p hooks_of_patched
    by (simp add: update_conv' patched_def Let_def)
qed

theorem settings_round_trip_witness:
  "let settings = [(''model'', JStr ''opus''), (''hooks'', JObj [(''Stop'', JArr [])])]
   in unpatchSettingsJSON False (ParsedSettings (JObj (patched ''/h/.nixis/nixis-hook'' settings))) = SettingsWritten settings"
  using settings_round_trip [of "[(''model'', JStr ''opus''), (''hooks'', JObj [(''Stop'', JArr [])])]" True False "''/h/.nixis/nixis-hook''"
      "patched ''/h/.nixis/nixis-hook'' [(''model'', JStr ''opus''), (''hooks'', JObj [(''Stop'', JArr [])])]"]
  by (simp add: has_other_hooks_def patchSettingsJSON_def)

text \<open>Hooks of the user for the same event are lost.\<close>

lemma other_PreToolUse_lost:
  assumes "map_of settings ''hooks'' = Some (JObj hs)" and "map_of hs ''PreToolUse'' = Some v"
  shows "\<forall>hs'. hooks_of (unpatched (the (hooks_of (patched hookPath settings))) (patched hookPath settings)) = Some hs' \<longrightarrow> map_of hs' ''PreToolUse'' = None"
  by (auto simp: unpatched_def hooks_of_def update_conv' delete_conv' Let_def split: if_splits)

section \<open>Shell configuration: round trip\<close>

lemma split_acc_sep: "split_acc sep (x @ sep # y) acc = split_acc sep x acc @ split_acc sep y []"
  by (induction x arbitrary: acc) auto

lemma Split_sep: "Split (x @ sep # y) sep = Split x sep @ Split y sep"
  by (simp add: Split_def split_acc_sep)

lemma Split_single: "sep \<notin> set x \<Longrightarrow> Split x sep = [x]"
proof -
  have "sep \<notin> set x \<Longrightarrow> split_acc sep x acc = [rev acc @ x]" for acc by (induction x arbitrary: acc) auto
  then show "sep \<notin> set x \<Longrightarrow> Split x sep = [x]" by (simp add: Split_def)
qed

lemma Split_piece: "x \<in> set (Split s sep) \<Longrightarrow> \<exists>u v. s = u @ x @ v"
proof -
  have "x \<in> set (split_acc sep s acc) \<Longrightarrow> \<exists>u v. rev acc @ s = u @ x @ v" for acc
  proof (induction s arbitrary: acc)
    case (Cons c s)
    show ?case
    proof (cases "c = sep")
      case True
      then consider "x = rev acc" | "x \<in> set (split_acc sep s [])" using Cons.prems by auto
      then show ?thesis
      proof cases
        case 2
        from Cons.IH [OF this] obtain u v where "s = u @ x @ v" by auto
        then have "rev acc @ c # s = (rev acc @ c # u) @ x @ v" by simp
        then show ?thesis by blast
      qed (metis append_Nil)
    next
      case False
      then show ?thesis using Cons.IH [of "c # acc"] Cons.prems by simp
    qed
  qed (metis append_Nil append_Nil2 empty_iff list.set(1) set_ConsD split_acc.simps(1))
  then show "x \<in> set (Split s sep) \<Longrightarrow> \<exists>u v. s = u @ x @ v" by (metis Split_def append_Nil rev.simps(1))
qed

lemma Join_snoc_empty: "xs \<noteq> [] \<Longrightarrow> JoinStrings (xs @ [[]]) sep = JoinStrings xs sep @ sep"
proof (induction xs)
  case (Cons x xs)
  then show ?case by (cases xs) auto
qed simp

lemma remove_lines_clean:
  "\<forall>l \<in> set xs. \<not> Contains l marker \<Longrightarrow> remove_lines result m False (xs @ ys) = remove_lines (result @ xs) m False ys"
  by (induction xs arbitrary: result) auto

lemma last_Split: "last (Split s sep) = [] \<longleftrightarrow> s = [] \<or> last s = sep"
proof -
  have "last (split_acc sep s acc) = [] \<longleftrightarrow> (s = [] \<and> acc = []) \<or> (s \<noteq> [] \<and> last s = sep)" for acc
    by (induction s arbitrary: acc) auto
  then show ?thesis by (auto simp: Split_def)
qed

lemma remove_block:
  assumes "\<not> Contains data marker" and "newline \<notin> set line"
  shows "JoinStrings (fst (remove_lines [] False False (Split (data @ [newline] @ marker @ [newline] @ line @ [newline]) newline))) [newline] =
      (if data = [] \<or> last data = newline then data else data @ [newline]) \<and>
    snd (remove_lines [] False False (Split (data @ [newline] @ marker @ [newline] @ line @ [newline]) newline))"
proof -
  have clean: "\<forall>l \<in> set (Split data newline). \<not> Contains l marker"
    using assms(1) Split_piece by (metis Contains_iff append_assoc)
  have m: "newline \<notin> set marker" by (simp add: marker_def newline_def)
  have "data @ [newline] @ marker @ [newline] @ line @ [newline] = data @ newline # (marker @ newline # (line @ newline # []))" by simp
  then have lines: "Split (data @ [newline] @ marker @ [newline] @ line @ [newline]) newline = Split data newline @ [marker, line, []]"
    by (simp only: Split_sep Split_single [OF m] Split_single [OF assms(2)]) (simp add: Split_def)
  have "Contains marker marker" by (simp add: Contains_self_prefix HasPrefix_iff)
  moreover have "\<not> Contains [] marker" by (simp add: marker_def)
  ultimately have r: "remove_lines [] False False (Split data newline @ [marker, line, []]) =
      ((if last (Split data newline) = [] then butlast (Split data newline) else Split data newline) @ [[]], True)"
    by (simp add: remove_lines_clean [OF clean])
  have "JoinStrings (butlast (Split data newline) @ [[]]) [newline] = data" if "last (Split data newline) = []"
    using that Split_JoinStrings [of data newline] by (metis Split_nonempty append_butlast_last_id)
  moreover have "JoinStrings (Split data newline @ [[]]) [newline] = data @ [newline]"
    by (simp add: Join_snoc_empty Split_JoinStrings)
  ultimately show ?thesis unfolding lines r by (simp add: last_Split)
qed

text \<open>Uninstalling undoes the change to the shell configuration.  When setup has added its block to a configuration file
  that did not mention Nixis, removing the Nixis lines gives the file back as it was, up to a newline at the end
  that it may have lacked; no other file is touched.\<close>

theorem shell_config_round_trip:
  assumes "patchShellPATH False True homeDir shellPath pathEnv nixisDir fs = (fs', Some (cfg, True))"
    and "fs cfg = Some data" and "\<not> Contains data marker" and "newline \<notin> set nixisDir"
  shows "removeNixisLines cfg fs' = (fs(cfg \<mapsto> (if data = [] \<or> last data = newline then data else data @ [newline])), True) \<and>
    (\<forall>p. p \<noteq> cfg \<longrightarrow> fs' p = fs p)"
proof -
  have fs': "fs' = fs(cfg \<mapsto> data @ path_block (Base shellPath) nixisDir)"
    using assms(1,2) by (auto simp: patchShellPATH_def Let_def split: if_splits option.splits)
  have "newline \<notin> set (path_line (Base shellPath) nixisDir)" using assms(4) by (simp add: path_line_def newline_def)
  note block = remove_block [OF assms(3) this]
  show ?thesis
    using block by (simp add: removeNixisLines_def fs' path_block_def case_prod_beta)
qed

definition demo_home :: files where
  "demo_home = [''/h/.zshrc'' \<mapsto> ''alias ll=ls'' @ [newline]]"

theorem shell_config_round_trip_witness:
  "let fs' = fst (patchShellPATH False True ''/h'' ''/bin/zsh'' ''/bin'' ''/h/.nixis'' demo_home)
   in fs' \<noteq> demo_home \<and> removeNixisLines ''/h/.zshrc'' fs' = (demo_home, True)"
proof -
  let ?data = "''alias ll=ls'' @ [newline]"
  have b: "Base ''/bin/zsh'' = ''zsh''" by code_simp
  have z: "filepath_Join [''/h'', ''.zshrc''] = ''/h/.zshrc''" by code_simp
  have d: "detectShellConfig demo_home ''/h'' ''/bin/zsh'' = ''/h/.zshrc''" by (simp add: detectShellConfig_def b z demo_home_def)
  have s: "demo_home ''/h/.zshrc'' = Some ?data" by (simp add: demo_home_def)
  have c: "\<not> Contains ?data ''/h/.nixis''" "\<not> Contains ?data marker" "newline \<notin> set ''/h/.nixis''" by code_simp+
  have p: "patchShellPATH False True ''/h'' ''/bin/zsh'' ''/bin'' ''/h/.nixis'' demo_home =
      (demo_home(''/h/.zshrc'' \<mapsto> ?data @ path_block ''zsh'' ''/h/.nixis''), Some (''/h/.zshrc'', True))"
    using c(1) by (simp add: patchShellPATH_def d b s Let_def)
  have "removeNixisLines ''/h/.zshrc'' (demo_home(''/h/.zshrc'' \<mapsto> ?data @ path_block ''zsh'' ''/h/.nixis'')) = (demo_home(''/h/.zshrc'' \<mapsto> ?data), True)"
    using shell_config_round_trip [OF p s c(2,3)] by simp
  moreover have "demo_home(''/h/.zshrc'' \<mapsto> ?data) = demo_home" using s by (rule map_upd_triv)
  moreover have "demo_home(''/h/.zshrc'' \<mapsto> ?data @ path_block ''zsh'' ''/h/.nixis'') \<noteq> demo_home"
    using s by (auto dest: fun_cong [where x = "''/h/.zshrc''"] simp: path_block_def)
  ultimately show ?thesis by (simp add: p)
qed

text \<open>Setup may choose \<^verbatim>\<open>.bash_profile\<close>, which the uninstaller does not clean.\<close>

lemma clean_frame: "p \<notin> set (cleaned_configs homeDir) \<Longrightarrow> cleanShellConfigs homeDir fs p = fs p"
proof -
  have "p \<notin> set cs \<Longrightarrow> foldl (\<lambda>fs cfg. fst (removeNixisLines cfg fs)) fs cs p = fs p" for cs
    by (induction cs arbitrary: fs) (auto simp: removeNixisLines_def case_prod_beta split: option.splits)
  then show "p \<notin> set (cleaned_configs homeDir) \<Longrightarrow> cleanShellConfigs homeDir fs p = fs p" by (simp add: cleanShellConfigs_def)
qed

lemma bash_profile_not_cleaned:
  "detectShellConfig [''/h/.bash_profile'' \<mapsto> data] ''/h'' ''/bin/bash'' = ''/h/.bash_profile'' \<and>
   cleanShellConfigs ''/h'' fs ''/h/.bash_profile'' = fs ''/h/.bash_profile''"
proof -
  have j: "Base ''/bin/bash'' = ''bash''" "filepath_Join [''/h'', ''.zshrc''] = ''/h/.zshrc''" "filepath_Join [''/h'', ''.bashrc''] = ''/h/.bashrc''"
    "filepath_Join [''/h'', ''.bash_profile''] = ''/h/.bash_profile''" "filepath_Join [''/h'', ''.profile''] = ''/h/.profile''"
    "filepath_Join [''/h'', ''.config'', ''fish'', ''config.fish''] = ''/h/.config/fish/config.fish''" by code_simp+
  then show ?thesis by (simp add: detectShellConfig_def existing_def clean_frame cleaned_configs_def)
qed

end
