(* ===== verification/CliFiles.thy ===== *)
theory CliFiles
  imports CliSetup
begin

text \<open>
  The file operations the installing commands share: \<^verbatim>\<open>copyFile\<close>, \<^verbatim>\<open>isYAML\<close> and \<^verbatim>\<open>confirm\<close> of \<^verbatim>\<open>cmd/nixis/setup.go\<close> and what \<^verbatim>\<open>filepath.Walk\<close> shows
  its callback, with the facts on joined paths that the proofs about written files rest on.  The host is a record of file
  contents, modes and directories, keyed by absolute cleaned paths; which system calls fail is a parameter.
\<close>

section \<open>Paths of directory entries\<close>

lemma Split_no_sep: "l \<in> set (Split s sep) \<Longrightarrow> sep \<notin> set l"
proof -
  have "sep \<notin> set acc \<Longrightarrow> l \<in> set (split_acc sep s acc) \<Longrightarrow> sep \<notin> set l" for acc
  proof (induction s arbitrary: acc)
    case (Cons c s)
    show ?case using Cons.prems Cons.IH [of "[]"] Cons.IH [of "c # acc"] by (auto split: if_splits)
  qed simp
  from this [of "[]"] show "l \<in> set (Split s sep) \<Longrightarrow> sep \<notin> set l" by (simp add: Split_def)
qed

lemma Split_Join: "ls \<noteq> [] \<Longrightarrow> \<forall>l \<in> set ls. sep \<notin> set l \<Longrightarrow> Split (JoinStrings ls [sep]) sep = ls"
proof (induction ls rule: induct_list012)
  case (3 x y zs)
  then show ?case using Split_sep [of x sep "JoinStrings (y # zs) [sep]"] by (simp add: Split_single)
qed (simp_all add: Split_single)

text \<open>The path of an entry of a cleaned directory.\<close>

definition child :: "string \<Rightarrow> string \<Rightarrow> string" where
  "child dir name = (if dir = ''/'' then CHR ''/'' # name else if dir = ''.'' then name else dir @ ''/'' @ name)"

definition plain_name :: "string \<Rightarrow> bool" where
  "plain_name f \<longleftrightarrow> f \<noteq> [] \<and> f \<noteq> ''.'' \<and> f \<noteq> ''..'' \<and> CHR ''/'' \<notin> set f"

lemma clean_comps_snoc: "plain_name f \<Longrightarrow> clean_comps rooted acc (cs @ [f]) = clean_comps rooted acc cs @ [f]"
proof (induction rooted acc cs rule: clean_comps.induct)
  case (2 rooted acc c cs)
  then show ?case by (cases acc) auto
qed (simp add: plain_name_def)

lemma Join_snoc: "cs \<noteq> [] \<Longrightarrow> JoinStrings (cs @ [f]) sep = JoinStrings cs sep @ sep @ f"
proof (induction cs)
  case (Cons c cs)
  then show ?case by (cases cs) auto
qed simp

lemma Join_eq_dot: "JoinStrings cs ''/'' = ''.'' \<Longrightarrow> cs \<noteq> [] \<Longrightarrow> cs = [''.'']"
proof (cases cs)
  case (Cons c ds)
  assume a: "JoinStrings cs ''/'' = ''.''"
  show ?thesis
  proof (cases ds)
    case (Cons d es)
    with a \<open>cs = c # ds\<close> have "c @ ''/'' @ JoinStrings (d # es) ''/'' = ''.''" by simp
    then have "CHR ''/'' \<in> set ''.''" by (metis in_set_conv_decomp append_Cons append_Nil)
    then show ?thesis by simp
  qed (use a Cons in simp)
qed simp

lemma clean_comps_proper: "c \<in> set (clean_comps rooted [] cs) \<Longrightarrow> c \<noteq> [] \<and> c \<noteq> ''.''"
proof -
  have *: "clean_acc r xs \<Longrightarrow> x \<in> set xs \<Longrightarrow> x \<noteq> [] \<and> x \<noteq> ''.''" for r x xs by (induction xs) auto
  assume "c \<in> set (clean_comps rooted [] cs)"
  then show ?thesis using * [OF clean_comps_acc [of rooted "[]" cs], of c] by simp
qed

lemma HasPrefix_slash_append: "d \<noteq> [] \<Longrightarrow> HasPrefix (d @ x) ''/'' = HasPrefix d ''/''"
  by (cases d) (auto simp: HasPrefix_def)

lemma clean_comps_no_slash:
  "\<forall>c \<in> set acc \<union> set cs. CHR ''/'' \<notin> set c \<Longrightarrow> c \<in> set (clean_comps rooted acc cs) \<Longrightarrow> CHR ''/'' \<notin> set c"
proof (induction rooted acc cs rule: clean_comps.induct)
  case (2 rooted acc d cs)
  then show ?case by (cases acc) (auto split: if_splits)
qed auto

lemma Join_not_slash:
  assumes "cs \<noteq> []" and "\<And>c. c \<in> set cs \<Longrightarrow> c \<noteq> [] \<and> CHR ''/'' \<notin> set c"
  shows "JoinStrings cs ''/'' \<noteq> ''/''" "JoinStrings cs ''/'' \<noteq> []"
proof -
  obtain c ds where cs: "cs = c # ds" using assms(1) by (cases cs) auto
  then obtain a b where c: "c = a # b" "a \<noteq> CHR ''/''" using assms(2) [of c] by (cases c) auto
  then show "JoinStrings cs ''/'' \<noteq> ''/''" "JoinStrings cs ''/'' \<noteq> []" using cs by (cases ds; simp)+
qed

lemma Join_child:
  assumes "dir \<noteq> []" and f: "plain_name f"
  shows "filepath_Join [dir, f] = child (Clean dir) f"
proof -
  define r where "r = HasPrefix dir ''/''"
  define cs where "cs = clean_comps r [] (Split dir CHR ''/'')"
  have f0: "f \<noteq> []" "CHR ''/'' \<notin> set f" using f by (simp_all add: plain_name_def)
  have sp: "Split (dir @ CHR ''/'' # f) CHR ''/'' = Split dir CHR ''/'' @ [f]"
    by (simp add: Split_sep Split_single f0)
  have r': "HasPrefix (dir @ CHR ''/'' # f) ''/'' = r" unfolding r_def by (rule HasPrefix_slash_append [OF assms(1)])
  have j: "JoinStrings (cs @ [f]) ''/'' \<noteq> []" using f0 by (cases "cs = []") (simp_all add: Join_snoc)
  have cl: "Clean dir = (let body = JoinStrings cs ''/'' in if r then CHR ''/'' # body else if body = [] then ''.'' else body)"
    unfolding Clean_def Let_def r_def [symmetric] cs_def [symmetric] by (rule refl)
  have "filepath_Join [dir, f] = Clean (dir @ CHR ''/'' # f)" using assms(1) f0 by (simp add: filepath_Join_def)
  also have "\<dots> = (if r then CHR ''/'' # JoinStrings (cs @ [f]) ''/'' else JoinStrings (cs @ [f]) ''/'')"
    unfolding Clean_def Let_def r' sp clean_comps_snoc [OF f] cs_def [symmetric] using j by simp
  also have "\<dots> = child (Clean dir) f"
  proof (cases "cs = []")
    case True
    then show ?thesis by (simp add: cl child_def)
  next
    case False
    have proper: "c \<noteq> [] \<and> CHR ''/'' \<notin> set c" if "c \<in> set cs" for c
      using that clean_comps_proper clean_comps_no_slash [of "[]"] Split_no_sep unfolding cs_def by (metis Un_iff empty_iff empty_set)
    have "''.'' \<notin> set cs" using clean_comps_proper unfolding cs_def by blast
    then have "JoinStrings cs ''/'' \<noteq> ''.''" using Join_eq_dot [of cs] False by (metis list.set_intros(1))
    then show ?thesis using False Join_not_slash [OF False proper] by (simp add: cl child_def Join_snoc)
  qed
  finally show ?thesis .
qed


section \<open>The host\<close>

datatype fsop = OpGetwd | OpStat | OpRead | OpOpen | OpCreate | OpCopy | OpClose | OpRename | OpChmod | OpRemove | OpMkdir | OpWrite

record Os =
  osCwd :: string
  osOK :: "fsop \<Rightarrow> string \<Rightarrow> bool"
  osSame :: "string \<Rightarrow> string \<Rightarrow> bool"
  osPartial :: "string \<Rightarrow> string"
  osUmask :: "nat \<Rightarrow> nat"

record Host =
  hFiles :: files
  hModes :: "string \<rightharpoonup> nat"
  hDirs :: "string set"

definition IsAbs :: "string \<Rightarrow> bool" where
  "IsAbs p \<longleftrightarrow> HasPrefix p ''/''"

definition abs_path :: "Os \<Rightarrow> string \<Rightarrow> string" where
  "abs_path os p = (if IsAbs p then Clean p else filepath_Join [osCwd os, p])"

definition Abs_fails :: "Os \<Rightarrow> string \<Rightarrow> bool" where
  "Abs_fails os p \<longleftrightarrow> \<not> IsAbs p \<and> \<not> osOK os OpGetwd []"

datatype read_result = NoSuchFile | ReadError | ReadData string

definition ReadFile :: "Os \<Rightarrow> Host \<Rightarrow> string \<Rightarrow> read_result" where
  "ReadFile os h p = (case hFiles h (abs_path os p) of
     None \<Rightarrow> NoSuchFile
   | Some data \<Rightarrow> if osOK os OpRead (abs_path os p) then ReadData data else ReadError)"

text \<open>Directories \<^verbatim>\<open>MkdirAll\<close> creates: the path and what is above it.\<close>

definition dirs_above :: "string \<Rightarrow> string set" where
  "dirs_above p = {q. q = p \<or> HasPrefix p (q @ ''/'')}"

definition MkdirAll :: "Os \<Rightarrow> string \<Rightarrow> Host \<Rightarrow> bool \<times> Host" where
  "MkdirAll os p h = (if osOK os OpMkdir (abs_path os p) then (True, h\<lparr>hDirs := hDirs h \<union> dirs_above (abs_path os p)\<rparr>) else (False, h))"

text \<open>A temporary file after a failed copy: removed, unless that fails too.\<close>

definition discard_tmp :: "Os \<Rightarrow> string \<Rightarrow> string \<Rightarrow> Host \<Rightarrow> Host" where
  "discard_tmp os tmp content h =
    (if osOK os OpRemove tmp then h\<lparr>hFiles := (hFiles h)(tmp := None), hModes := (hModes h)(tmp := None)\<rparr>
     else h\<lparr>hFiles := (hFiles h)(tmp \<mapsto> content)\<rparr>)"

definition copyFile :: "Os \<Rightarrow> string \<Rightarrow> string \<Rightarrow> nat \<Rightarrow> Host \<Rightarrow> bool \<times> Host" where
  "copyFile os src dst mode h =
    (let absSrc = abs_path os src; absDst = abs_path os dst; tmpDst = abs_path os (dst @ ''.tmp'') in
     if Abs_fails os src \<or> Abs_fails os dst then (False, h)
     else if absSrc = absDst then (True, h)
     else case hFiles h absSrc of
       None \<Rightarrow> (False, h)
     | Some data \<Rightarrow>
        (if \<not> osOK os OpStat absSrc then (False, h)
         else if hFiles h absDst \<noteq> None \<and> osOK os OpStat absDst \<and> osSame os absSrc absDst then (True, h)
         else if \<not> osOK os OpOpen absSrc then (False, h)
         else if \<not> osOK os OpCreate tmpDst then (False, h)
         else
           let m = (case hModes h tmpDst of Some m \<Rightarrow> m | None \<Rightarrow> osUmask os mode);
               h1 = h\<lparr>hModes := (hModes h)(tmpDst \<mapsto> m)\<rparr>
           in if \<not> osOK os OpCopy tmpDst then (False, discard_tmp os tmpDst (osPartial os tmpDst) h1)
              else if \<not> osOK os OpClose tmpDst \<or> \<not> osOK os OpRename absDst then (False, discard_tmp os tmpDst data h1)
              else
                let h2 = h1\<lparr>hFiles := (hFiles h1)(tmpDst := None, absDst \<mapsto> data), hModes := (hModes h1)(tmpDst := None, absDst \<mapsto> m)\<rparr>
                in if osOK os OpChmod absDst then (True, h2\<lparr>hModes := (hModes h2)(absDst \<mapsto> mode)\<rparr>) else (False, h2)))"

definition isYAML :: "string \<Rightarrow> bool" where
  "isYAML name \<longleftrightarrow> HasSuffix name ''.yaml'' \<or> HasSuffix name ''.yml''"

text \<open>The line is what could be read before the end of the input.\<close>

definition confirm :: "string \<Rightarrow> bool" where
  "confirm line = (let l = TrimSpace (ToLower line) in l = [] \<or> l = ''y'' \<or> l = ''yes'')"

text \<open>What a walk shows: an entry that cannot be read, a directory or a file, each by its components below the root.  The
  path handed to the callback is the root joined with them, of which \<^verbatim>\<open>filepath.Rel\<close> gives the components back.\<close>

datatype visit = VisitError | VisitDir "string list" | VisitFile "string list"

definition walked :: "string \<Rightarrow> string list \<Rightarrow> string" where
  "walked root comps = foldl (\<lambda>p name. filepath_Join [p, name]) root comps"

definition rel_path :: "string list \<Rightarrow> string" where
  "rel_path comps = (if comps = [] then ''.'' else JoinStrings comps ''/'')"

definition visit_name :: "string \<Rightarrow> string list \<Rightarrow> string" where
  "visit_name root comps = (if comps = [] then Base root else last comps)"

definition proper_visit :: "string list \<Rightarrow> bool" where
  "proper_visit comps \<longleftrightarrow> comps \<noteq> [] \<and> list_all plain_name comps"

text \<open>\<^verbatim>\<open>os.RemoveAll\<close> of a directory.\<close>

definition RemoveAll :: "string \<Rightarrow> Host \<Rightarrow> Host" where
  "RemoveAll dir h = h\<lparr>hFiles := (\<lambda>p. if p = dir \<or> HasPrefix p (dir @ ''/'') then None else hFiles h p),
                       hModes := (\<lambda>p. if p = dir \<or> HasPrefix p (dir @ ''/'') then None else hModes h p),
                       hDirs := {p \<in> hDirs h. p \<noteq> dir \<and> \<not> HasPrefix p (dir @ ''/'')}\<rparr>"

section \<open>Absolute paths by their components\<close>

definition root_path :: "string list \<Rightarrow> string" where
  "root_path cs = CHR ''/'' # JoinStrings cs ''/''"

definition base_comps :: "string \<Rightarrow> string list" where
  "base_comps d = clean_comps True [] (Split d CHR ''/'')"

definition below :: "string \<Rightarrow> string \<Rightarrow> bool" where
  "below d p \<longleftrightarrow> (\<exists>cs. proper_visit cs \<and> p = root_path (base_comps d @ cs))"

lemma clean_comps_plain: "list_all plain_name cs \<Longrightarrow> clean_comps r acc cs = rev acc @ cs"
  by (induction cs arbitrary: acc) (auto simp: plain_name_def)

lemma clean_comps_append_plain: "list_all plain_name fs \<Longrightarrow> clean_comps r acc (cs @ fs) = clean_comps r acc cs @ fs"
proof (induction fs rule: rev_induct)
  case (snoc f fs)
  then show ?case using clean_comps_snoc [of f r acc "cs @ fs"] by simp
qed simp

lemma plain_no_slash: "list_all plain_name cs \<Longrightarrow> \<forall>c \<in> set cs. CHR ''/'' \<notin> set c"
  by (auto simp: list_all_iff plain_name_def)

lemma base_plain: "list_all plain_name (base_comps d)"
proof -
  have "plain_name c" if "c \<in> set (base_comps d)" for c
    using that clean_rooted_no_dotdot [of c] clean_comps_no_slash [of "[]" "Split d CHR ''/''" c True] Split_no_sep
    by (auto simp: plain_name_def base_comps_def)
  then show ?thesis by (auto simp: list_all_iff)
qed

lemma Split_plain: "list_all plain_name cs \<Longrightarrow> cs \<noteq> [] \<Longrightarrow> Split (JoinStrings cs ''/'') CHR ''/'' = cs"
  using Split_Join plain_no_slash by blast

lemma Clean_root_path:
  assumes "list_all plain_name cs"
  shows "Clean (root_path cs) = root_path cs"
proof (cases "cs = []")
  case False
  have "Split (root_path cs) CHR ''/'' = [] # cs"
    using Split_sep [of "[]" "CHR ''/''" "JoinStrings cs ''/''"] Split_plain [OF assms False] by (simp add: root_path_def Split_def)
  then show ?thesis
    using clean_comps_plain [OF assms, of True "[]"] by (simp add: Clean_def root_path_def HasPrefix_def)
qed (simp add: Clean_def root_path_def HasPrefix_def Split_def)

lemma root_path_inj: "list_all plain_name cs \<Longrightarrow> list_all plain_name ds \<Longrightarrow> cs \<noteq> [] \<Longrightarrow> ds \<noteq> [] \<Longrightarrow> root_path cs = root_path ds \<Longrightarrow> cs = ds"
  using Split_plain by (metis list.inject root_path_def)

lemma root_path_suffix: "cs \<noteq> [] \<Longrightarrow> root_path cs @ x = root_path (butlast cs @ [last cs @ x])"
proof (cases "butlast cs = []")
  case True
  assume "cs \<noteq> []"
  with True have "cs = [last cs]" by (metis append_butlast_last_id append_Nil)
  then show ?thesis using True by (metis append_Cons JoinStrings.simps(2) append_Nil root_path_def)
next
  case False
  assume "cs \<noteq> []"
  then have "root_path cs = root_path (butlast cs @ [last cs])" by simp
  then show ?thesis using False by (simp add: root_path_def Join_snoc)
qed

lemma Join_rel:
  assumes "IsAbs d" and "proper_visit cs"
  shows "filepath_Join [d, rel_path cs] = root_path (base_comps d @ cs)"
proof -
  have cs: "cs \<noteq> []" "list_all plain_name cs" using assms(2) by (auto simp: proper_visit_def)
  have d: "d \<noteq> []" using assms(1) by (auto simp: IsAbs_def HasPrefix_def)
  have "JoinStrings cs ''/'' \<noteq> []" using cs Join_not_slash(2) [of cs] by (auto simp: list_all_iff plain_name_def)
  then have "filepath_Join [d, rel_path cs] = Clean (d @ CHR ''/'' # JoinStrings cs ''/'')"
    using d cs by (simp add: filepath_Join_def rel_path_def)
  moreover have "Split (d @ CHR ''/'' # JoinStrings cs ''/'') CHR ''/'' = Split d CHR ''/'' @ cs"
    by (simp add: Split_sep Split_plain [OF cs(2,1)])
  moreover have "HasPrefix (d @ CHR ''/'' # JoinStrings cs ''/'') ''/''" using assms(1) HasPrefix_slash_append [OF d] by (simp add: IsAbs_def)
  ultimately show ?thesis by (simp add: Clean_def root_path_def base_comps_def clean_comps_append_plain [OF cs(2)])
qed

lemma abs_root_path: "list_all plain_name cs \<Longrightarrow> abs_path os (root_path cs) = root_path cs"
  using Clean_root_path by (simp add: abs_path_def IsAbs_def root_path_def HasPrefix_def)

section \<open>Copying is atomic\<close>

text \<open>Whatever fails, the destination keeps its content or has that of the source, and nothing but the destination and
  its temporary file changes.\<close>

lemma copyFile_frame:
  assumes "copyFile os src dst mode h = (ok, h')"
  shows "p \<noteq> abs_path os dst \<Longrightarrow> p \<noteq> abs_path os (dst @ ''.tmp'') \<Longrightarrow> hFiles h' p = hFiles h p"
    and "abs_path os dst \<noteq> abs_path os (dst @ ''.tmp'') \<Longrightarrow>
      hFiles h' (abs_path os dst) = hFiles h (abs_path os dst) \<or> hFiles h' (abs_path os dst) = hFiles h (abs_path os src)"
    and "hDirs h' = hDirs h"
    and "p \<noteq> abs_path os dst \<Longrightarrow> p \<noteq> abs_path os (dst @ ''.tmp'') \<Longrightarrow> hModes h' p = hModes h p"
  using assms by (auto simp: copyFile_def discard_tmp_def Let_def split: if_splits option.splits)

lemma copyFile_ok:
  assumes "copyFile os src dst mode h = (True, h')" and "\<not> osSame os (abs_path os src) (abs_path os dst)"
  shows "hFiles h' (abs_path os dst) = hFiles h (abs_path os src) \<and> hFiles h (abs_path os src) \<noteq> None \<or> abs_path os src = abs_path os dst"
  using assms by (auto simp: copyFile_def Let_def split: if_splits option.splits)

text \<open>The files a copy into a directory touches, given as their components below it.\<close>

lemma copy_below:
  assumes "IsAbs d" and "proper_visit cs"
  shows "abs_path os (filepath_Join [d, rel_path cs]) = root_path (base_comps d @ cs)"
    and "abs_path os (filepath_Join [d, rel_path cs] @ ''.tmp'') = root_path (base_comps d @ (butlast cs @ [last cs @ ''.tmp'']))"
    and "proper_visit (butlast cs @ [last cs @ ''.tmp''])"
proof -
  have cs: "cs \<noteq> []" "list_all plain_name cs" using assms(2) by (auto simp: proper_visit_def)
  note all = base_plain [of d]
  show "abs_path os (filepath_Join [d, rel_path cs]) = root_path (base_comps d @ cs)"
    unfolding Join_rel [OF assms] using cs all by (intro abs_root_path) auto
  have "plain_name (last cs @ ''.tmp'')" using cs by (auto simp: list_all_iff plain_name_def append_eq_Cons_conv)
  then show pv: "proper_visit (butlast cs @ [last cs @ ''.tmp''])" using cs by (auto simp: proper_visit_def list_all_iff dest: in_set_butlastD)
  have "root_path (base_comps d @ cs) @ ''.tmp'' = root_path (base_comps d @ (butlast cs @ [last cs @ ''.tmp'']))"
    using root_path_suffix [of "base_comps d @ cs"] cs(1) by (simp add: butlast_append)
  then show "abs_path os (filepath_Join [d, rel_path cs] @ ''.tmp'') = root_path (base_comps d @ (butlast cs @ [last cs @ ''.tmp'']))"
    unfolding Join_rel [OF assms] using pv all abs_root_path by (simp add: proper_visit_def)
qed

lemma yaml_not_tmp: "isYAML n \<Longrightarrow> n \<noteq> m @ ''.tmp''"
  by (auto simp: isYAML_def HasSuffix_iff append_eq_append_conv2 append_eq_Cons_conv Cons_eq_append_conv)

lemma copy_targets_distinct:
  assumes "proper_visit cs" and "proper_visit ds" and "isYAML (last cs)" and "cs \<noteq> ds"
  shows "root_path (base_comps d @ cs) \<noteq> root_path (base_comps d @ ds)"
    and "root_path (base_comps d @ cs) \<noteq> root_path (base_comps d @ (butlast ds @ [last ds @ ''.tmp'']))"
proof -
  have pv: "proper_visit (butlast ds @ [last ds @ ''.tmp''])" using copy_below(3) assms(2) by (metis IsAbs_def HasPrefix_iff append_Nil)
  have ne: "cs \<noteq> butlast ds @ [last ds @ ''.tmp'']" using yaml_not_tmp [OF assms(3), of "last ds"] by auto
  show "root_path (base_comps d @ cs) \<noteq> root_path (base_comps d @ ds)"
    using root_path_inj [of "base_comps d @ cs" "base_comps d @ ds"] assms base_plain [of d] by (auto simp: proper_visit_def)
  show "root_path (base_comps d @ cs) \<noteq> root_path (base_comps d @ (butlast ds @ [last ds @ ''.tmp'']))"
    using root_path_inj [of "base_comps d @ cs" "base_comps d @ (butlast ds @ [last ds @ ''.tmp''])"] assms(1) pv base_plain [of d] ne
    by (auto simp: proper_visit_def)
qed

end
