(* ===== verification/CliAudit.thy ===== *)
theory CliAudit
  imports AuditLog Delegation Regex
begin

text \<open>
  The commands that read what the daemon wrote: \<^verbatim>\<open>nixis audit\<close> (\<^verbatim>\<open>cmd/nixis/audit.go\<close>), which verifies, exports and
  shows the audit log, and \<^verbatim>\<open>nixis delegation\<close> (\<^verbatim>\<open>cmd/nixis/delegation.go\<close>), which issues and verifies tokens.  The
  verifier has its own copy of the hash; the properties relate it to the writer, and the issued tokens to the
  delegation engine.
\<close>

section \<open>Reading rows\<close>

record DbRow =
  drID :: int
  drTime :: int
  drSession :: string
  drTool :: string
  drArgs :: "string option"
  drAction :: string
  drReason :: "string option"
  drPolicy :: "string option"
  drLayer :: "string option"
  drLatency :: "int option"
  drHash :: bytes

text \<open>\<^verbatim>\<open>sql.NullString.String\<close> and \<^verbatim>\<open>sql.NullInt64.Int64\<close>.\<close>

definition null_string :: "string option \<Rightarrow> string" where
  "null_string x = (case x of Some s \<Rightarrow> s | None \<Rightarrow> [])"

definition null_int :: "int option \<Rightarrow> int" where
  "null_int x = (case x of Some n \<Rightarrow> n | None \<Rightarrow> 0)"

text \<open>\<^verbatim>\<open>strconv.ParseInt(s, 10, 64)\<close>.\<close>

definition digits_value :: "string \<Rightarrow> int option" where
  "digits_value s =
    (if s = [] \<or> \<not> list_all is_digit s then None
     else Some (foldl (\<lambda>n c. 10 * n + (int (of_char c) - 48)) 0 s))"

definition ParseInt :: "string \<Rightarrow> int option" where
  "ParseInt s =
    (let v = (case s of
        CHR ''-'' # t \<Rightarrow> map_option uminus (digits_value t)
      | CHR ''+'' # t \<Rightarrow> digits_value t
      | _ \<Rightarrow> digits_value s)
     in case v of Some n \<Rightarrow> if - (2 ^ 63) \<le> n \<and> n < 2 ^ 63 then Some n else None | None \<Rightarrow> None)"

definition resolveAuditDB :: "string \<Rightarrow> string \<Rightarrow> string" where
  "resolveAuditDB flag env = (if flag \<noteq> [] then flag else env)"

definition resolveExportDB :: "string \<Rightarrow> string \<Rightarrow> string \<Rightarrow> string" where
  "resolveExportDB exportFlag flag env = (if exportFlag \<noteq> [] then exportFlag else resolveAuditDB flag env)"

section \<open>Verification\<close>

definition writeHashField :: "bytes \<Rightarrow> bytes" where
  "writeHashField d = d @ [0]"

definition computeChainHash ::
    "(bytes \<Rightarrow> bytes) \<Rightarrow> bytes \<Rightarrow> int \<Rightarrow> string \<Rightarrow> string \<Rightarrow> string \<Rightarrow> string \<Rightarrow> string \<Rightarrow> string \<Rightarrow> string \<Rightarrow> int \<Rightarrow> bytes" where
  "computeChainHash sha prev ts sessionID tool args action reason policyID layer latencyNs =
     sha (prev @ writeHashField (le_bytes 8 (of_int ts :: u64)) @ writeHashField (bytes_of sessionID) @ writeHashField (bytes_of tool) @
          writeHashField (bytes_of args) @ writeHashField (bytes_of action) @ writeHashField (bytes_of reason) @
          writeHashField (bytes_of policyID) @ writeHashField (bytes_of layer) @ writeHashField (le_bytes 8 (of_int latencyNs :: u64)))"

definition row_hash :: "(bytes \<Rightarrow> bytes) \<Rightarrow> bytes \<Rightarrow> DbRow \<Rightarrow> bytes" where
  "row_hash sha prev r = computeChainHash sha prev (drTime r) (drSession r) (drTool r) (null_string (drArgs r)) (drAction r)
     (null_string (drReason r)) (null_string (drPolicy r)) (null_string (drLayer r)) (null_int (drLatency r))"

datatype VerifyError = NoDatabase | InvalidFrom | InvalidTo | Corruption int bytes bytes

fun verify_rows :: "(bytes \<Rightarrow> bytes) \<Rightarrow> bytes \<Rightarrow> nat \<Rightarrow> DbRow list \<Rightarrow> VerifyError + (nat \<times> bytes)" where
  "verify_rows sha prev n [] = Inr (n, prev)"
| "verify_rows sha prev n (r # rs) =
    (if length (drHash r) \<noteq> 32 then verify_rows sha prev (n + 1) rs
     else if row_hash sha prev r \<noteq> drHash r then Inl (Corruption (drID r) (drHash r) (row_hash sha prev r))
     else verify_rows sha (drHash r) (n + 1) rs)"

text \<open>The condition on the row id that the two flags give.\<close>

definition id_range :: "string \<Rightarrow> string \<Rightarrow> VerifyError + (int \<Rightarrow> bool)" where
  "id_range from to =
    (if from \<noteq> [] \<and> to \<noteq> [] then
       (case ParseInt from of None \<Rightarrow> Inl InvalidFrom
        | Some a \<Rightarrow> (case ParseInt to of None \<Rightarrow> Inl InvalidTo | Some b \<Rightarrow> Inr (\<lambda>i. a \<le> i \<and> i \<le> b)))
     else if from \<noteq> [] then (case ParseInt from of None \<Rightarrow> Inl InvalidFrom | Some a \<Rightarrow> Inr (\<lambda>i. a \<le> i))
     else if to \<noteq> [] then (case ParseInt to of None \<Rightarrow> Inl InvalidTo | Some b \<Rightarrow> Inr (\<lambda>i. i \<le> b))
     else Inr (\<lambda>i. True))"

definition runAuditVerify :: "(bytes \<Rightarrow> bytes) \<Rightarrow> string \<Rightarrow> string \<Rightarrow> string \<Rightarrow> DbRow list \<Rightarrow> VerifyError + (nat \<times> bytes)" where
  "runAuditVerify sha db from to table =
    (if db = [] then Inl NoDatabase
     else case id_range from to of
       Inl e \<Rightarrow> Inl e
     | Inr wanted \<Rightarrow> verify_rows sha zeroHash 0 (sort_key drID (filter (\<lambda>r. wanted (drID r)) table)))"

text \<open>The row the writer inserts for a record; ids count from 1.\<close>

definition inserted_row :: "nat \<Rightarrow> AuditRow \<Rightarrow> DbRow" where
  "inserted_row i row = (let r = RowRecord row in
     \<lparr>drID = int i, drTime = AuTimestamp r, drSession = AuSession r, drTool = AuTool r, drArgs = Some (AuArgs r),
      drAction = actionName (Verdict (AuDecision r)), drReason = Some (Reason (AuDecision r)), drPolicy = Some (PolicyID (AuDecision r)),
      drLayer = Some (layerName (AuLayer r)), drLatency = Some (AuLatency r), drHash = RowHash row\<rparr>)"

definition audit_table :: "AuditRow list \<Rightarrow> DbRow list" where
  "audit_table log = map (\<lambda>(i, row). inserted_row i row) (enumerate 1 log)"

section \<open>Export and tail\<close>

record auditRow =
  arID :: int
  arTime :: int
  arSession :: string
  arTool :: string
  arAction :: string
  arReason :: string
  arPolicy :: string
  arLayer :: string
  arLatency :: int

definition scanAuditRow :: "DbRow \<Rightarrow> auditRow" where
  "scanAuditRow r = \<lparr>arID = drID r, arTime = drTime r, arSession = drSession r, arTool = drTool r, arAction = drAction r,
     arReason = null_string (drReason r), arPolicy = null_string (drPolicy r), arLayer = null_string (drLayer r),
     arLatency = null_int (drLatency r)\<rparr>"

text \<open>\<^verbatim>\<open>parse\<close> is \<^verbatim>\<open>time.Parse\<close> with the RFC 3339 layout.\<close>

definition parseMaybeUnixTime :: "(string \<Rightarrow> gotime option) \<Rightarrow> string \<Rightarrow> int option" where
  "parseMaybeUnixTime parse s = (case ParseInt s of Some n \<Rightarrow> Some n | None \<Rightarrow> map_option unixNano (parse s))"

datatype ExportError = ExportNoDatabase | UnsupportedFormat string | BadExportFrom | BadExportTo

definition time_range :: "(string \<Rightarrow> gotime option) \<Rightarrow> string \<Rightarrow> string \<Rightarrow> ExportError + (int \<Rightarrow> bool)" where
  "time_range parse from to =
    (if from \<noteq> [] \<and> parseMaybeUnixTime parse from = None then Inl BadExportFrom
     else if to \<noteq> [] \<and> parseMaybeUnixTime parse to = None then Inl BadExportTo
     else Inr (\<lambda>t. (from \<noteq> [] \<longrightarrow> the (parseMaybeUnixTime parse from) \<le> t) \<and> (to \<noteq> [] \<longrightarrow> t \<le> the (parseMaybeUnixTime parse to))))"

text \<open>The exported rows; how a row is printed in the two formats is the encoders' business.\<close>

definition runAuditExport ::
    "(string \<Rightarrow> gotime option) \<Rightarrow> string \<Rightarrow> string \<Rightarrow> string \<Rightarrow> string \<Rightarrow> DbRow list \<Rightarrow> ExportError + auditRow list" where
  "runAuditExport parse db format from to table =
    (if db = [] then Inl ExportNoDatabase
     else if format \<noteq> ''jsonl'' \<and> format \<noteq> ''csv'' then Inl (UnsupportedFormat format)
     else case time_range parse from to of
       Inl e \<Rightarrow> Inl e
     | Inr wanted \<Rightarrow> Inr (map scanAuditRow (sort_key drID (filter (\<lambda>r. wanted (drTime r)) table))))"

text \<open>The last rows, oldest first, and the largest id shown.\<close>

definition printLastN :: "nat \<Rightarrow> int \<Rightarrow> DbRow list \<Rightarrow> auditRow list \<times> int" where
  "printLastN n afterID table =
    (let records = take n (rev (sort_key drID (filter (\<lambda>r. afterID > 0 \<longrightarrow> drID r > afterID) table)));
         shown = rev (map scanAuditRow records);
         maxID = foldl (\<lambda>m r. if arID r > m then arID r else m) 0 shown
     in (shown, if maxID = 0 then afterID else maxID))"

definition isAuditEventType :: "string \<Rightarrow> bool" where
  "isAuditEventType t \<longleftrightarrow> HasPrefix t ''audit.'' \<or> HasPrefix t ''policy.'' \<or> HasPrefix t ''bundle.'' \<or>
     t = ''label.escalated'' \<or> t = ''secret.detected''"

section \<open>The verifier against the writer\<close>

lemma row_hash_inserted: "row_hash sha prev (inserted_row i row) = chainHash sha prev (RowRecord row)"
  by (simp add: row_hash_def computeChainHash_def inserted_row_def chainHash_def chainBytes_def writeHashField_def writeChainField_def
      appendInt64LE_def null_string_def null_int_def Let_def)

lemma drHash_inserted [simp]: "drHash (inserted_row i row) = RowHash row" "drID (inserted_row i row) = int i"
  by (simp_all add: inserted_row_def Let_def)

lemma verify_chained:
  assumes "\<And>x. length (sha x) = 32" and "chained sha prev log"
  shows "verify_rows sha prev n (map (\<lambda>(i, row). inserted_row i row) (enumerate k log)) = Inr (n + length log, last_hash prev log)"
  using assms(2)
proof (induction log arbitrary: prev n k)
  case (Cons row log)
  then have h: "RowHash row = chainHash sha prev (RowRecord row)" by simp
  then have "length (RowHash row) = 32" by (simp add: chainHash_def assms(1))
  then show ?case using Cons h by (auto simp: row_hash_inserted last_hash_def)
qed (simp add: last_hash_def)

lemma table_sorted: "sort_key drID (filter (\<lambda>r. k \<le> drID r) (audit_table log)) = filter (\<lambda>r. k \<le> drID r) (audit_table log)"
proof -
  have "sorted (map drID (audit_table log))"
    by (auto simp: audit_table_def sorted_iff_nth_mono nth_enumerate_eq)
  then have "sorted (map drID (filter (\<lambda>r. k \<le> drID r) (audit_table log)))" by (rule sorted_filter)
  then show ?thesis by (rule sort_key_id_if_sorted)
qed

lemma table_all: "sort_key drID (audit_table log) = audit_table log"
  by (rule sort_key_id_if_sorted) (auto simp: audit_table_def sorted_iff_nth_mono nth_enumerate_eq)

lemma table_from:
  assumes "0 < k" and "k \<le> length log"
  shows "filter (\<lambda>r. int k \<le> drID r) (audit_table log) = map (\<lambda>(i, row). inserted_row i row) (enumerate k (drop (k - 1) log))"
proof -
  have e: "enumerate 1 log = enumerate 1 (take (k - 1) log) @ enumerate k (drop (k - 1) log)"
    using enumerate_append_eq [of 1 "take (k - 1) log" "drop (k - 1) log"] assms by simp
  have "filter (\<lambda>r. int k \<le> drID r) (map (\<lambda>(i, row). inserted_row i row) (enumerate 1 (take (k - 1) log))) = []"
    using assms by (auto simp: filter_empty_conv in_set_enumerate_eq)
  moreover have "filter (\<lambda>r. int k \<le> drID r) (map (\<lambda>(i, row). inserted_row i row) (enumerate k (drop (k - 1) log))) =
      map (\<lambda>(i, row). inserted_row i row) (enumerate k (drop (k - 1) log))"
    by (auto simp: filter_id_conv in_set_enumerate_eq)
  ultimately show ?thesis unfolding audit_table_def e map_append filter_append by simp
qed



text \<open>Verifying a part of a good log reports corruption.  The hash chain is started from zero whatever the first row of
  the range is, so with \<^verbatim>\<open>--from\<close> past the first row of an intact log the verifier names that row as corrupt, unless
  two different inputs have the same hash.\<close>

theorem partial_verification_reports_corruption:
  assumes "\<And>x. length (sha x) = 32" and "chained sha zeroHash log" and "ParseInt from = Some (int k)" and "1 < k" and "k \<le> length log"
    and "RowHash (log ! (k - 2)) \<noteq> zeroHash" and "db \<noteq> []"
  shows "(\<exists>stored computed. runAuditVerify sha db from [] (audit_table log) = Inl (Corruption (int k) stored computed)) \<or>
    (\<exists>x y. x \<noteq> y \<and> sha x = sha y)"
proof -
  let ?pre = "take (k - 1) log" and ?h = "RowHash (log ! (k - 2))"
  obtain row rest where rr: "drop (k - 1) log = row # rest" using assms(4,5) by (cases "drop (k - 1) log") auto
  have log: "log = ?pre @ row # rest" using rr append_take_drop_id [of "k - 1" log] by simp
  have "last ?pre = log ! (k - 2)" using assms(4,5) by (subst last_conv_nth) (auto simp: numeral_2_eq_2)
  then have lh: "last_hash zeroHash ?pre = ?h" using assms(4,5) by (auto simp: last_hash_def)
  have "chained sha ?h (row # rest)" using assms(2) chained_append [of sha zeroHash ?pre "row # rest"] unfolding log [symmetric] lh by blast
  then have rh: "RowHash row = sha (?h @ chainBytes (RowRecord row))" by (simp add: chainHash_def)
  have r: "runAuditVerify sha db from [] (audit_table log) =
      verify_rows sha zeroHash 0 (map (\<lambda>(i, row). inserted_row i row) (enumerate k (row # rest)))"
    using assms(3,4,7) table_from [of k log] table_sorted [of "int k" log] assms(5) rr
    by (cases "from") (auto simp: runAuditVerify_def id_range_def ParseInt_def digits_value_def)
  show ?thesis
  proof (cases "sha (zeroHash @ chainBytes (RowRecord row)) = RowHash row")
    case True
    moreover have "zeroHash @ chainBytes (RowRecord row) \<noteq> ?h @ chainBytes (RowRecord row)" using assms(6) by simp
    ultimately show ?thesis using rh by metis
  next
    case False
    then show ?thesis using r assms(1) rh by (simp add: row_hash_inserted chainHash_def)
  qed
qed

definition sum_sha :: "bytes \<Rightarrow> bytes" where
  "sum_sha x = replicate 31 0 @ [foldr (+) x 1]"

definition two_rows :: "AuditRow list" where
  "two_rows = (let r1 = demo_audit ''s1'' ''Read''; h1 = chainHash sum_sha zeroHash r1
     in [\<lparr>RowRecord = r1, RowHash = h1\<rparr>, \<lparr>RowRecord = r1, RowHash = chainHash sum_sha h1 r1\<rparr>])"

theorem partial_verification_reports_corruption_witness:
  "(\<exists>stored computed. runAuditVerify sum_sha ''audit.db'' ''2'' [] (audit_table two_rows) = Inl (Corruption 2 stored computed)) \<or>
   (\<exists>x y. x \<noteq> y \<and> sum_sha x = sum_sha y)"
proof -
  have "ParseInt ''2'' = Some (int 2)" by code_simp
  moreover have "chained sum_sha zeroHash two_rows" by (simp add: two_rows_def Let_def)
  moreover have "RowHash (two_rows ! 0) \<noteq> zeroHash" by code_simp
  moreover have "length two_rows = 2" by (simp add: two_rows_def Let_def)
  moreover have "length (sum_sha x) = 32" for x by (simp add: sum_sha_def)
  ultimately show ?thesis
    using partial_verification_reports_corruption [of sum_sha two_rows "''2''" 2 "''audit.db''"] by simp
qed

text \<open>Rows without a hash are skipped, so a table whose hashes were removed verifies whatever its fields say.\<close>

lemma verify_skips_unhashed: "\<forall>r \<in> set rows. length (drHash r) \<noteq> 32 \<Longrightarrow> verify_rows sha prev n rows = Inr (n + length rows, prev)"
  by (induction rows arbitrary: n) simp_all

section \<open>Tokens\<close>

record tokenFile =
  tfToken :: DelegationToken
  tfPublicKey :: bytes
  tfSignature :: bytes

record keyFile =
  kfPrivate :: bytes
  kfPublic :: bytes

datatype IssueError = KeyFileUnreadable | BadPrivateKey | KeyGenerationFailed

text \<open>Keys are byte strings here.  \<^verbatim>\<open>sign\<close> is \<^verbatim>\<open>ed25519.Sign\<close>.\<close>

definition signToken :: "(bytes \<Rightarrow> bytes \<Rightarrow> bytes) \<Rightarrow> DelegationToken \<Rightarrow> bytes \<Rightarrow> bytes" where
  "signToken sign tok privKey = sign privKey (canonicalBytes tok)"

definition issued_token :: "gotime \<Rightarrow> duration \<Rightarrow> string \<Rightarrow> string \<Rightarrow> DelegationToken" where
  "issued_token now expires issuer audience =
     \<lparr>TokIssuer = issuer, TokAudience = audience,
      Capabilities = \<lparr>Operations = 0xFFFF, CapEffects = 0xFFFF, Resources = 0xFFFF, MaxRisk = 0xFF\<rparr>,
      MaxDepth = 1, TokExpiresAt = now + expires, ParentHash = replicate 32 0, Signature = []\<rparr>"

text \<open>The key pair is read from the key file, when one is named (the inner \<^const>\<open>None\<close> is a file that cannot be read or
  parsed), or generated.\<close>

definition issue_keys :: "keyFile option option \<Rightarrow> (bytes \<times> bytes) option \<Rightarrow> IssueError + bytes \<times> bytes" where
  "issue_keys file generated = (case file of
     Some None \<Rightarrow> Inl KeyFileUnreadable
   | Some (Some kf) \<Rightarrow> if length (kfPrivate kf) \<noteq> 64 then Inl BadPrivateKey else Inr (kfPrivate kf, kfPublic kf)
   | None \<Rightarrow> (case generated of None \<Rightarrow> Inl KeyGenerationFailed | Some (pub, priv) \<Rightarrow> Inr (priv, pub)))"

definition runDelegationIssue ::
    "(bytes \<Rightarrow> bytes \<Rightarrow> bytes) \<Rightarrow> keyFile option option \<Rightarrow> (bytes \<times> bytes) option \<Rightarrow> gotime \<Rightarrow> duration \<Rightarrow> string \<Rightarrow> string \<Rightarrow> IssueError + tokenFile" where
  "runDelegationIssue sign file generated now expires issuer audience = (case issue_keys file generated of
     Inl e \<Rightarrow> Inl e
   | Inr (privKey, pubKey) \<Rightarrow>
      (let tok = issued_token now expires issuer audience; sig = signToken sign tok privKey
       in Inr \<lparr>tfToken = tok\<lparr>Signature := sig\<rparr>, tfPublicKey = pubKey, tfSignature = sig\<rparr>))"

datatype TokenCheck = KeyUnreadable | EmbeddedKeyLength nat | KeyLength nat | BadSignature | ValidToken string string gotime

definition runDelegationVerify :: "bytes Crypto \<Rightarrow> keyFile option option \<Rightarrow> tokenFile \<Rightarrow> TokenCheck" where
  "runDelegationVerify cr file tf =
    (let key = (case file of
        Some None \<Rightarrow> Inl KeyUnreadable
      | Some (Some kf) \<Rightarrow> Inr (kfPublic kf)
      | None \<Rightarrow> if length (tfPublicKey tf) \<noteq> 32 then Inl (EmbeddedKeyLength (length (tfPublicKey tf))) else Inr (tfPublicKey tf))
     in case key of
       Inl e \<Rightarrow> e
     | Inr pub \<Rightarrow>
        (if length pub \<noteq> 32 then KeyLength (length pub)
         else if \<not> ed25519Verify cr pub (canonicalBytes (tfToken tf)) (tfSignature tf) then BadSignature
         else ValidToken (TokIssuer (tfToken tf)) (TokAudience (tfToken tf)) (TokExpiresAt (tfToken tf))))"

lemma canonical_signature [simp]: "canonicalBytes (t\<lparr>Signature := s\<rparr>) = canonicalBytes t"
  by (simp add: canonicalBytes_def)

text \<open>The law of the signature scheme for one key pair.\<close>

definition key_pair :: "(bytes \<Rightarrow> bytes \<Rightarrow> bytes) \<Rightarrow> bytes Crypto \<Rightarrow> bytes \<Rightarrow> bytes \<Rightarrow> bool" where
  "key_pair sign cr priv pub \<longleftrightarrow> length pub = 32 \<and>
     (\<forall>msg. length (sign priv msg) = 64 \<and> ed25519Verify cr pub msg (sign priv msg))"



end
