(* ===== verification/GoText.thy ===== *)
theory GoText
  imports PolicyFile "HOL-Library.Char_ord"
begin

text \<open>
  The text functions of the Go library that the policy importers use: iteration over the runes of a string,
  quoting by the verb \<^verbatim>\<open>%q\<close>, splitting at a string, upper case, and padded numbers.  Multi-byte runes are
  taken to be printable, as \<^verbatim>\<open>%q\<close> keeps those.
\<close>

section \<open>Runes\<close>

definition byte_in :: "nat \<Rightarrow> nat \<Rightarrow> char \<Rightarrow> bool" where
  "byte_in lo hi c = (let n = (of_char c :: nat) in lo \<le> n \<and> n \<le> hi)"

definition is_cont :: "char \<Rightarrow> bool" where
  "is_cont = byte_in 128 191"

text \<open>The number of bytes of the first rune, as \<^verbatim>\<open>utf8.DecodeRune\<close> counts them: 1 for a byte that starts no valid
  encoding.\<close>

definition rune2 :: "char \<Rightarrow> char \<Rightarrow> bool" where
  "rune2 a b \<longleftrightarrow> byte_in 194 223 a \<and> is_cont b"

definition rune3 :: "char \<Rightarrow> char \<Rightarrow> char \<Rightarrow> bool" where
  "rune3 a b c \<longleftrightarrow>
    ((byte_in 225 236 a \<or> byte_in 238 239 a) \<and> is_cont b \<or> byte_in 224 224 a \<and> byte_in 160 191 b
     \<or> byte_in 237 237 a \<and> byte_in 128 159 b) \<and> is_cont c"

definition rune4 :: "char \<Rightarrow> char \<Rightarrow> char \<Rightarrow> char \<Rightarrow> bool" where
  "rune4 a b c d \<longleftrightarrow>
    (byte_in 241 243 a \<and> is_cont b \<or> byte_in 240 240 a \<and> byte_in 144 191 b \<or> byte_in 244 244 a \<and> byte_in 128 143 b)
    \<and> is_cont c \<and> is_cont d"

fun rune_len :: "string \<Rightarrow> nat" where
  "rune_len (a # b # c # d # s) = (if rune2 a b then 2 else if rune3 a b c then 3 else if rune4 a b c d then 4 else 1)"
| "rune_len [a, b, c] = (if rune2 a b then 2 else if rune3 a b c then 3 else 1)"
| "rune_len [a, b] = (if rune2 a b then 2 else 1)"
| "rune_len s = 1"

function runes :: "string \<Rightarrow> string list" where
  "runes [] = []"
| "runes (c # s) = take (rune_len (c # s)) (c # s) # runes (drop (rune_len (c # s) - 1) s)"
  by pat_completeness auto
termination by (relation "measure length") auto

declare runes.simps(2) [simp del]

lemma rune_len_pos: "rune_len s \<ge> 1"
  by (induction s rule: rune_len.induct) auto

lemma byte_in_mono: "byte_in lo hi c \<Longrightarrow> lo' \<le> lo \<Longrightarrow> hi \<le> hi' \<Longrightarrow> byte_in lo' hi' c"
  by (simp add: byte_in_def Let_def)

lemma high_not_low: "byte_in 128 255 c \<Longrightarrow> \<not> byte_in 0 127 c"
  by (simp add: byte_in_def Let_def)

lemma rune_bytes:
  "rune2 a b \<Longrightarrow> byte_in 128 255 a \<and> byte_in 128 255 b"
  "rune3 a b c \<Longrightarrow> byte_in 128 255 a \<and> byte_in 128 255 b \<and> byte_in 128 255 c"
  "rune4 a b c d \<Longrightarrow> byte_in 128 255 a \<and> byte_in 128 255 b \<and> byte_in 128 255 c \<and> byte_in 128 255 d"
  unfolding rune2_def rune3_def rune4_def is_cont_def by (auto elim!: byte_in_mono)

lemma rune_len_ascii: "byte_in 0 127 c \<Longrightarrow> rune_len (c # s) = 1"
  by (cases "c # s" rule: rune_len.cases) (auto dest: rune_bytes high_not_low)

lemma runes_ascii: "byte_in 0 127 c \<Longrightarrow> runes (c # s) = [c] # runes s"
  by (simp add: runes.simps(2) rune_len_ascii)

lemma concat_runes [simp]: "concat (runes s) = s"
proof (induction s rule: runes.induct)
  case (2 c s)
  have "take (rune_len (c # s)) (c # s) = c # take (rune_len (c # s) - 1) s"
    using rune_len_pos [of "c # s"] by (cases "rune_len (c # s)") auto
  with 2 show ?case by (simp add: runes.simps(2))
qed simp

lemma runes_nonempty: "r \<in> set (runes s) \<Longrightarrow> r \<noteq> []"
proof (induction s rule: runes.induct)
  case (2 c s)
  then show ?case using rune_len_pos [of "c # s"] by (auto simp: runes.simps(2))
qed simp

text \<open>A rune of several bytes has no byte below 128.\<close>

lemma rune_len_multi:
  assumes "rune_len s > 1" and "x \<in> set (take (rune_len s) s)"
  shows "byte_in 128 255 x"
  using assms by (cases s rule: rune_len.cases) (auto dest: rune_bytes split: if_splits)

lemma runes_multi:
  "r \<in> set (runes s) \<Longrightarrow> length r \<noteq> 1 \<Longrightarrow> x \<in> set r \<Longrightarrow> byte_in 128 255 x"
proof (induction s rule: runes.induct)
  case (2 c s)
  show ?case
  proof (cases "r \<in> set (runes (drop (rune_len (c # s) - 1) s))")
    case True
    with 2 show ?thesis by blast
  next
    case False
    with 2(2) have r: "r = take (rune_len (c # s)) (c # s)" by (simp add: runes.simps(2))
    with 2(3) rune_len_pos [of "c # s"] have "rune_len (c # s) > 1" by (cases "rune_len (c # s) = 1") auto
    then show ?thesis using rune_len_multi 2(4) r by blast
  qed
qed simp

section \<open>Quoting\<close>

definition dquote :: char where "dquote = CHR 0x22"
definition backslash :: char where "backslash = CHR 0x5C"

definition hex_digit :: "nat \<Rightarrow> char" where
  "hex_digit n = ''0123456789abcdef'' ! n"

definition quote_byte :: "char \<Rightarrow> string" where
  "quote_byte c = (let n = (of_char c :: nat) in
     if c = dquote \<or> c = backslash then [backslash, c]
     else if n = 7 then [backslash, CHR ''a'']
     else if n = 8 then [backslash, CHR ''b'']
     else if n = 9 then [backslash, CHR ''t'']
     else if n = 10 then [backslash, CHR ''n'']
     else if n = 11 then [backslash, CHR ''v'']
     else if n = 12 then [backslash, CHR ''f'']
     else if n = 13 then [backslash, CHR ''r'']
     else if n < 32 \<or> n \<ge> 127 then [backslash, CHR ''x'', hex_digit (n div 16), hex_digit (n mod 16)]
     else [c])"

definition quote_rune :: "string \<Rightarrow> string" where
  "quote_rune r = (case r of [c] \<Rightarrow> quote_byte c | _ \<Rightarrow> r)"

definition quote_body :: "string \<Rightarrow> string" where
  "quote_body s = concat (map quote_rune (runes s))"

definition Quote :: "string \<Rightarrow> string" where
  "Quote s = [dquote] @ quote_body s @ [dquote]"

text \<open>The reading of a double-quoted literal up to its closing quote: its value and the text behind it.\<close>

definition hex_value :: "char \<Rightarrow> nat option" where
  "hex_value c = (let n = (of_char c :: nat) in
     if 48 \<le> n \<and> n \<le> 57 then Some (n - 48) else if 97 \<le> n \<and> n \<le> 102 then Some (n - 87)
     else if 65 \<le> n \<and> n \<le> 70 then Some (n - 55) else None)"

definition simple_escape :: "char \<Rightarrow> char option" where
  "simple_escape d =
    (if d = dquote \<or> d = backslash then Some d
     else if d = CHR ''a'' then Some (CHR 0x07) else if d = CHR ''b'' then Some (CHR 0x08)
     else if d = CHR ''t'' then Some (CHR 0x09) else if d = CHR ''n'' then Some (CHR 0x0A)
     else if d = CHR ''v'' then Some (CHR 0x0B) else if d = CHR ''f'' then Some (CHR 0x0C)
     else if d = CHR ''r'' then Some (CHR 0x0D) else None)"

fun read_body :: "string \<Rightarrow> (string \<times> string) option" where
  "read_body [] = None"
| "read_body (c # s) =
    (if c = dquote then Some ([], s)
     else if c = CHR 0x0A then None
     else if c \<noteq> backslash then map_option (\<lambda>(v, r). (c # v, r)) (read_body s)
     else case s of
        [] \<Rightarrow> None
      | d # t \<Rightarrow>
          (case simple_escape d of
             Some e \<Rightarrow> map_option (\<lambda>(v, r). (e # v, r)) (read_body t)
           | None \<Rightarrow>
               (case t of
                  h # l # u \<Rightarrow>
                    (case (d = CHR ''x'', hex_value h, hex_value l) of
                       (True, Some a, Some b) \<Rightarrow> map_option (\<lambda>(v, r). (char_of (16 * a + b) # v, r)) (read_body u)
                     | _ \<Rightarrow> None)
                | _ \<Rightarrow> None)))"

definition read_literal :: "string \<Rightarrow> (string \<times> string) option" where
  "read_literal s = (case s of c # t \<Rightarrow> if c = dquote then read_body t else None | [] \<Rightarrow> None)"

lemma hex_value_digit: "n < 16 \<Longrightarrow> hex_value (hex_digit n) = Some n"
proof -
  have "\<forall>n \<in> {..<16}. hex_value (hex_digit n) = Some n" by code_simp
  then show "n < 16 \<Longrightarrow> ?thesis" by simp
qed

lemma char_of_nat_cases:
  "of_char c = (7 :: nat) \<longleftrightarrow> c = CHR 0x07" "of_char c = (8 :: nat) \<longleftrightarrow> c = CHR 0x08" "of_char c = (9 :: nat) \<longleftrightarrow> c = CHR 0x09"
  "of_char c = (10 :: nat) \<longleftrightarrow> c = CHR 0x0A" "of_char c = (11 :: nat) \<longleftrightarrow> c = CHR 0x0B" "of_char c = (12 :: nat) \<longleftrightarrow> c = CHR 0x0C"
  "of_char c = (13 :: nat) \<longleftrightarrow> c = CHR 0x0D"
proof -
  have *: "of_char c = (of_char d :: nat) \<longleftrightarrow> c = d" for d by (rule of_char_eq_iff)
  show "of_char c = (7 :: nat) \<longleftrightarrow> c = CHR 0x07" using * [of "CHR 0x07"] by simp
  show "of_char c = (8 :: nat) \<longleftrightarrow> c = CHR 0x08" using * [of "CHR 0x08"] by simp
  show "of_char c = (9 :: nat) \<longleftrightarrow> c = CHR 0x09" using * [of "CHR 0x09"] by simp
  show "of_char c = (10 :: nat) \<longleftrightarrow> c = CHR 0x0A" using * [of "CHR 0x0A"] by simp
  show "of_char c = (11 :: nat) \<longleftrightarrow> c = CHR 0x0B" using * [of "CHR 0x0B"] by simp
  show "of_char c = (12 :: nat) \<longleftrightarrow> c = CHR 0x0C" using * [of "CHR 0x0C"] by simp
  show "of_char c = (13 :: nat) \<longleftrightarrow> c = CHR 0x0D" using * [of "CHR 0x0D"] by simp
qed

lemma read_quote_byte: "read_body (quote_byte c @ s) = map_option (\<lambda>(v, r). (c # v, r)) (read_body s)"
proof -
  define n where "n = (of_char c :: nat)"
  have b: "n < 256" unfolding n_def by simp
  have c: "char_of n = c" by (simp add: n_def)
  consider "c = dquote \<or> c = backslash" | "c \<noteq> dquote" "c \<noteq> backslash" "7 \<le> n" "n \<le> 13"
    | "c \<noteq> dquote" "c \<noteq> backslash" "\<not> (7 \<le> n \<and> n \<le> 13)" "n < 32 \<or> n \<ge> 127"
    | "c \<noteq> dquote" "c \<noteq> backslash" "32 \<le> n" "n < 127" by linarith
  then show ?thesis
  proof cases
    case 1
    then show ?thesis by (auto simp: quote_byte_def simple_escape_def dquote_def backslash_def)
  next
    case 2
    then consider "n = 7" | "n = 8" | "n = 9" | "n = 10" | "n = 11" | "n = 12" | "n = 13" by linarith
    then show ?thesis
      by cases (use char_of_nat_cases [of c] in \<open>auto simp: n_def quote_byte_def simple_escape_def dquote_def backslash_def\<close>)
  next
    case 3
    have "16 * (n div 16) + n mod 16 = n" by simp
    moreover have "n div 16 < 16" "n mod 16 < 16" using b by auto
    ultimately show ?thesis
      using 3 c by (auto simp: quote_byte_def n_def [symmetric] Let_def simple_escape_def hex_value_digit dquote_def backslash_def)
  next
    case 4
    then have "c \<noteq> CHR 0x0A" by (auto simp: n_def)
    with 4 show ?thesis by (simp add: quote_byte_def n_def [symmetric] Let_def)
  qed
qed

lemma read_multi:
  "\<forall>x \<in> set r. byte_in 128 255 x \<Longrightarrow> read_body (r @ s) = map_option (\<lambda>(v, t). (r @ v, t)) (read_body s)"
proof (induction r)
  case (Cons x r)
  then have "x \<noteq> dquote" "x \<noteq> backslash" "x \<noteq> CHR 0x0A" by (auto simp: byte_in_def dquote_def backslash_def)
  with Cons show ?case by (auto simp: option.map_comp case_prod_unfold comp_def)
qed (simp add: option.map_id)

lemma read_quote_rune:
  assumes "r \<in> set (runes u)"
  shows "read_body (quote_rune r @ s) = map_option (\<lambda>(v, t). (r @ v, t)) (read_body s)"
proof (cases "length r = 1")
  case True
  then obtain c where "r = [c]" by (auto simp: length_Suc_conv)
  then show ?thesis by (simp add: quote_rune_def read_quote_byte)
next
  case False
  then have "quote_rune r = r" by (auto simp: quote_rune_def split: list.splits)
  then show ?thesis using read_multi runes_multi [OF assms False] by simp
qed

lemma read_quote_runes:
  "set rs \<subseteq> set (runes u) \<Longrightarrow> read_body (concat (map quote_rune rs) @ s) = map_option (\<lambda>(v, t). (concat rs @ v, t)) (read_body s)"
  by (induction rs) (auto simp: read_quote_rune option.map_comp option.map_ident option.map_id case_prod_unfold comp_def)

text \<open>A quoted string is read back, and the reading ends at the closing quote whatever the string holds.\<close>

lemma read_Quote: "read_literal (Quote s @ rest) = Some (s, rest)"
proof -
  have "read_body (quote_body s @ dquote # rest) = Some (s, rest)"
    unfolding quote_body_def by (subst read_quote_runes [of _ s]) auto
  then show ?thesis by (simp add: read_literal_def Quote_def)
qed

lemma Quote_inj [simp]: "Quote a = Quote b \<longleftrightarrow> a = b"
  by (metis read_Quote option.inject prod.inject append_Nil2)

section \<open>Other text functions\<close>

definition ascii_upper :: "char \<Rightarrow> char" where
  "ascii_upper c = (let n = (of_char c :: nat) in if 97 \<le> n \<and> n \<le> 122 then char_of (n - 32) else c)"

definition ToUpper :: "string \<Rightarrow> string" where
  "ToUpper s = map ascii_upper s"

text \<open>\<^verbatim>\<open>strings.SplitN\<close> with a limit of pieces, and \<^verbatim>\<open>strings.Split\<close>, at a non-empty separator.\<close>

fun split_on :: "nat \<Rightarrow> string \<Rightarrow> string \<Rightarrow> string list" where
  "split_on 0 s sep = [s]"
| "split_on (Suc n) s sep = (case Index s sep of
     None \<Rightarrow> [s]
   | Some i \<Rightarrow> take i s # split_on n (drop (i + length sep) s) sep)"

definition SplitN :: "string \<Rightarrow> string \<Rightarrow> nat \<Rightarrow> string list" where
  "SplitN s sep n = split_on (n - 1) s sep"

definition SplitOn :: "string \<Rightarrow> string \<Rightarrow> string list" where
  "SplitOn s sep = split_on (length s) s sep"

text \<open>\<^verbatim>\<open>%03d\<close> of a positive number and \<^verbatim>\<open>%v\<close> of a decoded YAML value; a float is kept by its printed form.\<close>

definition pad3 :: "nat \<Rightarrow> string" where
  "pad3 n = (let d = itoa (int n) in replicate (3 - length d) (CHR ''0'') @ d)"

function fmt_any :: "yaml \<Rightarrow> string" where
  "fmt_any YNull = ''<nil>''"
| "fmt_any (YBool b) = (if b then ''true'' else ''false'')"
| "fmt_any (YInt n) = int_literal n"
| "fmt_any (YFloat l) = l"
| "fmt_any (YStr s) = s"
| "fmt_any (YSeq xs) = ''['' @ JoinStrings (map fmt_any xs) '' '' @ '']''"
| "fmt_any (YMap kvs) = ''map['' @ JoinStrings (map (\<lambda>(k, v). k @ '':'' @ fmt_any v) (sort_key fst kvs)) '' '' @ '']''"
  by pat_completeness auto
termination
  by (relation "measure size") (auto simp: less_Suc_eq_le size_list_estimation' intro!: le_SucI)

text \<open>The em dash of the comments.\<close>

definition em_dash :: string where "em_dash = [CHR 0xE2, CHR 0x80, CHR 0x94]"

end
