(* ===== verification/CliService.thy ===== *)
theory CliService
  imports CliFiles CliAudit GoText
begin

text \<open>
  The daemon as a service of the operating system: \<^verbatim>\<open>cmd/nixis/setup_linux.go\<close> (systemd) and \<^verbatim>\<open>cmd/nixis/setup_darwin.go\<close> (launchd).
  Programs that are run and signals that are sent are events of the machine; the result of the next program is a function of what happened before.
\<close>

section \<open>The machine\<close>

datatype sys_event = Ran "string list" | Killed int string

record exec_result =
  exOK :: bool
  exOut :: string
  exLate :: bool

record Machine =
  mcHost :: Host
  mcSettings :: SettingsFile
  mcTrace :: "sys_event list"

type_synonym runner = "sys_event list \<Rightarrow> string list \<Rightarrow> exec_result"

definition exec :: "runner \<Rightarrow> string list \<Rightarrow> Machine \<Rightarrow> exec_result \<times> Machine" where
  "exec run cmd m = (run (mcTrace m) cmd, m\<lparr>mcTrace := mcTrace m @ [Ran cmd]\<rparr>)"

definition kill :: "int \<Rightarrow> string \<Rightarrow> Machine \<Rightarrow> Machine" where
  "kill pid sig m = m\<lparr>mcTrace := mcTrace m @ [Killed pid sig]\<rparr>"

text \<open>Writing and removing a file.\<close>

definition write_file :: "Os \<Rightarrow> string \<Rightarrow> string \<Rightarrow> Machine \<Rightarrow> bool \<times> Machine" where
  "write_file os p data m =
    (if osOK os OpWrite (abs_path os p) then (True, m\<lparr>mcHost := (mcHost m)\<lparr>hFiles := (hFiles (mcHost m))(abs_path os p \<mapsto> data)\<rparr>\<rparr>) else (False, m))"

definition remove_file :: "Os \<Rightarrow> string \<Rightarrow> Machine \<Rightarrow> bool \<times> Machine" where
  "remove_file os p m =
    (if hFiles (mcHost m) (abs_path os p) = None then (True, m)
     else if osOK os OpRemove (abs_path os p) then (True, m\<lparr>mcHost := (mcHost m)\<lparr>hFiles := (hFiles (mcHost m))(abs_path os p := None)\<rparr>\<rparr>)
     else (False, m))"

definition make_dirs :: "Os \<Rightarrow> string \<Rightarrow> Machine \<Rightarrow> bool \<times> Machine" where
  "make_dirs os p m = (let (ok, h) = MkdirAll os p (mcHost m) in (ok, m\<lparr>mcHost := h\<rparr>))"

text \<open>\<^verbatim>\<open>strconv.Atoi\<close> with its error ignored: no number is 0, a number out of range is the nearest one.\<close>

definition atoi0 :: "string \<Rightarrow> int" where
  "atoi0 s = (case (case s of CHR ''-'' # t \<Rightarrow> map_option uminus (digits_value t) | CHR ''+'' # t \<Rightarrow> digits_value t | _ \<Rightarrow> digits_value s) of
     None \<Rightarrow> 0 | Some n \<Rightarrow> max (- (2 ^ 63)) (min (2 ^ 63 - 1) n))"

definition findDaemonPID :: "runner \<Rightarrow> Machine \<Rightarrow> int \<times> Machine" where
  "findDaemonPID run m = (let (r, m') = exec run [''pgrep'', ''-f'', ''nixis-daemon''] m in (atoi0 (TrimSpace (exOut r)), m'))"

datatype ServiceError = ServiceDirFailed | ServiceWriteFailed | ServiceCommandFailed "string list" | ServiceRemoveFailed | ServiceMissing string
  | ServiceTimeout

type_synonym outcome = "ServiceError option"

definition lines_text :: "string list \<Rightarrow> string" where
  "lines_text ls = concat (map (\<lambda>l. l @ [newline]) ls)"

section \<open>systemd\<close>

definition systemdServiceName :: string where "systemdServiceName = ''nixis-daemon.service''"

definition systemdUnitPath :: "string \<Rightarrow> string" where
  "systemdUnitPath homeDir = filepath_Join [homeDir, ''.config'', ''systemd'', ''user'', systemdServiceName]"

definition absolute_dir :: "Os \<Rightarrow> string \<Rightarrow> string" where
  "absolute_dir os dir = (if IsAbs dir \<or> Abs_fails os dir then dir else abs_path os dir)"

definition systemd_unit :: "string \<Rightarrow> string \<Rightarrow> string" where
  "systemd_unit homeDir policyDir =
    lines_text [''[Unit]'', ''Description=Nixis Governance Daemon'', ''After=default.target'', [], ''[Service]'',
      ''ExecStart='' @ filepath_Join [filepath_Join [homeDir, ''.nixis''], ''nixis-daemon''] @ '' -policy-dir '' @ policyDir @ '' -socket /tmp/nixis.sock'',
      ''Restart=always'', ''Environment=NIXIS_DASHBOARD_ADDR=127.0.0.1:9090'', [], ''[Install]'', ''WantedBy=default.target'']"

definition linux_installDaemonService :: "Os \<Rightarrow> runner \<Rightarrow> bool \<Rightarrow> string \<Rightarrow> string \<Rightarrow> string \<Rightarrow> bool \<Rightarrow> Machine \<Rightarrow> outcome \<times> Machine" where
  "linux_installDaemonService os run dryRun answer homeDir policyDir yes m =
    (let dest = systemdUnitPath homeDir in
     if dryRun then (None, m)
     else if \<not> yes \<and> \<not> confirm answer then (None, m)
     else let (ok1, m1) = make_dirs os (Dir dest) m in
       if \<not> ok1 then (Some ServiceDirFailed, m1)
       else let (ok2, m2) = write_file os dest (systemd_unit homeDir (absolute_dir os policyDir)) m1 in
         if \<not> ok2 then (Some ServiceWriteFailed, m2)
         else let (r3, m3) = exec run [''systemctl'', ''--user'', ''daemon-reload''] m2 in
           if \<not> exOK r3 then (Some (ServiceCommandFailed [''daemon-reload'']), m3)
           else let (r4, m4) = exec run [''systemctl'', ''--user'', ''enable'', ''--now'', systemdServiceName] m3 in
             (if \<not> exOK r4 then Some (ServiceCommandFailed [''enable'']) else None, m4))"

definition linux_uninstallDaemonService :: "Os \<Rightarrow> runner \<Rightarrow> string \<Rightarrow> Machine \<Rightarrow> outcome \<times> Machine" where
  "linux_uninstallDaemonService os run homeDir m =
    (let dest = systemdUnitPath homeDir in
     if hFiles (mcHost m) (abs_path os dest) = None then (None, m)
     else let m1 = snd (exec run [''systemctl'', ''--user'', ''stop'', systemdServiceName] m);
              m2 = snd (exec run [''systemctl'', ''--user'', ''disable'', systemdServiceName] m1);
              (ok, m3) = remove_file os dest m2
          in if \<not> ok then (Some ServiceRemoveFailed, m3)
             else (None, snd (exec run [''systemctl'', ''--user'', ''daemon-reload''] m3)))"

definition show_command :: "string list" where
  "show_command = [''systemctl'', ''--user'', ''show'', systemdServiceName, ''--property=ActiveState,MainPID'']"

fun status_lines :: "string list \<Rightarrow> string \<Rightarrow> int \<Rightarrow> string \<times> int" where
  "status_lines [] active pid = (active, pid)"
| "status_lines (line # ls) active pid =
    status_lines ls (if HasPrefix line ''ActiveState='' then TrimPrefix line ''ActiveState='' else active)
      (if HasPrefix line ''MainPID='' then atoi0 (TrimSpace (TrimPrefix line ''MainPID='')) else pid)"

definition linux_status :: "string \<Rightarrow> bool \<times> int" where
  "linux_status output = (let (active, pid) = status_lines (Split output newline) [] 0 in (active = ''active'', pid))"

definition linux_daemonServiceStatus :: "runner \<Rightarrow> Machine \<Rightarrow> (bool \<times> int) \<times> Machine" where
  "linux_daemonServiceStatus run m = (let (r, m') = exec run show_command m in (if \<not> exOK r then (False, 0) else linux_status (exOut r), m'))"

definition linux_daemonServiceStatusWithTimeout :: "runner \<Rightarrow> Machine \<Rightarrow> (bool \<times> int) option \<times> Machine" where
  "linux_daemonServiceStatusWithTimeout run m =
    (let (r, m') = exec run show_command m
     in (if exLate r then None else Some (if \<not> exOK r then (False, 0) else linux_status (exOut r)), m'))"

definition linux_startDaemon :: "Os \<Rightarrow> runner \<Rightarrow> string \<Rightarrow> Machine \<Rightarrow> outcome \<times> Machine" where
  "linux_startDaemon os run homeDir m =
    (if hFiles (mcHost m) (abs_path os (systemdUnitPath homeDir)) = None then (Some (ServiceMissing (systemdUnitPath homeDir)), m)
     else let (r, m') = exec run [''systemctl'', ''--user'', ''start'', systemdServiceName] m
          in (if exOK r then None else Some (ServiceCommandFailed [''start'']), m'))"

definition linux_stopDaemon :: "runner \<Rightarrow> Machine \<Rightarrow> outcome \<times> Machine" where
  "linux_stopDaemon run m =
    (let (r, m') = exec run [''systemctl'', ''--user'', ''stop'', systemdServiceName] m
     in (if exOK r then None else Some (ServiceCommandFailed [''stop'']), m'))"

definition linux_stopDaemonWithTimeout :: "runner \<Rightarrow> Machine \<Rightarrow> outcome \<times> Machine" where
  "linux_stopDaemonWithTimeout run m =
    (let (r, m') = exec run [''systemctl'', ''--user'', ''stop'', systemdServiceName] m
     in (if exLate r then Some ServiceTimeout else if exOK r then None else Some (ServiceCommandFailed [''stop'']), m'))"

section \<open>launchd\<close>

definition plistLabel :: string where "plistLabel = ''com.nixis.daemon''"

definition plistPath :: "string \<Rightarrow> string" where
  "plistPath homeDir = filepath_Join [homeDir, ''Library'', ''LaunchAgents'', plistLabel @ ''.plist'']"

definition xml_string :: "string \<Rightarrow> string" where
  "xml_string s = ''<string>'' @ s @ ''</string>''"

definition xml_key :: "string \<Rightarrow> string" where
  "xml_key s = ''<key>'' @ s @ ''</key>''"

definition quoted :: "string \<Rightarrow> string" where
  "quoted s = [CHR 0x22] @ s @ [CHR 0x22]"

definition launchd_plist :: "string \<Rightarrow> string \<Rightarrow> string" where
  "launchd_plist homeDir policyDir =
    (let nixisDir = filepath_Join [homeDir, ''.nixis'']; logPath = filepath_Join [nixisDir, ''daemon.log''];
         ind = replicate 4 (CHR '' ''); ind2 = replicate 8 (CHR '' '')
     in lines_text [''<?xml version='' @ quoted ''1.0'' @ '' encoding='' @ quoted ''UTF-8'' @ ''?>'',
          ''<!DOCTYPE plist PUBLIC '' @ quoted ''-//Apple//DTD PLIST 1.0//EN'' @ '' '' @ quoted ''http://www.apple.com/DTDs/PropertyList-1.0.dtd'' @ ''>'',
          ''<plist version='' @ quoted ''1.0'' @ ''>'', ''<dict>'',
          ind @ xml_key ''Label'', ind @ xml_string plistLabel, ind @ xml_key ''ProgramArguments'', ind @ ''<array>'',
          ind2 @ xml_string (filepath_Join [nixisDir, ''nixis-daemon'']), ind2 @ xml_string ''-policy-dir'', ind2 @ xml_string policyDir,
          ind2 @ xml_string ''-socket'', ind2 @ xml_string ''/tmp/nixis.sock'', ind @ ''</array>'',
          ind @ xml_key ''RunAtLoad'', ind @ ''<true/>'', ind @ xml_key ''KeepAlive'', ind @ ''<true/>'',
          ind @ xml_key ''StandardErrorPath'', ind @ xml_string logPath, ind @ xml_key ''StandardOutPath'', ind @ xml_string logPath,
          ind @ xml_key ''EnvironmentVariables'', ind @ ''<dict>'', ind2 @ xml_key ''NIXIS_DASHBOARD_ADDR'', ind2 @ xml_string ''127.0.0.1:9090'',
          ind @ ''</dict>'', ''</dict>'', ''</plist>''])"

text \<open>Polling after a signal: up to \<^verbatim>\<open>n\<close> looks, stopping when no process is found.\<close>

fun poll_gone :: "runner \<Rightarrow> nat \<Rightarrow> Machine \<Rightarrow> bool \<times> Machine" where
  "poll_gone run 0 m = (False, m)"
| "poll_gone run (Suc n) m = (let (pid, m') = findDaemonPID run m in if pid = 0 then (True, m') else poll_gone run n m')"

definition killDaemonProcess :: "runner \<Rightarrow> Machine \<Rightarrow> Machine" where
  "killDaemonProcess run m =
    (let (pid, m1) = findDaemonPID run m in
     if pid \<le> 0 then m1
     else let (gone, m2) = poll_gone run 10 (kill pid ''SIGTERM'' m1) in
       if gone then m2
       else let (fresh, m3) = findDaemonPID run m2 in
         if fresh > 0 then snd (poll_gone run 20 (kill fresh ''SIGKILL'' m3)) else m3)"

definition bootout_command :: "string \<Rightarrow> string list" where
  "bootout_command uid = [''launchctl'', ''bootout'', ''gui/'' @ uid @ ''/'' @ plistLabel]"

definition purgeServiceFromLaunchd :: "runner \<Rightarrow> string \<Rightarrow> string \<Rightarrow> Machine \<Rightarrow> Machine" where
  "purgeServiceFromLaunchd run uid homeDir m =
    (let m1 = snd (exec run (bootout_command uid) m);
         m2 = snd (exec run [''launchctl'', ''remove'', plistLabel] m1);
         m3 = snd (exec run [''launchctl'', ''unload'', plistPath homeDir] m2)
     in killDaemonProcess run m3)"

text \<open>\<^verbatim>\<open>bootstrap\<close>, and \<^verbatim>\<open>load\<close> where that fails.\<close>

definition bootstrap_service :: "runner \<Rightarrow> string \<Rightarrow> string \<Rightarrow> Machine \<Rightarrow> outcome \<times> Machine" where
  "bootstrap_service run uid dest m =
    (let (r, m1) = exec run [''launchctl'', ''bootstrap'', ''gui/'' @ uid, dest] m in
     if exOK r then (None, m1)
     else let (r2, m2) = exec run [''launchctl'', ''load'', dest] m1 in (if exOK r2 then None else Some (ServiceCommandFailed [''load'']), m2))"

definition darwin_installDaemonService :: "Os \<Rightarrow> runner \<Rightarrow> string \<Rightarrow> bool \<Rightarrow> string \<Rightarrow> string \<Rightarrow> string \<Rightarrow> bool \<Rightarrow> Machine \<Rightarrow> outcome \<times> Machine" where
  "darwin_installDaemonService os run uid dryRun answer homeDir policyDir yes m =
    (let dest = plistPath homeDir in
     if dryRun then (None, m)
     else if \<not> yes \<and> \<not> confirm answer then (None, m)
     else let (ok1, m1) = make_dirs os (Dir dest) m in
       if \<not> ok1 then (Some ServiceDirFailed, m1)
       else let (ok2, m2) = write_file os dest (launchd_plist homeDir (absolute_dir os policyDir)) m1 in
         if \<not> ok2 then (Some ServiceWriteFailed, m2)
         else bootstrap_service run uid dest (purgeServiceFromLaunchd run uid homeDir m2))"

definition darwin_uninstallDaemonService :: "Os \<Rightarrow> runner \<Rightarrow> string \<Rightarrow> string \<Rightarrow> Machine \<Rightarrow> outcome \<times> Machine" where
  "darwin_uninstallDaemonService os run uid homeDir m =
    (let dest = plistPath homeDir in
     if hFiles (mcHost m) (abs_path os dest) = None then (None, m)
     else let (r, m1) = exec run (bootout_command uid) m;
              m2 = (if exOK r then m1 else snd (exec run [''launchctl'', ''unload'', dest] m1));
              (ok, m3) = remove_file os dest m2
          in (if ok then None else Some ServiceRemoveFailed, m3))"

text \<open>The status from the output of \<^verbatim>\<open>launchctl list\<close>: a table line with the label, or else a \<^verbatim>\<open>PID\<close> entry.\<close>

definition label_line :: "string \<Rightarrow> (bool \<times> int) option" where
  "label_line line = (let fields = Fields line in
     if length fields \<ge> 3 \<and> fields ! 2 = plistLabel
     then Some (if fields ! 0 \<noteq> ''-'' then (True, atoi0 (fields ! 0)) else (False, 0)) else None)"

definition pid_line :: "string \<Rightarrow> (bool \<times> int) option" where
  "pid_line line = (let trimmed = TrimSpace line in
     if HasPrefix trimmed (quoted ''PID'') \<or> HasPrefix trimmed (quoted ''pid'') then
       (case SplitN trimmed ''='' 2 of
          [_, val] \<Rightarrow> (let p = atoi0 (TrimSpace (TrimRight (\<lambda>c. c = CHR '';'') val)) in if p > 0 then Some (True, p) else None)
        | _ \<Rightarrow> None)
     else None)"

fun first_hit :: "('a \<Rightarrow> 'b option) \<Rightarrow> 'a list \<Rightarrow> 'b option" where
  "first_hit f [] = None"
| "first_hit f (x # xs) = (case f x of Some y \<Rightarrow> Some y | None \<Rightarrow> first_hit f xs)"

definition darwin_status :: "string \<Rightarrow> bool \<times> int" where
  "darwin_status output = (let ls = Split output newline in
     case first_hit label_line ls of Some r \<Rightarrow> r | None \<Rightarrow> (case first_hit pid_line ls of Some r \<Rightarrow> r | None \<Rightarrow> (False, 0)))"

definition darwin_daemonServiceStatus :: "runner \<Rightarrow> Machine \<Rightarrow> (bool \<times> int) \<times> Machine" where
  "darwin_daemonServiceStatus run m =
    (let (r, m') = exec run [''launchctl'', ''list'', plistLabel] m in (if \<not> exOK r then (False, 0) else darwin_status (exOut r), m'))"

definition darwin_daemonServiceStatusWithTimeout :: "runner \<Rightarrow> Machine \<Rightarrow> (bool \<times> int) option \<times> Machine" where
  "darwin_daemonServiceStatusWithTimeout run m =
    (let (r, m') = exec run [''launchctl'', ''list'', plistLabel] m
     in (if exLate r then None else Some (if \<not> exOK r then (False, 0) else darwin_status (exOut r)), m'))"

definition darwin_startDaemon :: "Os \<Rightarrow> runner \<Rightarrow> string \<Rightarrow> string \<Rightarrow> Machine \<Rightarrow> outcome \<times> Machine" where
  "darwin_startDaemon os run uid homeDir m =
    (let dest = plistPath homeDir in
     if hFiles (mcHost m) (abs_path os dest) = None then (Some (ServiceMissing dest), m)
     else bootstrap_service run uid dest (purgeServiceFromLaunchd run uid homeDir m))"

definition darwin_stopDaemon :: "runner \<Rightarrow> string \<Rightarrow> string \<Rightarrow> Machine \<Rightarrow> outcome \<times> Machine" where
  "darwin_stopDaemon run uid homeDir m =
    (let (r, m1) = exec run (bootout_command uid) m in
     if exOK r then (None, killDaemonProcess run m1)
     else let (r2, m2) = exec run [''launchctl'', ''unload'', plistPath homeDir] m1
          in (if exOK r2 then None else Some (ServiceCommandFailed [''unload'']), killDaemonProcess run m2))"

definition darwin_stopDaemonWithTimeout :: "runner \<Rightarrow> string \<Rightarrow> string \<Rightarrow> Machine \<Rightarrow> outcome \<times> Machine" where
  "darwin_stopDaemonWithTimeout run uid homeDir m =
    (let (r, m1) = exec run (bootout_command uid) m in
     if exLate r then (Some ServiceTimeout, killDaemonProcess run m1)
     else if exOK r then (None, killDaemonProcess run m1)
     else let (r2, m2) = exec run [''launchctl'', ''unload'', plistPath homeDir] m1
          in (if exOK r2 then None else Some (ServiceCommandFailed [''unload'']), killDaemonProcess run m2))"

end
