(* ===== verification/PolicyUpgrade.thy ===== *)
theory PolicyUpgrade
  imports CliFiles
begin

text \<open>
  \<^verbatim>\<open>nixis policy upgrade\<close>, \<^verbatim>\<open>cmd/nixis/policy_upgrade.go\<close>: comparing a source directory of policies with the installed builtin ones,
  copying, and the download of a release.  The entries a walk of a directory shows are arguments; replies of GitHub are data.
\<close>

section \<open>Differences\<close>

datatype change_action = ADD | MOD | DEL

record policyChange =
  pcName :: string
  pcAction :: change_action

fun diff_source :: "Os \<Rightarrow> Host \<Rightarrow> string \<Rightarrow> string \<Rightarrow> visit list \<Rightarrow> policyChange list option" where
  "diff_source os h srcDir destDir [] = Some []"
| "diff_source os h srcDir destDir (VisitError # vs) = None"
| "diff_source os h srcDir destDir (VisitDir cs # vs) = diff_source os h srcDir destDir vs"
| "diff_source os h srcDir destDir (VisitFile cs # vs) =
    (if \<not> isYAML (visit_name srcDir cs) then diff_source os h srcDir destDir vs
     else case ReadFile os h (walked srcDir cs) of
       ReadData srcData \<Rightarrow>
        (case ReadFile os h (filepath_Join [destDir, rel_path cs]) of
           NoSuchFile \<Rightarrow> map_option (\<lambda>ch. \<lparr>pcName = rel_path cs, pcAction = ADD\<rparr> # ch) (diff_source os h srcDir destDir vs)
         | ReadError \<Rightarrow> None
         | ReadData destData \<Rightarrow>
            (if srcData \<noteq> destData then map_option (\<lambda>ch. \<lparr>pcName = rel_path cs, pcAction = MOD\<rparr> # ch) (diff_source os h srcDir destDir vs)
             else diff_source os h srcDir destDir vs))
     | _ \<Rightarrow> None)"

definition yaml_files :: "string \<Rightarrow> visit list \<Rightarrow> string list list" where
  "yaml_files root vs = [cs. VisitFile cs \<leftarrow> vs, isYAML (visit_name root cs)]"

definition deleted :: "string \<Rightarrow> string \<Rightarrow> visit list \<Rightarrow> visit list \<Rightarrow> policyChange list" where
  "deleted srcDir destDir vs ws =
    map (\<lambda>cs. \<lparr>pcName = rel_path cs, pcAction = DEL\<rparr>)
      (filter (\<lambda>cs. rel_path cs \<notin> set (map rel_path (yaml_files srcDir vs))) (yaml_files destDir ws))"

definition diffPolicies :: "Os \<Rightarrow> Host \<Rightarrow> string \<Rightarrow> string \<Rightarrow> visit list \<Rightarrow> visit list \<Rightarrow> policyChange list option" where
  "diffPolicies os h srcDir destDir vs ws =
    map_option (\<lambda>ch. ch @ deleted srcDir destDir vs ws) (diff_source os h srcDir destDir vs)"

section \<open>Copying\<close>

fun copyPoliciesForUpgrade :: "Os \<Rightarrow> string \<Rightarrow> string \<Rightarrow> visit list \<Rightarrow> Host \<Rightarrow> bool \<times> Host" where
  "copyPoliciesForUpgrade os srcDir destDir [] h = (True, h)"
| "copyPoliciesForUpgrade os srcDir destDir (VisitError # vs) h = (False, h)"
| "copyPoliciesForUpgrade os srcDir destDir (VisitDir cs # vs) h =
    (case MkdirAll os (filepath_Join [destDir, rel_path cs]) h of
       (False, h') \<Rightarrow> (False, h')
     | (True, h') \<Rightarrow> copyPoliciesForUpgrade os srcDir destDir vs h')"
| "copyPoliciesForUpgrade os srcDir destDir (VisitFile cs # vs) h =
    (if \<not> isYAML (visit_name srcDir cs) then copyPoliciesForUpgrade os srcDir destDir vs h
     else case copyFile os (walked srcDir cs) (filepath_Join [destDir, rel_path cs]) 420 h of
       (False, h') \<Rightarrow> (False, h')
     | (True, h') \<Rightarrow> copyPoliciesForUpgrade os srcDir destDir vs h')"

datatype UpgradeError = HomeDirFailed | CreateBuiltinFailed | DiffFailed | CopyFailed | ReleaseFetchFailed | ReleaseStatus nat
  | ReleaseParseFailed | NoPolicyAsset string | DownloadFailed

datatype UpgradeOutcome = UpgradeFailed UpgradeError | UpToDate | Cancelled | Upgraded "policyChange list"

text \<open>The part both sources share: compare, ask unless \<^verbatim>\<open>--yes\<close> is given, copy.\<close>

definition apply_changes ::
    "Os \<Rightarrow> bool \<Rightarrow> string \<Rightarrow> string \<Rightarrow> string \<Rightarrow> visit list \<Rightarrow> visit list \<Rightarrow> Host \<Rightarrow> UpgradeOutcome \<times> Host" where
  "apply_changes os yes answer srcDir builtinDir vs ws h = (case diffPolicies os h srcDir builtinDir vs ws of
     None \<Rightarrow> (UpgradeFailed DiffFailed, h)
   | Some changes \<Rightarrow>
      (if changes = [] then (UpToDate, h)
       else if \<not> yes \<and> \<not> confirm answer then (Cancelled, h)
       else case copyPoliciesForUpgrade os srcDir builtinDir vs h of
         (False, h') \<Rightarrow> (UpgradeFailed CopyFailed, h')
       | (True, h') \<Rightarrow> (Upgraded changes, h')))"

definition upgradeFromLocal ::
    "Os \<Rightarrow> bool \<Rightarrow> string \<Rightarrow> string \<Rightarrow> string \<Rightarrow> visit list \<Rightarrow> visit list \<Rightarrow> Host \<Rightarrow> UpgradeOutcome \<times> Host" where
  "upgradeFromLocal os yes answer srcDir builtinDir vs ws h = apply_changes os yes answer srcDir builtinDir vs ws h"

record releaseAsset =
  raName :: string
  raBrowserDownloadURL :: string

record releaseInfo =
  riTagName :: string
  riAssets :: "releaseAsset list"

datatype release_reply = ReleaseUnreachable | ReleaseReply nat "releaseInfo option"

text \<open>What fails after the download: the request, its status, creating the directory or the file, or writing it.\<close>

datatype download_reply = DownloadUnreachable | DownloadReply nat string

record GitHub =
  ghRelease :: release_reply
  ghDownload :: "string \<Rightarrow> download_reply"
  ghTmpDir :: "string option"

definition downloadAndExtractPolicies :: "Os \<Rightarrow> GitHub \<Rightarrow> string \<Rightarrow> Host \<Rightarrow> string option \<times> Host" where
  "downloadAndExtractPolicies os gh url h = (case ghDownload gh url of
     DownloadUnreachable \<Rightarrow> (None, h)
   | DownloadReply status body \<Rightarrow>
      (if status \<noteq> 200 then (None, h)
       else case ghTmpDir gh of
         None \<Rightarrow> (None, h)
       | Some tmpDir \<Rightarrow>
          (let tmpFile = filepath_Join [tmpDir, ''policies.tar.gz'']
           in if \<not> osOK os OpCreate tmpFile \<or> \<not> osOK os OpCopy tmpFile then (None, RemoveAll tmpDir h)
              else (Some tmpDir, h\<lparr>hFiles := (hFiles h)(tmpFile \<mapsto> body), hDirs := insert tmpDir (hDirs h)\<rparr>))))"

text \<open>The walk of the fresh temporary directory shows the directory and the archive.\<close>

definition tmp_visits :: "visit list" where
  "tmp_visits = [VisitDir [], VisitFile [''policies.tar.gz'']]"

definition policy_asset :: "releaseInfo \<Rightarrow> string" where
  "policy_asset release = (case filter (\<lambda>a. Contains (raName a) ''policies'') (riAssets release) of
     [] \<Rightarrow> [] | a # _ \<Rightarrow> raBrowserDownloadURL a)"

definition upgradeFromGitHub :: "Os \<Rightarrow> GitHub \<Rightarrow> bool \<Rightarrow> string \<Rightarrow> string \<Rightarrow> visit list \<Rightarrow> Host \<Rightarrow> UpgradeOutcome \<times> Host" where
  "upgradeFromGitHub os gh yes answer builtinDir ws h = (case ghRelease gh of
     ReleaseUnreachable \<Rightarrow> (UpgradeFailed ReleaseFetchFailed, h)
   | ReleaseReply status parsed \<Rightarrow>
      (if status \<noteq> 200 then (UpgradeFailed (ReleaseStatus status), h)
       else case parsed of
         None \<Rightarrow> (UpgradeFailed ReleaseParseFailed, h)
       | Some release \<Rightarrow>
          (let policyAssetURL = policy_asset release in
           if policyAssetURL = [] then (UpgradeFailed (NoPolicyAsset (riTagName release)), h)
           else case downloadAndExtractPolicies os gh policyAssetURL h of
             (None, h1) \<Rightarrow> (UpgradeFailed DownloadFailed, h1)
           | (Some tmpDir, h1) \<Rightarrow>
              (let (r, h2) = apply_changes os yes answer tmpDir builtinDir tmp_visits ws h1 in (r, RemoveAll tmpDir h2)))))"

definition runPolicyUpgrade ::
    "Os \<Rightarrow> GitHub \<Rightarrow> string option \<Rightarrow> bool \<Rightarrow> bool \<Rightarrow> string \<Rightarrow> string \<Rightarrow> visit list \<Rightarrow> visit list \<Rightarrow> Host \<Rightarrow> UpgradeOutcome \<times> Host" where
  "runPolicyUpgrade os gh userHome fromLocal yes answer srcDir vs ws h = (case userHome of
     None \<Rightarrow> (UpgradeFailed HomeDirFailed, h)
   | Some homeDir \<Rightarrow>
      (let builtinDir = filepath_Join [homeDir, ''.nixis'', ''policies'', ''builtin''] in
       case MkdirAll os builtinDir h of
         (False, h') \<Rightarrow> (UpgradeFailed CreateBuiltinFailed, h')
       | (True, h') \<Rightarrow>
          if fromLocal then upgradeFromLocal os yes answer srcDir builtinDir vs ws h'
          else upgradeFromGitHub os gh yes answer builtinDir ws h'))"

section \<open>What copying does\<close>

lemma MkdirAll_files: "MkdirAll os p h = (ok, h') \<Longrightarrow> hFiles h' = hFiles h \<and> hModes h' = hModes h"
  by (auto simp: MkdirAll_def split: if_splits)

lemma visit_name_last: "proper_visit cs \<Longrightarrow> visit_name root cs = last cs"
  by (simp add: visit_name_def proper_visit_def)

definition proper_walk :: "visit list \<Rightarrow> bool" where
  "proper_walk vs \<longleftrightarrow> (\<forall>cs. VisitFile cs \<in> set vs \<longrightarrow> proper_visit cs)"

lemma yaml_files_iff: "cs \<in> set (yaml_files root vs) \<longleftrightarrow> VisitFile cs \<in> set vs \<and> isYAML (visit_name root cs)"
  by (auto simp: yaml_files_def split: visit.splits)

lemma yaml_files_Cons:
  "yaml_files root (v # vs) = (case v of VisitFile cs \<Rightarrow> if isYAML (visit_name root cs) then cs # yaml_files root vs else yaml_files root vs
     | _ \<Rightarrow> yaml_files root vs)"
  by (cases v) (auto simp: yaml_files_def)

lemma copy_frame:
  assumes "IsAbs destDir" and "proper_walk vs" and "copyPoliciesForUpgrade os srcDir destDir vs h = (ok, h')" and "\<not> below destDir p"
  shows "hFiles h' p = hFiles h p \<and> hModes h' p = hModes h p"
  using assms(2,3)
proof (induction vs arbitrary: h)
  case (Cons v vs)
  have rest: "proper_walk vs" using Cons.prems(1) by (auto simp: proper_walk_def)
  show ?case
  proof (cases v)
    case (VisitFile cs)
    show ?thesis
    proof (cases "isYAML (visit_name srcDir cs)")
      case True
      have pv: "proper_visit cs" using Cons.prems(1) VisitFile by (auto simp: proper_walk_def)
      obtain k h1 where c: "copyFile os (walked srcDir cs) (filepath_Join [destDir, rel_path cs]) 420 h = (k, h1)" by fastforce
      have "p \<noteq> abs_path os (filepath_Join [destDir, rel_path cs])" "p \<noteq> abs_path os (filepath_Join [destDir, rel_path cs] @ ''.tmp'')"
        using assms(4) copy_below [OF assms(1) pv] pv unfolding below_def by metis+
      then have "hFiles h1 p = hFiles h p \<and> hModes h1 p = hModes h p" using copyFile_frame(1,4) [OF c] by simp
      then show ?thesis using Cons.IH [OF rest, of h1] Cons.prems(2) VisitFile True c by (cases k) auto
    qed (use Cons VisitFile rest in auto)
  next
    case (VisitDir cs)
    obtain k h1 where m: "MkdirAll os (filepath_Join [destDir, rel_path cs]) h = (k, h1)" by fastforce
    then show ?thesis using Cons.IH [OF rest, of h1] Cons.prems(2) VisitDir MkdirAll_files [OF m] by (cases k) auto
  qed (use Cons rest in auto)
qed simp

text \<open>The source lies outside of the destination and shares no file with it.\<close>

definition separate :: "Os \<Rightarrow> string \<Rightarrow> string \<Rightarrow> visit list \<Rightarrow> bool" where
  "separate os srcDir destDir vs \<longleftrightarrow> IsAbs destDir \<and> proper_walk vs \<and>
    (\<forall>cs \<in> set (yaml_files srcDir vs). \<not> below destDir (abs_path os (walked srcDir cs)) \<and>
       \<not> osSame os (abs_path os (walked srcDir cs)) (root_path (base_comps destDir @ cs)))"

lemma below_target: "proper_visit cs \<Longrightarrow> below d (root_path (base_comps d @ cs))"
  by (auto simp: below_def)

lemma copy_untouched:
  assumes "IsAbs destDir" and "proper_walk vs" and "copyPoliciesForUpgrade os srcDir destDir vs h = (ok, h')"
    and "proper_visit cs" and "isYAML (last cs)" and "cs \<notin> set (yaml_files srcDir vs)"
  shows "hFiles h' (root_path (base_comps destDir @ cs)) = hFiles h (root_path (base_comps destDir @ cs))"
  using assms(2,3,6)
proof (induction vs arbitrary: h)
  case (Cons v vs)
  have rest: "proper_walk vs" using Cons.prems(1) by (auto simp: proper_walk_def)
  show ?case
  proof (cases "\<exists>ds. v = VisitFile ds \<and> isYAML (visit_name srcDir ds)")
    case True
    then obtain ds where v: "v = VisitFile ds" "isYAML (visit_name srcDir ds)" by blast
    have pv: "proper_visit ds" using Cons.prems(1) v by (auto simp: proper_walk_def)
    have ne: "cs \<noteq> ds" "cs \<notin> set (yaml_files srcDir vs)" using Cons.prems(3) v by (auto simp: yaml_files_Cons)
    obtain k h1 where c: "copyFile os (walked srcDir ds) (filepath_Join [destDir, rel_path ds]) 420 h = (k, h1)" by fastforce
    have "hFiles h1 (root_path (base_comps destDir @ cs)) = hFiles h (root_path (base_comps destDir @ cs))"
      using copyFile_frame(1) [OF c] copy_below [OF assms(1) pv] copy_targets_distinct [OF assms(4) pv assms(5) ne(1)] by metis
    then show ?thesis using Cons.IH [OF rest _ ne(2), of h1] Cons.prems(2) v c by (cases k) auto
  next
    case False
    then have "yaml_files srcDir (v # vs) = yaml_files srcDir vs" by (auto simp: yaml_files_Cons split: visit.splits)
    moreover have "ok = False \<and> hFiles h' = hFiles h \<or> (\<exists>h1. copyPoliciesForUpgrade os srcDir destDir vs h1 = (ok, h') \<and> hFiles h1 = hFiles h)"
      using False Cons.prems(2) by (cases v) (auto split: prod.splits bool.splits dest: MkdirAll_files)
    ultimately show ?thesis using Cons.IH [OF rest] Cons.prems(3) by metis
  qed
qed simp

lemma separate_Cons:
  assumes "separate os srcDir destDir (v # vs)"
  shows "separate os srcDir destDir vs"
    and "v = VisitFile cs \<Longrightarrow> isYAML (visit_name srcDir cs) \<Longrightarrow> proper_visit cs \<and> isYAML (last cs) \<and>
      \<not> below destDir (abs_path os (walked srcDir cs)) \<and> \<not> osSame os (abs_path os (walked srcDir cs)) (root_path (base_comps destDir @ cs))"
  using assms visit_name_last by (auto simp: separate_def proper_walk_def yaml_files_iff)

text \<open>A copy that succeeds makes every policy file of the source the content of its counterpart.\<close>

lemma copy_ok:
  assumes "separate os srcDir destDir vs" and "copyPoliciesForUpgrade os srcDir destDir vs h = (True, h')"
  shows "\<forall>cs \<in> set (yaml_files srcDir vs). \<exists>data. hFiles h (abs_path os (walked srcDir cs)) = Some data \<and>
    hFiles h' (root_path (base_comps destDir @ cs)) = Some data"
  using assms
proof (induction vs arbitrary: h)
  case (Cons v vs)
  note sep = separate_Cons [OF Cons.prems(1)]
  have d: "IsAbs destDir" "proper_walk vs" using sep(1) by (auto simp: separate_def)
  show ?case
  proof (cases "\<exists>cs. v = VisitFile cs \<and> isYAML (visit_name srcDir cs)")
    case True
    then obtain cs where v: "v = VisitFile cs" "isYAML (visit_name srcDir cs)" by blast
    let ?src = "\<lambda>cs. abs_path os (walked srcDir cs)" and ?dst = "\<lambda>cs. root_path (base_comps destDir @ cs)"
    have cs: "proper_visit cs" "isYAML (last cs)" "\<not> below destDir (?src cs)" "\<not> osSame os (?src cs) (?dst cs)" using sep(2) [OF v] by auto
    note tgt = copy_below [OF d(1) cs(1)]
    obtain h1 where c: "copyFile os (walked srcDir cs) (filepath_Join [destDir, rel_path cs]) 420 h = (True, h1)"
      and r: "copyPoliciesForUpgrade os srcDir destDir vs h1 = (True, h')"
      using Cons.prems(2) v by (auto split: prod.splits bool.splits)
    have "?src cs \<noteq> ?dst cs" using cs(3) below_target [OF cs(1)] by metis
    then obtain data where data: "hFiles h (?src cs) = Some data" "hFiles h1 (?dst cs) = Some data"
      using copyFile_ok [OF c] cs(4) tgt(1) by auto
    have keep: "hFiles h1 p = hFiles h p" if "\<not> below destDir p" for p
      using copyFile_frame(1) [OF c, of p] tgt below_target cs(1) that by metis
    have ih: "\<exists>x. hFiles h (?src ds) = Some x \<and> hFiles h' (?dst ds) = Some x" if "ds \<in> set (yaml_files srcDir vs)" for ds
      using Cons.IH [OF sep(1) r] that keep sep(1) by (simp add: separate_def)
    have "hFiles h' (?dst cs) = Some data"
    proof (cases "cs \<in> set (yaml_files srcDir vs)")
      case True
      then show ?thesis using ih data(1) by fastforce
    next
      case False
      have "hFiles h' (?dst cs) = hFiles h1 (?dst cs)"
        using copy_untouched [OF d r cs(1,2)] False by blast
      then show ?thesis using data(2) by simp
    qed
    then show ?thesis using ih data(1) v by (simp add: yaml_files_Cons)
  next
    case False
    then obtain h1 where "copyPoliciesForUpgrade os srcDir destDir vs h1 = (True, h')" "hFiles h1 = hFiles h"
      using Cons.prems(2) by (cases v) (auto split: prod.splits bool.splits dest: MkdirAll_files)
    moreover have "yaml_files srcDir (v # vs) = yaml_files srcDir vs" using False by (auto simp: yaml_files_Cons split: visit.splits)
    ultimately show ?thesis using Cons.IH [OF sep(1)] by metis
  qed
qed (simp add: yaml_files_def)

section \<open>Upgrading\<close>

lemma diff_source_same:
  assumes "\<forall>cs \<in> set (yaml_files srcDir vs). \<exists>data. ReadFile os h (walked srcDir cs) = ReadData data \<and>
      ReadFile os h (filepath_Join [destDir, rel_path cs]) = ReadData data"
    and "VisitError \<notin> set vs"
  shows "diff_source os h srcDir destDir vs = Some []"
  using assms
proof (induction vs)
  case (Cons v vs)
  then show ?case by (cases v) (auto simp: yaml_files_Cons split: if_splits)
qed simp

lemma copy_no_error: "copyPoliciesForUpgrade os srcDir destDir vs h = (True, h') \<Longrightarrow> VisitError \<notin> set vs"
proof (induction vs arbitrary: h)
  case (Cons v vs)
  then show ?case by (cases v) (auto split: if_splits prod.splits bool.splits)
qed simp


definition demo_os :: Os where
  "demo_os = \<lparr>osCwd = ''/work'', osOK = \<lambda>op p. True, osSame = \<lambda>p q. False, osPartial = \<lambda>p. [], osUmask = \<lambda>m. m\<rparr>"

definition demo_host :: Host where
  "demo_host = \<lparr>hFiles = [''/work/policies/a.yaml'' \<mapsto> ''new'', ''/h/b/a.yaml'' \<mapsto> ''old'', ''/h/b/x.yaml'' \<mapsto> ''gone'', ''/h/c/own.yaml'' \<mapsto> ''mine''],
                hModes = Map.empty, hDirs = {}\<rparr>"

definition demo_upgrade :: "UpgradeOutcome \<times> Host" where
  "demo_upgrade = upgradeFromLocal demo_os True [] ''./policies'' ''/h/b'' [VisitDir [], VisitFile [''a.yaml'']] [VisitDir [], VisitFile [''a.yaml''], VisitFile [''x.yaml'']] demo_host"

lemma demo_source: "abs_path demo_os (walked ''./policies'' [''a.yaml'']) = ''/work/policies/a.yaml''"
  by code_simp

lemma demo_paths:
  "abs_path demo_os (filepath_Join [''/h/b'', ''a.yaml'']) = ''/h/b/a.yaml''"
  "abs_path demo_os (filepath_Join [''/h/b'', ''a.yaml''] @ ''.tmp'') = ''/h/b/a.yaml.tmp''"
  "isYAML (visit_name ''./policies'' [''a.yaml''])" "base_comps ''/h/b'' = [''h'', ''b'']"
  "isYAML (visit_name ''/h/b'' [''a.yaml''])" "isYAML (visit_name ''/h/b'' [''x.yaml''])" "rel_path [''a.yaml''] = ''a.yaml''" "rel_path [''x.yaml''] = ''x.yaml''"
  by code_simp+

lemma demo_separate: "separate demo_os ''./policies'' ''/h/b'' [VisitDir [], VisitFile [''a.yaml'']]"
proof -
  have "\<not> below ''/h/b'' ''/work/policies/a.yaml''"
  proof
    assume "below ''/h/b'' ''/work/policies/a.yaml''"
    then obtain cs where "''/work/policies/a.yaml'' = root_path ([''h'', ''b''] @ cs)" unfolding below_def demo_paths by blast
    then show False by (cases cs) (simp_all add: root_path_def)
  qed
  then show ?thesis
    by (simp add: separate_def yaml_files_def demo_paths demo_source)
      (simp add: demo_os_def proper_walk_def proper_visit_def plain_name_def IsAbs_def HasPrefix_def)
qed

lemma demo_upgraded:
  "\<exists>h'. demo_upgrade = (Upgraded [\<lparr>pcName = ''a.yaml'', pcAction = MOD\<rparr>, \<lparr>pcName = ''x.yaml'', pcAction = DEL\<rparr>], h')"
proof -
  let ?vs = "[VisitDir [], VisitFile [''a.yaml'']]" and ?ws = "[VisitDir [], VisitFile [''a.yaml''], VisitFile [''x.yaml'']]"
  have ok: "osOK demo_os op p" "\<not> osSame demo_os p q" "\<not> Abs_fails demo_os p" for op p q by (simp_all add: demo_os_def Abs_fails_def)
  have f: "hFiles demo_host ''/work/policies/a.yaml'' = Some ''new''" "hFiles demo_host ''/h/b/a.yaml'' = Some ''old''" by (simp_all add: demo_host_def)
  have "diff_source demo_os demo_host ''./policies'' ''/h/b'' ?vs = Some [\<lparr>pcName = ''a.yaml'', pcAction = MOD\<rparr>]"
    by (simp add: ReadFile_def demo_paths demo_source ok f)
  then have "diffPolicies demo_os demo_host ''./policies'' ''/h/b'' ?vs ?ws =
      Some [\<lparr>pcName = ''a.yaml'', pcAction = MOD\<rparr>, \<lparr>pcName = ''x.yaml'', pcAction = DEL\<rparr>]"
    by (simp add: diffPolicies_def deleted_def yaml_files_def demo_paths)
  moreover have "\<exists>h'. copyPoliciesForUpgrade demo_os ''./policies'' ''/h/b'' ?vs demo_host = (True, h')"
    by (simp add: MkdirAll_def copyFile_def demo_paths demo_source ok f Let_def)
  ultimately show ?thesis by (auto simp: demo_upgrade_def upgradeFromLocal_def apply_changes_def)
qed


section \<open>What the command does not do\<close>

text \<open>Files reported as deleted stay: the same entries are reported after every upgrade, and the count of upgraded policies
  includes them.\<close>

lemma deletions_not_applied:
  assumes "separate os srcDir builtinDir vs" and "upgradeFromLocal os yes answer srcDir builtinDir vs ws h = (r, h')"
    and "proper_visit cs" and "isYAML (last cs)" and "cs \<notin> set (yaml_files srcDir vs)"
  shows "hFiles h' (root_path (base_comps builtinDir @ cs)) = hFiles h (root_path (base_comps builtinDir @ cs))"
proof -
  have "h' = h \<or> (\<exists>ok. copyPoliciesForUpgrade os srcDir builtinDir vs h = (ok, h'))"
    using assms(2) by (auto simp: upgradeFromLocal_def apply_changes_def split: option.splits if_splits prod.splits bool.splits)
  then show ?thesis using copy_untouched [OF _ _ _ assms(3,4,5)] assms(1) by (auto simp: separate_def)
qed

text \<open>An upgrade from GitHub never extracts the archive: with an installed policy it reports an upgrade and has changed no
  file outside the temporary directory.\<close>

lemma github_upgrade_changes_nothing:
  assumes "upgradeFromGitHub os gh yes answer builtinDir ws h = (r, h')" and "ghTmpDir gh = Some tmpDir"
    and "p \<noteq> tmpDir" and "\<not> HasPrefix p (tmpDir @ ''/'')" and "p \<noteq> filepath_Join [tmpDir, ''policies.tar.gz'']"
  shows "hFiles h' p = hFiles h p"
proof -
  have tar: "\<not> isYAML (visit_name tmpDir [''policies.tar.gz''])" by code_simp
  have "hFiles h2 p = hFiles h1 p" if "apply_changes os yes answer tmpDir builtinDir tmp_visits ws h1 = (r, h2)" for h1 h2
    using that tar
    by (auto simp: apply_changes_def tmp_visits_def split: option.splits if_splits prod.splits bool.splits dest: MkdirAll_files)
  then show ?thesis
    using assms by (auto simp: upgradeFromGitHub_def downloadAndExtractPolicies_def RemoveAll_def Let_def
        split: release_reply.splits option.splits if_splits download_reply.splits prod.splits)
qed

lemma github_upgrade_reports_success:
  assumes "yaml_files builtinDir ws \<noteq> []" and "osOK os OpMkdir (abs_path os (filepath_Join [builtinDir, ''.'']))"
  shows "\<exists>h'. apply_changes os True answer tmpDir builtinDir tmp_visits ws h = (Upgraded (deleted tmpDir builtinDir tmp_visits ws), h') \<and>
    length (deleted tmpDir builtinDir tmp_visits ws) = length (yaml_files builtinDir ws)"
proof -
  have tar: "\<not> isYAML (visit_name tmpDir [''policies.tar.gz''])" by code_simp
  have none: "yaml_files tmpDir tmp_visits = []" using tar by (simp add: yaml_files_def tmp_visits_def)
  have d: "deleted tmpDir builtinDir tmp_visits ws = map (\<lambda>cs. \<lparr>pcName = rel_path cs, pcAction = DEL\<rparr>) (yaml_files builtinDir ws)"
    by (simp add: deleted_def none)
  have "diffPolicies os h tmpDir builtinDir tmp_visits ws = Some (deleted tmpDir builtinDir tmp_visits ws)"
    using tar by (simp add: diffPolicies_def tmp_visits_def)
  moreover have "deleted tmpDir builtinDir tmp_visits ws \<noteq> []" using assms(1) by (simp add: d)
  moreover have "\<exists>h'. copyPoliciesForUpgrade os tmpDir builtinDir tmp_visits h = (True, h')"
    using assms(2) tar by (simp add: tmp_visits_def MkdirAll_def rel_path_def)
  ultimately show ?thesis by (auto simp: apply_changes_def d)
qed

end
