(* ===== verification/CliInstall.thy ===== *)
theory CliInstall
  imports CliService PolicyUpgrade
begin

text \<open>
  \<^verbatim>\<open>nixis setup\<close>, \<^verbatim>\<open>nixis setup --uninstall\<close> (\<^verbatim>\<open>cmd/nixis/setup.go\<close>) and \<^verbatim>\<open>nixis uninstall\<close> (\<^verbatim>\<open>cmd/nixis/uninstall.go\<close>), step by step, over the machine of
  \<^verbatim>\<open>CliService\<close>.  What they need of the service manager is the locale \<^verbatim>\<open>service_manager\<close>, interpreted for systemd and for launchd.
\<close>

section \<open>The service interface\<close>

record Service =
  svPath :: string
  svInstall :: "bool \<Rightarrow> string \<Rightarrow> string \<Rightarrow> bool \<Rightarrow> Machine \<Rightarrow> outcome \<times> Machine"
  svUninstall :: "Machine \<Rightarrow> outcome \<times> Machine"
  svStatus :: "Machine \<Rightarrow> (bool \<times> int) \<times> Machine"
  svStatusTimeout :: "Machine \<Rightarrow> (bool \<times> int) option \<times> Machine"
  svStart :: "Machine \<Rightarrow> outcome \<times> Machine"
  svStop :: "Machine \<Rightarrow> outcome \<times> Machine"
  svStopTimeout :: "Machine \<Rightarrow> outcome \<times> Machine"

definition linux_service :: "Os \<Rightarrow> runner \<Rightarrow> string \<Rightarrow> Service" where
  "linux_service os run homeDir =
     \<lparr>svPath = systemdUnitPath homeDir,
      svInstall = (\<lambda>dry answer policyDir yes. linux_installDaemonService os run dry answer homeDir policyDir yes),
      svUninstall = linux_uninstallDaemonService os run homeDir,
      svStatus = linux_daemonServiceStatus run, svStatusTimeout = linux_daemonServiceStatusWithTimeout run,
      svStart = linux_startDaemon os run homeDir, svStop = linux_stopDaemon run, svStopTimeout = linux_stopDaemonWithTimeout run\<rparr>"

definition darwin_service :: "Os \<Rightarrow> runner \<Rightarrow> string \<Rightarrow> string \<Rightarrow> Service" where
  "darwin_service os run uid homeDir =
     \<lparr>svPath = plistPath homeDir,
      svInstall = (\<lambda>dry answer policyDir yes. darwin_installDaemonService os run uid dry answer homeDir policyDir yes),
      svUninstall = darwin_uninstallDaemonService os run uid homeDir,
      svStatus = darwin_daemonServiceStatus run, svStatusTimeout = darwin_daemonServiceStatusWithTimeout run,
      svStart = darwin_startDaemon os run uid homeDir, svStop = darwin_stopDaemon run uid homeDir,
      svStopTimeout = darwin_stopDaemonWithTimeout run uid homeDir\<rparr>"

text \<open>The files and settings of the machine are left alone.\<close>

definition only_runs :: "Machine \<Rightarrow> Machine \<Rightarrow> bool" where
  "only_runs m m' \<longleftrightarrow> mcHost m' = mcHost m \<and> mcSettings m' = mcSettings m"

text \<open>At most one file is different.\<close>

definition touches :: "string set \<Rightarrow> Machine \<Rightarrow> Machine \<Rightarrow> bool" where
  "touches ps m m' \<longleftrightarrow> mcSettings m' = mcSettings m \<and> (\<forall>p. p \<notin> ps \<longrightarrow> hFiles (mcHost m') p = hFiles (mcHost m) p)"

section \<open>Setup\<close>

record SetupFlags =
  sfYes :: bool
  sfDryRun :: bool
  sfPolicyDir :: string
  sfSkipBinaries :: bool

text \<open>What the commands read from outside: answers to the prompts, the environment, the entries of the policy directory, and where
  \<^verbatim>\<open>exec.LookPath\<close> finds a program.\<close>

record SetupEnv =
  seService :: Service
  seRunner :: runner
  seAnswerService :: string
  seAnswerSettings :: string
  seAnswerRemove :: string
  seShell :: string
  sePath :: string
  seVisits :: "visit list"
  seLookPath :: "string \<Rightarrow> string option"

datatype SetupError = HomeUnresolved | BinaryNotFound string | CreateDirFailed string | DeployFailed string | InstallPoliciesFailed
  | InstallServiceFailed ServiceError | PatchSettingsFailed | PatchSettingsPanic | RemoveDirFailed

type_synonym step = "Machine \<Rightarrow> SetupError option \<times> Machine"

fun run_steps :: "step list \<Rightarrow> step" where
  "run_steps [] m = (None, m)"
| "run_steps (s # ss) m = (case s m of (Some e, m') \<Rightarrow> (Some e, m') | (None, m') \<Rightarrow> run_steps ss m')"

definition is_file :: "Os \<Rightarrow> string \<Rightarrow> Machine \<Rightarrow> bool" where
  "is_file os p m \<longleftrightarrow> hFiles (mcHost m) (abs_path os p) \<noteq> None"

definition findBinary :: "Os \<Rightarrow> (string \<Rightarrow> string option) \<Rightarrow> string \<Rightarrow> string \<Rightarrow> Machine \<Rightarrow> string" where
  "findBinary os look homeDir name m =
    (case filter (\<lambda>c. is_file os c m) [filepath_Join [''bin'', name], ''./'' @ name, filepath_Join [''cmd'', name, name]] of
       c # _ \<Rightarrow> abs_path os c
     | [] \<Rightarrow>
        (let installed = filepath_Join [homeDir, ''.nixis'', name]
         in if is_file os installed m then installed else case look name of Some p \<Rightarrow> p | None \<Rightarrow> []))"

definition binaries :: "string list" where
  "binaries = [''nixis'', ''nixis-hook'', ''nixis-daemon'']"

definition detect_step :: "SetupFlags \<Rightarrow> (string \<Rightarrow> string) \<Rightarrow> step" where
  "detect_step fl source m =
    (if sfSkipBinaries fl then (None, m)
     else case filter (\<lambda>n. source n = []) binaries of n # _ \<Rightarrow> (Some (BinaryNotFound n), m) | [] \<Rightarrow> (None, m))"

fun deploy_all :: "Os \<Rightarrow> (string \<Rightarrow> string) \<Rightarrow> string \<Rightarrow> string list \<Rightarrow> step" where
  "deploy_all os source nixisDir [] m = (None, m)"
| "deploy_all os source nixisDir (name # ns) m =
    (let (ok, h) = copyFile os (source name) (filepath_Join [nixisDir, name]) 493 (mcHost m); m' = m\<lparr>mcHost := h\<rparr>
     in if ok then deploy_all os source nixisDir ns m' else (Some (DeployFailed name), m'))"

definition deploy_step :: "Os \<Rightarrow> SetupFlags \<Rightarrow> (string \<Rightarrow> string) \<Rightarrow> string \<Rightarrow> step" where
  "deploy_step os fl source nixisDir m =
    (if sfSkipBinaries fl then (None, m)
     else let (ok, m1) = make_dirs os nixisDir m in
       if \<not> ok \<and> \<not> sfDryRun fl then (Some (CreateDirFailed nixisDir), m1)
       else if sfDryRun fl then (None, m1)
       else deploy_all os source nixisDir binaries m1)"

fun make_all :: "Os \<Rightarrow> string list \<Rightarrow> step" where
  "make_all os [] m = (None, m)"
| "make_all os (d # ds) m = (let (ok, m') = make_dirs os d m in if ok then make_all os ds m' else (Some (CreateDirFailed d), m'))"

definition dirs_step :: "Os \<Rightarrow> SetupFlags \<Rightarrow> string \<Rightarrow> step" where
  "dirs_step os fl policyDestDir m = (if sfDryRun fl then (None, m) else make_all os [policyDestDir, filepath_Join [policyDestDir, ''custom'']] m)"

text \<open>The walk of \<^verbatim>\<open>copyPolicies\<close> does what the one of the upgrade does, and in a dry run nothing; an unreadable source directory is
  an error of its own.\<close>

definition copyPolicies :: "Os \<Rightarrow> bool \<Rightarrow> string \<Rightarrow> string \<Rightarrow> visit list \<Rightarrow> Host \<Rightarrow> bool \<times> Host" where
  "copyPolicies os dryRun srcDir destDir vs h =
    (if \<not> osOK os OpStat (abs_path os srcDir) then (False, h)
     else if dryRun then (VisitError \<notin> set vs, h)
     else copyPoliciesForUpgrade os srcDir destDir vs h)"

definition policies_step :: "Os \<Rightarrow> SetupFlags \<Rightarrow> SetupEnv \<Rightarrow> string \<Rightarrow> step" where
  "policies_step os fl se policyDestDir m =
    (let (ok, h) = copyPolicies os (sfDryRun fl) (if sfPolicyDir fl = [] then ''./policies'' else sfPolicyDir fl) policyDestDir (seVisits se) (mcHost m)
     in (if ok then None else Some InstallPoliciesFailed, m\<lparr>mcHost := h\<rparr>))"

definition service_step :: "SetupFlags \<Rightarrow> SetupEnv \<Rightarrow> string \<Rightarrow> step" where
  "service_step fl se policyDir m =
    (if sfDryRun fl then (None, m)
     else let (r, m') = svInstall (seService se) False (seAnswerService se) policyDir (sfYes fl) m in (map_option InstallServiceFailed r, m'))"

text \<open>Stopping a running daemon, by force when that fails, and starting it; failures are only reported.\<close>

definition force_kill :: "runner \<Rightarrow> Machine \<Rightarrow> Machine" where
  "force_kill run m = (let (p, m') = findDaemonPID run m in if p > 0 then kill p ''SIGKILL'' m' else m')"

definition lifecycle_step :: "SetupFlags \<Rightarrow> SetupEnv \<Rightarrow> step" where
  "lifecycle_step fl se m =
    (if sfDryRun fl then (None, m)
     else let (st, m1) = svStatusTimeout (seService se) m;
              running = (case st of Some (r, _) \<Rightarrow> r | None \<Rightarrow> False);
              m2 = (if running then
                      let (e, m1') = svStopTimeout (seService se) m1 in if e \<noteq> None then force_kill (seRunner se) m1' else m1'
                    else m1)
          in (None, snd (svStart (seService se) m2)))"

definition settings_step :: "Os \<Rightarrow> SetupFlags \<Rightarrow> SetupEnv \<Rightarrow> string \<Rightarrow> string \<Rightarrow> step" where
  "settings_step os fl se homeDir hookPath m =
    (let path = settingsJSONPath homeDir;
         (ok, m1) = (if mcSettings m = NoSettings then make_dirs os (Dir path) m else (True, m))
     in if \<not> ok \<and> \<not> sfDryRun fl then (Some PatchSettingsFailed, m1)
        else case patchSettingsJSON (sfDryRun fl) (sfYes fl) (confirm (seAnswerSettings se)) hookPath (mcSettings m) of
          SettingsError \<Rightarrow> (Some PatchSettingsFailed, m1)
        | SettingsPanic \<Rightarrow> (Some PatchSettingsPanic, m1)
        | SettingsUnchanged \<Rightarrow> (None, m1)
        | SettingsWritten s \<Rightarrow>
           (if osOK os OpWrite (abs_path os path) then (None, m1\<lparr>mcSettings := ParsedSettings (JObj s)\<rparr>) else (Some PatchSettingsFailed, m1)))"

definition runSmokeTest :: "runner \<Rightarrow> string \<Rightarrow> Machine \<Rightarrow> (string + string) \<times> Machine" where
  "runSmokeTest run nixisDir m =
    (let (r, m') = exec run [filepath_Join [nixisDir, ''nixis-hook''], ''--version''] m
     in (if exOK r then Inr (TrimSpace (exOut r)) else Inl (TrimSpace (exOut r)), m'))"

definition smoke_step :: "SetupFlags \<Rightarrow> SetupEnv \<Rightarrow> string \<Rightarrow> step" where
  "smoke_step fl se nixisDir m = (None, if sfDryRun fl then m else snd (runSmokeTest (seRunner se) nixisDir m))"

definition stale_step :: "Os \<Rightarrow> SetupFlags \<Rightarrow> string \<Rightarrow> step" where
  "stale_step os fl nixisDir m =
    (None, if sfDryRun fl then m
           else foldl (\<lambda>m f. snd (remove_file os f m)) m [filepath_Join [nixisDir, ''nixis-hook-wrapper.sh''], filepath_Join [nixisDir, ''audit.log'']])"

definition shell_step :: "Os \<Rightarrow> SetupFlags \<Rightarrow> SetupEnv \<Rightarrow> string \<Rightarrow> string \<Rightarrow> step" where
  "shell_step os fl se homeDir nixisDir m =
    (let fs = hFiles (mcHost m);
         fs' = fst (patchShellPATH (sfDryRun fl) (osOK os OpWrite (detectShellConfig fs homeDir (seShell se))) homeDir (seShell se) (sePath se) nixisDir fs)
     in (None, m\<lparr>mcHost := (mcHost m)\<lparr>hFiles := fs'\<rparr>\<rparr>))"

definition runInstall :: "Os \<Rightarrow> SetupFlags \<Rightarrow> SetupEnv \<Rightarrow> string \<Rightarrow> string \<Rightarrow> step" where
  "runInstall os fl se homeDir nixisDir m =
    (let source = (\<lambda>name. findBinary os (seLookPath se) homeDir name m);
         policyDestDir = filepath_Join [nixisDir, ''policies''];
         hookPath = filepath_Join [nixisDir, ''nixis-hook'']
     in run_steps
          [detect_step fl source, deploy_step os fl source nixisDir, dirs_step os fl policyDestDir, policies_step os fl se policyDestDir,
           service_step fl se policyDestDir, lifecycle_step fl se, settings_step os fl se homeDir hookPath, smoke_step fl se nixisDir,
           stale_step os fl nixisDir, shell_step os fl se homeDir nixisDir] m)"

text \<open>Polling for the daemon after its start: each look sees whether the health endpoint answers and whether the socket exists.\<close>

fun waitForDaemon :: "(bool \<times> bool) list \<Rightarrow> bool" where
  "waitForDaemon [] = False"
| "waitForDaemon ((healthy, socket) # looks) = (if healthy \<and> socket then True else waitForDaemon looks)"

section \<open>Uninstalling\<close>

text \<open>Removing the hook; an error is only reported.\<close>

definition unpatch_settings :: "Os \<Rightarrow> bool \<Rightarrow> string \<Rightarrow> Machine \<Rightarrow> Machine" where
  "unpatch_settings os dryRun homeDir m = (case unpatchSettingsJSON dryRun (mcSettings m) of
     SettingsWritten s \<Rightarrow> if osOK os OpWrite (abs_path os (settingsJSONPath homeDir)) then m\<lparr>mcSettings := ParsedSettings (JObj s)\<rparr> else m
   | _ \<Rightarrow> m)"

definition remove_tree :: "Os \<Rightarrow> string \<Rightarrow> Machine \<Rightarrow> bool \<times> Machine" where
  "remove_tree os dir m = (if osOK os OpRemove (abs_path os dir) then (True, m\<lparr>mcHost := RemoveAll (abs_path os dir) (mcHost m)\<rparr>) else (False, m))"

definition runUninstall :: "Os \<Rightarrow> SetupFlags \<Rightarrow> SetupEnv \<Rightarrow> string \<Rightarrow> string \<Rightarrow> step" where
  "runUninstall os fl se homeDir nixisDir m =
    (let m1 = (if sfDryRun fl then m else snd (svUninstall (seService se) m));
         m2 = unpatch_settings os (sfDryRun fl) homeDir m1
     in if sfDryRun fl then (None, m2)
        else if \<not> sfYes fl \<and> \<not> confirm (seAnswerRemove se) then (None, m2)
        else let (ok, m3) = remove_tree os nixisDir m2 in (if ok then None else Some RemoveDirFailed, m3))"

definition runUninstallCmd :: "Os \<Rightarrow> bool \<Rightarrow> bool \<Rightarrow> SetupEnv \<Rightarrow> string option \<Rightarrow> step" where
  "runUninstallCmd os yes force se userHome m = (case userHome of
     None \<Rightarrow> (Some HomeUnresolved, m)
   | Some homeDir \<Rightarrow>
      (let nixisDir = filepath_Join [homeDir, ''.nixis''] in
       if \<not> yes \<and> \<not> confirm (seAnswerRemove se) then (None, m)
       else let m1 = (if force then force_kill (seRunner se) m
                      else let (e, m') = svStopTimeout (seService se) m in if e \<noteq> None then force_kill (seRunner se) m' else m');
                m2 = snd (svUninstall (seService se) m1);
                m3 = unpatch_settings os False homeDir m2;
                m4 = m3\<lparr>mcHost := (mcHost m3)\<lparr>hFiles := cleanShellConfigs homeDir (hFiles (mcHost m3))\<rparr>\<rparr>;
                m5 = snd (remove_file os ''/tmp/nixis.sock'' m4)
            in (None, snd (remove_tree os nixisDir m5))))"

definition runSetup :: "Os \<Rightarrow> SetupFlags \<Rightarrow> SetupEnv \<Rightarrow> bool \<Rightarrow> string option \<Rightarrow> step" where
  "runSetup os fl se uninstall userHome m = (case userHome of
     None \<Rightarrow> (Some HomeUnresolved, m)
   | Some homeDir \<Rightarrow> (let nixisDir = filepath_Join [homeDir, ''.nixis''] in
       if uninstall then runUninstall os fl se homeDir nixisDir m else runInstall os fl se homeDir nixisDir m))"

section \<open>What the machine operations touch\<close>

lemma touches_refl [simp]: "touches ps m m"
  by (simp add: touches_def)

lemma touches_trans: "touches ps m m1 \<Longrightarrow> touches ps m1 m2 \<Longrightarrow> touches ps m m2"
  by (auto simp: touches_def)

lemma touches_mono: "touches ps m m' \<Longrightarrow> ps \<subseteq> qs \<Longrightarrow> touches qs m m'"
  by (auto simp: touches_def)

lemma only_runs_touches: "only_runs m m' \<Longrightarrow> touches ps m m'"
  by (simp add: only_runs_def touches_def)

lemma exec_same [simp]: "mcHost (snd (exec run cmd m)) = mcHost m" "mcSettings (snd (exec run cmd m)) = mcSettings m"
  by (simp_all add: exec_def)

lemma kill_same [simp]: "mcHost (kill pid sig m) = mcHost m" "mcSettings (kill pid sig m) = mcSettings m"
  by (simp_all add: kill_def)

lemma find_same [simp]: "mcHost (snd (findDaemonPID run m)) = mcHost m" "mcSettings (snd (findDaemonPID run m)) = mcSettings m"
  by (simp_all add: findDaemonPID_def case_prod_beta Let_def)

lemma poll_same [simp]: "mcHost (snd (poll_gone run n m)) = mcHost m" "mcSettings (snd (poll_gone run n m)) = mcSettings m"
  by (induction n arbitrary: m) (simp_all add: case_prod_beta Let_def)

lemma kill_process_same [simp]: "mcHost (killDaemonProcess run m) = mcHost m" "mcSettings (killDaemonProcess run m) = mcSettings m"
  by (simp_all add: killDaemonProcess_def case_prod_beta Let_def)

lemma purge_same [simp]:
  "mcHost (purgeServiceFromLaunchd run uid homeDir m) = mcHost m" "mcSettings (purgeServiceFromLaunchd run uid homeDir m) = mcSettings m"
  by (simp_all add: purgeServiceFromLaunchd_def Let_def)

lemma bootstrap_same [simp]: "mcHost (snd (bootstrap_service run uid dest m)) = mcHost m" "mcSettings (snd (bootstrap_service run uid dest m)) = mcSettings m"
  by (simp_all add: bootstrap_service_def case_prod_beta Let_def)

lemma force_kill_same [simp]: "mcHost (force_kill run m) = mcHost m" "mcSettings (force_kill run m) = mcSettings m"
  by (simp_all add: force_kill_def case_prod_beta Let_def)

lemma touches_same: "mcHost m' = mcHost k \<Longrightarrow> mcSettings m' = mcSettings k \<Longrightarrow> touches ps m m' = touches ps m k"
  by (simp add: touches_def)

lemma write_touches: "write_file os p data m = (ok, m') \<Longrightarrow> touches {abs_path os p} m m'"
  by (auto simp: write_file_def touches_def split: if_splits)

lemma remove_touches: "remove_file os p m = (ok, m') \<Longrightarrow> touches {abs_path os p} m m'"
  by (auto simp: remove_file_def touches_def split: if_splits)

lemma remove_file_gone: "remove_file os p m = (True, m') \<Longrightarrow> hFiles (mcHost m') (abs_path os p) = None"
  by (auto simp: remove_file_def split: if_splits)

lemma remove_file_ok: "osOK os OpRemove (abs_path os p) \<Longrightarrow> fst (remove_file os p m)"
  by (simp add: remove_file_def)

lemma make_dirs_touches: "make_dirs os p m = (ok, m') \<Longrightarrow> touches ps m m'"
  by (auto simp: make_dirs_def touches_def Let_def MkdirAll_def split: if_splits)

section \<open>The contract of a service manager\<close>

locale service_manager =
  fixes os :: Os and sv :: Service
  assumes install_touches: "svInstall sv dry answer policyDir yes m = (r, m') \<Longrightarrow> touches {abs_path os (svPath sv)} m m'"
    and uninstall_touches: "svUninstall sv m = (r, m') \<Longrightarrow> touches {abs_path os (svPath sv)} m m'"
    and uninstall_removes: "osOK os OpRemove (abs_path os (svPath sv)) \<Longrightarrow> hFiles (mcHost (snd (svUninstall sv m))) (abs_path os (svPath sv)) = None"
    and status_runs: "only_runs m (snd (svStatus sv m))" "only_runs m (snd (svStatusTimeout sv m))"
    and start_runs: "only_runs m (snd (svStart sv m))"
    and stop_runs: "only_runs m (snd (svStop sv m))" "only_runs m (snd (svStopTimeout sv m))"

lemma dest_touches:
  assumes "make_dirs os (Dir dest) m = (ok1, m1)" and "write_file os dest text m1 = (ok2, m2)"
  shows "touches {abs_path os dest} m m1" and "touches {abs_path os dest} m m2"
  using make_dirs_touches [OF assms(1)] write_touches [OF assms(2)] by (auto intro: touches_trans)

lemma removal:
  assumes "remove_file os dest m = (ok, m')"
  shows "touches {abs_path os dest} m m'" and "osOK os OpRemove (abs_path os dest) \<Longrightarrow> ok \<and> hFiles (mcHost m') (abs_path os dest) = None"
  using assms remove_touches [OF assms] remove_file_gone [of os dest m m'] remove_file_ok [of os dest m] by (cases ok; auto)+

interpretation systemd: service_manager os "linux_service os run homeDir" for os run homeDir
proof
  fix dry answer policyDir yes m r m'
  let ?sv = "linux_service os run homeDir" and ?dest = "systemdUnitPath homeDir"
  show "touches {abs_path os (svPath ?sv)} m m'" if "svInstall ?sv dry answer policyDir yes m = (r, m')"
  proof -
    obtain ok1 m1 where 1: "make_dirs os (Dir ?dest) m = (ok1, m1)" by fastforce
    obtain ok2 m2 where 2: "write_file os ?dest (systemd_unit homeDir (absolute_dir os policyDir)) m1 = (ok2, m2)" by fastforce
    show ?thesis
      using that dest_touches [OF 1 2]
      by (auto simp: linux_service_def linux_installDaemonService_def 1 2 Let_def case_prod_beta touches_same [OF exec_same] split: if_splits)
  qed
  let ?m2 = "snd (exec run [''systemctl'', ''--user'', ''disable'', systemdServiceName] (snd (exec run [''systemctl'', ''--user'', ''stop'', systemdServiceName] m)))"
  obtain ok m3 where 3: "remove_file os ?dest ?m2 = (ok, m3)" by fastforce
  have m3: "touches {abs_path os ?dest} m m3" using removal(1) [OF 3] by (simp add: touches_def)
  show "touches {abs_path os (svPath ?sv)} m m'" if "svUninstall ?sv m = (r, m')"
    using that m3 by (auto simp: linux_service_def linux_uninstallDaemonService_def 3 Let_def touches_same [OF exec_same] split: if_splits)
  show "hFiles (mcHost (snd (svUninstall ?sv m))) (abs_path os (svPath ?sv)) = None" if "osOK os OpRemove (abs_path os (svPath ?sv))"
    using removal(2) [OF 3] that by (simp add: linux_service_def linux_uninstallDaemonService_def 3 Let_def)
qed (simp_all add: linux_service_def linux_daemonServiceStatus_def linux_daemonServiceStatusWithTimeout_def linux_startDaemon_def linux_stopDaemon_def
    linux_stopDaemonWithTimeout_def Let_def case_prod_beta only_runs_def)

interpretation launchd: service_manager os "darwin_service os run uid homeDir" for os run uid homeDir
proof
  fix dry answer policyDir yes m r m'
  let ?sv = "darwin_service os run uid homeDir" and ?dest = "plistPath homeDir"
  show "touches {abs_path os (svPath ?sv)} m m'" if "svInstall ?sv dry answer policyDir yes m = (r, m')"
  proof -
    obtain ok1 m1 where 1: "make_dirs os (Dir ?dest) m = (ok1, m1)" by fastforce
    obtain ok2 m2 where 2: "write_file os ?dest (launchd_plist homeDir (absolute_dir os policyDir)) m1 = (ok2, m2)" by fastforce
    obtain r3 m3 where 3: "bootstrap_service run uid ?dest (purgeServiceFromLaunchd run uid homeDir m2) = (r3, m3)" by fastforce
    have "touches {abs_path os ?dest} m m3"
      using dest_touches(2) [OF 1 2] bootstrap_same [of run uid ?dest "purgeServiceFromLaunchd run uid homeDir m2"] by (simp add: 3 touches_def)
    then show ?thesis
      using that dest_touches [OF 1 2]
      by (auto simp: darwin_service_def darwin_installDaemonService_def 1 2 3 Let_def case_prod_beta split: if_splits)
  qed
  obtain r1 m1 where 1: "exec run (bootout_command uid) m = (r1, m1)" by fastforce
  let ?m2 = "if exOK r1 then m1 else snd (exec run [''launchctl'', ''unload'', ?dest] m1)"
  obtain ok m3 where 3: "remove_file os ?dest ?m2 = (ok, m3)" by fastforce
  have m3: "touches {abs_path os ?dest} m m3"
    using removal(1) [OF 3] exec_same [of run "bootout_command uid" m] by (simp add: touches_def 1)
  show "touches {abs_path os (svPath ?sv)} m m'" if "svUninstall ?sv m = (r, m')"
    using that m3 by (auto simp: darwin_service_def darwin_uninstallDaemonService_def 1 3 Let_def split: if_splits)
  show "hFiles (mcHost (snd (svUninstall ?sv m))) (abs_path os (svPath ?sv)) = None" if "osOK os OpRemove (abs_path os (svPath ?sv))"
    using removal(2) [OF 3] that by (simp add: darwin_service_def darwin_uninstallDaemonService_def 1 3 Let_def)
qed (simp_all add: darwin_service_def darwin_daemonServiceStatus_def darwin_daemonServiceStatusWithTimeout_def darwin_startDaemon_def darwin_stopDaemon_def
    darwin_stopDaemonWithTimeout_def Let_def case_prod_beta only_runs_def)

section \<open>What setup touches\<close>

text \<open>A directory with everything in it.\<close>

definition in_tree :: "string \<Rightarrow> string \<Rightarrow> bool" where
  "in_tree d p \<longleftrightarrow> p = d \<or> HasPrefix p (d @ ''/'')"

definition shell_files :: "string \<Rightarrow> string set" where
  "shell_files homeDir = {filepath_Join [homeDir, ''.zshrc''], filepath_Join [homeDir, ''.bashrc''], filepath_Join [homeDir, ''.bash_profile''],
     filepath_Join [homeDir, ''.profile''], filepath_Join [homeDir, ''.config'', ''fish'', ''config.fish'']}"

lemma Join_append: "cs \<noteq> [] \<Longrightarrow> ds \<noteq> [] \<Longrightarrow> JoinStrings (cs @ ds) sep = JoinStrings cs sep @ sep @ JoinStrings ds sep"
proof (induction cs rule: induct_list012)
  case (2 x)
  then show ?case by (cases ds) simp_all
qed auto

lemma below_in_tree: "base_comps d \<noteq> [] \<Longrightarrow> below d p \<Longrightarrow> in_tree (root_path (base_comps d)) p"
  by (auto simp: below_def in_tree_def proper_visit_def root_path_def Join_append HasPrefix_iff)

lemma abs_base: "IsAbs d \<Longrightarrow> abs_path os d = root_path (base_comps d)"
  by (simp add: abs_path_def IsAbs_def Clean_def root_path_def base_comps_def Let_def)

text \<open>Where the nixis directory lies: an absolute path other than the root.\<close>

definition proper_dir :: "string \<Rightarrow> bool" where
  "proper_dir d \<longleftrightarrow> IsAbs d \<and> base_comps d \<noteq> []"

lemma child_in_tree:
  assumes "proper_dir d" and "proper_visit cs"
  shows "in_tree (abs_path os d) (abs_path os (filepath_Join [d, rel_path cs]))"
    and "in_tree (abs_path os d) (abs_path os (filepath_Join [d, rel_path cs] @ ''.tmp''))"
  using assms copy_below [of d cs] below_in_tree [of d] below_target abs_base [of d os] by (auto simp: proper_dir_def)

definition tree_only :: "Os \<Rightarrow> string \<Rightarrow> Machine \<Rightarrow> Machine \<Rightarrow> bool" where
  "tree_only os d m m' \<longleftrightarrow> touches {p. in_tree (abs_path os d) p} m m'"

lemma deploy_touches:
  assumes "proper_dir nixisDir" and "\<forall>n \<in> set ns. plain_name n" and "deploy_all os source nixisDir ns m = (r, m')"
  shows "tree_only os nixisDir m m'"
  using assms(2,3)
proof (induction ns arbitrary: m)
  case (Cons n ns)
  obtain ok h where c: "copyFile os (source n) (filepath_Join [nixisDir, n]) 493 (mcHost m) = (ok, h)" by fastforce
  have "proper_visit [n]" "rel_path [n] = n" using Cons.prems(1) by (simp_all add: proper_visit_def rel_path_def)
  then have "tree_only os nixisDir m (m\<lparr>mcHost := h\<rparr>)"
    using copyFile_frame(1) [OF c] child_in_tree [OF assms(1), of "[n]" os] by (simp add: tree_only_def touches_def) metis
  then show ?case
    using Cons.IH [of "m\<lparr>mcHost := h\<rparr>"] Cons.prems by (cases ok) (auto simp: c tree_only_def intro: touches_trans)
qed (simp add: tree_only_def)

lemma make_all_touches: "make_all os ds m = (r, m') \<Longrightarrow> touches ps m m'"
proof (induction ds arbitrary: m)
  case (Cons d ds)
  obtain ok m1 where 1: "make_dirs os d m = (ok, m1)" by fastforce
  show ?case using Cons.IH [of m1] Cons.prems make_dirs_touches [OF 1, of ps] by (cases ok) (auto simp: 1 intro: touches_trans)
qed simp

lemma detect_member: "detectShellConfig fs homeDir sh \<in> shell_files homeDir \<union> {[]}"
  by (auto simp: detectShellConfig_def existing_def shell_files_def Let_def split: list.splits option.splits if_splits dest!: filter_eq_ConsD)

lemma shell_effect:
  assumes "shell_step os fl se homeDir nixisDir m = (r, m')"
  shows "mcSettings m' = mcSettings m" and "hFiles (mcHost m') p = hFiles (mcHost m) p \<or>
    (p \<in> shell_files homeDir \<and> (\<exists>data. hFiles (mcHost m) p = Some data \<and> hFiles (mcHost m') p = Some (data @ path_block (Base (seShell se)) nixisDir)))"
proof -
  let ?fs = "hFiles (mcHost m)" and ?cfg = "detectShellConfig (hFiles (mcHost m)) homeDir (seShell se)"
  have m': "m' = m\<lparr>mcHost := (mcHost m)\<lparr>hFiles := fst (patchShellPATH (sfDryRun fl) (osOK os OpWrite ?cfg) homeDir (seShell se) (sePath se) nixisDir ?fs)\<rparr>\<rparr>"
    using assms by (simp add: shell_step_def Let_def)
  then show "mcSettings m' = mcSettings m" by simp
  show "hFiles (mcHost m') p = ?fs p \<or>
    (p \<in> shell_files homeDir \<and> (\<exists>data. ?fs p = Some data \<and> hFiles (mcHost m') p = Some (data @ path_block (Base (seShell se)) nixisDir)))"
    using detect_member [of ?fs homeDir "seShell se"] by (cases "?fs ?cfg") (auto simp: m' patchShellPATH_def Let_def)
qed

text \<open>What setup writes apart from shell configurations: the nixis directory and the service file.\<close>

definition setup_files :: "Os \<Rightarrow> string \<Rightarrow> string \<Rightarrow> string set" where
  "setup_files os servicePath nixisDir = {p. in_tree (abs_path os nixisDir) p} \<union> {abs_path os servicePath}"

lemma run_steps_touches:
  assumes "\<forall>s \<in> set ss. \<forall>m r m'. s m = (r, m') \<longrightarrow> R m m'" and "\<And>m. R m m" and "\<And>a b c. R a b \<Longrightarrow> R b c \<Longrightarrow> R a c"
    and "run_steps ss m = (r, m')"
  shows "R m m'"
  using assms(1,4)
proof (induction ss arbitrary: m)
  case (Cons s ss)
  obtain e m1 where s: "s m = (e, m1)" by fastforce
  then show ?case using Cons assms(3) [of m m1 m'] by (cases e) auto
qed (simp add: assms(2))

lemma run_steps_snoc: "run_steps (ss @ [s]) m = (case run_steps ss m of (None, m') \<Rightarrow> s m' | (Some e, m') \<Rightarrow> (Some e, m'))"
  by (induction ss arbitrary: m) (auto split: prod.split option.split)

text \<open>The settings stay, or get the hook.\<close>

definition hooked :: "string \<Rightarrow> SettingsFile \<Rightarrow> SettingsFile \<Rightarrow> bool" where
  "hooked hookPath a b \<longleftrightarrow> b = a \<or>
    (\<exists>s. (a = ParsedSettings (JObj s) \<or> a = NoSettings \<and> s = []) \<and> b = ParsedSettings (JObj (patched hookPath s)))"

lemma update_again: "AList.update k v (AList.update k w xs) = AList.update k v xs"
  by (induction xs) auto

lemma patched_again: "patched hookPath (patched hookPath s) = patched hookPath s"
  using hooks_of_patched [of hookPath s] unfolding patched_def [of hookPath "patched hookPath s"]
  by (simp add: update_again) (simp add: patched_def Let_def update_again split: option.split)

lemma hooked_refl [simp]: "hooked h a a"
  by (simp add: hooked_def)

lemma hooked_trans: "hooked h a b \<Longrightarrow> hooked h b c \<Longrightarrow> hooked h a c"
  using patched_again by (auto simp: hooked_def)

definition sets_up :: "string set \<Rightarrow> string \<Rightarrow> Machine \<Rightarrow> Machine \<Rightarrow> bool" where
  "sets_up ps hookPath m m' \<longleftrightarrow> hooked hookPath (mcSettings m) (mcSettings m') \<and> (\<forall>p. p \<notin> ps \<longrightarrow> hFiles (mcHost m') p = hFiles (mcHost m) p)"

lemma touches_sets_up: "touches qs m m' \<Longrightarrow> qs \<subseteq> ps \<Longrightarrow> sets_up ps h m m'"
  by (auto simp: touches_def sets_up_def hooked_def)

lemma settings_step_sets_up:
  assumes "settings_step os fl se homeDir hookPath m = (r, m')"
  shows "sets_up ps hookPath m m'"
proof -
  obtain ok m1 where 1: "(if mcSettings m = NoSettings then make_dirs os (Dir (settingsJSONPath homeDir)) m else (True, m)) = (ok, m1)" by fastforce
  have "touches {} m m1" using 1 make_dirs_touches by (auto split: if_splits)
  then have m1: "mcSettings m1 = mcSettings m" "hFiles (mcHost m1) = hFiles (mcHost m)" by (auto simp: touches_def)
  have w: "hooked hookPath (mcSettings m) (ParsedSettings (JObj s))" if "patchSettingsJSON dry yes ok' hookPath (mcSettings m) = SettingsWritten s" for dry yes ok' s
    using that by (auto simp: patchSettingsJSON_def hooked_def Let_def split: SettingsFile.splits json.splits if_splits)
  show ?thesis
    using assms m1 w by (auto simp: settings_step_def 1 Let_def sets_up_def split: if_splits SettingsResult.splits)
qed

lemma base_root: "list_all plain_name cs \<Longrightarrow> base_comps (root_path cs) = cs"
proof (cases "cs = []")
  case False
  assume cs: "list_all plain_name cs"
  have "Split (root_path cs) CHR ''/'' = [] # cs"
    using Split_sep [of "[]" "CHR ''/''" "JoinStrings cs ''/''"] Split_plain [OF cs False] by (simp add: root_path_def Split_def)
  then show ?thesis using clean_comps_plain [OF cs, of True "[]"] by (simp add: base_comps_def)
qed (simp add: base_comps_def root_path_def Split_def)

lemma below_child:
  assumes "proper_dir d" and "proper_visit cs" and "below (filepath_Join [d, rel_path cs]) p"
  shows "in_tree (abs_path os d) p"
proof -
  have d: "IsAbs d" "base_comps d \<noteq> []" using assms(1) by (auto simp: proper_dir_def)
  have "list_all plain_name (base_comps d @ cs)" using base_plain [of d] assms(2) by (simp add: proper_visit_def)
  then have "base_comps (filepath_Join [d, rel_path cs]) = base_comps d @ cs" unfolding Join_rel [OF d(1) assms(2)] by (rule base_root)
  then obtain ds where "proper_visit ds" "p = root_path (base_comps d @ cs @ ds)" using assms(3) by (auto simp: below_def)
  then have "below d p" using assms(2) unfolding below_def by (intro exI [of _ "cs @ ds"]) (auto simp: proper_visit_def)
  then show ?thesis using below_in_tree [OF d(2)] abs_base [OF d(1)] by simp
qed

lemma plain_names: "plain_name ''policies''" "\<forall>n \<in> set binaries. plain_name n" "plain_name ''nixis-hook-wrapper.sh''" "plain_name ''audit.log''"
  by (simp_all add: plain_name_def binaries_def)

lemma child_name: "plain_name n \<Longrightarrow> proper_visit [n] \<and> rel_path [n] = n"
  by (simp add: proper_visit_def rel_path_def)

lemma policies_touches:
  assumes "proper_dir nixisDir" and "proper_walk (seVisits se)" and "policies_step os fl se (filepath_Join [nixisDir, ''policies'']) m = (r, m')"
  shows "tree_only os nixisDir m m'"
proof -
  let ?dest = "filepath_Join [nixisDir, ''policies'']"
  have c: "proper_visit [''policies'']" "rel_path [''policies''] = ''policies''" using child_name plain_names(1) by auto
  have a: "IsAbs ?dest" using Join_rel [of nixisDir "[''policies'']"] c assms(1) by (simp add: proper_dir_def IsAbs_def root_path_def HasPrefix_def)
  have "hFiles h' p = hFiles h p" if "copyPolicies os dry src ?dest (seVisits se) h = (ok, h')" "\<not> in_tree (abs_path os nixisDir) p" for dry src h ok h' p
  proof -
    have "\<not> below ?dest p" using below_child [OF assms(1) c(1), of p os] c(2) that(2) by auto
    then show ?thesis using copy_frame [OF a assms(2) _, of os src h _ h'] that(1) by (auto simp: copyPolicies_def split: if_splits)
  qed
  then show ?thesis
    using assms(3) by (auto simp: policies_step_def Let_def tree_only_def touches_def split: prod.splits)
qed

lemma stale_touches:
  assumes "proper_dir nixisDir" and "stale_step os fl nixisDir m = (r, m')"
  shows "tree_only os nixisDir m m'"
proof -
  have rm: "tree_only os nixisDir k (snd (remove_file os (filepath_Join [nixisDir, n]) k))" if "plain_name n" for n k
  proof -
    have "touches {abs_path os (filepath_Join [nixisDir, n])} k (snd (remove_file os (filepath_Join [nixisDir, n]) k))"
      by (rule remove_touches [OF prod.collapse [symmetric]])
    then show ?thesis
      using child_in_tree(1) [OF assms(1), of "[n]" os] child_name [OF that] by (auto simp: tree_only_def intro: touches_mono)
  qed
  show ?thesis
    using assms(2) rm [OF plain_names(3), of m] rm [OF plain_names(4), of "snd (remove_file os (filepath_Join [nixisDir, ''nixis-hook-wrapper.sh'']) m)"]
    by (auto simp: stale_step_def tree_only_def split: if_splits intro: touches_trans)
qed

lemma deploy_step_touches:
  assumes "proper_dir nixisDir" and "deploy_step os fl source nixisDir m = (r, m')"
  shows "tree_only os nixisDir m m'"
proof -
  obtain ok m1 where 1: "make_dirs os nixisDir m = (ok, m1)" by fastforce
  have "tree_only os nixisDir m m1" using make_dirs_touches [OF 1] by (simp add: tree_only_def)
  moreover have "tree_only os nixisDir m1 m2" if "deploy_all os source nixisDir binaries m1 = (r, m2)" for m2
    using deploy_touches [OF assms(1) plain_names(2) that] .
  ultimately show ?thesis
    using assms(2) by (auto simp: deploy_step_def 1 tree_only_def split: if_splits intro: touches_trans)
qed

section \<open>What uninstalling restores\<close>

definition clean_text :: "string \<Rightarrow> string" where
  "clean_text data = (let (result, modified) = remove_lines [] False False (Split data newline) in if modified then JoinStrings result [newline] else data)"

lemma removeNixisLines_at: "fst (removeNixisLines cfg fs) p = (if p = cfg then map_option clean_text (fs p) else fs p)"
  by (auto simp: removeNixisLines_def clean_text_def case_prod_beta Let_def split: option.splits)

lemma clean_text_plain: "\<not> Contains data marker \<Longrightarrow> clean_text data = data"
proof -
  assume "\<not> Contains data marker"
  then have "\<forall>l \<in> set (Split data newline). \<not> Contains l marker" using Split_piece by (metis Contains_iff append_assoc)
  from remove_lines_clean [OF this, of "[]" False "[]"] show "clean_text data = data" by (simp add: clean_text_def)
qed

lemma marker_not_in_newline: "\<not> Contains data marker \<Longrightarrow> \<not> Contains (data @ [newline]) marker"
proof
  assume n: "\<not> Contains data marker" and "Contains (data @ [newline]) marker"
  then obtain u v where uv: "data @ [newline] = u @ marker @ v" by (auto simp: Contains_iff)
  have "v \<noteq> []" using arg_cong [OF uv, of last] by (auto simp: marker_def newline_def)
  then have "data = u @ marker @ butlast v" using arg_cong [OF uv, of butlast] by (simp add: butlast_append)
  then show False using n by (metis Contains_iff)
qed

text \<open>A text without Nixis lines, with or without a newline more at its end.\<close>

definition same_text :: "string \<Rightarrow> string option \<Rightarrow> bool" where
  "same_text data x \<longleftrightarrow> x = Some data \<or> x = Some (data @ [newline])"

lemma clean_same_text: "\<not> Contains data marker \<Longrightarrow> same_text data x \<Longrightarrow> same_text data (map_option clean_text x)"
  by (auto simp: same_text_def clean_text_plain marker_not_in_newline)

lemma clean_block:
  assumes "\<not> Contains data marker" and "newline \<notin> set nixisDir"
  shows "same_text data (Some (clean_text (data @ path_block shell nixisDir)))"
proof -
  have "newline \<notin> set (path_line shell nixisDir)" using assms(2) by (simp add: path_line_def newline_def)
  from remove_block [OF assms(1) this] show ?thesis by (simp add: clean_text_def path_block_def same_text_def case_prod_beta Let_def)
qed

lemma clean_all_same_text:
  assumes "\<not> Contains data marker" and "newline \<notin> set nixisDir" and "p \<in> set (cleaned_configs homeDir)"
    and "fs p = Some data \<or> fs p = Some (data @ path_block shell nixisDir)"
  shows "same_text data (cleanShellConfigs homeDir fs p)"
proof -
  have "same_text data (fs p) \<or> (p \<in> set cs \<and> fs p = Some (data @ path_block shell nixisDir)) \<Longrightarrow>
      same_text data (foldl (\<lambda>fs cfg. fst (removeNixisLines cfg fs)) fs cs p)" for cs
  proof (induction cs arbitrary: fs)
    case (Cons c cs)
    show ?case
      unfolding foldl_Cons using Cons.prems clean_same_text [OF assms(1), of "fs p"] clean_block [OF assms(1,2), of shell]
      by (intro Cons.IH) (auto simp: removeNixisLines_at)
  qed simp
  then show ?thesis using assms(3,4) by (auto simp: cleanShellConfigs_def same_text_def)
qed

lemma clean_keeps_absent: "fs p = None \<Longrightarrow> cleanShellConfigs homeDir fs p = None"
proof -
  have "fs p = None \<Longrightarrow> foldl (\<lambda>fs cfg. fst (removeNixisLines cfg fs)) fs cs p = None" for cs
  proof (induction cs arbitrary: fs)
    case (Cons c cs)
    then show ?case unfolding foldl_Cons by (intro Cons.IH) (auto simp: removeNixisLines_at)
  qed simp
  then show "fs p = None \<Longrightarrow> cleanShellConfigs homeDir fs p = None" by (simp add: cleanShellConfigs_def)
qed

lemma unpatch_untouched:
  assumes "distinct (map fst s)" and "has_other_hooks s"
  shows "unpatchSettingsJSON False (ParsedSettings (JObj s)) \<in> {SettingsUnchanged, SettingsWritten s}"
proof (cases "map_of s ''hooks''")
  case (Some v)
  then obtain hs where v: "v = JObj hs" "hs \<noteq> []" "''PreToolUse'' \<notin> fst ` set hs" using assms(2) by (auto simp: has_other_hooks_def)
  have "AList.update ''hooks'' (JObj hs) s = s" using Some v(1) by (simp add: update_triv)
  then show ?thesis using Some v by (simp add: unpatchSettingsJSON_def hooks_of_def unpatched_def delete_fresh Let_def)
qed (simp add: unpatchSettingsJSON_def hooks_of_def)

lemma unpatch_settings_same [simp]: "mcHost (unpatch_settings os dry homeDir m) = mcHost m"
  by (simp add: unpatch_settings_def split: SettingsResult.split)

lemma unpatch_hooked:
  assumes "distinct (map fst s)" and "has_other_hooks s" and "hooked h (ParsedSettings (JObj s)) (mcSettings m)"
    and "osOK os OpWrite (abs_path os (settingsJSONPath homeDir))"
  shows "mcSettings (unpatch_settings os False homeDir m) = ParsedSettings (JObj s)"
  using assms(3,4) unpatch_untouched [OF assms(1,2)] unpatch_patched [OF assms(1,2), of h]
  by (auto simp: hooked_def unpatch_settings_def)

lemma nixis_proper: "IsAbs homeDir \<Longrightarrow> proper_dir (filepath_Join [homeDir, ''.nixis''])"
proof -
  assume a: "IsAbs homeDir"
  have c: "proper_visit [''.nixis'']" "rel_path [''.nixis''] = ''.nixis''" using child_name [of "''.nixis''"] by (simp_all add: plain_name_def)
  have n: "filepath_Join [homeDir, ''.nixis''] = root_path (base_comps homeDir @ [''.nixis''])" using Join_rel [OF a c(1)] c(2) by simp
  have "list_all plain_name (base_comps homeDir @ [''.nixis''])" using base_plain [of homeDir] by (simp add: plain_name_def)
  then show ?thesis unfolding proper_dir_def n by (simp add: base_root) (simp add: IsAbs_def root_path_def HasPrefix_def)
qed

lemma cleaned_shell_files: "set (cleaned_configs homeDir) \<subseteq> shell_files homeDir"
  by (auto simp: cleaned_configs_def shell_files_def)

text \<open>What is left of a setup after uninstalling: nothing of its own; the settings and all other files are as before; the shell configurations that
  had no Nixis lines have their text, perhaps with a newline more at the end.\<close>

definition restored :: "Os \<Rightarrow> string \<Rightarrow> string \<Rightarrow> Machine \<Rightarrow> Machine \<Rightarrow> bool" where
  "restored os servicePath homeDir m m' \<longleftrightarrow>
    (let F = setup_files os servicePath (filepath_Join [homeDir, ''.nixis'']); before = hFiles (mcHost m); after = hFiles (mcHost m') in
     mcSettings m' = mcSettings m \<and>
     (\<forall>p \<in> F. after p = None) \<and>
     (\<forall>p. p \<notin> F \<and> p \<notin> shell_files homeDir \<and> p \<noteq> abs_path os ''/tmp/nixis.sock'' \<longrightarrow> after p = before p) \<and>
     (\<forall>p data. p \<in> set (cleaned_configs homeDir) \<and> p \<notin> F \<and> p \<noteq> abs_path os ''/tmp/nixis.sock'' \<and> before p = Some data \<and> \<not> Contains data marker \<longrightarrow>
        same_text data (after p)))"

lemma restoredD:
  assumes "restored os servicePath homeDir m m'"
  shows "mcSettings m' = mcSettings m"
    and "p \<in> setup_files os servicePath (filepath_Join [homeDir, ''.nixis'']) \<Longrightarrow> hFiles (mcHost m') p = None"
    and "p \<notin> setup_files os servicePath (filepath_Join [homeDir, ''.nixis'']) \<Longrightarrow> p \<notin> shell_files homeDir \<Longrightarrow> p \<noteq> abs_path os ''/tmp/nixis.sock'' \<Longrightarrow>
      hFiles (mcHost m') p = hFiles (mcHost m) p"
    and "p \<in> set (cleaned_configs homeDir) \<Longrightarrow> p \<notin> setup_files os servicePath (filepath_Join [homeDir, ''.nixis'']) \<Longrightarrow>
      p \<noteq> abs_path os ''/tmp/nixis.sock'' \<Longrightarrow> hFiles (mcHost m) p = Some data \<Longrightarrow> \<not> Contains data marker \<Longrightarrow> same_text data (hFiles (mcHost m') p)"
  using assms by (auto simp: restored_def Let_def)

context service_manager
begin

lemma lifecycle_runs:
  assumes "lifecycle_step fl se m = (r, m')" and "seService se = sv"
  shows "touches {} m m'"
proof -
  have st: "mcHost (snd (svStatusTimeout sv k)) = mcHost k" "mcSettings (snd (svStatusTimeout sv k)) = mcSettings k"
    "mcHost (snd (svStart sv k)) = mcHost k" "mcSettings (snd (svStart sv k)) = mcSettings k"
    "mcHost (snd (svStopTimeout sv k)) = mcHost k" "mcSettings (snd (svStopTimeout sv k)) = mcSettings k" for k
    using status_runs(2) [of k] start_runs [of k] stop_runs(2) [of k] by (simp_all add: only_runs_def)
  have "mcHost m' = mcHost m \<and> mcSettings m' = mcSettings m"
    using assms(1) by (auto simp: lifecycle_step_def assms(2) Let_def case_prod_beta st split: if_splits)
  then show ?thesis by (simp add: touches_def)
qed

lemma install_frame:
  assumes "proper_dir nixisDir" and "proper_walk (seVisits se)" and "seService se = sv"
    and "runInstall os fl se homeDir nixisDir m = (r, m')"
  obtains k e where "sets_up (setup_files os (svPath sv) nixisDir) (filepath_Join [nixisDir, ''nixis-hook'']) m k"
    and "m' = k \<or> shell_step os fl se homeDir nixisDir k = (e, m')"
proof -
  let ?F = "setup_files os (svPath sv) nixisDir" and ?h = "filepath_Join [nixisDir, ''nixis-hook'']"
  let ?source = "\<lambda>name. findBinary os (seLookPath se) homeDir name m" and ?dest = "filepath_Join [nixisDir, ''policies'']"
  have tree: "{p. in_tree (abs_path os nixisDir) p} \<subseteq> ?F" "{abs_path os (svPath sv)} \<subseteq> ?F" "{} \<subseteq> ?F"
    by (auto simp: setup_files_def)
  let ?ss = "[detect_step fl ?source, deploy_step os fl ?source nixisDir, dirs_step os fl ?dest, policies_step os fl se ?dest,
           service_step fl se ?dest, lifecycle_step fl se, settings_step os fl se homeDir ?h, smoke_step fl se nixisDir,
           stale_step os fl nixisDir]"
  have 1: "sets_up ?F ?h k k'" if "detect_step fl ?source k = (e, k')" for k e k'
    using that by (auto simp: detect_step_def sets_up_def split: if_splits list.splits)
  have 2: "sets_up ?F ?h k k'" if "deploy_step os fl ?source nixisDir k = (e, k')" for k e k'
    using deploy_step_touches [OF assms(1) that] touches_sets_up tree(1) by (simp add: tree_only_def)
  have 3: "sets_up ?F ?h k k'" if "dirs_step os fl ?dest k = (e, k')" for k e k'
    using that make_all_touches [of os _ k e k' ?F] touches_sets_up [of ?F k k' ?F] by (auto simp: dirs_step_def simp del: make_all.simps split: if_splits)
  have 4: "sets_up ?F ?h k k'" if "policies_step os fl se ?dest k = (e, k')" for k e k'
    using policies_touches [OF assms(1,2) that] touches_sets_up tree(1) by (simp add: tree_only_def)
  have 5: "sets_up ?F ?h k k'" if "service_step fl se ?dest k = (e, k')" for k e k'
    using that install_touches [of False "seAnswerService se" ?dest "sfYes fl" k] touches_sets_up [OF _ tree(2)]
    by (auto simp: service_step_def assms(3) Let_def sets_up_def split: if_splits prod.splits)
  have 6: "sets_up ?F ?h k k'" if "lifecycle_step fl se k = (e, k')" for k e k'
    using lifecycle_runs [OF that assms(3)] touches_sets_up by blast
  have 8: "sets_up ?F ?h k k'" if "smoke_step fl se nixisDir k = (e, k')" for k e k'
    using that by (auto simp: smoke_step_def runSmokeTest_def case_prod_beta Let_def sets_up_def)
  have 9: "sets_up ?F ?h k k'" if "stale_step os fl nixisDir k = (e, k')" for k e k'
    using stale_touches [OF assms(1) that] touches_sets_up tree(1) by (simp add: tree_only_def)
  have all: "\<forall>s \<in> set ?ss. \<forall>k e k'. s k = (e, k') \<longrightarrow> sets_up ?F ?h k k'"
    using 1 2 3 4 5 6 settings_step_sets_up 8 9 by simp
  obtain e k where k: "run_steps ?ss m = (e, k)" by fastforce
  have "sets_up ?F ?h m k" by (rule run_steps_touches [OF all _ _ k]) (auto simp: sets_up_def intro: hooked_trans)
  moreover have "run_steps (?ss @ [shell_step os fl se homeDir nixisDir]) m = (r, m')" using assms(4) by (simp only: runInstall_def Let_def append_Cons append_Nil)
  then have "m' = k \<or> shell_step os fl se homeDir nixisDir k = (r, m')" by (cases e) (simp_all add: run_steps_snoc k del: append_Cons run_steps.simps)
  ultimately show ?thesis by (rule that)
qed


lemma uninstall_effect:
  assumes "seService se = sv" and "runUninstallCmd os True force se (Some homeDir) m = (r, m')"
    and "osOK os OpRemove (abs_path os (svPath sv))" and "osOK os OpRemove (abs_path os (filepath_Join [homeDir, ''.nixis'']))"
  obtains k fs where "mcSettings k = mcSettings m" and "mcSettings m' = mcSettings (unpatch_settings os False homeDir k)"
    and "\<forall>p. p \<noteq> abs_path os (svPath sv) \<longrightarrow> fs p = hFiles (mcHost m) p" and "fs (abs_path os (svPath sv)) = None"
    and "\<forall>p. hFiles (mcHost m') p = (if in_tree (abs_path os (filepath_Join [homeDir, ''.nixis''])) p then None
      else if p = abs_path os ''/tmp/nixis.sock'' \<and> osOK os OpRemove p then None else cleanShellConfigs homeDir fs p)"
proof -
  define m1 where "m1 = (if force then force_kill (seRunner se) m
     else let (e, m') = svStopTimeout (seService se) m in if e \<noteq> None then force_kill (seRunner se) m' else m')"
  have m1: "mcHost m1 = mcHost m" "mcSettings m1 = mcSettings m"
    using stop_runs(2) [of m] by (auto simp: m1_def assms(1) case_prod_beta Let_def only_runs_def)
  define m2 where "m2 = snd (svUninstall sv m1)"
  have t: "touches {abs_path os (svPath sv)} m1 m2" unfolding m2_def by (rule uninstall_touches [OF prod.collapse [symmetric]])
  define m3 where "m3 = unpatch_settings os False homeDir m2"
  define m4 where "m4 = m3\<lparr>mcHost := (mcHost m3)\<lparr>hFiles := cleanShellConfigs homeDir (hFiles (mcHost m3))\<rparr>\<rparr>"
  define m5 where "m5 = snd (remove_file os ''/tmp/nixis.sock'' m4)"
  have m': "m' = m5\<lparr>mcHost := RemoveAll (abs_path os (filepath_Join [homeDir, ''.nixis''])) (mcHost m5)\<rparr>"
    using assms(2,4) unfolding m5_def m4_def m3_def m2_def m1_def by (simp add: runUninstallCmd_def remove_tree_def assms(1) Let_def)
  have m5: "mcSettings m5 = mcSettings m3"
    "hFiles (mcHost m5) p = (if p = abs_path os ''/tmp/nixis.sock'' \<and> osOK os OpRemove p then None else cleanShellConfigs homeDir (hFiles (mcHost m2)) p)" for p
    by (auto simp: m5_def m4_def m3_def remove_file_def)
  show ?thesis
  proof (rule that [of m2 "hFiles (mcHost m2)"])
    show "mcSettings m2 = mcSettings m" using t m1 by (simp add: touches_def)
    show "mcSettings m' = mcSettings (unpatch_settings os False homeDir m2)" using m' m5(1) by (simp add: m3_def)
    show "\<forall>p. p \<noteq> abs_path os (svPath sv) \<longrightarrow> hFiles (mcHost m2) p = hFiles (mcHost m) p"
      using t m1 by (simp add: touches_def)
    show "hFiles (mcHost m2) (abs_path os (svPath sv)) = None" using uninstall_removes [OF assms(3)] by (simp add: m2_def)
    show "\<forall>p. hFiles (mcHost m') p = (if in_tree (abs_path os (filepath_Join [homeDir, ''.nixis''])) p then None
      else if p = abs_path os ''/tmp/nixis.sock'' \<and> osOK os OpRemove p then None else cleanShellConfigs homeDir (hFiles (mcHost m2)) p)"
      using m5(2) by (simp add: m' RemoveAll_def in_tree_def)
  qed
qed

lemma install_uninstall:
  assumes env: "IsAbs homeDir" "newline \<notin> set (filepath_Join [homeDir, ''.nixis''])" "proper_walk (seVisits se)" "seService se = sv" "seService se' = sv"
    and ok: "osOK os OpRemove (abs_path os (svPath sv))" "osOK os OpRemove (abs_path os (filepath_Join [homeDir, ''.nixis'']))"
      "osOK os OpWrite (abs_path os (settingsJSONPath homeDir))"
    and settings: "mcSettings m = ParsedSettings (JObj s)" "distinct (map fst s)" "has_other_hooks s"
    and runs: "runSetup os fl se False (Some homeDir) m = (r, m1)" "runUninstallCmd os True force se' (Some homeDir) m1 = (r', m2)"
  shows "restored os (svPath sv) homeDir m m2"
proof -
  let ?nixis = "filepath_Join [homeDir, ''.nixis'']" and ?F = "setup_files os (svPath sv) (filepath_Join [homeDir, ''.nixis''])"
  obtain k e where k: "sets_up ?F (filepath_Join [?nixis, ''nixis-hook'']) m k" and e: "m1 = k \<or> shell_step os fl se homeDir ?nixis k = (e, m1)"
    using install_frame [OF nixis_proper [OF env(1)] env(3,4), of fl homeDir m r m1] runs(1) by (auto simp: runSetup_def)
  have m1: "mcSettings m1 = mcSettings k" "hFiles (mcHost m1) p = hFiles (mcHost k) p \<or>
    (p \<in> shell_files homeDir \<and> (\<exists>data. hFiles (mcHost k) p = Some data \<and> hFiles (mcHost m1) p = Some (data @ path_block (Base (seShell se)) ?nixis)))" for p
    using e shell_effect [of os fl se homeDir ?nixis k e m1] by auto
  obtain j fs where j: "mcSettings j = mcSettings m1" "mcSettings m2 = mcSettings (unpatch_settings os False homeDir j)"
    and fs: "\<forall>p. p \<noteq> abs_path os (svPath sv) \<longrightarrow> fs p = hFiles (mcHost m1) p" "fs (abs_path os (svPath sv)) = None"
    and m2: "\<forall>p. hFiles (mcHost m2) p = (if in_tree (abs_path os ?nixis) p then None
      else if p = abs_path os ''/tmp/nixis.sock'' \<and> osOK os OpRemove p then None else cleanShellConfigs homeDir fs p)"
    by (rule uninstall_effect [OF env(5) runs(2) ok(1,2)]) blast
  have "mcSettings m2 = mcSettings m"
    using unpatch_hooked [OF settings(2,3) _ ok(3), where m = j and h = "filepath_Join [?nixis, ''nixis-hook'']"] k j m1(1) settings(1) by (simp add: sets_up_def)
  moreover have "hFiles (mcHost m2) p = None" if "p \<in> ?F" for p
    using that fs(2) clean_keeps_absent [of fs p homeDir] by (auto simp: m2 setup_files_def)
  moreover have "hFiles (mcHost m2) p = hFiles (mcHost m) p" if "p \<notin> ?F" "p \<notin> shell_files homeDir" "p \<noteq> abs_path os ''/tmp/nixis.sock''" for p
    using that k m1(2) [of p] fs(1) clean_frame [of p homeDir fs] cleaned_shell_files [of homeDir]
    by (auto simp: m2 sets_up_def setup_files_def)
  moreover have "same_text data (hFiles (mcHost m2) p)"
    if "p \<in> set (cleaned_configs homeDir)" "p \<notin> ?F" "p \<noteq> abs_path os ''/tmp/nixis.sock''" "hFiles (mcHost m) p = Some data" "\<not> Contains data marker" for p data
    using that k m1(2) [of p] fs(1) clean_all_same_text [OF that(5) env(2) that(1), of fs "Base (seShell se)"]
    by (auto simp: m2 sets_up_def setup_files_def)
  ultimately show ?thesis by (auto simp: restored_def)
qed

end


definition demo_machine :: Machine where
  "demo_machine =
     \<lparr>mcHost = \<lparr>hFiles = [''/work/bin/nixis'' \<mapsto> ''a'', ''/work/bin/nixis-hook'' \<mapsto> ''b'', ''/work/bin/nixis-daemon'' \<mapsto> ''c'', ''/h/notes'' \<mapsto> ''text'',
                        ''/h/.zshrc'' \<mapsto> ''alias ll=ls''],
               hModes = Map.empty, hDirs = {}\<rparr>,
      mcSettings = ParsedSettings (JObj [(''model'', JStr ''opus'')]), mcTrace = []\<rparr>"

definition demo_setup :: SetupEnv where
  "demo_setup = \<lparr>seService = linux_service demo_os (\<lambda>_ _. \<lparr>exOK = True, exOut = [], exLate = False\<rparr>) ''/h'',
     seRunner = (\<lambda>_ _. \<lparr>exOK = True, exOut = [], exLate = False\<rparr>), seAnswerService = ''y'', seAnswerSettings = ''y'', seAnswerRemove = ''y'',
     seShell = ''/bin/zsh'', sePath = ''/bin'', seVisits = [], seLookPath = (\<lambda>_. None)\<rparr>"

definition demo_setup_flags :: SetupFlags where
  "demo_setup_flags = \<lparr>sfYes = True, sfDryRun = False, sfPolicyDir = [], sfSkipBinaries = False\<rparr>"


section \<open>Dry runs\<close>

definition unchanged :: "Machine \<Rightarrow> Machine \<Rightarrow> bool" where
  "unchanged m m' \<longleftrightarrow> hFiles (mcHost m') = hFiles (mcHost m) \<and> mcSettings m' = mcSettings m \<and> mcTrace m' = mcTrace m"

lemma make_dirs_unchanged: "unchanged m (snd (make_dirs os p m))"
  by (simp add: unchanged_def make_dirs_def MkdirAll_def)

text \<open>A dry run of setup changes no file and not the settings, and runs no program.\<close>

lemma dry_run_keeps:
  assumes "sfDryRun fl" and "runInstall os fl se homeDir nixisDir m = (r, m')"
  shows "unchanged m m'"
proof -
  have "run_steps ss k = (r, k') \<Longrightarrow> \<forall>s \<in> set ss. \<forall>k r k'. s k = (r, k') \<longrightarrow> unchanged k k' \<Longrightarrow> unchanged k k'" for ss k k'
    by (rule run_steps_touches [where R = unchanged]) (auto simp: unchanged_def)
  moreover have "unchanged k k'" if "deploy_step os fl source d k = (e, k')" for source d k e k'
    using that assms(1) make_dirs_unchanged [of k os d] by (auto simp: deploy_step_def Let_def case_prod_beta unchanged_def split: if_splits)
  moreover have "unchanged k k'" if "settings_step os fl se homeDir h k = (e, k')" for h k e k'
  proof -
    have "patchSettingsJSON True yes ok h f \<noteq> SettingsWritten s" for yes ok f s
      by (auto simp: patchSettingsJSON_def Let_def split: SettingsFile.splits json.splits)
    then show ?thesis
      using that assms(1) make_dirs_unchanged [of k os "Dir (settingsJSONPath homeDir)"]
      by (auto simp: settings_step_def Let_def case_prod_beta unchanged_def split: if_splits SettingsResult.splits)
  qed
  moreover have "unchanged k k'" if "policies_step os fl se d k = (e, k')" for d k e k'
    using that assms(1) by (auto simp: policies_step_def copyPolicies_def Let_def case_prod_beta unchanged_def)
  moreover have "unchanged k k'" if "shell_step os fl se homeDir nixisDir k = (e, k')" for k e k'
    using that assms(1) by (auto simp: shell_step_def patchShellPATH_def Let_def unchanged_def split: option.splits)
  moreover have "unchanged k k'" if "detect_step fl source k = (e, k')" for source k e k'
    using that by (auto simp: detect_step_def unchanged_def split: if_splits list.splits)
  ultimately show ?thesis
    using assms by (simp add: runInstall_def dirs_step_def service_step_def lifecycle_step_def smoke_step_def stale_step_def Let_def
        unchanged_def del: run_steps.simps)
qed

text \<open>But it creates the nixis directory.\<close>

lemma dry_run_creates_directory:
  assumes "\<not> sfSkipBinaries fl" and "sfDryRun fl" and "osOK os OpMkdir (abs_path os nixisDir)" and "deploy_step os fl source nixisDir m = (r, m')"
  shows "abs_path os nixisDir \<in> hDirs (mcHost m')"
  using assms by (auto simp: deploy_step_def make_dirs_def MkdirAll_def dirs_above_def)

end
