(* ===== verification/DaemonLabels.thy ===== *)
theory DaemonLabels
  imports Daemon
begin

text \<open>
  Session labels under the daemon.  The handler raises the session to the label the request carries
  after every answer that is not a denial; this never changes a label, because the engine has
  compared the session with that label before.  So the labels stay confined under all operations of
  the daemon, not only under those of the engine.
\<close>

section \<open>The labeler never sets the taint bit\<close>

lemma and_or_zero: "(a OR b) AND m = 0 \<longleftrightarrow> a AND m = 0 \<and> b AND m = 0" for a b m :: u32
  using or_and_nonzero [of a b m] by blast

definition untainted :: "SecurityLabel \<Rightarrow> bool" where
  "untainted l \<longleftrightarrow> Category l AND TaintBit = 0"

lemma classify_rules_untainted:
  "list_all (\<lambda>(mt, l, ty). untainted l) rules \<Longrightarrow> untainted (fst (classify_rules rules p))"
  by (induction rules) (auto simp: untainted_def split: if_splits)

lemma rules_untainted:
  "list_all (\<lambda>(mt, l, ty). untainted l) extDefaultPathRules"
  "list_all (\<lambda>(mt, l, ty). untainted l) extDefaultDomainRules"
  by code_simp+

lemma foldl_Join_untainted: "untainted l \<Longrightarrow> list_all untainted ls \<Longrightarrow> untainted (foldl Join l ls)"
  by (induction ls arbitrary: l) (auto simp: untainted_def and_or_zero)

lemma joinAll_untainted: "list_all untainted ls \<Longrightarrow> untainted (joinAll ls)"
  by (cases ls) (simp_all add: foldl_Join_untainted, simp add: untainted_def)

lemma Label_untainted: "untainted (ResourceLabel (Label parse req))"
  unfolding Label_paths(3) Label_paths(2)
  by (rule joinAll_untainted)
     (auto simp: list_all_iff classifyPath_def classifyDomain_def
        intro!: classify_rules_untainted rules_untainted [unfolded list_all_iff])

section \<open>What is not denied passed the label check\<close>

lemma run_stages_prefix:
  assumes "\<And>f s r. f \<in> set fs \<Longrightarrow> snd (f s) = Some r \<Longrightarrow> denied r"
    and "\<not> denied (snd (run_stages (fs @ gs) final s))"
  shows "\<exists>t. passes fs s t \<and> run_stages (fs @ gs) final s = run_stages gs final t"
  using assms
proof (induction fs arbitrary: s)
  case (Cons f fs)
  obtain t r where ft: "f s = (t, r)" by (cases "f s")
  have n: "r = None" using Cons.prems(1) [of f s] Cons.prems(2) ft by (cases r) auto
  have "\<exists>ta. passes fs t ta \<and> run_stages (fs @ gs) final t = run_stages gs final ta"
    by (rule Cons.IH) (use Cons.prems ft n in auto)
  then show ?case using ft n by auto
qed simp

lemma label_stages_deny:
  assumes "f \<in> set (take 6 (pipeline env inp snap req ctx))" "snd (f s) = Some r"
  shows "resp_action r = ActionDeny"
  using assms
  by (auto simp: pipeline_def session_stage_def taint_stage_def risk_stage_def schema_stage_def ifc_stage_def Let_def
      sink_stage_def case_prod_unfold sink_Decision_def split: if_splits option.splits)

lemma not_denied:
  assumes "resp_action (snd (Evaluate env inp req st)) \<noteq> ActionDeny"
  obtains snap where "esSnapshot st = Some snap"
    "Dominates (sessionLabelOf (decided_state inp req (prepare_context env snap req) st) (SessionID req))
       (ecResourceLabel (prepare_context env snap req))"
    "state_rel (decided_state inp req (prepare_context env snap req) st) (fst (Evaluate env inp req st))"
proof -
  have g: "guard_passes env req"
  proof (rule ccontr)
    assume "\<not> guard_passes env req"
    then obtain g d where "envGuard env = Some g" "SelfProtect_Check (envParse env) (envSymlinks env) g req = Some d"
      by (auto simp: guard_passes_def split: option.splits)
    then show False using guard_blocks [of env g req d inp st] assms by simp
  qed
  obtain snap where s: "esSnapshot st = Some snap"
    using assms g by (cases "esSnapshot st") (auto simp: Evaluate_def guard_passes_def split: option.splits)
  let ?ctx = "prepare_context env snap req"
  let ?p = "pipeline env inp snap req ?ctx" and ?f = "allow_stage inp req ?ctx"
  have split: "run_stages ?p ?f st = run_stages (take 6 ?p @ drop 6 ?p) ?f st" by simp
  have "resp_action (snd (run_stages (take 6 ?p @ drop 6 ?p) ?f st)) \<noteq> ActionDeny"
    using assms Evaluate_guarded [OF g s, of inp] by simp
  then obtain t where t: "passes (take 6 ?p) st t" "run_stages ?p ?f st = run_stages (drop 6 ?p) ?f t"
    using run_stages_prefix [of "take 6 ?p" "\<lambda>r. resp_action r = ActionDeny"] label_stages_deny split by metis
  have d: "t = decided_state inp req ?ctx st" "snd (ifc_stage inp req ?ctx t) = None"
    using t(1) by (auto simp: pipeline_def decided_state_def)
  have "Dominates (sessionLabelOf t (SessionID req)) (ecResourceLabel ?ctx)"
    using d(2) by (auto simp: ifc_stage_def Let_def split: if_splits)
  moreover have "state_rel t (fst (Evaluate env inp req st))"
    unfolding Evaluate_guarded [OF g s] t(2)
    by (rule engine_stages.run_sub_rel) (rule set_drop_subset)
  ultimately show ?thesis using that s d(1) by simp
qed

section \<open>The handler changes no label\<close>

lemma request_label_dominated:
  assumes "confined st" and "envLabeler env = Some (\<lambda>r _. Label (envParse env) r)"
    and "resp_action (snd (Evaluate env inp req st)) \<noteq> ActionDeny"
  shows "Dominates (sessionLabelOf (fst (Evaluate env inp req st)) (SessionID req)) (RequestLabel req)"
proof -
  obtain snap where n: "esSnapshot st = Some snap"
      "Dominates (sessionLabelOf (decided_state inp req (prepare_context env snap req) st) (SessionID req))
         (ecResourceLabel (prepare_context env snap req))"
      "state_rel (decided_state inp req (prepare_context env snap req) st) (fst (Evaluate env inp req st))"
    by (rule not_denied [OF assms(3)])
  let ?ctx = "prepare_context env snap req"
  let ?d = "decided_state inp req ?ctx st"
  have "confined ?d" using assms(1)
    by (simp add: decided_state_def taint_stage_def confined_maybeTaint confined_session_stage)
  then have l: "sessionLabelOf ?d (SessionID req) \<in> {zeroLabel, taintLabel}" by (simp add: confined_def)
  have "ResourceLabel (Label (envParse env) req) = zeroLabel"
  proof (rule ccontr)
    assume nz: "ResourceLabel (Label (envParse env) req) \<noteq> zeroLabel"
    then have "ecResourceLabel ?ctx = ResourceLabel (Label (envParse env) req)"
      by (simp add: prepare_context_def Let_def assms(2))
    with n(2) l have dom: "Dominates taintLabel (ResourceLabel (Label (envParse env) req))"
      using hwm.dom_bot hwm.dom_trans by (metis insert_iff singletonD)
    then have "Category (ResourceLabel (Label (envParse env) req)) AND TaintBit = Category (ResourceLabel (Label (envParse env) req))"
      by (simp add: Dominates_def taintLabel_def and.commute)
    with Label_untainted [of "envParse env" req] have "Category (ResourceLabel (Label (envParse env) req)) = 0"
      by (simp add: untainted_def)
    with dom nz show False by (simp add: Dominates_def taintLabel_def label_eq_iff)
  qed
  then have "ecResourceLabel ?ctx = RequestLabel req" by (simp add: prepare_context_def Let_def assms(2))
  with n(2) have "Dominates (sessionLabelOf ?d (SessionID req)) (RequestLabel req)" by simp
  with state_rel_label [OF n(3), of "SessionID req"] show ?thesis by (rule hwm.dom_trans)
qed

lemma persist_label_same:
  assumes "Dominates (sessionLabelOf (dmEngine d) (SessionID req)) (RequestLabel req)"
  shows "sessionLabelOf (dmEngine (persist_label now req resp d)) = sessionLabelOf (dmEngine d)"
proof (cases "esSessions (dmEngine d)")
  case (Some s)
  then have "elevateLabel (Current s (SessionID req)) (RequestLabel req) = Current s (SessionID req)"
    using assms by (simp add: sessionLabelOf_def hwm.elev_absorb)
  then show ?thesis using Some
    by (auto simp: persist_label_def Let_def on_sessions_def sessionLabelOf_def Current_Elevate fun_eq_iff)
qed (simp add: persist_label_def Let_def on_sessions_def)

lemma confined_handle:
  assumes "confined (dmEngine d)" and "envLabeler env = Some (\<lambda>r _. Label (envParse env) r)"
  shows "confined (dmEngine (fst (handleConnection env codec ci stream d)))"
proof -
  have serve: "confined (dmEngine (fst (serve_request env codec ci req d)))" for req
  proof -
    obtain eng resp where ev: "Evaluate env (ciEval ci) req (dmEngine d) = (eng, resp)" by fastforce
    let ?d0 = "d\<lparr>dmEngine := eng, dmEvaluations := dmEvaluations d + 1\<rparr>"
    have c: "confined eng" using confined_Evaluate [OF assms(1), of env "ciEval ci" req] ev by simp
    have "confined (dmEngine (persist_label (ciLabelTime ci) req resp ?d0))"
    proof (cases "resp_action resp = ActionDeny")
      case False
      have "Dominates (sessionLabelOf (dmEngine ?d0) (SessionID req)) (RequestLabel req)"
        using request_label_dominated [OF assms, of "ciEval ci" req] ev False by simp
      from persist_label_same [OF this, of "ciLabelTime ci" resp] c show ?thesis by (simp add: confined_def)
    qed (simp add: persist_label_def c)
    then show ?thesis by (simp add: serve_request_def ev Let_def split: option.split)
  qed
  show ?thesis
    using assms(1) serve by (auto simp: handleConnection_def split: sum.split ReadError.split option.split)
qed

section \<open>A running daemon\<close>

text \<open>Connections, approvals, maintenance, reloads, mode changes and the work of the audit goroutine, in any order.\<close>

inductive daemon_step :: "('ast, 'prog) EngineEnv \<Rightarrow> DaemonCodec \<Rightarrow> 'prog Daemon \<Rightarrow> 'prog Daemon \<Rightarrow> bool"
  for env :: "('ast, 'prog) EngineEnv" and codec where
  ds_conn: "daemon_step env codec d (fst (handleConnection env codec ci stream d))"
| ds_approve: "daemon_step env codec d (fst (handleApprove now meth path body d))"
| ds_rules: "daemon_step env codec d (prune_rules now d)"
| ds_history: "daemon_step env codec d (prune_history now d)"
| ds_reload: "daemon_step env codec d (d\<lparr>dmEngine := fst (Reload env now bundle (dmEngine d))\<rparr>)"
| ds_mode: "daemon_step env codec d (d\<lparr>dmMode := mode_Set now m reason (dmMode d)\<rparr>)"
| ds_audit: "writer_step sha (argCodec codec) (dmWriter d) w \<Longrightarrow> daemon_step env codec d (d\<lparr>dmWriter := w\<rparr>)"

inductive_cases daemon_stepE: "daemon_step env codec d d'"

abbreviation daemon_reach :: "('ast, 'prog) EngineEnv \<Rightarrow> DaemonCodec \<Rightarrow> 'prog Daemon \<Rightarrow> 'prog Daemon \<Rightarrow> bool" where
  "daemon_reach env codec \<equiv> (daemon_step env codec)\<^sup>*\<^sup>*"

lemma confined_approve: "confined (dmEngine d) \<Longrightarrow> confined (dmEngine (fst (handleApprove now meth path body d)))"
  by (simp add: handleApprove_def Let_def confined_same split: option.split)

lemma confined_daemon_step:
  assumes "daemon_step env codec d d'" and "envLabeler env = Some (\<lambda>r _. Label (envParse env) r)" and "confined (dmEngine d)"
  shows "confined (dmEngine d')"
  using assms(1)
  by (cases rule: daemon_step.cases)
     (use assms(2,3) in \<open>simp_all add: confined_handle confined_approve prune_rules_def prune_history_def confined_same confined_Reload\<close>)

lemma confined_daemon_reach:
  assumes "daemon_reach env codec d d'" and "envLabeler env = Some (\<lambda>r _. Label (envParse env) r)" and "confined (dmEngine d)"
  shows "confined (dmEngine d')"
  using assms(1) by (induction rule: rtranclp_induct) (auto intro: assms(3) confined_daemon_step [OF _ assms(2)])



end
