(* ===== verification/Bundle.thy ===== *)
theory Bundle
  imports PolicyFile EnginePolicies "HOL-Library.Multiset"
begin

text \<open>
  Policy bundles, \<^verbatim>\<open>internal/bundle\<close>: the activation state machine, the trusted keys, the store of bundles on disk and
  the loader that polls a source, verifies, extracts, compiles and checks a bundle and hands it to the engine.
  Files, HTTP answers, the tar reader and the clock are the record \<^verbatim>\<open>World\<close>; SHA-256 and Ed25519 are the
  parameters of delegation.  The engine is reached through \<^verbatim>\<open>PolicyReloader\<close>, the locale \<^verbatim>\<open>policy_reloader\<close>.
\<close>

section \<open>States and keys\<close>

datatype ActivationState = StateIdle | StateDownloading | StateVerifying | StateStaging | StateCompiling
  | StateHealthChecking | StateActivating | StateRollback | StateDenyAll | StateFetching | StateParsing | StateRollingBack

definition fsm_Transition :: "ActivationState \<Rightarrow> ActivationState \<Rightarrow> ActivationState \<Rightarrow> ActivationState option" where
  "fsm_Transition fr to current = (if current \<noteq> fr then None else Some to)"

definition NewKeySource :: "'key list \<Rightarrow> 'key list option" where
  "NewKeySource ks = (if ks = [] then None else Some ks)"

definition key_Verify :: "'key Crypto \<Rightarrow> 'key list \<Rightarrow> bytes \<Rightarrow> bytes \<Rightarrow> bool" where
  "key_Verify cr ks message sig = list_ex (\<lambda>pub. ed25519Verify cr pub message sig) ks"

section \<open>The store\<close>

record BundleManifest =
  ManHash :: string
  ManVersion :: u64
  ManPolicyCount :: nat
  StoredAt :: gotime

text \<open>A directory of the store; a file that is missing or does not decode is \<^const>\<open>None\<close>.\<close>

record store_entry =
  seContent :: "bytes option"
  seSig :: "bytes option"
  seManifest :: "BundleManifest option"

record bundleStore =
  stDirs :: "(string \<times> store_entry) list"
  stKeep :: int

definition newBundleStore :: "bool \<Rightarrow> (string \<times> store_entry) list \<Rightarrow> int \<Rightarrow> bundleStore option" where
  "newBundleStore mkdirFails dirs keep =
    (if mkdirFails then None else Some \<lparr>stDirs = dirs, stKeep = (if keep \<le> 0 then 3 else keep)\<rparr>)"

text \<open>The step of a save that fails, with what the failing write leaves behind.\<close>

datatype save_fault = SaveOk | SaveMkdirFails | SaveContentFails "bytes option" | SaveSigFails "bytes option"
  | SaveManifestFails "BundleManifest option"

definition store_save :: "save_fault \<Rightarrow> string \<Rightarrow> bytes \<Rightarrow> bytes \<Rightarrow> BundleManifest \<Rightarrow> bundleStore \<Rightarrow> bundleStore \<times> bool" where
  "store_save fault hashHex content sig manifest s =
    (let old = (case map_of (stDirs s) hashHex of Some e \<Rightarrow> e | None \<Rightarrow> \<lparr>seContent = None, seSig = None, seManifest = None\<rparr>);
         put = (\<lambda>e. s\<lparr>stDirs := AList.update hashHex e (stDirs s)\<rparr>)
     in case fault of
          SaveMkdirFails \<Rightarrow> (s, False)
        | SaveContentFails x \<Rightarrow> (put (old\<lparr>seContent := x\<rparr>), False)
        | SaveSigFails x \<Rightarrow> (put (old\<lparr>seContent := Some content, seSig := x\<rparr>), False)
        | SaveManifestFails x \<Rightarrow> (put (old\<lparr>seContent := Some content, seSig := Some sig, seManifest := x\<rparr>), False)
        | SaveOk \<Rightarrow> (put (old\<lparr>seContent := Some content, seSig := Some sig, seManifest := Some manifest\<rparr>), True))"

definition gc_candidates :: "(string \<times> store_entry) list \<Rightarrow> (string \<times> gotime) list" where
  "gc_candidates dirs = List.map_filter (\<lambda>(name, e). map_option (\<lambda>m. (name, StoredAt m)) (seManifest e)) dirs"

fun remove_dirs :: "(string \<Rightarrow> bool) \<Rightarrow> string list \<Rightarrow> (string \<times> store_entry) list \<Rightarrow> (string \<times> store_entry) list \<times> bool" where
  "remove_dirs fails [] dirs = (dirs, True)"
| "remove_dirs fails (n # ns) dirs = (if fails n then (dirs, False) else remove_dirs fails ns (AList.delete n dirs))"

text \<open>\<^verbatim>\<open>sort.Slice\<close> is a parameter: it sorts, but the order of entries with the same time is unspecified.\<close>

definition store_gc ::
    "((string \<times> gotime) list \<Rightarrow> (string \<times> gotime) list) \<Rightarrow> bool \<Rightarrow> (string \<Rightarrow> bool) \<Rightarrow> bundleStore \<Rightarrow> bundleStore \<times> bool" where
  "store_gc sortSlice readDirFails removeFails s =
    (if readDirFails then (s, False)
     else let candidates = gc_candidates (stDirs s) in
       if int (length candidates) \<le> stKeep s then (s, True)
       else let toDelete = take (length candidates - nat (stKeep s)) (sortSlice candidates);
                (dirs, ok) = remove_dirs removeFails (map fst toDelete) (stDirs s)
            in (s\<lparr>stDirs := dirs\<rparr>, ok))"

definition store_count :: "bool \<Rightarrow> bundleStore \<Rightarrow> nat" where
  "store_count readDirFails s = (if readDirFails then 0 else length (stDirs s))"

section \<open>The loader\<close>

datatype http_reply = HttpFails | HttpReply nat string "bytes option"

text \<open>An entry of the archive: a regular file with its content unless reading it fails, another kind of entry, or a
  broken header.\<close>

datatype tar_item = TarFile string "bytes option" | TarOther | TarBroken

record World =
  wStat :: "string \<Rightarrow> gotime option"
  wRead :: "string \<Rightarrow> bytes option"
  wHttp :: "string \<Rightarrow> string \<Rightarrow> http_reply"
  wMkdirTemp :: "string option"
  wGunzip :: "bytes \<Rightarrow> tar_item list option"
  wWriteFails :: "string \<Rightarrow> bool"
  wSaveFault :: save_fault
  wSaveTime :: gotime
  wManifestTime :: gotime
  wSort :: "(string \<times> gotime) list \<Rightarrow> (string \<times> gotime) list"
  wReadDirFails :: bool
  wRemoveFails :: "string \<Rightarrow> bool"

record ('key, 'e) BundleLoader =
  blSource :: string
  blKeys :: "'key list"
  blVectors :: "(CheckRequest \<times> Action) list"
  blEval :: "(CompiledBundle \<Rightarrow> CheckRequest \<Rightarrow> Action) option"
  blEngine :: 'e
  blFsm :: ActivationState
  blStore :: bundleStore
  blCurrent :: "BundleManifest option"
  blPrev :: "CompiledBundle option"
  blEtag :: string
  blMtime :: gotime

record 'key BundleConfig =
  SourceURL :: string
  PollInterval :: duration
  TrustedKeys :: "'key list"
  StorageDir :: string
  KeepCount :: int
  TestVectors :: "(CheckRequest \<times> Action) list"

datatype LoaderError = NoSourceURL | NoTrustedKey | NoStorageDir | StoreFailed

definition NewBundleLoader ::
    "bool \<Rightarrow> (string \<times> store_entry) list \<Rightarrow> 'key BundleConfig \<Rightarrow> 'e \<Rightarrow> LoaderError + duration \<times> ('key, 'e) BundleLoader" where
  "NewBundleLoader mkdirFails dirs cfg engine =
    (if SourceURL cfg = [] then Inl NoSourceURL
     else if TrustedKeys cfg = [] then Inl NoTrustedKey
     else let poll = (if PollInterval cfg \<le> 0 then 60 * second else PollInterval cfg);
              keep = (if KeepCount cfg \<le> 0 then 3 else KeepCount cfg) in
       if StorageDir cfg = [] then Inl NoStorageDir
       else case NewKeySource (TrustedKeys cfg) of
         None \<Rightarrow> Inl NoTrustedKey
       | Some keys \<Rightarrow> (case newBundleStore mkdirFails dirs keep of
           None \<Rightarrow> Inl StoreFailed
         | Some store \<Rightarrow> Inr (poll, \<lparr>blSource = SourceURL cfg, blKeys = keys, blVectors = TestVectors cfg, blEval = None,
             blEngine = engine, blFsm = StateIdle, blStore = store, blCurrent = None, blPrev = None, blEtag = [], blMtime = 0\<rparr>)))"

definition IsDenyAll :: "('key, 'e) BundleLoader \<Rightarrow> bool" where
  "IsDenyAll b \<longleftrightarrow> blFsm b = StateDenyAll"

datatype fetch_result = FetchError | FetchUnchanged | FetchChanged bytes bytes

definition fetchFile :: "World \<Rightarrow> ('key, 'e) BundleLoader \<Rightarrow> fetch_result \<times> ('key, 'e) BundleLoader" where
  "fetchFile w b =
    (let path = TrimPrefix (blSource b) ''file://'' in
     case wStat w path of None \<Rightarrow> (FetchError, b)
     | Some mtime \<Rightarrow>
        (if \<not> IsZero (blMtime b) \<and> \<not> mtime > blMtime b then (FetchUnchanged, b)
         else case wRead w path of None \<Rightarrow> (FetchError, b)
         | Some data \<Rightarrow> (case wRead w (path @ ''.sig'') of None \<Rightarrow> (FetchError, b)
            | Some sig \<Rightarrow> (FetchChanged data sig, b\<lparr>blMtime := mtime\<rparr>))))"

text \<open>The first argument of \<^verbatim>\<open>wHttp\<close> is the URL, the second the \<^verbatim>\<open>If-None-Match\<close> header, empty when it is not sent.\<close>

definition fetchHTTP :: "World \<Rightarrow> ('key, 'e) BundleLoader \<Rightarrow> fetch_result \<times> ('key, 'e) BundleLoader" where
  "fetchHTTP w b = (case wHttp w (blSource b) (blEtag b) of
     HttpFails \<Rightarrow> (FetchError, b)
   | HttpReply status etag body \<Rightarrow>
      (if status = 304 then (FetchUnchanged, b)
       else if status \<noteq> 200 then (FetchError, b)
       else case body of None \<Rightarrow> (FetchError, b)
       | Some data \<Rightarrow> (case wHttp w (blSource b @ ''.sig'') [] of
           HttpFails \<Rightarrow> (FetchError, b)
         | HttpReply _ _ sigBody \<Rightarrow> (case sigBody of None \<Rightarrow> (FetchError, b)
            | Some sig \<Rightarrow> (FetchChanged (take (64 * 2 ^ 20) data) (take 256 sig), b\<lparr>blEtag := etag\<rparr>)))))"

definition fetch :: "World \<Rightarrow> ('key, 'e) BundleLoader \<Rightarrow> fetch_result \<times> ('key, 'e) BundleLoader" where
  "fetch w b = (if HasPrefix (blSource b) ''file://'' then fetchFile w b else fetchHTTP w b)"

text \<open>The temporary directory is new and no directory is made in it: writing a file fails unless it lies in the
  temporary directory itself.\<close>

fun extract_items :: "(string \<Rightarrow> bool) \<Rightarrow> string \<Rightarrow> tar_item list \<Rightarrow> (string \<times> bytes) list \<Rightarrow> (string \<times> bytes) list option" where
  "extract_items wfails dir [] files = Some files"
| "extract_items wfails dir (TarBroken # is) files = None"
| "extract_items wfails dir (TarOther # is) files = extract_items wfails dir is files"
| "extract_items wfails dir (TarFile name body # is) files =
    (let destPath = filepath_Join [dir, name] in
     if \<not> HasPrefix (Clean destPath @ ''/'') (Clean dir @ ''/'') then extract_items wfails dir is files
     else case body of None \<Rightarrow> None
     | Some d \<Rightarrow>
        (if wfails destPath \<or> Dir destPath \<noteq> Clean dir then None
         else extract_items wfails dir is (AList.update destPath (take (4 * 2 ^ 20) d) files)))"

definition extractBundle :: "World \<Rightarrow> bytes \<Rightarrow> (string \<times> bytes) list option" where
  "extractBundle w content = (case wMkdirTemp w of None \<Rightarrow> None
   | Some dir \<Rightarrow> (case wGunzip w content of None \<Rightarrow> None
      | Some items \<Rightarrow> extract_items (wWriteFails w) dir items []))"

text \<open>The walk over the extracted files, in lexical order.\<close>

definition walk_flat :: "(string \<times> bytes) list \<Rightarrow> walk_item list" where
  "walk_flat files = WalkDirectory # map WalkFile (sort_key (map (of_char :: char \<Rightarrow> nat)) (map fst files))"

definition layer_rank :: "PolicyBinding \<Rightarrow> nat" where
  "layer_rank b = (case LayerPriority (Layer b) of Some p \<Rightarrow> p | None \<Rightarrow> 3)"

definition compile :: "PolicyLib \<Rightarrow> (string \<times> bytes) list \<Rightarrow> bytes \<Rightarrow> CompiledBundle option \<Rightarrow> (PolicyFileError + CompiledBundle \<times> nat) option" where
  "compile lib files digest prev =
     map_option (\<lambda>r. case r of
        Inl e \<Rightarrow> Inl e
      | Inr (templates, bindings) \<Rightarrow>
          Inr (\<lparr>BundleVersion = (case prev of None \<Rightarrow> 1 | Some p \<Rightarrow> BundleVersion p + 1), BundleHash = digest,
                Templates = templates, Bindings = sort_key layer_rank bindings\<rparr>, length templates))
     (ParsePolicyDir lib (map_option string_of \<circ> map_of files) (walk_flat files))"

definition healthCheck :: "('key, 'e) BundleLoader \<Rightarrow> CompiledBundle \<Rightarrow> bool" where
  "healthCheck b compiled =
    (if blVectors b = [] then True
     else case blEval b of None \<Rightarrow> False
          | Some eval \<Rightarrow> list_all (\<lambda>(req, expected). eval compiled req = expected) (blVectors b))"

definition rollback :: "('key, 'e) BundleLoader \<Rightarrow> ('key, 'e) BundleLoader" where
  "rollback b = (let b = b\<lparr>blFsm := StateRollback\<rparr> in
     if blPrev b = None then b\<lparr>blFsm := StateDenyAll\<rparr> else b\<lparr>blFsm := StateIdle\<rparr>)"

text \<open>A stage entered through a transition; a refused transition rolls back.\<close>

definition enter :: "ActivationState \<Rightarrow> ActivationState \<Rightarrow> ('key, 'e) BundleLoader \<Rightarrow>
    (('key, 'e) BundleLoader \<Rightarrow> ('key, 'e) BundleLoader option) \<Rightarrow> ('key, 'e) BundleLoader option" where
  "enter fr to b k = (case fsm_Transition fr to (blFsm b) of None \<Rightarrow> Some (rollback b) | Some s \<Rightarrow> k (b\<lparr>blFsm := s\<rparr>))"

type_synonym 'e reloader = "CompiledBundle \<Rightarrow> 'e \<Rightarrow> 'e \<times> bool"

definition activate_stage :: "'e reloader \<Rightarrow> World \<Rightarrow> string \<Rightarrow> CompiledBundle \<Rightarrow> nat \<Rightarrow> ('key, 'e) BundleLoader \<Rightarrow> ('key, 'e) BundleLoader option" where
  "activate_stage reload w hashHex compiled policyCount b =
     enter StateHealthChecking StateActivating b (\<lambda>b.
       let (engine, ok) = reload compiled (blEngine b); b = b\<lparr>blEngine := engine\<rparr> in
       if \<not> ok then Some (rollback b)
       else Some (b\<lparr>blStore := fst (store_gc (wSort w) (wReadDirFails w) (wRemoveFails w) (blStore b)),
                    blCurrent := Some \<lparr>ManHash = hashHex, ManVersion = BundleVersion compiled, ManPolicyCount = policyCount, StoredAt = wManifestTime w\<rparr>,
                    blPrev := Some compiled, blFsm := StateIdle\<rparr>))"

definition compile_stage :: "PolicyLib \<Rightarrow> 'e reloader \<Rightarrow> World \<Rightarrow> bytes \<Rightarrow> (string \<times> bytes) list \<Rightarrow> ('key, 'e) BundleLoader \<Rightarrow> ('key, 'e) BundleLoader option" where
  "compile_stage lib reload w digest files b =
     enter StateStaging StateCompiling b (\<lambda>b.
       case compile lib files digest (blPrev b) of
         None \<Rightarrow> None
       | Some (Inl e) \<Rightarrow> Some (rollback b)
       | Some (Inr (compiled, policyCount)) \<Rightarrow>
           enter StateCompiling StateHealthChecking b (\<lambda>b.
             if \<not> healthCheck b compiled then Some (rollback b)
             else activate_stage reload w (hexEncode digest) compiled policyCount b))"

definition verify_stage :: "'key Crypto \<Rightarrow> PolicyLib \<Rightarrow> 'e reloader \<Rightarrow> World \<Rightarrow> bytes \<Rightarrow> bytes \<Rightarrow> ('key, 'e) BundleLoader \<Rightarrow> ('key, 'e) BundleLoader option" where
  "verify_stage cr lib reload w content sig b =
     enter StateDownloading StateVerifying b (\<lambda>b.
       let digest = sha256 cr content in
       if \<not> key_Verify cr (blKeys b) digest sig then Some (rollback b)
       else enter StateVerifying StateStaging b (\<lambda>b.
         case extractBundle w content of None \<Rightarrow> Some (rollback b)
         | Some files \<Rightarrow>
             compile_stage lib reload w digest files
               (b\<lparr>blStore := fst (store_save (wSaveFault w) (hexEncode digest) content sig
                    \<lparr>ManHash = hexEncode digest, ManVersion = 0, ManPolicyCount = 0, StoredAt = wSaveTime w\<rparr> (blStore b))\<rparr>)))"

text \<open>One attempt; \<^const>\<open>None\<close> when parsing the policies does not return.\<close>

definition tryActivate :: "'key Crypto \<Rightarrow> PolicyLib \<Rightarrow> 'e reloader \<Rightarrow> World \<Rightarrow> ('key, 'e) BundleLoader \<Rightarrow> ('key, 'e) BundleLoader option" where
  "tryActivate cr lib reload w b0 =
    (let b = (if blFsm b0 = StateDenyAll then b0\<lparr>blFsm := StateIdle\<rparr> else b0) in
     if blFsm b \<noteq> StateIdle then Some b
     else case fsm_Transition StateIdle StateDownloading (blFsm b) of None \<Rightarrow> Some b
     | Some s \<Rightarrow>
        (case fetch w (b\<lparr>blFsm := s\<rparr>) of
           (FetchError, b) \<Rightarrow> Some (b\<lparr>blFsm := StateIdle\<rparr>)
         | (FetchUnchanged, b) \<Rightarrow> Some (b\<lparr>blFsm := StateIdle\<rparr>)
         | (FetchChanged content sig, b) \<Rightarrow> verify_stage cr lib reload w content sig b))"

text \<open>The loop of \<^verbatim>\<open>Start\<close>: one attempt after the other, the world changing in between.\<close>

inductive loader_step :: "'key Crypto \<Rightarrow> PolicyLib \<Rightarrow> 'e reloader \<Rightarrow> ('key, 'e) BundleLoader \<Rightarrow> ('key, 'e) BundleLoader \<Rightarrow> bool"
  for cr lib reload where
  poll: "tryActivate cr lib reload w b = Some b' \<Longrightarrow> loader_step cr lib reload b b'"

inductive_cases loader_stepE: "loader_step cr lib reload b b'"

section \<open>Attempts\<close>

text \<open>Between two attempts the machine rests.  The manifest and the bundle kept for a rollback describe the same
  bundle; without one the loader has activated nothing.\<close>

definition manifest_agrees :: "BundleManifest option \<Rightarrow> CompiledBundle option \<Rightarrow> bool" where
  "manifest_agrees m c = (case (m, c) of
     (None, None) \<Rightarrow> True
   | (Some m, Some c) \<Rightarrow> ManHash m = hexEncode (BundleHash c) \<and> ManVersion m = BundleVersion c
   | _ \<Rightarrow> False)"

definition resting :: "('key, 'e) BundleLoader \<Rightarrow> bool" where
  "resting b \<longleftrightarrow> blFsm b \<in> {StateIdle, StateDenyAll} \<and> (blFsm b = StateDenyAll \<longrightarrow> blPrev b = None) \<and>
     manifest_agrees (blCurrent b) (blPrev b)"

definition kept :: "('key, 'e) BundleLoader \<Rightarrow> ('key, 'e) BundleLoader \<Rightarrow> bool" where
  "kept b b' \<longleftrightarrow> blEngine b' = blEngine b \<and> blCurrent b' = blCurrent b \<and> blPrev b' = blPrev b"

definition same_config :: "('key, 'e) BundleLoader \<Rightarrow> ('key, 'e) BundleLoader \<Rightarrow> bool" where
  "same_config b b' \<longleftrightarrow> blSource b' = blSource b \<and> blKeys b' = blKeys b \<and> blVectors b' = blVectors b \<and> blEval b' = blEval b"

lemma fetch_frame: "\<exists>m e. snd (fetch w b) = b\<lparr>blMtime := m, blEtag := e\<rparr>"
proof -
  have "\<exists>m. snd (fetchFile w b) = b\<lparr>blMtime := m\<rparr>"
    by (auto simp: fetchFile_def Let_def split: option.split intro: exI [of _ "blMtime b"])
  moreover have "\<exists>e. snd (fetchHTTP w b) = b\<lparr>blEtag := e\<rparr>"
    by (auto simp: fetchHTTP_def split: option.split http_reply.split intro: exI [of _ "blEtag b"])
  moreover have "b\<lparr>blMtime := m\<rparr> = b\<lparr>blMtime := m, blEtag := blEtag b\<rparr>" "b\<lparr>blEtag := e\<rparr> = b\<lparr>blMtime := blMtime b, blEtag := e\<rparr>" for m e
    by (cases b; simp)+
  ultimately show ?thesis by (metis fetch_def)
qed

lemma fetch_fsm [simp]: "fst (fetch w (b\<lparr>blFsm := s\<rparr>)) = fst (fetch w b)"
  by (simp add: fetch_def fetchFile_def fetchHTTP_def Let_def split: option.split http_reply.split)

lemma rollback_frame: "\<exists>s. rollback b = b\<lparr>blFsm := s\<rparr> \<and> s \<in> {StateIdle, StateDenyAll} \<and> (s = StateDenyAll \<longleftrightarrow> blPrev b = None)"
  by (auto simp: rollback_def Let_def)

lemma healthCheck_same:
  assumes "same_config b b'"
  shows "healthCheck b' = healthCheck b"
proof -
  from assms have v: "blVectors b' = blVectors b" "blEval b' = blEval b" by (simp_all add: same_config_def)
  show ?thesis unfolding fun_eq_iff healthCheck_def v by (rule allI) (rule refl)
qed

lemma compile_fields:
  assumes "compile lib f d p = Some (Inr (c, n))"
  shows "BundleHash c = d \<and> sorted (map layer_rank (Bindings c)) \<and>
     BundleVersion c = (case p of None \<Rightarrow> 1 | Some q \<Rightarrow> BundleVersion q + 1) \<and> n = length (Templates c)"
proof -
  obtain r where r: "ParsePolicyDir lib (map_option string_of \<circ> map_of f) (walk_flat f) = Some r"
    using assms by (auto simp: compile_def)
  obtain ts bs where "r = Inr (ts, bs)" using assms r by (cases r) (auto simp: compile_def)
  then show ?thesis using assms r by (auto simp: compile_def)
qed

text \<open>The conditions of an activation.\<close>

definition eligible :: "'key Crypto \<Rightarrow> PolicyLib \<Rightarrow> 'e reloader \<Rightarrow> World \<Rightarrow> ('key, 'e) BundleLoader \<Rightarrow> bytes \<Rightarrow> bytes \<Rightarrow> (string \<times> bytes) list \<Rightarrow> CompiledBundle \<Rightarrow> nat \<Rightarrow> bool" where
  "eligible cr lib reload w b content sig files compiled n \<longleftrightarrow>
     fst (fetch w b) = FetchChanged content sig \<and> key_Verify cr (blKeys b) (sha256 cr content) sig \<and>
     extractBundle w content = Some files \<and> compile lib files (sha256 cr content) (blPrev b) = Some (Inr (compiled, n)) \<and>
     healthCheck b compiled \<and> snd (reload compiled (blEngine b))"

lemma eligible_unique:
  "eligible cr lib reload w b c s f k n \<Longrightarrow> eligible cr lib reload w b c' s' f' k' n' \<Longrightarrow> c' = c \<and> s' = s \<and> f' = f \<and> k' = k \<and> n' = n"
  by (auto simp: eligible_def)

text \<open>What the loader relies on: a reload that fails leaves the engine as it was.\<close>

locale policy_reloader =
  fixes reload :: "CompiledBundle \<Rightarrow> 'e \<Rightarrow> 'e \<times> bool"
  assumes failed_reload_keeps: "\<not> snd (reload c e) \<Longrightarrow> fst (reload c e) = e"
begin

lemma activate_stage_outcome:
  assumes "blFsm b = StateHealthChecking" and "activate_stage reload w h c n b = Some b'"
  shows "same_config b b' \<and>
    (if snd (reload c (blEngine b))
     then blEngine b' = fst (reload c (blEngine b)) \<and> blFsm b' = StateIdle \<and> blPrev b' = Some c \<and>
          blCurrent b' = Some \<lparr>ManHash = h, ManVersion = BundleVersion c, ManPolicyCount = n, StoredAt = wManifestTime w\<rparr>
     else kept b b' \<and> blFsm b' \<in> {StateIdle, StateDenyAll} \<and> (blFsm b' = StateDenyAll \<longrightarrow> blPrev b = None))"
proof -
  obtain e ok where r: "reload c (blEngine b) = (e, ok)" by fastforce
  obtain s where s: "rollback (b\<lparr>blFsm := StateActivating, blEngine := e\<rparr>) = b\<lparr>blFsm := s, blEngine := e\<rparr>"
    "s \<in> {StateIdle, StateDenyAll}" "s = StateDenyAll \<longleftrightarrow> blPrev b = None"
    using rollback_frame [of "b\<lparr>blFsm := StateActivating, blEngine := e\<rparr>"] by auto
  have "ok \<or> e = blEngine b" using failed_reload_keeps [of c "blEngine b"] r by auto
  then show ?thesis
    using assms r s by (auto simp: activate_stage_def enter_def fsm_Transition_def same_config_def kept_def)
qed

lemma compile_stage_outcome:
  assumes "blFsm b = StateStaging" and "compile_stage lib reload w digest files b = Some b'"
  shows "same_config b b' \<and>
    ((\<exists>c n. compile lib files digest (blPrev b) = Some (Inr (c, n)) \<and> healthCheck b c \<and> snd (reload c (blEngine b)) \<and>
        blEngine b' = fst (reload c (blEngine b)) \<and> blFsm b' = StateIdle \<and> blPrev b' = Some c \<and>
        blCurrent b' = Some \<lparr>ManHash = hexEncode digest, ManVersion = BundleVersion c, ManPolicyCount = n, StoredAt = wManifestTime w\<rparr>) \<or>
     (\<nexists>c n. compile lib files digest (blPrev b) = Some (Inr (c, n)) \<and> healthCheck b c \<and> snd (reload c (blEngine b))) \<and>
       kept b b' \<and> blFsm b' \<in> {StateIdle, StateDenyAll} \<and> (blFsm b' = StateDenyAll \<longrightarrow> blPrev b = None))"
proof -
  have rb: "same_config b (rollback (b\<lparr>blFsm := s\<rparr>)) \<and> kept b (rollback (b\<lparr>blFsm := s\<rparr>)) \<and>
      blFsm (rollback (b\<lparr>blFsm := s\<rparr>)) \<in> {StateIdle, StateDenyAll} \<and>
      (blFsm (rollback (b\<lparr>blFsm := s\<rparr>)) = StateDenyAll \<longrightarrow> blPrev b = None)" for s
    using rollback_frame [of "b\<lparr>blFsm := s\<rparr>"] by (auto simp: same_config_def kept_def)
  have h [simp]: "healthCheck (b\<lparr>blFsm := s\<rparr>) c = healthCheck b c" for s c by (rule fun_cong [OF healthCheck_same]) (simp add: same_config_def)
  show ?thesis
  proof (cases "\<exists>c n. compile lib files digest (blPrev b) = Some (Inr (c, n)) \<and> healthCheck b c")
    case True
    then obtain c n where c: "compile lib files digest (blPrev b) = Some (Inr (c, n))" "healthCheck b c" by blast
    then have "activate_stage reload w (hexEncode digest) c n (b\<lparr>blFsm := StateHealthChecking\<rparr>) = Some b'"
      using assms by (simp add: compile_stage_def enter_def fsm_Transition_def)
    from activate_stage_outcome [OF _ this] show ?thesis
      using c by (auto simp: same_config_def kept_def split: if_splits)
  next
    case False
    then have "\<exists>s. b' = rollback (b\<lparr>blFsm := s\<rparr>)"
      using assms by (fastforce simp: compile_stage_def enter_def fsm_Transition_def split: option.splits sum.splits if_splits)
    then show ?thesis using rb False by blast
  qed
qed

lemma verify_stage_outcome:
  assumes "blFsm b = StateDownloading" and "verify_stage cr lib reload w content sig b = Some b'"
  shows "same_config b b' \<and>
    ((\<exists>f c n. key_Verify cr (blKeys b) (sha256 cr content) sig \<and> extractBundle w content = Some f \<and>
        compile lib f (sha256 cr content) (blPrev b) = Some (Inr (c, n)) \<and> healthCheck b c \<and> snd (reload c (blEngine b)) \<and>
        blEngine b' = fst (reload c (blEngine b)) \<and> blFsm b' = StateIdle \<and> blPrev b' = Some c \<and>
        blCurrent b' = Some \<lparr>ManHash = hexEncode (sha256 cr content), ManVersion = BundleVersion c, ManPolicyCount = n, StoredAt = wManifestTime w\<rparr>) \<or>
     (\<nexists>f c n. key_Verify cr (blKeys b) (sha256 cr content) sig \<and> extractBundle w content = Some f \<and>
        compile lib f (sha256 cr content) (blPrev b) = Some (Inr (c, n)) \<and> healthCheck b c \<and> snd (reload c (blEngine b))) \<and>
       kept b b' \<and> blFsm b' \<in> {StateIdle, StateDenyAll} \<and> (blFsm b' = StateDenyAll \<longrightarrow> blPrev b = None))"
proof (cases "key_Verify cr (blKeys b) (sha256 cr content) sig \<and> extractBundle w content \<noteq> None")
  case True
  then obtain f where f: "extractBundle w content = Some f" by auto
  obtain st where "compile_stage lib reload w (sha256 cr content) f (b\<lparr>blFsm := StateStaging, blStore := st\<rparr>) = Some b'"
    using assms True f by (auto simp: verify_stage_def enter_def fsm_Transition_def Let_def)
  from compile_stage_outcome [OF _ this] show ?thesis
    using True f healthCheck_same [of b "b\<lparr>blFsm := StateStaging, blStore := st\<rparr>"] by (auto simp: same_config_def kept_def)
next
  case False
  then obtain s where "b' = rollback (b\<lparr>blFsm := s\<rparr>)"
    using assms by (auto simp: verify_stage_def enter_def fsm_Transition_def Let_def split: if_splits)
  then have "same_config b b' \<and> kept b b' \<and> blFsm b' \<in> {StateIdle, StateDenyAll} \<and> (blFsm b' = StateDenyAll \<longrightarrow> blPrev b = None)"
    using rollback_frame [of "b\<lparr>blFsm := s\<rparr>"] by (auto simp: same_config_def kept_def)
  then show ?thesis using False by blast
qed

lemma tryActivate_outcome:
  assumes "resting b" and "tryActivate cr lib reload w b = Some b'"
  shows "same_config b b' \<and>
    ((\<exists>content sig f c n. eligible cr lib reload w b content sig f c n \<and>
        blEngine b' = fst (reload c (blEngine b)) \<and> blFsm b' = StateIdle \<and> blPrev b' = Some c \<and>
        blCurrent b' = Some \<lparr>ManHash = hexEncode (sha256 cr content), ManVersion = BundleVersion c, ManPolicyCount = n, StoredAt = wManifestTime w\<rparr>) \<or>
     (\<nexists>content sig f c n. eligible cr lib reload w b content sig f c n) \<and>
       kept b b' \<and> blFsm b' \<in> {StateIdle, StateDenyAll} \<and> (blFsm b' = StateDenyAll \<longrightarrow> blPrev b = None))"
proof -
  let ?b1 = "b\<lparr>blFsm := StateDownloading\<rparr>"
  obtain r b2 where r: "fetch w ?b1 = (r, b2)" by fastforce
  from fetch_frame [of w ?b1] obtain m e where b2: "b2 = b\<lparr>blFsm := StateDownloading, blMtime := m, blEtag := e\<rparr>" using r by auto
  have fr: "fst (fetch w b) = r" using r fetch_fsm [where w = w and b = b and s = StateDownloading] by simp
  have t: "tryActivate cr lib reload w b = (case fetch w ?b1 of
      (FetchError, b) \<Rightarrow> Some (b\<lparr>blFsm := StateIdle\<rparr>) | (FetchUnchanged, b) \<Rightarrow> Some (b\<lparr>blFsm := StateIdle\<rparr>)
    | (FetchChanged content sig, b) \<Rightarrow> verify_stage cr lib reload w content sig b)"
    using assms(1) by (auto simp: tryActivate_def resting_def fsm_Transition_def Let_def)
  show ?thesis
  proof (cases r)
    case (FetchChanged content sig)
    then have v: "verify_stage cr lib reload w content sig b2 = Some b'" using assms(2) t r by simp
    have "blFsm b2 = StateDownloading" using b2 by simp
    from verify_stage_outcome [OF this v] show ?thesis
      using b2 fr FetchChanged healthCheck_same [of b b2] by (auto simp: eligible_def same_config_def kept_def)
  qed (use assms(2) t r b2 fr in \<open>auto simp: eligible_def same_config_def kept_def\<close>)
qed

lemma resting_preserved:
  assumes "resting b" and "tryActivate cr lib reload w b = Some b'"
  shows "resting b'"
proof -
  show ?thesis
    using tryActivate_outcome [OF assms] assms(1) compile_fields by (fastforce simp: resting_def kept_def eligible_def manifest_agrees_def)
qed

lemma reachable_resting:
  "(loader_step cr lib reload)\<^sup>*\<^sup>* b b' \<Longrightarrow> resting b \<Longrightarrow> resting b' \<and> same_config b b'"
proof (induction rule: rtranclp_induct)
  case (step y z)
  then obtain w where w: "tryActivate cr lib reload w y = Some z" by (auto elim: loader_stepE)
  from resting_preserved [OF _ w] tryActivate_outcome [OF _ w] step show ?case by (auto simp: same_config_def)
qed (simp add: same_config_def)

end

text \<open>An attempt returns whenever parsing policies does.\<close>

lemma compile_returns: "lib_ok lib \<Longrightarrow> \<exists>r. compile lib f d p = Some r"
  using parse_walk_files [of lib "walk_flat f"] parse_walk_error [of lib "walk_flat f"]
  by (cases "WalkError \<in> set (walk_flat f)") (simp_all add: compile_def ParsePolicyDir_def)

lemma activate_stage_returns: "\<exists>b'. activate_stage reload w h c n b = Some b'"
  by (auto simp: activate_stage_def enter_def Let_def split: option.split prod.split)

lemma compile_stage_returns:
  assumes "lib_ok lib"
  shows "\<exists>b'. compile_stage lib reload w d f b = Some b'"
proof -
  obtain r where r: "compile lib f d (blPrev b) = Some r" using compile_returns [OF assms] by blast
  show ?thesis
  proof (cases r)
    case (Inr cn)
    then show ?thesis
      using r activate_stage_returns by (cases cn) (auto simp: compile_stage_def enter_def split: option.split)
  qed (use r in \<open>auto simp: compile_stage_def enter_def split: option.split\<close>)
qed

lemma tryActivate_returns:
  assumes "lib_ok lib"
  shows "\<exists>b'. tryActivate cr lib reload w b = Some b'"
proof -
  have "\<exists>b'. verify_stage cr lib reload w content sig b1 = Some b'" for content sig b1
    using compile_stage_returns [OF assms] by (auto simp: verify_stage_def enter_def Let_def split: option.split)
  then show ?thesis
    by (simp add: tryActivate_def Let_def split: option.split prod.split fetch_result.split)
qed

text \<open>The policy engine keeps that contract.\<close>

definition engine_reload :: "('ast, 'prog) EngineEnv \<Rightarrow> gotime \<Rightarrow> 'prog engineState reloader" where
  "engine_reload env now c st = (let (st', err) = Reload env now c st in (st', err = None))"

interpretation engine_reloader: policy_reloader "engine_reload env now" for env now
  by unfold_locales (auto simp: engine_reload_def Reload_def Let_def split: sum.splits)

section \<open>What reaches the engine\<close>

text \<open>Claim C15. A poll hands the engine a bundle exactly when the source gave new content whose SHA-256 digest is signed
  under a trusted key, the archive extracts, its policies parse, every test vector gives its expected action and
  the engine accepts the compiled bundle; the bindings are then in layer order, the version is the next one and
  the recorded manifest names the digest.  Otherwise the engine, the current manifest and the bundle kept for a
  rollback are untouched.\<close>

theorem only_verified_bundles_reach_engine:
  assumes "resting b" and "tryActivate cr lib (engine_reload env now) w b = Some b'"
  shows "(\<exists>content sig files c n.
      fst (fetch w b) = FetchChanged content sig \<and> (\<exists>k \<in> set (blKeys b). ed25519Verify cr k (sha256 cr content) sig) \<and>
      extractBundle w content = Some files \<and> compile lib files (sha256 cr content) (blPrev b) = Some (Inr (c, n)) \<and>
      healthCheck b c \<and> Reload env now c (blEngine b) = (blEngine b', None) \<and>
      blPrev b' = Some c \<and> BundleHash c = sha256 cr content \<and> sorted (map layer_rank (Bindings c)) \<and>
      BundleVersion c = (case blPrev b of None \<Rightarrow> 1 | Some q \<Rightarrow> BundleVersion q + 1) \<and>
      blCurrent b' = Some \<lparr>ManHash = hexEncode (sha256 cr content), ManVersion = BundleVersion c, ManPolicyCount = n, StoredAt = wManifestTime w\<rparr>) \<or>
    (\<nexists>content sig files c n. eligible cr lib (engine_reload env now) w b content sig files c n) \<and>
      blEngine b' = blEngine b \<and> blCurrent b' = blCurrent b \<and> blPrev b' = blPrev b"
proof -
  have r: "snd (engine_reload env now c e) \<Longrightarrow> Reload env now c e = (fst (engine_reload env now c e), None)" for c e
    by (cases "Reload env now c e") (simp add: engine_reload_def)
  show ?thesis
    using engine_reloader.tryActivate_outcome [OF assms]
  proof (elim conjE disjE exE)
    fix content sig files c n
    assume e: "eligible cr lib (engine_reload env now) w b content sig files c n"
      and b': "blEngine b' = fst (engine_reload env now c (blEngine b))" "blPrev b' = Some c"
        "blCurrent b' = Some \<lparr>ManHash = hexEncode (sha256 cr content), ManVersion = BundleVersion c, ManPolicyCount = n, StoredAt = wManifestTime w\<rparr>"
    then have "compile lib files (sha256 cr content) (blPrev b) = Some (Inr (c, n))" by (simp add: eligible_def)
    from compile_fields [OF this] r [of c "blEngine b"] e b' show ?thesis
      by (intro disjI1 exI [of _ content] exI [of _ sig] exI [of _ files] exI [of _ c] exI [of _ n])
         (simp add: eligible_def key_Verify_def list_ex_iff)
  qed (simp add: kept_def)
qed

text \<open>An archive without policies, signed by the signature \<^verbatim>\<open>[2]\<close>.\<close>

definition demo_crypto_b :: "nat Crypto" where
  "demo_crypto_b = \<lparr>sha256 = (\<lambda>x. x), ed25519Verify = (\<lambda>k m s. s = [2]), decodeToken = (\<lambda>_. None)\<rparr>"

definition demo_world :: "gotime \<Rightarrow> bytes \<Rightarrow> World" where
  "demo_world mtime sig = \<lparr>wStat = (\<lambda>_. Some mtime), wRead = (\<lambda>p. Some (if p = ''/b'' then [1] else sig)), wHttp = (\<lambda>_ _. HttpFails),
     wMkdirTemp = Some ''/tmp/x'', wGunzip = (\<lambda>_. Some []), wWriteFails = (\<lambda>_. False), wSaveFault = SaveOk, wSaveTime = 0,
     wManifestTime = 0, wSort = sort_key snd, wReadDirFails = False, wRemoveFails = (\<lambda>_. False)\<rparr>"

definition demo_loader :: "(nat, string engineState) BundleLoader" where
  "demo_loader = \<lparr>blSource = ''file:///b'', blKeys = [7], blVectors = [], blEval = None, blEngine = demo_start, blFsm = StateIdle,
     blStore = \<lparr>stDirs = [], stKeep = 3\<rparr>, blCurrent = None, blPrev = None, blEtag = [], blMtime = 0\<rparr>"

lemma demo_loader_resting: "resting demo_loader"
  by (simp add: resting_def demo_loader_def manifest_agrees_def)

theorem only_verified_bundles_reach_engine_witness:
  "\<exists>b' snap. tryActivate demo_crypto_b demo_lib (engine_reload (demo_env (ScanDone [])) 0) (demo_world 5 [2]) demo_loader = Some b' \<and>
     esSnapshot (blEngine b') = Some snap \<and> snapVersion snap = 1 \<and> map_option ManHash (blCurrent b') = Some ''01''"
proof -
  let ?re = "engine_reload (demo_env (ScanDone [])) 0 :: string engineState reloader"
  let ?c = "\<lparr>BundleVersion = 1, BundleHash = [1], Templates = [], Bindings = []\<rparr>"
  let ?t = "tryActivate demo_crypto_b demo_lib ?re (demo_world 5 [2]) demo_loader"
  have f: "fetch (demo_world 5 [2]) demo_loader = (FetchChanged [1] [2], demo_loader\<lparr>blMtime := 5\<rparr>)"
    by (simp add: fetch_def fetchFile_def demo_world_def demo_loader_def TrimPrefix_def HasPrefix_def IsZero_def)
  have x: "extractBundle (demo_world 5 [2]) [1] = Some []" by (simp add: extractBundle_def demo_world_def)
  have c: "compile demo_lib [] [1] None = Some (Inr (?c, 0))"
    by (simp add: compile_def walk_flat_def ParsePolicyDir_def)
  obtain snap where s: "Reload (demo_env (ScanDone [])) 0 ?c demo_start = (demo_start\<lparr>esLastSkipped := [], esSnapshot := Some snap\<rparr>, None)"
    "snapVersion snap = 1"
    by (simp add: Reload_def buildSnapshot_def CompileAll_def demo_env_def demo_start_def Let_def)
  have e: "eligible demo_crypto_b demo_lib ?re (demo_world 5 [2]) demo_loader [1] [2] [] ?c 0"
    using c s x f by (simp add: eligible_def key_Verify_def demo_crypto_b_def healthCheck_def engine_reload_def demo_loader_def)
  obtain b' where t: "?t = Some b'" using tryActivate_returns [OF demo_lib_ok] by blast
  from only_verified_bundles_reach_engine [OF demo_loader_resting t] obtain content sig files c n where
    p: "fst (fetch (demo_world 5 [2]) demo_loader) = FetchChanged content sig" "extractBundle (demo_world 5 [2]) content = Some files"
    "compile demo_lib files (sha256 demo_crypto_b content) (blPrev demo_loader) = Some (Inr (c, n))"
    "Reload (demo_env (ScanDone [])) 0 c (blEngine demo_loader) = (blEngine b', None)"
    "blCurrent b' = Some \<lparr>ManHash = hexEncode (sha256 demo_crypto_b content), ManVersion = BundleVersion c, ManPolicyCount = n, StoredAt = wManifestTime (demo_world 5 [2])\<rparr>"
    using e by blast
  have "content = [1]" "files = []" using p(1,2) f x by auto
  moreover from this have "c = ?c" using p(3) c by (simp add: demo_crypto_b_def demo_loader_def)
  ultimately have "blEngine b' = demo_start\<lparr>esLastSkipped := [], esSnapshot := Some snap\<rparr>" and "map_option ManHash (blCurrent b') = Some ''01''"
    using p(4,5) s by (simp_all add: demo_loader_def demo_crypto_b_def hexEncode_def)
  then show ?thesis using t s(2) by simp
qed

text \<open>From a new loader every poll returns, provided that every policy variable has a name, and leaves the state machine idle or denying, denying only while nothing was
  ever activated; the manifest it reports describes the bundle it keeps for a rollback, and the trusted keys and
  test vectors never change.\<close>

theorem loader_rests_consistently:
  assumes "lib_ok lib" and "NewBundleLoader mkdirFails dirs cfg engine = Inr (poll, b)"
    and "(loader_step cr lib (engine_reload env now))\<^sup>*\<^sup>* b b'"
  shows "(\<exists>b''. tryActivate cr lib (engine_reload env now) w b' = Some b'') \<and>
    blFsm b' \<in> {StateIdle, StateDenyAll} \<and> (IsDenyAll b' \<longrightarrow> blPrev b' = None) \<and>
    manifest_agrees (blCurrent b') (blPrev b') \<and> blKeys b' = TrustedKeys cfg \<and> blKeys b' \<noteq> [] \<and> blVectors b' = TestVectors cfg"
proof -
  have n: "resting b" "blKeys b = TrustedKeys cfg" "blKeys b \<noteq> []" "blVectors b = TestVectors cfg"
    using assms(2) by (auto simp: NewBundleLoader_def NewKeySource_def newBundleStore_def resting_def manifest_agrees_def Let_def split: if_splits)
  from engine_reloader.reachable_resting [OF assms(3) n(1)] tryActivate_returns [OF assms(1)] n show ?thesis
    by (auto simp: resting_def same_config_def IsDenyAll_def)
qed

theorem loader_rests_consistently_witness:
  "\<exists>b b'. NewBundleLoader False [] \<lparr>SourceURL = ''file:///b'', PollInterval = 0, TrustedKeys = [7 :: nat], StorageDir = ''/s'', KeepCount = 0,
       TestVectors = []\<rparr> demo_start = Inr (60 * second, b) \<and>
     loader_step demo_crypto_b demo_lib (engine_reload (demo_env (ScanDone [])) 0) b b' \<and> IsDenyAll b' \<and> blPrev b' = None"
proof -
  let ?cfg = "\<lparr>SourceURL = ''file:///b'', PollInterval = 0, TrustedKeys = [7 :: nat], StorageDir = ''/s'', KeepCount = 0, TestVectors = []\<rparr>"
  let ?re = "engine_reload (demo_env (ScanDone [])) 0 :: string engineState reloader"
  have n: "NewBundleLoader False [] ?cfg demo_start = Inr (60 * second, demo_loader)"
    by (simp add: NewBundleLoader_def NewKeySource_def newBundleStore_def demo_loader_def)
  have "\<exists>b'. tryActivate demo_crypto_b demo_lib ?re (demo_world 5 [3]) demo_loader = Some b' \<and> IsDenyAll b'"
    by (simp add: tryActivate_def demo_loader_def demo_world_def fetch_def fetchFile_def HasPrefix_def TrimPrefix_def IsZero_def fsm_Transition_def
        verify_stage_def enter_def demo_crypto_b_def key_Verify_def rollback_def IsDenyAll_def Let_def)
  then obtain b' where b': "loader_step demo_crypto_b demo_lib ?re demo_loader b'" "IsDenyAll b'" by (auto intro: loader_step.intros)
  have "(loader_step demo_crypto_b demo_lib ?re)\<^sup>*\<^sup>* demo_loader b'" using b'(1) by (rule r_into_rtranclp)
  from loader_rests_consistently [OF demo_lib_ok n this] b' n show ?thesis by blast
qed

text \<open>A bundle that failed verification is not looked at again while its file keeps its modification time, even
  when the right signature has arrived in between; and the denying state is left by the very next poll, although
  nothing was ever activated.\<close>

theorem failed_bundle_forgotten:
  assumes "resting b" and "blPrev b = None" and "HasPrefix (blSource b) ''file://''" and "path = TrimPrefix (blSource b) ''file://''"
    and "wStat w1 path = Some m" and "blMtime b < m" and "\<not> IsZero m"
    and "wRead w1 path = Some content" and "wRead w1 (path @ ''.sig'') = Some sig"
    and "\<not> key_Verify cr (blKeys b) (sha256 cr content) sig"
  shows "\<exists>b1. tryActivate cr lib reload w1 b = Some b1 \<and> IsDenyAll b1 \<and>
    (\<forall>w2. wStat w2 path = Some m \<longrightarrow> (\<exists>b2. tryActivate cr lib reload w2 b1 = Some b2 \<and>
        \<not> IsDenyAll b2 \<and> blPrev b2 = None \<and> blEngine b2 = blEngine b))"
proof -
  let ?b1 = "b\<lparr>blFsm := StateDenyAll, blMtime := m\<rparr>"
  have f: "fetch w1 (b\<lparr>blFsm := StateDownloading\<rparr>) = (FetchChanged content sig, b\<lparr>blFsm := StateDownloading, blMtime := m\<rparr>)"
    using assms(3-9) by (simp add: fetch_def fetchFile_def Let_def)
  have v: "verify_stage cr lib reload w1 content sig (b\<lparr>blFsm := StateDownloading, blMtime := m\<rparr>) = Some ?b1"
    using assms(2,10) by (simp add: verify_stage_def enter_def fsm_Transition_def rollback_def Let_def)
  have "tryActivate cr lib reload w1 b = Some ?b1"
    using assms(1) f v by (auto simp: tryActivate_def resting_def fsm_Transition_def Let_def)
  moreover have "tryActivate cr lib reload w2 ?b1 = Some (b\<lparr>blFsm := StateIdle, blMtime := m\<rparr>)" if "wStat w2 path = Some m" for w2
    using assms(3,4,7) that by (simp add: tryActivate_def fsm_Transition_def fetch_def fetchFile_def Let_def)
  ultimately show ?thesis using assms(2) by (fastforce simp: IsDenyAll_def)
qed

theorem failed_bundle_forgotten_witness:
  "\<exists>b1 b2. tryActivate demo_crypto_b demo_lib (engine_reload (demo_env (ScanDone [])) 0) (demo_world 5 [3]) demo_loader = Some b1 \<and>
     IsDenyAll b1 \<and>
     tryActivate demo_crypto_b demo_lib (engine_reload (demo_env (ScanDone [])) 0) (demo_world 5 [2]) b1 = Some b2 \<and>
     \<not> IsDenyAll b2 \<and> blPrev b2 = None"
proof -
  have "\<exists>b1. tryActivate demo_crypto_b demo_lib (engine_reload (demo_env (ScanDone [])) 0) (demo_world 5 [3]) demo_loader = Some b1 \<and> IsDenyAll b1 \<and>
    (\<forall>w2. wStat w2 ''/b'' = Some 5 \<longrightarrow> (\<exists>b2. tryActivate demo_crypto_b demo_lib (engine_reload (demo_env (ScanDone [])) 0) w2 b1 = Some b2 \<and>
        \<not> IsDenyAll b2 \<and> blPrev b2 = None \<and> blEngine b2 = blEngine demo_loader))"
    by (rule failed_bundle_forgotten [OF demo_loader_resting, where path = "''/b''" and content = "[1]" and sig = "[3]"])
       (simp_all add: demo_loader_def demo_world_def HasPrefix_def TrimPrefix_def IsZero_def key_Verify_def demo_crypto_b_def)
  moreover have "wStat (demo_world 5 [2]) ''/b'' = Some 5" by (simp add: demo_world_def)
  ultimately show ?thesis by blast
qed

section \<open>Garbage collection\<close>

lemma gc_candidates_filter:
  "gc_candidates (filter (\<lambda>(n, e). P n) dirs) = filter (\<lambda>(n, t). P n) (gc_candidates dirs)"
  by (induction dirs) (auto simp: gc_candidates_def List.map_filter_simps split: option.split)

lemma gc_candidates_distinct: "distinct (map fst dirs) \<Longrightarrow> distinct (map fst (gc_candidates dirs))"
proof (induction dirs)
  case (Cons d dirs)
  have "fst ` set (gc_candidates dirs) \<subseteq> fst ` set dirs"
    by (induction dirs) (auto simp: gc_candidates_def List.map_filter_simps split: option.splits)
  with Cons show ?case by (cases d) (auto simp: gc_candidates_def List.map_filter_simps split: option.split)
qed (simp add: gc_candidates_def List.map_filter_simps)

lemma remove_dirs_ok:
  "\<forall>n. \<not> fails n \<Longrightarrow> remove_dirs fails ns dirs = (filter (\<lambda>(n, e). n \<notin> set ns) dirs, True)"
proof (induction ns arbitrary: dirs)
  case (Cons n ns)
  have "filter (\<lambda>(k, e). k \<notin> set ns) (AList.delete n dirs) = filter (\<lambda>(k, e). k \<notin> set (n # ns)) dirs"
    unfolding AList.delete_eq filter_filter by (rule filter_cong) auto
  with Cons show ?case by simp
qed (simp add: filter_True)

lemma filter_drop_names:
  assumes "distinct (map fst xs)"
  shows "filter (\<lambda>(n, t). n \<notin> set (map fst (take k xs))) xs = drop k xs"
proof -
  have d: "distinct (map fst (take k xs @ drop k xs))" using assms by simp
  have a: "filter (\<lambda>(n, t). n \<notin> set (map fst (take k xs))) (take k xs) = []"
    by (force simp: filter_empty_conv)
  have "\<forall>x \<in> set (drop k xs). fst x \<notin> fst ` set (take k xs)" using d unfolding map_append distinct_append by auto
  then have b: "filter (\<lambda>(n, t). n \<notin> set (map fst (take k xs))) (drop k xs) = drop k xs"
    by (intro filter_True) (force simp: case_prod_beta)
  have "filter (\<lambda>(n, t). n \<notin> set (map fst (take k xs))) (take k xs @ drop k xs) = drop k xs" unfolding filter_append a b by simp
  then show ?thesis by simp
qed

text \<open>Garbage collection leaves exactly as many bundles with a readable manifest as the store keeps, or all when
  there are fewer; no removed one is newer than one that stays, and directories without a manifest are not
  touched.\<close>

theorem gc_keeps_the_newest:
  assumes "distinct (map fst (stDirs s))" and "\<forall>n. \<not> removeFails n"
    and sortSlice: "\<forall>xs. mset (sortSlice xs) = mset xs \<and> sorted (map snd (sortSlice xs))"
  shows "let s' = fst (store_gc sortSlice False removeFails s); before = gc_candidates (stDirs s); after = gc_candidates (stDirs s') in
    length after = min (length before) (nat (stKeep s)) \<and> set after \<subseteq> set before \<and>
    (\<forall>x \<in> set after. \<forall>y \<in> set before - set after. snd y \<le> snd x) \<and>
    filter (\<lambda>(n, e). seManifest e = None) (stDirs s') = filter (\<lambda>(n, e). seManifest e = None) (stDirs s)"
proof (cases "int (length (gc_candidates (stDirs s))) \<le> stKeep s")
  case True
  then show ?thesis by (simp add: store_gc_def Let_def)
next
  case False
  let ?c = "gc_candidates (stDirs s)" and ?k = "length (gc_candidates (stDirs s)) - nat (stKeep s)"
  let ?xs = "sortSlice ?c"
  let ?D = "set (map fst (take ?k ?xs))"
  have m: "mset ?xs = mset ?c" and srt: "sorted (map snd ?xs)" using sortSlice by auto
  have dist: "distinct (map fst ?c)" "distinct (map fst ?xs)"
    using gc_candidates_distinct [OF assms(1)] m mset_eq_imp_distinct_iff [of "map fst ?xs" "map fst ?c"] by auto
  have dirs: "stDirs (fst (store_gc sortSlice False removeFails s)) = filter (\<lambda>(n, e). n \<notin> ?D) (stDirs s)"
    using False remove_dirs_ok [OF assms(2)] by (simp add: store_gc_def Let_def)
  let ?a = "gc_candidates (filter (\<lambda>(n, e). n \<notin> ?D) (stDirs s))"
  have a: "?a = filter (\<lambda>(n, t). n \<notin> ?D) ?c" by (rule gc_candidates_filter)
  have ma: "mset ?a = mset (drop ?k ?xs)"
    unfolding a filter_drop_names [OF dist(2), symmetric] mset_filter m ..
  then have la: "length ?a = min (length ?c) (nat (stKeep s))"
    using False mset_eq_length [OF ma] mset_eq_length [OF m] by simp
  have sa: "set ?a = set (drop ?k ?xs)" using ma by (rule mset_eq_setD)
  have "snd y \<le> snd x" if "x \<in> set ?a" "y \<in> set ?c - set ?a" for x y
  proof -
    have "y \<in> set ?xs" using that(2) mset_eq_setD [OF m] by auto
    then have "y \<in> set (take ?k ?xs)" using that(2) sa by (metis DiffD2 Un_iff append_take_drop_id set_append)
    moreover have "sorted (map snd (take ?k ?xs) @ map snd (drop ?k ?xs))" using srt by (metis append_take_drop_id map_append)
    ultimately show ?thesis using that(1) sa by (auto simp: sorted_append)
  qed
  moreover have "filter (\<lambda>(n, e). seManifest e = None) (filter (\<lambda>(n, e). n \<notin> ?D) (stDirs s)) = filter (\<lambda>(n, e). seManifest e = None) (stDirs s)"
  proof -
    have "n \<notin> ?D" if "(n, e) \<in> set (stDirs s)" "seManifest e = None" for n e
    proof
      assume "n \<in> ?D"
      then obtain t where "(n, t) \<in> set ?c" using mset_eq_setD [OF m] by (auto dest: in_set_takeD)
      then obtain e' where "(n, e') \<in> set (stDirs s)" "seManifest e' \<noteq> None"
        by (auto simp: gc_candidates_def List.map_filter_def)
      then show False using that assms(1) by (metis eq_key_imp_eq_value)
    qed
    then show ?thesis unfolding filter_filter by (intro filter_cong) auto
  qed
  ultimately show ?thesis using la a unfolding Let_def dirs by auto
qed

theorem gc_keeps_the_newest_witness:
  "length (gc_candidates (stDirs (fst (store_gc (sort_key snd) False (\<lambda>_. False)
     \<lparr>stDirs = [(''a'', \<lparr>seContent = None, seSig = None, seManifest = Some \<lparr>ManHash = ''a'', ManVersion = 1, ManPolicyCount = 0, StoredAt = 5\<rparr>\<rparr>),
                (''b'', \<lparr>seContent = None, seSig = None, seManifest = Some \<lparr>ManHash = ''b'', ManVersion = 2, ManPolicyCount = 0, StoredAt = 3\<rparr>\<rparr>)],
      stKeep = 1\<rparr>)))) = 1"
  using gc_keeps_the_newest [of "\<lparr>stDirs = [(''a'', \<lparr>seContent = None, seSig = None, seManifest = Some \<lparr>ManHash = ''a'', ManVersion = 1, ManPolicyCount = 0, StoredAt = 5\<rparr>\<rparr>),
                (''b'', \<lparr>seContent = None, seSig = None, seManifest = Some \<lparr>ManHash = ''b'', ManVersion = 2, ManPolicyCount = 0, StoredAt = 3\<rparr>\<rparr>)],
      stKeep = 1\<rparr>" "\<lambda>_. False" "sort_key snd"]
  by (simp add: Let_def gc_candidates_def List.map_filter_simps)

end
