(* ===== verification/DaemonApi.thy ===== *)
theory DaemonApi
  imports DaemonLabels Bundle
begin

text \<open>
  The HTTP side of the daemon and its start: the reload and health endpoints (\<^verbatim>\<open>daemon.go\<close>), the delegation endpoints
  (\<^verbatim>\<open>delegation_api.go\<close>), the watcher of the policy directory (\<^verbatim>\<open>internal/reload\<close>), the reloader and the paths of
  \<^verbatim>\<open>cmd/nixis-daemon/main.go\<close> and \<^verbatim>\<open>config.go\<close>, and what the approval endpoint leaves in the registry of a running daemon.
\<close>

section \<open>Paths\<close>

record Env =
  envGet :: "string \<Rightarrow> string"
  envHome :: "string option"

definition defaultSocketPath :: "Env \<Rightarrow> string" where
  "defaultSocketPath e =
    (if envGet e ''NIXIS_SOCKET_PATH'' \<noteq> [] then envGet e ''NIXIS_SOCKET_PATH''
     else if envGet e ''XDG_RUNTIME_DIR'' \<noteq> [] then filepath_Join [envGet e ''XDG_RUNTIME_DIR'', ''nixis'', ''nixis.sock'']
     else ''/tmp/nixis.sock'')"

definition defaultFailOpenLog :: "Env \<Rightarrow> string" where
  "defaultFailOpenLog e =
    (if envGet e ''NIXIS_FAILOPEN_LOG'' \<noteq> [] then envGet e ''NIXIS_FAILOPEN_LOG''
     else case envHome e of None \<Rightarrow> ''/tmp/nixis-failopen.log'' | Some h \<Rightarrow> filepath_Join [h, ''.nixis'', ''failopen.log''])"

record Config =
  CfgSocketPath :: string
  CfgPolicyDir :: string
  CfgAuditDBPath :: string
  CfgFailOpenLog :: string
  CfgHealthzAddr :: string

definition applyDefaults :: "Env \<Rightarrow> Config \<Rightarrow> Config" where
  "applyDefaults e c =
    (let c1 = (if CfgSocketPath c = [] then c\<lparr>CfgSocketPath := defaultSocketPath e\<rparr> else c);
         c2 = (if CfgFailOpenLog c1 = [] then c1\<lparr>CfgFailOpenLog := defaultFailOpenLog e\<rparr> else c1)
     in if CfgHealthzAddr c2 = [] then c2\<lparr>CfgHealthzAddr := ''127.0.0.1:9091''\<rparr> else c2)"

definition expandHome :: "Env \<Rightarrow> string \<Rightarrow> string" where
  "expandHome e path =
    (if path = [] \<or> hd path \<noteq> CHR ''~'' then path
     else case envHome e of None \<Rightarrow> path | Some h \<Rightarrow> h @ tl path)"

section \<open>Reloading\<close>

text \<open>\<^verbatim>\<open>policyReloader.Reload\<close>: the flag is success; \<^const>\<open>None\<close> when parsing does not return.\<close>

definition policyReloader_Reload ::
    "PolicyLib \<Rightarrow> (string \<rightharpoonup> string) \<Rightarrow> walk_item list \<Rightarrow> ('ast, 'prog) EngineEnv \<Rightarrow> gotime \<Rightarrow> 'prog engineState \<Rightarrow> ('prog engineState \<times> bool) option" where
  "policyReloader_Reload lib files walk env now st = map_option (\<lambda>r. case r of
     Inl e \<Rightarrow> (st, False)
   | Inr (ts, bs) \<Rightarrow> engine_reload env now \<lparr>BundleVersion = 1, BundleHash = replicate 32 0, Templates = ts, Bindings = bs\<rparr> st)
   (ParsePolicyDir lib files walk)"

text \<open>The reload endpoint; \<^verbatim>\<open>reload\<close> is the wired reloader, if any.  The answer is the status code.\<close>

definition handleReload ::
    "string \<Rightarrow> ('prog engineState \<Rightarrow> ('prog engineState \<times> bool) option) option \<Rightarrow> 'prog Daemon \<Rightarrow> ('prog Daemon \<times> nat) option" where
  "handleReload meth reload d =
    (if meth \<noteq> ''POST'' then Some (d, 405)
     else case reload of None \<Rightarrow> Some (d, 503)
     | Some r \<Rightarrow> map_option (\<lambda>(st, ok). (d\<lparr>dmEngine := st\<rparr>, if ok then 200 else 500)) (r (dmEngine d)))"

text \<open>The watcher: file events arm a timer, its firing reloads and counts.  Of the operations of an event only create,
  write and remove matter.\<close>

definition debounceDuration :: duration where "debounceDuration = 100000000"

record fsOp =
  opCreate :: bool
  opWrite :: bool
  opRemove :: bool
  opRename :: bool
  opChmod :: bool

record 'prog Watcher =
  waTimer :: "gotime option"
  waSuccess :: nat
  waError :: nat
  waEngine :: "'prog engineState"

definition isYAMLFile :: "string \<Rightarrow> bool" where
  "isYAMLFile name \<longleftrightarrow> Ext name = ''.yaml'' \<or> Ext name = ''.yml''"

definition watch_event :: "gotime \<Rightarrow> string \<Rightarrow> fsOp \<Rightarrow> 'prog Watcher \<Rightarrow> 'prog Watcher" where
  "watch_event now name op w =
    (if \<not> isYAMLFile name then w
     else if \<not> (opCreate op \<or> opWrite op \<or> opRemove op) then w
     else w\<lparr>waTimer := Some (now + debounceDuration)\<rparr>)"

definition watch_tick ::
    "('prog engineState \<Rightarrow> ('prog engineState \<times> bool) option) \<Rightarrow> gotime \<Rightarrow> 'prog Watcher \<Rightarrow> 'prog Watcher option" where
  "watch_tick reload now w = (case waTimer w of
     None \<Rightarrow> Some w
   | Some t \<Rightarrow> if now < t then Some w
               else map_option (\<lambda>(st, ok). w\<lparr>waTimer := None, waEngine := st,
                      waSuccess := waSuccess w + (if ok then 1 else 0), waError := waError w + (if ok then 0 else 1)\<rparr>) (reload (waEngine w)))"

section \<open>Health\<close>

record Check =
  ChkName :: string
  ChkStatus :: string
  ChkError :: string

record HealthResponse =
  HrStatus :: string
  HrMode :: string
  HrModeReason :: string
  HrUptimeMs :: int
  HrEvaluations :: nat
  HrVersion :: string
  HrChecks :: "Check list"

definition runHealthChecks :: "bool \<Rightarrow> bool \<Rightarrow> bool \<Rightarrow> Check list" where
  "runHealthChecks listener engine auditWriter =
     [if listener then \<lparr>ChkName = ''listener'', ChkStatus = ''ok'', ChkError = []\<rparr>
      else \<lparr>ChkName = ''listener'', ChkStatus = ''error'', ChkError = ''not bound''\<rparr>,
      if engine then \<lparr>ChkName = ''engine'', ChkStatus = ''ok'', ChkError = []\<rparr>
      else \<lparr>ChkName = ''engine'', ChkStatus = ''error'', ChkError = ''not initialized''\<rparr>] @
     (if auditWriter then [\<lparr>ChkName = ''audit'', ChkStatus = ''ok'', ChkError = []\<rparr>] else [])"

definition handleHealthz :: "gotime \<Rightarrow> gotime \<Rightarrow> bool \<Rightarrow> bool \<Rightarrow> bool \<Rightarrow> 'prog Daemon \<Rightarrow> nat \<times> HealthResponse" where
  "handleHealthz startTime now listener engine auditWriter d =
    (let (mode, reason) = mode_Get (dmMode d) in
     (case mode of ModeNormal \<Rightarrow> 200 | ModeDegraded \<Rightarrow> 200 | ModeDenyAll \<Rightarrow> 503 | ModeReadOnly \<Rightarrow> 503,
      \<lparr>HrStatus = HealthStatus mode, HrMode = modeString mode, HrModeReason = reason, HrUptimeMs = (now - startTime) div 1000000,
       HrEvaluations = dmEvaluations d, HrVersion = ''v4'', HrChecks = runHealthChecks listener engine auditWriter\<rparr>))"

section \<open>Delegation endpoints\<close>

text \<open>\<^verbatim>\<open>decode\<close> reads the chain id of the first JSON value of a body; the body is cut at 4096 bytes.\<close>

definition handleRevoke ::
    "(string \<Rightarrow> string option) \<Rightarrow> string \<Rightarrow> string \<Rightarrow> 'key DelegationEngine \<Rightarrow> 'key DelegationEngine \<times> nat \<times> (string \<times> string \<times> string) list" where
  "handleRevoke decode meth body e =
    (if meth \<noteq> ''POST'' then (e, 405, [])
     else case decode (take 4096 body) of
       None \<Rightarrow> (e, 400, [])
     | Some chainID \<Rightarrow> if chainID = [] then (e, 400, [])
                       else (let (e', events) = Revoke chainID e in (e', 200, events)))"

definition handleList :: "string \<Rightarrow> 'key DelegationEngine \<Rightarrow> nat \<times> (string \<times> gotime) list" where
  "handleList meth e = (if meth \<noteq> ''GET'' then (405, []) else (200, ListActive e))"

section \<open>The fail-open log\<close>

text \<open>The entries a start of the daemon reports: one line per call the hook let through.  \<^verbatim>\<open>decode\<close> is the JSON decoder;
  a line that does not decode is counted and not printed.\<close>

definition reconcileFailOpenLog :: "(string \<Rightarrow> 'e option) \<Rightarrow> string list \<Rightarrow> 'e list \<times> nat" where
  "reconcileFailOpenLog decode lines =
    (let ls = filter (\<lambda>l. l \<noteq> []) lines in (List.map_filter decode ls, length ls))"

section \<open>Standing rules of a running daemon\<close>

definition rule_ok :: "StandingRule \<Rightarrow> bool" where
  "rule_ok r \<longleftrightarrow> RuleEffect r \<in> set validEffects \<and> ResourcePattern r \<noteq> [] \<and>
     GrantedAt r < ExpiresAt r \<and> ExpiresAt r \<le> GrantedAt r + maxApprovalTTLSeconds * second"

definition grants_ok :: "u32 \<times> StandingRule list \<Rightarrow> bool" where
  "grants_ok g \<longleftrightarrow> fst g = (if snd g = [] then ApprovalNone else ApprovalStandingRule) \<and> list_all rule_ok (snd g)"

lemma approvals_AddStandingRule:
  "grants_ok (approvals st sid) \<Longrightarrow> rule_ok rule \<Longrightarrow>
   grants_ok (approvals (on_sessions (\<lambda>s. AddStandingRule s x rule) st) sid)"
  by (cases "esSessions st")
     (auto simp: approvals_def on_sessions_def AddStandingRule_def grants_ok_def getOrCreate_def approval_defs Let_def split: if_splits)

lemma approvals_prune:
  assumes "grants_ok (approvals st sid)"
  shows "grants_ok (approvals (on_sessions (PruneExpiredRules now) st) sid)"
proof (cases "esSessions st")
  case (Some s)
  show ?thesis
  proof (cases "s sid")
    case (Some e)
    have "list_all rule_ok (filter P (sdRules e))" if "list_all rule_ok (sdRules e)" for P using that by (auto simp: list_all_iff)
    then show ?thesis
      using assms Some \<open>esSessions st = Some s\<close>
      by (auto simp: approvals_def on_sessions_def PruneExpiredRules_def pruneEntry_def grants_ok_def getOrCreate_def approval_defs Let_def split: if_splits)
  qed (use assms Some in \<open>simp add: approvals_def on_sessions_def PruneExpiredRules_def getOrCreate_def\<close>)
qed (use assms in \<open>simp add: approvals_def on_sessions_def\<close>)

lemma approvals_persist [simp]: "approvals (dmEngine (persist_label now req resp d)) sid = approvals (dmEngine d) sid"
  by (auto simp: persist_label_def Let_def on_sessions_approvals split: option.split)

lemma approvals_serve [simp]:
  "approvals (dmEngine (fst (serve_request env codec ci req d))) sid = approvals (dmEngine d) sid"
proof -
  obtain eng resp where ev: "Evaluate env (ciEval ci) req (dmEngine d) = (eng, resp)" by fastforce
  then have e: "approvals eng sid = approvals (dmEngine d) sid" using Evaluate_approvals [of env "ciEval ci" req "dmEngine d" sid] by simp
  show ?thesis by (simp add: serve_request_def ev Let_def e split: option.split)
qed

lemma approvals_handle [simp]:
  "approvals (dmEngine (fst (handleConnection env codec ci stream d))) sid = approvals (dmEngine d) sid"
  by (simp add: handleConnection_def split: sum.split ReadError.split option.split)

lemma approvals_approve:
  assumes "grants_ok (approvals (dmEngine d) sid)"
  shows "grants_ok (approvals (dmEngine (fst (handleApprove now meth path body d))) sid)"
proof -
  have "rule_ok \<lparr>RuleEffect = ApEffect r, ResourcePattern = ApPattern r,
      ExpiresAt = now + (if ApTTL r \<le> 0 then 1800 else ApTTL r) * second, GrantedAt = now, GrantedBy = ApGrantedBy r\<rparr>"
    if "ApEffect r \<in> set validEffects" "ApPattern r \<noteq> []" "\<not> maxApprovalTTLSeconds < (if ApTTL r \<le> 0 then 1800 else ApTTL r)" for r
    using that by (auto simp: rule_ok_def second_def)
  note added = approvals_AddStandingRule [OF assms this]
  show ?thesis
  proof (cases body)
    case (Some r)
    show ?thesis
    proof (cases "maxApprovalTTLSeconds < (if ApTTL r \<le> 0 then 1800 else ApTTL r)")
      case False
      from added [OF _ _ this] show ?thesis using assms Some unfolding handleApprove_def Let_def by simp
    qed (use assms Some in \<open>simp add: handleApprove_def Let_def\<close>)
  qed (use assms in \<open>simp add: handleApprove_def Let_def\<close>)
qed

lemma approvals_Reload: "approvals (fst (Reload env now bundle st)) sid = approvals st sid"
  by (simp add: Reload_def Let_def approvals_def split: sum.split prod.split)

lemma grants_ok_step:
  assumes "daemon_step env codec d d'" and "\<And>sid. grants_ok (approvals (dmEngine d) sid)"
  shows "grants_ok (approvals (dmEngine d') sid)"
  using assms(1)
proof (cases rule: daemon_step.cases)
  case (ds_history now)
  then have "approvals (dmEngine d') sid = approvals (dmEngine d) sid" by (simp add: prune_history_def approvals_def)
  then show ?thesis using assms(2) by simp
qed (use assms(2) in \<open>simp_all add: approvals_approve approvals_prune prune_rules_def approvals_Reload\<close>)

text \<open>Claim C18. Approvals are bounded.  In a daemon that starts with an empty registry, after any sequence of connections,
  approvals, maintenance, reloads, mode changes and audit writes, a session is approved exactly when it holds a
  standing rule, a blanket approval is never recorded, and every rule names one of the five effects and a
  non-empty pattern and expires after, but at most 7200 seconds after, it was granted.\<close>

theorem standing_rules_bounded:
  assumes "esSessions (dmEngine d0) = Some Map.empty" and "daemon_reach env codec d0 d"
  shows "fst (approvals (dmEngine d) sid) = (if snd (approvals (dmEngine d) sid) = [] then ApprovalNone else ApprovalStandingRule) \<and>
    (\<forall>r \<in> set (snd (approvals (dmEngine d) sid)). RuleEffect r \<in> set validEffects \<and> ResourcePattern r \<noteq> [] \<and>
       GrantedAt r < ExpiresAt r \<and> ExpiresAt r \<le> GrantedAt r + 7200 * second)"
proof -
  have "grants_ok (approvals (dmEngine d0) sid)" for sid
    using assms(1) by (simp add: approvals_def getOrCreate_def grants_ok_def approval_defs)
  from assms(2) this have "\<And>sid. grants_ok (approvals (dmEngine d) sid)"
  proof (induction rule: rtranclp_induct)
    case (step y z)
    from grants_ok_step [OF step.hyps(2)] step.IH step.prems show ?case by blast
  qed
  then show ?thesis by (auto simp: grants_ok_def rule_ok_def list_all_iff maxApprovalTTLSeconds_def)
qed

theorem standing_rules_bounded_witness:
  "\<exists>r. snd (approvals (dmEngine (fst (handleApprove 0 ''POST'' ''/api/v1/sessions/s1/approve''
       (Some \<lparr>ApEffect = ''network_egress'', ApPattern = ''*.github.com'', ApTTL = 0, ApGrantedBy = ''u''\<rparr>) demo_daemon))) ''s1'') = [r] \<and>
     ExpiresAt r \<le> GrantedAt r + 7200 * second"
proof -
  let ?d = "fst (handleApprove 0 ''POST'' ''/api/v1/sessions/s1/approve''
       (Some \<lparr>ApEffect = ''network_egress'', ApPattern = ''*.github.com'', ApTTL = 0, ApGrantedBy = ''u''\<rparr>) demo_daemon)"
  let ?r = "\<lparr>RuleEffect = ''network_egress'', ResourcePattern = ''*.github.com'', ExpiresAt = 1800 * second, GrantedAt = 0, GrantedBy = ''u''\<rparr>"
  have e: "dmEngine demo_daemon = demo_state [(''p'', ''true'', [])]" by (simp add: demo_daemon_def)
  have 1: "esSessions (dmEngine demo_daemon) = Some Map.empty" by (simp add: e demo_sessions)
  have "extractSessionID ''/api/v1/sessions/s1/approve'' = ''s1''" by code_simp
  then have "snd (approvals (dmEngine ?d) ''s1'') = [?r]"
    using 1 by (simp add: handleApprove_def validEffects_def maxApprovalTTLSeconds_def demo_daemon_def approvals_def on_sessions_def
        AddStandingRule_def getOrCreate_def Let_def)
  moreover have "daemon_reach (demo_env (ScanDone [])) demo_dcodec demo_daemon ?d" by (rule r_into_rtranclp) (rule ds_approve)
  from standing_rules_bounded [OF 1 this, of "''s1''"] calculation show ?thesis by simp
qed

section \<open>Reloading\<close>

text \<open>What the endpoint and the watcher rely on: a reload that fails leaves the engine as it was.\<close>

locale reload_service =
  fixes reload :: "'prog engineState \<Rightarrow> ('prog engineState \<times> bool) option"
  assumes failed_keeps: "reload st = Some (st', False) \<Longrightarrow> st' = st"
begin

lemma endpoint_outcome:
  assumes "handleReload meth (Some reload) d = Some (d', code)"
  shows "if code = 200 then meth = ''POST'' \<and> reload (dmEngine d) = Some (dmEngine d', True) \<and> d' = d\<lparr>dmEngine := dmEngine d'\<rparr> else d' = d"
proof (cases "meth = ''POST''")
  case True
  then obtain st' ok where r: "reload (dmEngine d) = Some (st', ok)" using assms by (auto simp: handleReload_def)
  show ?thesis
  proof (cases ok)
    case False
    then have "st' = dmEngine d" using failed_keeps [of "dmEngine d" st'] r by simp
    then show ?thesis using False r assms True by (auto simp: handleReload_def)
  qed (use r assms True in \<open>auto simp: handleReload_def\<close>)
qed (use assms in \<open>auto simp: handleReload_def\<close>)

lemma tick_fires:
  assumes "waTimer w = Some t" and "t \<le> now" and "\<exists>r. reload (waEngine w) = Some r"
  shows "\<exists>w'. watch_tick reload now w = Some w' \<and> waTimer w' = None \<and>
    (reload (waEngine w) = Some (waEngine w', True) \<and> waSuccess w' = waSuccess w + 1 \<and> waError w' = waError w \<or>
     waEngine w' = waEngine w \<and> waSuccess w' = waSuccess w \<and> waError w' = waError w + 1)"
proof -
  obtain st' ok where r: "reload (waEngine w) = Some (st', ok)" using assms(3) by auto
  have "ok \<or> st' = waEngine w" using failed_keeps [of "waEngine w" st'] r by (cases ok) auto
  then show ?thesis using assms r by (auto simp: watch_tick_def)
qed

end

interpretation dir_reload: reload_service "policyReloader_Reload lib files walk env now" for lib files walk env now
proof
  fix st st' assume a: "policyReloader_Reload lib files walk env now st = Some (st', False)"
  then obtain r where r: "ParsePolicyDir lib files walk = Some r" by (auto simp: policyReloader_Reload_def)
  show "st' = st"
  proof (cases r)
    case (Inr p)
    then obtain c where "engine_reload env now c st = (st', False)" using a r by (cases p) (auto simp: policyReloader_Reload_def)
    then show ?thesis using engine_reloader.failed_reload_keeps [of env now c st] by simp
  qed (use a r in \<open>auto simp: policyReloader_Reload_def\<close>)
qed

lemma policyReloader_returns:
  assumes "lib_ok lib"
  shows "\<exists>r. policyReloader_Reload lib files walk env now st = Some r"
proof -
  obtain r where "ParsePolicyDir lib files walk = Some r"
    using parse_walk_files [OF assms] parse_walk_error [OF assms] unfolding ParsePolicyDir_def by blast
  then show ?thesis unfolding policyReloader_Reload_def by (metis option.simps(9))
qed

text \<open>A sequence of file events and of moments at which the timer may fire.\<close>

datatype watch_input = FsEvent gotime string fsOp | Tick gotime

fun watch_run :: "('prog engineState \<Rightarrow> ('prog engineState \<times> bool) option) \<Rightarrow> watch_input list \<Rightarrow> 'prog Watcher \<Rightarrow> 'prog Watcher option" where
  "watch_run reload [] w = Some w"
| "watch_run reload (FsEvent now name op # is) w = watch_run reload is (watch_event now name op w)"
| "watch_run reload (Tick now # is) w = Option.bind (watch_tick reload now w) (watch_run reload is)"

definition policy_change :: "string \<Rightarrow> fsOp \<Rightarrow> bool" where
  "policy_change name op \<longleftrightarrow> isYAMLFile name \<and> (opCreate op \<or> opWrite op \<or> opRemove op)"

fun last_change :: "gotime option \<Rightarrow> watch_input list \<Rightarrow> gotime option" where
  "last_change t [] = t"
| "last_change t (FsEvent now name op # is) = last_change (if policy_change name op then Some now else t) is"
| "last_change t (Tick now # is) = last_change t is"

text \<open>Every moment lies less than the debounce time after the last change before it.\<close>

fun burst :: "gotime option \<Rightarrow> watch_input list \<Rightarrow> bool" where
  "burst t [] \<longleftrightarrow> True"
| "burst t (FsEvent now name op # is) \<longleftrightarrow> burst (if policy_change name op then Some now else t) is"
| "burst t (Tick now # is) \<longleftrightarrow> (case t of None \<Rightarrow> True | Some c \<Rightarrow> now < c + debounceDuration) \<and> burst t is"

lemma burst_run:
  "burst t is \<Longrightarrow> waTimer w = map_option (\<lambda>c. c + debounceDuration) t \<Longrightarrow>
   watch_run reload (is @ js) w = watch_run reload js (w\<lparr>waTimer := map_option (\<lambda>c. c + debounceDuration) (last_change t is)\<rparr>)"
proof (induction "is" arbitrary: t w)
  case (Cons i "is")
  show ?case
  proof (cases i)
    case (FsEvent now name op)
    let ?t = "if policy_change name op then Some now else t"
    have "waTimer (watch_event now name op w) = map_option (\<lambda>c. c + debounceDuration) ?t"
      using Cons.prems by (simp add: watch_event_def policy_change_def)
    moreover have "watch_event now name op w\<lparr>waTimer := x\<rparr> = w\<lparr>waTimer := x\<rparr>" for x by (simp add: watch_event_def)
    ultimately show ?thesis using Cons.IH [of ?t "watch_event now name op w"] Cons.prems FsEvent by simp
  next
    case (Tick now)
    then have "watch_tick reload now w = Some w" using Cons.prems by (auto simp: watch_tick_def split: option.splits)
    then show ?thesis using Cons Tick by simp
  qed
next
  case Nil
  then have "w\<lparr>waTimer := map_option (\<lambda>c. c + debounceDuration) t\<rparr> = w" by (metis Watcher.surjective Watcher.update_convs(1))
  then show ?case by simp
qed


definition demo_watcher :: "string Watcher" where
  "demo_watcher = \<lparr>waTimer = None, waSuccess = 0, waError = 0, waEngine = demo_start\<rparr>"

definition demo_op :: fsOp where
  "demo_op = \<lparr>opCreate = False, opWrite = True, opRemove = False, opRename = False, opChmod = False\<rparr>"


end
