(* ===== verification/Hook.thy ===== *)
theory Hook
  imports Daemon
begin

text \<open>
  The hook, \<^verbatim>\<open>cmd/nixis-hook\<close>: one run per tool call of the IDE.  It reads the IDE's JSON, picks an adapter, asks the
  daemon and prints the IDE's form of the decision; whenever something fails it prints an allow and logs the
  failure.  The output is the structure whose JSON is printed.  JSON codecs, the environment and the connection
  are parameters; a run against the daemon of \<^verbatim>\<open>internal/daemon\<close> is \<^verbatim>\<open>hook_run\<close>.
\<close>

section \<open>Outputs\<close>

record ClaudeCodeHookSpecific =
  HookEventName :: string
  PermissionDecision :: string
  PermissionDecisionReason :: string

record CursorHookOutput =
  CursorAction :: string
  CursorReason :: string
  CursorPolicyID :: string
  CursorLatencyNs :: int

datatype HookOut = ClaudeOut ClaudeCodeHookSpecific | CursorOut CursorHookOutput

record FailOpenEntry =
  FoTs :: gotime
  FoSession :: string
  FoTool :: string
  FoArgsHash :: string
  FoReason :: string
  FoDeadlineExceeded :: bool

text \<open>Codecs and environment.  \<^verbatim>\<open>hkRaw raw name\<close> is the raw text of a member of the input object, empty when it is
  absent.  \<^verbatim>\<open>hkMarshalOut\<close> says whether the output marshals.\<close>

record HookLib =
  hkParse :: json_parser
  hkRaw :: "string \<Rightarrow> string \<Rightarrow> string"
  hkMarshalReq :: "CheckRequest \<Rightarrow> bytes option"
  hkUnmarshalResp :: "bytes \<Rightarrow> CheckResponse option"
  hkMarshalOut :: "HookOut \<Rightarrow> bool"
  hkGetenv :: "string \<Rightarrow> string"
  hkHome :: "string option"
  hkSha :: "bytes \<Rightarrow> bytes"

section \<open>Adapters\<close>

datatype IDEAdapter = ClaudeCodeAdapter | CursorAdapter | GenericAdapter

text \<open>The string fields of a struct, empty when absent; \<^const>\<open>None\<close> when the input is not an object or a field has
  another type.\<close>

definition probe_fields :: "HookLib \<Rightarrow> string list \<Rightarrow> string \<Rightarrow> (string \<Rightarrow> string) option" where
  "probe_fields lib keys raw = unmarshal_fields (hkParse lib) keys raw"

definition claude_Detect :: "HookLib \<Rightarrow> string \<Rightarrow> bool" where
  [simp]: "claude_Detect lib raw = (case probe_fields lib [''hook_event_name''] raw of
     None \<Rightarrow> False | Some f \<Rightarrow> f ''hook_event_name'' \<noteq> [])"

definition cursor_Detect :: "HookLib \<Rightarrow> string \<Rightarrow> bool" where
  [simp]: "cursor_Detect lib raw = (case probe_fields lib [''conversation_id'', ''hook_event_name''] raw of
     None \<Rightarrow> False | Some f \<Rightarrow> f ''conversation_id'' \<noteq> [] \<and> f ''hook_event_name'' = [])"

fun Detect :: "HookLib \<Rightarrow> IDEAdapter \<Rightarrow> string \<Rightarrow> bool" where
  "Detect lib ClaudeCodeAdapter raw = claude_Detect lib raw"
| "Detect lib CursorAdapter raw = cursor_Detect lib raw"
| "Detect lib GenericAdapter raw = True"

definition adapters :: "IDEAdapter list" where
  "adapters = [ClaudeCodeAdapter, CursorAdapter, GenericAdapter]"

definition detectAdapter :: "HookLib \<Rightarrow> string \<Rightarrow> IDEAdapter" where
  "detectAdapter lib raw = (case find (\<lambda>a. Detect lib a raw) adapters of Some a \<Rightarrow> a | None \<Rightarrow> GenericAdapter)"

definition hook_request :: "HookLib \<Rightarrow> string \<Rightarrow> string \<Rightarrow> string \<Rightarrow> CheckRequest" where
  "hook_request lib tool args sid =
     \<lparr>Tool = tool, Args = args, SessionID = sid, ParentSessionID = hkGetenv lib ''NIXIS_PARENT_SESSION_ID'',
      SpawnToken = hkGetenv lib ''NIXIS_SPAWN_TOKEN'', ProjectRoot = hkGetenv lib ''NIXIS_PROJECT_ROOT'',
      RequestLabel = zeroLabel, AuthorityChain = [], Nonce = replicate 16 0, Timestamp = 0\<rparr>"

definition resolveToolName :: "(string \<Rightarrow> string) \<Rightarrow> string" where
  "resolveToolName f = (if f ''tool_name'' \<noteq> [] then f ''tool_name'' else f ''tool'')"

definition resolveArgs :: "HookLib \<Rightarrow> string \<Rightarrow> string" where
  "resolveArgs lib raw =
    (let present = (\<lambda>name. hkRaw lib raw name \<noteq> [] \<and> hkRaw lib raw name \<noteq> ''null'') in
     if present ''input'' then hkRaw lib raw ''input''
     else if present ''tool_input'' then hkRaw lib raw ''tool_input''
     else if present ''args'' then hkRaw lib raw ''args''
     else ''{}'')"

definition claude_ParseInput :: "HookLib \<Rightarrow> string \<Rightarrow> CheckRequest option" where
  [simp]: "claude_ParseInput lib raw = (case probe_fields lib [''session_id'', ''hook_event_name'', ''tool_name''] raw of
     None \<Rightarrow> None
   | Some f \<Rightarrow> Some (hook_request lib (f ''tool_name'') (hkRaw lib raw ''tool_input'') (f ''session_id'')))"

definition cursor_ParseInput :: "HookLib \<Rightarrow> string \<Rightarrow> CheckRequest option" where
  [simp]: "cursor_ParseInput lib raw = (case probe_fields lib [''tool_name'', ''conversation_id''] raw of
     None \<Rightarrow> None
   | Some f \<Rightarrow> Some (hook_request lib (f ''tool_name'') (hkRaw lib raw ''input'') (f ''conversation_id'')))"

definition generic_ParseInput :: "HookLib \<Rightarrow> string \<Rightarrow> CheckRequest option" where
  [simp]: "generic_ParseInput lib raw = (case probe_fields lib [''tool_name'', ''tool'', ''session_id''] raw of
     None \<Rightarrow> None
   | Some f \<Rightarrow> if resolveToolName f = [] then None
               else Some (hook_request lib (resolveToolName f) (resolveArgs lib raw) (f ''session_id'')))"

fun ParseInput :: "HookLib \<Rightarrow> IDEAdapter \<Rightarrow> string \<Rightarrow> CheckRequest option" where
  "ParseInput lib ClaudeCodeAdapter raw = claude_ParseInput lib raw"
| "ParseInput lib CursorAdapter raw = cursor_ParseInput lib raw"
| "ParseInput lib GenericAdapter raw = generic_ParseInput lib raw"

definition event_name :: "HookLib \<Rightarrow> string \<Rightarrow> string" where
  "event_name lib raw = (case probe_fields lib [''hook_event_name''] raw of None \<Rightarrow> [] | Some f \<Rightarrow> f ''hook_event_name'')"

definition claude_decision :: "string \<Rightarrow> CheckResponse \<Rightarrow> ClaudeCodeHookSpecific" where
  "claude_decision event resp = (let r = Reason (RespDecision resp) in case resp_action resp of
     ActionAllow \<Rightarrow> \<lparr>HookEventName = event, PermissionDecision = ''allow'', PermissionDecisionReason = []\<rparr>
   | ActionDeny \<Rightarrow> \<lparr>HookEventName = event, PermissionDecision = ''deny'', PermissionDecisionReason = r\<rparr>
   | ActionRequireApproval \<Rightarrow> \<lparr>HookEventName = event, PermissionDecision = ''ask'', PermissionDecisionReason = r\<rparr>
   | ActionAudit \<Rightarrow> \<lparr>HookEventName = event, PermissionDecision = ''allow'', PermissionDecisionReason = []\<rparr>)"

definition cursor_decision :: "CheckResponse \<Rightarrow> CursorHookOutput" where
  "cursor_decision resp =
    (let r = Reason (RespDecision resp); p = PolicyID (RespDecision resp); l = LatencyNs resp in case resp_action resp of
     ActionAllow \<Rightarrow> \<lparr>CursorAction = ''allow'', CursorReason = [], CursorPolicyID = [], CursorLatencyNs = l\<rparr>
   | ActionDeny \<Rightarrow> \<lparr>CursorAction = ''deny'', CursorReason = r, CursorPolicyID = p, CursorLatencyNs = l\<rparr>
   | ActionRequireApproval \<Rightarrow> \<lparr>CursorAction = ''require_approval'', CursorReason = r, CursorPolicyID = p, CursorLatencyNs = l\<rparr>
   | ActionAudit \<Rightarrow> \<lparr>CursorAction = ''audit'', CursorReason = [], CursorPolicyID = [], CursorLatencyNs = l\<rparr>)"

definition claude_fallback :: HookOut where
  "claude_fallback = ClaudeOut \<lparr>HookEventName = [], PermissionDecision = ''allow'', PermissionDecisionReason = []\<rparr>"

definition cursor_fallback :: HookOut where
  "cursor_fallback = CursorOut \<lparr>CursorAction = ''allow'', CursorReason = [], CursorPolicyID = [], CursorLatencyNs = 0\<rparr>"

definition claude_FormatOutput :: "HookLib \<Rightarrow> CheckResponse \<Rightarrow> string \<Rightarrow> HookOut \<times> nat" where
  [simp]: "claude_FormatOutput lib resp raw =
    (let out = ClaudeOut (claude_decision (event_name lib raw) resp) in if hkMarshalOut lib out then (out, 0) else (claude_fallback, 0))"

definition cursor_FormatOutput :: "HookLib \<Rightarrow> CheckResponse \<Rightarrow> HookOut \<times> nat" where
  [simp]: "cursor_FormatOutput lib resp =
    (let out = CursorOut (cursor_decision resp);
         exitCode = (if resp_action resp = ActionDeny \<or> resp_action resp = ActionRequireApproval then 2 else 0)
     in if hkMarshalOut lib out then (out, exitCode) else (cursor_fallback, 0))"

definition generic_FormatOutput :: "HookLib \<Rightarrow> CheckResponse \<Rightarrow> HookOut \<times> nat" where
  [simp]: "generic_FormatOutput lib resp =
    (let out = ClaudeOut (claude_decision [] resp) in if hkMarshalOut lib out then (out, 0) else (claude_fallback, 0))"

fun FormatOutput :: "HookLib \<Rightarrow> IDEAdapter \<Rightarrow> CheckResponse \<Rightarrow> string \<Rightarrow> HookOut \<times> nat" where
  "FormatOutput lib ClaudeCodeAdapter resp raw = claude_FormatOutput lib resp raw"
| "FormatOutput lib CursorAdapter resp raw = cursor_FormatOutput lib resp"
| "FormatOutput lib GenericAdapter resp raw = generic_FormatOutput lib resp"

definition claude_FormatFailOpen :: "HookLib \<Rightarrow> string \<Rightarrow> string \<Rightarrow> HookOut \<times> nat" where
  [simp]: "claude_FormatFailOpen lib reason raw =
    (let out = ClaudeOut \<lparr>HookEventName = event_name lib raw, PermissionDecision = ''allow'', PermissionDecisionReason = ''fail-open: '' @ reason\<rparr>
     in if hkMarshalOut lib out then (out, 0) else (claude_fallback, 0))"

definition cursor_FormatFailOpen :: "HookLib \<Rightarrow> string \<Rightarrow> HookOut \<times> nat" where
  [simp]: "cursor_FormatFailOpen lib reason =
    (let out = CursorOut \<lparr>CursorAction = ''allow'', CursorReason = ''fail-open: '' @ reason, CursorPolicyID = [], CursorLatencyNs = 0\<rparr>
     in if hkMarshalOut lib out then (out, 0) else (cursor_fallback, 0))"

definition generic_FormatFailOpen :: "HookLib \<Rightarrow> string \<Rightarrow> HookOut \<times> nat" where
  [simp]: "generic_FormatFailOpen lib reason =
    (let out = ClaudeOut \<lparr>HookEventName = [], PermissionDecision = ''allow'', PermissionDecisionReason = ''fail-open: '' @ reason\<rparr>
     in if hkMarshalOut lib out then (out, 0) else (claude_fallback, 0))"

fun FormatFailOpen :: "HookLib \<Rightarrow> IDEAdapter \<Rightarrow> string \<Rightarrow> string \<Rightarrow> HookOut \<times> nat" where
  "FormatFailOpen lib ClaudeCodeAdapter reason raw = claude_FormatFailOpen lib reason raw"
| "FormatFailOpen lib CursorAdapter reason raw = cursor_FormatFailOpen lib reason"
| "FormatFailOpen lib GenericAdapter reason raw = generic_FormatFailOpen lib reason"

section \<open>Paths\<close>

definition socketPath :: "HookLib \<Rightarrow> string" where
  "socketPath lib =
    (if hkGetenv lib ''NIXIS_SOCKET_PATH'' \<noteq> [] then hkGetenv lib ''NIXIS_SOCKET_PATH''
     else if hkGetenv lib ''XDG_RUNTIME_DIR'' \<noteq> [] then hkGetenv lib ''XDG_RUNTIME_DIR'' @ ''/nixis/nixis.sock''
     else ''/tmp/nixis.sock'')"

definition failOpenLogPath :: "HookLib \<Rightarrow> string" where
  "failOpenLogPath lib =
    (if hkGetenv lib ''NIXIS_FAILOPEN_LOG'' \<noteq> [] then hkGetenv lib ''NIXIS_FAILOPEN_LOG''
     else case hkHome lib of None \<Rightarrow> ''/tmp/nixis-failopen.log'' | Some dir \<Rightarrow> dir @ ''/.nixis/failopen.log'')"

section \<open>One run\<close>

text \<open>What happens to a run: the bytes on standard input, \<^const>\<open>None\<close> when reading fails or takes too long; whether the
  daemon can be dialled and the request sent in time; whether the deadline has passed when a failure is logged;
  and the time of the request and of the log entry.\<close>

record HookWorld =
  hwStdin :: "string option"
  hwDial :: bool
  hwSend :: bool
  hwLate :: bool
  hwTimestamp :: int
  hwLogTime :: gotime

definition readStdin :: "HookWorld \<Rightarrow> string option" where
  "readStdin w = map_option (take MaxMessageSize) (hwStdin w)"

definition logFailOpen :: "HookLib \<Rightarrow> HookWorld \<Rightarrow> string \<Rightarrow> string \<Rightarrow> string \<Rightarrow> bool \<Rightarrow> FailOpenEntry" where
  "logFailOpen lib w reason tool args deadlineExceeded =
     \<lparr>FoTs = hwLogTime w, FoSession = [], FoTool = tool,
      FoArgsHash = (if args \<noteq> [] then ''sha256:'' @ hexEncode (hkSha lib (bytes_of args)) else []),
      FoReason = reason, FoDeadlineExceeded = deadlineExceeded\<rparr>"

text \<open>The framing of the hook is its own code.\<close>

definition writeFramed :: "bytes \<Rightarrow> bytes" where
  "writeFramed payload = be_bytes 4 (of_nat (length payload) :: u32) @ payload"

definition readFramed :: "bytes \<Rightarrow> bytes option" where
  "readFramed s =
    (if length s < 4 then None
     else let len = be_word (take 4 s) :: u32 in
       if unat len > MaxMessageSize then None
       else if length (drop 4 s) < unat len then None
       else Some (take (unat len) (drop 4 s)))"

text \<open>The result: what is printed, the exit code, and the entry appended to the fail-open log.\<close>

record HookResult =
  hrOut :: HookOut
  hrExit :: nat
  hrLog :: "FailOpenEntry option"

definition fail_open :: "HookLib \<Rightarrow> HookWorld \<Rightarrow> IDEAdapter \<Rightarrow> string \<Rightarrow> string \<Rightarrow> CheckRequest \<Rightarrow> bool \<Rightarrow> HookResult" where
  "fail_open lib w adapter reason raw req late =
     (let (out, code) = FormatFailOpen lib adapter reason raw
      in \<lparr>hrOut = out, hrExit = code, hrLog = Some (logFailOpen lib w reason (Tool req) (Args req) late)\<rparr>)"

text \<open>The first part of \<^verbatim>\<open>main\<close>: the request and its bytes, or the result when it fails before anything is sent.\<close>

definition hook_prepare :: "HookLib \<Rightarrow> HookWorld \<Rightarrow> HookResult + IDEAdapter \<times> string \<times> CheckRequest \<times> bytes" where
  "hook_prepare lib w = (case readStdin w of
     None \<Rightarrow> Inl \<lparr>hrOut = fst (FormatFailOpen lib GenericAdapter ''stdin_read_error'' []), hrExit = 0,
                  hrLog = Some (logFailOpen lib w ''stdin_read_error'' [] [] False)\<rparr>
   | Some raw \<Rightarrow>
      (let adapter = detectAdapter lib raw in
       case ParseInput lib adapter raw of
         None \<Rightarrow> Inl \<lparr>hrOut = fst (FormatFailOpen lib adapter ''parse_error'' raw), hrExit = 0,
                      hrLog = Some (logFailOpen lib w ''parse_error'' [] [] False)\<rparr>
       | Some req0 \<Rightarrow>
          (let req = req0\<lparr>Timestamp := hwTimestamp w\<rparr> in
           if \<not> hwDial w then Inl (fail_open lib w adapter ''daemon_unreachable'' raw req (hwLate w))
           else case hkMarshalReq lib req of
             None \<Rightarrow> Inl (fail_open lib w adapter ''marshal_error'' raw req False)
           | Some b \<Rightarrow> if \<not> hwSend w then Inl (fail_open lib w adapter ''send_error'' raw req (hwLate w))
                       else Inr (adapter, raw, req, b))))"

text \<open>The second part: \<^verbatim>\<open>reply\<close> is what the connection delivers before it is closed or the deadline passes.\<close>

definition hook_finish :: "HookLib \<Rightarrow> HookWorld \<Rightarrow> IDEAdapter \<Rightarrow> string \<Rightarrow> CheckRequest \<Rightarrow> bytes \<Rightarrow> HookResult" where
  "hook_finish lib w adapter raw req reply = (case readFramed reply of
     None \<Rightarrow> fail_open lib w adapter ''recv_error'' raw req (hwLate w)
   | Some b \<Rightarrow> (case hkUnmarshalResp lib b of
       None \<Rightarrow> fail_open lib w adapter ''response_parse_error'' raw req False
     | Some resp \<Rightarrow> (let (out, code) = FormatOutput lib adapter resp raw in \<lparr>hrOut = out, hrExit = code, hrLog = None\<rparr>)))"

text \<open>A run of the hook against the daemon: the daemon handles the framed request; \<^verbatim>\<open>n\<close> bytes of its answer arrive in
  time.\<close>

definition hook_run ::
    "HookLib \<Rightarrow> HookWorld \<Rightarrow> nat \<Rightarrow> ('ast, 'prog) EngineEnv \<Rightarrow> DaemonCodec \<Rightarrow> ConnInput \<Rightarrow> 'prog Daemon \<Rightarrow> 'prog Daemon \<times> HookResult" where
  "hook_run lib w n env codec ci d = (case hook_prepare lib w of
     Inl r \<Rightarrow> (d, r)
   | Inr (adapter, raw, req, b) \<Rightarrow>
      (let (d', answer) = handleConnection env codec ci (writeFramed b) d;
           reply = take n (case answer of None \<Rightarrow> [] | Some frame \<Rightarrow> frame)
       in (d', hook_finish lib w adapter raw req reply)))"

text \<open>The decision the IDE reads.\<close>

fun permission :: "HookOut \<Rightarrow> string" where
  "permission (ClaudeOut o1) = PermissionDecision o1"
| "permission (CursorOut o1) = CursorAction o1"

section \<open>Both ends of the wire\<close>

lemma writeFramed_WriteMessage: "writeFramed p = WriteMessage p"
  by (simp add: writeFramed_def WriteMessage_def headerSize_def)

lemma readFramed_ReadMessage: "readFramed s = (case ReadMessage MaxMessageSize s of Inr p \<Rightarrow> Some p | Inl _ \<Rightarrow> None)"
  by (simp add: readFramed_def ReadMessage_def headerSize_def Let_def)

lemma readFramed_prefix:
  assumes "length b < 2 ^ 32" and "readFramed (take n (WriteMessage b)) = Some p"
  shows "p = b"
proof (cases "n < length (WriteMessage b)")
  case True
  have "length b > MaxMessageSize"
  proof (rule ccontr)
    assume "\<not> length b > MaxMessageSize"
    then show False using read_cut_frame [OF assms(1) True, of MaxMessageSize] assms(2) by (simp add: readFramed_ReadMessage)
  qed
  then have "readFramed (take n (WriteMessage b)) = None"
  proof (cases "n < 4")
    case False
    then have "take 4 (take n (WriteMessage b)) = take 4 (WriteMessage b)" by simp
    then show ?thesis
      using frame_header(1) [OF assms(1), of "[]"] \<open>length b > MaxMessageSize\<close> by (simp add: readFramed_def headerSize_def Let_def)
  qed (simp add: readFramed_def min_less_iff_disj)
  with assms(2) show ?thesis by simp
next
  case False
  then have "readFramed (WriteMessage b) = Some p" using assms(2) by simp
  then show ?thesis
    using read_whole_frame [OF MaxMessageSize_small assms(1), of "[]"] by (simp add: readFramed_ReadMessage split: if_splits)
qed

text \<open>What hook and daemon rely on: each decodes what the other encoded, messages fit the length field, and marshalling
  the output, a structure of strings and one integer, does not fail.\<close>

definition codecs_agree :: "HookLib \<Rightarrow> DaemonCodec \<Rightarrow> bool" where
  "codecs_agree lib codec \<longleftrightarrow>
    (\<forall>req b. hkMarshalReq lib req = Some b \<longrightarrow> length b < 2 ^ 32 \<and> reqUnmarshal codec b = Some req) \<and>
    (\<forall>resp b. respMarshal codec resp = Some b \<longrightarrow> length b < 2 ^ 32 \<and> hkUnmarshalResp lib b = Some resp) \<and>
    (\<forall>out. hkMarshalOut lib out)"

lemma FormatOutput_permission:
  assumes "\<forall>out. hkMarshalOut lib out" and "permission (fst (FormatOutput lib adapter resp raw)) \<in> {''allow'', ''audit''}"
  shows "resp_action resp \<in> {ActionAllow, ActionAudit}"
  using assms by (cases adapter; cases "resp_action resp") (simp_all add: claude_decision_def cursor_decision_def Let_def)

lemma fail_open_logs [simp]: "hrLog (fail_open lib w adapter reason raw req late) = Some (logFailOpen lib w reason (Tool req) (Args req) late)"
  by (simp add: fail_open_def case_prod_beta)

lemma hook_prepare_Inl_logs: "hook_prepare lib w = Inl r \<Longrightarrow> \<exists>e. hrLog r = Some e"
  by (auto simp: hook_prepare_def Let_def split: option.splits if_splits)

lemma hook_prepare_Inr:
  "hook_prepare lib w = Inr (adapter, raw, req, b) \<Longrightarrow> readStdin w = Some raw \<and> adapter = detectAdapter lib raw \<and>
     (\<exists>req0. ParseInput lib adapter raw = Some req0 \<and> req = req0\<lparr>Timestamp := hwTimestamp w\<rparr>) \<and> hkMarshalReq lib req = Some b"
  by (fastforce simp: hook_prepare_def Let_def split: option.splits if_splits)

lemma hook_finish_decided:
  assumes "hrLog (hook_finish lib w adapter raw req reply) = None"
  shows "\<exists>b resp. readFramed reply = Some b \<and> hkUnmarshalResp lib b = Some resp \<and>
    hrOut (hook_finish lib w adapter raw req reply) = fst (FormatOutput lib adapter resp raw)"
  using assms by (auto simp: hook_finish_def case_prod_beta split: option.splits)

text \<open>An exchange over the socket: whatever part of the answer arrives, a response that the client decodes denies, or is the
  verdict of the engine on the request that was sent, given by a daemon that was not in a denying mode.\<close>

lemma exchange_answer:
  assumes codec: "\<forall>resp b. respMarshal codec resp = Some b \<longrightarrow> length b < 2 ^ 32 \<and> unmarshal b = Some resp"
    and b: "length b < 2 ^ 32" "reqUnmarshal codec b = Some req"
    and h: "handleConnection env codec ci (WriteMessage b) d = (d', answer)"
    and x: "readFramed (take n (case answer of None \<Rightarrow> [] | Some frame \<Rightarrow> frame)) = Some x" "unmarshal x = Some resp"
  shows "resp_action resp = ActionDeny \<or>
    msMode (dmMode d) \<notin> {ModeDenyAll, ModeReadOnly} \<and> resp = snd (Evaluate env (ciEval ci) req (dmEngine d))"
proof -
  obtain frame where f: "answer = Some frame" using x(1) by (cases answer) (simp_all add: readFramed_def)
  from handleConnection_reply [of env codec ci "WriteMessage b" d frame] h f obtain resp' b' where
    resp': "respMarshal codec resp' = Some b'" "frame = WriteMessage b'" and
    c: "resp_action resp' = ActionDeny \<or> (\<exists>raw req. ReadMessage MaxMessageSize (WriteMessage b) = Inr raw \<and> reqUnmarshal codec raw = Some req \<and>
       msMode (dmMode d) \<notin> {ModeDenyAll, ModeReadOnly} \<and> resp' = snd (Evaluate env (ciEval ci) req (dmEngine d)))" by auto
  have "x = b'" using readFramed_prefix [of b' n x] codec resp' x(1) f by simp
  then have "resp' = resp" using codec resp'(1) x(2) by (metis option.inject)
  moreover have "raw = b" if "ReadMessage MaxMessageSize (WriteMessage b) = Inr raw" for raw
    using read_whole_frame [OF MaxMessageSize_small b(1), of "[]"] that by (auto split: if_splits)
  ultimately show ?thesis using c b(2) by auto
qed


text \<open>An IDE that sends one fixed call.\<close>

definition demo_answer :: CheckResponse where
  "demo_answer = snd (Evaluate (demo_env (ScanDone [])) demo_input (demo_read ''/tmp/notes'') (dmEngine demo_daemon))"

definition demo_hook :: HookLib where
  "demo_hook = \<lparr>hkParse = (\<lambda>s. if s = ''call'' then Some (JObj [(''tool_name'', JStr ''Read''), (''session_id'', JStr ''s1'')]) else None),
     hkRaw = (\<lambda>raw name. if name = ''args'' then ''/tmp/notes'' else []),
     hkMarshalReq = (\<lambda>req. if req = demo_read ''/tmp/notes'' then Some [1, 2, 3] else None),
     hkUnmarshalResp = (\<lambda>_. Some demo_answer), hkMarshalOut = (\<lambda>_. True), hkGetenv = (\<lambda>_. []), hkHome = None, hkSha = (\<lambda>x. x)\<rparr>"

definition demo_hcodec :: DaemonCodec where
  "demo_hcodec = \<lparr>reqUnmarshal = (\<lambda>_. Some (demo_read ''/tmp/notes'')),
     respMarshal = (\<lambda>r. if r = demo_answer then Some [1] else None), argCodec = demo_codec\<rparr>"

definition demo_hworld :: "string \<Rightarrow> HookWorld" where
  "demo_hworld input = \<lparr>hwStdin = Some input, hwDial = True, hwSend = True, hwLate = False, hwTimestamp = 0, hwLogTime = 0\<rparr>"

lemma demo_codecs: "codecs_agree demo_hook demo_hcodec"
  by (simp add: codecs_agree_def demo_hook_def demo_hcodec_def)

lemma demo_answer_allows: "resp_action demo_answer = ActionAllow"
  using demo_allows [of "ScanDone []"] by (simp add: demo_answer_def demo_daemon_def)

lemma demo_hook_prepare: "hook_prepare demo_hook (demo_hworld ''call'') = Inr (GenericAdapter, ''call'', demo_read ''/tmp/notes'', [1, 2, 3])"
proof -
  have raw: "readStdin (demo_hworld ''call'') = Some ''call''" by (simp add: readStdin_def demo_hworld_def MaxMessageSize_def)
  have field: "unmarshal_field (hkParse demo_hook) k ''call'' = Some (if ToLower k = ''session_id'' then ''s1'' else if ToLower k = ''tool_name'' then ''Read'' else [])" for k
    by (simp add: unmarshal_field_def demo_hook_def ToLower_def ascii_lower_def)
  have low: "ToLower ''session_id'' = ''session_id''" "ToLower ''tool_name'' = ''tool_name''" "ToLower ''tool'' = ''tool''"
    "ToLower ''hook_event_name'' = ''hook_event_name''" "ToLower ''conversation_id'' = ''conversation_id''"
    by (simp_all add: ToLower_def ascii_lower_def)
  have d: "detectAdapter demo_hook ''call'' = GenericAdapter"
    by (simp add: detectAdapter_def adapters_def probe_fields_def unmarshal_fields_def field low)
  have "ParseInput demo_hook GenericAdapter ''call'' = Some (demo_read ''/tmp/notes'')"
    by (simp add: probe_fields_def unmarshal_fields_def field low resolveToolName_def)
       (simp add: resolveArgs_def demo_hook_def hook_request_def demo_read_def)
  then show ?thesis
    using raw by (simp add: hook_prepare_def d Let_def) (simp add: demo_hworld_def demo_hook_def demo_read_def)
qed

lemma demo_hook_run:
  "hook_run demo_hook (demo_hworld ''call'') 100 (demo_env (ScanDone [])) demo_hcodec demo_conn demo_daemon =
     (fst (handleConnection (demo_env (ScanDone [])) demo_hcodec demo_conn (WriteMessage [1, 2, 3]) demo_daemon),
      \<lparr>hrOut = ClaudeOut (claude_decision [] demo_answer), hrExit = 0, hrLog = None\<rparr>)"
proof -
  have r: "ReadMessage MaxMessageSize (WriteMessage [1, 2, 3]) = Inr [1, 2, 3]"
    using read_whole_frame [OF MaxMessageSize_small, of "[1, 2, 3]" "[]"] by (simp add: MaxMessageSize_def)
  have "snd (handleConnection (demo_env (ScanDone [])) demo_hcodec demo_conn (WriteMessage [1, 2, 3]) demo_daemon) = Some (WriteMessage [1])"
    by (simp add: handleConnection_def r demo_hcodec_def demo_daemon_def serve_request_def demo_conn_def demo_answer_def Let_def case_prod_unfold)
  moreover have "readFramed (take 100 (WriteMessage [1])) = Some [1]"
    using read_whole_frame [OF MaxMessageSize_small, of "[1]" "[]"]
    by (simp add: readFramed_ReadMessage WriteMessage_def headerSize_def MaxMessageSize_def)
  ultimately show ?thesis
    by (simp add: hook_run_def demo_hook_prepare writeFramed_WriteMessage hook_finish_def case_prod_unfold) (simp add: demo_hook_def)
qed


lemma fail_open_allows:
  "permission (fst (FormatFailOpen lib adapter reason raw)) = ''allow'' \<and> snd (FormatFailOpen lib adapter reason raw) = 0"
  by (cases adapter) (simp_all add: claude_fallback_def cursor_fallback_def Let_def)

lemma unparsable_ParseInput:
  assumes "hkParse lib raw = None"
  shows "ParseInput lib adapter raw = None"
  using assms by (cases adapter) (simp_all add: probe_fields_def unmarshal_fields_def unmarshal_field_def)



end
