(* ===== verification/Mcp.thy ===== *)
theory Mcp
  imports Daemon
begin

text \<open>
  The MCP proxy, \<^verbatim>\<open>internal/mcp\<close>: JSON-RPC requests of a client pass through the policy engine before they reach the
  upstream server, and tool definitions are compared with the first one seen.  The upstream, the JSON codec and
  SHA-256 are parameters.  The scan of a result only writes to the process log and is not modelled.  The second
  part is the circuit breaker and the call of the standard-input upstream.
\<close>

section \<open>Data\<close>

record JSONRPCRequest =
  RqID :: string
  RqMethod :: string
  RqParams :: string

record JSONRPCResponse =
  RsID :: string
  RsResult :: "string option"
  RsError :: "(int \<times> string) option"

record ToolDefinition =
  TdName :: string
  TdDescription :: string
  TdInputSchema :: string

record ToolFingerprint =
  FpName :: string
  FpHash :: bytes
  FpRecordedAt :: int

text \<open>\<^verbatim>\<open>itDb\<close> is the table of registrations, when there is a database.\<close>

record IntegrityTracker =
  itBaseline :: "string \<rightharpoonup> ToolFingerprint"
  itDrifted :: "string \<Rightarrow> bool"
  itDb :: "ToolFingerprint list option"

record McpLib =
  mlParse :: json_parser
  mlRaw :: "string \<Rightarrow> string \<Rightarrow> string"
  mlToolJson :: "ToolDefinition \<Rightarrow> string option"
  mlListJson :: "ToolDefinition list \<Rightarrow> string + string"
  mlSha :: "bytes \<Rightarrow> bytes"

section \<open>Integrity of tool definitions\<close>

definition NewIntegrityTracker :: IntegrityTracker where
  "NewIntegrityTracker = \<lparr>itBaseline = Map.empty, itDrifted = (\<lambda>_. False), itDb = None\<rparr>"

definition loadFromDB :: "ToolFingerprint list \<Rightarrow> (string \<rightharpoonup> ToolFingerprint)" where
  "loadFromDB rows = foldl (\<lambda>m fp. m(FpName fp \<mapsto> (if length (FpHash fp) = 32 then fp else fp\<lparr>FpHash := replicate 32 0\<rparr>))) Map.empty rows"

definition NewIntegrityTrackerWithDB :: "ToolFingerprint list \<Rightarrow> IntegrityTracker" where
  "NewIntegrityTrackerWithDB rows = \<lparr>itBaseline = loadFromDB rows, itDrifted = (\<lambda>_. False), itDb = Some rows\<rparr>"

definition Fingerprint :: "McpLib \<Rightarrow> ToolDefinition \<Rightarrow> bytes" where
  "Fingerprint lib tool = mlSha lib (bytes_of (case mlToolJson lib tool of None \<Rightarrow> [] | Some j \<Rightarrow> j))"

text \<open>\<^verbatim>\<open>INSERT OR IGNORE\<close> under the primary key \<^verbatim>\<open>name\<close>; the flag says that the statement fails.\<close>

definition persistBaseline :: "bool \<Rightarrow> ToolFingerprint \<Rightarrow> ToolFingerprint list \<Rightarrow> ToolFingerprint list" where
  "persistBaseline dbFails fp rows = (if dbFails \<or> list_ex (\<lambda>r. FpName r = FpName fp) rows then rows else rows @ [fp])"

definition CheckDrift :: "McpLib \<Rightarrow> bool \<Rightarrow> gotime \<Rightarrow> ToolDefinition \<Rightarrow> IntegrityTracker \<Rightarrow> IntegrityTracker \<times> bool \<times> bytes" where
  "CheckDrift lib dbFails now tool t =
    (let hash = Fingerprint lib tool in
     case itBaseline t (TdName tool) of
       None \<Rightarrow>
        (let fp = \<lparr>FpName = TdName tool, FpHash = hash, FpRecordedAt = unixNano now\<rparr>
         in (t\<lparr>itBaseline := (itBaseline t)(TdName tool \<mapsto> fp), itDb := map_option (persistBaseline dbFails fp) (itDb t)\<rparr>, False, hash))
     | Some existing \<Rightarrow>
        (if FpHash existing \<noteq> hash then (t\<lparr>itDrifted := (itDrifted t)(TdName tool := True)\<rparr>, True, FpHash existing)
         else (t, False, FpHash existing)))"

definition IsDrifted :: "string \<Rightarrow> IntegrityTracker \<Rightarrow> bool" where
  "IsDrifted name t = itDrifted t name"

definition check_all :: "McpLib \<Rightarrow> bool \<Rightarrow> gotime \<Rightarrow> ToolDefinition list \<Rightarrow> IntegrityTracker \<Rightarrow> IntegrityTracker" where
  "check_all lib dbFails now tools t = foldl (\<lambda>t tool. fst (CheckDrift lib dbFails now tool t)) t tools"

section \<open>The proxy\<close>

text \<open>\<^verbatim>\<open>mpSent\<close> holds the calls handed to the upstream, with their method and parameters.  What the upstream answers is
  given per request: the result of a call or an error text, and the tools or an error text.\<close>

record 'prog MCPProxy =
  mpEngine :: "'prog engineState"
  mpTracker :: IntegrityTracker
  mpSession :: string
  mpSent :: "(string \<times> string) list"

record McpWorld =
  mwCall :: "string \<Rightarrow> string \<Rightarrow> string + string"
  mwTools :: "string + ToolDefinition list"
  mwEval :: EvalInput
  mwNow :: gotime
  mwDbFails :: bool

definition errorResponse :: "string \<Rightarrow> int \<Rightarrow> string \<Rightarrow> JSONRPCResponse" where
  "errorResponse i code message = \<lparr>RsID = i, RsResult = None, RsError = Some (code, message)\<rparr>"

definition extractToolCall :: "McpLib \<Rightarrow> string \<Rightarrow> (string \<times> string) option" where
  "extractToolCall lib params =
    (if params = [] then None
     else case unmarshal_field (mlParse lib) ''name'' params of
       None \<Rightarrow> None
     | Some name \<Rightarrow> if name = [] then None else Some (name, mlRaw lib params ''arguments''))"

definition forward :: "McpWorld \<Rightarrow> JSONRPCRequest \<Rightarrow> 'prog MCPProxy \<Rightarrow> 'prog MCPProxy \<times> JSONRPCResponse" where
  "forward w req p =
    (p\<lparr>mpSent := mpSent p @ [(RqMethod req, RqParams req)]\<rparr>,
     case mwCall w (RqMethod req) (RqParams req) of
       Inl err \<Rightarrow> errorResponse (RqID req) (- 32603) err
     | Inr result \<Rightarrow> \<lparr>RsID = RqID req, RsResult = Some result, RsError = None\<rparr>)"

definition mcp_request :: "string \<Rightarrow> string \<Rightarrow> string \<Rightarrow> CheckRequest" where
  "mcp_request tool args sid =
     \<lparr>Tool = tool, Args = args, SessionID = sid, ParentSessionID = [], SpawnToken = [], ProjectRoot = [], RequestLabel = zeroLabel,
      AuthorityChain = [], Nonce = replicate 16 0, Timestamp = 0\<rparr>"

definition handleToolCall ::
    "McpLib \<Rightarrow> ('ast, 'prog) EngineEnv \<Rightarrow> McpWorld \<Rightarrow> JSONRPCRequest \<Rightarrow> 'prog MCPProxy \<Rightarrow> 'prog MCPProxy \<times> JSONRPCResponse" where
  "handleToolCall lib env w req p = (case extractToolCall lib (RqParams req) of
     None \<Rightarrow> (p, errorResponse (RqID req) (- 32600) ''invalid tools/call params'')
   | Some (toolName, argsJSON) \<Rightarrow>
      (if IsDrifted toolName (mpTracker p)
       then (p, errorResponse (RqID req) (- 32603) (''tool definition has drifted '' @ [CHR 0xE2, CHR 0x80, CHR 0x94] @ '' approval required''))
       else let (st, resp) = Evaluate env (mwEval w) (mcp_request toolName argsJSON (mpSession p)) (mpEngine p);
                p1 = p\<lparr>mpEngine := st\<rparr>;
                reason = Reason (RespDecision resp)
            in case resp_action resp of
                 ActionAllow \<Rightarrow> forward w req p1
               | ActionAudit \<Rightarrow> forward w req p1
               | ActionRequireApproval \<Rightarrow> (p1, errorResponse (RqID req) (- 32603) (''approval required: '' @ reason))
               | ActionDeny \<Rightarrow> (p1, errorResponse (RqID req) (- 32603) (if reason = [] then ''denied by policy'' else reason))))"

definition handleToolsList :: "McpLib \<Rightarrow> McpWorld \<Rightarrow> JSONRPCRequest \<Rightarrow> 'prog MCPProxy \<Rightarrow> 'prog MCPProxy \<times> JSONRPCResponse" where
  "handleToolsList lib w req p = (case mwTools w of
     Inl err \<Rightarrow> (p, errorResponse (RqID req) (- 32603) err)
   | Inr tools \<Rightarrow>
      (p\<lparr>mpTracker := check_all lib (mwDbFails w) (mwNow w) tools (mpTracker p)\<rparr>,
       case mlListJson lib tools of
         Inl err \<Rightarrow> errorResponse (RqID req) (- 32603) (''marshal tools: '' @ err)
       | Inr j \<Rightarrow> \<lparr>RsID = RqID req, RsResult = Some j, RsError = None\<rparr>))"

definition HandleRequest ::
    "McpLib \<Rightarrow> ('ast, 'prog) EngineEnv \<Rightarrow> McpWorld \<Rightarrow> JSONRPCRequest \<Rightarrow> 'prog MCPProxy \<Rightarrow> 'prog MCPProxy \<times> JSONRPCResponse" where
  "HandleRequest lib env w req p =
    (if RqMethod req = ''tools/call'' then handleToolCall lib env w req p
     else if RqMethod req = ''tools/list'' then handleToolsList lib w req p
     else forward w req p)"

inductive mcp_step :: "McpLib \<Rightarrow> ('ast, 'prog) EngineEnv \<Rightarrow> 'prog MCPProxy \<Rightarrow> 'prog MCPProxy \<Rightarrow> bool" for lib env where
  ms_request: "mcp_step lib env p (fst (HandleRequest lib env w req p))"

inductive_cases mcp_stepE: "mcp_step lib env p p'"

section \<open>The standard-input upstream\<close>

record CircuitBreaker =
  cbFailures :: int
  cbThreshold :: int
  cbOpenUntil :: gotime
  cbHalfOpenWait :: duration

definition NewCircuitBreaker :: "int \<Rightarrow> duration \<Rightarrow> CircuitBreaker" where
  "NewCircuitBreaker threshold halfOpenWait = \<lparr>cbFailures = 0, cbThreshold = threshold, cbOpenUntil = 0, cbHalfOpenWait = halfOpenWait\<rparr>"

definition cb_Allow :: "gotime \<Rightarrow> CircuitBreaker \<Rightarrow> bool" where
  "cb_Allow now cb \<longleftrightarrow> \<not> now < cbOpenUntil cb"

definition RecordFailure :: "gotime \<Rightarrow> CircuitBreaker \<Rightarrow> CircuitBreaker" where
  "RecordFailure now cb =
    (let cb1 = cb\<lparr>cbFailures := cbFailures cb + 1\<rparr> in
     if cbFailures cb1 \<ge> cbThreshold cb1 then cb1\<lparr>cbOpenUntil := now + cbHalfOpenWait cb1, cbFailures := 0\<rparr> else cb1)"

definition RecordSuccess :: "CircuitBreaker \<Rightarrow> CircuitBreaker" where
  "RecordSuccess cb = cb\<lparr>cbFailures := 0\<rparr>"

record StdioUpstream =
  suIdCtr :: int
  suBreaker :: CircuitBreaker

text \<open>What happens to a call once the breaker lets it through: it is not sent, the context ends first, or the matching
  response arrives; \<^verbatim>\<open>readLoop\<close> delivers no result for a response that is an error.\<close>

datatype call_outcome = CallMarshalFails | CallWriteFails | CallCtxDone | CallResult string | CallErrorResponse

datatype call_error = errCircuitOpen | CallFailed

text \<open>A nil result is the empty string.\<close>

definition stdio_Call :: "gotime \<Rightarrow> gotime \<Rightarrow> call_outcome \<Rightarrow> StdioUpstream \<Rightarrow> StdioUpstream \<times> (call_error + string)" where
  "stdio_Call now later outcome u =
    (if \<not> cb_Allow now (suBreaker u) then (u, Inl errCircuitOpen)
     else let u1 = u\<lparr>suIdCtr := suIdCtr u + 1\<rparr>;
              failed = (u1\<lparr>suBreaker := RecordFailure later (suBreaker u1)\<rparr>, Inl CallFailed);
              succeeded = u1\<lparr>suBreaker := RecordSuccess (suBreaker u1)\<rparr>
          in case outcome of
               CallMarshalFails \<Rightarrow> failed
             | CallWriteFails \<Rightarrow> failed
             | CallCtxDone \<Rightarrow> failed
             | CallResult r \<Rightarrow> (succeeded, Inr r)
             | CallErrorResponse \<Rightarrow> (succeeded, Inr []))"

definition stdio_ListTools ::
    "(string \<Rightarrow> ToolDefinition list option) \<Rightarrow> gotime \<Rightarrow> gotime \<Rightarrow> call_outcome \<Rightarrow> StdioUpstream \<Rightarrow> StdioUpstream \<times> ToolDefinition list option" where
  "stdio_ListTools decode now later outcome u = (case stdio_Call now later outcome u of
     (u', Inl _) \<Rightarrow> (u', None)
   | (u', Inr result) \<Rightarrow> (u', decode result))"

section \<open>Forwarded calls\<close>

lemma forward_sent [simp]:
  "mpSent (fst (forward w req p)) = mpSent p @ [(RqMethod req, RqParams req)]"
  "mpTracker (fst (forward w req p)) = mpTracker p"
  by (simp_all add: forward_def)

lemma handleToolCall_tracker [simp]: "mpTracker (fst (handleToolCall lib env w req p)) = mpTracker p"
  by (simp add: handleToolCall_def Let_def split: option.split prod.split Action.split)

text \<open>Claim C17. The proxy hands a tool call to the upstream only when its parameters name a tool whose definition has
  not drifted and the engine's verdict on that tool with those arguments, in the proxy's session, is to allow it;
  it then forwards exactly the request it received, once.\<close>

theorem mcp_forwards_only_allowed:
  assumes "RqMethod req = ''tools/call''" and "mpSent (fst (HandleRequest lib env w req p)) \<noteq> mpSent p"
  shows "\<exists>name args. extractToolCall lib (RqParams req) = Some (name, args) \<and> \<not> IsDrifted name (mpTracker p) \<and>
    resp_action (snd (Evaluate env (mwEval w) (mcp_request name args (mpSession p)) (mpEngine p))) \<in> {ActionAllow, ActionAudit} \<and>
    mpSent (fst (HandleRequest lib env w req p)) = mpSent p @ [(''tools/call'', RqParams req)]"
proof -
  obtain name args where x: "extractToolCall lib (RqParams req) = Some (name, args)"
    using assms by (auto simp: HandleRequest_def handleToolCall_def split: option.splits)
  obtain st resp where ev: "Evaluate env (mwEval w) (mcp_request name args (mpSession p)) (mpEngine p) = (st, resp)" by fastforce
  have nd: "\<not> IsDrifted name (mpTracker p)"
    using assms x by (auto simp: HandleRequest_def handleToolCall_def)
  show ?thesis
    using assms x ev nd
    by (cases "resp_action resp") (simp_all add: HandleRequest_def handleToolCall_def Let_def)
qed

definition demo_mcp :: McpLib where
  "demo_mcp = \<lparr>mlParse = (\<lambda>s. Some (JObj [(''name'', JStr ''Read'')])), mlRaw = (\<lambda>_ _. ''/tmp/notes''),
     mlToolJson = (\<lambda>t. Some (TdDescription t)), mlListJson = (\<lambda>_. Inr ''[]''), mlSha = (\<lambda>x. x)\<rparr>"

definition demo_proxy :: "string MCPProxy" where
  "demo_proxy = \<lparr>mpEngine = demo_state [(''p'', ''true'', [])], mpTracker = NewIntegrityTracker, mpSession = ''s1'', mpSent = []\<rparr>"

definition demo_mworld :: "ToolDefinition list \<Rightarrow> McpWorld" where
  "demo_mworld tools = \<lparr>mwCall = (\<lambda>_ _. Inr ''done''), mwTools = Inr tools, mwEval = demo_input, mwNow = 0, mwDbFails = False\<rparr>"

definition demo_call :: JSONRPCRequest where
  "demo_call = \<lparr>RqID = ''1'', RqMethod = ''tools/call'', RqParams = ''x''\<rparr>"

lemma demo_mcp_request: "mcp_request ''Read'' ''/tmp/notes'' ''s1'' = demo_read ''/tmp/notes''"
  by (simp add: mcp_request_def demo_read_def)

lemma demo_extract: "extractToolCall demo_mcp ''x'' = Some (''Read'', ''/tmp/notes'')"
  by (simp add: extractToolCall_def demo_mcp_def unmarshal_field_def)

theorem mcp_forwards_only_allowed_witness:
  "mpSent (fst (HandleRequest demo_mcp (demo_env (ScanDone [])) (demo_mworld []) demo_call demo_proxy)) = [(''tools/call'', ''x'')]"
proof -
  let ?p = "fst (HandleRequest demo_mcp (demo_env (ScanDone [])) (demo_mworld []) demo_call demo_proxy)"
  obtain st resp where ev: "Evaluate (demo_env (ScanDone [])) demo_input (demo_read ''/tmp/notes'') (demo_state [(''p'', ''true'', [])]) = (st, resp)"
    by fastforce
  then have "resp_action resp = ActionAllow" using demo_allows [of "ScanDone []"] by simp
  then have "mpSent ?p \<noteq> mpSent demo_proxy"
    by (simp add: HandleRequest_def handleToolCall_def demo_call_def demo_extract demo_proxy_def NewIntegrityTracker_def IsDrifted_def
        demo_mworld_def demo_mcp_request ev)
  moreover have "RqMethod demo_call = ''tools/call''" by (simp add: demo_call_def)
  ultimately obtain name args where "mpSent ?p = mpSent demo_proxy @ [(''tools/call'', RqParams demo_call)]"
    using mcp_forwards_only_allowed by blast
  then show ?thesis by (simp add: demo_proxy_def demo_call_def)
qed

section \<open>Drift\<close>

definition base_kept :: "ToolFingerprint option \<Rightarrow> ToolFingerprint option \<Rightarrow> bool" where
  "base_kept new old \<longleftrightarrow> old = None \<or> new = old"

lemma CheckDrift_mono:
  "base_kept (itBaseline (fst (CheckDrift lib f now tool t)) n) (itBaseline t n)"
  "itDrifted t n \<Longrightarrow> itDrifted (fst (CheckDrift lib f now tool t)) n"
  by (auto simp: CheckDrift_def base_kept_def Let_def split: option.split)

lemma check_all_mono:
  "base_kept (itBaseline (check_all lib f now tools t) n) (itBaseline t n) \<and> (itDrifted t n \<longrightarrow> itDrifted (check_all lib f now tools t) n)"
proof (induction tools arbitrary: t)
  case (Cons tool tools)
  have "check_all lib f now (tool # tools) t = check_all lib f now tools (fst (CheckDrift lib f now tool t))" by (simp add: check_all_def)
  with Cons [of "fst (CheckDrift lib f now tool t)"] CheckDrift_mono [where lib = lib and f = f and now = now and tool = tool and t = t and n = n] show ?case
    by (auto simp: base_kept_def)
qed (simp add: check_all_def base_kept_def)

lemma check_all_detects:
  assumes "itBaseline t (TdName tool) = Some fp" and "Fingerprint lib tool \<noteq> FpHash fp" and "tool \<in> set tools"
  shows "itDrifted (check_all lib f now tools t) (TdName tool)"
  using assms(1,3)
proof (induction tools arbitrary: t)
  case (Cons x tools)
  let ?t = "fst (CheckDrift lib f now x t)"
  have e: "check_all lib f now (x # tools) t = check_all lib f now tools ?t" by (simp add: check_all_def)
  show ?case
  proof (cases "x = tool")
    case True
    then have "itDrifted ?t (TdName tool)" using Cons.prems(1) assms(2) by (simp add: CheckDrift_def Let_def)
    then show ?thesis unfolding e using check_all_mono by blast
  next
    case False
    moreover have "itBaseline ?t (TdName tool) = Some fp"
      using CheckDrift_mono(1) [where lib = lib and f = f and now = now and tool = x and t = t and n = "TdName tool"] Cons.prems(1) by (simp add: base_kept_def)
    ultimately show ?thesis unfolding e using Cons by simp
  qed
qed simp

lemma tracker_step:
  assumes "mcp_step lib env p p'"
  shows "base_kept (itBaseline (mpTracker p') n) (itBaseline (mpTracker p) n) \<and> (itDrifted (mpTracker p) n \<longrightarrow> itDrifted (mpTracker p') n)"
  using assms
proof (cases rule: mcp_step.cases)
  case (ms_request w req)
  then show ?thesis
    using check_all_mono [of lib "mwDbFails w" "mwNow w" _ "mpTracker p" n]
    by (auto simp: HandleRequest_def handleToolsList_def base_kept_def split: sum.splits)
qed

interpretation baselines: monotone_observation "mcp_step lib env" "\<lambda>p n. itBaseline (mpTracker p) n" base_kept for lib env
  by unfold_locales (auto simp: base_kept_def dest: tracker_step)

interpretation drifts: monotone_observation "mcp_step lib env" "\<lambda>p n. itDrifted (mpTracker p) n" "\<lambda>new old. old \<longrightarrow> new" for lib env
  by unfold_locales (auto dest: tracker_step)

text \<open>Claim C20. A tool that drifted stays blocked.  Once a tool was listed, its first definition is the baseline for as long
  as the proxy runs; if a later listing, after any requests, shows a definition with another fingerprint, then
  after any further requests every call of that tool is answered with an error and not forwarded.\<close>

theorem drifted_tool_blocked:
  assumes "itBaseline (mpTracker p) (TdName tool) = Some fp" and "(mcp_step lib env)\<^sup>*\<^sup>* p p1"
    and "RqMethod lreq = ''tools/list''" and "mwTools w = Inr tools" and "tool \<in> set tools" and "Fingerprint lib tool \<noteq> FpHash fp"
    and "(mcp_step lib env)\<^sup>*\<^sup>* (fst (HandleRequest lib env w lreq p1)) p2"
    and "RqMethod req = ''tools/call''" and "extractToolCall lib (RqParams req) = Some (TdName tool, args)"
  shows "mpSent (fst (HandleRequest lib env w' req p2)) = mpSent p2 \<and> RsError (snd (HandleRequest lib env w' req p2)) \<noteq> None"
proof -
  have "itBaseline (mpTracker p1) (TdName tool) = Some fp"
    using baselines.steps_mono [OF assms(2), of "TdName tool"] assms(1) by (simp add: base_kept_def)
  then have "itDrifted (mpTracker (fst (HandleRequest lib env w lreq p1))) (TdName tool)"
    using check_all_detects [OF _ assms(6,5)] assms(3,4) by (simp add: HandleRequest_def handleToolsList_def)
  then have "itDrifted (mpTracker p2) (TdName tool)" using drifts.steps_mono [OF assms(7), of "TdName tool"] by simp
  then show ?thesis using assms(8,9) by (simp add: HandleRequest_def handleToolCall_def IsDrifted_def errorResponse_def)
qed

theorem drifted_tool_blocked_witness:
  "let t1 = \<lparr>TdName = ''Read'', TdDescription = ''a'', TdInputSchema = []\<rparr>; t2 = \<lparr>TdName = ''Read'', TdDescription = ''b'', TdInputSchema = []\<rparr>;
       lreq = \<lparr>RqID = ''0'', RqMethod = ''tools/list'', RqParams = []\<rparr>;
       p = fst (HandleRequest demo_mcp (demo_env (ScanDone [])) (demo_mworld [t1]) lreq demo_proxy);
       p2 = fst (HandleRequest demo_mcp (demo_env (ScanDone [])) (demo_mworld [t2]) lreq p)
   in mpSent (fst (HandleRequest demo_mcp (demo_env (ScanDone [])) (demo_mworld []) demo_call p2)) = mpSent p2"
proof -
  let ?t1 = "\<lparr>TdName = ''Read'', TdDescription = ''a'', TdInputSchema = []\<rparr>" and ?t2 = "\<lparr>TdName = ''Read'', TdDescription = ''b'', TdInputSchema = []\<rparr>"
  let ?l = "\<lparr>RqID = ''0'', RqMethod = ''tools/list'', RqParams = []\<rparr>"
  let ?p = "fst (HandleRequest demo_mcp (demo_env (ScanDone [])) (demo_mworld [?t1]) ?l demo_proxy)"
  have b: "itBaseline (mpTracker ?p) (TdName ?t2) = Some \<lparr>FpName = ''Read'', FpHash = bytes_of ''a'', FpRecordedAt = unixNano 0\<rparr>"
    by (simp add: HandleRequest_def handleToolsList_def demo_mworld_def check_all_def CheckDrift_def demo_proxy_def NewIntegrityTracker_def
        Fingerprint_def demo_mcp_def Let_def)
  have f: "Fingerprint demo_mcp ?t2 \<noteq> FpHash \<lparr>FpName = ''Read'', FpHash = bytes_of ''a'', FpRecordedAt = unixNano 0\<rparr>"
    by (simp add: Fingerprint_def demo_mcp_def bytes_of_def)
  show ?thesis unfolding Let_def
    by (rule conjunct1 [OF drifted_tool_blocked [OF b rtranclp.rtrancl_refl _ _ _ f rtranclp.rtrancl_refl, where tools = "[?t2]" and args = "''/tmp/notes''"]])
       (simp_all add: demo_mworld_def demo_call_def demo_extract)
qed

section \<open>The circuit breaker\<close>

lemma failures_below:
  assumes "int (length ts) < cbThreshold cb - cbFailures cb"
  shows "foldl (\<lambda>cb t. RecordFailure t cb) cb ts = cb\<lparr>cbFailures := cbFailures cb + int (length ts)\<rparr>"
  using assms
proof (induction ts arbitrary: cb)
  case (Cons t ts)
  then have "RecordFailure t cb = cb\<lparr>cbFailures := cbFailures cb + 1\<rparr>" by (simp add: RecordFailure_def Let_def)
  then show ?case using Cons.prems Cons.IH [of "cb\<lparr>cbFailures := cbFailures cb + 1\<rparr>"] by (simp add: add.assoc)
qed simp

text \<open>The breaker of an upstream opens exactly at the threshold.  After a success, fewer failures in a row than
  the threshold leave it as open or closed as it was; at the threshold it refuses every call for the waiting time
  after the last failure and lets calls through from then on, counting afresh.\<close>

theorem breaker_opens_at_threshold:
  assumes "int (length ts) + 1 = cbThreshold cb"
  shows "cbOpenUntil (foldl (\<lambda>cb t. RecordFailure t cb) (RecordSuccess cb) ts) = cbOpenUntil cb \<and>
    (let opened = RecordFailure t (foldl (\<lambda>cb t. RecordFailure t cb) (RecordSuccess cb) ts) in
       cbFailures opened = 0 \<and> (cb_Allow now opened \<longleftrightarrow> now \<ge> t + cbHalfOpenWait cb))"
proof -
  have "foldl (\<lambda>cb t. RecordFailure t cb) (RecordSuccess cb) ts = cb\<lparr>cbFailures := int (length ts)\<rparr>"
    using failures_below [of ts "RecordSuccess cb"] assms by (simp add: RecordSuccess_def)
  then show ?thesis using assms by (auto simp: RecordFailure_def cb_Allow_def Let_def)
qed

theorem breaker_opens_at_threshold_witness:
  "\<not> cb_Allow 1000 (RecordFailure 5 (foldl (\<lambda>cb t. RecordFailure t cb) (RecordSuccess (NewCircuitBreaker 5 (30 * second))) [1, 2, 3, 4]))"
  using breaker_opens_at_threshold [of "[1, 2, 3, 4]" "NewCircuitBreaker 5 (30 * second)" 5 1000]
  by (simp add: NewCircuitBreaker_def second_def Let_def)

end
