(* ===== verification/FrontEnds.thy ===== *)
theory FrontEnds
  imports Hook Mcp
begin

text \<open>
  The other ways to ask the engine: the Envoy external-authorization service (\<^verbatim>\<open>internal/grpc\<close>), the HTTP endpoint
  \<^verbatim>\<open>POST /v1/check\<close> (\<^verbatim>\<open>internal/daemon/http.go\<close>) and the in-process evaluator (\<^verbatim>\<open>pkg/nixis/evaluate.go\<close>).  What they share, that
  a call passes only on an allowing verdict, is the locale \<^verbatim>\<open>front_end\<close>.  The JSON encoders are parameters.
\<close>

section \<open>Envoy\<close>

text \<open>The getters of the generated messages give empty values for absent parts: an absent part of a request is an empty
  method, path and header map.\<close>

record EnvoyRequest =
  erMethod :: string
  erPath :: string
  erHeaders :: "string \<rightharpoonup> string"

datatype HttpAnswer = OkHttp "(string \<times> string) list" | DeniedHttp nat "(string \<times> string) list" string

record EnvoyResponse =
  enCode :: nat
  enAnswer :: HttpAnswer

text \<open>The gRPC codes \<^verbatim>\<open>OK\<close> and \<^verbatim>\<open>PermissionDenied\<close>, and the HTTP status \<^verbatim>\<open>Forbidden\<close>.\<close>

definition codeOK :: nat where "codeOK = 0"
definition codePermissionDenied :: nat where "codePermissionDenied = 7"
definition statusForbidden :: nat where "statusForbidden = 403"

definition header_of :: "EnvoyRequest \<Rightarrow> string \<Rightarrow> string" where
  "header_of r k = (case erHeaders r k of Some v \<Rightarrow> v | None \<Rightarrow> [])"

definition translateRequest :: "(EnvoyRequest \<Rightarrow> string) \<Rightarrow> EnvoyRequest \<Rightarrow> CheckRequest" where
  "translateRequest marshal r =
    (let toolName = erMethod r @ '' '' @ erPath r;
         s1 = header_of r ''x-nixis-session'';
         s2 = (if s1 = [] then header_of r ''x-request-id'' else s1);
         s3 = (if s2 = [] then ''grpc-ext-authz'' else s2)
     in mcp_request (if toolName = '' '' then ''unknown'' else toolName) (marshal r) s3)"

definition grpc_denyResponse :: "string \<Rightarrow> EnvoyResponse" where
  "grpc_denyResponse reason =
     \<lparr>enCode = codePermissionDenied,
      enAnswer = DeniedHttp statusForbidden [] (if length reason > 256 then take 256 reason @ ''...'' else reason)\<rparr>"

definition translateResponse :: "CheckResponse \<Rightarrow> EnvoyResponse" where
  "translateResponse resp = (case resp_action resp of
     ActionAllow \<Rightarrow> \<lparr>enCode = codeOK, enAnswer = OkHttp []\<rparr>
   | ActionAudit \<Rightarrow> \<lparr>enCode = codeOK, enAnswer = OkHttp [(''x-nixis-audited'', ''true'')]\<rparr>
   | ActionRequireApproval \<Rightarrow>
       \<lparr>enCode = codePermissionDenied, enAnswer = DeniedHttp statusForbidden [(''x-nixis-approval-required'', ''true'')] []\<rparr>
   | ActionDeny \<Rightarrow> grpc_denyResponse (Reason (RespDecision resp)))"

definition grpc_Check ::
    "(EnvoyRequest \<Rightarrow> string) \<Rightarrow> ('ast, 'prog) EngineEnv \<Rightarrow> EvalInput \<Rightarrow> EnvoyRequest option \<Rightarrow> 'prog engineState \<Rightarrow> 'prog engineState \<times> EnvoyResponse" where
  "grpc_Check marshal env inp r st = (case r of
     None \<Rightarrow> (st, grpc_denyResponse ''nil request'')
   | Some q \<Rightarrow> (let (st', resp) = Evaluate env inp (translateRequest marshal q) st in (st', translateResponse resp)))"

record GrpcConfig =
  GcListenAddr :: string
  GcEngine :: bool
  GcMaxConcurrent :: int
  GcTimeout :: duration

definition NewGrpcServer :: "GrpcConfig \<Rightarrow> GrpcConfig option" where
  "NewGrpcServer cfg =
    (if \<not> GcEngine cfg then None
     else let c1 = (if GcTimeout cfg = 0 then cfg\<lparr>GcTimeout := 50000000\<rparr> else cfg);
              c2 = (if GcListenAddr c1 = [] then c1\<lparr>GcListenAddr := '':9091''\<rparr> else c1)
          in Some (if GcMaxConcurrent c2 \<le> 0 then c2\<lparr>GcMaxConcurrent := 100\<rparr> else c2))"

section \<open>The check endpoint\<close>

record checkRequestJSON =
  CrTool :: string
  CrArgs :: string
  CrSession :: string

record decisionJSON =
  DjAction :: string
  DjReason :: string
  DjPolicyID :: string

record checkResponseJSON =
  CjDecision :: decisionJSON
  CjLatency :: int
  CjLayer :: string
  CjAnnotations :: "(string \<times> string) list"

datatype CheckAnswer = CheckError nat string | CheckOk checkResponseJSON

text \<open>\<^verbatim>\<open>wire\<close> is the decoded body, or the text of the decoding error; \<^verbatim>\<open>late\<close> says that the deadline has passed when the engine
  has answered.\<close>

definition check_handler ::
    "('ast, 'prog) EngineEnv \<Rightarrow> EvalInput \<Rightarrow> bool \<Rightarrow> string + checkRequestJSON \<Rightarrow> 'prog engineState \<Rightarrow> 'prog engineState \<times> CheckAnswer" where
  "check_handler env inp late wire st = (case wire of
     Inl err \<Rightarrow> (st, CheckError 400 (''invalid request body: '' @ err))
   | Inr q \<Rightarrow>
      (if CrTool q = [] then (st, CheckError 400 ''missing required field: tool'')
       else let (st', resp) = Evaluate env inp (mcp_request (CrTool q) (CrArgs q) (CrSession q)) st in
         if late then (st', CheckError 503 ''evaluation deadline exceeded'')
         else (st', CheckOk \<lparr>CjDecision = \<lparr>DjAction = actionName (resp_action resp), DjReason = Reason (RespDecision resp),
                                 DjPolicyID = PolicyID (RespDecision resp)\<rparr>,
                             CjLatency = LatencyNs resp, CjLayer = layerName (RespLayer resp), CjAnnotations = Annotations resp\<rparr>)))"

section \<open>In process\<close>

definition InProcess_Check :: "('ast, 'prog) EngineEnv \<Rightarrow> EvalInput \<Rightarrow> CheckRequest \<Rightarrow> 'prog engineState \<Rightarrow> 'prog engineState \<times> CheckResponse" where
  "InProcess_Check env inp req st = Evaluate env inp req st"

section \<open>What front ends share\<close>

text \<open>A front end turns its input into a request, or answers without asking, and turns the engine's response into an
  answer; some answers let the call pass.  The contract: without a request, or without an allowing verdict, the
  answer lets nothing pass.\<close>

locale front_end =
  fixes request :: "'i \<Rightarrow> CheckRequest option"
    and answer :: "'i \<Rightarrow> CheckResponse option \<Rightarrow> 'o"
    and lets_pass :: "'o \<Rightarrow> bool"
  assumes unasked: "\<not> lets_pass (answer i None)"
    and refused: "lets_pass (answer i (Some resp)) \<Longrightarrow> resp_action resp \<in> {ActionAllow, ActionAudit}"
begin

definition run :: "('ast, 'prog) EngineEnv \<Rightarrow> EvalInput \<Rightarrow> 'i \<Rightarrow> 'prog engineState \<Rightarrow> 'o" where
  "run env inp i st = answer i (map_option (\<lambda>r. snd (Evaluate env inp r st)) (request i))"

lemma pass_means_allowed:
  assumes "lets_pass (run env inp i st)"
  shows "\<exists>r. request i = Some r \<and> resp_action (snd (Evaluate env inp r st)) \<in> {ActionAllow, ActionAudit}"
proof (cases "request i")
  case None
  then show ?thesis using assms unasked by (simp add: run_def)
next
  case (Some r)
  then show ?thesis using assms refused by (auto simp: run_def)
qed

end

definition grpc_answer :: "EnvoyRequest option \<Rightarrow> CheckResponse option \<Rightarrow> EnvoyResponse" where
  "grpc_answer i resp = (case resp of None \<Rightarrow> grpc_denyResponse ''nil request'' | Some r \<Rightarrow> translateResponse r)"

definition grpc_passes :: "EnvoyResponse \<Rightarrow> bool" where
  "grpc_passes r \<longleftrightarrow> enCode r = codeOK \<or> (\<exists>h. enAnswer r = OkHttp h)"

interpretation grpc_end: front_end "map_option (translateRequest marshal)" grpc_answer grpc_passes for marshal
  by unfold_locales
     (auto simp: grpc_answer_def grpc_passes_def grpc_denyResponse_def translateResponse_def codeOK_def codePermissionDenied_def split: Action.splits)

definition check_request :: "string + checkRequestJSON \<Rightarrow> CheckRequest option" where
  "check_request wire = (case wire of Inl _ \<Rightarrow> None
   | Inr q \<Rightarrow> if CrTool q = [] then None else Some (mcp_request (CrTool q) (CrArgs q) (CrSession q)))"

definition check_answer :: "bool \<Rightarrow> string + checkRequestJSON \<Rightarrow> CheckResponse option \<Rightarrow> CheckAnswer" where
  "check_answer late wire resp = (case resp of
     None \<Rightarrow> (case wire of Inl err \<Rightarrow> CheckError 400 (''invalid request body: '' @ err) | Inr _ \<Rightarrow> CheckError 400 ''missing required field: tool'')
   | Some r \<Rightarrow> if late then CheckError 503 ''evaluation deadline exceeded''
       else CheckOk \<lparr>CjDecision = \<lparr>DjAction = actionName (resp_action r), DjReason = Reason (RespDecision r), DjPolicyID = PolicyID (RespDecision r)\<rparr>,
                     CjLatency = LatencyNs r, CjLayer = layerName (RespLayer r), CjAnnotations = Annotations r\<rparr>)"

fun check_passes :: "CheckAnswer \<Rightarrow> bool" where
  "check_passes (CheckOk r) \<longleftrightarrow> DjAction (CjDecision r) \<in> {''allow'', ''audit''}"
| "check_passes (CheckError code msg) \<longleftrightarrow> False"

lemma actionName_allow: "actionName a \<in> {''allow'', ''audit''} \<Longrightarrow> a \<in> {ActionAllow, ActionAudit}"
  by (cases a) simp_all

interpretation check_end: front_end check_request "check_answer late" check_passes for late
proof
  show "\<not> check_passes (check_answer late i None)" for i by (simp add: check_answer_def split: sum.split)
  show "resp_action resp \<in> {ActionAllow, ActionAudit}" if "check_passes (check_answer late i (Some resp))" for i resp
    using that actionName_allow [of "resp_action resp"] by (simp add: check_answer_def split: if_splits)
qed

lemma grpc_Check_run: "snd (grpc_Check marshal env inp r st) = grpc_end.run marshal env inp r st"
  by (simp add: grpc_Check_def grpc_end.run_def grpc_answer_def case_prod_beta split: option.split)

lemma check_handler_run: "snd (check_handler env inp late wire st) = check_end.run late env inp wire st"
  by (simp add: check_handler_def check_end.run_def check_answer_def check_request_def case_prod_beta split: sum.split option.split)

text \<open>Claim C19. Every front end obeys the engine.  The Envoy service lets a call through, and the check endpoint answers
  allow or audit, only when there was a request and the engine's verdict on its translation allows it; a nil
  request, a body that does not decode, one without a tool and an answer past the deadline let nothing through,
  and the text of a denial sent to Envoy has at most 259 bytes.\<close>

theorem front_ends_obey_engine:
  shows "(grpc_passes (snd (grpc_Check marshal env inp r st)) \<longrightarrow>
      (\<exists>q. r = Some q \<and> resp_action (snd (Evaluate env inp (translateRequest marshal q) st)) \<in> {ActionAllow, ActionAudit})) \<and>
    (\<forall>code h body. enAnswer (snd (grpc_Check marshal env inp r st)) = DeniedHttp code h body \<longrightarrow> length body \<le> 259) \<and>
    (check_passes (snd (check_handler env inp late wire st)) \<longrightarrow>
      \<not> late \<and> (\<exists>q. wire = Inr q \<and> CrTool q \<noteq> [] \<and>
        resp_action (snd (Evaluate env inp (mcp_request (CrTool q) (CrArgs q) (CrSession q)) st)) \<in> {ActionAllow, ActionAudit}))"
proof (intro conjI impI)
  assume "grpc_passes (snd (grpc_Check marshal env inp r st))"
  from grpc_end.pass_means_allowed [OF this [unfolded grpc_Check_run]]
  show "\<exists>q. r = Some q \<and> resp_action (snd (Evaluate env inp (translateRequest marshal q) st)) \<in> {ActionAllow, ActionAudit}" by auto
next
  show "\<forall>code h body. enAnswer (snd (grpc_Check marshal env inp r st)) = DeniedHttp code h body \<longrightarrow> length body \<le> 259"
    by (auto simp: grpc_Check_def translateResponse_def grpc_denyResponse_def split: option.splits prod.splits Action.splits if_splits)
next
  assume a: "check_passes (snd (check_handler env inp late wire st))"
  from check_end.pass_means_allowed [OF this [unfolded check_handler_run]] obtain q where
    "wire = Inr q" "CrTool q \<noteq> []"
    "resp_action (snd (Evaluate env inp (mcp_request (CrTool q) (CrArgs q) (CrSession q)) st)) \<in> {ActionAllow, ActionAudit}"
    by (auto simp: check_request_def split: sum.splits if_splits)
  moreover show "\<not> late" using a calculation by (auto simp: check_handler_def case_prod_beta)
  ultimately show "\<exists>q. wire = Inr q \<and> CrTool q \<noteq> [] \<and>
      resp_action (snd (Evaluate env inp (mcp_request (CrTool q) (CrArgs q) (CrSession q)) st)) \<in> {ActionAllow, ActionAudit}" by blast
qed

theorem front_ends_obey_engine_witness:
  "\<exists>q. Inr \<lparr>CrTool = ''Read'', CrArgs = ''/tmp/notes'', CrSession = ''s1''\<rparr> = (Inr q :: string + checkRequestJSON) \<and>
     resp_action (snd (Evaluate (demo_env (ScanDone [])) demo_input (mcp_request (CrTool q) (CrArgs q) (CrSession q)) (demo_state [(''p'', ''true'', [])])))
       \<in> {ActionAllow, ActionAudit}"
proof -
  let ?w = "Inr \<lparr>CrTool = ''Read'', CrArgs = ''/tmp/notes'', CrSession = ''s1''\<rparr> :: string + checkRequestJSON"
  have "check_passes (snd (check_handler (demo_env (ScanDone [])) demo_input False ?w (demo_state [(''p'', ''true'', [])])))"
    using demo_allows [of "ScanDone []"] by (simp add: check_handler_def demo_mcp_request case_prod_beta)
  then show ?thesis
    using front_ends_obey_engine [of "\<lambda>_. []" "demo_env (ScanDone [])" demo_input None "demo_state [(''p'', ''true'', [])]" False ?w] by blast
qed

end
