(* ===== verification/CliPolicy.thy ===== *)
theory CliPolicy
  imports DaemonApi FrontEnds
begin

text \<open>
  The commands that work on policies and talk to the daemon: \<^verbatim>\<open>validate\<close>, \<^verbatim>\<open>policy lint\<close>, \<^verbatim>\<open>policy export\<close>, \<^verbatim>\<open>policy cost\<close>, \<^verbatim>\<open>reload\<close>, \<^verbatim>\<open>simulate\<close>,
  \<^verbatim>\<open>bundle activate\<close>, \<^verbatim>\<open>bundle list\<close>, \<^verbatim>\<open>bundle rollback\<close> and \<^verbatim>\<open>scan\<close> of \<^verbatim>\<open>cmd/nixis\<close>, each composed with the part of the daemon that
  it reaches.  What a command prints is its result as a value; codecs and the connection are parameters as for the hook.
\<close>

section \<open>Validation, lint and export\<close>

datatype ValidateResult = ValidateParseError PolicyFileError | ValidateEnvError | ValidationFailed CompileError | Validated nat "SkippedPolicy list"

text \<open>\<^verbatim>\<open>cel\<close> is the environment, when it can be created; \<^const>\<open>None\<close> as the result when parsing does not return.\<close>

definition runValidate ::
    "PolicyLib \<Rightarrow> (string \<rightharpoonup> string) \<Rightarrow> walk_item list \<Rightarrow> ('ast, 'prog) CelLib option \<Rightarrow> ValidateResult option" where
  "runValidate lib files walk cel = map_option (\<lambda>r. case r of
     Inl e \<Rightarrow> ValidateParseError e
   | Inr (templates, bindings) \<Rightarrow> (case cel of
       None \<Rightarrow> ValidateEnvError
     | Some env \<Rightarrow> (case CompileAll env templates of
         Inl e \<Rightarrow> ValidationFailed e
       | Inr (cache, skipped) \<Rightarrow> Validated (length templates - length skipped) skipped))) (ParsePolicyDir lib files walk)"

datatype LintResult = LintParseError PolicyFileError | LintEnvError | LintFailed CompileError | LintNoDescription string string | LintOK nat

definition runPolicyLint ::
    "PolicyLib \<Rightarrow> (string \<rightharpoonup> string) \<Rightarrow> walk_item list \<Rightarrow> ('ast, 'prog) CelLib option \<Rightarrow> bool \<Rightarrow> LintResult option" where
  "runPolicyLint lib files walk cel strict = map_option (\<lambda>r. case r of
     Inl e \<Rightarrow> LintParseError e
   | Inr (templates, bindings) \<Rightarrow> (case cel of
       None \<Rightarrow> LintEnvError
     | Some env \<Rightarrow> (case CompileAll env templates of
         Inl e \<Rightarrow> LintFailed e
       | Inr (cache, skipped) \<Rightarrow> (case (if strict then List.find (\<lambda>t. Description t = []) templates else None) of
           Some t \<Rightarrow> LintNoDescription (SourceFile t) (TemplID t)
         | None \<Rightarrow> LintOK (length templates))))) (ParsePolicyDir lib files walk)"

record policyJSON =
  pjID :: string
  pjName :: string
  pjLayer :: string
  pjEnabled :: bool
  pjCelExpression :: string
  pjDescription :: string

definition export_layers :: "PolicyBinding list \<Rightarrow> (string \<rightharpoonup> string)" where
  "export_layers bindings = foldl (\<lambda>m b. if Layer b \<noteq> [] then m(TemplateID b \<mapsto> Layer b) else m) Map.empty bindings"

definition export_policies :: "parsed \<Rightarrow> policyJSON list" where
  "export_policies p =
    map (\<lambda>t. let layer = (case export_layers (snd p) (TemplID t) of Some l \<Rightarrow> l | None \<Rightarrow> []) in
      \<lparr>pjID = TemplID t, pjName = TemplName t, pjLayer = (if layer = [] then ''cel'' else layer),
       pjEnabled = True, pjCelExpression = Expression t, pjDescription = Description t\<rparr>) (fst p)"

datatype ExportResult = ExportParseError PolicyFileError | ExportMarshalError | ExportWriteError | ExportStdout string | Exported nat

definition runPolicyExport ::
    "PolicyLib \<Rightarrow> (policyJSON list \<Rightarrow> string option) \<Rightarrow> (string \<Rightarrow> bool) \<Rightarrow> walk_item list \<Rightarrow> string \<Rightarrow> (string \<rightharpoonup> string) \<Rightarrow>
      (ExportResult \<times> (string \<rightharpoonup> string)) option" where
  "runPolicyExport lib marshal writable walk out files = map_option (\<lambda>r. case r of
     Inl e \<Rightarrow> (ExportParseError e, files)
   | Inr p \<Rightarrow> (case marshal (export_policies p) of
       None \<Rightarrow> (ExportMarshalError, files)
     | Some data \<Rightarrow>
        (if out = ''-'' then (ExportStdout (data @ [CHR 0x0A]), files)
         else if \<not> writable out then (ExportWriteError, files)
         else (Exported (length (export_policies p)), files(out \<mapsto> data @ [CHR 0x0A]))))) (ParsePolicyDir lib files walk)"

text \<open>The cost is the estimate of cel-go for sizes up to 1024 (\<^verbatim>\<open>simpleSizeEstimator\<close>), another one than the engine's.\<close>

datatype CostResult = CostEnvError | CostParseError string | CostTypeError string | CostEstimateError string | Cost nat

definition runPolicyCost :: "('ast, 'prog) CelLib option \<Rightarrow> ('ast \<Rightarrow> string + nat) \<Rightarrow> string \<Rightarrow> CostResult" where
  "runPolicyCost cel estimate expr = (case cel of
     None \<Rightarrow> CostEnvError
   | Some env \<Rightarrow> (case celParse env expr of
       Inl e \<Rightarrow> CostParseError e
     | Inr ast \<Rightarrow> (case celCheck env ast of
         Inl e \<Rightarrow> CostTypeError e
       | Inr checked \<Rightarrow> (case estimate checked of Inl e \<Rightarrow> CostEstimateError e | Inr n \<Rightarrow> Cost n))))"

datatype ReloadResult = DaemonUnreachable | ReloadFailed nat | PoliciesReloaded

definition runReload ::
    "bool \<Rightarrow> ('prog engineState \<Rightarrow> ('prog engineState \<times> bool) option) option \<Rightarrow> 'prog Daemon \<Rightarrow> ('prog Daemon \<times> ReloadResult) option" where
  "runReload reachable reload d =
    (if \<not> reachable then Some (d, DaemonUnreachable)
     else map_option (\<lambda>(d', status). (d', if status = 200 then PoliciesReloaded else ReloadFailed status)) (handleReload ''POST'' reload d))"

section \<open>Simulation\<close>

fun actionString :: "Action \<Rightarrow> string" where
  "actionString ActionAllow = ''allow''"
| "actionString ActionDeny = ''deny''"
| "actionString ActionRequireApproval = ''require_approval''"
| "actionString ActionAudit = ''audit''"

definition daemonSocketPath :: "(string \<Rightarrow> string) \<Rightarrow> string" where
  "daemonSocketPath getenv =
    (if getenv ''NIXIS_SOCKET_PATH'' \<noteq> [] then getenv ''NIXIS_SOCKET_PATH''
     else if getenv ''XDG_RUNTIME_DIR'' \<noteq> [] then getenv ''XDG_RUNTIME_DIR'' @ ''/nixis/nixis.sock''
     else ''/tmp/nixis.sock'')"

definition writeSimFramed :: "bytes \<Rightarrow> bytes" where
  "writeSimFramed payload = be_bytes 4 (of_nat (length payload) :: u32) @ payload"

definition readSimFramed :: "bytes \<Rightarrow> bytes option" where
  "readSimFramed s =
    (if length s < 4 then None
     else let len = be_word (take 4 s) :: u32 in
       if unat len > MaxMessageSize then None
       else if length (drop 4 s) < unat len then None
       else Some (take (unat len) (drop 4 s)))"

text \<open>The connection as a command sees it: whether it can be opened, whether the request can be sent, and how many bytes
  of the answer arrive in time.\<close>

record Wire =
  wrDial :: bool
  wrSend :: bool
  wrArrives :: nat

record ClientCodec =
  ccMarshal :: "CheckRequest \<Rightarrow> bytes option"
  ccUnmarshal :: "bytes \<Rightarrow> CheckResponse option"

datatype SimResult = SimNoDaemon | SimMarshalError | SimSendError | SimReadError | SimParseError
  | SimPrinted string string EnforcingLayer int string

definition sim_request :: "string \<Rightarrow> string \<Rightarrow> string \<Rightarrow> int \<Rightarrow> CheckRequest" where
  "sim_request tool args session now = (mcp_request tool args session)\<lparr>Timestamp := now\<rparr>"

definition wire_reply :: "Wire \<Rightarrow> bytes option \<Rightarrow> bytes" where
  "wire_reply w answer = take (wrArrives w) (case answer of None \<Rightarrow> [] | Some frame \<Rightarrow> frame)"

definition runSimulate ::
    "ClientCodec \<Rightarrow> Wire \<Rightarrow> CheckRequest \<Rightarrow> ('ast, 'prog) EngineEnv \<Rightarrow> DaemonCodec \<Rightarrow> ConnInput \<Rightarrow> 'prog Daemon \<Rightarrow> 'prog Daemon \<times> SimResult" where
  "runSimulate cc w req env codec ci d =
    (if \<not> wrDial w then (d, SimNoDaemon)
     else case ccMarshal cc req of
       None \<Rightarrow> (d, SimMarshalError)
     | Some b \<Rightarrow>
        (if \<not> wrSend w then (d, SimSendError)
         else let (d', answer) = handleConnection env codec ci (writeSimFramed b) d in
           (d', case readSimFramed (wire_reply w answer) of
              None \<Rightarrow> SimReadError
            | Some x \<Rightarrow> (case ccUnmarshal cc x of
                None \<Rightarrow> SimParseError
              | Some resp \<Rightarrow> SimPrinted (actionString (resp_action resp)) (PolicyID (RespDecision resp)) (RespLayer resp) (LatencyNs resp)
                               (Reason (RespDecision resp))))))"

section \<open>Bundles\<close>

datatype ActivateResult = BundlePathError | BundleParseError PolicyFileError | ActivateNoDaemon | ActivateMarshalError | ActivateSendError
  | ActivatedNoAck | ActivatedNoAnswer | ActivateAction Action

text \<open>A path that does not parse as a directory is read as a single file.\<close>

definition bundle_policies :: "PolicyLib \<Rightarrow> (string \<rightharpoonup> string) \<Rightarrow> walk_item list \<Rightarrow> string \<Rightarrow> (PolicyFileError + parsed) option" where
  "bundle_policies lib files walk path = Option.bind (ParsePolicyDir lib files walk) (\<lambda>r. case r of
     Inr p \<Rightarrow> Some (Inr p)
   | Inl _ \<Rightarrow> map_option (\<lambda>r. case r of
       Inl e \<Rightarrow> Inl e
     | Inr None \<Rightarrow> Inr ([], [])
     | Inr (Some (t, b)) \<Rightarrow> Inr ([t], [b])) (ParsePolicyFile lib files path))"

definition activateBundle ::
    "PolicyLib \<Rightarrow> (string \<rightharpoonup> string) \<Rightarrow> walk_item list \<Rightarrow> bool \<Rightarrow> string \<Rightarrow> (string \<Rightarrow> string) \<Rightarrow> ClientCodec \<Rightarrow> Wire \<Rightarrow> int \<Rightarrow>
      ('ast, 'prog) EngineEnv \<Rightarrow> DaemonCodec \<Rightarrow> ConnInput \<Rightarrow> 'prog Daemon \<Rightarrow> ('prog Daemon \<times> ActivateResult) option" where
  "activateBundle lib files walk exists path pathJSON cc w now env codec ci d =
    (if \<not> exists then Some (d, BundlePathError)
     else map_option (\<lambda>r. case r of
       Inl e \<Rightarrow> (d, BundleParseError e)
     | Inr p \<Rightarrow>
        (if \<not> wrDial w then (d, ActivateNoDaemon)
         else case ccMarshal cc (sim_request ''bundle_reload'' (pathJSON path) [] now) of
           None \<Rightarrow> (d, ActivateMarshalError)
         | Some b \<Rightarrow>
            (if \<not> wrSend w then (d, ActivateSendError)
             else let (d', answer) = handleConnection env codec ci (writeSimFramed b) d in
               (d', case readSimFramed (wire_reply w answer) of
                  None \<Rightarrow> ActivatedNoAck
                | Some x \<Rightarrow> (case ccUnmarshal cc x of None \<Rightarrow> ActivatedNoAnswer | Some resp \<Rightarrow> ActivateAction (resp_action resp))))))
       (bundle_policies lib files walk path))"

datatype store_listing = NoStore | StoreUnreadable | StoreEntries "(string \<times> store_entry) list"

definition loadBundleManifests :: "store_listing \<Rightarrow> BundleManifest list option" where
  "loadBundleManifests l = (case l of
     NoStore \<Rightarrow> Some [] | StoreUnreadable \<Rightarrow> None
   | StoreEntries dirs \<Rightarrow> Some (List.map_filter (\<lambda>(name, e). seManifest e) dirs))"

text \<open>\<^verbatim>\<open>sort.Slice\<close> sorts by time; the order of equal times is unspecified, so the function is a parameter.\<close>

definition runBundleList :: "(BundleManifest list \<Rightarrow> BundleManifest list) \<Rightarrow> store_listing \<Rightarrow> (u64 \<times> string \<times> gotime) list option" where
  "runBundleList sortSlice l = map_option (\<lambda>ms. map (\<lambda>m. (ManVersion m, take 8 (ManHash m), StoredAt m)) (sortSlice ms)) (loadBundleManifests l)"

datatype RollbackResult = RollbackStoreError | NoPreviousBundle | RollbackSendError | RolledBack string

text \<open>The reload message is sent framed; the answer is read and ignored.\<close>

definition sendBundleReload ::
    "(string \<Rightarrow> bytes) \<Rightarrow> string \<Rightarrow> Wire \<Rightarrow> ('ast, 'prog) EngineEnv \<Rightarrow> DaemonCodec \<Rightarrow> ConnInput \<Rightarrow> 'prog Daemon \<Rightarrow> 'prog Daemon \<times> bool" where
  "sendBundleReload msg bundlePath w env codec ci d =
    (if \<not> wrDial w then (d, False)
     else if \<not> wrSend w then (d, False)
     else (fst (handleConnection env codec ci (writeSimFramed (msg bundlePath)) d), True))"

definition runBundleRollback ::
    "(BundleManifest list \<Rightarrow> BundleManifest list) \<Rightarrow> string \<Rightarrow> store_listing \<Rightarrow> (string \<Rightarrow> bytes) \<Rightarrow> Wire \<Rightarrow>
      ('ast, 'prog) EngineEnv \<Rightarrow> DaemonCodec \<Rightarrow> ConnInput \<Rightarrow> 'prog Daemon \<Rightarrow> 'prog Daemon \<times> RollbackResult" where
  "runBundleRollback sortSlice storeDir l msg w env codec ci d = (case loadBundleManifests l of
     None \<Rightarrow> (d, RollbackStoreError)
   | Some manifests \<Rightarrow>
      (if length manifests < 2 then (d, NoPreviousBundle)
       else let sorted = sortSlice manifests; prev = sorted ! (length sorted - 2);
                bundlePath = filepath_Join [storeDir, ManHash prev, ''bundle.tar.gz''];
                (d', sent) = sendBundleReload msg bundlePath w env codec ci d
            in (d', if sent then RolledBack bundlePath else RollbackSendError)))"

section \<open>Scanning an MCP server\<close>

record mcpTool =
  mtName :: string
  mtDescription :: string

datatype 'r rpc_reply = RpcUnreadable | RpcError int string | RpcResult 'r

text \<open>The server as the command meets it: whether its process starts, whether each request can be written, and its replies; a
  list of tools that does not decode is \<^const>\<open>None\<close>.\<close>

record McpServer =
  msStarts :: bool
  msInitSent :: bool
  msInit :: "unit rpc_reply"
  msListSent :: bool
  msTools :: "mcpTool list option rpc_reply"

datatype ScanError = ScanStart | ScanSend string | ScanRead string | ScanRpc string int string | ScanParse | ScanCatalog

definition buildEffectsLine :: "string list \<Rightarrow> string" where
  "buildEffectsLine effects = (if effects = [] then ''read'' else JoinStrings effects '', '')"

definition scan_tool :: "VerdictMap \<Rightarrow> mcpTool \<Rightarrow> string option" where
  "scan_tool vm t = map_option (\<lambda>(entry, known).
     let riskLevel = (if RiskLevel entry = [] then ''medium'' else RiskLevel entry);
         desc = takeWhile (\<lambda>c. c \<noteq> CHR 0x0A) (mtDescription t)
     in ''  - name: '' @ mtName t @ [CHR 0x0A] @
        (if desc \<noteq> [] then ''    description: '' @ desc @ [CHR 0x0A] else []) @
        ''    # nixis: classify as '' @ riskLevel @ [CHR 0x0A] @
        ''    # nixis: effects: ['' @ buildEffectsLine (Effects entry) @ '']'' @ [CHR 0x0A]) (Classify vm (mtName t))"

text \<open>\<^const>\<open>None\<close> when a lookup does not return.\<close>

definition runScan :: "McpServer \<Rightarrow> VerdictMap option \<Rightarrow> (ScanError + string) option" where
  "runScan srv clf =
    (if \<not> msStarts srv then Some (Inl ScanStart)
     else if \<not> msInitSent srv then Some (Inl (ScanSend ''initialize''))
     else case msInit srv of
       RpcUnreadable \<Rightarrow> Some (Inl (ScanRead ''initialize''))
     | RpcError code msg \<Rightarrow> Some (Inl (ScanRpc ''initialize'' code msg))
     | RpcResult _ \<Rightarrow>
        (if \<not> msListSent srv then Some (Inl (ScanSend ''tools/list''))
         else case msTools srv of
           RpcUnreadable \<Rightarrow> Some (Inl (ScanRead ''tools/list''))
         | RpcError code msg \<Rightarrow> Some (Inl (ScanRpc ''tools/list'' code msg))
         | RpcResult None \<Rightarrow> Some (Inl ScanParse)
         | RpcResult (Some tools) \<Rightarrow> (case clf of
             None \<Rightarrow> Some (Inl ScanCatalog)
           | Some vm \<Rightarrow> map_option (\<lambda>ls. Inr (''tools:'' @ [CHR 0x0A] @ concat ls)) (those (map (scan_tool vm) tools)))))"

section \<open>Validation predicts reloading\<close>

definition summary_of :: "policyJSON \<Rightarrow> PolicySummary" where
  "summary_of p = \<lparr>SumID = pjID p, SumName = pjName p, SumLayer = pjLayer p, SumEnabled = pjEnabled p,
     SumCelExpression = pjCelExpression p, SumDescription = pjDescription p\<rparr>"

lemma layers_agree: "layerByTemplateID (map compileBinding bs) = export_layers bs"
proof -
  have "foldl (\<lambda>m cb. if Layer (cbBinding cb) \<noteq> [] then m(TemplateID (cbBinding cb) \<mapsto> Layer (cbBinding cb)) else m) m (map compileBinding bs) =
      foldl (\<lambda>m b. if Layer b \<noteq> [] then m(TemplateID b \<mapsto> Layer b) else m) m bs" for m
    by (induction bs arbitrary: m) (simp_all add: compileBinding_def)
  then show ?thesis by (simp add: layerByTemplateID_def export_layers_def)
qed

lemma export_layers_nonempty: "export_layers bs k \<noteq> Some []"
proof -
  have "m k \<noteq> Some [] \<Longrightarrow> foldl (\<lambda>m b. if Layer b \<noteq> [] then m(TemplateID b \<mapsto> Layer b) else m) m bs k \<noteq> Some []" for m
    by (induction bs arbitrary: m) auto
  then show ?thesis by (simp add: export_layers_def)
qed

lemma Reload_lists_export:
  assumes "Reload env now \<lparr>BundleVersion = v, BundleHash = h, Templates = ts, Bindings = bs\<rparr> st = (st', None)"
  shows "ListPolicies st' = map summary_of (export_policies (ts, bs))"
proof -
  obtain snap where "esSnapshot st' = Some snap" "snapBindings snap = map compileBinding bs" "snapTemplates snap = ts"
    using assms by (auto simp: Reload_def buildSnapshot_def Let_def split: sum.splits option.splits prod.splits)
  then show ?thesis
    using export_layers_nonempty [of bs] by (auto simp: ListPolicies_def layers_agree export_policies_def summary_of_def Let_def split: option.splits)
qed

lemma Reload_accepts:
  "snd (Reload env now c st) = None \<longleftrightarrow>
    (\<exists>cache sk. CompileAll (envCel env) (Templates c) = Inr (cache, sk) \<and> (\<forall>s \<in> set sk. SkDefaultAction s \<noteq> ''DENY''))"
proof (cases "CompileAll (envCel env) (Templates c)")
  case (Inr p)
  obtain cache sk where p: "p = (cache, sk)" by fastforce
  have "List.find (\<lambda>s. SkDefaultAction s = ''DENY'') sk = None \<longleftrightarrow> (\<forall>s \<in> set sk. SkDefaultAction s \<noteq> ''DENY'')" by (auto simp: find_None_iff)
  then show ?thesis
    using Inr p by (cases "List.find (\<lambda>s. SkDefaultAction s = ''DENY'') sk") (auto simp: Reload_def buildSnapshot_def Let_def)
qed (simp add: Reload_def buildSnapshot_def Let_def)


lemma demo_directory:
  "ParsePolicyDir demo_lib demo_files [WalkFile ''/d/a.yaml''] =
     Some (Inr ([manifest_template ''/d/a.yaml'' demo_manifest ''!((a) == y)'' None], [manifest_binding demo_manifest False]))"
proof -
  have "buildCombinedExpression (\<lambda>k i vs. vs) demo_manifest = Some (''!((a) == y)'', False)"
    using demo_inline [of 0] by (simp add: buildCombinedExpression_def with_action_def negated_def) (simp add: demo_manifest_def)
  moreover have "policy_file_name (Base ''/d/a.yaml'')" by code_simp
  ultimately show ?thesis
    by (simp add: ParsePolicyDir_def ParsePolicyFileAll_def demo_files_def demo_lib_def) (simp add: demo_manifest_def resolveParams_def)
qed


text \<open>A file that does not parse is left out, so validating a directory with nothing but broken files succeeds.\<close>

lemma validate_accepts_broken_files:
  "runValidate demo_lib demo_files [WalkFile ''/d/b.yml''] (Some cel) = Some (Validated 0 [])"
proof -
  have "policy_file_name (Base ''/d/b.yml'')" by code_simp
  then show ?thesis
    by (simp add: runValidate_def ParsePolicyDir_def ParsePolicyFileAll_def demo_files_def demo_lib_def CompileAll_def)
qed

text \<open>A policy with an undeclared variable passes validation and lint; when its default is to deny, the reload is refused.\<close>

lemma skipped_deny_refused:
  assumes "lib_ok lib" and "runValidate lib files walk (Some (envCel env)) = Some (Validated n sk)"
    and "s \<in> set sk" and "SkDefaultAction s = ''DENY''"
  shows "policyReloader_Reload lib files walk env now st = Some (st, False) \<and>
    (\<exists>k. runPolicyLint lib files walk (Some (envCel env)) False = Some (LintOK k))"
proof -
  obtain ts bs cache where p: "ParsePolicyDir lib files walk = Some (Inr (ts, bs))" "CompileAll (envCel env) ts = Inr (cache, sk)"
  proof (cases "ParsePolicyDir lib files walk")
    case (Some r)
    then show ?thesis using assms(2) that
      by (cases r; cases "CompileAll (envCel env) (fst (projr r))") (auto simp: runValidate_def split: prod.splits)
  qed (use assms(2) in \<open>simp add: runValidate_def\<close>)
  let ?c = "\<lparr>BundleVersion = 1, BundleHash = replicate 32 0, Templates = ts, Bindings = bs\<rparr> :: CompiledBundle"
  have "snd (Reload env now ?c st) \<noteq> None" using Reload_accepts [of env now ?c st] p(2) assms(3,4) by auto
  then have "engine_reload env now ?c st = (st, False)"
    by (auto simp: engine_reload_def Reload_def Let_def split: sum.splits prod.splits)
  then show ?thesis using p by (simp add: policyReloader_Reload_def runPolicyLint_def)
qed

section \<open>Simulation shows the verdict\<close>

lemma writeSimFramed_WriteMessage: "writeSimFramed b = WriteMessage b"
  by (simp add: writeSimFramed_def WriteMessage_def headerSize_def)

lemma readSimFramed_readFramed: "readSimFramed s = readFramed s"
  by (simp add: readSimFramed_def readFramed_def)

definition client_codec_ok :: "ClientCodec \<Rightarrow> DaemonCodec \<Rightarrow> bool" where
  "client_codec_ok cc codec \<longleftrightarrow>
    (\<forall>req b. ccMarshal cc req = Some b \<longrightarrow> length b < 2 ^ 32 \<and> reqUnmarshal codec b = Some req) \<and>
    (\<forall>resp b. respMarshal codec resp = Some b \<longrightarrow> length b < 2 ^ 32 \<and> ccUnmarshal cc b = Some resp)"

lemma simulate_shows_verdict:
  assumes "client_codec_ok cc codec" and "runSimulate cc w req env codec ci d = (d', SimPrinted act pol layer lat why)" and "act \<noteq> ''deny''"
  shows "msMode (dmMode d) \<notin> {ModeDenyAll, ModeReadOnly} \<and>
    (let resp = snd (Evaluate env (ciEval ci) req (dmEngine d)) in
     act = actionString (resp_action resp) \<and> pol = PolicyID (RespDecision resp) \<and> layer = RespLayer resp \<and> lat = LatencyNs resp \<and>
     why = Reason (RespDecision resp))"
proof -
  obtain b where b: "ccMarshal cc req = Some b" "wrDial w" "wrSend w" using assms(2) by (auto simp: runSimulate_def split: if_splits option.splits)
  obtain e answer where h: "handleConnection env codec ci (WriteMessage b) d = (e, answer)" by fastforce
  obtain x resp where x: "readFramed (wire_reply w answer) = Some x" "ccUnmarshal cc x = Some resp"
    and out: "act = actionString (resp_action resp)" "pol = PolicyID (RespDecision resp)" "layer = RespLayer resp" "lat = LatencyNs resp"
      "why = Reason (RespDecision resp)"
    using assms(2) b h by (auto simp: runSimulate_def writeSimFramed_WriteMessage readSimFramed_readFramed split: option.splits)
  have "length b < 2 ^ 32" "reqUnmarshal codec b = Some req" using assms(1) b(1) by (simp_all add: client_codec_ok_def)
  note ex = exchange_answer [OF _ this h x(1) [unfolded wire_reply_def], of "ccUnmarshal cc" resp]
  have "resp_action resp = ActionDeny \<or>
    msMode (dmMode d) \<notin> {ModeDenyAll, ModeReadOnly} \<and> resp = snd (Evaluate env (ciEval ci) req (dmEngine d))"
    using assms(1) x(2) by (intro ex) (simp_all add: client_codec_ok_def)
  then show ?thesis using out assms(3) by (auto simp: Let_def)
qed

section \<open>The socket does not change policies\<close>

text \<open>Whatever is sent over the socket, the daemon keeps its policies.\<close>

lemma persist_label_snapshot: "esSnapshot (dmEngine (persist_label now req resp d)) = esSnapshot (dmEngine d)"
  by (simp add: persist_label_def Let_def on_sessions_def split: option.split)

lemma socket_keeps_policies: "esSnapshot (dmEngine (fst (handleConnection env codec ci stream d))) = esSnapshot (dmEngine d)"
proof -
  have "esSnapshot (dmEngine (fst (serve_request env codec ci req d))) = esSnapshot (dmEngine d)" for req
    using Evaluate_rel [of "dmEngine d" env "ciEval ci" req]
    by (simp add: serve_request_def case_prod_beta Let_def persist_label_snapshot state_rel_def split: option.split)
  then show ?thesis by (simp add: handleConnection_def split: sum.split ReadError.split option.split)
qed

text \<open>So neither \<^verbatim>\<open>bundle activate\<close> nor \<^verbatim>\<open>bundle rollback\<close> has an effect on the policies, although they report an activation.\<close>

lemma bundle_commands_keep_policies:
  "activateBundle lib files walk found path pathJSON cc w now env codec ci d = Some (d', r) \<Longrightarrow> esSnapshot (dmEngine d') = esSnapshot (dmEngine d)"
  "runBundleRollback sortSlice storeDir l msg w env codec ci d = (d2, r2) \<Longrightarrow> esSnapshot (dmEngine d2) = esSnapshot (dmEngine d)"
proof -
  show "activateBundle lib files walk found path pathJSON cc w now env codec ci d = Some (d', r) \<Longrightarrow> esSnapshot (dmEngine d') = esSnapshot (dmEngine d)"
    using socket_keeps_policies [of env codec ci _ d]
    by (cases "bundle_policies lib files walk path"; cases "the (bundle_policies lib files walk path)")
      (auto simp: activateBundle_def case_prod_beta Let_def split: if_splits option.splits)
  show "runBundleRollback sortSlice storeDir l msg w env codec ci d = (d2, r2) \<Longrightarrow> esSnapshot (dmEngine d2) = esSnapshot (dmEngine d)"
    using socket_keeps_policies [of env codec ci _ d]
    by (auto simp: runBundleRollback_def sendBundleReload_def case_prod_beta Let_def split: if_splits option.splits)
qed

text \<open>A simulated call is a real one: it is evaluated and recorded.\<close>

lemma persist_label_evaluations [simp]: "dmEvaluations (persist_label t req resp d) = dmEvaluations d"
  by (simp add: persist_label_def Let_def split: option.split)

lemma simulate_is_recorded:
  assumes "client_codec_ok cc codec" and "ccMarshal cc req = Some b" and "wrDial w" and "wrSend w" and "length b \<le> MaxMessageSize"
    and "msMode (dmMode d) \<notin> {ModeDenyAll, ModeReadOnly}"
  shows "dmEvaluations (fst (runSimulate cc w req env codec ci d)) = dmEvaluations d + 1"
proof -
  have b: "length b < 2 ^ 32" "reqUnmarshal codec b = Some req" using assms(1,2) by (simp_all add: client_codec_ok_def)
  have "ReadMessage MaxMessageSize (WriteMessage b) = Inr b"
    using read_whole_frame [OF MaxMessageSize_small b(1), of "[]"] assms(5) by simp
  then have "handleConnection env codec ci (WriteMessage b) d = serve_request env codec ci req d"
    using b(2) assms(6) by (simp add: handleConnection_def)
  then show ?thesis
    using assms(2,3,4) by (simp add: runSimulate_def writeSimFramed_WriteMessage serve_request_def case_prod_beta Let_def split: option.split)
qed

section \<open>Rolling back\<close>

text \<open>With times that differ the command names the bundle stored just before the newest one.\<close>

lemma rollback_target:
  assumes "loadBundleManifests l = Some ms" and "2 \<le> length ms" and "mset (sortSlice ms) = mset ms" and "sorted (map StoredAt (sortSlice ms))"
    and "distinct (map StoredAt ms)" and "wrDial w" and "wrSend w"
  shows "\<exists>prev newest. prev \<in> set ms \<and> newest \<in> set ms \<and> StoredAt prev < StoredAt newest \<and>
    (\<forall>m \<in> set ms. m = newest \<or> StoredAt m \<le> StoredAt prev) \<and>
    snd (runBundleRollback sortSlice storeDir l msg w env codec ci d) = RolledBack (filepath_Join [storeDir, ManHash prev, ''bundle.tar.gz''])"
proof -
  let ?s = "sortSlice ms" and ?n = "length ms"
  have len: "length ?s = ?n" using assms(3) by (metis size_mset)
  have sets: "set ?s = set ms" using assms(3) by (metis set_mset_mset)
  have dist: "distinct (map StoredAt ?s)" using assms(3,5) by (metis mset_map mset_eq_imp_distinct_iff)
  have lt: "StoredAt (?s ! i) < StoredAt (?s ! j)" if "i < j" "j < ?n" for i j
  proof -
    have "StoredAt (?s ! i) \<le> StoredAt (?s ! j)" using sorted_nth_mono [OF assms(4), of i j] that len by simp
    moreover have "StoredAt (?s ! i) \<noteq> StoredAt (?s ! j)" using nth_eq_iff_index_eq [OF dist, of i j] that len by simp
    ultimately show ?thesis by simp
  qed
  have "m = ?s ! (?n - 1) \<or> StoredAt m \<le> StoredAt (?s ! (?n - 2))" if m: "m \<in> set ms" for m
  proof -
    obtain i where i: "i < ?n" "m = ?s ! i" using m sets len by (metis in_set_conv_nth)
    then consider "i = ?n - 1" | "i = ?n - 2" | "i < ?n - 2" by linarith
    moreover have "?n - 2 < ?n" using assms(2) by linarith
    ultimately show ?thesis using i lt [of i "?n - 2"] by cases auto
  qed
  moreover have "?s ! (?n - 2) \<in> set ms" "?s ! (?n - 1) \<in> set ms" using assms(2) len sets nth_mem [of "?n - 2" ?s] nth_mem [of "?n - 1" ?s] by simp_all
  moreover have "StoredAt (?s ! (?n - 2)) < StoredAt (?s ! (?n - 1))" using lt assms(2) by simp
  moreover have "snd (runBundleRollback sortSlice storeDir l msg w env codec ci d) = RolledBack (filepath_Join [storeDir, ManHash (?s ! (?n - 2)), ''bundle.tar.gz''])"
    using assms(1,2,6,7) len by (simp add: runBundleRollback_def sendBundleReload_def Let_def)
  ultimately show ?thesis by blast
qed

end
