(* ===== verification/DaemonLife.thy ===== *)
theory DaemonLife
  imports DaemonApi
begin

text \<open>
  The life of the daemon process: \<^verbatim>\<open>Run\<close>, \<^verbatim>\<open>listen\<close>, \<^verbatim>\<open>acceptLoop\<close> and \<^verbatim>\<open>shutdown\<close> of \<^verbatim>\<open>internal/daemon/daemon.go\<close> and the start-up in \<^verbatim>\<open>main\<close> of
  \<^verbatim>\<open>cmd/nixis-daemon/main.go\<close>.  Goroutines interleave, so a run is a sequence of steps: the accept loop takes a connection and waits
  for a slot of the semaphore, connection goroutines handle and release, the audit writer receives, flushes and drains, and
  \<^verbatim>\<open>Run\<close> moves from phase to phase.  What the other goroutines do to the engine state and the mode (reloads, approvals,
  maintenance) is one step with an arbitrary result.
\<close>

section \<open>Start\<close>

definition maxConcurrentConnections :: nat where "maxConcurrentConnections = 128"
definition socketPermissions :: nat where "socketPermissions = 384"
definition socketDirPermissions :: nat where "socketDirPermissions = 448"

text \<open>The file system as \<^verbatim>\<open>listen\<close> uses it: which calls succeed.  The result is the mode of the bound socket.\<close>

record ListenCalls =
  lcMkdir :: bool
  lcListen :: bool
  lcChmod :: bool

datatype ListenResult = MkdirError | ListenError | ChmodError | Bound nat

definition listen :: "ListenCalls \<Rightarrow> ListenResult" where
  "listen c =
    (if \<not> lcMkdir c then MkdirError
     else if \<not> lcListen c then ListenError
     else if \<not> lcChmod c then ChmodError
     else Bound socketPermissions)"

datatype ExitCode = exitStartupFailure | exitRuntimeFailure

text \<open>The calls of \<^verbatim>\<open>main\<close> that end the process when they fail, in their order; \<^const>\<open>None\<close> for the gRPC server when it is not
  configured.\<close>

record StartCalls =
  scPidLock :: bool
  scOtel :: bool
  scAuditDB :: bool
  scCelEnv :: bool
  scGrpc :: "bool option"
  scKey :: bool
  scDelegation :: bool
  scListen :: ListenCalls

text \<open>The initial load: a directory that does not parse or does not compile leaves the engine without policies.  The number
  is the count announced to the dashboard.\<close>

definition load_initial ::
    "PolicyLib \<Rightarrow> (string \<rightharpoonup> string) \<Rightarrow> walk_item list \<Rightarrow> ('ast, 'prog) EngineEnv \<Rightarrow> gotime \<Rightarrow> 'prog engineState \<Rightarrow> ('prog engineState \<times> nat) option" where
  "load_initial lib files walk env now st = map_option (\<lambda>r. case r of
     Inl e \<Rightarrow> (st, 0)
   | Inr (ts, bs) \<Rightarrow>
      (case Reload env now \<lparr>BundleVersion = 1, BundleHash = replicate 32 0, Templates = ts, Bindings = bs\<rparr> st of
         (st', Some err) \<Rightarrow> (st', 0)
       | (st', None) \<Rightarrow> (st', length ts))) (ParsePolicyDir lib files walk)"

definition fresh_engine :: "'prog engineState" where
  "fresh_engine = \<lparr>esSnapshot = None, esSessions = Some Map.empty, esHistory = None, esSpawns = Map.empty, esLastSkipped = []\<rparr>"

definition fresh_daemon :: "AuditDB \<Rightarrow> 'prog engineState \<Rightarrow> 'prog Daemon" where
  "fresh_daemon db st =
     \<lparr>dmEngine = st, dmSessions = True, dmWriter = StartWriter True db, dmStream = True,
      dmMode = \<lparr>msMode = ModeNormal, msReason = None, msSetAt = 0\<rparr>, dmEvaluations = 0, dmEvents = []\<rparr>"

definition daemon_start ::
    "StartCalls \<Rightarrow> PolicyLib \<Rightarrow> (string \<rightharpoonup> string) \<Rightarrow> walk_item list \<Rightarrow> ('ast, 'prog) EngineEnv \<Rightarrow> gotime \<Rightarrow> AuditDB \<Rightarrow>
      (ExitCode + 'prog Daemon) option" where
  "daemon_start sc lib files walk env now db =
    (if \<not> scPidLock sc \<or> \<not> scOtel sc \<or> \<not> scAuditDB sc \<or> \<not> scCelEnv sc then Some (Inl exitStartupFailure)
     else map_option (\<lambda>(st, n).
       if scGrpc sc = Some False \<or> \<not> scKey sc \<or> \<not> scDelegation sc then Inl exitStartupFailure
       else case listen (scListen sc) of Bound m \<Rightarrow> Inr (fresh_daemon db st) | _ \<Rightarrow> Inl exitRuntimeFailure)
       (load_initial lib files walk env now fresh_engine))"

section \<open>The run\<close>

datatype LifePhase = PhListening | PhDraining | PhFlushing | PhStopped

text \<open>\<^verbatim>\<open>lfActive\<close> are the connection goroutines that hold a slot, each with its input and whether it has handled it.  The last four
  fields record the history of the run: connections accepted and handled, items put into the queue, and items of batches
  whose transaction failed.\<close>

record 'prog Life =
  lfPhase :: LifePhase
  lfListener :: bool
  lfWaiting :: "bytes option"
  lfLoopDone :: bool
  lfActive :: "(bytes \<times> bool) list"
  lfDaemon :: "'prog Daemon"
  lfAuditCancel :: bool
  lfAuditDone :: bool
  lfSocket :: bool
  lfAccepted :: nat
  lfHandled :: nat
  lfQueued :: "writeItem list"
  lfLost :: "writeItem list"

definition start_life :: "'prog Daemon \<Rightarrow> 'prog Life" where
  "start_life d = \<lparr>lfPhase = PhListening, lfListener = True, lfWaiting = None, lfLoopDone = False, lfActive = [], lfDaemon = d,
     lfAuditCancel = False, lfAuditDone = False, lfSocket = True, lfAccepted = 0, lfHandled = 0, lfQueued = [], lfLost = []\<rparr>"

text \<open>What a call adds to the queue of the writer, and what a flush loses.\<close>

definition queued_by :: "Writer \<Rightarrow> Writer \<Rightarrow> writeItem list" where
  "queued_by w w' = drop (length (wrChan w)) (wrChan w')"

definition batch_lost :: "(bytes \<Rightarrow> bytes) \<Rightarrow> db_fault \<Rightarrow> Writer \<Rightarrow> writeItem list" where
  "batch_lost sha fault w =
    (case insert_items sha (case fault of ExecFails n \<Rightarrow> Some n | _ \<Rightarrow> None) (wrBatch w) (wrPrev w) (wrDB w) of
       None \<Rightarrow> wrBatch w | Some _ \<Rightarrow> if fault = BeginFails \<or> fault = CommitFails then wrBatch w else [])"

definition with_writer :: "Writer \<Rightarrow> 'prog Life \<Rightarrow> 'prog Life" where
  "with_writer w l = l\<lparr>lfDaemon := (lfDaemon l)\<lparr>dmWriter := w\<rparr>\<rparr>"

text \<open>One turn of the loop of the writer: the received item, and the flush it may cause.\<close>

definition received :: "Writer \<Rightarrow> Writer" where
  "received w = w\<lparr>wrChan := tl (wrChan w), wrBatch := wrBatch w @ [hd (wrChan w)]\<rparr>"

inductive life_step ::
    "(bytes \<Rightarrow> bytes) \<Rightarrow> ('ast, 'prog) EngineEnv \<Rightarrow> DaemonCodec \<Rightarrow> 'prog Life \<Rightarrow> 'prog Life \<Rightarrow> bool" for sha env codec where
  accept: "lfListener l \<Longrightarrow> \<not> lfLoopDone l \<Longrightarrow> lfWaiting l = None \<Longrightarrow>
    life_step sha env codec l (l\<lparr>lfWaiting := Some stream, lfAccepted := lfAccepted l + 1\<rparr>)"
| dispatch: "lfWaiting l = Some stream \<Longrightarrow> length (lfActive l) < maxConcurrentConnections \<Longrightarrow>
    life_step sha env codec l (l\<lparr>lfWaiting := None, lfActive := lfActive l @ [(stream, False)]\<rparr>)"
| handle: "lfActive l = xs @ (stream, False) # ys \<Longrightarrow> handleConnection env codec ci stream (lfDaemon l) = (d', answer) \<Longrightarrow>
    life_step sha env codec l (l\<lparr>lfActive := xs @ (stream, True) # ys, lfDaemon := d', lfHandled := lfHandled l + 1,
      lfQueued := lfQueued l @ queued_by (dmWriter (lfDaemon l)) (dmWriter d')\<rparr>)"
| release: "lfActive l = xs @ (stream, True) # ys \<Longrightarrow> life_step sha env codec l (l\<lparr>lfActive := xs @ ys\<rparr>)"
| other: "life_step sha env codec l (l\<lparr>lfDaemon := (lfDaemon l)\<lparr>dmEngine := e, dmMode := m\<rparr>\<rparr>)"
| signal: "lfPhase l = PhListening \<Longrightarrow> life_step sha env codec l (l\<lparr>lfPhase := PhDraining, lfListener := False\<rparr>)"
| loop_exit: "\<not> lfListener l \<Longrightarrow> lfWaiting l = None \<Longrightarrow> \<not> lfLoopDone l \<Longrightarrow> life_step sha env codec l (l\<lparr>lfLoopDone := True\<rparr>)"
| drained: "lfPhase l = PhDraining \<Longrightarrow> lfLoopDone l \<Longrightarrow> lfActive l = [] \<Longrightarrow>
    life_step sha env codec l (l\<lparr>lfPhase := PhFlushing, lfAuditCancel := True\<rparr>)"
| receive: "\<not> lfAuditDone l \<Longrightarrow> w = dmWriter (lfDaemon l) \<Longrightarrow> wrChan w \<noteq> [] \<Longrightarrow>
    life_step sha env codec l (with_writer (receive_item sha fault w)
      (l\<lparr>lfLost := lfLost l @ (if length (wrBatch (received w)) \<ge> batchSize then batch_lost sha fault (received w) else [])\<rparr>))"
| timer: "\<not> lfAuditDone l \<Longrightarrow> w = dmWriter (lfDaemon l) \<Longrightarrow>
    life_step sha env codec l (with_writer (flush sha fault w) (l\<lparr>lfLost := lfLost l @ batch_lost sha fault w\<rparr>))"
| drain_audit: "\<not> lfAuditDone l \<Longrightarrow> lfAuditCancel l \<Longrightarrow> w = dmWriter (lfDaemon l) \<Longrightarrow>
    life_step sha env codec l (with_writer (drain sha fault w)
      (l\<lparr>lfAuditDone := True, lfLost := lfLost l @ batch_lost sha fault (w\<lparr>wrChan := [], wrBatch := wrBatch w @ wrChan w\<rparr>)\<rparr>))"
| stop: "lfPhase l = PhFlushing \<Longrightarrow> lfAuditDone l \<Longrightarrow> life_step sha env codec l (l\<lparr>lfPhase := PhStopped, lfSocket := False\<rparr>)"

inductive_cases life_stepE: "life_step sha env codec l l'"

abbreviation life_run :: "(bytes \<Rightarrow> bytes) \<Rightarrow> ('ast, 'prog) EngineEnv \<Rightarrow> DaemonCodec \<Rightarrow> 'prog Life \<Rightarrow> 'prog Life \<Rightarrow> bool" where
  "life_run sha env codec \<equiv> (life_step sha env codec)\<^sup>*\<^sup>*"

section \<open>What the steps keep\<close>

definition unhandled :: "'prog Life \<Rightarrow> nat" where
  "unhandled l = length (filter (\<lambda>c. \<not> snd c) (lfActive l)) + (if lfWaiting l = None then 0 else 1)"

definition stored :: "AuditDB \<Rightarrow> writeItem \<Rightarrow> bool" where
  "stored db item = (case item of RecordItem r \<Rightarrow> r \<in> RowRecord ` set (dbLog db) | LabelItem k \<Rightarrow> k \<in> set (dbLabels db))"

definition life_ok :: "(bytes \<Rightarrow> bytes) \<Rightarrow> 'prog Life \<Rightarrow> bool" where
  "life_ok sha l \<longleftrightarrow>
    length (lfActive l) \<le> maxConcurrentConnections \<and>
    lfAccepted l = lfHandled l + unhandled l \<and>
    (lfListener l \<longleftrightarrow> lfPhase l = PhListening) \<and>
    (lfSocket l \<longleftrightarrow> lfPhase l \<noteq> PhStopped) \<and>
    (lfLoopDone l \<longrightarrow> \<not> lfListener l \<and> lfWaiting l = None) \<and>
    (lfPhase l \<in> {PhFlushing, PhStopped} \<longrightarrow> lfLoopDone l \<and> lfActive l = []) \<and>
    (lfAuditCancel l \<longleftrightarrow> lfPhase l \<in> {PhFlushing, PhStopped}) \<and>
    (lfAuditDone l \<longrightarrow> lfAuditCancel l) \<and> (lfPhase l = PhStopped \<longrightarrow> lfAuditDone l) \<and>
    (lfAuditDone l \<longrightarrow> wrChan (dmWriter (lfDaemon l)) = [] \<and> wrBatch (dmWriter (lfDaemon l)) = []) \<and>
    writer_ok sha (dmWriter (lfDaemon l)) \<and>
    (\<forall>item \<in> set (lfQueued l). item \<in> set (wrChan (dmWriter (lfDaemon l))) \<or> item \<in> set (wrBatch (dmWriter (lfDaemon l))) \<or>
       stored (wrDB (dmWriter (lfDaemon l))) item \<or> item \<in> set (lfLost l))"

lemma life_ok_start: "writer_ok sha (dmWriter d) \<Longrightarrow> life_ok sha (start_life d)"
  by (simp add: life_ok_def start_life_def unhandled_def)

definition queues :: "Writer \<Rightarrow> Writer \<Rightarrow> bool" where
  "queues w w' \<longleftrightarrow> wrDB w' = wrDB w \<and> wrPrev w' = wrPrev w \<and> wrBatch w' = wrBatch w \<and> (\<exists>new. wrChan w' = wrChan w @ new)"

lemma queues_refl [simp]: "queues w w"
  by (simp add: queues_def)

lemma queues_trans: "queues a b \<Longrightarrow> queues b c \<Longrightarrow> queues a c"
  by (auto simp: queues_def)

lemma queues_enqueue: "queues w (enqueue item w)"
  by (auto simp: queues_def enqueue_def)

lemma persist_label_queues: "queues (dmWriter d) (dmWriter (persist_label now req resp d))"
  by (auto simp: persist_label_def WriteSessionLabel_def Let_def queues_enqueue split: option.split)

lemma handleConnection_queues:
  assumes "handleConnection env codec ci stream d = (d', answer)"
  shows "queues (dmWriter d) (dmWriter d')"
proof -
  have "queues (dmWriter d) (dmWriter (fst (serve_request env codec ci req d)))" for req
  proof -
    obtain eng resp where ev: "Evaluate env (ciEval ci) req (dmEngine d) = (eng, resp)" by fastforce
    have "queues (dmWriter d) (dmWriter (persist_label (ciLabelTime ci) req resp (d\<lparr>dmEngine := eng, dmEvaluations := dmEvaluations d + 1\<rparr>)))"
      using persist_label_queues [of "d\<lparr>dmEngine := eng, dmEvaluations := dmEvaluations d + 1\<rparr>" "ciLabelTime ci" req resp] by simp
    then show ?thesis
      by (auto simp: serve_request_def ev Let_def WriteRecord_def split: option.split intro: queues_trans queues_enqueue)
  qed
  then have "queues (dmWriter d) (dmWriter (fst (handleConnection env codec ci stream d)))"
    by (simp add: handleConnection_def split: sum.split ReadError.split option.split)
  with assms show ?thesis by simp
qed

lemma set_records: "set [r. RecordItem r \<leftarrow> xs] = {r. RecordItem r \<in> set xs}" "set [k. LabelItem k \<leftarrow> xs] = {k. LabelItem k \<in> set xs}"
proof (induction xs)
  case (Cons x xs)
  case 1 then show ?case using Cons by (cases x) auto
  case 2 then show ?case using Cons by (cases x) auto
qed auto

text \<open>A flush empties the batch; each of its items is stored or lost, and what was stored stays.\<close>

lemma flush_accounts:
  assumes "writer_ok sha w"
  shows "wrChan (flush sha fault w) = wrChan w \<and> wrBatch (flush sha fault w) = [] \<and> writer_ok sha (flush sha fault w) \<and>
    (\<forall>item. stored (wrDB w) item \<longrightarrow> stored (wrDB (flush sha fault w)) item) \<and>
    (\<forall>item \<in> set (wrBatch w). stored (wrDB (flush sha fault w)) item \<or> item \<in> set (batch_lost sha fault w))"
proof (cases "wrBatch w = []")
  case False
  obtain db h where wb: "writeBatch sha fault (wrBatch w) (wrPrev w) (wrDB w) = (db, h)" by fastforce
  have db: "dbLog (wrDB (flush sha fault w)) = dbLog db" "dbLabels (wrDB (flush sha fault w)) = dbLabels db"
    "wrChan (flush sha fault w) = wrChan w" "wrBatch (flush sha fault w) = []"
    using False wb by (simp_all add: flush_def Let_def saveCheckpointSeq_def)
  have st: "stored (wrDB (flush sha fault w)) item = stored db item" for item using db(1,2) by (simp add: stored_def split: writeItem.split)
  have log: "log_ok sha (wrDB w) (wrPrev w)" using assms by (simp add: writer_ok_def)
  show ?thesis
  proof (cases "batch_lost sha fault w = []")
    case True
    then obtain r where r: "insert_items sha (case fault of ExecFails n \<Rightarrow> Some n | _ \<Rightarrow> None) (wrBatch w) (wrPrev w) (wrDB w) = Some r"
      "fault \<noteq> BeginFails" "fault \<noteq> CommitFails"
      using False by (auto simp: batch_lost_def split: option.splits if_splits)
    then have "r = (db, h)" using wb by (cases r) (simp add: writeBatch_def)
    from insert_items_ok [OF r(1) [unfolded this] log]
    have "map RowRecord (dbLog db) = map RowRecord (dbLog (wrDB w)) @ [r. RecordItem r \<leftarrow> wrBatch w]"
      "dbLabels db = dbLabels (wrDB w) @ [l. LabelItem l \<leftarrow> wrBatch w]" by auto
    note app = arg_cong [OF this(1), of set] arg_cong [OF this(2), of set]
    have "RowRecord ` set (dbLog db) = RowRecord ` set (dbLog (wrDB w)) \<union> {r. RecordItem r \<in> set (wrBatch w)}"
      "set (dbLabels db) = set (dbLabels (wrDB w)) \<union> {l. LabelItem l \<in> set (wrBatch w)}"
      using app unfolding set_append set_map set_records by simp_all
    then show ?thesis using st db(3,4) flush_log [OF assms, of fault] by (auto simp: stored_def split: writeItem.splits)
  next
    case lost: False
    then have "batch_lost sha fault w = wrBatch w" by (auto simp: batch_lost_def split: option.splits if_splits)
    moreover have "db = wrDB w" using wb lost by (auto simp: writeBatch_def batch_lost_def split: option.splits if_splits)
    ultimately show ?thesis using st db(3,4) flush_log [OF assms, of fault] by simp
  qed
qed (use assms in \<open>simp add: flush_def\<close>)

definition holds :: "Writer \<Rightarrow> writeItem \<Rightarrow> bool" where
  "holds w item \<longleftrightarrow> item \<in> set (wrChan w) \<or> item \<in> set (wrBatch w) \<or> stored (wrDB w) item"

definition accounts :: "Writer \<Rightarrow> Writer \<Rightarrow> writeItem list \<Rightarrow> bool" where
  "accounts w w' lost \<longleftrightarrow> (\<forall>item. holds w item \<longrightarrow> holds w' item \<or> item \<in> set lost)"

lemma flush_keeps_account: "writer_ok sha w \<Longrightarrow> accounts w (flush sha fault w) (batch_lost sha fault w)"
  using flush_accounts [of sha w fault] by (auto simp: accounts_def holds_def)

lemma received_holds: "wrChan w \<noteq> [] \<Longrightarrow> holds (received w) = holds w"
  by (cases "wrChan w") (auto simp: holds_def received_def fun_eq_iff)

lemma receive_accounts:
  assumes "writer_ok sha w" and "wrChan w \<noteq> []"
  shows "accounts w (receive_item sha fault w) (if length (wrBatch (received w)) \<ge> batchSize then batch_lost sha fault (received w) else [])"
    and "writer_ok sha (receive_item sha fault w)"
proof -
  have r: "receive_item sha fault w = (if length (wrBatch (received w)) \<ge> batchSize then flush sha fault (received w) else received w)"
    using assms(2) by (cases "wrChan w") (simp_all add: receive_item_def received_def Let_def)
  have ok: "writer_ok sha (received w)" using assms(1) by (simp add: writer_ok_def received_def)
  show "accounts w (receive_item sha fault w) (if length (wrBatch (received w)) \<ge> batchSize then batch_lost sha fault (received w) else [])"
    using flush_keeps_account [OF ok, of fault] received_holds [OF assms(2)] by (simp add: r accounts_def)
  show "writer_ok sha (receive_item sha fault w)" using ok flush_log [OF ok] by (simp add: r)
qed

lemma drain_accounts:
  assumes "writer_ok sha w"
  shows "accounts w (drain sha fault w) (batch_lost sha fault (w\<lparr>wrChan := [], wrBatch := wrBatch w @ wrChan w\<rparr>))"
    and "writer_ok sha (drain sha fault w)" and "wrChan (drain sha fault w) = []" and "wrBatch (drain sha fault w) = []"
proof -
  let ?w = "w\<lparr>wrChan := [], wrBatch := wrBatch w @ wrChan w\<rparr>"
  have ok: "writer_ok sha ?w" using assms by (simp add: writer_ok_def)
  have "holds ?w = holds w" by (auto simp: holds_def fun_eq_iff)
  then show "accounts w (drain sha fault w) (batch_lost sha fault ?w)"
    using flush_keeps_account [OF ok, of fault] by (simp add: accounts_def drain_def)
  show "writer_ok sha (drain sha fault w)" "wrChan (drain sha fault w) = []" "wrBatch (drain sha fault w) = []"
    using flush_accounts [OF ok, of fault] by (simp_all add: drain_def)
qed

lemma queues_accounts:
  assumes "queues w w'"
  shows "accounts w w' []" and "\<forall>item \<in> set (queued_by w w'). holds w' item"
  using assms by (auto simp: queues_def accounts_def holds_def queued_by_def)

lemma life_ok_alt:
  "life_ok sha l \<longleftrightarrow>
    length (lfActive l) \<le> maxConcurrentConnections \<and> lfAccepted l = lfHandled l + unhandled l \<and>
    (lfListener l \<longleftrightarrow> lfPhase l = PhListening) \<and> (lfSocket l \<longleftrightarrow> lfPhase l \<noteq> PhStopped) \<and>
    (lfLoopDone l \<longrightarrow> \<not> lfListener l \<and> lfWaiting l = None) \<and>
    (lfPhase l \<in> {PhFlushing, PhStopped} \<longrightarrow> lfLoopDone l \<and> lfActive l = []) \<and>
    (lfAuditCancel l \<longleftrightarrow> lfPhase l \<in> {PhFlushing, PhStopped}) \<and>
    (lfAuditDone l \<longrightarrow> lfAuditCancel l) \<and> (lfPhase l = PhStopped \<longrightarrow> lfAuditDone l) \<and>
    (lfAuditDone l \<longrightarrow> wrChan (dmWriter (lfDaemon l)) = [] \<and> wrBatch (dmWriter (lfDaemon l)) = []) \<and>
    writer_ok sha (dmWriter (lfDaemon l)) \<and> (\<forall>item \<in> set (lfQueued l). holds (dmWriter (lfDaemon l)) item \<or> item \<in> set (lfLost l))"
  by (simp add: life_ok_def holds_def disj_assoc)

lemma with_writer_fields [simp]:
  "lfPhase (with_writer w l) = lfPhase l" "lfListener (with_writer w l) = lfListener l" "lfWaiting (with_writer w l) = lfWaiting l"
  "lfLoopDone (with_writer w l) = lfLoopDone l" "lfActive (with_writer w l) = lfActive l" "dmWriter (lfDaemon (with_writer w l)) = w"
  "lfAuditCancel (with_writer w l) = lfAuditCancel l" "lfAuditDone (with_writer w l) = lfAuditDone l" "lfSocket (with_writer w l) = lfSocket l"
  "lfAccepted (with_writer w l) = lfAccepted l" "lfHandled (with_writer w l) = lfHandled l" "lfQueued (with_writer w l) = lfQueued l"
  "lfLost (with_writer w l) = lfLost l" "unhandled (with_writer w l) = unhandled l"
  by (simp_all add: with_writer_def unhandled_def)

lemma life_step_ok:
  assumes "life_step sha env codec l l'" and ok: "life_ok sha l"
  shows "life_ok sha l'"
  using assms(1)
proof cases
  case (accept stream)
  then show ?thesis using ok by (auto simp: life_ok_alt unhandled_def)
next
  case (dispatch stream)
  then show ?thesis using ok by (auto simp: life_ok_alt unhandled_def)
next
  case (handle xs stream ys ci d' answer)
  note q = handleConnection_queues [OF handle(3)]
  have w: "writer_ok sha (dmWriter d')" using q ok by (simp add: queues_def writer_ok_def life_ok_alt)
  have "lfPhase l \<notin> {PhFlushing, PhStopped}" using ok handle(2) by (auto simp: life_ok_alt)
  moreover have "\<forall>item \<in> set (lfQueued l @ queued_by (dmWriter (lfDaemon l)) (dmWriter d')). holds (dmWriter d') item \<or> item \<in> set (lfLost l)"
    using queues_accounts [OF q] ok by (auto simp: accounts_def life_ok_alt)
  ultimately show ?thesis using ok handle(1,2) w by (auto simp: life_ok_alt unhandled_def)
next
  case (release xs stream ys)
  then show ?thesis using ok by (auto simp: life_ok_alt unhandled_def)
next
  case (receive w fault)
  have w: "writer_ok sha w" using ok receive by (simp add: life_ok_alt)
  show ?thesis
    using ok receive receive_accounts [OF w receive(4), of fault] by (auto simp: life_ok_alt accounts_def unhandled_def)
next
  case (timer w fault)
  have w: "writer_ok sha w" using ok timer by (simp add: life_ok_alt)
  show ?thesis
    using ok timer flush_keeps_account [OF w, of fault] flush_log [OF w, of fault] by (auto simp: life_ok_alt accounts_def unhandled_def)
next
  case (drain_audit w fault)
  have w: "writer_ok sha w" using ok drain_audit by (simp add: life_ok_alt)
  show ?thesis using ok drain_audit drain_accounts [OF w, of fault] by (auto simp: life_ok_alt accounts_def unhandled_def)
qed (use ok in \<open>auto simp: life_ok_alt unhandled_def\<close>)

lemma life_run_ok: "life_run sha env codec l l' \<Longrightarrow> life_ok sha l \<Longrightarrow> life_ok sha l'"
  by (induction rule: rtranclp_induct) (auto intro: life_step_ok)

section \<open>Shutting down\<close>

text \<open>Claim C27. A graceful shutdown loses no call and no audit record.  However the goroutines of the daemon interleave, at most
  128 connections are handled at a time; and when the daemon has stopped, its socket is removed, every connection it
  accepted has been handled, the queue of the audit writer is empty, and every item that was put into the queue is in the
  database, unless the transaction of its batch failed.\<close>

theorem shutdown_loses_nothing:
  assumes "writer_ok sha (dmWriter d)" and "life_run sha env codec (start_life d) l"
  shows "length (lfActive l) \<le> maxConcurrentConnections \<and>
    (lfPhase l = PhStopped \<longrightarrow>
      \<not> lfSocket l \<and> lfActive l = [] \<and> lfHandled l = lfAccepted l \<and> wrChan (dmWriter (lfDaemon l)) = [] \<and>
      (\<forall>item \<in> set (lfQueued l). stored (wrDB (dmWriter (lfDaemon l))) item \<or> item \<in> set (lfLost l)))"
  using life_run_ok [OF assms(2) life_ok_start [OF assms(1)]]
  by (auto simp: life_ok_alt unhandled_def holds_def)

text \<open>The run of a daemon that accepts a connection which sends nothing, and is stopped.\<close>

definition idle_life :: "string Life" where
  "idle_life = (start_life demo_daemon)\<lparr>lfPhase := PhStopped, lfListener := False, lfLoopDone := True, lfAuditCancel := True, lfAuditDone := True,
     lfSocket := False, lfAccepted := 1, lfHandled := 1\<rparr>"

lemma idle_run: "life_run demo_sha (demo_env (ScanDone [])) demo_dcodec (start_life demo_daemon) idle_life"
proof -
  let ?step = "life_step demo_sha (demo_env (ScanDone [])) demo_dcodec"
  let ?l0 = "start_life demo_daemon"
  let ?l1 = "?l0\<lparr>lfWaiting := Some [], lfAccepted := 1\<rparr>"
  let ?l2 = "?l1\<lparr>lfWaiting := None, lfActive := [([], False)]\<rparr>"
  let ?l3 = "?l2\<lparr>lfActive := [([], True)], lfHandled := 1\<rparr>"
  let ?l4 = "?l3\<lparr>lfActive := []\<rparr>"
  let ?l5 = "?l4\<lparr>lfPhase := PhDraining, lfListener := False\<rparr>"
  let ?l6 = "?l5\<lparr>lfLoopDone := True\<rparr>"
  let ?l7 = "?l6\<lparr>lfPhase := PhFlushing, lfAuditCancel := True\<rparr>"
  let ?l8 = "?l7\<lparr>lfAuditDone := True\<rparr>"
  have h: "handleConnection (demo_env (ScanDone [])) demo_dcodec demo_conn [] demo_daemon = (demo_daemon, None)"
    by (simp add: handleConnection_def ReadMessage_def headerSize_def)
  have w: "wrChan (dmWriter demo_daemon) = []" "wrBatch (dmWriter demo_daemon) = []" by (simp_all add: demo_daemon_def StartWriter_def)
  then have dr: "(dmWriter demo_daemon)\<lparr>wrChan := [], wrBatch := []\<rparr> = dmWriter demo_daemon" by simp
  have "?step ?l0 ?l1" using life_step.accept [of ?l0 demo_sha "demo_env (ScanDone [])" demo_dcodec "[]"] by (simp add: start_life_def)
  moreover have "?step ?l1 ?l2" using life_step.dispatch [of ?l1 "[]" demo_sha "demo_env (ScanDone [])" demo_dcodec]
    by (simp add: start_life_def maxConcurrentConnections_def)
  moreover have "?step ?l2 ?l3" using life_step.handle [of ?l2 "[]" "[]" "[]" "demo_env (ScanDone [])" demo_dcodec demo_conn demo_daemon None demo_sha]
    by (simp add: start_life_def h queued_by_def)
  moreover have "?step ?l3 ?l4" using life_step.release [of ?l3 "[]" "[]" "[]" demo_sha "demo_env (ScanDone [])" demo_dcodec] by (simp add: start_life_def)
  moreover have "?step ?l4 ?l5" using life_step.signal [of ?l4 demo_sha "demo_env (ScanDone [])" demo_dcodec] by (simp add: start_life_def)
  moreover have "?step ?l5 ?l6" using life_step.loop_exit [of ?l5 demo_sha "demo_env (ScanDone [])" demo_dcodec] by (simp add: start_life_def)
  moreover have "?step ?l6 ?l7" using life_step.drained [of ?l6 demo_sha "demo_env (ScanDone [])" demo_dcodec] by (simp add: start_life_def)
  moreover have "?step ?l7 ?l8"
    using life_step.drain_audit [of ?l7 "dmWriter demo_daemon" demo_sha "demo_env (ScanDone [])" demo_dcodec DbOk]
    by (simp add: start_life_def drain_def flush_def batch_lost_def with_writer_def w dr)
  moreover have "?step ?l8 idle_life" using life_step.stop [of ?l8 demo_sha "demo_env (ScanDone [])" demo_dcodec] by (simp add: start_life_def idle_life_def)
  ultimately show ?thesis by (meson converse_rtranclp_into_rtranclp rtranclp.rtrancl_refl)
qed

theorem shutdown_loses_nothing_witness:
  "lfPhase idle_life = PhStopped \<and> lfHandled idle_life = lfAccepted idle_life \<and> lfAccepted idle_life = 1 \<and> \<not> lfSocket idle_life"
proof -
  have "writer_ok demo_sha (dmWriter demo_daemon)"
    by (simp add: demo_daemon_def StartWriter_def writer_ok_def log_ok_def loadLastChainHash_def last_hash_def)
  from shutdown_loses_nothing [OF this idle_run] show ?thesis by (simp add: idle_life_def)
qed

section \<open>Shutting down is always possible\<close>

definition same_control :: "'prog Life \<Rightarrow> 'prog Life \<Rightarrow> bool" where
  "same_control l l' \<longleftrightarrow> lfPhase l' = lfPhase l \<and> lfListener l' = lfListener l \<and> lfLoopDone l' = lfLoopDone l \<and>
     lfAuditCancel l' = lfAuditCancel l \<and> lfAuditDone l' = lfAuditDone l \<and> lfAccepted l' = lfAccepted l"

lemma life_one: "life_step sha env codec l l' \<Longrightarrow> life_run sha env codec l l'"
  by (rule r_into_rtranclp)

lemma life_snoc: "life_run sha env codec l l' \<Longrightarrow> life_step sha env codec l' l'' \<Longrightarrow> life_run sha env codec l l''"
  by (rule rtranclp.rtrancl_into_rtrancl)

lemma finish_active:
  fixes ci :: ConnInput
  shows "\<exists>l'. life_run sha env codec l l' \<and> lfActive l' = [] \<and> lfWaiting l' = lfWaiting l \<and> same_control l l'"
proof (induction "lfActive l" arbitrary: l)
  case Nil
  then show ?case by (metis rtranclp.rtrancl_refl same_control_def)
next
  case (Cons c cs)
  obtain stream fin where c: "c = (stream, fin)" by fastforce
  obtain l1 where l1: "life_run sha env codec l l1" "lfActive l1 = (stream, True) # cs" "lfWaiting l1 = lfWaiting l" "same_control l l1"
  proof (cases fin)
    case True
    then show ?thesis using that [of l] Cons.hyps(2) c by (simp add: same_control_def)
  next
    case False
    obtain d' answer where h: "handleConnection env codec ci stream (lfDaemon l) = (d', answer)" by fastforce
    have "lfActive l = [] @ (stream, False) # cs" using Cons.hyps(2) c False by simp
    from life_one [OF life_step.handle [OF this h, of sha]] show ?thesis by (rule that) (simp_all add: same_control_def)
  qed
  have "lfActive l1 = [] @ (stream, True) # cs" using l1(2) by simp
  note rel = life_step.release [OF this, of sha env codec]
  obtain l2 where "life_run sha env codec (l1\<lparr>lfActive := [] @ cs\<rparr>) l2" "lfActive l2 = []" "lfWaiting l2 = lfWaiting l1" "same_control (l1\<lparr>lfActive := [] @ cs\<rparr>) l2"
    using Cons.hyps(1) [of "l1\<lparr>lfActive := [] @ cs\<rparr>"] by auto
  moreover from this(1) have "life_run sha env codec l l2" using l1(1) rel by (meson rtranclp.rtrancl_into_rtrancl rtranclp_trans)
  ultimately show ?case using l1(3,4) by (auto simp: same_control_def)
qed

lemma finish_waiting:
  fixes ci :: ConnInput
  shows "\<exists>l'. life_run sha env codec l l' \<and> lfActive l' = [] \<and> lfWaiting l' = None \<and> same_control l l'"
proof -
  obtain l1 where l1: "life_run sha env codec l l1" "lfActive l1 = []" "lfWaiting l1 = lfWaiting l" "same_control l l1"
    using finish_active by blast
  show ?thesis
  proof (cases "lfWaiting l1")
    case None
    then show ?thesis using l1 by blast
  next
    case (Some stream)
    let ?l2 = "l1\<lparr>lfWaiting := None, lfActive := lfActive l1 @ [(stream, False)]\<rparr>"
    have "life_step sha env codec l1 ?l2" using Some l1(2) by (intro life_step.dispatch) (simp_all add: maxConcurrentConnections_def)
    moreover obtain l3 where "life_run sha env codec ?l2 l3" "lfActive l3 = []" "lfWaiting l3 = lfWaiting ?l2" "same_control ?l2 l3"
      using finish_active by blast
    ultimately have "life_run sha env codec l l3" using l1(1) by (meson rtranclp.rtrancl_into_rtrancl rtranclp_trans)
    then show ?thesis using \<open>lfActive l3 = []\<close> \<open>lfWaiting l3 = lfWaiting ?l2\<close> \<open>same_control ?l2 l3\<close> l1(4) by (auto simp: same_control_def)
  qed
qed

lemma complete_flushing:
  assumes "lfPhase l = PhFlushing" and "lfAuditCancel l"
  shows "\<exists>l'. life_run sha env codec l l' \<and> lfPhase l' = PhStopped \<and> lfAccepted l' = lfAccepted l"
proof -
  obtain l1 where l1: "life_run sha env codec l l1" "lfPhase l1 = PhFlushing" "lfAuditDone l1" "lfAccepted l1 = lfAccepted l"
  proof (cases "lfAuditDone l")
    case True
    then show ?thesis using that [of l] assms(1) by simp
  next
    case False
    from life_one [OF life_step.drain_audit [OF False assms(2) refl, of sha env codec DbOk]] show ?thesis
      by (rule that) (simp_all add: assms(1))
  qed
  from life_snoc [OF l1(1) life_step.stop [OF l1(2,3)]] show ?thesis
    using l1(4) by (intro exI conjI) (assumption, simp_all)
qed

lemma complete_draining:
  fixes ci :: ConnInput
  assumes "lfPhase l = PhDraining" and "\<not> lfListener l"
  shows "\<exists>l'. life_run sha env codec l l' \<and> lfPhase l' = PhStopped \<and> lfAccepted l' = lfAccepted l"
proof -
  obtain l1 where l1: "life_run sha env codec l l1" "lfActive l1 = []" "lfWaiting l1 = None" "same_control l l1"
    using finish_waiting by blast
  obtain l2 where l2: "life_run sha env codec l1 l2" "lfActive l2 = []" "lfLoopDone l2" "lfPhase l2 = PhDraining" "lfAccepted l2 = lfAccepted l"
  proof (cases "lfLoopDone l1")
    case True
    then show ?thesis using that [of l1] l1 assms(1) by (simp add: same_control_def)
  next
    case False
    have "\<not> lfListener l1" using l1(4) assms(2) by (simp add: same_control_def)
    from life_one [OF life_step.loop_exit [OF this l1(3) False, of sha env codec]] show ?thesis
      by (rule that) (use l1 assms(1) in \<open>simp_all add: same_control_def\<close>)
  qed
  let ?l3 = "l2\<lparr>lfPhase := PhFlushing, lfAuditCancel := True\<rparr>"
  have "life_step sha env codec l2 ?l3" by (rule life_step.drained [OF l2(4,3,2)])
  moreover obtain l' where "life_run sha env codec ?l3 l'" "lfPhase l' = PhStopped" "lfAccepted l' = lfAccepted ?l3"
    using complete_flushing [of ?l3 sha env codec] by auto
  ultimately show ?thesis using l1(1) l2(1,5) by (intro exI [of _ l']) (auto intro: converse_rtranclp_into_rtranclp rtranclp_trans)
qed

text \<open>Claim C40. A shutdown that has begun can always be completed.  From every state the daemon reaches after the signal, whatever
  connections are in flight or waiting for a slot, there is a continuation to the stopped state in which no further
  connection is accepted; no order of the goroutines leads into a deadlock.\<close>

theorem shutdown_can_complete:
  assumes "writer_ok sha (dmWriter d)" and "life_run sha env codec (start_life d) l" and "lfPhase l \<noteq> PhListening"
  shows "\<exists>l'. life_run sha env codec l l' \<and> lfPhase l' = PhStopped \<and> lfAccepted l' = lfAccepted l \<and> lfHandled l' = lfAccepted l"
proof -
  have ok: "life_ok sha l" using life_run_ok [OF assms(2) life_ok_start [OF assms(1)]] .
  have "\<exists>l'. life_run sha env codec l l' \<and> lfPhase l' = PhStopped \<and> lfAccepted l' = lfAccepted l"
  proof (cases "lfPhase l")
    case PhDraining
    then show ?thesis using ok by (intro complete_draining) (simp_all add: life_ok_alt)
  next
    case PhFlushing
    then show ?thesis using ok by (intro complete_flushing) (simp_all add: life_ok_alt)
  qed (use assms(3) in auto)
  then obtain l' where l': "life_run sha env codec l l'" "lfPhase l' = PhStopped" "lfAccepted l' = lfAccepted l" by blast
  have "lfHandled l' = lfAccepted l'" using life_run_ok [OF l'(1) ok] l'(2) by (auto simp: life_ok_alt unhandled_def)
  then show ?thesis using l' by metis
qed

definition stopping_life :: "string Life" where
  "stopping_life = (start_life demo_daemon)\<lparr>lfPhase := PhDraining, lfListener := False, lfWaiting := Some [], lfAccepted := 1\<rparr>"

theorem shutdown_can_complete_witness:
  "\<exists>l'. life_run demo_sha (demo_env (ScanDone [])) demo_dcodec stopping_life l' \<and> lfPhase l' = PhStopped \<and> lfHandled l' = 1"
proof -
  let ?step = "life_step demo_sha (demo_env (ScanDone [])) demo_dcodec"
  let ?l0 = "start_life demo_daemon"
  let ?l1 = "?l0\<lparr>lfWaiting := Some [], lfAccepted := 1\<rparr>"
  have w: "writer_ok demo_sha (dmWriter demo_daemon)"
    by (simp add: demo_daemon_def StartWriter_def writer_ok_def log_ok_def loadLastChainHash_def last_hash_def)
  have "?step ?l0 ?l1" using life_step.accept [of ?l0 demo_sha "demo_env (ScanDone [])" demo_dcodec "[]"] by (simp add: start_life_def)
  moreover have "?step ?l1 stopping_life"
    using life_step.signal [of ?l1 demo_sha "demo_env (ScanDone [])" demo_dcodec] by (simp add: start_life_def stopping_life_def)
  ultimately have "life_run demo_sha (demo_env (ScanDone [])) demo_dcodec ?l0 stopping_life" by (meson converse_rtranclp_into_rtranclp r_into_rtranclp)
  from shutdown_can_complete [OF w this] show ?thesis by (auto simp: stopping_life_def)
qed

section \<open>Starting without policies\<close>

text \<open>A daemon whose policies do not parse or do not compile starts, and denies every call.\<close>

lemma start_without_policies_denies:
  assumes "lib_ok lib" and "daemon_start sc lib files walk env now db = Some (Inr d)"
    and "load_initial lib files walk env now fresh_engine = Some (st, 0)" and "esSnapshot st = None"
  shows "resp_action (snd (Evaluate env inp req (dmEngine d))) = ActionDeny"
proof -
  have "dmEngine d = st"
    using assms(2,3) by (auto simp: daemon_start_def fresh_daemon_def split: if_splits ListenResult.splits)
  then show ?thesis
    using assms(4) by (auto simp: Evaluate_def denyResponse_def dest: SelfProtect_denies split: option.splits)
qed

end
