(* ===== verification/Doctor.thy ===== *)
theory Doctor
  imports CliInstall CliPolicy DaemonLife "HOL-Library.Signed_Division"
begin

text \<open>
  \<^verbatim>\<open>nixis doctor\<close> (\<^verbatim>\<open>cmd/nixis/doctor.go\<close>) and \<^verbatim>\<open>nixis daemon status\<close>, \<^verbatim>\<open>start\<close>, \<^verbatim>\<open>stop\<close>, \<^verbatim>\<open>restart\<close> and \<^verbatim>\<open>logs\<close> (\<^verbatim>\<open>cmd/nixis/daemon_cmd.go\<close>), over the
  service interface and the machine of the setup command.  A reply of an HTTP endpoint is data; what the decoder reads from a body is a
  parameter, as is the parser of time stamps.  The properties relate the diagnosis to what setup installs and to what the daemon serves.
\<close>

section \<open>Replies\<close>

datatype health_reply = NoHealth string | HealthReply nat string string

text \<open>What the commands decode from a reply of \<^verbatim>\<open>/healthz\<close>, each its own fields.\<close>

record HealthDecoders =
  hdUptime :: "string \<Rightarrow> int option"
  hdPolicies :: "string \<Rightarrow> (int \<times> (string \<times> string) list) option"
  hdStatus :: "string \<Rightarrow> HealthResponse option"

text \<open>Milliseconds as a \<^verbatim>\<open>time.Duration\<close>, with the wrap-around of \<^verbatim>\<open>int64\<close>.\<close>

definition millis :: "int \<Rightarrow> int" where
  "millis ms = sint (of_int (ms * 10 ^ 6) :: 64 word)"

text \<open>\<^verbatim>\<open>Hours\<close>, \<^verbatim>\<open>Minutes\<close> and \<^verbatim>\<open>Seconds\<close> are floating-point numbers that are cut off; for whole milliseconds the rounding never reaches the next integer.\<close>

definition formatDuration :: "int \<Rightarrow> string" where
  "formatDuration d =
    (let hours = d sdiv (3600 * 10 ^ 9); minutes = (d sdiv (60 * 10 ^ 9)) smod 60; seconds = d sdiv 10 ^ 9
     in if hours > 0 then int_literal hours @ ''h'' @ int_literal minutes @ ''m''
        else if minutes > 0 then int_literal minutes @ ''m'' @ int_literal (seconds smod 60) @ ''s''
        else int_literal seconds @ ''s'')"

section \<open>The checks\<close>

record doctorCheck =
  dcName :: string
  dcStatus :: string
  dcDetail :: string
  dcWarning :: bool

definition check_failed :: "string \<Rightarrow> string \<Rightarrow> doctorCheck" where
  "check_failed name detail = \<lparr>dcName = name, dcStatus = ''FAIL'', dcDetail = detail, dcWarning = True\<rparr>"

definition check_ok :: "string \<Rightarrow> string \<Rightarrow> doctorCheck" where
  "check_ok name detail = \<lparr>dcName = name, dcStatus = ''OK'', dcDetail = detail, dcWarning = False\<rparr>"

text \<open>The text is that of the error of the status command, the same on both systems but for the program.\<close>

definition checkDaemon :: "Service \<Rightarrow> HealthDecoders \<Rightarrow> string \<Rightarrow> health_reply \<Rightarrow> Machine \<Rightarrow> doctorCheck \<times> Machine" where
  "checkDaemon sv dec statusError reply m =
    (let (st, m') = svStatusTimeout sv m in
     (case st of
        None \<Rightarrow> check_failed ''Daemon'' (''error checking status: '' @ statusError)
      | Some (running, pid) \<Rightarrow>
         (if \<not> running then check_failed ''Daemon'' ''not running''
          else case reply of
            NoHealth _ \<Rightarrow> (check_ok ''Daemon'' (''running (PID '' @ int_literal pid @ '') but healthz unreachable''))\<lparr>dcWarning := True\<rparr>
          | HealthReply _ _ body \<Rightarrow> (case hdUptime dec body of
              None \<Rightarrow> check_ok ''Daemon'' (''running (PID '' @ int_literal pid @ '')'')
            | Some uptimeMs \<Rightarrow>
               check_ok ''Daemon'' (''running (PID '' @ int_literal pid @ '', uptime '' @ formatDuration (millis uptimeMs) @ '')''))), m'))"

fun octal_digits :: "nat \<Rightarrow> string" where
  "octal_digits n = (if n = 0 then [] else octal_digits (n div 8) @ [char_of (48 + n mod 8)])"

declare octal_digits.simps [simp del]

definition octal4 :: "nat \<Rightarrow> string" where
  "octal4 n = (let ds = octal_digits n in replicate (4 - length ds) (CHR ''0'') @ ds)"

text \<open>The argument is the permissions of the socket, when it can be inspected.\<close>

definition checkSocket :: "string \<Rightarrow> nat option \<Rightarrow> doctorCheck" where
  "checkSocket sockPath perm = (case perm of
     None \<Rightarrow> check_failed ''Socket'' (sockPath @ '' not found'')
   | Some mode \<Rightarrow>
      (let detail = sockPath @ '' (mode '' @ octal4 mode @ '')'' in
       if mode AND 63 \<noteq> 0 then (check_ok ''Socket'' (detail @ '' '' @ GoText.em_dash @ '' warning: world-accessible''))\<lparr>dcWarning := True\<rparr>
       else check_ok ''Socket'' detail))"

text \<open>The mode of a file; one without a recorded mode has no permissions.\<close>

definition stat_mode :: "Os \<Rightarrow> string \<Rightarrow> Machine \<Rightarrow> nat option" where
  "stat_mode os p m =
    (if is_file os p m \<and> osOK os OpStat (abs_path os p) then Some (case hModes (mcHost m) (abs_path os p) of Some k \<Rightarrow> k | None \<Rightarrow> 0) else None)"

definition checkHookBinary :: "Os \<Rightarrow> string \<Rightarrow> Machine \<Rightarrow> doctorCheck" where
  "checkHookBinary os nixisDir m =
    (let hookPath = filepath_Join [nixisDir, ''nixis-hook''] in
     case stat_mode os hookPath m of
       None \<Rightarrow> check_failed ''Hook'' (hookPath @ '' not found'')
     | Some mode \<Rightarrow> if mode AND 73 = 0 then check_failed ''Hook'' (hookPath @ '' not executable'') else check_ok ''Hook'' (hookPath @ '' (executable)''))"

definition checkHookFormat :: "Os \<Rightarrow> string \<Rightarrow> Machine \<Rightarrow> doctorCheck" where
  "checkHookFormat os nixisDir m =
    (if stat_mode os (filepath_Join [nixisDir, ''nixis-hook'']) m = None then check_failed ''Hook Format'' ''hook binary missing, cannot test''
     else check_ok ''Hook Format'' ''skipped (requires running daemon)'')"

text \<open>\<^verbatim>\<open>json.Marshal\<close>: members in the order of their names, strings with quotes, backslashes, control characters and the characters of HTML
  escaped.  Strings are taken to be valid UTF-8 without line separators.\<close>

definition json_byte :: "char \<Rightarrow> string" where
  "json_byte c =
    (if c = dquote \<or> c = backslash then [backslash, c]
     else if c = CHR 0x0A then [backslash, CHR ''n'']
     else if c = CHR 0x0D then [backslash, CHR ''r'']
     else if c = CHR 0x09 then [backslash, CHR ''t'']
     else if c = CHR 0x08 then [backslash, CHR ''b'']
     else if c = CHR 0x0C then [backslash, CHR ''f'']
     else if (of_char c :: nat) < 32 \<or> c \<in> {CHR ''<'', CHR ''>'', CHR ''&''}
     then [backslash, CHR ''u'', CHR ''0'', CHR ''0'', GoText.hex_digit (of_char c div 16), GoText.hex_digit (of_char c mod 16)]
     else [c])"

definition json_string :: "string \<Rightarrow> string" where
  "json_string s = [dquote] @ concat (map json_byte s) @ [dquote]"

function json_text :: "json \<Rightarrow> string" where
  "json_text JNull = ''null''"
| "json_text (JBool b) = (if b then ''true'' else ''false'')"
| "json_text (JNum n) = n"
| "json_text (JStr s) = json_string s"
| "json_text (JArr xs) = ''['' @ JoinStrings (map json_text xs) '','' @ '']''"
| "json_text (JObj kvs) = ''{'' @ JoinStrings (map (\<lambda>(k, v). json_string k @ '':'' @ json_text v) (sort_key fst kvs)) '','' @ ''}''"
  by pat_completeness auto

termination
proof (relation "measure size")
  fix kvs :: "(string \<times> json) list" and kv k v
  assume "kv \<in> set (sort_key fst kvs)" "(k, v) = kv"
  then have "(k, v) \<in> set kvs" by simp
  then show "(v, JObj kvs) \<in> measure size"
    by (induction kvs) auto
qed (auto intro: size_list_estimation' simp: less_Suc_eq_le)

definition checkSettingsJSON :: "string \<Rightarrow> string \<Rightarrow> string \<Rightarrow> SettingsFile \<Rightarrow> doctorCheck" where
  "checkSettingsJSON readError hdir nixisDir file =
    (let path = settingsJSONPath hdir; fail = check_failed ''Settings'';
         no_hooks = fail ''no hooks section in settings.json'' in
     case file of
       NoSettings \<Rightarrow> fail (''cannot read '' @ path @ '': '' @ readError)
     | UnreadableSettings \<Rightarrow> fail (if readError \<noteq> [] then ''cannot read '' @ path @ '': '' @ readError else ''invalid JSON in '' @ path)
     | ParsedSettings JNull \<Rightarrow> no_hooks
     | ParsedSettings (JObj settings) \<Rightarrow> (case hooks_of settings of
         None \<Rightarrow> no_hooks
       | Some hooks \<Rightarrow> (case map_of hooks ''PreToolUse'' of
           None \<Rightarrow> fail ''no PreToolUse hook configured''
         | Some preToolUse \<Rightarrow>
            (let hookStr = json_text preToolUse; expectedPath = filepath_Join [nixisDir, ''nixis-hook''] in
             if \<not> Contains hookStr expectedPath then fail (''PreToolUse hook does not reference '' @ expectedPath)
             else if Contains hookStr ''$HOME'' \<or> Contains hookStr ''~'' then fail ''hook path uses $HOME or ~ (must be literal)''
             else check_ok ''Settings'' ''PreToolUse hook configured with literal path'')))
     | ParsedSettings _ \<Rightarrow> fail (''invalid JSON in '' @ path))"

definition checkPoliciesLoaded :: "HealthDecoders \<Rightarrow> health_reply \<Rightarrow> doctorCheck" where
  "checkPoliciesLoaded dec reply = (case reply of
     NoHealth _ \<Rightarrow> check_failed ''Policies'' ''cannot reach daemon healthz''
   | HealthReply _ _ body \<Rightarrow> (case hdPolicies dec body of
       None \<Rightarrow> check_failed ''Policies'' ''cannot parse healthz response''
     | Some (evaluations, checks) \<Rightarrow>
        (if (''engine'', ''ok'') \<notin> set checks then check_failed ''Policies'' ''engine check not ok''
         else check_ok ''Policies'' (''engine ok, '' @ int_literal evaluations @ '' evaluations served''))))"

text \<open>\<^verbatim>\<open>bufio.Scanner\<close>: the lines, without a carriage return at their end, up to the first one of 64 KB or more, which is an error.\<close>

definition maxScanTokenSize :: nat where "maxScanTokenSize = 65536"

definition drop_cr :: "string \<Rightarrow> string" where
  "drop_cr l = (if l \<noteq> [] \<and> last l = CHR 0x0D then butlast l else l)"

definition scan_lines :: "string \<Rightarrow> string list \<times> bool" where
  "scan_lines content =
    (let ls = Split content newline; lines = (if last ls = [] then butlast ls else ls)
     in (map drop_cr (takeWhile (\<lambda>l. length l < maxScanTokenSize) lines), list_all (\<lambda>l. length l < maxScanTokenSize) lines))"

definition recent_line :: "(string \<Rightarrow> gotime option) \<Rightarrow> gotime \<Rightarrow> string \<Rightarrow> bool" where
  "recent_line parse cutoff line \<longleftrightarrow>
    length line \<ge> 20 \<and> (case parse (take 20 line) of Some ts \<Rightarrow> ts > cutoff | None \<Rightarrow> False)"

definition checkFailOpen :: "(string \<Rightarrow> gotime option) \<Rightarrow> string \<Rightarrow> gotime \<Rightarrow> read_result \<Rightarrow> doctorCheck" where
  "checkFailOpen parse scanError now log = (case log of
     NoSuchFile \<Rightarrow> check_ok ''Fail-open'' ''no fail-open events (log not found)''
   | ReadError \<Rightarrow> check_ok ''Fail-open'' ''cannot read failopen.log''
   | ReadData content \<Rightarrow>
      (let (lines, complete) = scan_lines content;
           count = length (filter (recent_line parse (now - 24 * 3600 * 10 ^ 9)) lines)
       in if \<not> complete then check_ok ''Fail-open'' (''error reading failopen.log: '' @ scanError)
          else if count > 0 then (check_ok ''Fail-open'' (int_literal (int count) @ '' events in last 24h''))\<lparr>dcWarning := count > 10\<rparr>
          else check_ok ''Fail-open'' ''0 events in last 24h''))"

definition checkHeartbeat :: "HealthDecoders \<Rightarrow> health_reply \<Rightarrow> doctorCheck" where
  "checkHeartbeat dec reply = (case reply of
     NoHealth _ \<Rightarrow> check_failed ''Heartbeat'' ''cannot reach daemon''
   | HealthReply _ _ body \<Rightarrow> (case hdUptime dec body of
       None \<Rightarrow> check_failed ''Heartbeat'' ''cannot parse healthz''
     | Some uptimeMs \<Rightarrow>
        if uptimeMs \<le> 0 then check_failed ''Heartbeat'' ''daemon reports zero uptime'' else check_ok ''Heartbeat'' ''daemon responsive''))"

text \<open>Whether something listens on the two ports.\<close>

definition checkPortConflicts :: "health_reply \<Rightarrow> bool \<Rightarrow> bool \<Rightarrow> doctorCheck" where
  "checkPortConflicts reply dial9090 dial9091 =
    (let nixisOwns9091 = (case reply of HealthReply status _ _ \<Rightarrow> status = 200 | NoHealth _ \<Rightarrow> False);
         conflicts = (if dial9090 \<and> \<not> nixisOwns9091 then [''9090''] else []) @ (if dial9091 \<and> \<not> nixisOwns9091 then [''9091''] else [])
     in case conflicts of
          port # _ \<Rightarrow> \<lparr>dcName = ''Ports'', dcStatus = ''FAIL'',
            dcDetail = ''port(s) '' @ JoinStrings conflicts '', '' @ '' occupied by non-Nixis process (check: lsof -i :'' @ port @ '')'', dcWarning = False\<rparr>
        | [] \<Rightarrow> check_ok ''Ports'' ''9090/9091 owned by Nixis'')"

definition checkDashboard :: "health_reply \<Rightarrow> doctorCheck" where
  "checkDashboard reply = (case reply of
     NoHealth _ \<Rightarrow> check_failed ''Dashboard'' ''http://localhost:9090 unreachable''
   | HealthReply status ct _ \<Rightarrow>
      if status \<noteq> 200 \<or> \<not> Contains ct ''text/html''
      then check_failed ''Dashboard'' (''unexpected response: HTTP '' @ int_literal (int status) @ '' '' @ ct)
      else check_ok ''Dashboard'' ''http://localhost:9090 (open in browser)'')"

text \<open>What the command finds outside the machine; every check makes its own request.\<close>

record DoctorEnv =
  deService :: Service
  deDecoders :: HealthDecoders
  deParseTime :: "string \<Rightarrow> gotime option"
  deStatusError :: string
  deScanError :: string
  deSettingsError :: string
  deGetenv :: "string \<Rightarrow> string"
  deSocket :: "string \<Rightarrow> nat option"
  deHealth :: "nat \<Rightarrow> health_reply"
  deDial9090 :: bool
  deDial9091 :: bool
  deDashboard :: health_reply
  deNow :: gotime

definition is_warning :: "doctorCheck \<Rightarrow> bool" where
  "is_warning c \<longleftrightarrow> dcStatus c = ''FAIL'' \<or> dcWarning c"

definition doctor_checks :: "Os \<Rightarrow> DoctorEnv \<Rightarrow> string \<Rightarrow> Machine \<Rightarrow> doctorCheck list \<times> Machine" where
  "doctor_checks os de hdir m =
    (let nixisDir = filepath_Join [hdir, ''.nixis'']; sock = daemonSocketPath (deGetenv de);
         (daemon, m') = checkDaemon (deService de) (deDecoders de) (deStatusError de) (deHealth de 0) m
     in ([daemon, checkSocket sock (deSocket de sock), checkHookBinary os nixisDir m', checkHookFormat os nixisDir m',
          checkSettingsJSON (deSettingsError de) hdir nixisDir (mcSettings m'), checkPoliciesLoaded (deDecoders de) (deHealth de 1),
          checkFailOpen (deParseTime de) (deScanError de) (deNow de) (ReadFile os (mcHost m') (filepath_Join [nixisDir, ''failopen.log''])),
          checkHeartbeat (deDecoders de) (deHealth de 2), checkPortConflicts (deHealth de 3) (deDial9090 de) (deDial9091 de),
          checkDashboard (deDashboard de)], m'))"

datatype DoctorResult = DoctorNoHome | Healthy "doctorCheck list" | Degraded nat "doctorCheck list"

definition runDoctor :: "Os \<Rightarrow> DoctorEnv \<Rightarrow> string option \<Rightarrow> Machine \<Rightarrow> DoctorResult \<times> Machine" where
  "runDoctor os de userHome m = (case userHome of
     None \<Rightarrow> (DoctorNoHome, m)
   | Some hdir \<Rightarrow>
      (let (checks, m') = doctor_checks os de hdir m; warnings = length (filter is_warning checks)
       in (if warnings = 0 then Healthy checks else Degraded warnings checks, m')))"

section \<open>Control of the daemon\<close>

datatype StatusResult = StatusStopped | StatusNoHealthz int string | StatusNoParse int
  | StatusShown int HealthResponse string string "(bool \<times> string) list"

definition runDaemonStatus :: "Service \<Rightarrow> HealthDecoders \<Rightarrow> (string \<Rightarrow> string) \<Rightarrow> health_reply \<Rightarrow> Machine \<Rightarrow> StatusResult \<times> Machine" where
  "runDaemonStatus sv dec getenv reply m =
    (let ((running, pid), m') = svStatus sv m in
     (if \<not> running then StatusStopped
      else case reply of
        NoHealth e \<Rightarrow> StatusNoHealthz pid e
      | HealthReply _ _ body \<Rightarrow> (case hdStatus dec body of
          None \<Rightarrow> StatusNoParse pid
        | Some health \<Rightarrow> StatusShown pid health (formatDuration (millis (HrUptimeMs health))) (daemonSocketPath getenv)
            (map (\<lambda>c. (ChkStatus c = ''ok'', ChkName c)) (HrChecks health))), m'))"

text \<open>The replies seen before the deadline.\<close>

fun waitForHealthy :: "health_reply list \<Rightarrow> bool" where
  "waitForHealthy [] = False"
| "waitForHealthy (r # rs) = (case r of HealthReply status _ _ \<Rightarrow> if status = 200 then True else waitForHealthy rs | NoHealth _ \<Rightarrow> waitForHealthy rs)"

datatype ControlResult = AlreadyRunning | NotRunning | ControlFailed ServiceError | StartedUnhealthy | StartedHealthy | DaemonStopped

definition start_and_wait :: "Service \<Rightarrow> health_reply list \<Rightarrow> Machine \<Rightarrow> ControlResult \<times> Machine" where
  "start_and_wait sv looks m =
    (let (e, m') = svStart sv m in
     (case e of Some err \<Rightarrow> ControlFailed err | None \<Rightarrow> if waitForHealthy looks then StartedHealthy else StartedUnhealthy, m'))"

definition runDaemonStart :: "Service \<Rightarrow> health_reply list \<Rightarrow> Machine \<Rightarrow> ControlResult \<times> Machine" where
  "runDaemonStart sv looks m = (let ((running, _), m') = svStatus sv m in if running then (AlreadyRunning, m') else start_and_wait sv looks m')"

definition runDaemonStop :: "Service \<Rightarrow> Machine \<Rightarrow> ControlResult \<times> Machine" where
  "runDaemonStop sv m =
    (let ((running, _), m1) = svStatus sv m in
     if \<not> running then (NotRunning, m1)
     else let (e, m2) = svStop sv m1 in (case e of Some err \<Rightarrow> ControlFailed err | None \<Rightarrow> DaemonStopped, m2))"

definition runDaemonRestart :: "Service \<Rightarrow> health_reply list \<Rightarrow> Machine \<Rightarrow> ControlResult \<times> Machine" where
  "runDaemonRestart sv looks m =
    (let ((running, _), m1) = svStatus sv m in
     if running then (let (e, m2) = svStop sv m1 in case e of Some err \<Rightarrow> (ControlFailed err, m2) | None \<Rightarrow> start_and_wait sv looks m2)
     else start_and_wait sv looks m1)"

section \<open>The log of the daemon\<close>

text \<open>The loop of \<^verbatim>\<open>splitLines\<close>: the line that has started, and the rest.\<close>

fun split_lines :: "string \<Rightarrow> string \<Rightarrow> string list" where
  "split_lines cur [] = (if cur \<noteq> [] then [cur] else [])"
| "split_lines cur (c # s) = (if c = newline then (if cur \<noteq> [] then cur # split_lines [] s else split_lines [] s) else split_lines (cur @ [c]) s)"

definition splitLines :: "string \<Rightarrow> string list" where
  "splitLines s = split_lines [] s"

datatype tail_result = TailError | TailPanic | TailLines "string list"

text \<open>The arguments say whether the file can be inspected and read; a negative number of lines asks for a slice out of range.\<close>

definition tailFile :: "bool \<Rightarrow> bool \<Rightarrow> string \<Rightarrow> int \<Rightarrow> tail_result" where
  "tailFile statOK readOK data n =
    (if \<not> statOK then TailError
     else if data = [] then TailLines []
     else if \<not> readOK then TailError
     else let content = drop (length data - 64 * 1024) data; allLines = splitLines content in
       if int (length allLines) \<le> n then TailLines allLines
       else if n < 0 then TailPanic
       else TailLines (drop (length allLines - nat n) allLines))"

datatype LogsResult = LogsNoHome | LogsOpenError string | LogsReadError | LogsPanic | LogsPrinted "string list"

definition runDaemonLogs :: "Os \<Rightarrow> string option \<Rightarrow> int \<Rightarrow> Machine \<Rightarrow> LogsResult" where
  "runDaemonLogs os userHome n m = (case userHome of
     None \<Rightarrow> LogsNoHome
   | Some hdir \<Rightarrow>
      (let logPath = filepath_Join [hdir, ''.nixis'', ''daemon.log''] in
       case hFiles (mcHost m) (abs_path os logPath) of
         None \<Rightarrow> LogsOpenError logPath
       | Some data \<Rightarrow>
          (if \<not> osOK os OpOpen (abs_path os logPath) then LogsOpenError logPath
           else case tailFile (osOK os OpStat (abs_path os logPath)) (osOK os OpRead (abs_path os logPath)) data n of
             TailError \<Rightarrow> LogsReadError | TailPanic \<Rightarrow> LogsPanic | TailLines ls \<Rightarrow> LogsPrinted ls)))"

lemma split_lines_filter: "split_lines cur s = filter (\<lambda>l. l \<noteq> []) (split_acc newline s (rev cur))"
proof (induction s arbitrary: cur)
  case (Cons c s)
  show ?case using Cons.IH [of "[]"] Cons.IH [of "cur @ [c]"] by simp
qed simp

text \<open>The log command shows the last lines of the log that are not empty, of a log of at most 64 KB.\<close>

lemma tail_shows_last_lines:
  assumes "length data \<le> 65536" and "0 \<le> n"
  defines "ls \<equiv> filter (\<lambda>l. l \<noteq> []) (Split data newline)"
  shows "tailFile True True data n = TailLines (drop (length ls - nat n) ls)"
proof -
  have "splitLines data = ls" by (simp add: ls_def splitLines_def split_lines_filter Split_def)
  then show ?thesis using assms(1,2) by (auto simp: tailFile_def splitLines_def)
qed

lemma negative_tail_panics: "data \<noteq> [] \<Longrightarrow> n < 0 \<Longrightarrow> tailFile True True data n = TailPanic"
  by (simp add: tailFile_def Let_def)

context service_manager
begin

lemma only_runs_trans: "only_runs a b \<Longrightarrow> only_runs b c \<Longrightarrow> only_runs a c"
  by (simp add: only_runs_def)

lemma start_and_wait_runs: "only_runs m (snd (start_and_wait sv looks m))"
  using start_runs [of m] by (simp add: start_and_wait_def case_prod_beta)

lemma control_only_runs:
  "only_runs m (snd (runDaemonStart sv looks m))" "only_runs m (snd (runDaemonStop sv m))" "only_runs m (snd (runDaemonRestart sv looks m))"
  using status_runs(1) [of m] stop_runs(1) [of "snd (svStatus sv m)"] start_and_wait_runs
  by (auto simp: runDaemonStart_def runDaemonStop_def runDaemonRestart_def case_prod_beta Let_def intro: only_runs_trans split: option.split)

lemma doctor_only_runs: "only_runs m (snd (doctor_checks os' (de\<lparr>deService := sv\<rparr>) hdir m))"
  using status_runs(2) [of m] by (simp add: doctor_checks_def checkDaemon_def case_prod_beta Let_def)

end

section \<open>What the diagnosis misses\<close>

text \<open>The hook appends JSON objects to the fail-open log; the diagnosis looks for lines that start with a time stamp.  Whatever the hook has let
  through, it reports no event.\<close>

lemma recent_object:
  assumes "\<forall>s. HasPrefix s ''{'' \<longrightarrow> parse s = None" and "HasPrefix l ''{''"
  shows "\<not> recent_line parse cutoff l"
proof -
  have "HasPrefix (take 20 l) ''{''" using assms(2) by (cases l) (auto simp: HasPrefix_def)
  then show ?thesis using assms(1) by (simp add: recent_line_def)
qed

lemma doctor_misses_fail_open:
  assumes "\<forall>s. HasPrefix s ''{'' \<longrightarrow> parse s = None" and "\<forall>l \<in> set (fst (scan_lines log)). HasPrefix l ''{''" and "snd (scan_lines log)"
  shows "checkFailOpen parse e now (ReadData log) = check_ok ''Fail-open'' ''0 events in last 24h''"
proof -
  have "filter (recent_line parse (now - 24 * 3600 * 10 ^ 9)) (fst (scan_lines log)) = []"
    using recent_object [OF assms(1)] assms(2) by (simp add: filter_empty_conv)
  then show ?thesis using assms(3) by (simp add: checkFailOpen_def case_prod_beta Let_def)
qed

text \<open>A reply of the health endpoint of a daemon that listens and has an engine, read by the decoders.\<close>

definition health_served :: "HealthDecoders \<Rightarrow> gotime \<Rightarrow> gotime \<Rightarrow> bool \<Rightarrow> 'prog Daemon \<Rightarrow> health_reply \<Rightarrow> bool" where
  "health_served dec startTime now auditWriter d reply \<longleftrightarrow>
    (\<exists>body. let (status, r) = handleHealthz startTime now True True auditWriter d in
      reply = HealthReply status ''application/json'' body \<and> hdUptime dec body = Some (HrUptimeMs r) \<and>
      hdPolicies dec body = Some (int (HrEvaluations r), map (\<lambda>c. (ChkName c, ChkStatus c)) (HrChecks r)))"

text \<open>The check called Policies passes for every running daemon, also for one that has no policies and denies everything.\<close>

lemma policies_check_passes:
  assumes "health_served dec startTime now auditWriter d reply"
  shows "dcStatus (checkPoliciesLoaded dec reply) = ''OK'' \<and> \<not> dcWarning (checkPoliciesLoaded dec reply)"
  using assms by (auto simp: health_served_def handleHealthz_def runHealthChecks_def checkPoliciesLoaded_def check_ok_def Let_def split: prod.splits)

lemma doctor_misses_missing_policies:
  assumes "lib_ok lib" and "daemon_start sc lib files walk env now db = Some (Inr d)"
    and "load_initial lib files walk env now fresh_engine = Some (st, 0)" and "esSnapshot st = None"
    and "health_served dec startTime t auditWriter d reply"
  shows "resp_action (snd (Evaluate env inp req (dmEngine d))) = ActionDeny \<and> dcStatus (checkPoliciesLoaded dec reply) = ''OK''"
  using start_without_policies_denies [OF assms(1-4)] policies_check_passes [OF assms(5)] by simp

text \<open>A daemon in one of the modes that refuse requests is taken for another program on its own ports.\<close>

lemma refusing_mode_called_conflict:
  assumes "health_served dec startTime now auditWriter d reply" and "fst (mode_Get (dmMode d)) \<in> {ModeDenyAll, ModeReadOnly}"
  shows "dcStatus (checkPortConflicts reply True True) = ''FAIL''"
  using assms by (auto simp: health_served_def handleHealthz_def checkPortConflicts_def Let_def case_prod_beta)

section \<open>Setup passes the diagnosis\<close>

definition runnable :: "string \<Rightarrow> Host \<Rightarrow> bool" where
  "runnable p h \<longleftrightarrow> hFiles h p \<noteq> None \<and> (\<exists>k. hModes h p = Some k \<and> k AND 73 \<noteq> 0)"

lemma copy_makes_runnable:
  assumes "copyFile os src dst 493 h = (True, h')" and "abs_path os src = abs_path os dst \<Longrightarrow> hFiles h (abs_path os dst) \<noteq> None"
    and "hFiles h (abs_path os dst) \<noteq> None \<Longrightarrow> runnable (abs_path os dst) h"
  shows "runnable (abs_path os dst) h'"
proof -
  have "(493 :: nat) AND 73 = 73" by simp
  then show ?thesis
    using assms by (auto simp: copyFile_def Let_def runnable_def split: if_splits option.splits)
qed

lemma copy_keeps_runnable:
  assumes "copyFile os src dst mode h = (ok, h')" and "p \<noteq> abs_path os dst" and "p \<noteq> abs_path os (dst @ ''.tmp'')"
  shows "hFiles h' p = hFiles h p \<and> runnable p h' = runnable p h"
  using copyFile_frame(1,4) [OF assms] by (simp add: runnable_def)

lemma child_paths:
  assumes "IsAbs d" and "plain_name n"
  shows "abs_path os (filepath_Join [d, n]) = root_path (base_comps d @ [n])"
    and "abs_path os (filepath_Join [d, n] @ ''.tmp'') = root_path (base_comps d @ [n @ ''.tmp''])"
  using copy_below(1,2) [OF assms(1), of "[n]" os] child_name [OF assms(2)] by simp_all

lemma child_inj: "plain_name n \<Longrightarrow> plain_name k \<Longrightarrow> root_path (base_comps d @ [n]) = root_path (base_comps d @ [k]) \<longleftrightarrow> n = k"
  using root_path_inj [of "base_comps d @ [n]" "base_comps d @ [k]"] base_plain [of d] by auto

lemma binary_names: "plain_name ''nixis''" "plain_name ''nixis-hook''" "plain_name ''nixis-daemon''" "plain_name ''nixis.tmp''" "plain_name ''nixis-daemon.tmp''"
  by (simp_all add: plain_name_def)

lemma deploy_runnable:
  fixes d :: string and os :: Os
  defines "hook \<equiv> abs_path os (filepath_Join [d, ''nixis-hook''])"
  assumes "IsAbs d" and "deploy_all os source d binaries m = (None, m')"
    and "abs_path os (source ''nixis-hook'') = hook \<Longrightarrow> hFiles (mcHost m) hook \<noteq> None" and "hFiles (mcHost m) hook \<noteq> None \<Longrightarrow> runnable hook (mcHost m)"
  shows "runnable hook (mcHost m')"
proof -
  let ?to = "\<lambda>n. filepath_Join [d, n]"
  obtain h1 h2 where 1: "copyFile os (source ''nixis'') (?to ''nixis'') 493 (mcHost m) = (True, h1)"
    and 2: "copyFile os (source ''nixis-hook'') (?to ''nixis-hook'') 493 h1 = (True, h2)"
    and 3: "copyFile os (source ''nixis-daemon'') (?to ''nixis-daemon'') 493 h2 = (True, mcHost m')"
    using assms(3) by (auto simp: binaries_def Let_def split: prod.splits if_splits)
  have far: "hook \<noteq> abs_path os (?to n)" "hook \<noteq> abs_path os (?to n @ ''.tmp'')" if "n \<in> {''nixis'', ''nixis-daemon''}" for n
    using that child_inj binary_names by (auto simp: hook_def child_paths [OF assms(2)])
  have "hFiles h1 hook = hFiles (mcHost m) hook \<and> runnable hook h1 = runnable hook (mcHost m)" using copy_keeps_runnable [OF 1] far by simp
  then have "runnable hook h2" using copy_makes_runnable [OF 2] assms(4,5) by (simp add: hook_def)
  then show ?thesis using copy_keeps_runnable [OF 3] far by simp
qed

lemma Clean_abs: "IsAbs q \<Longrightarrow> Clean q = root_path (base_comps q)"
  by (simp add: IsAbs_def Clean_def root_path_def base_comps_def Let_def)

lemma abs_idem:
  assumes "IsAbs (osCwd os)"
  shows "abs_path os (abs_path os p) = abs_path os p"
proof -
  have "\<exists>q. abs_path os p = root_path (base_comps q)"
  proof (cases "IsAbs p")
    case False
    have c: "osCwd os \<noteq> []" using assms by (auto simp: IsAbs_def HasPrefix_def)
    have "filepath_Join [osCwd os, p] = Clean (if p = [] then osCwd os else osCwd os @ ''/'' @ p)" using c by (simp add: filepath_Join_def)
    moreover have "IsAbs (if p = [] then osCwd os else osCwd os @ ''/'' @ p)" using assms c by (cases "osCwd os") (auto simp: IsAbs_def HasPrefix_def)
    ultimately show ?thesis using False Clean_abs by (auto simp: abs_path_def)
  qed (auto simp: abs_path_def Clean_abs)
  then show ?thesis using abs_root_path base_plain by metis
qed

lemma filter_hd: "filter P xs = c # cs \<Longrightarrow> P c"
  by (induction xs) (auto split: if_splits)

lemma found_is_file:
  assumes "IsAbs (osCwd os)" and "\<forall>p. look name = Some p \<longrightarrow> is_file os p m" and "findBinary os look hdir name m \<noteq> []"
  shows "is_file os (findBinary os look hdir name m) m"
proof (cases "filter (\<lambda>c. is_file os c m) [filepath_Join [''bin'', name], ''./'' @ name, filepath_Join [''cmd'', name, name]]")
  case Nil
  then show ?thesis using assms(2,3) unfolding findBinary_def Nil by (auto simp: Let_def split: option.splits if_splits)
next
  case (Cons c cs)
  have "is_file os c m" by (rule filter_hd [OF Cons])
  then show ?thesis unfolding findBinary_def Cons using abs_idem [OF assms(1)] by (simp add: is_file_def)
qed

lemma run_steps_None: "run_steps (s # ss) m = (None, m') \<longleftrightarrow> (\<exists>k. s m = (None, k) \<and> run_steps ss k = (None, m'))"
  by (auto split: prod.splits option.splits)

text \<open>The steps after the binaries are in place keep a runnable file, unless it is one they remove.\<close>

definition keeps_runnable :: "string \<Rightarrow> Machine \<Rightarrow> Machine \<Rightarrow> bool" where
  "keeps_runnable p m m' \<longleftrightarrow> (runnable p (mcHost m) \<longrightarrow> runnable p (mcHost m'))"

lemma same_host_keeps: "hFiles (mcHost m') = hFiles (mcHost m) \<Longrightarrow> hModes (mcHost m') = hModes (mcHost m) \<Longrightarrow> keeps_runnable p m m'"
  by (simp add: keeps_runnable_def runnable_def)

lemma keeps_trans: "keeps_runnable p a b \<Longrightarrow> keeps_runnable p b c \<Longrightarrow> keeps_runnable p a c"
  by (simp add: keeps_runnable_def)

lemma make_dirs_keeps: "make_dirs os d m = (ok, m') \<Longrightarrow> keeps_runnable p m m'"
  by (auto simp: make_dirs_def MkdirAll_def keeps_runnable_def runnable_def split: if_splits)

lemma write_keeps: "write_file os d text m = (ok, m') \<Longrightarrow> keeps_runnable p m m'"
  by (auto simp: write_file_def keeps_runnable_def runnable_def split: if_splits)

lemma remove_keeps: "p \<noteq> abs_path os d \<Longrightarrow> keeps_runnable p m (snd (remove_file os d m))"
  by (auto simp: remove_file_def keeps_runnable_def runnable_def)

lemma make_all_keeps: "make_all os ds m = (r, m') \<Longrightarrow> keeps_runnable p m m'"
proof (induction ds arbitrary: m)
  case (Cons d ds)
  obtain ok m1 where 1: "make_dirs os d m = (ok, m1)" by fastforce
  show ?case using Cons.IH [of m1] Cons.prems make_dirs_keeps [OF 1] by (cases ok) (auto simp: 1 intro: keeps_trans)
qed (simp add: keeps_runnable_def)

locale service_keeper = service_manager +
  assumes install_keeps: "svInstall sv dry answer policyDir yes m = (r, m') \<Longrightarrow> keeps_runnable p m m'"

lemma dest_keeps:
  assumes "make_dirs os (Dir dest) m = (ok1, m1)" and "write_file os dest text m1 = (ok2, m2)"
  shows "keeps_runnable p m m1" and "keeps_runnable p m m2"
  using make_dirs_keeps [OF assms(1)] write_keeps [OF assms(2)] by (auto intro: keeps_trans)

lemma keeps_same: "mcHost m' = mcHost k \<Longrightarrow> keeps_runnable p m m' = keeps_runnable p m k"
  by (simp add: keeps_runnable_def)

interpretation systemd_keeper: service_keeper os "linux_service os run home_dir" for os run home_dir
proof unfold_locales
  fix dry answer policyDir yes m r m' p
  let ?sv = "linux_service os run home_dir" and ?dest = "systemdUnitPath home_dir"
  assume i: "svInstall ?sv dry answer policyDir yes m = (r, m')"
  obtain ok1 m1 where 1: "make_dirs os (Dir ?dest) m = (ok1, m1)" by fastforce
  obtain ok2 m2 where 2: "write_file os ?dest (systemd_unit home_dir (absolute_dir os policyDir)) m1 = (ok2, m2)" by fastforce
  show "keeps_runnable p m m'"
    using i dest_keeps [OF 1 2, of p] same_host_keeps [of m m p]
    by (auto simp: linux_service_def linux_installDaemonService_def 1 2 Let_def case_prod_beta keeps_same [OF exec_same(1)] split: if_splits)
qed

interpretation launchd_keeper: service_keeper os "darwin_service os run uid home_dir" for os run uid home_dir
proof unfold_locales
  fix dry answer policyDir yes m r m' p
  let ?sv = "darwin_service os run uid home_dir" and ?dest = "plistPath home_dir"
  assume i: "svInstall ?sv dry answer policyDir yes m = (r, m')"
  obtain ok1 m1 where 1: "make_dirs os (Dir ?dest) m = (ok1, m1)" by fastforce
  obtain ok2 m2 where 2: "write_file os ?dest (launchd_plist home_dir (absolute_dir os policyDir)) m1 = (ok2, m2)" by fastforce
  obtain r3 m3 where 3: "bootstrap_service run uid ?dest (purgeServiceFromLaunchd run uid home_dir m2) = (r3, m3)" by fastforce
  have "mcHost m3 = mcHost m2" using bootstrap_same(1) [of run uid ?dest "purgeServiceFromLaunchd run uid home_dir m2"] by (simp add: 3)
  then have "keeps_runnable p m m3" using dest_keeps(2) [OF 1 2, of p] by (simp add: keeps_runnable_def)
  then show "keeps_runnable p m m'"
    using i dest_keeps [OF 1 2, of p] same_host_keeps [of m m p]
    by (auto simp: darwin_service_def darwin_installDaemonService_def 1 2 3 Let_def case_prod_beta split: if_splits)
qed

text \<open>The settings a complete setup leaves.\<close>

lemma settings_installed:
  assumes "settings_step os fl se hdir hook m = (None, m')" and "sfYes fl" and "\<not> sfDryRun fl"
  shows "(\<exists>s. mcSettings m' = ParsedSettings (JObj (patched hook s))) \<and> keeps_runnable p m m'"
proof -
  obtain ok m1 where 1: "(if mcSettings m = NoSettings then make_dirs os (Dir (settingsJSONPath hdir)) m else (True, m)) = (ok, m1)" by fastforce
  have k: "keeps_runnable p m m1" using 1 make_dirs_keeps by (auto simp: keeps_runnable_def split: if_splits)
  have w: "patchSettingsJSON False True agreed hook f \<in> {SettingsError, SettingsPanic} \<union> {SettingsWritten (patched hook s) |s. True}" for agreed f
    by (auto simp: patchSettingsJSON_def Let_def split: SettingsFile.splits json.splits)
  show ?thesis
    using assms w [of "confirm (seAnswerSettings se)" "mcSettings m"] k
    by (auto simp: settings_step_def 1 Let_def keeps_runnable_def split: if_splits SettingsResult.splits)
qed

section \<open>The settings check\<close>

text \<open>Characters that stand for themselves in JSON and that the check does not object to.\<close>

definition path_char :: "char \<Rightarrow> bool" where
  "path_char c \<longleftrightarrow> json_byte c = [c] \<and> c \<noteq> CHR ''$'' \<and> c \<noteq> CHR ''~''"

lemma json_plain: "list_all path_char s \<Longrightarrow> concat (map json_byte s) = s"
  by (induction s) (auto simp: path_char_def)

lemma json_literals:
  "json_string ''hooks'' = [dquote] @ ''hooks'' @ [dquote]" "json_string ''matcher'' = [dquote] @ ''matcher'' @ [dquote]"
  "json_string ''command'' = [dquote] @ ''command'' @ [dquote]" "json_string ''timeout'' = [dquote] @ ''timeout'' @ [dquote]"
  "json_string ''type'' = [dquote] @ ''type'' @ [dquote]" "json_string [] = [dquote, dquote]"
  by code_simp+

lemma hook_members:
  "sort_key fst [(''matcher'', a), (''hooks'', b)] = [(''hooks'', b), (''matcher'', a)]"
  "sort_key fst [(''type'', a), (''command'', b), (''timeout'', c)] = [(''command'', b), (''timeout'', c), (''type'', a)]"
  by (simp_all add: less_eq_char_def)

lemma hook_text:
  "\<exists>pre post. json_text (JArr [hook_config h]) = pre @ concat (map json_byte h) @ post \<and> CHR ''$'' \<notin> set (pre @ post) \<and> CHR ''~'' \<notin> set (pre @ post)"
proof -
  let ?pre = "''[{'' @ json_string ''hooks'' @ '':[{'' @ json_string ''command'' @ '':'' @ [dquote]"
  let ?post = "[dquote] @ '','' @ json_string ''timeout'' @ '':10,'' @ json_string ''type'' @ '':'' @ json_string ''command'' @ ''}],'' @
    json_string ''matcher'' @ '':'' @ json_string [] @ ''}]''"
  have "json_text (JArr [hook_config h]) = ?pre @ concat (map json_byte h) @ ?post"
    by (simp add: hook_config_def hook_members json_string_def [of h])
  moreover have "CHR ''$'' \<notin> set (?pre @ ?post)" "CHR ''~'' \<notin> set (?pre @ ?post)" by code_simp+
  ultimately show ?thesis by blast
qed

lemma Contains_set: "Contains s x \<Longrightarrow> set x \<subseteq> set s"
  by (auto simp: Contains_iff)

lemma settings_check_passes:
  assumes "list_all path_char (filepath_Join [d, ''nixis-hook''])"
  shows "checkSettingsJSON e hdir d (ParsedSettings (JObj (patched (filepath_Join [d, ''nixis-hook'']) s))) =
    check_ok ''Settings'' ''PreToolUse hook configured with literal path''"
proof -
  let ?h = "filepath_Join [d, ''nixis-hook'']"
  obtain pre post where t: "json_text (JArr [hook_config ?h]) = pre @ ?h @ post" and n: "CHR ''$'' \<notin> set (pre @ post)" "CHR ''~'' \<notin> set (pre @ post)"
    using hook_text [of ?h] json_plain [OF assms] by metis
  have h: "CHR ''$'' \<notin> set ?h" "CHR ''~'' \<notin> set ?h" using assms by (auto simp: list_all_iff path_char_def)
  have "Contains (json_text (JArr [hook_config ?h])) ?h" unfolding t by (auto simp: Contains_iff)
  moreover have "\<not> Contains (json_text (JArr [hook_config ?h])) ''$HOME''" "\<not> Contains (json_text (JArr [hook_config ?h])) ''~''"
    using n h Contains_set [of "json_text (JArr [hook_config ?h])"] unfolding t by fastforce+
  ultimately show ?thesis
    by (simp add: checkSettingsJSON_def hooks_of_patched update_conv' Let_def del: json_text.simps)
qed

lemma policies_keeps:
  assumes "proper_dir d" and "proper_walk (seVisits se)" and "policies_step os fl se (filepath_Join [d, ''policies'']) m = (r, m')"
  shows "keeps_runnable (abs_path os (filepath_Join [d, ''nixis-hook''])) m m'"
proof -
  let ?dest = "filepath_Join [d, ''policies'']" and ?hook = "abs_path os (filepath_Join [d, ''nixis-hook''])"
  have d: "IsAbs d" using assms(1) by (simp add: proper_dir_def)
  have pol: "plain_name ''policies''" by (simp add: plain_name_def)
  have dest: "?dest = root_path (base_comps d @ [''policies''])" using Join_rel [OF d, of "[''policies'']"] child_name [OF pol] by simp
  have base: "base_comps ?dest = base_comps d @ [''policies'']" unfolding dest using base_plain [of d] pol by (intro base_root) simp
  have "?hook \<noteq> root_path (base_comps d @ ''policies'' # cs)" if "proper_visit cs" for cs
    using that root_path_inj [of "base_comps d @ [''nixis-hook'']" "base_comps d @ ''policies'' # cs"] base_plain [of d] pol binary_names(2)
    by (auto simp: child_paths [OF d] proper_visit_def)
  then have far: "\<not> below ?dest ?hook" by (auto simp: below_def base)
  have "IsAbs ?dest" unfolding dest by (simp add: IsAbs_def root_path_def HasPrefix_def)
  then have "hFiles h' ?hook = hFiles h ?hook \<and> hModes h' ?hook = hModes h ?hook" if "copyPolicies os dry src ?dest (seVisits se) h = (ok, h')" for dry src h ok h'
    using that copy_frame [OF _ assms(2) _ far, of os src h _ h'] by (auto simp: copyPolicies_def split: if_splits)
  then show ?thesis
    using assms(3) by (auto simp: policies_step_def Let_def keeps_runnable_def runnable_def split: prod.splits)
qed

lemma shell_keeps:
  assumes "shell_step os fl se hdir d m = (r, m')"
  shows "keeps_runnable p m m' \<and> mcSettings m' = mcSettings m"
proof -
  have "hModes (mcHost m') = hModes (mcHost m)" using assms by (auto simp: shell_step_def Let_def)
  then show ?thesis using shell_effect(1) [OF assms] shell_effect(2) [OF assms, of p] by (auto simp: keeps_runnable_def runnable_def)
qed

lemma stale_keeps:
  assumes "IsAbs d" and "stale_step os fl d m = (r, m')"
  shows "keeps_runnable (abs_path os (filepath_Join [d, ''nixis-hook''])) m m'"
proof -
  have n: "plain_name ''nixis-hook-wrapper.sh''" "plain_name ''audit.log''" by (simp_all add: plain_name_def)
  have far: "abs_path os (filepath_Join [d, ''nixis-hook'']) \<noteq> abs_path os (filepath_Join [d, x])" if "x \<in> {''nixis-hook-wrapper.sh'', ''audit.log''}" for x
    using that child_inj [OF binary_names(2)] n by (auto simp: child_paths [OF assms(1)] binary_names)
  show ?thesis
    using assms(2) keeps_trans [OF remove_keeps [OF far] remove_keeps [OF far]] by (auto simp: stale_step_def keeps_runnable_def split: if_splits)
qed

lemma stale_settings: "stale_step os fl d m = (r, m') \<Longrightarrow> mcSettings m' = mcSettings m"
  by (auto simp: stale_step_def remove_file_def split: if_splits)

context service_keeper
begin

lemma lifecycle_keeps: "lifecycle_step fl se m = (r, m') \<Longrightarrow> seService se = sv \<Longrightarrow> keeps_runnable p m m' \<and> mcSettings m' = mcSettings m"
proof -
  have st: "mcHost (snd (svStatusTimeout sv k)) = mcHost k" "mcHost (snd (svStart sv k)) = mcHost k" "mcHost (snd (svStopTimeout sv k)) = mcHost k" for k
    using status_runs(2) [of k] start_runs [of k] stop_runs(2) [of k] by (simp_all add: only_runs_def)
  assume a: "lifecycle_step fl se m = (r, m')" "seService se = sv"
  have "mcHost m' = mcHost m" using a(1) by (auto simp: lifecycle_step_def a(2) Let_def case_prod_beta st split: if_splits)
  moreover have "mcSettings m' = mcSettings m" using lifecycle_runs [OF a] by (simp add: touches_def)
  ultimately show ?thesis by (simp add: keeps_runnable_def)
qed

lemma setup_checked:
  fixes hdir :: string
  defines "d \<equiv> filepath_Join [hdir, ''.nixis'']"
  defines "hook \<equiv> abs_path os (filepath_Join [d, ''nixis-hook''])"
  assumes env: "IsAbs hdir" "IsAbs (osCwd os)" "proper_walk (seVisits se)" "seService se = sv" "\<forall>n p. seLookPath se n = Some p \<longrightarrow> is_file os p m"
    and fl: "sfYes fl" "\<not> sfDryRun fl" "\<not> sfSkipBinaries fl"
    and old: "hFiles (mcHost m) hook \<noteq> None \<Longrightarrow> runnable hook (mcHost m)"
    and run: "runSetup os fl se False (Some hdir) m = (None, m')"
  shows "runnable hook (mcHost m') \<and> (\<exists>s. mcSettings m' = ParsedSettings (JObj (patched (filepath_Join [d, ''nixis-hook'']) s)))"
proof -
  let ?source = "\<lambda>name. findBinary os (seLookPath se) hdir name m" and ?dest = "filepath_Join [d, ''policies'']" and ?h = "filepath_Join [d, ''nixis-hook'']"
  have d: "proper_dir d" "IsAbs d" using nixis_proper [OF env(1)] by (auto simp: d_def proper_dir_def)
  have "runInstall os fl se hdir d m = (None, m')" using run by (simp add: runSetup_def d_def Let_def)
  then obtain k0 k1 k2 k3 k4 k5 k6 k7 k8 where steps: "detect_step fl ?source m = (None, k0)" "deploy_step os fl ?source d k0 = (None, k1)"
      "dirs_step os fl ?dest k1 = (None, k2)" "policies_step os fl se ?dest k2 = (None, k3)" "service_step fl se ?dest k3 = (None, k4)"
      "lifecycle_step fl se k4 = (None, k5)" "settings_step os fl se hdir ?h k5 = (None, k6)" "smoke_step fl se d k6 = (None, k7)"
      "stale_step os fl d k7 = (None, k8)" "shell_step os fl se hdir d k8 = (None, m')"
    unfolding runInstall_def Let_def run_steps_None by auto
  have k0: "k0 = m" and found: "?source ''nixis-hook'' \<noteq> []"
    using steps(1) fl(3) by (auto simp: detect_step_def binaries_def split: if_splits)
  obtain j where j: "make_dirs os d m = (True, j)" "deploy_all os ?source d binaries j = (None, k1)"
    using steps(2) fl by (auto simp: deploy_step_def k0 split: prod.splits if_splits)
  have same: "hFiles (mcHost j) = hFiles (mcHost m)" "keeps_runnable hook m j"
    using j(1) make_dirs_keeps [OF j(1)] by (auto simp: make_dirs_def MkdirAll_def split: if_splits)
  have "is_file os (?source ''nixis-hook'') m" using found_is_file [OF env(2) _ found] env(5) by blast
  then have "abs_path os (?source ''nixis-hook'') = hook \<Longrightarrow> hFiles (mcHost j) hook \<noteq> None" by (simp add: is_file_def same)
  then have k1: "runnable hook (mcHost k1)"
    using deploy_runnable [OF d(2) j(2), folded hook_def] old same by (auto simp: keeps_runnable_def)
  have 2: "keeps_runnable hook k1 k2" using steps(3) fl make_all_keeps by (simp add: dirs_step_def del: make_all.simps)
  have 3: "keeps_runnable hook k2 k3" using policies_keeps [OF d(1) env(3) steps(4)] by (simp add: hook_def)
  have 4: "keeps_runnable hook k3 k4"
    using steps(5) fl install_keeps [of False "seAnswerService se" ?dest "sfYes fl" k3 None k4] by (auto simp: service_step_def env(4) split: prod.splits)
  have 5: "keeps_runnable hook k4 k5" using lifecycle_keeps [OF steps(6) env(4)] by simp
  obtain s where 6: "mcSettings k6 = ParsedSettings (JObj (patched ?h s))" "keeps_runnable hook k5 k6" using settings_installed [OF steps(7) fl(1,2)] by blast
  have 7: "keeps_runnable hook k6 k7" "mcSettings k7 = mcSettings k6"
    using steps(8) by (auto simp: smoke_step_def runSmokeTest_def case_prod_beta Let_def keeps_runnable_def)
  have 8: "keeps_runnable hook k7 k8" "mcSettings k8 = mcSettings k7"
    using stale_keeps [OF d(2) steps(9)] stale_settings [OF steps(9)] by (simp_all add: hook_def)
  show ?thesis
    using k1 2 3 4 5 6 7 8 shell_keeps [OF steps(10), of hook] by (auto simp: keeps_runnable_def)
qed

end

text \<open>Claim C29. The diagnosis accepts what setup installs.  After a setup that ran to its end without questions, the three checks of the installation
  (hook binary, hook format, settings) pass, with systemd and with launchd, provided that a hook installed before was executable and that the
  path of the hook has only characters that JSON does not escape and neither a dollar sign nor a tilde.\<close>

theorem setup_passes_doctor:
  assumes "IsAbs hdir" and "IsAbs (osCwd os)" and "proper_walk (seVisits se)"
    and "seService se = linux_service os run hdir \<or> seService se = darwin_service os run uid hdir"
    and "\<forall>n p. seLookPath se n = Some p \<longrightarrow> is_file os p m"
    and "sfYes fl" and "\<not> sfDryRun fl" and "\<not> sfSkipBinaries fl"
    and "d = filepath_Join [hdir, ''.nixis'']" and "hook = filepath_Join [d, ''nixis-hook'']"
    and "is_file os hook m \<Longrightarrow> runnable (abs_path os hook) (mcHost m)"
    and "osOK os OpStat (abs_path os hook)" and "list_all path_char hook"
    and "runSetup os fl se False (Some hdir) m = (None, m')"
  shows "checkHookBinary os d m' = check_ok ''Hook'' (hook @ '' (executable)'') \<and>
    checkHookFormat os d m' = check_ok ''Hook Format'' ''skipped (requires running daemon)'' \<and>
    checkSettingsJSON e hdir d (mcSettings m') = check_ok ''Settings'' ''PreToolUse hook configured with literal path''"
proof -
  have old: "hFiles (mcHost m) (abs_path os (filepath_Join [filepath_Join [hdir, ''.nixis''], ''nixis-hook''])) \<noteq> None \<Longrightarrow>
      runnable (abs_path os (filepath_Join [filepath_Join [hdir, ''.nixis''], ''nixis-hook''])) (mcHost m)"
    using assms(9-11) by (simp add: is_file_def)
  have r: "runnable (abs_path os hook) (mcHost m') \<and> (\<exists>s. mcSettings m' = ParsedSettings (JObj (patched hook s)))"
    using assms(4) systemd_keeper.setup_checked [OF assms(1-3) _ assms(5-8) old assms(14)] launchd_keeper.setup_checked [OF assms(1-3) _ assms(5-8) old assms(14)]
    unfolding assms(9,10) by blast
  then show ?thesis
    using assms(12,13) settings_check_passes [of d e hdir] by (auto simp: assms(10) checkHookBinary_def checkHookFormat_def stat_mode_def is_file_def runnable_def Let_def)
qed

lemma demo_hook_paths:
  "filepath_Join [''/h'', ''.nixis''] = ''/h/.nixis''" "filepath_Join [''/h/.nixis'', ''nixis''] = ''/h/.nixis/nixis''"
  "filepath_Join [''/h/.nixis'', ''nixis-hook''] = ''/h/.nixis/nixis-hook''" "filepath_Join [''/h/.nixis'', ''nixis-daemon''] = ''/h/.nixis/nixis-daemon''"
  "abs_path demo_os ''/h/.nixis/nixis'' = ''/h/.nixis/nixis''" "abs_path demo_os ''/h/.nixis/nixis-hook'' = ''/h/.nixis/nixis-hook''"
  "abs_path demo_os ''/h/.nixis/nixis-daemon'' = ''/h/.nixis/nixis-daemon''" "abs_path demo_os ''/h/.nixis/nixis.tmp'' = ''/h/.nixis/nixis.tmp''"
  "abs_path demo_os ''/h/.nixis/nixis-hook.tmp'' = ''/h/.nixis/nixis-hook.tmp''" "abs_path demo_os ''/h/.nixis/nixis-daemon.tmp'' = ''/h/.nixis/nixis-daemon.tmp''"
  "abs_path demo_os (filepath_Join [''bin'', ''nixis'']) = ''/work/bin/nixis''" "abs_path demo_os (filepath_Join [''bin'', ''nixis-hook'']) = ''/work/bin/nixis-hook''"
  "abs_path demo_os (filepath_Join [''bin'', ''nixis-daemon'']) = ''/work/bin/nixis-daemon''"
  "abs_path demo_os ''/work/bin/nixis'' = ''/work/bin/nixis''" "abs_path demo_os ''/work/bin/nixis-hook'' = ''/work/bin/nixis-hook''"
  "abs_path demo_os ''/work/bin/nixis-daemon'' = ''/work/bin/nixis-daemon''"
  by code_simp+

lemma demo_found:
  "findBinary demo_os (seLookPath demo_setup) ''/h'' ''nixis'' demo_machine = ''/work/bin/nixis''"
  "findBinary demo_os (seLookPath demo_setup) ''/h'' ''nixis-hook'' demo_machine = ''/work/bin/nixis-hook''"
  "findBinary demo_os (seLookPath demo_setup) ''/h'' ''nixis-daemon'' demo_machine = ''/work/bin/nixis-daemon''"
  by (simp_all add: findBinary_def is_file_def demo_hook_paths demo_machine_def)

lemma demo_ok: "osOK demo_os op p" "osSame demo_os p q = False" "Abs_fails demo_os p = False"
  by (simp_all add: demo_os_def Abs_fails_def)

lemma demo_deployed:
  "\<exists>k. deploy_step demo_os demo_setup_flags (\<lambda>name. findBinary demo_os (seLookPath demo_setup) ''/h'' name demo_machine) ''/h/.nixis'' demo_machine = (None, k) \<and>
     mcSettings k = mcSettings demo_machine"
  by (simp add: deploy_step_def binaries_def demo_setup_flags_def demo_found demo_hook_paths make_dirs_def MkdirAll_def copyFile_def demo_ok Let_def
      demo_machine_def [THEN arg_cong, of "\<lambda>m. hFiles (mcHost m)"])

lemma demo_service: "\<exists>k'. service_step demo_setup_flags demo_setup p k = (None, k') \<and> mcSettings k' = mcSettings k"
  by (simp add: service_step_def demo_setup_def demo_setup_flags_def linux_service_def linux_installDaemonService_def make_dirs_def MkdirAll_def write_file_def
      exec_def demo_ok Let_def)

lemma demo_lifecycle: "\<exists>k'. lifecycle_step demo_setup_flags demo_setup k = (None, k') \<and> mcSettings k' = mcSettings k"
proof -
  obtain r k' where k': "lifecycle_step demo_setup_flags demo_setup k = (r, k')" by fastforce
  have "r = None" using k' by (auto simp: lifecycle_step_def demo_setup_flags_def Let_def split: prod.splits)
  moreover have "seService demo_setup = linux_service demo_os (\<lambda>_ _. \<lparr>exOK = True, exOut = [], exLate = False\<rparr>) ''/h''" by (simp add: demo_setup_def)
  then have "mcSettings k' = mcSettings k" using systemd.lifecycle_runs [OF k'] by (simp add: touches_def)
  ultimately show ?thesis using k' by simp
qed

lemma demo_setup_runs: "\<exists>m'. runSetup demo_os demo_setup_flags demo_setup False (Some ''/h'') demo_machine = (None, m')"
proof -
  obtain k1 where 1: "deploy_step demo_os demo_setup_flags (\<lambda>name. findBinary demo_os (seLookPath demo_setup) ''/h'' name demo_machine) ''/h/.nixis'' demo_machine = (None, k1)"
    "mcSettings k1 = mcSettings demo_machine" using demo_deployed by auto
  have 0: "detect_step demo_setup_flags (\<lambda>name. findBinary demo_os (seLookPath demo_setup) ''/h'' name demo_machine) demo_machine = (None, demo_machine)"
    by (simp add: detect_step_def binaries_def demo_found)
  have 2: "\<exists>k'. dirs_step demo_os demo_setup_flags p k = (None, k') \<and> mcSettings k' = mcSettings k" for p k
    by (simp add: dirs_step_def make_dirs_def MkdirAll_def demo_ok demo_setup_flags_def)
  have 3: "\<exists>k'. policies_step demo_os demo_setup_flags demo_setup p k = (None, k') \<and> mcSettings k' = mcSettings k" for p k
    by (simp add: policies_step_def copyPolicies_def demo_setup_def demo_ok demo_setup_flags_def)
  obtain k2 where k2: "dirs_step demo_os demo_setup_flags (filepath_Join [''/h/.nixis'', ''policies'']) k1 = (None, k2)" "mcSettings k2 = mcSettings k1" using 2 by blast
  obtain k3 where k3: "policies_step demo_os demo_setup_flags demo_setup (filepath_Join [''/h/.nixis'', ''policies'']) k2 = (None, k3)" "mcSettings k3 = mcSettings k2"
    using 3 by blast
  obtain k4 where k4: "service_step demo_setup_flags demo_setup (filepath_Join [''/h/.nixis'', ''policies'']) k3 = (None, k4)" "mcSettings k4 = mcSettings k3"
    using demo_service by blast
  obtain k5 where k5: "lifecycle_step demo_setup_flags demo_setup k4 = (None, k5)" "mcSettings k5 = mcSettings k4" using demo_lifecycle by blast
  have "mcSettings k5 = ParsedSettings (JObj [(''model'', JStr ''opus'')])" using 1(2) k2(2) k3(2) k4(2) k5(2) by (simp add: demo_machine_def)
  then obtain k6 where k6: "settings_step demo_os demo_setup_flags demo_setup ''/h'' ''/h/.nixis/nixis-hook'' k5 = (None, k6)"
    by (auto simp: settings_step_def patchSettingsJSON_def demo_ok demo_setup_flags_def Let_def)
  show ?thesis
    by (simp add: runSetup_def runInstall_def demo_hook_paths 0 1(1) k2(1) k3(1) k4(1) k5(1) k6 smoke_step_def stale_step_def shell_step_def Let_def)
qed

theorem setup_passes_doctor_witness:
  "\<exists>m'. runSetup demo_os demo_setup_flags demo_setup False (Some ''/h'') demo_machine = (None, m') \<and>
     checkHookBinary demo_os ''/h/.nixis'' m' = check_ok ''Hook'' ''/h/.nixis/nixis-hook (executable)'' \<and>
     \<not> is_warning (checkSettingsJSON [] ''/h'' ''/h/.nixis'' (mcSettings m'))"
proof -
  obtain m' where m': "runSetup demo_os demo_setup_flags demo_setup False (Some ''/h'') demo_machine = (None, m')" using demo_setup_runs ..
  have "list_all path_char ''/h/.nixis/nixis-hook''" "IsAbs ''/h''" by code_simp+
  moreover have "\<not> is_file demo_os ''/h/.nixis/nixis-hook'' demo_machine" by (simp add: is_file_def demo_hook_paths demo_machine_def)
  ultimately have "checkHookBinary demo_os ''/h/.nixis'' m' = check_ok ''Hook'' (''/h/.nixis/nixis-hook'' @ '' (executable)'') \<and>
      checkHookFormat demo_os ''/h/.nixis'' m' = check_ok ''Hook Format'' ''skipped (requires running daemon)'' \<and>
      checkSettingsJSON [] ''/h'' ''/h/.nixis'' (mcSettings m') = check_ok ''Settings'' ''PreToolUse hook configured with literal path''"
    by (intro setup_passes_doctor [where hook = "''/h/.nixis/nixis-hook''" and run = "\<lambda>_ _. \<lparr>exOK = True, exOut = [], exLate = False\<rparr>", OF _ _ _ _ _ _ _ _ _ _ _ _ _ m'])
      (simp_all add: demo_hook_paths demo_ok proper_walk_def, simp_all add: demo_setup_def demo_setup_flags_def demo_os_def IsAbs_def HasPrefix_def)
  then show ?thesis using m' by (simp add: is_warning_def check_ok_def)
qed

end
