(* ===== verification/Importer.thy ===== *)
theory Importer
  imports GoText
begin

text \<open>
  The policy importer of the command line tool, \<^verbatim>\<open>cmd/nixis/import.go\<close>: its data, the translation helpers, and
  the converters of the rule lists (PolicyLayer, generic, settings.json, AgentWall, mcp-visor and the tool
  catalog).  The YAML and JSON decoders are parameters: a decoder gives the struct the source decodes into.  A Go
  map of decoded YAML is an association list in the order in which the source iterates over it, which no
  statement fixes; every such map is iterated at most once.
\<close>

section \<open>Input data\<close>

datatype importFormat =
    formatUnknown | formatPolicyLayer | formatGeneric | formatSettingsJSON | formatAgentWall | formatMCPVisor
  | formatKyverno | formatSigma | formatFalco | formatCheckov | formatOPAGatekeeper

record policyLayerPolicy =
  plID :: string
  plName :: string
  plRule :: string
  plAction :: string
  plSeverity :: string
  plDescription :: string

record policyLayerFile =
  plLayerName :: string
  plFileDescription :: string
  plPolicies :: "policyLayerPolicy list"

record genericPolicy =
  gpID :: string
  gpName :: string
  gpExpression :: string
  gpAction :: string
  gpTools :: "string list"
  gpSeverity :: string

record genericPolicyFile =
  gpPolicies :: "genericPolicy list"

record settingsJSON =
  sjAllow :: "string list"
  sjDeny :: "string list"

record agentWallParam =
  apName :: string
  apType :: string
  apSchema :: "(string \<times> yaml) list"

record agentWallTool =
  atName :: string
  atAction :: string
  atRisk :: string
  atParameters :: "agentWallParam list"

record agentWallFile =
  awVersion :: string
  awDefaultAction :: string
  awTools :: "agentWallTool list"

record mcpVisorFile =
  mvDenyPath :: "string list"
  mvAllowPath :: "string list"
  mvDenyCommandPattern :: "string list"
  mvDenyQueryPattern :: "string list"
  mvMaxFileSize :: int
  mvMaxRows :: int

record catalogEntry =
  ceTool :: string
  ceFamily :: string
  ceOperation :: string
  ceEffects :: "string list"
  ceResourceType :: string
  ceRiskLevel :: string

section \<open>Output data\<close>

record nixisValidation =
  nvExpression :: string
  nvMessage :: string
  nvAction :: string

record nixisMetadata =
  nmName :: string
  nmAnnotations :: "(string \<times> string) list"

record nixisPolicySpec =
  nsDescription :: string
  nsTools :: "string list"
  nsValidations :: "nixisValidation list"
  nsDefaultAction :: string

record nixisManifest =
  nxAPIVersion :: string
  nxKind :: string
  nxMetadata :: nixisMetadata
  nxSpec :: nixisPolicySpec

type_synonym converted = "nixisManifest list \<times> string list"

datatype ImportError =
    ParseError importFormat
  | MissingCondition
  | UnrecognizedGatekeeper string
  | UnknownFormat string

text \<open>The manifest every converter builds: one validation and the default action ALLOW.\<close>

definition template_manifest ::
    "string \<Rightarrow> (string \<times> string) list \<Rightarrow> string \<Rightarrow> string list \<Rightarrow> string \<Rightarrow> string \<Rightarrow> string \<Rightarrow> nixisManifest" where
  "template_manifest name annotations desc tools cel msg action =
     \<lparr>nxAPIVersion = ''nixis.io/v1'', nxKind = ''PolicyTemplate'',
      nxMetadata = \<lparr>nmName = name, nmAnnotations = annotations\<rparr>,
      nxSpec = \<lparr>nsDescription = desc, nsTools = tools,
                nsValidations = [\<lparr>nvExpression = cel, nvMessage = msg, nvAction = action\<rparr>], nsDefaultAction = ''ALLOW''\<rparr>\<rparr>"

definition origin :: "string \<Rightarrow> string \<Rightarrow> (string \<times> string) list" where
  "origin source severity = [(''nixis.io/imported-from'', source), (''nixis.io/severity'', severity)]"

section \<open>Translation helpers\<close>

definition normalizeAction :: "string \<Rightarrow> string" where
  "normalizeAction action = (let a = ToLower action in
     if a = ''deny'' then ''DENY'' else if a = ''audit'' then ''AUDIT''
     else if a = ''allow'' \<or> a = [] then ''ALLOW'' else ToUpper action)"

definition normalizeSeverity :: "string \<Rightarrow> string" where
  "normalizeSeverity severity = (let s = ToLower severity in
     if s = ''critical'' then ''critical'' else if s = ''high'' then ''high'' else if s = ''medium'' then ''medium''
     else if s = ''low'' \<or> s = [] then ''low'' else s)"

definition id_char :: "char \<Rightarrow> bool" where
  "id_char c \<longleftrightarrow> byte_in 97 122 c \<or> byte_in 65 90 c \<or> byte_in 48 57 c \<or> c = CHR ''-''"

definition sanitize_rune :: "string \<Rightarrow> char" where
  "sanitize_rune r = (case r of [c] \<Rightarrow> if id_char c then c else CHR ''-'' | _ \<Rightarrow> CHR ''-'')"

definition sanitizeID :: "string \<Rightarrow> string" where
  "sanitizeID s = ToLower (map sanitize_rune (runes s))"

text \<open>The two regular expressions of \<^verbatim>\<open>translateRule\<close> with their groups.  Neighbouring classes are disjoint, so a greedy
  reading is the only match.\<close>

definition re_skip :: "string \<Rightarrow> string" where
  "re_skip s = dropWhile is_re_space s"

definition is_cmp_op :: "char \<Rightarrow> bool" where
  "is_cmp_op c \<longleftrightarrow> c \<in> set ''><=!''"

definition responseSizeRegex :: "string \<Rightarrow> (string \<times> string) option" where
  "responseSizeRegex rule =
    (if \<not> HasPrefix rule ''response_size_bytes'' then None
     else let s = re_skip (drop (length ''response_size_bytes'') rule);
              opr = takeWhile is_cmp_op s;
              d = re_skip (dropWhile is_cmp_op s)
          in if opr \<noteq> [] \<and> d \<noteq> [] \<and> list_all is_digit d then Some (opr, d) else None)"

definition toolNameRegex :: "string \<Rightarrow> string option" where
  "toolNameRegex rule =
    (if \<not> HasPrefix rule ''tool_name'' then None
     else let s = re_skip (drop (length ''tool_name'') rule) in
          if \<not> HasPrefix s ''=='' then None
          else let q = re_skip (drop 2 s) in
               if q = [] \<or> hd q \<noteq> dquote then None
               else let name = takeWhile (\<lambda>c. c \<noteq> dquote) (tl q) in
                    if name \<noteq> [] \<and> tl q = name @ [dquote] then Some name else None)"

definition translateRule :: "string \<Rightarrow> string \<times> string" where
  "translateRule rule0 = (let rule = TrimSpace rule0 in
     if rule = ''tool_definition_changed''
     then (''tool.name != '' @ Quote [] @ '' && tool.fingerprint != tool.expected_fingerprint'', [])
     else case responseSizeRegex rule of
       Some (opr, val) \<Rightarrow>
         (''response.size '' @ opr @ '' '' @ val,
          ''IMPORT_TODO: response.size is a Phase 2 variable '' @ em_dash @ '' verify this expression works in your deployment'')
     | None \<Rightarrow>
         (case toolNameRegex rule of
            Some name \<Rightarrow> (''tool == '' @ [dquote] @ name @ [dquote], [])
          | None \<Rightarrow>
              (''false'',
               ''IMPORT_TODO: manual review required '' @ em_dash @ '' rule '' @ [CHR 0x27] @ rule @ [CHR 0x27] @ '' could not be automatically translated'')))"

fun globToRegex :: "string \<Rightarrow> string" where
  "globToRegex [] = []"
| "globToRegex (c # s) =
    (if c = CHR ''*'' then
       (case s of d # t \<Rightarrow> if d = CHR ''*'' then ''.*'' @ globToRegex t else ''.*'' @ globToRegex s
        | [] \<Rightarrow> ''.*'' @ globToRegex s)
     else if c = CHR ''?'' then CHR ''.'' # globToRegex s
     else if c = CHR ''.'' then [backslash, CHR ''.''] @ globToRegex s
     else c # globToRegex s)"

definition matches_arg :: "string \<Rightarrow> string \<Rightarrow> string \<Rightarrow> string" where
  "matches_arg tool field regex = ''tool == '' @ Quote tool @ '' && request.args.'' @ field @ ''.matches('' @ Quote regex @ '')''"

definition translateSettingsRule :: "string \<Rightarrow> string \<times> string" where
  "translateSettingsRule rule = (case IndexByte rule CHR ''('' of
     Some parenIdx \<Rightarrow>
       if parenIdx > 0 \<and> HasSuffix rule '')'' then
         let toolName = take parenIdx rule;
             pattern = take (length rule - 1 - (parenIdx + 1)) (drop (parenIdx + 1) rule);
             regex = globToRegex pattern
         in if toolName = ''Bash'' then (matches_arg ''Bash'' ''command'' regex, [])
            else if toolName \<in> {''Read'', ''Write'', ''Edit''} then (matches_arg toolName ''path'' regex, [])
            else (''tool == '' @ Quote toolName @ '' && request.args.matches('' @ Quote regex @ '')'',
                  ''IMPORT_TODO: parameter field for '' @ toolName @ '' is unknown '' @ em_dash @ '' verify request.args field name'')
       else (''tool == '' @ Quote rule, [])
   | None \<Rightarrow> (''tool == '' @ Quote rule, []))"

section \<open>Rule lists\<close>

record ImportLib =
  jsonSettings :: "string \<Rightarrow> settingsJSON option"
  yamlPolicyLayer :: "string \<Rightarrow> policyLayerFile option"
  yamlGeneric :: "string \<Rightarrow> genericPolicyFile option"
  yamlAgentWall :: "string \<Rightarrow> agentWallFile option"
  yamlMCPVisor :: "string \<Rightarrow> mcpVisorFile option"

definition policyLayer_manifest :: "string \<Rightarrow> policyLayerPolicy \<Rightarrow> nixisManifest \<times> string" where
  "policyLayer_manifest source p =
    (let (cel, comment) = translateRule (plRule p);
         desc = (if plDescription p = [] then plName p else plDescription p)
     in (template_manifest (plID p) (origin source (normalizeSeverity (plSeverity p))) desc [] cel
           (plName p @ '': '' @ desc) (normalizeAction (plAction p)), comment))"

definition unzip :: "(nixisManifest \<times> string) list \<Rightarrow> converted" where
  "unzip ps = (map fst ps, map snd ps)"

definition convertPolicyLayer :: "('a) ImportLib_scheme \<Rightarrow> string \<Rightarrow> string \<Rightarrow> ImportError + converted" where
  "convertPolicyLayer lib data sourcePath = (case yamlPolicyLayer lib data of
     None \<Rightarrow> Inl (ParseError formatPolicyLayer)
   | Some file \<Rightarrow> Inr (unzip (map (policyLayer_manifest (Base sourcePath)) (plPolicies file))))"

definition generic_manifest :: "string \<Rightarrow> genericPolicy \<Rightarrow> nixisManifest \<times> string" where
  "generic_manifest source p =
    (let name = (if gpName p = [] then gpID p else gpName p)
     in (template_manifest (gpID p) (origin source (normalizeSeverity (gpSeverity p))) name (gpTools p) (gpExpression p)
           name (normalizeAction (gpAction p)), []))"

definition convertGeneric :: "('a) ImportLib_scheme \<Rightarrow> string \<Rightarrow> string \<Rightarrow> ImportError + converted" where
  "convertGeneric lib data sourcePath = (case yamlGeneric lib data of
     None \<Rightarrow> Inl (ParseError formatGeneric)
   | Some file \<Rightarrow> Inr (unzip (map (generic_manifest (Base sourcePath)) (gpPolicies file))))"

definition settings_manifest :: "string \<Rightarrow> nat \<Rightarrow> string \<Rightarrow> nixisManifest \<times> string" where
  "settings_manifest source i rule =
    (let (cel, comment) = translateSettingsRule rule
     in (template_manifest (''settings-deny-'' @ pad3 (i + 1)) (origin source ''medium'' @ [(''nixis.io/source-rule'', rule)])
           (''Deny rule imported from settings.json: '' @ rule) [] cel
           (''Blocked by imported settings.json rule: '' @ rule) ''DENY'', comment))"

definition convertSettingsJSON :: "('a) ImportLib_scheme \<Rightarrow> string \<Rightarrow> string \<Rightarrow> ImportError + converted" where
  "convertSettingsJSON lib data sourcePath = (case jsonSettings lib data of
     None \<Rightarrow> Inl (ParseError formatSettingsJSON)
   | Some s \<Rightarrow> Inr (unzip (map (\<lambda>(i, rule). settings_manifest (Base sourcePath) i rule) (enumerate 0 (sjDeny s)))))"

section \<open>AgentWall\<close>

definition normalizeAgentWallRisk :: "string \<Rightarrow> string" where
  "normalizeAgentWallRisk risk = (let r = ToLower risk in
     if r = ''critical'' then ''critical'' else if r = ''high'' then ''high'' else if r = ''medium'' then ''medium'' else ''low'')"

definition as_string :: "yaml option \<Rightarrow> string option" where
  "as_string v = (case v of Some (YStr s) \<Rightarrow> Some s | _ \<Rightarrow> None)"

definition or_empty :: "string option \<Rightarrow> string" where
  "or_empty v = (case v of Some s \<Rightarrow> s | None \<Rightarrow> [])"

definition as_map :: "yaml option \<Rightarrow> (string \<times> yaml) list option" where
  "as_map v = (case v of Some (YMap m) \<Rightarrow> Some m | _ \<Rightarrow> None)"

definition as_seq :: "yaml option \<Rightarrow> yaml list option" where
  "as_seq v = (case v of Some (YSeq xs) \<Rightarrow> Some xs | _ \<Rightarrow> None)"

definition on_field :: "string \<Rightarrow> string \<Rightarrow> string \<Rightarrow> string" where
  "on_field toolName fieldName test = ''tool == '' @ Quote toolName @ '' && request.args.'' @ fieldName @ test"

definition agentWallFieldCEL :: "string \<Rightarrow> string \<Rightarrow> string \<Rightarrow> (string \<times> yaml) list \<Rightarrow> string list \<times> string" where
  "agentWallFieldCEL toolName paramName fieldName fieldDef =
    (let fieldType = or_empty (as_string (map_of fieldDef ''type'')) in
     if fieldType = ''string'' then
       (case as_string (map_of fieldDef ''pattern'') of
          Some pattern \<Rightarrow> ([on_field toolName fieldName (''.matches('' @ Quote pattern @ '')'')], [])
        | None \<Rightarrow> ([], []))
     else if fieldType = ''integer'' \<or> fieldType = ''number'' then
       ((case map_of fieldDef ''maximum'' of Some mx \<Rightarrow> [on_field toolName fieldName ('' > '' @ fmt_any mx)] | None \<Rightarrow> []) @
        (case map_of fieldDef ''minimum'' of Some mn \<Rightarrow> [on_field toolName fieldName ('' < '' @ fmt_any mn)] | None \<Rightarrow> []), [])
     else ([''false''],
           ''IMPORT_TODO: unsupported schema type '' @ Quote fieldType @ '' for field '' @ fieldName @ '' '' @ em_dash @ '' manual review required''))"


definition agentWall_deny :: "string \<Rightarrow> agentWallTool \<Rightarrow> nixisManifest \<times> string" where
  "agentWall_deny source tool =
    (template_manifest (''agentwall-'' @ sanitizeID (atName tool) @ ''-deny'') (origin source (normalizeAgentWallRisk (atRisk tool)))
       (''AgentWall deny rule for tool '' @ atName tool) [] (''tool == '' @ Quote (atName tool))
       (''Tool '' @ atName tool @ '' is denied by AgentWall policy'') ''DENY'', [])"

definition agentWall_field ::
    "string \<Rightarrow> agentWallTool \<Rightarrow> agentWallParam \<Rightarrow> string \<times> yaml \<Rightarrow> (nixisManifest \<times> string) list" where
  "agentWall_field source tool param fd = (case as_map (Some (snd fd)) of
     None \<Rightarrow> []
   | Some fieldMap \<Rightarrow>
       (let (cels, comment) = agentWallFieldCEL (atName tool) (apName param) (fst fd) fieldMap
        in map (\<lambda>cel. (template_manifest
                 (''agentwall-'' @ sanitizeID (atName tool) @ ''-'' @ sanitizeID (apName param) @ ''-'' @ sanitizeID (fst fd))
                 (origin source (normalizeAgentWallRisk (atRisk tool)))
                 (''AgentWall constraint: '' @ atName tool @ ''.'' @ apName param @ ''.'' @ fst fd) [atName tool] cel
                 (''AgentWall constraint violation on '' @ apName param @ ''.'' @ fst fd) ''DENY'', comment)) cels))"

definition agentWall_required :: "string \<Rightarrow> agentWallTool \<Rightarrow> agentWallParam \<Rightarrow> yaml \<Rightarrow> (nixisManifest \<times> string) list" where
  "agentWall_required source tool param req = (case as_string (Some req) of
     None \<Rightarrow> []
   | Some reqStr \<Rightarrow>
       [(template_manifest
           (''agentwall-'' @ sanitizeID (atName tool) @ ''-'' @ sanitizeID (apName param) @ ''-required-'' @ sanitizeID reqStr)
           (origin source (normalizeAgentWallRisk (atRisk tool)))
           (''AgentWall required field: '' @ atName tool @ ''.'' @ apName param @ ''.'' @ reqStr) [atName tool]
           (on_field (atName tool) reqStr ('' == '' @ Quote []))
           (''Required field '' @ reqStr @ '' is missing'') ''DENY'', [])])"

definition agentWall_param :: "string \<Rightarrow> agentWallTool \<Rightarrow> agentWallParam \<Rightarrow> (nixisManifest \<times> string) list" where
  "agentWall_param source tool param =
    (let schema = (case as_map (map_of (apSchema param) ''properties'') of Some m \<Rightarrow> m | None \<Rightarrow> []);
         required = (case as_seq (map_of (apSchema param) ''required'') of Some xs \<Rightarrow> xs | None \<Rightarrow> [])
     in concat (map (agentWall_field source tool param) schema) @ concat (map (agentWall_required source tool param) required))"

definition agentWall_tool :: "string \<Rightarrow> agentWallTool \<Rightarrow> (nixisManifest \<times> string) list" where
  "agentWall_tool source tool =
    (if ToLower (atAction tool) = ''deny'' then [agentWall_deny source tool]
     else concat (map (agentWall_param source tool) (atParameters tool)))"

definition convertAgentWall :: "('a) ImportLib_scheme \<Rightarrow> string \<Rightarrow> string \<Rightarrow> ImportError + converted" where
  "convertAgentWall lib data sourcePath = (case yamlAgentWall lib data of
     None \<Rightarrow> Inl (ParseError formatAgentWall)
   | Some file \<Rightarrow> Inr (unzip (concat (map (agentWall_tool (Base sourcePath)) (awTools file)))))"

section \<open>mcp-visor\<close>

definition newMCPVisorManifest :: "string \<Rightarrow> string \<Rightarrow> string \<Rightarrow> string \<Rightarrow> string \<Rightarrow> string \<Rightarrow> nixisManifest" where
  "newMCPVisorManifest ident desc cel action severity source =
     template_manifest ident (origin source severity) desc [] cel desc action"

text \<open>The last comment is replaced; without comments the message is dropped.\<close>

definition appendSkipComment :: "string list \<Rightarrow> string \<Rightarrow> string list" where
  "appendSkipComment comments msg = (if comments \<noteq> [] then comments[length comments - 1 := msg] else comments)"

definition mcpVisor_rules ::
    "(string \<Rightarrow> string) \<Rightarrow> string \<Rightarrow> string \<Rightarrow> string \<Rightarrow> string \<Rightarrow> string \<Rightarrow> string list \<Rightarrow> nixisManifest list" where
  "mcpVisor_rules cel idPrefix descPrefix action severity source patterns =
     map (\<lambda>(i, pattern). newMCPVisorManifest (idPrefix @ pad3 (i + 1)) (descPrefix @ pattern) (cel pattern) action severity source)
       (enumerate 0 patterns)"

definition file_tools :: string where
  "file_tools = ''tool.matches('' @ Quote ''Read|Write|Edit'' @ '')''"

definition skipped_note :: "string \<Rightarrow> string \<Rightarrow> string" where
  "skipped_note field what =
     ''IMPORT_TODO: '' @ field @ '' constraint skipped '' @ em_dash @ '' no '' @ what @ '' CEL function currently available''"

definition convertMCPVisor :: "('a) ImportLib_scheme \<Rightarrow> string \<Rightarrow> string \<Rightarrow> ImportError + converted" where
  "convertMCPVisor lib data sourcePath = (case yamlMCPVisor lib data of
     None \<Rightarrow> Inl (ParseError formatMCPVisor)
   | Some file \<Rightarrow>
       (let source = Base sourcePath;
            manifests =
              mcpVisor_rules (\<lambda>pattern. file_tools @ '' && request.args.path.matches('' @ Quote pattern @ '')'')
                ''mcpvisor-deny-path-'' ''Deny path: '' ''DENY'' ''high'' source (mvDenyPath file) @
              mcpVisor_rules (\<lambda>pattern. file_tools @ '' && !request.args.path.matches('' @ Quote pattern @ '')'')
                ''mcpvisor-require-approval-path-'' ''Require approval for paths not matching: '' ''REQUIRE_APPROVAL'' ''medium'' source
                (mvAllowPath file) @
              mcpVisor_rules (\<lambda>pattern. matches_arg ''Bash'' ''command'' pattern)
                ''mcpvisor-deny-cmd-'' ''Deny command pattern: '' ''DENY'' ''high'' source (mvDenyCommandPattern file) @
              mcpVisor_rules (\<lambda>pattern. ''request.args.query.matches('' @ Quote pattern @ '')'')
                ''mcpvisor-deny-query-'' ''Deny query pattern: '' ''DENY'' ''high'' source (mvDenyQueryPattern file);
            comments = map (\<lambda>_. []) manifests;
            comments = (if mvMaxFileSize file > 0 then appendSkipComment comments (skipped_note ''max_file_size'' ''file size'') else comments);
            comments = (if mvMaxRows file > 0 then appendSkipComment comments (skipped_note ''max_rows'' ''row count'') else comments)
        in Inr (manifests, comments)))"

section \<open>The tool catalog\<close>

definition catalog_manifest :: "catalogEntry \<Rightarrow> nixisManifest" where
  "catalog_manifest e =
    (let toolName = ceTool e;
         action = (if ceRiskLevel e = ''critical'' then ''DENY'' else ''REQUIRE_APPROVAL'');
         cel = (if ceFamily e = ''bash'' then ''tool == '' @ Quote ''Bash'' @ '' && request.args.command.startsWith('' @ Quote toolName @ '')''
                else ''tool == '' @ Quote toolName);
         desc = (if action = ''DENY'' then ''Deny critically-risky '' @ toolName @ '' ('' @ ceFamily e @ '')''
                 else ''Require approval for '' @ toolName @ '' ('' @ ceFamily e @ '' risk level: '' @ ceRiskLevel e @ '')'')
     in template_manifest (''catalog-auto-'' @ sanitizeID toolName)
          [(''nixis.io/source'', ''pkg/adapters/catalog.json''), (''nixis.io/risk-level'', ceRiskLevel e),
           (''nixis.io/family'', ceFamily e), (''nixis.io/severity'', ceRiskLevel e)]
          desc [''Bash''] cel
          (toolName @ '' is classified as '' @ ceRiskLevel e @ '' risk '' @ em_dash @ '' approval required'') action)"

definition generateCatalogPolicies :: "catalogEntry list \<Rightarrow> converted" where
  "generateCatalogPolicies entries =
    (let ms = map catalog_manifest (filter (\<lambda>e. ceRiskLevel e = ''high'' \<or> ceRiskLevel e = ''critical'') entries)
     in (ms, map (\<lambda>_. []) ms))"

end
