(* ===== verification/ImportCheckov.thy ===== *)
theory ImportCheckov
  imports Importer
begin

text \<open>
  The importers of Kubernetes and infrastructure policies, \<^verbatim>\<open>cmd/nixis/import.go\<close>: Checkov, Kyverno and OPA
  Gatekeeper.  A rule becomes a pattern on the written file or on the kubectl command line.
\<close>

section \<open>Checkov\<close>

datatype checkovDefinition = CheckovDefinition
  (cdResourceTypes: "string list") (cdAttribute: string) (cdOperator: string) (cdValue: string)
  (cdAnd: "checkovDefinition list") (cdOr: "checkovDefinition list")

record checkovFile =
  ckName :: string
  ckID :: string
  ckCategory :: string
  ckDefinition :: checkovDefinition

definition resourceToFilePattern :: "(string \<times> string) list" where
  "resourceToFilePattern =
    [
     (''aws_s3_bucket'', [backslash] @ ''.tf$''),
     (''aws_iam_policy'', [backslash] @ ''.tf$|policy'' @ [backslash] @ ''.json$''),
     (''aws_security_group'', [backslash] @ ''.tf$''),
     (''aws_instance'', [backslash] @ ''.tf$''),
     (''aws_lambda_function'', [backslash] @ ''.tf$''),
     (''aws_rds_instance'', [backslash] @ ''.tf$''),
     (''aws_kms_key'', [backslash] @ ''.tf$''),
     (''kubernetes_deployment'', [backslash] @ ''.yaml$|'' @ [backslash] @ ''.yml$''),
     (''kubernetes_pod'', [backslash] @ ''.yaml$|'' @ [backslash] @ ''.yml$''),
     (''kubernetes_container'', [backslash] @ ''.yaml$|'' @ [backslash] @ ''.yml$''),
     (''kubernetes_daemonset'', [backslash] @ ''.yaml$|'' @ [backslash] @ ''.yml$''),
     (''kubernetes_statefulset'', [backslash] @ ''.yaml$|'' @ [backslash] @ ''.yml$''),
     (''kubernetes_job'', [backslash] @ ''.yaml$|'' @ [backslash] @ ''.yml$''),
     (''kubernetes_cronjob'', [backslash] @ ''.yaml$|'' @ [backslash] @ ''.yml$''),
     (''dockerfile'', ''(?i)[Dd]ockerfile''),
     (''cloudformation'', [backslash] @ ''.yaml$|'' @ [backslash] @ ''.json$|'' @ [backslash] @ ''.template$''),
     (''helm'', ''values'' @ [backslash] @ ''.yaml$|Chart'' @ [backslash] @ ''.yaml$''),
     (''terraform'', [backslash] @ ''.tf$|'' @ [backslash] @ ''.tfvars$''),
     (''docker_container'', ''(?i)[Dd]ockerfile|docker-compose'' @ [backslash] @ ''.yml$''),
     (''azurerm_storage_account'', [backslash] @ ''.tf$''),
     (''google_storage_bucket'', [backslash] @ ''.tf$'')]"

fun known_patterns :: "(string \<times> string) list \<Rightarrow> string list \<Rightarrow> string list \<Rightarrow> string list" where
  "known_patterns tab [] patterns = patterns"
| "known_patterns tab (k # ks) patterns = (case map_of tab k of
     Some p \<Rightarrow> known_patterns tab ks (if p \<in> set patterns then patterns else patterns @ [p])
   | None \<Rightarrow> known_patterns tab ks patterns)"

definition checkovFilePattern :: "string list \<Rightarrow> string" where
  "checkovFilePattern resourceTypes =
    (let patterns = known_patterns resourceToFilePattern (map ToLower resourceTypes) []
     in if patterns = [] then ''.*'' else JoinStrings patterns ''|'')"

definition content_check :: "string \<Rightarrow> bool \<Rightarrow> string \<Rightarrow> string \<Rightarrow> string" where
  "content_check filePattern negate method arg =
     ''request.args.path.matches('' @ Quote filePattern @ '') && '' @ (if negate then ''!'' else []) @
     ''request.args.content.'' @ method @ ''('' @ Quote arg @ '')''"

definition translateCheckovCondition :: "checkovDefinition \<Rightarrow> string \<Rightarrow> string \<times> string \<times> string" where
  "translateCheckovCondition def filePattern =
    (let attr = cdAttribute def; opr = cdOperator def; val = cdValue def; check = content_check filePattern in
     if opr = ''exists'' then (check True ''contains'' attr, ''IMPORT_TODO: exists check is approximate '' @ em_dash @ '' verifies string presence of '' @ Quote attr @ '' in file content'', ''AUDIT'')
     else if opr = ''not_exists'' then (check False ''contains'' attr, [], ''DENY'')
     else if opr = ''equals'' then (check False ''contains'' val, ''IMPORT_TODO: equals check looks for string '' @ Quote val @ '' '' @ em_dash @ '' may need more precise matching'', ''AUDIT'')
     else if opr = ''not_equals'' then (check True ''contains'' val, ''IMPORT_TODO: not_equals check looks for absence of '' @ Quote val @ '' '' @ em_dash @ '' may need more precise matching'', ''AUDIT'')
     else if opr = ''contains'' then (check True ''contains'' val, [], ''DENY'')
     else if opr = ''not_contains'' then (check False ''contains'' val, [], ''DENY'')
     else if opr = ''regex_match'' then (check False ''matches'' val, [], ''DENY'')
     else if opr = ''not_regex_match'' then (check True ''matches'' val, [], ''AUDIT'')
     else if opr = ''starting_with'' then (check False ''contains'' val, ''IMPORT_TODO: starting_with translated as content.contains('' @ Quote val @ '') '' @ em_dash @ '' verify pattern'', ''DENY'')
     else if opr = ''not_starting_with'' then (check True ''contains'' val, ''IMPORT_TODO: not_starting_with translated as !content.contains('' @ Quote val @ '') '' @ em_dash @ '' verify pattern'', ''AUDIT'')
     else if opr = ''ending_with'' then (check False ''contains'' val, ''IMPORT_TODO: ending_with translated as content.contains('' @ Quote val @ '') '' @ em_dash @ '' verify pattern'', ''DENY'')
     else if opr = ''not_ending_with'' then (check True ''contains'' val, ''IMPORT_TODO: not_ending_with translated as !content.contains('' @ Quote val @ '') '' @ em_dash @ '' verify pattern'', ''AUDIT'')
     else if opr \<in> {''greater_than'', ''less_than'', ''greater_than_or_equal'', ''less_than_or_equal''} then
       (''false'', ''IMPORT_TODO: numeric operator '' @ Quote opr @ '' requires value parsing '' @ em_dash @ '' manual review required for attribute '' @ Quote attr, ''AUDIT'')
     else if opr = ''within'' then (check True ''contains'' val, ''IMPORT_TODO: within operator translated as content.contains('' @ Quote val @ '') '' @ em_dash @ '' verify allowed set'', ''AUDIT'')
     else if opr = ''not_within'' then (check False ''contains'' val, ''IMPORT_TODO: not_within operator translated as content.contains('' @ Quote val @ '') '' @ em_dash @ '' verify denied set'', ''DENY'')
     else (''false'', ''IMPORT_TODO: unsupported Checkov operator '' @ Quote opr @ '' '' @ em_dash @ '' manual review required'', ''AUDIT''))"

text \<open>The conditions of a group up to the first nested one, which stops the translation.\<close>

fun logical_parts :: "string \<Rightarrow> checkovDefinition list \<Rightarrow> (string \<times> string) list option" where
  "logical_parts filePattern [] = Some []"
| "logical_parts filePattern (child # cs) =
    (if cdAnd child \<noteq> [] \<or> cdOr child \<noteq> [] then None
     else let fp = checkovFilePattern (cdResourceTypes child);
              (cel, comment, _) = translateCheckovCondition child (if fp = ''.*'' then filePattern else fp)
          in map_option (Cons (cel, comment)) (logical_parts filePattern cs))"

definition translateCheckovLogical :: "checkovDefinition \<Rightarrow> string \<Rightarrow> string \<Rightarrow> string list \<times> string" where
  "translateCheckovLogical def filePattern policyID =
    (case logical_parts filePattern (if cdAnd def = [] then cdOr def else cdAnd def) of
       None \<Rightarrow> ([''false''],
               ''IMPORT_TODO: '' @ policyID @ '' has nested and/or deeper than 1 level '' @ em_dash @ '' manual review required'')
     | Some parts \<Rightarrow>
         ([JoinStrings (map fst parts) (if cdOr def \<noteq> [] then '' || '' else '' && '')],
          JoinStrings (filter (\<lambda>c. c \<noteq> []) (map snd parts)) ''; ''))"

definition checkovManifest :: "string \<Rightarrow> string \<Rightarrow> string \<Rightarrow> string \<Rightarrow> string \<Rightarrow> string \<Rightarrow> string \<Rightarrow> nixisManifest" where
  "checkovManifest ident name category cel action source originalID =
    (let cat = ToLower category;
         severity = (if Contains cat ''encryption'' \<or> Contains cat ''iam'' \<or> Contains cat ''secret'' then ''high'' else ''medium'')
     in template_manifest ident
          (origin source severity @ [(''nixis.io/checkov-id'', originalID), (''nixis.io/checkov-source'', ''checkov-custom-policy'')])
          name [''Write'', ''Edit''] cel (''Checkov policy '' @ originalID @ '': '' @ name) action)"

definition checkov_convert :: "checkovFile \<Rightarrow> string \<Rightarrow> converted" where
  "checkov_convert file source =
    (let ident = (if sanitizeID (ckID file) = [] then ''checkov-unknown'' else sanitizeID (ckID file));
         name = (if ckName file = [] then ckID file else ckName file);
         def = ckDefinition file;
         filePattern = checkovFilePattern (cdResourceTypes def)
     in if cdAnd def \<noteq> [] \<or> cdOr def \<noteq> [] then
          (let (cels, comment) = translateCheckovLogical def filePattern (ckID file)
           in (map (\<lambda>cel. checkovManifest ident name (ckCategory file) cel ''DENY'' source (ckID file)) cels, [comment]))
        else
          (let (cel, comment, action) = translateCheckovCondition def filePattern
           in ([checkovManifest ident name (ckCategory file) cel action source (ckID file)], [comment])))"

section \<open>Kyverno\<close>

record kyvernoResources =
  krKinds :: "string list"
  krOperations :: "string list"
  krNamespaces :: "string list"

record kyvernoRule =
  kuName :: string
  kuMatchAny :: "kyvernoResources list"
  kuMatchAll :: "kyvernoResources list"
  kuMessage :: string
  kuConditionsAny :: "string list"
  kuConditionsAll :: "string list"
  kuMutate :: "(string \<times> yaml) list"
  kuGenerate :: "(string \<times> yaml) list"

record kyvernoPolicy =
  kpName :: string
  kpAnnotations :: "(string \<times> string) list"
  kpValidationFailureAction :: string
  kpRules :: "kyvernoRule list"

definition kindMap :: "(string \<times> string) list" where
  "kindMap =
    [
     (''Pod'', ''kubectl.*(delete'' @ [backslash, backslash] @ ''s+pod|exec|run)''),
     (''Deployment'', ''kubectl.*(delete'' @ [backslash, backslash] @ ''s+deployment|scale|rollout)''),
     (''Service'', ''kubectl.*(delete'' @ [backslash, backslash] @ ''s+service|expose)''),
     (''ConfigMap'', ''kubectl.*(delete'' @ [backslash, backslash] @ ''s+configmap|create'' @ [backslash, backslash] @ ''s+configmap)''),
     (''Secret'', ''kubectl.*(get'' @ [backslash, backslash] @ ''s+secret|create'' @ [backslash, backslash] @ ''s+secret)''),
     (''Namespace'', ''kubectl.*(delete'' @ [backslash, backslash] @ ''s+namespace|create'' @ [backslash, backslash] @ ''s+namespace)''),
     (''ClusterRole'', ''kubectl.*(create'' @ [backslash, backslash] @ ''s+clusterrole|delete'' @ [backslash, backslash] @ ''s+clusterrole)''),
     (''Node'', ''kubectl.*(drain|cordon|delete'' @ [backslash, backslash] @ ''s+node)''),
     (''PersistentVolume'', ''kubectl.*delete'' @ [backslash, backslash] @ ''s+pv'')]"

definition opPatterns :: "(string \<times> string) list" where
  "opPatterns = [(''DELETE'', ''kubectl.*delete.*''), (''CREATE'', ''kubectl.*(create|run|apply).*''), (''UPDATE'', ''kubectl.*(patch|edit|set).*'')]"

definition kyvernoKindToKubectlPattern :: "string \<Rightarrow> string list \<Rightarrow> string" where
  "kyvernoKindToKubectlPattern kind operations =
    (let parts = known_patterns opPatterns (map ToUpper operations) []
     in if parts \<noteq> [] then JoinStrings parts ''|''
        else case map_of kindMap kind of Some p \<Rightarrow> p | None \<Rightarrow> ''kubectl.*'')"

definition kyverno_annotations :: "string \<Rightarrow> string \<Rightarrow> string \<Rightarrow> (string \<times> string) list" where
  "kyverno_annotations source severity category =
     origin source severity @ (if category \<noteq> [] then [(''kyverno.io/category'', category)] else [])"

definition kyvernoImportTODO :: "string \<Rightarrow> string \<Rightarrow> string \<Rightarrow> string \<Rightarrow> string \<Rightarrow> string \<Rightarrow> nixisManifest \<times> string" where
  "kyvernoImportTODO ident reason description severity category source =
    (template_manifest ident (kyverno_annotations source severity category) description [] ''false''
       (''IMPORT_TODO: '' @ reason @ '' '' @ em_dash @ '' manual review required'') ''AUDIT'',
     ''IMPORT_TODO: '' @ reason)"

definition kyvernoSeverityToAction :: "string \<Rightarrow> string \<Rightarrow> string" where
  "kyvernoSeverityToAction severity baseAction = (let s = ToLower severity in
     if s = ''critical'' \<or> s = ''high'' then ''DENY''
     else if s = ''medium'' then (if baseAction = ''DENY'' then ''DENY'' else ''REQUIRE_APPROVAL'')
     else if s = ''low'' then ''AUDIT'' else baseAction)"

definition kyvernoValidationFailureActionToAction :: "string \<Rightarrow> string" where
  "kyvernoValidationFailureActionToAction vfa = (if ToLower vfa = ''enforce'' then ''DENY'' else ''AUDIT'')"

definition kyvernoHasJMESPath :: "string \<Rightarrow> bool" where
  "kyvernoHasJMESPath key \<longleftrightarrow> Contains key ''{{'' \<and> Contains key ''}}''"

definition annotation :: "(string \<times> string) list \<Rightarrow> string \<Rightarrow> string" where
  "annotation annots k = or_empty (map_of annots k)"

definition kyverno_description :: "kyvernoPolicy \<Rightarrow> string" where
  "kyverno_description pol =
    (let d = annotation (kpAnnotations pol) ''policies.kyverno.io/description'' in if d = [] then kpName pol else d)"

definition kyverno_kind :: "kyvernoPolicy \<Rightarrow> string \<Rightarrow> kyvernoRule \<Rightarrow> string list \<Rightarrow> string \<Rightarrow> nixisManifest \<times> string" where
  "kyverno_kind pol source rule ops kind =
    (let sev = annotation (kpAnnotations pol) ''policies.kyverno.io/severity'';
         description = kyverno_description pol;
         action = kyvernoSeverityToAction sev (kyvernoValidationFailureActionToAction (kpValidationFailureAction pol));
         hasJMESPath = list_ex kyvernoHasJMESPath (kuConditionsAny rule @ kuConditionsAll rule)
     in (template_manifest (''kyverno-'' @ sanitizeID (kpName pol) @ ''-'' @ sanitizeID (kuName rule) @ ''-'' @ sanitizeID kind)
           (kyverno_annotations source (normalizeSeverity sev) (annotation (kpAnnotations pol) ''policies.kyverno.io/category''))
           description [''Bash'']
           (''tool == '' @ Quote ''Bash'' @ '' && request.args.command.matches('' @ [dquote] @ ''(?i)'' @ kyvernoKindToKubectlPattern kind ops @ [dquote] @ '')'')
           (if kuMessage rule = [] then description else kuMessage rule) action,
         if hasJMESPath then
           ''IMPORT_TODO: JMESPath conditions in '' @ kpName pol @ ''/'' @ kuName rule @ '' could not be translated '' @ em_dash @
           '' kubectl pattern match generated as base condition only''
         else []))"

definition kyverno_rule :: "kyvernoPolicy \<Rightarrow> string \<Rightarrow> kyvernoRule \<Rightarrow> (nixisManifest \<times> string) list" where
  "kyverno_rule pol source rule =
    (let todo = (\<lambda>reason. [kyvernoImportTODO (''kyverno-'' @ sanitizeID (kpName pol) @ ''-'' @ sanitizeID (kuName rule)) reason
                   (kyverno_description pol) (normalizeSeverity (annotation (kpAnnotations pol) ''policies.kyverno.io/severity''))
                   (annotation (kpAnnotations pol) ''policies.kyverno.io/category'') source]);
         allResources = kuMatchAny rule @ kuMatchAll rule
     in if kuMutate rule \<noteq> [] then todo (''mutate rule '' @ em_dash @ '' Nixis does not mutate requests'')
        else if kuGenerate rule \<noteq> [] then todo (''generate rule '' @ em_dash @ '' Nixis does not generate resources'')
        else if allResources = [] then todo ''no match.any or match.all resources found''
        else concat (map (\<lambda>res. map (kyverno_kind pol source rule (krOperations res)) (filter (\<lambda>k. k \<noteq> []) (krKinds res))) allResources))"

definition kyverno_convert :: "kyvernoPolicy \<Rightarrow> string \<Rightarrow> converted" where
  "kyverno_convert pol source = unzip (concat (map (kyverno_rule pol source) (kpRules pol)))"

section \<open>OPA Gatekeeper\<close>

record opaConstraint =
  ocAPIVersion :: string
  ocKind :: string
  ocName :: string

record opaConstraintTemplate =
  otKind :: string
  otName :: string
  otAnnotations :: "(string \<times> string) list"
  otCRDKind :: string
  otTargets :: "(string \<times> string) list"

definition constraintToKubectl :: "(string \<times> string \<times> string) list" where
  "constraintToKubectl =
    [
     (''K8sNoPrivilegedContainers'', ''kubectl.*--privileged'', ''DENY''),
     (''K8sBlockWildcardIngress'', ''kubectl.*ingress.*'', ''REQUIRE_APPROVAL''),
     (''K8sRequiredLabels'', ''kubectl.*(create|apply).*'', ''AUDIT''),
     (''K8sContainerLimits'', ''kubectl.*(create|apply).*'', ''AUDIT''),
     (''K8sDisallowedTags'', ''kubectl.*image.*:latest'', ''DENY''),
     (''K8sNoAnonymousSubjectBindings'', ''kubectl.*clusterrolebinding.*'', ''DENY''),
     (''K8sBlockNodePort'', ''kubectl.*NodePort.*'', ''DENY''),
     (''K8sNoEnvVarSecrets'', ''kubectl.*secret.*env'', ''DENY''),
     (''K8sExternalIPs'', ''kubectl.*externalIPs.*'', ''DENY''),
     (''K8sHostFilesystem'', ''kubectl.*hostPath.*'', ''DENY''),
     (''K8sHostNetworkingPorts'', ''kubectl.*hostNetwork.*'', ''DENY''),
     (''K8sPSPAllowedUsers'', ''kubectl.*runAsUser.*0'', ''DENY''),
     (''K8sPSPCapabilities'', ''kubectl.*capabilities.*'', ''REQUIRE_APPROVAL''),
     (''K8sPSPForbiddenSysctls'', ''kubectl.*sysctl.*'', ''DENY''),
     (''K8sPSPHostNamespace'', ''kubectl.*hostPID.*|kubectl.*hostIPC.*'', ''DENY''),
     (''K8sPSPPrivilegedContainer'', ''kubectl.*privileged.*true'', ''DENY''),
     (''K8sPSPProcMount'', ''kubectl.*procMount.*'', ''DENY''),
     (''K8sPSPReadOnlyRootFilesystem'', ''kubectl.*(create|apply).*'', ''AUDIT''),
     (''K8sPSPSeccomp'', ''kubectl.*seccomp.*'', ''AUDIT''),
     (''K8sReplicaLimits'', ''kubectl.*replicas.*'', ''AUDIT''),
     (''K8sRequiredAnnotations'', ''kubectl.*(create|apply).*'', ''AUDIT''),
     (''K8sRequiredProbes'', ''kubectl.*(create|apply).*'', ''AUDIT''),
     (''K8sRestrictRoleBindings'', ''kubectl.*rolebinding.*cluster-admin'', ''DENY''),
     (''K8sUniqueServiceSelector'', ''kubectl.*(create|apply).*service'', ''AUDIT'')]"

definition regoPatternMappings :: "(string \<times> string) list" where
  "regoPatternMappings =
    [
     (''hostNetwork'', ''kubectl.*hostNetwork.*''),
     (''hostPID'', ''kubectl.*hostPID.*''),
     (''hostIPC'', ''kubectl.*hostIPC.*''),
     (''privileged'', ''kubectl.*privileged.*''),
     (''hostPath'', ''kubectl.*hostPath.*''),
     (''capabilities'', ''kubectl.*capabilities.*''),
     (''runAsUser'', ''kubectl.*runAsUser.*''),
     (''runAsNonRoot'', ''kubectl.*runAsNonRoot.*''),
     (''procMount'', ''kubectl.*procMount.*''),
     (''seccomp'', ''kubectl.*seccomp.*''),
     (''sysctl'', ''kubectl.*sysctl.*''),
     (''allowPrivilegeEscalation'', ''kubectl.*allowPrivilegeEscalation.*''),
     (''readOnlyRootFilesystem'', ''kubectl.*readOnlyRootFilesystem.*'')]"

definition translateOPAConstraint :: "string \<Rightarrow> string \<Rightarrow> string \<times> string \<times> string" where
  "translateOPAConstraint kind rego = (case map_of constraintToKubectl kind of
     Some (pattern, action) \<Rightarrow> (pattern, action, [])
   | None \<Rightarrow>
       (case (if rego = [] then [] else filter (\<lambda>(sub, _). Contains rego sub) regoPatternMappings) of
          (sub, pat) # _ \<Rightarrow> (pat, ''DENY'', ''Pattern inferred from Rego containing '' @ [CHR 0x27] @ sub @ [CHR 0x27])
        | [] \<Rightarrow> (''kubectl.*'', ''DENY'',
                 ''IMPORT_TODO: Unknown constraint kind '' @ [CHR 0x27] @ kind @ [CHR 0x27] @
                 '' - manual review required. Rego logic needs human translation.'')))"

definition gatekeeper_manifest :: "string \<Rightarrow> string \<Rightarrow> string \<Rightarrow> string \<Rightarrow> string \<Rightarrow> string \<Rightarrow> nixisManifest" where
  "gatekeeper_manifest name constraintKind description pattern action source =
     template_manifest (''gatekeeper-'' @ sanitizeID name)
       ([(''nixis.io/source'', ''open-policy-agent/gatekeeper-library''), (''nixis.io/original-kind'', constraintKind)] @ origin source ''high'')
       description [''Bash''] (matches_arg ''Bash'' ''command'' pattern) description action"

definition review :: "string \<Rightarrow> string" where
  "review comment = (if comment \<noteq> [] then [CHR 0x0A] @ ''MANUAL REVIEW: '' @ comment else [])"

definition convertOPAConstraintInstance :: "opaConstraint \<Rightarrow> string \<Rightarrow> converted" where
  "convertOPAConstraintInstance c sourcePath =
    (let (pattern, action, comment) = translateOPAConstraint (ocKind c) []
     in ([gatekeeper_manifest (ocName c) (ocKind c) (''OPA Gatekeeper constraint '' @ ocName c @ '' (kind: '' @ ocKind c @ '')'')
            pattern action (Base sourcePath)],
         [''IMPORTED FROM: open-policy-agent/gatekeeper-library'' @ [CHR 0x0A] @ ''CONSTRAINT: '' @ ocKind c @ review comment]))"

definition admission_rego :: "(string \<times> string) list \<Rightarrow> string" where
  "admission_rego targets = or_empty (map_of targets ''admission.k8s.gatekeeper.sh'')"

definition convertOPAConstraintTemplate :: "opaConstraintTemplate \<Rightarrow> string \<Rightarrow> converted" where
  "convertOPAConstraintTemplate ct sourcePath =
    (let constraintKind = (if otCRDKind ct = [] then otName ct else otCRDKind ct);
         d = annotation (otAnnotations ct) ''description'';
         description = (if d = [] then ''Imported from OPA Gatekeeper: '' @ constraintKind else d);
         rego = admission_rego (otTargets ct);
         (pattern, action, comment) = translateOPAConstraint constraintKind rego;
         regoPreview = ReplaceAll (if length rego > 200 then take 200 rego @ ''...'' else rego) [CHR 0x0A] '' ''
     in ([gatekeeper_manifest constraintKind constraintKind description pattern action (Base sourcePath)],
         [''IMPORTED FROM: open-policy-agent/gatekeeper-library'' @ [CHR 0x0A] @ ''CONSTRAINT: '' @ constraintKind @ [CHR 0x0A] @
          ''REGO LOGIC: '' @ regoPreview @ review comment]))"

end
