(* ===== verification/ImportSigma.thy ===== *)
theory ImportSigma
  imports ImportCheckov
begin

text \<open>
  The importers of detection rules, \<^verbatim>\<open>cmd/nixis/import.go\<close>: Sigma selections and conditions, and Falco conditions
  with their lists.  The order in which Go iterates over the map of translated selections and over the map of
  lists is a parameter.
\<close>

section \<open>Sigma\<close>

record sigmaRule =
  sgTitle :: string
  sgID :: string
  sgDescription :: string
  sgLevel :: string
  sgTags :: "string list"
  sgCategory :: string

definition sigmaToCELField :: "string \<Rightarrow> string" where
  "sigmaToCELField field = (let f = ToLower field in
     if f \<in> {''commandline'', ''command_line'', ''cmd''} then ''request.args.command''
     else if f \<in> {''targetfilename'', ''filepath'', ''filename'', ''path''} then ''request.args.file_path''
     else if f \<in> {''queryname'', ''query''} then ''request.args.query''
     else [])"

definition escapeStringForCEL :: "string \<Rightarrow> string" where
  "escapeStringForCEL s = ReplaceAll s [backslash] [backslash, backslash]"

definition buildSigmaFieldExpr :: "string \<Rightarrow> string \<Rightarrow> string \<Rightarrow> string" where
  "buildSigmaFieldExpr field val matchType =
    (let method = (if matchType = ''startswith'' then ''startsWith'' else if matchType = ''endswith'' then ''endsWith''
                   else if matchType = ''regex'' then ''matches'' else ''contains'')
     in field @ ''.'' @ method @ ''('' @ Quote (escapeStringForCEL val) @ '')'')"

definition extractSigmaValues :: "yaml \<Rightarrow> string list" where
  "extractSigmaValues val = (case val of
     YStr s \<Rightarrow> [s]
   | YSeq xs \<Rightarrow> concat (map (\<lambda>x. case x of YStr s \<Rightarrow> [s] | _ \<Rightarrow> []) xs)
   | _ \<Rightarrow> [])"

text \<open>The loop over the modifiers: the match type and whether all values must match, or the unsupported modifier.\<close>

fun sigma_modifiers :: "string list \<Rightarrow> string \<Rightarrow> bool \<Rightarrow> string + string \<times> bool" where
  "sigma_modifiers [] matchType matchAll = Inr (matchType, matchAll)"
| "sigma_modifiers (md # ms) matchType matchAll = (let m = ToLower md in
     if m = ''contains'' \<or> m = ''startswith'' \<or> m = ''endswith'' then sigma_modifiers ms m matchAll
     else if m = ''re'' then sigma_modifiers ms ''regex'' matchAll
     else if m = ''all'' then sigma_modifiers ms matchType True
     else if m \<in> {''base64offset'', ''windash'', ''wide'', ''base64'', ''cidr''} then Inl md
     else sigma_modifiers ms matchType matchAll)"

definition translateSigmaField :: "string \<Rightarrow> yaml \<Rightarrow> string \<times> string" where
  "translateSigmaField fieldModifier val =
    (let parts = Split fieldModifier CHR ''|''; fieldName = hd parts;
         celField = sigmaToCELField fieldName; values = extractSigmaValues val
     in if celField = [] then ([], ''IMPORT_TODO: field '' @ Quote fieldName @ '' cannot be mapped to Nixis context'')
        else if values = [] then ([], ''IMPORT_TODO: field '' @ Quote fieldName @ '' has no values'')
        else case sigma_modifiers (tl parts) ''contains'' False of
          Inl md \<Rightarrow> ([], ''IMPORT_TODO: modifier |'' @ md @ '' not supported'')
        | Inr (matchType, matchAll) \<Rightarrow>
            (let exprs = map (\<lambda>v. buildSigmaFieldExpr celField v matchType) values
             in (if matchAll \<or> length exprs = 1 then JoinStrings exprs '' && ''
                 else ''('' @ JoinStrings exprs '' || '' @ '')'', [])))"

definition nonempty :: "string list \<Rightarrow> string list" where
  "nonempty xs = filter (\<lambda>x. x \<noteq> []) xs"

definition translateSigmaSelection :: "string \<Rightarrow> yaml \<Rightarrow> string \<times> string" where
  "translateSigmaSelection name val = (case val of
     YMap valMap \<Rightarrow>
       (let fields = map (\<lambda>(fm, fv). translateSigmaField fm fv) valMap;
            conditions = nonempty (map fst fields);
            comments = nonempty (map snd fields)
        in (if conditions = [] then ''true'' else JoinStrings conditions '' && '', JoinStrings comments ''; ''))
   | _ \<Rightarrow> (''true'', ''IMPORT_TODO: selection '' @ Quote name @ '' has unsupported format''))"

type_synonym selections = "(string \<times> string) list"

text \<open>The translated selections a quantified condition names, without those that test nothing.\<close>

definition quantified :: "(selections \<Rightarrow> selections) \<Rightarrow> string \<Rightarrow> selections \<Rightarrow> string list" where
  "quantified ord pattern sels =
    (let p = TrimSpace pattern in
     map snd (filter (\<lambda>(name, cel). (p = ''them'' \<or> p = ''*'' \<or> HasPrefix name (TrimSuffix p ''*'')) \<and> cel \<noteq> [] \<and> cel \<noteq> ''true'')
       (ord sels)))"

definition nothing_quantified :: "string \<Rightarrow> string \<Rightarrow> string" where
  "nothing_quantified quantifier pattern =
    (let p = TrimSpace pattern in
     if p = ''them'' \<or> p = ''*'' then ''IMPORT_TODO: no valid selections for '' @ [CHR 0x27] @ quantifier @ '' of them'' @ [CHR 0x27]
     else ''IMPORT_TODO: no selections match pattern '' @ Quote p)"

definition buildSigmaOneOf :: "(selections \<Rightarrow> selections) \<Rightarrow> string \<Rightarrow> selections \<Rightarrow> string \<times> string" where
  "buildSigmaOneOf ord pattern sels =
    (let cels = quantified ord pattern sels
     in if cels = [] then (''true'', nothing_quantified ''1'' pattern) else (''('' @ JoinStrings cels '' || '' @ '')'', []))"

definition buildSigmaAllOf :: "(selections \<Rightarrow> selections) \<Rightarrow> string \<Rightarrow> selections \<Rightarrow> string \<times> string" where
  "buildSigmaAllOf ord pattern sels =
    (let cels = quantified ord pattern sels
     in if cels = [] then (''true'', nothing_quantified ''all'' pattern) else (JoinStrings cels '' && '', []))"

definition sigma_and_part :: "selections \<Rightarrow> string \<Rightarrow> string list" where
  "sigma_and_part sels part =
    (let p = TrimSpace part in
     if HasPrefix p ''not '' then
       (case map_of sels (TrimPrefix p ''not '') of Some sel \<Rightarrow> [''!('' @ sel @ '')''] | None \<Rightarrow> [])
     else case map_of sels p of Some sel \<Rightarrow> [sel] | None \<Rightarrow> [])"

definition sigma_or_part :: "selections \<Rightarrow> string \<Rightarrow> string list" where
  "sigma_or_part sels part = (case map_of sels (TrimSpace part) of Some sel \<Rightarrow> [sel] | None \<Rightarrow> [])"

text \<open>The three attempts at a compound condition, in order.\<close>

definition sigma_and_not :: "selections \<Rightarrow> string \<Rightarrow> string option" where
  "sigma_and_not sels condition =
    (if Contains condition '' and not '' then
       (case SplitN condition '' and not '' 2 of
          [a, b] \<Rightarrow>
            (case (map_of sels (TrimSpace a), map_of sels (TrimSpace b)) of
               (Some selCEL, Some filterCEL) \<Rightarrow> Some (''('' @ selCEL @ '') && !('' @ filterCEL @ '')'')
             | _ \<Rightarrow> None)
        | _ \<Rightarrow> None)
     else None)"

definition sigma_and :: "selections \<Rightarrow> string \<Rightarrow> string option" where
  "sigma_and sels condition =
    (let cels = concat (map (sigma_and_part sels) (SplitOn condition '' and ''))
     in if Contains condition '' and '' \<and> cels \<noteq> [] then Some (JoinStrings cels '' && '') else None)"

definition sigma_or :: "selections \<Rightarrow> string \<Rightarrow> string option" where
  "sigma_or sels condition =
    (let cels = concat (map (sigma_or_part sels) (SplitOn condition '' or ''))
     in if Contains condition '' or '' \<and> cels \<noteq> [] then Some (''('' @ JoinStrings cels '' || '' @ '')'') else None)"

definition translateSigmaCondition :: "(selections \<Rightarrow> selections) \<Rightarrow> string \<Rightarrow> selections \<Rightarrow> string \<times> string" where
  "translateSigmaCondition ord condition0 sels =
    (let condition = TrimSpace condition0 in
     case map_of sels condition of
       Some sel \<Rightarrow> (sel, [])
     | None \<Rightarrow>
         if HasPrefix condition ''1 of '' then buildSigmaOneOf ord (TrimPrefix condition ''1 of '') sels
         else if HasPrefix condition ''all of '' then buildSigmaAllOf ord (TrimPrefix condition ''all of '') sels
         else case sigma_and_not sels condition of
           Some cel \<Rightarrow> (cel, [])
         | None \<Rightarrow>
             (case sigma_and sels condition of
                Some cel \<Rightarrow> (cel, [])
              | None \<Rightarrow>
                  (case sigma_or sels condition of
                     Some cel \<Rightarrow> (cel, [])
                   | None \<Rightarrow> (''true'', ''IMPORT_TODO: complex condition '' @ Quote condition @ '' requires manual translation''))))"

definition sigma_selections :: "(string \<times> yaml) list \<Rightarrow> (string \<times> string \<times> string) list" where
  "sigma_selections detection =
     map (\<lambda>(key, val). (key, translateSigmaSelection key val))
       (filter (\<lambda>(key, _). key \<noteq> ''condition'' \<and> key \<noteq> ''timeframe'') detection)"

definition translateSigmaDetection ::
    "(selections \<Rightarrow> selections) \<Rightarrow> (string \<times> yaml) list \<Rightarrow> string \<Rightarrow> string \<times> string" where
  "translateSigmaDetection ord detection condition =
    (let sels = sigma_selections detection;
         (resultCEL, condComment) = translateSigmaCondition ord condition (map (\<lambda>(k, cel, _). (k, cel)) sels)
     in (resultCEL, JoinStrings (nonempty (map (\<lambda>(_, _, c). c) sels @ [condComment])) ''; ''))"

definition sigmaLevelToAction :: "string \<Rightarrow> string" where
  "sigmaLevelToAction level = (let l = ToLower level in
     if l = ''critical'' \<or> l = ''high'' then ''DENY'' else if l = ''medium'' then ''REQUIRE_APPROVAL'' else ''AUDIT'')"

definition sigmaLevelToSeverity :: "string \<Rightarrow> string" where
  "sigmaLevelToSeverity level = (let l = ToLower level in
     if l = ''critical'' then ''critical'' else if l = ''high'' then ''high'' else if l = ''medium'' then ''medium'' else ''low'')"

definition sigmaLogsourceToTools :: "string \<Rightarrow> string list" where
  "sigmaLogsourceToTools category = (let c = ToLower category in
     if c = ''process_creation'' then [''Bash'']
     else if c \<in> {''file_event'', ''file_access'', ''file_delete'', ''file_rename'', ''file_change''} then [''Read'', ''Write'', ''Edit'']
     else if c \<in> {''network_connection'', ''dns_query'', ''firewall''} then [''Bash'']
     else [])"

definition sigma_id :: "sigmaRule \<Rightarrow> string \<Rightarrow> string" where
  "sigma_id rule source =
    (if sanitizeID (sgID rule) \<noteq> [] then sanitizeID (sgID rule)
     else if sanitizeID (sgTitle rule) \<noteq> [] then sanitizeID (sgTitle rule)
     else ''sigma-'' @ sanitizeID source)"

definition sigma_manifest :: "sigmaRule \<Rightarrow> string \<Rightarrow> string \<Rightarrow> nixisManifest" where
  "sigma_manifest rule cel source =
     template_manifest (sigma_id rule source)
       (origin source (sigmaLevelToSeverity (sgLevel rule)) @ [(''nixis.io/source-format'', ''sigma'')] @
        (if sgID rule \<noteq> [] then [(''nixis.io/sigma-id'', sgID rule)] else []) @
        (if sgTags rule \<noteq> [] then [(''nixis.io/sigma-tags'', JoinStrings (sgTags rule) '','')] else []))
       (if sgDescription rule = [] then sgTitle rule else sgDescription rule)
       (sigmaLogsourceToTools (sgCategory rule)) cel (''Sigma: '' @ sgTitle rule) (sigmaLevelToAction (sgLevel rule))"

definition sigma_convert ::
    "(selections \<Rightarrow> selections) \<Rightarrow> sigmaRule \<Rightarrow> (string \<times> yaml) list \<Rightarrow> string \<Rightarrow> ImportError + converted" where
  "sigma_convert ord rule detectionRaw source =
    (let condition = or_empty (as_string (map_of detectionRaw ''condition''))
     in if condition = [] then Inl MissingCondition
        else let (cel, comment) = translateSigmaDetection ord detectionRaw condition
             in Inr ([sigma_manifest rule cel source], [comment]))"

end
