(* ===== verification/ImportFalco.thy ===== *)
theory ImportFalco
  imports Importer Regex
begin

text \<open>
  The Falco importer, \<^verbatim>\<open>cmd/nixis/import.go\<close>: the items of the YAML sequence are sorted into rules, macros and
  lists, list names in a condition are replaced by their items, and the first known pattern of the condition
  becomes an expression.  Case-insensitive matching and the letters of a replacement template are ASCII.
\<close>

section \<open>Items\<close>

record falcoItem =
  fiRule :: string
  fiMacro :: string
  fiList :: string

record falcoRule =
  frRule :: string
  frDesc :: string
  frCondition :: string
  frOutput :: string
  frPriority :: string
  frTags :: "string list"
  frEnabled :: "bool option"

record falcoMacro =
  fmMacro :: string
  fmCondition :: string

record falcoList =
  flList :: string
  flItems :: "string list"

record falcoFile =
  ffRules :: "falcoRule list"
  ffMacros :: "falcoMacro list"
  ffLists :: "falcoList list"

definition string_at :: "(string \<times> yaml) list \<Rightarrow> string \<Rightarrow> string" where
  "string_at item k = or_empty (as_string (map_of item k))"

definition strings_at :: "(string \<times> yaml) list \<Rightarrow> string \<Rightarrow> string list" where
  "strings_at item k = (case as_seq (map_of item k) of
     Some xs \<Rightarrow> concat (map (\<lambda>x. case x of YStr s \<Rightarrow> [s] | _ \<Rightarrow> []) xs)
   | None \<Rightarrow> [])"

definition falco_item :: "falcoFile \<Rightarrow> (string \<times> yaml) list \<Rightarrow> falcoFile" where
  "falco_item ff item =
    (if string_at item ''rule'' \<noteq> [] then
       ff\<lparr>ffRules := ffRules ff @ [\<lparr>frRule = string_at item ''rule'', frDesc = string_at item ''desc'',
            frCondition = string_at item ''condition'', frOutput = string_at item ''output'', frPriority = string_at item ''priority'',
            frTags = strings_at item ''tags'',
            frEnabled = (case map_of item ''enabled'' of Some (YBool b) \<Rightarrow> Some b | _ \<Rightarrow> None)\<rparr>]\<rparr>
     else if string_at item ''macro'' \<noteq> [] then
       ff\<lparr>ffMacros := ffMacros ff @ [\<lparr>fmMacro = string_at item ''macro'', fmCondition = string_at item ''condition''\<rparr>]\<rparr>
     else if string_at item ''list'' \<noteq> [] then
       ff\<lparr>ffLists := ffLists ff @ [\<lparr>flList = string_at item ''list'', flItems = strings_at item ''items''\<rparr>]\<rparr>
     else ff)"

definition parseFalcoFile :: "(string \<times> yaml) list list \<Rightarrow> falcoFile" where
  "parseFalcoFile raw = foldl falco_item \<lparr>ffRules = [], ffMacros = [], ffLists = []\<rparr> raw"

type_synonym falco_lists = "(string \<times> string list) list"

definition falcoLookupTables :: "falcoFile \<Rightarrow> (string \<times> string) list \<times> falco_lists" where
  "falcoLookupTables ff =
    (foldl (\<lambda>m x. AList.update (fmMacro x) (fmCondition x) m) [] (ffMacros ff),
     foldl (\<lambda>m x. AList.update (flList x) (flItems x) m) [] (ffLists ff))"

section \<open>List references\<close>

text \<open>\<^verbatim>\<open>Regexp.Expand\<close> for an expression without groups: \<^verbatim>\<open>$0\<close> is the match, any other name is empty.\<close>

definition template_name :: "string \<Rightarrow> (string \<times> string) option" where
  "template_name t =
    (let brace = (t \<noteq> [] \<and> hd t = CHR ''{''); u = (if brace then tl t else t);
         name = takeWhile is_word_byte u; rest = dropWhile is_word_byte u
     in if name = [] then None
        else if \<not> brace then Some (name, rest)
        else if rest \<noteq> [] \<and> hd rest = CHR ''}'' then Some (name, tl rest) else None)"

lemma length_dropWhile_Suc: "length (dropWhile P u) < Suc (length u)"
  using length_dropWhile_le [of P u] by linarith

lemma template_name_shorter: "template_name t = Some (name, rest) \<Longrightarrow> length rest < Suc (length t)"
proof -
  assume "template_name t = Some (name, rest)"
  then have "length rest \<le> length (dropWhile is_word_byte (tl t)) \<or> length rest \<le> length (dropWhile is_word_byte t)"
    by (auto simp: template_name_def Let_def split: if_splits)
  then show ?thesis
    using length_dropWhile_le [of is_word_byte "tl t"] length_dropWhile_le [of is_word_byte t] by auto
qed

function expand_template :: "string \<Rightarrow> string \<Rightarrow> string" where
  "expand_template m [] = []"
| "expand_template m (c # t) =
    (if c \<noteq> CHR ''$'' then c # expand_template m t
     else if t \<noteq> [] \<and> hd t = CHR ''$'' then CHR ''$'' # expand_template m (tl t)
     else case template_name t of
       None \<Rightarrow> CHR ''$'' # expand_template m t
     | Some (name, rest) \<Rightarrow> (if name = ''0'' then m else []) @ expand_template m rest)"
  by pat_completeness auto
termination by (relation "measure (\<lambda>(m, t). length t)") (auto dest: template_name_shorter)

text \<open>\<^verbatim>\<open>ReplaceAllString\<close> of the quoted name between word boundaries.\<close>

fun replace_word :: "string \<Rightarrow> string \<Rightarrow> string \<Rightarrow> string \<Rightarrow> string" where
  "replace_word name repl pre [] = []"
| "replace_word name repl pre (c # s) =
    (if word_edge pre (c # s) \<and> HasPrefix (c # s) name \<and> word_edge (rev name @ pre) (drop (length name) (c # s))
     then expand_template name repl @ replace_word name repl (rev name @ pre) (drop (length name - 1) s)
     else c # replace_word name repl (c # pre) s)"

definition resolve_list :: "string \<Rightarrow> string \<times> string list \<Rightarrow> string" where
  "resolve_list condition l =
    (if snd l = [] then condition
     else replace_word (fst l) (JoinStrings (snd l) '', '') []
            (ReplaceAll condition (''('' @ fst l @ '')'') (''('' @ JoinStrings (snd l) '', '' @ '')'')))"

definition falcoResolveListRefs :: "(falco_lists \<Rightarrow> falco_lists) \<Rightarrow> string \<Rightarrow> falco_lists \<Rightarrow> string" where
  "falcoResolveListRefs ord condition tabs = foldl resolve_list condition (ord tabs)"

section \<open>Conditions\<close>

text \<open>The leftmost position at which a matcher succeeds.\<close>

fun find_first :: "(string \<Rightarrow> string \<Rightarrow> 'a option) \<Rightarrow> string \<Rightarrow> string \<Rightarrow> 'a option" where
  "find_first m pre [] = m pre []"
| "find_first m pre (c # s) = (case m pre (c # s) of Some x \<Rightarrow> Some x | None \<Rightarrow> find_first m (c # pre) s)"

definition ci_prefix :: "string \<Rightarrow> string \<Rightarrow> string option" where
  "ci_prefix lit s = (if HasPrefix (ToLower s) lit then Some (drop (length lit) s) else None)"

definition spaces1 :: "string \<Rightarrow> string option" where
  "spaces1 s = (if s \<noteq> [] \<and> is_re_space (hd s) then Some (re_skip s) else None)"

text \<open>A non-empty run of other bytes between an opening and a closing byte.\<close>

definition enclosed :: "char \<Rightarrow> char \<Rightarrow> string \<Rightarrow> string option" where
  "enclosed opening closing s =
    (if s \<noteq> [] \<and> hd s = opening then
       (let v = takeWhile (\<lambda>c. c \<noteq> closing) (tl s)
        in if v \<noteq> [] \<and> dropWhile (\<lambda>c. c \<noteq> closing) (tl s) \<noteq> [] then Some v else None)
     else None)"

definition field_word :: "string \<Rightarrow> string \<Rightarrow> char \<Rightarrow> char \<Rightarrow> string \<Rightarrow> string \<Rightarrow> string option" where
  "field_word field keyword opening closing pre s =
    (if word_edge pre s
     then Option.bind (ci_prefix field s) (\<lambda>s. Option.bind (spaces1 s) (\<lambda>s. Option.bind (ci_prefix keyword s) (\<lambda>s.
            Option.bind (spaces1 s) (enclosed opening closing))))
     else None)"

definition find_field :: "string \<Rightarrow> string \<Rightarrow> char \<Rightarrow> char \<Rightarrow> string \<Rightarrow> string option" where
  "find_field field keyword opening closing s = find_first (field_word field keyword opening closing) [] s"

definition falcoCmdlineContains :: "string \<Rightarrow> string option" where
  "falcoCmdlineContains = find_field ''proc.cmdline'' ''contains'' dquote dquote"

definition falcoCmdlineStartswith :: "string \<Rightarrow> string option" where
  "falcoCmdlineStartswith = find_field ''proc.cmdline'' ''startswith'' dquote dquote"

definition falcoProcNameIn :: "string \<Rightarrow> string option" where
  "falcoProcNameIn = find_field ''proc.name'' ''in'' CHR ''('' CHR '')''"

definition falcoFdNameStartswith :: "string \<Rightarrow> string option" where
  "falcoFdNameStartswith = find_field ''fd.name'' ''startswith'' dquote dquote"

definition falcoFdNameContains :: "string \<Rightarrow> string option" where
  "falcoFdNameContains = find_field ''fd.name'' ''contains'' dquote dquote"

definition execve_at :: "string \<Rightarrow> string \<Rightarrow> unit option" where
  "execve_at pre s =
    (if word_edge pre s
     then Option.bind (ci_prefix ''evt.type'' s) (\<lambda>s. Option.bind (ci_prefix ''='' (re_skip s)) (\<lambda>s.
            let t = re_skip s in Option.bind (ci_prefix ''execve'' t) (\<lambda>r.
              if word_edge ''e'' r then Some () else None)))
     else None)"

definition falcoEvtTypeExecve :: "string \<Rightarrow> bool" where
  "falcoEvtTypeExecve s \<longleftrightarrow> find_first execve_at [] s \<noteq> None"

definition truncate_at :: "string \<Rightarrow> nat \<Rightarrow> string" where
  "truncate_at s n = (if length s \<le> n then s else take n s @ ''...'')"

definition splitFalcoList :: "string \<Rightarrow> string list" where
  "splitFalcoList s = filter (\<lambda>p. p \<noteq> []) (map TrimSpace (Split s CHR '',''))"

definition falco_command :: "string \<Rightarrow> string \<Rightarrow> string" where
  "falco_command method arg = ''tool == '' @ Quote ''Bash'' @ '' && request.args.command.'' @ method @ ''('' @ Quote arg @ '')''"

definition file_path :: "string \<Rightarrow> string \<Rightarrow> string" where
  "file_path method arg = file_tools @ '' && request.args.path.'' @ method @ ''('' @ Quote arg @ '')''"

definition process_list :: "string \<Rightarrow> string option" where
  "process_list condition = (case falcoProcNameIn condition of
     None \<Rightarrow> None
   | Some items \<Rightarrow>
       (if splitFalcoList items = [] then None
        else Some (''(?i)'' @ [backslash] @ ''b('' @ JoinStrings (splitFalcoList items) ''|'' @ '')'' @ [backslash] @ ''b'')))"

definition falcoTranslateCondition ::
    "(falco_lists \<Rightarrow> falco_lists) \<Rightarrow> string \<Rightarrow> falco_lists \<Rightarrow> string \<times> string" where
  "falcoTranslateCondition ord condition0 tabs =
    (let condition = falcoResolveListRefs ord (TrimSpace condition0) tabs in
     case falcoCmdlineContains condition of Some v \<Rightarrow> (falco_command ''contains'' v, [])
   | None \<Rightarrow>
     (case falcoCmdlineStartswith condition of Some v \<Rightarrow> (falco_command ''startsWith'' v, [])
   | None \<Rightarrow>
     (case process_list condition of Some pattern \<Rightarrow> (falco_command ''matches'' pattern, [])
   | None \<Rightarrow>
     (case falcoFdNameStartswith condition of Some v \<Rightarrow> (file_path ''startsWith'' v, [])
   | None \<Rightarrow>
     (case falcoFdNameContains condition of Some v \<Rightarrow> (file_path ''contains'' v, [])
   | None \<Rightarrow>
       if falcoEvtTypeExecve condition then (''tool == '' @ Quote ''Bash'', [])
       else (''false'',
             ''IMPORT_TODO: Falco condition uses kernel or macro fields that cannot be automatically translated '' @ em_dash @
             '' manual review required. Original condition: '' @ truncate_at condition 120))))))"

section \<open>Rules\<close>

definition falcoPriorityToAction :: "string \<Rightarrow> string" where
  "falcoPriorityToAction priority = (let p = ToUpper priority in
     if p \<in> {''EMERGENCY'', ''ALERT'', ''CRITICAL'', ''ERROR''} then ''DENY''
     else if p \<in> {''WARNING'', ''NOTICE''} then ''REQUIRE_APPROVAL'' else ''AUDIT'')"

definition falcoPriorityToSeverity :: "string \<Rightarrow> string" where
  "falcoPriorityToSeverity priority = (let p = ToUpper priority in
     if p \<in> {''EMERGENCY'', ''ALERT'', ''CRITICAL''} then ''critical'' else if p = ''ERROR'' then ''high''
     else if p = ''WARNING'' then ''medium'' else ''low'')"

fun falcoTagsToTools :: "string list \<Rightarrow> string list" where
  "falcoTagsToTools [] = []"
| "falcoTagsToTools (tag # tags) =
    (if Contains tag ''filesystem'' then [''Read'', ''Write'', ''Edit'']
     else if Contains tag ''network'' then [''Bash'']
     else if Contains tag ''process'' then [''Bash'']
     else falcoTagsToTools tags)"

definition falco_manifest :: "(falco_lists \<Rightarrow> falco_lists) \<Rightarrow> falco_lists \<Rightarrow> string \<Rightarrow> falcoRule \<Rightarrow> nixisManifest \<times> string" where
  "falco_manifest ord tabs source rule =
    (let (cel, comment) = falcoTranslateCondition ord (frCondition rule) tabs
     in (template_manifest (''falco-'' @ sanitizeID (frRule rule))
           (origin source (falcoPriorityToSeverity (frPriority rule)) @ [(''nixis.io/source-rule'', frRule rule)] @
            (if frTags rule \<noteq> [] then [(''nixis.io/falco-tags'', JoinStrings (frTags rule) '','')] else []))
           (if frDesc rule = [] then frRule rule else frDesc rule) (falcoTagsToTools (frTags rule)) cel
           (''Falco rule violated: '' @ frRule rule) (falcoPriorityToAction (frPriority rule)), comment))"

definition falco_convert :: "(falco_lists \<Rightarrow> falco_lists) \<Rightarrow> (string \<times> yaml) list list \<Rightarrow> string \<Rightarrow> converted" where
  "falco_convert ord raw source =
    (let ff = parseFalcoFile raw; (macros, tabs) = falcoLookupTables ff
     in unzip (map (falco_manifest ord tabs source) (filter (\<lambda>r. frEnabled r \<noteq> Some False) (ffRules ff))))"

end
