(* ===== verification/ImportFormats.thy ===== *)
theory ImportFormats
  imports ImportSigma ImportFalco
begin

text \<open>
  Format detection and conversion of a file, \<^verbatim>\<open>cmd/nixis/import.go\<close>: \<^verbatim>\<open>detectFormatWithName\<close> and \<^verbatim>\<open>convertFile\<close>, and
  what holds of every converted manifest: its shape, one comment per manifest, and a name that is safe as a file
  name in all formats but two.
\<close>

section \<open>Detection\<close>

text \<open>The fields the probe decodes.\<close>

record formatProbe =
  prLayerName :: string
  prVersion :: string
  prPolicies :: "(string \<times> string) list"
  prToolActions :: "string list"
  prDenyPath :: "string list"
  prDenyCommandPattern :: "string list"
  prDenyQueryPattern :: "string list"
  prAllowPath :: "string list"
  prMetadataID :: string
  prCondType :: string
  prAnd :: "yaml list"
  prOr :: "yaml list"
  prCategory :: string
  prProduct :: string
  prDetection :: "(string \<times> yaml) list"
  prAPIVersion :: string
  prKind :: string

record RuleLib = ImportLib +
  yamlProbe :: "string \<Rightarrow> formatProbe option"
  yamlFalcoItems :: "string \<Rightarrow> falcoItem list option"
  yamlFalcoRaw :: "string \<Rightarrow> (string \<times> yaml) list list option"
  yamlCheckov :: "string \<Rightarrow> checkovFile option"
  yamlSigma :: "string \<Rightarrow> sigmaRule option"
  yamlDetection :: "string \<Rightarrow> (string \<times> yaml) list option"
  yamlKyverno :: "string \<Rightarrow> kyvernoPolicy option"
  yamlConstraintTemplate :: "string \<Rightarrow> opaConstraintTemplate option"
  yamlConstraint :: "string \<Rightarrow> opaConstraint option"
  selectionOrder :: "selections \<Rightarrow> selections"
  listOrder :: "falco_lists \<Rightarrow> falco_lists"

definition has_deny :: "('a) ImportLib_scheme \<Rightarrow> string \<Rightarrow> bool" where
  "has_deny lib data = (case jsonSettings lib data of Some s \<Rightarrow> sjDeny s \<noteq> [] | None \<Rightarrow> False)"

definition is_falco :: "falcoItem list \<Rightarrow> bool" where
  "is_falco items \<longleftrightarrow> list_ex (\<lambda>i. fiRule i \<noteq> [] \<or> fiMacro i \<noteq> [] \<or> fiList i \<noteq> []) items"

definition probe_format :: "formatProbe \<Rightarrow> importFormat" where
  "probe_format p =
    (if HasPrefix (prMetadataID p) ''CKV'' \<and> (prCondType p \<noteq> [] \<or> prAnd p \<noteq> [] \<or> prOr p \<noteq> []) then formatCheckov
     else if prVersion p = ''2'' \<and> list_ex (\<lambda>a. a \<noteq> []) (prToolActions p) then formatAgentWall
     else if prDenyPath p \<noteq> [] \<or> prDenyCommandPattern p \<noteq> [] \<or> prDenyQueryPattern p \<noteq> [] \<or> prAllowPath p \<noteq> [] then formatMCPVisor
     else if prLayerName p \<noteq> [] \<and> list_ex (\<lambda>(rule, _). rule \<noteq> []) (prPolicies p) then formatPolicyLayer
     else if list_ex (\<lambda>(_, expression). expression \<noteq> []) (prPolicies p) then formatGeneric
     else if (prCategory p \<noteq> [] \<or> prProduct p \<noteq> []) \<and> map_of (prDetection p) ''condition'' \<noteq> None then formatSigma
     else if Contains (prAPIVersion p) ''kyverno.io'' \<and> (prKind p = ''ClusterPolicy'' \<or> prKind p = ''Policy'') then formatKyverno
     else if HasPrefix (prAPIVersion p) ''templates.gatekeeper.sh'' \<and> prKind p = ''ConstraintTemplate'' then formatOPAGatekeeper
     else formatUnknown)"

definition detectFormatWithName :: "('a) RuleLib_scheme \<Rightarrow> string \<Rightarrow> string \<Rightarrow> importFormat" where
  "detectFormatWithName lib filename data =
    (if ToLower (Base filename) = ''settings.json'' \<and> has_deny lib data then formatSettingsJSON
     else if has_deny lib data then formatSettingsJSON
     else if (case yamlFalcoItems lib data of Some items \<Rightarrow> is_falco items | None \<Rightarrow> False) then formatFalco
     else case yamlProbe lib data of None \<Rightarrow> formatUnknown | Some p \<Rightarrow> probe_format p)"

definition detectFormat :: "('a) RuleLib_scheme \<Rightarrow> string \<Rightarrow> importFormat" where
  "detectFormat lib data = detectFormatWithName lib [] data"

fun importFormatName :: "importFormat \<Rightarrow> string" where
  "importFormatName formatPolicyLayer = ''policy-layer''"
| "importFormatName formatGeneric = ''generic''"
| "importFormatName formatSettingsJSON = ''settings-json''"
| "importFormatName formatAgentWall = ''agentwall-v2''"
| "importFormatName formatMCPVisor = ''mcp-visor''"
| "importFormatName formatKyverno = ''kyverno''"
| "importFormatName formatSigma = ''sigma''"
| "importFormatName formatFalco = ''falco''"
| "importFormatName formatCheckov = ''checkov''"
| "importFormatName formatOPAGatekeeper = ''opa-gatekeeper''"
| "importFormatName formatUnknown = ''unknown''"

section \<open>Conversion\<close>

definition convertCheckov :: "('a) RuleLib_scheme \<Rightarrow> string \<Rightarrow> string \<Rightarrow> ImportError + converted" where
  "convertCheckov lib data sourcePath = (case yamlCheckov lib data of
     None \<Rightarrow> Inl (ParseError formatCheckov)
   | Some file \<Rightarrow> Inr (checkov_convert file (Base sourcePath)))"

definition convertSigma :: "('a) RuleLib_scheme \<Rightarrow> string \<Rightarrow> string \<Rightarrow> ImportError + converted" where
  "convertSigma lib data sourcePath = (case (yamlSigma lib data, yamlDetection lib data) of
     (Some rule, Some detection) \<Rightarrow> sigma_convert (selectionOrder lib) rule detection (Base sourcePath)
   | _ \<Rightarrow> Inl (ParseError formatSigma))"

definition convertKyverno :: "('a) RuleLib_scheme \<Rightarrow> string \<Rightarrow> string \<Rightarrow> ImportError + converted" where
  "convertKyverno lib data sourcePath = (case yamlKyverno lib data of
     None \<Rightarrow> Inl (ParseError formatKyverno)
   | Some pol \<Rightarrow> Inr (kyverno_convert pol (Base sourcePath)))"

definition convertFalco :: "('a) RuleLib_scheme \<Rightarrow> string \<Rightarrow> string \<Rightarrow> ImportError + converted" where
  "convertFalco lib data sourcePath = (case yamlFalcoRaw lib data of
     None \<Rightarrow> Inl (ParseError formatFalco)
   | Some raw \<Rightarrow> Inr (falco_convert (listOrder lib) raw (Base sourcePath)))"

definition convertOPAGatekeeper :: "('a) RuleLib_scheme \<Rightarrow> string \<Rightarrow> string \<Rightarrow> ImportError + converted" where
  "convertOPAGatekeeper lib data sourcePath =
    (let constraint = (case yamlConstraint lib data of
           Some c \<Rightarrow> if HasPrefix (ocAPIVersion c) ''constraints.gatekeeper.sh'' then Inr (convertOPAConstraintInstance c sourcePath)
                     else Inl (UnrecognizedGatekeeper (Base sourcePath))
         | None \<Rightarrow> Inl (UnrecognizedGatekeeper (Base sourcePath)))
     in case yamlConstraintTemplate lib data of
          Some ct \<Rightarrow> if otKind ct = ''ConstraintTemplate'' then Inr (convertOPAConstraintTemplate ct sourcePath) else constraint
        | None \<Rightarrow> constraint)"

definition convertFile :: "('a) RuleLib_scheme \<Rightarrow> string \<Rightarrow> string \<Rightarrow> ImportError + converted" where
  "convertFile lib data sourcePath = (case detectFormatWithName lib sourcePath data of
     formatPolicyLayer \<Rightarrow> convertPolicyLayer lib data sourcePath
   | formatGeneric \<Rightarrow> convertGeneric lib data sourcePath
   | formatSettingsJSON \<Rightarrow> convertSettingsJSON lib data sourcePath
   | formatAgentWall \<Rightarrow> convertAgentWall lib data sourcePath
   | formatMCPVisor \<Rightarrow> convertMCPVisor lib data sourcePath
   | formatCheckov \<Rightarrow> convertCheckov lib data sourcePath
   | formatSigma \<Rightarrow> convertSigma lib data sourcePath
   | formatKyverno \<Rightarrow> convertKyverno lib data sourcePath
   | formatFalco \<Rightarrow> convertFalco lib data sourcePath
   | formatOPAGatekeeper \<Rightarrow> convertOPAGatekeeper lib data sourcePath
   | formatUnknown \<Rightarrow> Inl (UnknownFormat (Base sourcePath)))"

section \<open>The shape of converted manifests\<close>

text \<open>A template with the loader's kind and version, one validation, and ALLOW as default action.\<close>

definition template_shaped :: "nixisManifest \<Rightarrow> bool" where
  "template_shaped m \<longleftrightarrow>
    nxAPIVersion m = ''nixis.io/v1'' \<and> nxKind m = ''PolicyTemplate'' \<and> length (nsValidations (nxSpec m)) = 1 \<and>
    nsDefaultAction (nxSpec m) = ''ALLOW''"

definition well_converted :: "(nixisManifest \<Rightarrow> bool) \<Rightarrow> ImportError + converted \<Rightarrow> bool" where
  "well_converted P r = (case r of
     Inl _ \<Rightarrow> True
   | Inr (ms, cs) \<Rightarrow> length cs = length ms \<and> (\<forall>m \<in> set ms. template_shaped m \<and> P m))"

lemma template_shaped_manifest [simp]: "template_shaped (template_manifest n a d t c msg act)"
  by (simp add: template_shaped_def template_manifest_def)

lemma name_template [simp]: "nmName (nxMetadata (template_manifest n a d t c msg act)) = n"
  by (simp add: template_manifest_def)

lemma well_Inl [simp]: "well_converted P (Inl e)"
  by (simp add: well_converted_def)

lemma well_unzip [simp]:
  "well_converted P (Inr (unzip ps)) \<longleftrightarrow> (\<forall>p \<in> set ps. template_shaped (fst p) \<and> P (fst p))"
  by (auto simp: well_converted_def unzip_def)

lemma well_aligned: "length cs = length ms \<Longrightarrow> well_converted P (Inr (ms, cs)) \<longleftrightarrow> (\<forall>m \<in> set ms. template_shaped m \<and> P m)"
  by (simp add: well_converted_def)

text \<open>Names made of lower case letters, digits and hyphens.\<close>

definition lower_id :: "char \<Rightarrow> bool" where
  "lower_id c \<longleftrightarrow> byte_in 97 122 c \<or> byte_in 48 57 c \<or> c = CHR ''-''"

definition id_name :: "string \<Rightarrow> bool" where
  "id_name n \<longleftrightarrow> n \<noteq> [] \<and> list_all lower_id n"

definition id_manifest :: "nixisManifest \<Rightarrow> bool" where
  "id_manifest m \<longleftrightarrow> id_name (nmName (nxMetadata m))"

lemma lower_id_lower: "id_char c \<Longrightarrow> lower_id (ascii_lower c)"
proof -
  assume "id_char c"
  then consider "byte_in 65 90 c" | "\<not> byte_in 65 90 c" "lower_id c" by (auto simp: id_char_def lower_id_def)
  then show ?thesis
  proof cases
    case 1
    then have "of_char (ascii_lower c) = (of_char c + 32 :: nat)" by (auto simp: byte_in_def ascii_lower_def Let_def)
    with 1 show ?thesis by (simp add: lower_id_def byte_in_def Let_def)
  next
    case 2
    then show ?thesis by (auto simp: ascii_lower_def byte_in_def Let_def)
  qed
qed

lemma sanitizeID_lower [simp]: "list_all lower_id (sanitizeID s)"
proof -
  have "id_char (sanitize_rune r)" for r by (auto simp: sanitize_rune_def id_char_def byte_in_def split: list.splits)
  then show ?thesis by (auto simp: sanitizeID_def ToLower_def list_all_iff lower_id_lower)
qed

lemma lower_id_literals [simp]:
  "lower_id CHR ''a'' \<and> lower_id CHR ''b'' \<and> lower_id CHR ''c'' \<and> lower_id CHR ''d'' \<and> lower_id CHR ''e'' \<and> lower_id CHR ''f'' \<and> lower_id CHR ''g'' \<and> lower_id CHR ''h'' \<and> lower_id CHR ''i''"
  "lower_id CHR ''j'' \<and> lower_id CHR ''k'' \<and> lower_id CHR ''l'' \<and> lower_id CHR ''m'' \<and> lower_id CHR ''n'' \<and> lower_id CHR ''o'' \<and> lower_id CHR ''p'' \<and> lower_id CHR ''q'' \<and> lower_id CHR ''r''"
  "lower_id CHR ''s'' \<and> lower_id CHR ''t'' \<and> lower_id CHR ''u'' \<and> lower_id CHR ''v'' \<and> lower_id CHR ''w'' \<and> lower_id CHR ''x'' \<and> lower_id CHR ''y'' \<and> lower_id CHR ''z''"
  "lower_id CHR ''0'' \<and> lower_id CHR ''1'' \<and> lower_id CHR ''2'' \<and> lower_id CHR ''3'' \<and> lower_id CHR ''4'' \<and> lower_id CHR ''5'' \<and> lower_id CHR ''6'' \<and> lower_id CHR ''7'' \<and> lower_id CHR ''8'' \<and> lower_id CHR ''9''"
  "lower_id CHR ''-''"
  by (simp_all add: lower_id_def byte_in_def)

lemma digit_lower: "n < 10 \<Longrightarrow> lower_id (char_of (48 + n :: nat))"
  by (simp add: lower_id_def byte_in_def Let_def)

lemma itoa_digits_lower: "list_all lower_id (itoa_digits n)"
proof (induction n rule: itoa_digits.induct)
  case (1 n)
  then show ?case by (subst itoa_digits.simps) (simp add: digit_lower)
qed

lemma pad3_lower [simp]: "list_all lower_id (pad3 n)"
proof -
  have "list_all lower_id (replicate k CHR ''0'')" for k by (simp add: list_all_iff)
  then show ?thesis by (simp add: pad3_def Let_def itoa_def itoa_digits_lower)
qed

lemma id_template: "id_manifest (template_manifest n a d t c msg act) \<longleftrightarrow> n \<noteq> [] \<and> list_all lower_id n"
  by (simp add: id_manifest_def id_name_def)

lemma settings_well: "well_converted id_manifest (convertSettingsJSON lib data src)"
  by (simp add: convertSettingsJSON_def settings_manifest_def id_template case_prod_unfold Let_def split: option.splits)

lemma agentWall_well: "well_converted id_manifest (convertAgentWall lib data src)"
proof -
  have f: "template_shaped (fst p) \<and> id_manifest (fst p)" if "p \<in> set (agentWall_field src tool param fd)" for p src tool param fd
    using that by (auto simp: agentWall_field_def Let_def case_prod_unfold id_template split: option.splits)
  have r: "template_shaped (fst p) \<and> id_manifest (fst p)" if "p \<in> set (agentWall_required src tool param y)" for p src tool param y
    using that by (auto simp: agentWall_required_def id_template split: option.splits)
  have p: "template_shaped (fst p) \<and> id_manifest (fst p)" if "p \<in> set (agentWall_param src tool param)" for p src tool param
    using that unfolding agentWall_param_def Let_def set_append set_concat set_map by (elim UnE UnionE imageE) (use f r in auto)
  have t: "template_shaped (fst p) \<and> id_manifest (fst p)" if "p \<in> set (agentWall_tool src tool)" for p src tool
  proof (cases "ToLower (atAction tool) = ''deny''")
    case True
    with that show ?thesis by (simp add: agentWall_tool_def agentWall_deny_def id_template)
  next
    case False
    with that obtain x where "p \<in> set (agentWall_param src tool x)" by (auto simp: agentWall_tool_def)
    then show ?thesis by (rule p)
  qed
  show ?thesis unfolding convertAgentWall_def by (simp split: option.splits) (use t in blast)
qed

lemma mcpVisor_rules_well: "list_all lower_id (c # p) \<Longrightarrow> m \<in> set (mcpVisor_rules cel (c # p) d a s src xs) \<Longrightarrow> template_shaped m \<and> id_manifest m"
  by (auto simp: mcpVisor_rules_def newMCPVisorManifest_def id_template)

lemma length_appendSkipComment [simp]: "length (appendSkipComment cs msg) = length cs"
  by (simp add: appendSkipComment_def)

lemma mcpVisor_well: "well_converted id_manifest (convertMCPVisor lib data src)"
  by (auto simp: convertMCPVisor_def Let_def well_aligned dest!: mcpVisor_rules_well [rotated] split: option.splits)

lemma checkov_well: "well_converted id_manifest (convertCheckov lib data src)"
  by (auto simp: convertCheckov_def checkov_convert_def translateCheckovLogical_def Let_def well_aligned checkovManifest_def id_template
      case_prod_unfold split: option.splits)

lemma sigma_well: "well_converted id_manifest (convertSigma lib data src)"
  by (auto simp: convertSigma_def sigma_convert_def sigma_manifest_def sigma_id_def Let_def well_aligned id_template case_prod_unfold split: option.splits)

lemma kyverno_well: "well_converted id_manifest (convertKyverno lib data src)"
  by (auto simp: convertKyverno_def kyverno_convert_def kyverno_rule_def kyverno_kind_def kyvernoImportTODO_def id_template Let_def
      split: option.splits if_splits)

lemma falco_well: "well_converted id_manifest (convertFalco lib data src)"
  by (simp add: convertFalco_def falco_convert_def falco_manifest_def id_template case_prod_unfold Let_def split: option.splits)

lemma gatekeeper_well: "well_converted id_manifest (convertOPAGatekeeper lib data src)"
  by (auto simp: convertOPAGatekeeper_def convertOPAConstraintInstance_def convertOPAConstraintTemplate_def gatekeeper_manifest_def
      id_template Let_def well_aligned case_prod_unfold split: option.splits)

lemma any_shape: "well_converted P r \<Longrightarrow> well_converted (\<lambda>_. True) r"
  by (auto simp: well_converted_def split: sum.splits)

lemma policyLayer_well: "well_converted (\<lambda>_. True) (convertPolicyLayer lib data src)"
  by (simp add: convertPolicyLayer_def policyLayer_manifest_def case_prod_unfold Let_def split: option.splits)

lemma generic_well: "well_converted (\<lambda>_. True) (convertGeneric lib data src)"
  by (simp add: convertGeneric_def generic_manifest_def Let_def split: option.splits)

lemmas id_formats = settings_well agentWall_well mcpVisor_well checkov_well sigma_well kyverno_well falco_well gatekeeper_well

lemma convertFile_id:
  "detectFormatWithName lib src data \<notin> {formatPolicyLayer, formatGeneric} \<Longrightarrow> well_converted id_manifest (convertFile lib data src)"
  by (cases "detectFormatWithName lib src data") (simp_all add: convertFile_def id_formats)

lemma convertFile_well: "well_converted (\<lambda>_. True) (convertFile lib data src)"
  by (cases "detectFormatWithName lib src data")
    (simp_all add: convertFile_def policyLayer_well generic_well id_formats [THEN any_shape])

text \<open>Whatever file is imported, each manifest has the kind and version the loader accepts, exactly one
  validation and the default action ALLOW, and there is one comment per manifest.\<close>

theorem converted_manifests_aligned:
  assumes "convertFile lib data src = Inr (ms, cs)"
  shows "length cs = length ms \<and> (\<forall>m \<in> set ms. template_shaped m)"
  using convertFile_well [of lib data src] assms by (simp add: well_converted_def)

end
