(* ===== verification/LlmTranslate.thy ===== *)
theory LlmTranslate
  imports ImportFormats CliSetup Bytes
begin

text \<open>
  LLM-assisted translation, \<^verbatim>\<open>cmd/nixis/llm_translate.go\<close> and \<^verbatim>\<open>applyLLMAssist\<close> of \<^verbatim>\<open>cmd/nixis/import.go\<close>: a snippet
  is sent to the model, the answer is parsed as CEL, a failure is sent back for repair a bounded number of times,
  and a success is cached on disk.  The network, the token command, the JSON codec of the cache, SHA-256 and the CEL
  parser are parameters; the network answers by the number of the call.
\<close>

section \<open>Data\<close>

record anthropicRequest =
  arModel :: string
  arMaxTokens :: nat
  arSystem :: string
  arMessages :: "(string \<times> string) list"
  arAnthropicVersion :: string

record apiCall =
  acEndpoint :: string
  acAuthKey :: string
  acAuthVal :: string
  acVersion :: string
  acBody :: anthropicRequest

record translationCacheEntry =
  teInputHash :: string
  teSourceFormat :: string
  teSourceSnippet :: string
  teCELExpression :: string
  teAttempts :: int
  teModel :: string
  teTranslatedAt :: gotime
  teCompileVerified :: bool

record LLMTranslator =
  trModel :: string
  trMaxRetries :: int
  trApiKey :: string
  trVertexProject :: string
  trVertexRegion :: string
  trCacheDir :: string

datatype HttpReply = NoReply | UnreadableReply | Reply nat string

datatype ApiError = TokenFailed | RequestFailed | ReadFailed | BadStatus nat string | BadReply | EmptyReply

datatype TranslateError = NoCredentials | CallFailed int ApiError | CompileFailed int string

record LlmLib =
  gcloudToken :: "nat \<Rightarrow> string option"
  httpDo :: "nat \<Rightarrow> apiCall \<Rightarrow> HttpReply"
  replyTexts :: "string \<Rightarrow> string list option"
  celParse :: "string \<Rightarrow> string option"
  sha256 :: "bytes \<Rightarrow> bytes"
  entryEncode :: "translationCacheEntry \<Rightarrow> string option"
  entryDecode :: "string \<Rightarrow> translationCacheEntry option"
  mkdirOK :: "string \<Rightarrow> bool"
  writeOK :: "string \<Rightarrow> bool"
  clockUTC :: "nat \<Rightarrow> gotime"

text \<open>The state: the number of API calls made and the files.\<close>

record llm_state =
  lsCalls :: nat
  lsFiles :: files

section \<open>The API call\<close>

definition anthropicURL :: string where "anthropicURL = ''https://api.anthropic.com/v1/messages''"

definition llmSystemPrompt :: string where
  "llmSystemPrompt = JoinStrings
    [''You are a policy translator for Nixis, a security governance system for AI agents.'',
     ''Convert the given policy snippet to a CEL (Common Expression Language) expression.'',
     [],
     ''Available CEL variables:'',
     ''- tool (string): the tool being called, e.g. '' @ [dquote] @ ''Bash'' @ [dquote] @ '', '' @ [dquote] @ ''Read'' @ [dquote] @ '', '' @ [dquote] @ ''Write'' @ [dquote] @ '', '' @ [dquote] @ ''WebFetch'' @ [dquote],
     ''- request.args (map<string, any>): tool arguments'',
     ''  - request.args.command (string): for Bash tool'',
     ''  - request.args.path (string): for Read/Write/Edit tools'',
     ''  - request.args.url (string): for WebFetch tool'',
     ''  - request.args.content (string): for Write/Edit tools'',
     ''- request.session_id (string): session identifier'',
     [],
     ''Available custom CEL functions:'',
     ''- bash.isGitForcePush(command string) bool'',
     ''- bash.isGitBranchDelete(command string) bool'',
     ''- bash.gitBranchTarget(command string) string'',
     [],
     ''CEL expression must evaluate to true when the policy should DENY/trigger.'',
     ''Return ONLY the CEL expression, no explanation, no markdown, no quotes.'',
     [],
     ''Examples:'',
     ''Input: '' @ [dquote] @ ''Block rm -rf commands'' @ [dquote],
     ''Output: tool == '' @ [dquote] @ ''Bash'' @ [dquote] @ '' && request.args.command.matches('' @ [dquote] @ ''rm'' @ [backslash, backslash] @ ''s+-rf'' @ [dquote] @ '')'',
     [],
     ''Input: '' @ [dquote] @ ''Block access to .env files'' @ [dquote],
     ''Output: (tool == '' @ [dquote] @ ''Read'' @ [dquote] @ '' || tool == '' @ [dquote] @ ''Write'' @ [dquote] @ '' || tool == '' @ [dquote] @ ''Edit'' @ [dquote] @ '') && request.args.path.matches('' @ [dquote] @ ''(?i)'' @ [backslash, backslash] @ ''.env$'' @ [dquote] @ '')'',
     [],
     ''Input: '' @ [dquote] @ ''Block force push to main branch'' @ [dquote],
     ''Output: tool == '' @ [dquote] @ ''Bash'' @ [dquote] @ '' && bash.isGitForcePush(request.args.command) && bash.gitBranchTarget(request.args.command).matches('' @ [dquote] @ ''(?i)^(main|master)$'' @ [dquote] @ '')''] [newline]"

definition vertexModelID :: "string \<Rightarrow> string" where
  "vertexModelID model =
    (let n = length model; suffix = drop (n - 8) model in
     if n > 9 \<and> list_all is_digit suffix \<and> model ! (n - 9) = CHR ''-'' then take (n - 9) model @ ''@'' @ suffix else model)"

definition truncateStr :: "string \<Rightarrow> nat \<Rightarrow> string" where
  "truncateStr s n = (if length s \<le> n then s else take n s @ ''...'')"

definition vertex_endpoint :: "LLMTranslator \<Rightarrow> string" where
  "vertex_endpoint t =
    (let region = (if trVertexRegion t = [] \<or> trVertexRegion t = ''global'' then ''us-east5'' else trVertexRegion t)
     in ''https://'' @ region @ ''-aiplatform.googleapis.com/v1/projects/'' @ trVertexProject t @ ''/locations/'' @ region @
        ''/publishers/anthropic/models/'' @ vertexModelID (trModel t) @ '':rawPredict'')"

definition api_request :: "string \<Rightarrow> string \<Rightarrow> string \<Rightarrow> anthropicRequest" where
  "api_request bodyModel ver userContent =
     \<lparr>arModel = bodyModel, arMaxTokens = 512, arSystem = llmSystemPrompt, arMessages = [(''user'', userContent)], arAnthropicVersion = ver\<rparr>"

definition build_call :: "LlmLib \<Rightarrow> LLMTranslator \<Rightarrow> nat \<Rightarrow> string \<Rightarrow> apiCall option" where
  "build_call lib t n userContent =
    (if trApiKey t \<noteq> [] then
       Some \<lparr>acEndpoint = anthropicURL, acAuthKey = ''x-api-key'', acAuthVal = trApiKey t, acVersion = ''2023-06-01'',
             acBody = api_request (trModel t) ''2023-06-01'' userContent\<rparr>
     else map_option (\<lambda>out.
             \<lparr>acEndpoint = vertex_endpoint t, acAuthKey = ''Authorization'', acAuthVal = ''Bearer '' @ TrimSpace out,
              acVersion = ''vertex-2023-10-16'', acBody = api_request [] ''vertex-2023-10-16'' userContent\<rparr>) (gcloudToken lib n))"

definition callAPI :: "LlmLib \<Rightarrow> LLMTranslator \<Rightarrow> nat \<Rightarrow> string \<Rightarrow> ApiError + string" where
  "callAPI lib t n userContent = (case build_call lib t n userContent of
     None \<Rightarrow> Inl TokenFailed
   | Some c \<Rightarrow>
       (case httpDo lib n c of
          NoReply \<Rightarrow> Inl RequestFailed
        | UnreadableReply \<Rightarrow> Inl ReadFailed
        | Reply status body \<Rightarrow>
            (if status \<noteq> 200 then Inl (BadStatus status (truncateStr body 200))
             else case replyTexts lib body of
               None \<Rightarrow> Inl BadReply
             | Some [] \<Rightarrow> Inl EmptyReply
             | Some (text # _) \<Rightarrow> if text = [] then Inl EmptyReply else Inr text)))"

section \<open>Validation and prompts\<close>

definition arg_ref :: "string \<Rightarrow> string" where
  "arg_ref field = ''args['' @ Quote field @ '']''"

definition normaliseCELExpr :: "string \<Rightarrow> string" where
  "normaliseCELExpr e0 =
    (let e1 = ReplaceAll e0 ''request.args.command'' (arg_ref ''command'');
         e2 = ReplaceAll e1 ''request.args.path'' (arg_ref ''path'');
         e3 = ReplaceAll e2 ''request.args.url'' (arg_ref ''url'');
         e4 = ReplaceAll e3 ''request.args.content'' (arg_ref ''content'');
         e5 = ReplaceAll e4 ''request.args.query'' (arg_ref ''query'');
         e6 = ReplaceAll e5 ''request.args'' ''args''
     in ReplaceAll e6 ''request.session_id'' ''session_id'')"

text \<open>\<^const>\<open>None\<close> is a valid expression.\<close>

definition validateExpression :: "LlmLib \<Rightarrow> string \<Rightarrow> string option" where
  "validateExpression lib expr = celParse lib (normaliseCELExpr expr)"

definition buildInitialPrompt :: "string \<Rightarrow> string \<Rightarrow> string" where
  "buildInitialPrompt snippet sourceFormat =
    (if sourceFormat \<noteq> [] then ''Source format: '' @ sourceFormat @ [newline] else []) @
    ''Policy snippet to translate:'' @ [newline] @ snippet"

definition buildRepairPrompt :: "string \<Rightarrow> string \<Rightarrow> string \<Rightarrow> string" where
  "buildRepairPrompt compileError failedExpr originalSnippet =
     ''The CEL expression you generated failed to compile with this error:'' @ [newline] @ compileError @ [newline, newline] @
     ''Failed expression:'' @ [newline] @ failedExpr @ [newline, newline] @
     ''Original policy to translate:'' @ [newline] @ originalSnippet @ [newline, newline] @
     ''Fix the CEL expression. Return ONLY the corrected CEL expression, no explanation.''"

section \<open>The cache\<close>

definition snippetHash :: "LlmLib \<Rightarrow> string \<Rightarrow> string \<Rightarrow> string" where
  "snippetHash lib snippet sourceFormat = hexEncode (sha256 lib (bytes_of sourceFormat @ [0] @ bytes_of snippet))"

definition cache_path :: "LLMTranslator \<Rightarrow> string \<Rightarrow> string" where
  "cache_path t hash = filepath_Join [trCacheDir t, hash @ ''.json'']"

definition loadCache :: "LlmLib \<Rightarrow> LLMTranslator \<Rightarrow> files \<Rightarrow> string \<Rightarrow> translationCacheEntry option" where
  "loadCache lib t fs hash = Option.bind (fs (cache_path t hash)) (entryDecode lib)"

definition saveCache :: "LlmLib \<Rightarrow> LLMTranslator \<Rightarrow> translationCacheEntry \<Rightarrow> files \<Rightarrow> files" where
  "saveCache lib t entry fs =
    (if \<not> mkdirOK lib (trCacheDir t) then fs
     else case entryEncode lib entry of
       None \<Rightarrow> fs
     | Some data \<Rightarrow>
         (let path = cache_path t (teInputHash entry) in if writeOK lib path then fs(path \<mapsto> data) else fs))"

section \<open>The repair loop\<close>

definition success_entry :: "LlmLib \<Rightarrow> LLMTranslator \<Rightarrow> string \<Rightarrow> string \<Rightarrow> string \<Rightarrow> int \<Rightarrow> nat \<Rightarrow> translationCacheEntry" where
  "success_entry lib t snippet sourceFormat expr attempt n =
     \<lparr>teInputHash = snippetHash lib snippet sourceFormat, teSourceFormat = sourceFormat, teSourceSnippet = snippet,
      teCELExpression = expr, teAttempts = attempt, teModel = trModel t, teTranslatedAt = clockUTC lib n, teCompileVerified = True\<rparr>"

text \<open>\<^verbatim>\<open>left\<close> attempts remain; the last failed expression and its error feed the next prompt.\<close>

fun repair_loop ::
    "LlmLib \<Rightarrow> LLMTranslator \<Rightarrow> string \<Rightarrow> string \<Rightarrow> nat \<Rightarrow> int \<Rightarrow> string \<Rightarrow> string \<Rightarrow> llm_state \<Rightarrow>
      (TranslateError + string \<times> int) \<times> llm_state" where
  "repair_loop lib t snippet sourceFormat 0 attempt lastExpr lastError st =
     (Inl (CompileFailed (trMaxRetries t) lastError), st)"
| "repair_loop lib t snippet sourceFormat (Suc left) attempt lastExpr lastError st =
    (let msgContent = (if attempt = 1 then buildInitialPrompt snippet sourceFormat
                       else buildRepairPrompt lastError lastExpr snippet);
         st' = st\<lparr>lsCalls := Suc (lsCalls st)\<rparr>
     in case callAPI lib t (lsCalls st) msgContent of
          Inl e \<Rightarrow> (Inl (CallFailed attempt e), st')
        | Inr raw \<Rightarrow>
            (let expr = TrimSpace raw
             in case validateExpression lib expr of
                  None \<Rightarrow> (Inr (expr, attempt),
                           st'\<lparr>lsFiles := saveCache lib t (success_entry lib t snippet sourceFormat expr attempt (lsCalls st)) (lsFiles st)\<rparr>)
                | Some err \<Rightarrow> repair_loop lib t snippet sourceFormat left (attempt + 1) expr err st'))"

definition Translate ::
    "LlmLib \<Rightarrow> LLMTranslator \<Rightarrow> string \<Rightarrow> string \<Rightarrow> llm_state \<Rightarrow> (TranslateError + string \<times> int) \<times> llm_state" where
  "Translate lib t snippet sourceFormat st =
    (if trApiKey t = [] \<and> trVertexProject t = [] then (Inl NoCredentials, st)
     else case loadCache lib t (lsFiles st) (snippetHash lib snippet sourceFormat) of
       Some entry \<Rightarrow> (Inr (teCELExpression entry, teAttempts entry), st)
     | None \<Rightarrow> repair_loop lib t snippet sourceFormat (nat (trMaxRetries t)) 1 [] [] st)"

definition NewLLMTranslator :: "string option \<Rightarrow> (string \<Rightarrow> string) \<Rightarrow> string \<Rightarrow> int \<Rightarrow> LLMTranslator" where
  "NewLLMTranslator userHome env model maxRetries =
     \<lparr>trModel = model, trMaxRetries = maxRetries, trApiKey = env ''ANTHROPIC_API_KEY'',
      trVertexProject = env ''ANTHROPIC_VERTEX_PROJECT_ID'', trVertexRegion = env ''CLOUD_ML_REGION'',
      trCacheDir = filepath_Join [case userHome of Some h \<Rightarrow> h | None \<Rightarrow> ''.'', ''.nixis'', ''import-cache'']\<rparr>"

section \<open>Assisted import\<close>

definition labelled :: "string \<Rightarrow> string \<Rightarrow> string" where
  "labelled key val = (if val \<noteq> [] then key @ val @ [newline] else [])"

definition buildLLMSnippet :: "nixisManifest \<Rightarrow> string \<Rightarrow> string \<Rightarrow> string" where
  "buildLLMSnippet m comment format = TrimSpace
    (labelled ''Policy name: '' (nmName (nxMetadata m)) @ labelled ''Description: '' (nsDescription (nxSpec m)) @
     labelled ''Source format: '' format @
     (case nsValidations (nxSpec m) of v # _ \<Rightarrow> labelled ''Original message: '' (nvMessage v) | [] \<Rightarrow> []) @
     labelled ''Translation note: '' comment)"

definition with_expression :: "string \<Rightarrow> nixisManifest \<Rightarrow> nixisManifest" where
  "with_expression cel m =
     m\<lparr>nxMetadata := (nxMetadata m)\<lparr>nmAnnotations := AList.update ''nixis.io/llm-confidence'' ''medium'' (nmAnnotations (nxMetadata m))\<rparr>,
       nxSpec := (nxSpec m)\<lparr>nsValidations := (hd (nsValidations (nxSpec m)))\<lparr>nvExpression := cel\<rparr> # tl (nsValidations (nxSpec m))\<rparr>\<rparr>"

definition review_comment :: "string \<Rightarrow> int \<Rightarrow> string" where
  "review_comment format attempts =
     ''IMPORT_REVIEW: LLM-translated from '' @ format @ '' '' @ em_dash @ '' verify semantics (attempts: '' @ int_literal attempts @ '')''"

definition assist_one ::
    "LlmLib \<Rightarrow> LLMTranslator \<Rightarrow> string \<Rightarrow> nixisManifest \<times> string \<Rightarrow> llm_state \<Rightarrow> (nixisManifest \<times> string) \<times> llm_state" where
  "assist_one lib t format mc st =
    (if \<not> Contains (snd mc) ''IMPORT_TODO'' \<or> nsValidations (nxSpec (fst mc)) = [] then (mc, st)
     else case Translate lib t (buildLLMSnippet (fst mc) (snd mc) format) format st of
       (Inl _, st') \<Rightarrow> (mc, st')
     | (Inr (cel_expr, attempts), st') \<Rightarrow> ((with_expression cel_expr (fst mc), review_comment format attempts), st'))"

fun assist_all ::
    "LlmLib \<Rightarrow> LLMTranslator \<Rightarrow> string \<Rightarrow> (nixisManifest \<times> string) list \<Rightarrow> llm_state \<Rightarrow> (nixisManifest \<times> string) list \<times> llm_state" where
  "assist_all lib t format [] st = ([], st)"
| "assist_all lib t format (mc # mcs) st =
    (let (mc', st') = assist_one lib t format mc st; (mcs', st'') = assist_all lib t format mcs st' in (mc' # mcs', st''))"

text \<open>The comments of a converted file are as many as its manifests.  \<^const>\<open>None\<close> as translator: the CEL environment could not be
  created.\<close>

definition applyLLMAssist ::
    "LlmLib \<Rightarrow> bool \<Rightarrow> LLMTranslator option \<Rightarrow> converted \<Rightarrow> string \<Rightarrow> llm_state \<Rightarrow> converted \<times> llm_state" where
  "applyLLMAssist lib importLLMAssist translator c format st = (case translator of
     Some t \<Rightarrow> if importLLMAssist
               then (let (ps, st') = assist_all lib t format (zip (fst c) (snd c)) st in (unzip ps, st'))
               else (c, st)
   | None \<Rightarrow> (c, st))"

section \<open>The number of calls and the result\<close>

lemma repair_loop_calls:
  "repair_loop lib t snippet fmt left attempt e err st = (r, st') \<Longrightarrow>
    lsCalls st \<le> lsCalls st' \<and> lsCalls st' \<le> lsCalls st + left"
proof (induction left arbitrary: attempt e err st)
  case (Suc left)
  from Suc.prems show ?case
    by (auto simp: Let_def split: sum.splits option.splits dest!: Suc.IH)
qed simp

lemma repair_loop_valid:
  "repair_loop lib t snippet fmt left attempt e err st = (Inr (expr, n), st') \<Longrightarrow>
    validateExpression lib expr = None \<and> attempt \<le> n \<and> n < attempt + int left \<and>
    (\<exists>k. lsFiles st' = saveCache lib t (success_entry lib t snippet fmt expr n k) (lsFiles st))"
proof (induction left arbitrary: attempt e err st)
  case (Suc left)
  from Suc.prems show ?case
    by (auto simp: Let_def split: sum.splits option.splits dest!: Suc.IH)
qed simp

lemma repair_loop_error_keeps:
  "repair_loop lib t snippet fmt left attempt e err st = (Inl x, st') \<Longrightarrow> lsFiles st' = lsFiles st"
proof (induction left arbitrary: attempt e err st)
  case (Suc left)
  from Suc.prems show ?case
    by (auto simp: Let_def split: sum.splits option.splits dest!: Suc.IH)
qed simp

lemma Translate_calls: "Translate lib t snippet fmt st = (r, st') \<Longrightarrow> lsCalls st' \<le> lsCalls st + nat (trMaxRetries t)"
  by (auto simp: Translate_def dest: repair_loop_calls split: if_splits option.splits)

lemma success_entry_simps [simp]:
  "teInputHash (success_entry lib t snippet fmt expr n k) = snippetHash lib snippet fmt"
  "teCELExpression (success_entry lib t snippet fmt expr n k) = expr"
  "teAttempts (success_entry lib t snippet fmt expr n k) = n"
  by (simp_all add: success_entry_def)

text \<open>An entry that is written is found again.\<close>

lemma load_saved:
  assumes "mkdirOK lib (trCacheDir t)" and "writeOK lib (cache_path t (teInputHash entry))"
    and "entryEncode lib entry = Some d" and "entryDecode lib d = Some entry"
  shows "loadCache lib t (saveCache lib t entry fs) (teInputHash entry) = Some entry"
  using assms by (simp add: loadCache_def saveCache_def Let_def)

text \<open>The cache directory can be written, an entry that was encoded is decoded to itself, and the entry of this
  translation can be encoded.\<close>

definition json_cache :: "LlmLib \<Rightarrow> LLMTranslator \<Rightarrow> bool" where
  "json_cache lib t \<longleftrightarrow> mkdirOK lib (trCacheDir t) \<and> (\<forall>path. writeOK lib path) \<and>
     (\<forall>x d. entryEncode lib x = Some d \<longrightarrow> entryDecode lib d = Some x)"

text \<open>A translation that succeeded, with at most the configured number of API calls and an expression the
  CEL parser accepts or an entry of the cache, is answered from the cache the next time: no API call, the same
  expression and the same number of attempts.\<close>

theorem translation_cached:
  assumes "Translate lib t snippet fmt st = (Inr (expr, n), st')" and "json_cache lib t"
    and "\<And>k. entryEncode lib (success_entry lib t snippet fmt expr n k) \<noteq> None"
  shows "lsCalls st' \<le> lsCalls st + nat (trMaxRetries t) \<and>
    (validateExpression lib expr = None \<or>
     (\<exists>entry. loadCache lib t (lsFiles st) (snippetHash lib snippet fmt) = Some entry \<and> teCELExpression entry = expr)) \<and>
    Translate lib t snippet fmt st' = (Inr (expr, n), st')"
proof (cases "loadCache lib t (lsFiles st) (snippetHash lib snippet fmt)")
  case (Some entry)
  with assms(1) show ?thesis by (auto simp: Translate_def split: if_splits)
next
  case None
  then have r: "repair_loop lib t snippet fmt (nat (trMaxRetries t)) 1 [] [] st = (Inr (expr, n), st')"
    and creds: "\<not> (trApiKey t = [] \<and> trVertexProject t = [])"
    using assms(1) by (auto simp: Translate_def split: if_splits)
  from repair_loop_valid [OF r] obtain k where v: "validateExpression lib expr = None"
    and s: "lsFiles st' = saveCache lib t (success_entry lib t snippet fmt expr n k) (lsFiles st)" by blast
  obtain d where "entryEncode lib (success_entry lib t snippet fmt expr n k) = Some d" using assms(3) by blast
  then have "loadCache lib t (lsFiles st') (snippetHash lib snippet fmt) = Some (success_entry lib t snippet fmt expr n k)"
    unfolding s using load_saved [of lib t "success_entry lib t snippet fmt expr n k"] assms(2) by (simp add: json_cache_def)
  with creds v Translate_calls [OF assms(1)] show ?thesis by (auto simp: Translate_def)
qed

text \<open>A translator whose first answer does not parse and whose second one does.\<close>

definition demo_translator :: LLMTranslator where
  "demo_translator = \<lparr>trModel = ''m'', trMaxRetries = 3, trApiKey = ''k'', trVertexProject = [], trVertexRegion = [], trCacheDir = ''/c''\<rparr>"

definition demo_entry :: translationCacheEntry where
  "demo_entry = \<lparr>teInputHash = ''01'', teSourceFormat = ''sigma'', teSourceSnippet = ''s'', teCELExpression = ''true'', teAttempts = 2,
     teModel = ''m'', teTranslatedAt = 5, teCompileVerified = True\<rparr>"

definition demo_llm :: LlmLib where
  "demo_llm = \<lparr>gcloudToken = (\<lambda>_. None), httpDo = (\<lambda>n _. Reply 200 (if n = 0 then ''oops'' else ''true'')), replyTexts = (\<lambda>b. Some [b]),
     celParse = (\<lambda>e. if e = ''true'' then None else Some ''syntax''), sha256 = (\<lambda>_. [1]),
     entryEncode = (\<lambda>x. if x = demo_entry then Some ''e'' else None), entryDecode = (\<lambda>_. Some demo_entry),
     mkdirOK = (\<lambda>_. True), writeOK = (\<lambda>_. True), clockUTC = (\<lambda>_. 5)\<rparr>"

definition demo_llm_state :: llm_state where
  "demo_llm_state = \<lparr>lsCalls = 0, lsFiles = Map.empty\<rparr>"

lemma demo_success_entry: "success_entry demo_llm demo_translator ''s'' ''sigma'' ''true'' 2 k = demo_entry"
  by (simp add: success_entry_def demo_llm_def demo_translator_def demo_entry_def snippetHash_def hexEncode_def)

lemma demo_normalise: "normaliseCELExpr ''oops'' = ''oops''" "normaliseCELExpr ''true'' = ''true''"
  by code_simp+

lemma demo_call: "callAPI demo_llm demo_translator n m = Inr (if n = 0 then ''oops'' else ''true'')"
  by (simp add: callAPI_def build_call_def demo_llm_def demo_translator_def)

lemma demo_trim: "TrimSpace ''oops'' = ''oops''" "TrimSpace ''true'' = ''true''"
  by code_simp+

lemma demo_validate: "validateExpression demo_llm ''oops'' = Some ''syntax''" "validateExpression demo_llm ''true'' = None"
  unfolding validateExpression_def demo_normalise by (simp_all add: demo_llm_def)

lemma demo_Translate:
  "Translate demo_llm demo_translator ''s'' ''sigma'' demo_llm_state =
    (Inr (''true'', 2), \<lparr>lsCalls = 2, lsFiles = [cache_path demo_translator ''01'' \<mapsto> ''e'']\<rparr>)"
proof -
  have c: "loadCache demo_llm demo_translator Map.empty h = None" for h by (simp add: loadCache_def)
  have s: "saveCache demo_llm demo_translator demo_entry Map.empty = [cache_path demo_translator ''01'' \<mapsto> ''e'']"
    by (simp add: saveCache_def demo_llm_def demo_entry_def)
  have "repair_loop demo_llm demo_translator ''s'' ''sigma'' (Suc (Suc (Suc 0))) 1 [] [] demo_llm_state =
      (Inr (''true'', 2), \<lparr>lsCalls = 2, lsFiles = [cache_path demo_translator ''01'' \<mapsto> ''e'']\<rparr>)"
    by (simp add: demo_call demo_trim demo_validate demo_success_entry demo_llm_state_def s Let_def)
  moreover have "nat (trMaxRetries demo_translator) = Suc (Suc (Suc 0))" by (simp add: demo_translator_def)
  ultimately show ?thesis using c by (simp add: Translate_def demo_llm_state_def) (simp add: demo_translator_def)
qed

theorem translation_cached_witness:
  "\<exists>st'. Translate demo_llm demo_translator ''s'' ''sigma'' demo_llm_state = (Inr (''true'', 2), st') \<and>
    lsCalls st' \<le> 3 \<and> Translate demo_llm demo_translator ''s'' ''sigma'' st' = (Inr (''true'', 2), st')"
proof -
  have "json_cache demo_llm demo_translator" by (simp add: json_cache_def demo_llm_def)
  moreover have "entryEncode demo_llm (success_entry demo_llm demo_translator ''s'' ''sigma'' ''true'' 2 k) \<noteq> None" for k
    unfolding demo_success_entry by (simp add: demo_llm_def)
  ultimately show ?thesis
    using translation_cached [OF demo_Translate] demo_Translate by (auto simp: demo_llm_state_def demo_translator_def)
qed

section \<open>What assistance may change\<close>

text \<open>The policy a manifest describes apart from the expression under translation.\<close>

definition same_policy :: "nixisManifest \<Rightarrow> nixisManifest \<Rightarrow> bool" where
  "same_policy m m' \<longleftrightarrow>
    nxAPIVersion m' = nxAPIVersion m \<and> nxKind m' = nxKind m \<and> nmName (nxMetadata m') = nmName (nxMetadata m) \<and>
    nsDescription (nxSpec m') = nsDescription (nxSpec m) \<and> nsTools (nxSpec m') = nsTools (nxSpec m) \<and>
    nsDefaultAction (nxSpec m') = nsDefaultAction (nxSpec m) \<and>
    map (\<lambda>v. (nvMessage v, nvAction v)) (nsValidations (nxSpec m')) = map (\<lambda>v. (nvMessage v, nvAction v)) (nsValidations (nxSpec m))"

definition assisted :: "nixisManifest \<times> string \<Rightarrow> nixisManifest \<times> string \<Rightarrow> bool" where
  "assisted mc mc' \<longleftrightarrow> mc' = mc \<or> (Contains (snd mc) ''IMPORT_TODO'' \<and> same_policy (fst mc) (fst mc') \<and> HasPrefix (snd mc') ''IMPORT_REVIEW'')"

lemma same_with_expression: "nsValidations (nxSpec m) \<noteq> [] \<Longrightarrow> same_policy m (with_expression cel m)"
  by (cases "nsValidations (nxSpec m)") (simp_all add: same_policy_def with_expression_def)

lemma assist_one_assisted: "assist_one lib t format mc st = (mc', st') \<Longrightarrow> assisted mc mc'"
  by (auto simp: assist_one_def assisted_def same_with_expression review_comment_def HasPrefix_def split: if_splits prod.splits sum.splits)

lemma assist_all_assisted: "assist_all lib t format mcs st = (mcs', st') \<Longrightarrow> list_all2 assisted mcs mcs'"
  by (induction mcs arbitrary: mcs' st st') (auto simp: Let_def assist_one_assisted split: prod.splits)

lemma assisted_refl: "list_all2 assisted xs xs"
  by (simp add: list.rel_refl assisted_def)

lemma zip_unzip: "unzip ps = (ms, cs) \<Longrightarrow> zip ms cs = ps \<and> length ms = length cs"
  by (auto simp: unzip_def zip_map_fst_snd)

text \<open>Assistance leaves every manifest whose comment has no import marker as it is; of a marked one it changes
  the expression and the annotations only, never the name, the tools, the action or the message, and the marker
  becomes a request for review.\<close>

theorem assistance_only_fills_todos:
  assumes "length ms = length cs"
  shows "list_all2 assisted (zip ms cs) (zip (fst (fst (applyLLMAssist lib on translator (ms, cs) format st)))
           (snd (fst (applyLLMAssist lib on translator (ms, cs) format st))))"
proof -
  obtain ps st' where p: "assist_all lib t format (zip ms cs) st = (ps, st')" if "translator = Some t" for t
    by (cases translator) (auto intro: prod.exhaust)
  show ?thesis
  proof (cases translator)
    case (Some t)
    with assist_all_assisted [OF p [OF Some]] show ?thesis
      by (auto simp: applyLLMAssist_def p [OF Some] unzip_def zip_map_fst_snd assisted_refl)
  qed (simp add: applyLLMAssist_def assisted_refl)
qed

end
