(* ===== verification/FixCel.thy ===== *)
theory FixCel
  imports LlmTranslate
begin

text \<open>
  Repair of escape sequences, \<^verbatim>\<open>cmd/nixis/cel_escape.go\<close> and \<^verbatim>\<open>cmd/nixis/fix_cel.go\<close>: the expressions of a policy file that do
  not parse are rewritten, or replaced by \<^verbatim>\<open>false\<close>.  The YAML node tree is a tree of nodes; the decoder, the encoder and
  the CEL parser are parameters.
\<close>

section \<open>Escape sequences\<close>

fun fix_escapes :: "bool \<Rightarrow> string \<Rightarrow> string" where
  "fix_escapes inDQ [] = []"
| "fix_escapes inDQ (c # s) =
    (if c = dquote then c # fix_escapes (\<not> inDQ) s
     else if inDQ \<and> c = backslash then
       (case s of
          [] \<Rightarrow> [c]
        | d # t \<Rightarrow> if d = backslash \<or> d = dquote then backslash # d # fix_escapes inDQ t
                   else backslash # backslash # d # fix_escapes inDQ t)
     else c # fix_escapes inDQ s)"

definition fixCELEscaping :: "string \<Rightarrow> string" where
  "fixCELEscaping expr = fix_escapes False expr"

text \<open>Every escape inside a quoted part is an escaped backslash or quote.\<close>

fun escapes_ok :: "bool \<Rightarrow> string \<Rightarrow> bool" where
  "escapes_ok inDQ [] = True"
| "escapes_ok inDQ (c # s) =
    (if c = dquote then escapes_ok (\<not> inDQ) s
     else if inDQ \<and> c = backslash then
       (case s of [] \<Rightarrow> True | d # t \<Rightarrow> (d = backslash \<or> d = dquote) \<and> escapes_ok inDQ t)
     else escapes_ok inDQ s)"

lemma quote_not_backslash [simp]: "dquote \<noteq> backslash" "backslash \<noteq> dquote"
  by (simp_all add: dquote_def backslash_def)

lemma fix_escapes_ok: "escapes_ok inDQ (fix_escapes inDQ s)"
proof (induction inDQ s rule: fix_escapes.induct)
  case (2 inDQ c s)
  then show ?case by (cases s; cases inDQ) auto
qed simp

lemma fix_escapes_id: "escapes_ok inDQ s \<Longrightarrow> fix_escapes inDQ s = s"
proof (induction inDQ s rule: fix_escapes.induct)
  case (2 inDQ c s)
  then show ?case by (cases s; cases inDQ) (auto split: if_splits)
qed simp

text \<open>What a reader of the literal sees: an escaped character stands for itself, any other escape keeps its backslash.  Repair
  keeps this reading.\<close>

fun intended :: "bool \<Rightarrow> string \<Rightarrow> string" where
  "intended inDQ [] = []"
| "intended inDQ (c # s) =
    (if c = dquote then c # intended (\<not> inDQ) s
     else if inDQ \<and> c = backslash then
       (case s of
          [] \<Rightarrow> [c]
        | d # t \<Rightarrow> if d = backslash \<or> d = dquote then d # intended inDQ t else backslash # d # intended inDQ t)
     else c # intended inDQ s)"

lemma intended_fix: "intended inDQ (fix_escapes inDQ s) = intended inDQ s"
proof (induction inDQ s rule: fix_escapes.induct)
  case (2 inDQ c s)
  then show ?case by (cases s; cases inDQ) auto
qed simp

text \<open>Claim C38. The repaired expression has only valid escapes in its literals, is the expression itself when that had only
  valid ones (so repairing twice is repairing once), and keeps what each literal was meant to hold.\<close>

theorem escape_repair_sound:
  "escapes_ok False (fixCELEscaping expr) \<and> (escapes_ok False expr \<longrightarrow> fixCELEscaping expr = expr) \<and>
   fixCELEscaping (fixCELEscaping expr) = fixCELEscaping expr \<and>
   intended False (fixCELEscaping expr) = intended False expr"
  using fix_escapes_ok [of False expr] fix_escapes_id [of False] intended_fix [of False expr] by (simp add: fixCELEscaping_def)

theorem escape_repair_sound_witness:
  "escapes_ok False (''x'' @ [dquote, backslash, backslash, dquote]) \<and>
   fixCELEscaping (''x'' @ [dquote, backslash, backslash, dquote]) = ''x'' @ [dquote, backslash, backslash, dquote]"
  using escape_repair_sound [of "''x'' @ [dquote, backslash, backslash, dquote]"] by (simp add: dquote_def backslash_def)

section \<open>Policy documents as node trees\<close>

datatype nodeKind = DocumentNode | SequenceNode | MappingNode | ScalarNode | AliasNode

datatype ynode = YNode (nKind: nodeKind) (nValue: string) (nTag: string) (nStyle: nat) (nLineComment: string) (nContent: "ynode list")

definition TaggedStyle :: nat where "TaggedStyle = 1"

fun pairs :: "ynode list \<Rightarrow> (ynode \<times> ynode) list" where
  "pairs (k # v # r) = (k, v) # pairs r"
| "pairs r = []"

text \<open>The value of the last entry with the key; a Go loop over the entries that assigns it.\<close>

definition last_value :: "string \<Rightarrow> ynode \<Rightarrow> string" where
  "last_value key root = (case filter (\<lambda>(k, _). nValue k = key) (pairs (nContent root)) of
     [] \<Rightarrow> [] | ps \<Rightarrow> nValue (snd (last ps)))"

definition isNixisPolicyTemplate :: "ynode \<Rightarrow> bool" where
  "isNixisPolicyTemplate root \<longleftrightarrow>
    nKind root = MappingNode \<and> last_value ''apiVersion'' root = ''nixis.io/v1'' \<and> last_value ''kind'' root = ''PolicyTemplate''"

definition values_of :: "string \<Rightarrow> ynode \<Rightarrow> ynode list" where
  "values_of key node = map snd (filter (\<lambda>(k, _). nValue k = key) (pairs (nContent node)))"

definition expressionNodesFromSpec :: "ynode \<Rightarrow> ynode list" where
  "expressionNodesFromSpec spec =
    (if nKind spec \<noteq> MappingNode then []
     else concat (map (\<lambda>validations.
            if nKind validations \<noteq> SequenceNode then []
            else concat (map (\<lambda>item. if nKind item \<noteq> MappingNode then [] else values_of ''expression'' item) (nContent validations)))
          (values_of ''validations'' spec)))"

definition collectExpressionNodes :: "ynode \<Rightarrow> ynode list" where
  "collectExpressionNodes root = concat (map expressionNodesFromSpec (values_of ''spec'' root))"

text \<open>The nodes are updated in place: the tree with the given change at the collected nodes.\<close>

fun map_values :: "string \<Rightarrow> (ynode \<Rightarrow> ynode) \<Rightarrow> ynode list \<Rightarrow> ynode list" where
  "map_values key f (k # v # r) = k # (if nValue k = key then f v else v) # map_values key f r"
| "map_values key f r = r"

fun with_content :: "(ynode list \<Rightarrow> ynode list) \<Rightarrow> ynode \<Rightarrow> ynode" where
  "with_content f (YNode k v t st lc c) = YNode k v t st lc (f c)"

definition update_item :: "(ynode \<Rightarrow> ynode) \<Rightarrow> ynode \<Rightarrow> ynode" where
  "update_item f item = (if nKind item \<noteq> MappingNode then item else with_content (map_values ''expression'' f) item)"

definition update_validations :: "(ynode \<Rightarrow> ynode) \<Rightarrow> ynode \<Rightarrow> ynode" where
  "update_validations f vs = (if nKind vs \<noteq> SequenceNode then vs else with_content (map (update_item f)) vs)"

definition update_spec :: "(ynode \<Rightarrow> ynode) \<Rightarrow> ynode \<Rightarrow> ynode" where
  "update_spec f spec = (if nKind spec \<noteq> MappingNode then spec else with_content (map_values ''validations'' (update_validations f)) spec)"

definition update_expressions :: "(ynode \<Rightarrow> ynode) \<Rightarrow> ynode \<Rightarrow> ynode" where
  "update_expressions f root = with_content (map_values ''spec'' (update_spec f)) root"

section \<open>Repair of a file\<close>

datatype celFixResult = celFixAlreadyOK | celFixOK | celFixFailed | celFixSkip

datatype FixError = ReadError | ParseYamlError | MarshalError | WriteError | CelError string

record FixLib =
  nodeDecode :: "string \<Rightarrow> ynode option"
  nodeEncode :: "ynode \<Rightarrow> string option"
  parseCEL :: "string \<Rightarrow> string option"
  fileWriteOK :: "string \<Rightarrow> bool"

definition normaliseCELExprForFix :: "string \<Rightarrow> string" where
  "normaliseCELExprForFix e0 =
    (let e1 = ReplaceAll e0 ''request.args.command'' (arg_ref ''command'');
         e2 = ReplaceAll e1 ''request.args.path'' (arg_ref ''path'');
         e3 = ReplaceAll e2 ''request.args.url'' (arg_ref ''url'');
         e4 = ReplaceAll e3 ''request.args.content'' (arg_ref ''content'');
         e5 = ReplaceAll e4 ''request.args.query'' (arg_ref ''query'');
         e6 = ReplaceAll e5 ''request.args'' ''args''
     in ReplaceAll e6 ''request.session_id'' ''session_id'')"

definition expr_error :: "FixLib \<Rightarrow> string \<Rightarrow> string option" where
  "expr_error lib expr = parseCEL lib (normaliseCELExprForFix expr)"

definition set_value :: "string \<Rightarrow> ynode \<Rightarrow> ynode" where
  "set_value v n = YNode (nKind n) v (nTag n) (nStyle n) (nLineComment n) (nContent n)"

definition failed_node :: "ynode \<Rightarrow> ynode" where
  "failed_node n = YNode (nKind n) ''false'' ''!!str'' TaggedStyle
     ''# CEL_FIX_FAILED: original expression could not be repaired'' (nContent n)"

definition repair_node :: "FixLib \<Rightarrow> ynode \<Rightarrow> ynode" where
  "repair_node lib n =
    (if expr_error lib (nValue n) = None then n
     else if expr_error lib (fixCELEscaping (nValue n)) = None then set_value (fixCELEscaping (nValue n)) n
     else failed_node n)"

definition broken :: "FixLib \<Rightarrow> ynode \<Rightarrow> bool" where
  "broken lib n \<longleftrightarrow> expr_error lib (nValue n) \<noteq> None"

definition beyond_repair :: "FixLib \<Rightarrow> ynode \<Rightarrow> bool" where
  "beyond_repair lib n \<longleftrightarrow> broken lib n \<and> expr_error lib (fixCELEscaping (nValue n)) \<noteq> None"

definition first_failure :: "FixLib \<Rightarrow> ynode list \<Rightarrow> FixError option" where
  "first_failure lib ns = (case filter (beyond_repair lib) ns of
     [] \<Rightarrow> None | n # _ \<Rightarrow> map_option CelError (expr_error lib (fixCELEscaping (nValue n))))"

definition fixCelFile :: "FixLib \<Rightarrow> string \<Rightarrow> files \<Rightarrow> (celFixResult \<times> FixError option) \<times> files" where
  "fixCelFile lib path fs = (case fs path of
     None \<Rightarrow> ((celFixSkip, Some ReadError), fs)
   | Some raw \<Rightarrow>
     (case nodeDecode lib raw of
        None \<Rightarrow> ((celFixSkip, Some ParseYamlError), fs)
      | Some doc \<Rightarrow>
         (if nKind doc \<noteq> DocumentNode \<or> nContent doc = [] then ((celFixSkip, None), fs)
          else let root = hd (nContent doc); ns = collectExpressionNodes root in
            if \<not> isNixisPolicyTemplate root then ((celFixSkip, None), fs)
            else if ns = [] \<or> \<not> list_ex (broken lib) ns then ((celFixAlreadyOK, None), fs)
            else case nodeEncode lib (with_content (\<lambda>c. update_expressions (repair_node lib) root # tl c) doc) of
              None \<Rightarrow> ((celFixSkip, Some MarshalError), fs)
            | Some out \<Rightarrow>
                if \<not> fileWriteOK lib path then ((celFixSkip, Some WriteError), fs)
                else (if list_ex (beyond_repair lib) ns then (celFixFailed, first_failure lib ns) else (celFixOK, None),
                      fs(path \<mapsto> out)))))"

record fix_counts =
  fcFixed :: nat
  fcAlreadyOK :: nat
  fcFailSecure :: nat
  fcSkipped :: nat

fun count_result :: "celFixResult \<Rightarrow> fix_counts \<Rightarrow> fix_counts" where
  "count_result celFixOK n = n\<lparr>fcFixed := fcFixed n + 1\<rparr>"
| "count_result celFixAlreadyOK n = n\<lparr>fcAlreadyOK := fcAlreadyOK n + 1\<rparr>"
| "count_result celFixFailed n = n\<lparr>fcFailSecure := fcFailSecure n + 1\<rparr>"
| "count_result celFixSkip n = n\<lparr>fcSkipped := fcSkipped n + 1\<rparr>"

text \<open>\<^const>\<open>None\<close> is the error of the walk.\<close>

fun runFixCel :: "FixLib \<Rightarrow> walk_item list \<Rightarrow> fix_counts \<Rightarrow> files \<Rightarrow> fix_counts option \<times> files" where
  "runFixCel lib [] n fs = (Some n, fs)"
| "runFixCel lib (WalkError # ws) n fs = (None, fs)"
| "runFixCel lib (WalkDirectory # ws) n fs = runFixCel lib ws n fs"
| "runFixCel lib (WalkFile path # ws) n fs =
    (if ToLower (Ext path) \<notin> {''.yaml'', ''.yml''} then runFixCel lib ws n fs
     else let (r, fs') = fixCelFile lib path fs in runFixCel lib ws (count_result (fst r) n) fs')"

text \<open>\<^const>\<open>None\<close> as environment: the CEL environment could not be created and the expression passes.\<close>

definition validateOrFixExpr :: "(string \<Rightarrow> string option) option \<Rightarrow> string \<Rightarrow> string" where
  "validateOrFixExpr env expr = (case env of
     None \<Rightarrow> expr
   | Some parse \<Rightarrow>
       if parse (normaliseCELExprForFix expr) = None then expr
       else if parse (normaliseCELExprForFix (fixCELEscaping expr)) = None then fixCELEscaping expr
       else [])"

section \<open>After the repair\<close>

lemma values_map_values: "map snd (filter (\<lambda>(k, _). nValue k = key) (pairs (map_values key f c))) =
    map f (map snd (filter (\<lambda>(k, _). nValue k = key) (pairs c)))"
  by (induction key f c rule: map_values.induct) auto

lemma nContent_with [simp]: "nContent (with_content f n) = f (nContent n)" "nKind (with_content f n) = nKind n"
  by (cases n; simp)+

lemma values_of_with: "values_of key (with_content (map_values key f) n) = map f (values_of key n)"
  by (simp add: values_of_def values_map_values)

definition item_expressions :: "ynode \<Rightarrow> ynode list" where
  "item_expressions item = (if nKind item \<noteq> MappingNode then [] else values_of ''expression'' item)"

definition validations_expressions :: "ynode \<Rightarrow> ynode list" where
  "validations_expressions vs = (if nKind vs \<noteq> SequenceNode then [] else concat (map item_expressions (nContent vs)))"

lemma from_spec_alt: "expressionNodesFromSpec spec =
    (if nKind spec \<noteq> MappingNode then [] else concat (map validations_expressions (values_of ''validations'' spec)))"
  unfolding expressionNodesFromSpec_def validations_expressions_def [abs_def] item_expressions_def [abs_def] by (rule refl)

lemma item_update: "item_expressions (update_item f item) = map f (item_expressions item)"
  by (simp add: item_expressions_def update_item_def values_of_with)

lemma validations_update: "validations_expressions (update_validations f vs) = map f (validations_expressions vs)"
  by (simp add: validations_expressions_def update_validations_def item_update map_concat comp_def)

lemma expressions_update_spec: "expressionNodesFromSpec (update_spec f spec) = map f (expressionNodesFromSpec spec)"
  by (simp add: from_spec_alt update_spec_def values_of_with validations_update map_concat comp_def)

text \<open>The collected nodes of the updated tree are the updated collected nodes.\<close>

lemma collect_update: "collectExpressionNodes (update_expressions f root) = map f (collectExpressionNodes root)"
  by (simp add: collectExpressionNodes_def update_expressions_def values_of_with expressions_update_spec map_concat comp_def)

lemma repair_node_valid: "expr_error lib ''false'' = None \<Longrightarrow> expr_error lib (nValue (repair_node lib n)) = None"
  by (auto simp: repair_node_def set_value_def failed_node_def)

text \<open>A file that is rewritten is the encoding of a document in which every validation expression parses, with the
  expressions that parsed before unchanged; a file that is not rewritten is left as it is.\<close>

theorem fix_leaves_valid_expressions:
  assumes "fixCelFile lib path fs = ((r, e), fs')" and "expr_error lib ''false'' = None"
  shows "(r \<in> {celFixOK, celFixFailed} \<longrightarrow>
      (\<exists>raw doc doc'. fs path = Some raw \<and> nodeDecode lib raw = Some doc \<and> nodeEncode lib doc' = fs' path \<and>
         (\<forall>n \<in> set (collectExpressionNodes (hd (nContent doc'))). expr_error lib (nValue n) = None) \<and>
         list_all2 (\<lambda>n n'. broken lib n \<or> n' = n) (collectExpressionNodes (hd (nContent doc))) (collectExpressionNodes (hd (nContent doc'))))) \<and>
    (r \<notin> {celFixOK, celFixFailed} \<longrightarrow> fs' = fs) \<and> (\<forall>p. p \<noteq> path \<longrightarrow> fs' p = fs p)"
proof (cases "r \<in> {celFixOK, celFixFailed}")
  case False
  then have "fs' = fs" using assms(1) by (auto simp: fixCelFile_def Let_def split: option.splits if_splits)
  with False show ?thesis by simp
next
  case True
  then obtain raw doc out where d: "fs path = Some raw" "nodeDecode lib raw = Some doc" "nContent doc \<noteq> []"
    and out: "nodeEncode lib (with_content (\<lambda>c. update_expressions (repair_node lib) (hd (nContent doc)) # tl c) doc) = Some out"
    and fs': "fs' = fs(path \<mapsto> out)"
    using assms(1) by (auto simp: fixCelFile_def Let_def split: option.splits if_splits)
  let ?doc = "with_content (\<lambda>c. update_expressions (repair_node lib) (hd (nContent doc)) # tl c) doc"
  have c: "collectExpressionNodes (hd (nContent ?doc)) = map (repair_node lib) (collectExpressionNodes (hd (nContent doc)))"
    by (simp add: collect_update)
  have "list_all2 (\<lambda>n n'. broken lib n \<or> n' = n) ns (map (repair_node lib) ns)" for ns
    by (auto simp: list_all2_conv_all_nth broken_def repair_node_def)
  with c have "list_all2 (\<lambda>n n'. broken lib n \<or> n' = n) (collectExpressionNodes (hd (nContent doc))) (collectExpressionNodes (hd (nContent ?doc)))"
    by simp
  moreover have "\<forall>n \<in> set (collectExpressionNodes (hd (nContent ?doc))). expr_error lib (nValue n) = None"
    unfolding c by (simp add: repair_node_valid assms(2))
  moreover have "nodeEncode lib ?doc = fs' path" using out fs' by simp
  ultimately show ?thesis using True d(1,2) fs' by auto
qed

end
