(* ===== verification/FixImports.thy ===== *)
theory FixImports
  imports FixCel CliFiles
begin

text \<open>
  In-place repair of imported policies, \<^verbatim>\<open>cmd/nixis/fix_imports.go\<close>: a file with the expression \<^verbatim>\<open>false\<close> and an import marker is
  sent to the translator and rewritten line by line.
\<close>

section \<open>What is sent\<close>

record policyInfo =
  piName :: string
  piImportTODO :: string
  piDescription :: string
  piMessage :: string
  piSourceRule :: string

definition todo_mark :: string where "todo_mark = ''# IMPORT_TODO:''"

definition todo_line :: "string \<Rightarrow> bool" where
  "todo_line line \<longleftrightarrow> HasPrefix (TrimSpace line) todo_mark"

fun strip_document :: "ynode \<Rightarrow> ynode option" where
  "strip_document (YNode DocumentNode v t st lc []) = None"
| "strip_document (YNode DocumentNode v t st lc (c # cs)) = strip_document c"
| "strip_document n = Some n"

definition first_value :: "ynode list \<Rightarrow> string" where
  "first_value ns = (case ns of [] \<Rightarrow> [] | n # _ \<Rightarrow> nValue n)"

fun yamlMappingValue :: "ynode option \<Rightarrow> string list \<Rightarrow> string" where
  "yamlMappingValue None keys = []"
| "yamlMappingValue (Some node) [] =
    (case strip_document node of Some n \<Rightarrow> if nKind n = MappingNode then nValue n else [] | None \<Rightarrow> [])"
| "yamlMappingValue (Some node) (k # ks) =
    (case strip_document node of
       None \<Rightarrow> []
     | Some n \<Rightarrow>
         if nKind n \<noteq> MappingNode then []
         else case values_of k n of
           [] \<Rightarrow> []
         | v # _ \<Rightarrow> if ks = [] then nValue v else yamlMappingValue (Some v) ks)"

definition yamlMappingAnnotation :: "ynode \<Rightarrow> string \<Rightarrow> string" where
  "yamlMappingAnnotation root annotKey =
    (if nKind root \<noteq> MappingNode then []
     else first_value (concat (map (\<lambda>meta. concat (map (values_of annotKey) (values_of ''annotations'' meta))) (values_of ''metadata'' root))))"

definition yamlFirstValidationMessage :: "ynode \<Rightarrow> string" where
  "yamlFirstValidationMessage root =
    (if nKind root \<noteq> MappingNode then []
     else first_value (concat (map (\<lambda>spec. concat (map (\<lambda>validations.
            if nKind validations = SequenceNode \<and> nContent validations \<noteq> []
            then values_of ''message'' (hd (nContent validations)) else []) (values_of ''validations'' spec))) (values_of ''spec'' root))))"

definition extractPolicyInfo :: "string \<Rightarrow> ynode \<Rightarrow> policyInfo" where
  "extractPolicyInfo content doc =
    (let todo = (case filter todo_line (Split content newline) of
                   [] \<Rightarrow> [] | line # _ \<Rightarrow> TrimSpace (TrimPrefix (TrimSpace line) todo_mark))
     in if nKind doc = DocumentNode \<and> nContent doc \<noteq> [] then
          (let root = hd (nContent doc)
           in \<lparr>piName = yamlMappingValue (Some root) [''metadata'', ''name''], piImportTODO = todo,
               piDescription = yamlMappingValue (Some root) [''spec'', ''description''],
               piMessage = yamlFirstValidationMessage root, piSourceRule = yamlMappingAnnotation root ''nixis.io/source-rule''\<rparr>)
        else \<lparr>piName = [], piImportTODO = todo, piDescription = [], piMessage = [], piSourceRule = []\<rparr>)"

definition buildFixSnippet :: "policyInfo \<Rightarrow> string" where
  "buildFixSnippet info = TrimSpace
    (labelled ''Policy: '' (piName info) @ labelled ''Description: '' (piDescription info) @
     labelled ''Original condition: '' (piImportTODO info) @ labelled ''Message: '' (piMessage info) @
     labelled ''Source rule: '' (piSourceRule info))"

definition inferSourceFormat :: "string \<Rightarrow> string" where
  "inferSourceFormat path = ToLower (Base (Dir path))"

section \<open>What is written\<close>

definition annotation_line :: "string \<Rightarrow> bool" where
  "annotation_line l \<longleftrightarrow> HasPrefix (TrimLeft (\<lambda>c. c = CHR '' '') l) ''nixis.io/''"

fun last_index :: "(string \<Rightarrow> bool) \<Rightarrow> string list \<Rightarrow> nat option" where
  "last_index P [] = None"
| "last_index P (l # ls) = (case last_index P ls of Some i \<Rightarrow> Some (Suc i) | None \<Rightarrow> if P l then Some 0 else None)"

definition injectAnnotation :: "string \<Rightarrow> string \<Rightarrow> string" where
  "injectAnnotation content annot =
    (let ls = Split content newline; key = hd (Split annot CHR '':'')
     in if list_ex (\<lambda>l. Contains l (key @ '':'')) ls then content
        else case last_index annotation_line ls of
          None \<Rightarrow> content
        | Some i \<Rightarrow>
            (let indent = takeWhile (\<lambda>c. c = CHR '' '') (ls ! i)
             in JoinStrings (take (i + 1) ls @ [indent @ annot] @ drop (i + 1) ls) [newline]))"

definition replace_first :: "string \<Rightarrow> string \<Rightarrow> string \<Rightarrow> string" where
  "replace_first s old new = (case Index s old of
     None \<Rightarrow> s | Some i \<Rightarrow> take i s @ new @ drop (i + length old) s)"

definition false_expression :: string where
  "false_expression = ''expression: '' @ [dquote] @ ''false'' @ [dquote]"

definition review_line :: "string \<Rightarrow> int \<Rightarrow> string" where
  "review_line sourceFormat attempts = ''# '' @ review_comment sourceFormat attempts"

definition rewriteFile :: "string \<Rightarrow> string \<Rightarrow> int \<Rightarrow> string \<Rightarrow> string" where
  "rewriteFile content cel attempts sourceFormat =
    (let filtered = filter (\<lambda>line. \<not> todo_line line) (Split content newline);
         result = JoinStrings filtered [newline];
         result = replace_first result false_expression (''expression: '' @ Quote cel);
         result = injectAnnotation result ''nixis.io/llm-confidence: medium''
     in review_line sourceFormat attempts @ [newline] @ TrimLeft (\<lambda>c. c = newline) result)"

datatype fixResult = fixResultNoMatch | fixResultOK | fixResultSkip

definition fixImportsFile ::
    "LlmLib \<Rightarrow> FixLib \<Rightarrow> (string \<Rightarrow> string option) option \<Rightarrow> LLMTranslator \<Rightarrow> string \<Rightarrow> bool \<Rightarrow> llm_state \<Rightarrow> fixResult \<times> llm_state" where
  "fixImportsFile llm lib env t path dryRun st = (case lsFiles st path of
     None \<Rightarrow> (fixResultSkip, st)
   | Some content \<Rightarrow>
      (if \<not> Contains content false_expression \<or> \<not> Contains content todo_mark then (fixResultNoMatch, st)
       else case nodeDecode lib content of
         None \<Rightarrow> (fixResultSkip, st)
       | Some doc \<Rightarrow>
          (let info = extractPolicyInfo content doc; sourceFormat = inferSourceFormat path in
           if piImportTODO info = [] then (fixResultNoMatch, st)
           else case Translate llm t (buildFixSnippet info) sourceFormat st of
             (Inl _, st') \<Rightarrow> (fixResultSkip, st')
           | (Inr (cel, attempts), st') \<Rightarrow>
               (let cel' = validateOrFixExpr env cel in
                if cel' = [] then (fixResultSkip, st')
                else if dryRun then (fixResultOK, st')
                else if \<not> fileWriteOK lib path then (fixResultSkip, st')
                else (fixResultOK, st'\<lparr>lsFiles := (lsFiles st')(path \<mapsto> rewriteFile content cel' attempts sourceFormat)\<rparr>)))))"

record fix_import_counts =
  ficFixed :: nat
  ficSkipped :: nat
  ficNoMatch :: nat

fun count_fix :: "fixResult \<Rightarrow> fix_import_counts \<Rightarrow> fix_import_counts" where
  "count_fix fixResultOK n = n\<lparr>ficFixed := ficFixed n + 1\<rparr>"
| "count_fix fixResultSkip n = n\<lparr>ficSkipped := ficSkipped n + 1\<rparr>"
| "count_fix fixResultNoMatch n = n\<lparr>ficNoMatch := ficNoMatch n + 1\<rparr>"

fun runFixImports ::
    "LlmLib \<Rightarrow> FixLib \<Rightarrow> (string \<Rightarrow> string option) option \<Rightarrow> LLMTranslator \<Rightarrow> bool \<Rightarrow> walk_item list \<Rightarrow> fix_import_counts \<Rightarrow> llm_state \<Rightarrow>
      fix_import_counts option \<times> llm_state" where
  "runFixImports llm lib env t dryRun [] n st = (Some n, st)"
| "runFixImports llm lib env t dryRun (WalkError # ws) n st = (None, st)"
| "runFixImports llm lib env t dryRun (WalkDirectory # ws) n st = runFixImports llm lib env t dryRun ws n st"
| "runFixImports llm lib env t dryRun (WalkFile path # ws) n st =
    (if ToLower (Ext path) \<noteq> ''.yaml'' then runFixImports llm lib env t dryRun ws n st
     else let (r, st') = fixImportsFile llm lib env t path dryRun st
          in runFixImports llm lib env t dryRun ws (count_fix r n) st')"

section \<open>The lines of a text\<close>

lemma split_acc_acc: "split_acc sep s acc = (rev acc @ hd (split_acc sep s [])) # tl (split_acc sep s [])"
proof (induction s arbitrary: acc)
  case (Cons c s)
  from Cons.IH [of "c # acc"] Cons.IH [of "[c]"] show ?case by auto
qed simp

lemma Split_append: "Split (a @ b) sep = butlast (Split a sep) @ [last (Split a sep) @ hd (Split b sep)] @ tl (Split b sep)"
proof -
  have "split_acc sep (a @ b) acc = butlast (split_acc sep a acc) @ [last (split_acc sep a acc) @ hd (split_acc sep b [])] @ tl (split_acc sep b [])" for acc
  proof (induction a arbitrary: acc)
    case Nil
    show ?case using split_acc_acc [of sep b acc] by simp
  qed auto
  then show ?thesis by (simp add: Split_def)
qed

section \<open>A rewritten file has no import marker\<close>

definition no_todo :: "string \<Rightarrow> bool" where
  "no_todo s \<longleftrightarrow> (\<forall>l \<in> set (Split s newline). \<not> todo_line l)"

lemma TrimRight_prefix: "\<exists>t. x = TrimRight P x @ t"
  unfolding TrimRight_def by (metis rev_append rev_rev_ident takeWhile_dropWhile_id)

lemma TrimRight_keeps: "p \<noteq> [] \<Longrightarrow> \<not> P (last p) \<Longrightarrow> HasPrefix (TrimRight P (p @ t)) p"
proof -
  assume p: "p \<noteq> []" "\<not> P (last p)"
  have "dropWhile P (rev p) = rev p" using p by (cases p rule: rev_cases) auto
  then have "\<exists>u. dropWhile P (rev t @ rev p) = u @ rev p"
    by (metis append_Nil dropWhile_append3 dropWhile_eq_Nil_conv dropWhile_append1 dropWhile_append2)
  then show ?thesis by (auto simp: TrimRight_def HasPrefix_iff)
qed

lemma todo_mark_facts [simp]: "todo_mark \<noteq> []" "\<not> isSpace (last todo_mark)" "CHR ''e'' \<notin> set todo_mark" "hd todo_mark = CHR ''#''"
  by (simp_all add: todo_mark_def isSpace_def)

lemma todo_line_iff: "todo_line l \<longleftrightarrow> HasPrefix (dropWhile isSpace l) todo_mark"
proof
  assume "todo_line l"
  then show "HasPrefix (dropWhile isSpace l) todo_mark"
    using TrimRight_prefix [of "dropWhile isSpace l" isSpace]
    by (auto simp: todo_line_def TrimSpace_def Trim_def TrimLeft_def HasPrefix_iff)
next
  assume "HasPrefix (dropWhile isSpace l) todo_mark"
  then obtain t where "dropWhile isSpace l = todo_mark @ t" by (auto simp: HasPrefix_iff)
  with TrimRight_keeps [of todo_mark isSpace t] show "todo_line l"
    by (simp add: todo_line_def TrimSpace_def Trim_def TrimLeft_def)
qed

lemma todo_not_in_expression: "todo_line (u @ CHR ''e'' # x) \<Longrightarrow> todo_line (u @ CHR ''e'' # y)"
proof -
  assume a: "todo_line (u @ CHR ''e'' # x)"
  have ns: "\<not> isSpace CHR ''e''" by (simp add: isSpace_def)
  show ?thesis
  proof (cases "dropWhile isSpace u = []")
    case True
    then have "dropWhile isSpace (u @ CHR ''e'' # x) = CHR ''e'' # x"
      using ns by (simp add: dropWhile_append)
    with a have "HasPrefix (CHR ''e'' # x) todo_mark" by (simp add: todo_line_iff)
    then show ?thesis by (auto simp: HasPrefix_def todo_mark_def)
  next
    case False
    have d: "dropWhile isSpace (u @ CHR ''e'' # z) = dropWhile isSpace u @ CHR ''e'' # z" for z
      using False ns by (auto simp: dropWhile_append)
    from a obtain t where "dropWhile isSpace u @ CHR ''e'' # x = todo_mark @ t" by (auto simp: todo_line_iff d HasPrefix_iff)
    then consider us where "dropWhile isSpace u = todo_mark @ us" | us where "todo_mark = dropWhile isSpace u @ us" "us @ t = CHR ''e'' # x"
      by (auto simp: append_eq_append_conv2)
    then show ?thesis
    proof cases
      case 1
      then show ?thesis by (auto simp: todo_line_iff d HasPrefix_iff)
    next
      case 2
      have "us = []"
      proof (rule ccontr)
        assume "us \<noteq> []"
        with 2(2) have "CHR ''e'' \<in> set us" by (cases us) auto
        then have "CHR ''e'' \<in> set todo_mark" unfolding 2(1) by simp
        then show False by (simp only: todo_mark_facts)
      qed
      with 2(1) show ?thesis by (auto simp: todo_line_iff d HasPrefix_iff)
    qed
  qed
qed

lemma Split_middle:
  "newline \<notin> set m \<Longrightarrow> Split (a @ m @ b) newline =
    butlast (Split a newline) @ [last (Split a newline) @ m @ hd (Split b newline)] @ tl (Split b newline)"
  by (simp add: Split_append [of a] Split_append [of m] Split_single)

lemma no_todo_replace:
  assumes "no_todo (a @ (CHR ''e'' # x) @ b)" and "newline \<notin> set x" and "newline \<notin> set y"
  shows "no_todo (a @ (CHR ''e'' # y) @ b)"
proof -
  have nl: "newline \<notin> set (CHR ''e'' # z)" if "newline \<notin> set z" for z using that by (simp add: newline_def)
  note ls = Split_middle [OF nl]
  have "\<not> todo_line (last (Split a newline) @ (CHR ''e'' # x) @ hd (Split b newline))"
    using assms(1) unfolding no_todo_def ls [OF assms(2)] by simp
  then have "\<not> todo_line (last (Split a newline) @ (CHR ''e'' # y) @ hd (Split b newline))"
    using todo_not_in_expression by (metis append_Cons)
  then show ?thesis using assms(1) unfolding no_todo_def ls [OF assms(2)] ls [OF assms(3)] by auto
qed

lemma Quote_no_newline: "newline \<notin> set (Quote s)"
proof -
  have b: "newline \<notin> set (quote_byte c)" for c
  proof -
    have "hex_digit k \<noteq> newline" if "k < 16" for k
    proof -
      have "\<forall>k \<in> {..<16}. hex_digit k \<noteq> newline" by code_simp
      with that show ?thesis by simp
    qed
    moreover have "(of_char c :: nat) div 16 < 16" "(of_char c :: nat) mod 16 < 16" by (simp_all add: div_less_iff_less_mult)
    ultimately have "newline \<noteq> hex_digit (of_char c div 16)" "newline \<noteq> hex_digit (of_char c mod 16)" by metis+
    moreover have "newline \<noteq> backslash" "newline \<noteq> dquote" "(of_char newline :: nat) = 10" by (simp_all add: newline_def dquote_def backslash_def)
    moreover have "newline \<notin> set ''xabtnvfr''" by (simp add: newline_def)
    ultimately show ?thesis by (auto simp: quote_byte_def Let_def)
  qed
  have "newline \<notin> set (quote_rune r)" if "r \<in> set (runes s)" for r
  proof (cases "length r = 1")
    case True
    then obtain c where "r = [c]" by (auto simp: length_Suc_conv)
    then show ?thesis using b by (simp add: quote_rune_def)
  next
    case False
    then have "quote_rune r = r" by (auto simp: quote_rune_def split: list.splits)
    moreover have "\<not> byte_in 128 255 newline" by (simp add: byte_in_def newline_def)
    ultimately show ?thesis using runes_multi [OF that False] by metis
  qed
  then show ?thesis by (auto simp: Quote_def quote_body_def newline_def dquote_def)
qed

lemma no_todo_filtered: "no_todo (JoinStrings (filter (\<lambda>l. \<not> todo_line l) (Split content newline)) [newline])"
proof (cases "filter (\<lambda>l. \<not> todo_line l) (Split content newline) = []")
  case True
  then have "JoinStrings (filter (\<lambda>l. \<not> todo_line l) (Split content newline)) [newline] = []" by simp
  moreover have "no_todo []" using todo_mark_facts(1) [symmetric] by (simp add: no_todo_def Split_def todo_line_iff HasPrefix_def)
  ultimately show ?thesis by simp
next
  case False
  have "\<forall>l \<in> set (filter (\<lambda>l. \<not> todo_line l) (Split content newline)). newline \<notin> set l" using Split_no_sep by auto
  from Split_Join [OF False this] show ?thesis by (simp add: no_todo_def)
qed

lemma no_todo_replace_first:
  assumes "no_todo s"
  shows "no_todo (replace_first s false_expression (''expression: '' @ Quote cel))"
proof (cases "Index s false_expression")
  case (Some i)
  then obtain b where b: "drop i s = false_expression @ b" using Index_first by (metis HasPrefix_iff)
  have e: "false_expression = CHR ''e'' # tl false_expression" "''expression: '' @ Quote cel = CHR ''e'' # ''xpression: '' @ Quote cel"
    by (simp_all add: false_expression_def)
  have "drop (i + length false_expression) s = drop (length false_expression) (drop i s)" by (simp add: add.commute)
  then have r: "replace_first s false_expression (''expression: '' @ Quote cel) = take i s @ (''expression: '' @ Quote cel) @ b"
    using Some b by (simp add: replace_first_def)
  have "s = take i s @ false_expression @ b" using b by (metis append_take_drop_id)
  with assms e(1) have "no_todo (take i s @ (CHR ''e'' # tl false_expression) @ b)" by metis
  moreover have "newline \<notin> set (tl false_expression)" "newline \<notin> set (''xpression: '' @ Quote cel)"
    using Quote_no_newline [of cel] by (simp_all add: false_expression_def newline_def dquote_def)
  ultimately have "no_todo (take i s @ (CHR ''e'' # ''xpression: '' @ Quote cel) @ b)" by (rule no_todo_replace)
  then show ?thesis using r by simp
qed (use assms in \<open>simp add: replace_first_def\<close>)

lemma no_todo_lines: "ls \<noteq> [] \<Longrightarrow> \<forall>l \<in> set ls. newline \<notin> set l \<and> \<not> todo_line l \<Longrightarrow> no_todo (JoinStrings ls [newline])"
  using Split_Join [of ls newline] by (simp add: no_todo_def)

lemma no_todo_inject: "no_todo s \<Longrightarrow> no_todo (injectAnnotation s ''nixis.io/llm-confidence: medium'')"
proof -
  assume a: "no_todo s"
  let ?ls = "Split s newline" and ?a = "''nixis.io/llm-confidence: medium''"
  have "\<not> todo_line (takeWhile (\<lambda>c. c = CHR '' '') l @ ?a) \<and> newline \<notin> set (takeWhile (\<lambda>c. c = CHR '' '') l @ ?a)" for l
  proof -
    let ?i = "takeWhile (\<lambda>c. c = CHR '' '') l"
    have sp: "c = CHR '' ''" if "c \<in> set ?i" for c using set_takeWhileD [OF that] by simp
    moreover have "isSpace CHR '' ''" by (simp add: isSpace_def)
    ultimately have "\<forall>c \<in> set ?i. isSpace c" by metis
    moreover have "dropWhile isSpace ?a = ?a" by (simp add: isSpace_def)
    ultimately have "dropWhile isSpace (?i @ ?a) = ?a" by (subst dropWhile_append2) auto
    then have "\<not> todo_line (?i @ ?a)" unfolding todo_line_iff by (simp add: HasPrefix_def todo_mark_def)
    with sp show ?thesis by (auto simp: newline_def)
  qed
  moreover have "l \<in> set (take n ?ls) \<or> l \<in> set (drop n ?ls) \<Longrightarrow> newline \<notin> set l \<and> \<not> todo_line l" for l n
    using a Split_no_sep [of l s newline] by (auto simp: no_todo_def dest: in_set_takeD in_set_dropD)
  ultimately have "no_todo (JoinStrings (take n ?ls @ [takeWhile (\<lambda>c. c = CHR '' '') l @ ?a] @ drop n ?ls) [newline])" for n l
    by (intro no_todo_lines) auto
  with a show ?thesis by (simp add: injectAnnotation_def Let_def split: option.splits)
qed

lemma no_todo_newline: "no_todo (newline # s) \<Longrightarrow> no_todo s"
  using Split_sep [of "[]" newline s] by (simp add: no_todo_def)

lemma no_todo_trim: "no_todo s \<Longrightarrow> no_todo (TrimLeft (\<lambda>c. c = newline) s)"
  by (induction s) (auto simp: TrimLeft_def dest: no_todo_newline)

lemma no_todo_cons: "newline \<notin> set l \<Longrightarrow> \<not> todo_line l \<Longrightarrow> no_todo s \<Longrightarrow> no_todo (l @ [newline] @ s)"
  using Split_sep [of l newline s] by (simp add: no_todo_def Split_single)

lemma int_literal_no_newline: "newline \<notin> set (int_literal n)"
proof -
  have "newline \<notin> set (itoa_digits k)" for k
  proof (induction k rule: itoa_digits.induct)
    case (1 k)
    have "char_of (48 + k mod 10) \<noteq> newline"
    proof
      assume "char_of (48 + k mod 10) = newline"
      then have "of_char (char_of (48 + k mod 10) :: char) = (10 :: nat)" by (simp only: newline_def) simp
      then show False by simp
    qed
    with 1 show ?case by (subst itoa_digits.simps) auto
  qed
  then show ?thesis by (simp add: int_literal_def itoa_def newline_def)
qed

lemma review_line_ok: "newline \<notin> set fmt \<Longrightarrow> newline \<notin> set (review_line fmt n) \<and> \<not> todo_line (review_line fmt n)"
proof -
  assume f: "newline \<notin> set fmt"
  have "\<not> todo_line (review_line fmt n)"
    by (simp add: todo_line_iff review_line_def review_comment_def isSpace_def HasPrefix_def todo_mark_def)
  moreover have "newline \<notin> set (review_line fmt n)"
    using f int_literal_no_newline [of n] by (auto simp: review_line_def review_comment_def em_dash_def newline_def)
  ultimately show ?thesis by simp
qed

lemma rewrite_no_todo: "newline \<notin> set fmt \<Longrightarrow> no_todo (rewriteFile content cel n fmt)"
  unfolding rewriteFile_def Let_def
  by (intro no_todo_cons no_todo_trim no_todo_inject no_todo_replace_first no_todo_filtered) (simp_all add: review_line_ok)

lemma no_todo_info: "no_todo content \<Longrightarrow> piImportTODO (extractPolicyInfo content doc) = []"
  by (simp add: no_todo_def extractPolicyInfo_def Let_def filter_empty_conv [THEN iffD2])

text \<open>A file that was repaired and rewritten is never sent to the translator again: the next run makes no API call
  and leaves every file as it is.\<close>

theorem repaired_file_not_sent_again:
  assumes "fixImportsFile llm lib env t path False st = (fixResultOK, st')" and "newline \<notin> set (inferSourceFormat path)"
  shows "\<exists>r. fixImportsFile llm lib env t path dryRun st' = (r, st') \<and> r \<noteq> fixResultOK"
proof -
  obtain content cel n where "lsFiles st' path = Some (rewriteFile content cel n (inferSourceFormat path))"
    using assms(1) by (auto simp: fixImportsFile_def Let_def split: option.splits if_splits prod.splits sum.splits)
  moreover have "piImportTODO (extractPolicyInfo (rewriteFile content cel n (inferSourceFormat path)) doc) = []" for doc
    by (rule no_todo_info [OF rewrite_no_todo [OF assms(2)]])
  ultimately show ?thesis by (auto simp: fixImportsFile_def Let_def split: option.splits)
qed

text \<open>A policy of the Falco directory whose translation is in the cache.\<close>

definition demo_policy_text :: string where
  "demo_policy_text = ''# IMPORT_TODO: fd.num'' @ [newline] @ ''  - '' @ false_expression"

definition demo_fix :: FixLib where
  "demo_fix = \<lparr>nodeDecode = (\<lambda>_. Some (YNode ScalarNode [] [] 0 [] [])), nodeEncode = (\<lambda>_. None), parseCEL = (\<lambda>_. None), fileWriteOK = (\<lambda>_. True)\<rparr>"

definition demo_fix_state :: llm_state where
  "demo_fix_state = \<lparr>lsCalls = 0, lsFiles = [''/p/falco/a.yaml'' \<mapsto> demo_policy_text, cache_path demo_translator ''01'' \<mapsto> ''e'']\<rparr>"

lemma demo_fix_facts:
  "inferSourceFormat ''/p/falco/a.yaml'' = ''falco''" "Contains demo_policy_text false_expression" "Contains demo_policy_text todo_mark"
  "piImportTODO (extractPolicyInfo demo_policy_text (YNode ScalarNode [] [] 0 [] [])) = ''fd.num''"
  by code_simp+

lemma demo_cached: "Translate demo_llm demo_translator s f demo_fix_state = (Inr (''true'', 2), demo_fix_state)"
proof -
  have "snippetHash demo_llm s f = ''01''" by (simp add: snippetHash_def demo_llm_def hexEncode_def)
  then show ?thesis by (simp add: Translate_def loadCache_def demo_fix_state_def) (simp add: demo_llm_def demo_translator_def demo_entry_def)
qed

lemma demo_fixed:
  "fixImportsFile demo_llm demo_fix None demo_translator ''/p/falco/a.yaml'' False demo_fix_state =
    (fixResultOK, demo_fix_state\<lparr>lsFiles := (lsFiles demo_fix_state)(''/p/falco/a.yaml'' \<mapsto> rewriteFile demo_policy_text ''true'' 2 ''falco'')\<rparr>)"
proof -
  have "cache_path demo_translator ''01'' \<noteq> ''/p/falco/a.yaml''" by code_simp
  then have "lsFiles demo_fix_state ''/p/falco/a.yaml'' = Some demo_policy_text" by (simp add: demo_fix_state_def)
  then show ?thesis
    by (simp add: fixImportsFile_def demo_fix_facts demo_cached Let_def) (simp add: demo_fix_def demo_fix_facts demo_cached validateOrFixExpr_def)
qed

theorem repaired_file_not_sent_again_witness:
  "\<exists>st'. fixImportsFile demo_llm demo_fix None demo_translator ''/p/falco/a.yaml'' False demo_fix_state = (fixResultOK, st') \<and>
    (\<exists>r. fixImportsFile demo_llm demo_fix None demo_translator ''/p/falco/a.yaml'' False st' = (r, st') \<and> r \<noteq> fixResultOK)"
proof -
  have "newline \<notin> set (inferSourceFormat ''/p/falco/a.yaml'')" unfolding demo_fix_facts by (simp add: newline_def)
  from repaired_file_not_sent_again [OF demo_fixed this, of False] demo_fixed show ?thesis by blast
qed

end
