(* ===== verification/ImportCmd.thy ===== *)
theory ImportCmd
  imports FixImports
begin

text \<open>
  The import commands, \<^verbatim>\<open>cmd/nixis/import.go\<close>: reading a file or a repository archive, conversion, assistance, and
  writing one policy file per manifest; and what the policy loader makes of a written file.  The network, the zip
  reader, the temporary file names and the YAML encoder are parameters.
\<close>

section \<open>Sources\<close>

record githubRef =
  ghOwner :: string
  ghRepo :: string
  ghRef :: string

definition drop_scheme :: "string \<Rightarrow> string" where
  "drop_scheme source = TrimPrefix (TrimPrefix source ''https://'') ''http://''"

definition isGitHubURL :: "string \<Rightarrow> bool" where
  "isGitHubURL source \<longleftrightarrow> HasPrefix (drop_scheme source) ''github.com/''"

definition parseGitHubURL :: "string \<Rightarrow> githubRef option" where
  "parseGitHubURL source =
    (let parts = SplitN (TrimSuffix (TrimPrefix (drop_scheme source) ''github.com/'') ''/'') ''/'' 4
     in if length parts < 2 then None
        else Some \<lparr>ghOwner = parts ! 0, ghRepo = parts ! 1,
                   ghRef = (if length parts \<ge> 4 \<and> parts ! 2 = ''tree'' then parts ! 3 else ''HEAD'')\<rparr>)"

definition zip_url :: "githubRef \<Rightarrow> string" where
  "zip_url ref = ''https://codeload.github.com/'' @ ghOwner ref @ ''/'' @ ghRepo ref @ ''/zip/'' @
     (if ghRef ref = ''HEAD'' then ''HEAD'' else ''refs/heads/'' @ ghRef ref)"

text \<open>An entry of the archive: its name, whether it is a directory, and its bytes unless they cannot be read.\<close>

type_synonym zip_entry = "string \<times> bool \<times> string option"

record CmdLib =
  httpGet :: "string \<Rightarrow> (nat \<times> string) option"
  zipEntries :: "string \<Rightarrow> zip_entry list option"
  tempFile :: "nat \<Rightarrow> string \<Rightarrow> string option"
  yamlMarshal :: "nixisManifest \<Rightarrow> string option"
  dirOK :: "string \<Rightarrow> bool"
  putOK :: "string \<Rightarrow> bool"

datatype ImportCmdError =
    SourceUnreadable | ConvertFailed ImportError | OutDirFailed | MarshalFailed string | WriteFailed string
  | InvalidURL | FetchFailed | FetchStatus nat | BadArchive | CatalogMissing | CatalogInvalid

definition is_candidate :: "string \<Rightarrow> bool" where
  "is_candidate name \<longleftrightarrow>
    (let ext = ToLower (Ext name) in ext = ''.yaml'' \<or> ext = ''.yml'' \<or> ToLower (Base name) = ''settings.json'' \<or> ext = ''.json'')"

fun extract_entries :: "CmdLib \<Rightarrow> nat \<Rightarrow> zip_entry list \<Rightarrow> files \<Rightarrow> string list \<times> files" where
  "extract_entries lib n [] fs = ([], fs)"
| "extract_entries lib n ((name, isDir, data) # es) fs =
    (if isDir \<or> \<not> is_candidate name then extract_entries lib (Suc n) es fs
     else case (data, tempFile lib n (ToLower (Ext name))) of
       (Some d, Some tmp) \<Rightarrow>
         if putOK lib tmp then (let (paths, fs') = extract_entries lib (Suc n) es (fs(tmp \<mapsto> d)) in (tmp # paths, fs'))
         else extract_entries lib (Suc n) es fs
     | _ \<Rightarrow> extract_entries lib (Suc n) es fs)"

definition extractPolicyFiles :: "CmdLib \<Rightarrow> string \<Rightarrow> files \<Rightarrow> ImportCmdError + string list \<times> files" where
  "extractPolicyFiles lib zipData fs = (case zipEntries lib zipData of
     None \<Rightarrow> Inl BadArchive
   | Some es \<Rightarrow> Inr (extract_entries lib 0 es fs))"

definition fetchGitHub :: "CmdLib \<Rightarrow> string \<Rightarrow> files \<Rightarrow> ImportCmdError + string list \<times> files" where
  "fetchGitHub lib source fs = (case parseGitHubURL source of
     None \<Rightarrow> Inl InvalidURL
   | Some ref \<Rightarrow>
       (case httpGet lib (zip_url ref) of
          None \<Rightarrow> Inl FetchFailed
        | Some (status, body) \<Rightarrow>
            if status \<noteq> 200 then Inl (FetchStatus status) else extractPolicyFiles lib (take 10485760 body) fs))"

section \<open>Writing\<close>

definition comment_at :: "string list \<Rightarrow> nat \<Rightarrow> string" where
  "comment_at comments i = (if i < length comments then comments ! i else [])"

definition comment_lines :: "string \<Rightarrow> string" where
  "comment_lines comment =
    (if comment \<noteq> [] then concat (map (\<lambda>line. ''# '' @ line @ [newline]) (Split comment newline)) else [])"

definition manifest_content :: "string \<Rightarrow> string \<Rightarrow> string \<Rightarrow> string" where
  "manifest_content comment source data =
     comment_lines comment @ ''# imported from: '' @ source @ '' via nixis policy import'' @ [newline] @ data"

definition manifest_path :: "string \<Rightarrow> nixisManifest \<Rightarrow> string" where
  "manifest_path outDir m = filepath_Join [outDir, nmName (nxMetadata m) @ ''.yaml'']"

fun write_manifests :: "CmdLib \<Rightarrow> string \<Rightarrow> string \<Rightarrow> string list \<Rightarrow> nat \<Rightarrow> nixisManifest list \<Rightarrow> files \<Rightarrow> ImportCmdError option \<times> files" where
  "write_manifests lib outDir source comments i [] fs = (None, fs)"
| "write_manifests lib outDir source comments i (m # ms) fs = (case yamlMarshal lib m of
     None \<Rightarrow> (Some (MarshalFailed (nmName (nxMetadata m))), fs)
   | Some data \<Rightarrow>
       (let outPath = manifest_path outDir m
        in if putOK lib outPath
           then write_manifests lib outDir source comments (Suc i) ms
                  (fs(outPath \<mapsto> manifest_content (comment_at comments i) source data))
           else (Some (WriteFailed outPath), fs)))"

definition writeManifests :: "CmdLib \<Rightarrow> string \<Rightarrow> converted \<Rightarrow> string \<Rightarrow> files \<Rightarrow> ImportCmdError option \<times> files" where
  "writeManifests lib outDir c sourcePath fs =
    (if \<not> dirOK lib outDir then (Some OutDirFailed, fs)
     else write_manifests lib outDir (Base sourcePath) (snd c) 0 (fst c) fs)"

fun dry_run_text :: "CmdLib \<Rightarrow> string list \<Rightarrow> nat \<Rightarrow> nixisManifest list \<Rightarrow> ImportCmdError + string" where
  "dry_run_text lib comments i [] = Inr []"
| "dry_run_text lib comments i (m # ms) = (case yamlMarshal lib m of
     None \<Rightarrow> Inl (MarshalFailed (nmName (nxMetadata m)))
   | Some data \<Rightarrow>
       (case dry_run_text lib comments (Suc i) ms of
          Inl e \<Rightarrow> Inl e
        | Inr rest \<Rightarrow>
            Inr ((if comment_at comments i \<noteq> [] then ''# '' @ comment_at comments i @ [newline] else []) @
                 ''# imported from: '' @ or_empty (map_of (nmAnnotations (nxMetadata m)) ''nixis.io/imported-from'') @
                 '' via nixis policy import'' @ [newline] @ data @ [newline] @ ''---'' @ [newline] @ rest)))"

definition printDryRun :: "CmdLib \<Rightarrow> string \<Rightarrow> converted \<Rightarrow> ImportCmdError + string" where
  "printDryRun lib outDir c = map_sum id (\<lambda>t. t @ ''# dry-run: would create '' @ itoa (int (length (fst c))) @ '' policy files in '' @ outDir @ [newline])
     (dry_run_text lib (snd c) 0 (fst c))"

section \<open>The commands\<close>

record ImportFlags =
  importOutDir :: string
  importDryRun :: bool
  importLLMAssist :: bool
  importTranslator :: "LLMTranslator option"

datatype import_result = Imported nat nat | DryRun string | NothingFound | ImportFailed ImportCmdError

definition deliver :: "CmdLib \<Rightarrow> ImportFlags \<Rightarrow> converted \<Rightarrow> string \<Rightarrow> nat \<Rightarrow> llm_state \<Rightarrow> import_result \<times> llm_state" where
  "deliver lib flags c source fileCount st =
    (if importDryRun flags then (case printDryRun lib (importOutDir flags) c of Inl e \<Rightarrow> (ImportFailed e, st) | Inr t \<Rightarrow> (DryRun t, st))
     else case writeManifests lib (importOutDir flags) c source (lsFiles st) of
       (Some e, fs) \<Rightarrow> (ImportFailed e, st\<lparr>lsFiles := fs\<rparr>)
     | (None, fs) \<Rightarrow> (Imported (length (fst c)) fileCount, st\<lparr>lsFiles := fs\<rparr>))"

definition assist ::
    "LlmLib \<Rightarrow> ('a) RuleLib_scheme \<Rightarrow> ImportFlags \<Rightarrow> string \<Rightarrow> string \<Rightarrow> converted \<Rightarrow> llm_state \<Rightarrow> converted \<times> llm_state" where
  "assist llm rules flags path data c st =
     applyLLMAssist llm (importLLMAssist flags) (importTranslator flags) c (importFormatName (detectFormatWithName rules path data)) st"

fun import_files ::
    "LlmLib \<Rightarrow> ('a) RuleLib_scheme \<Rightarrow> ImportFlags \<Rightarrow> string list \<Rightarrow> converted \<Rightarrow> nat \<Rightarrow> llm_state \<Rightarrow> converted \<times> nat \<times> llm_state" where
  "import_files llm rules flags [] acc n st = (acc, n, st)"
| "import_files llm rules flags (path # paths) acc n st = (case lsFiles st path of
     None \<Rightarrow> import_files llm rules flags paths acc n st
   | Some data \<Rightarrow>
       (case convertFile rules data path of
          Inl _ \<Rightarrow> import_files llm rules flags paths acc n st
        | Inr c \<Rightarrow>
            if fst c = [] then import_files llm rules flags paths acc n st
            else let (c', st') = assist llm rules flags path data c st
                 in import_files llm rules flags paths (fst acc @ fst c', snd acc @ snd c') (n + 1) st'))"

definition remove_files :: "string list \<Rightarrow> llm_state \<Rightarrow> llm_state" where
  "remove_files paths st = st\<lparr>lsFiles := (\<lambda>p. if p \<in> set paths then None else lsFiles st p)\<rparr>"

definition runImportGitHub ::
    "CmdLib \<Rightarrow> LlmLib \<Rightarrow> ('a) RuleLib_scheme \<Rightarrow> ImportFlags \<Rightarrow> string \<Rightarrow> llm_state \<Rightarrow> import_result \<times> llm_state" where
  "runImportGitHub lib llm rules flags source st = (case fetchGitHub lib source (lsFiles st) of
     Inl e \<Rightarrow> (ImportFailed e, st)
   | Inr (paths, fs) \<Rightarrow>
       (let (all, fileCount, st') = import_files llm rules flags paths ([], []) 0 (st\<lparr>lsFiles := fs\<rparr>);
            (r, st'') = (if fst all = [] then (NothingFound, st') else deliver lib flags all source fileCount st')
        in (r, remove_files paths st'')))"

definition runImport ::
    "CmdLib \<Rightarrow> LlmLib \<Rightarrow> ('a) RuleLib_scheme \<Rightarrow> ImportFlags \<Rightarrow> string \<Rightarrow> llm_state \<Rightarrow> import_result \<times> llm_state" where
  "runImport lib llm rules flags source st =
    (if isGitHubURL source then runImportGitHub lib llm rules flags source st
     else case lsFiles st source of
       None \<Rightarrow> (ImportFailed SourceUnreadable, st)
     | Some data \<Rightarrow>
         (case convertFile rules data source of
            Inl e \<Rightarrow> (ImportFailed (ConvertFailed e), st)
          | Inr c \<Rightarrow> (let (c', st') = assist llm rules flags source data c st in deliver lib flags c' source 1 st')))"

definition catalog_header :: string where
  "catalog_header = ''# auto-generated from pkg/adapters/catalog.json via nixis policy generate-from-catalog'' @ [newline]"

fun write_catalog :: "CmdLib \<Rightarrow> string \<Rightarrow> string list \<Rightarrow> nat \<Rightarrow> nixisManifest list \<Rightarrow> files \<Rightarrow> ImportCmdError option \<times> files" where
  "write_catalog lib outDir comments i [] fs = (None, fs)"
| "write_catalog lib outDir comments i (m # ms) fs = (case yamlMarshal lib m of
     None \<Rightarrow> (Some (MarshalFailed (nmName (nxMetadata m))), fs)
   | Some data \<Rightarrow>
       (let outPath = manifest_path outDir m;
            content = (if comment_at comments i \<noteq> [] then ''# '' @ comment_at comments i @ [newline] else []) @ catalog_header @ data
        in if putOK lib outPath then write_catalog lib outDir comments (Suc i) ms (fs(outPath \<mapsto> content))
           else (Some (WriteFailed outPath), fs)))"

definition runGenerateFromCatalog ::
    "CmdLib \<Rightarrow> (string \<Rightarrow> catalogEntry list option) \<Rightarrow> bool \<Rightarrow> string \<Rightarrow> string \<Rightarrow> files \<Rightarrow> import_result \<times> files" where
  "runGenerateFromCatalog lib decode dryRun dryOutDir outDir fs =
    (let near = ''pkg/adapters/catalog.json''; far = ''../../pkg/adapters/catalog.json'';
         path = (if fs near \<noteq> None then near else far)
     in case fs path of
          None \<Rightarrow> (ImportFailed CatalogMissing, fs)
        | Some data \<Rightarrow>
            (case decode data of
               None \<Rightarrow> (ImportFailed CatalogInvalid, fs)
             | Some entries \<Rightarrow>
                 (let c = generateCatalogPolicies entries in
                  if dryRun then (case printDryRun lib dryOutDir c of Inl e \<Rightarrow> (ImportFailed e, fs) | Inr t \<Rightarrow> (DryRun t, fs))
                  else if \<not> dirOK lib outDir then (ImportFailed OutDirFailed, fs)
                  else case write_catalog lib outDir (snd c) 0 (fst c) fs of
                    (Some e, fs') \<Rightarrow> (ImportFailed e, fs')
                  | (None, fs') \<Rightarrow> (Imported (length (fst c)) 1, fs'))))"

section \<open>Where the files are written\<close>

lemma id_plain: "id_name n \<Longrightarrow> plain_name (n @ ''.yaml'')"
proof -
  assume a: "id_name n"
  have "\<not> lower_id CHR ''/''" by (simp add: lower_id_def byte_in_def)
  with a have "CHR ''/'' \<notin> set n" by (auto simp: id_name_def list_all_iff)
  then show ?thesis using a by (auto simp: plain_name_def id_name_def append_eq_Cons_conv)
qed

lemma manifest_path_child: "id_manifest m \<Longrightarrow> outDir \<noteq> [] \<Longrightarrow> manifest_path outDir m = child (Clean outDir) (nmName (nxMetadata m) @ ''.yaml'')"
  unfolding manifest_path_def by (rule Join_child) (simp_all add: id_plain id_manifest_def)

lemma write_manifests_frame:
  "write_manifests lib outDir source cs i ms fs = (e, fs') \<Longrightarrow> fs' p \<noteq> fs p \<Longrightarrow> \<exists>m \<in> set ms. p = manifest_path outDir m"
proof (induction ms arbitrary: i fs)
  case (Cons m ms)
  show ?case
  proof (cases "p = manifest_path outDir m")
    case False
    with Cons.prems Cons.IH show ?thesis by (fastforce simp: Let_def split: option.splits if_splits)
  qed simp
qed simp

lemma saveCache_frame: "saveCache lib t entry fs p \<noteq> fs p \<Longrightarrow> p = cache_path t (teInputHash entry)"
  by (auto simp: saveCache_def Let_def split: if_splits option.splits)

lemma repair_loop_frame:
  "repair_loop lib t snippet fmt left attempt e err st = (r, st') \<Longrightarrow> lsFiles st' p \<noteq> lsFiles st p \<Longrightarrow> \<exists>h. p = cache_path t h"
proof (cases r)
  case (Inr x)
  assume a: "repair_loop lib t snippet fmt left attempt e err st = (r, st')" and p: "lsFiles st' p \<noteq> lsFiles st p"
  from Inr obtain expr n where "r = Inr (expr, n)" by (cases x) auto
  with repair_loop_valid a obtain k where "lsFiles st' = saveCache lib t (success_entry lib t snippet fmt expr n k) (lsFiles st)" by blast
  with p show ?thesis using saveCache_frame by metis
qed (auto dest: repair_loop_error_keeps)

lemma Translate_frame: "Translate lib t snippet fmt st = (r, st') \<Longrightarrow> lsFiles st' p \<noteq> lsFiles st p \<Longrightarrow> \<exists>h. p = cache_path t h"
  by (auto simp: Translate_def dest: repair_loop_frame split: if_splits option.splits)

lemma assist_one_frame: "assist_one lib t fmt mc st = (mc', st') \<Longrightarrow> lsFiles st' p \<noteq> lsFiles st p \<Longrightarrow> \<exists>h. p = cache_path t h"
  by (auto simp: assist_one_def dest: Translate_frame split: if_splits prod.splits sum.splits)

lemma assist_all_frame: "assist_all lib t fmt mcs st = (mcs', st') \<Longrightarrow> lsFiles st' p \<noteq> lsFiles st p \<Longrightarrow> \<exists>h. p = cache_path t h"
proof (induction mcs arbitrary: mcs' st st')
  case (Cons mc mcs)
  obtain mc1 st1 where a: "assist_one lib t fmt mc st = (mc1, st1)" by fastforce
  obtain mcs1 st2 where b: "assist_all lib t fmt mcs st1 = (mcs1, st2)" by fastforce
  from Cons.prems(1) a b have "st' = st2" by simp
  with Cons.prems(2) assist_one_frame [OF a] Cons.IH [OF b] show ?case by metis
qed simp

lemma applyLLMAssist_frame:
  "applyLLMAssist lib on tr c fmt st = (c', st') \<Longrightarrow> lsFiles st' p \<noteq> lsFiles st p \<Longrightarrow> \<exists>t h. tr = Some t \<and> p = cache_path t h"
  by (auto simp: applyLLMAssist_def dest: assist_all_frame split: if_splits option.splits prod.splits)

lemma assisted_name: "assisted mc mc' \<Longrightarrow> nmName (nxMetadata (fst mc')) = nmName (nxMetadata (fst mc))"
  by (auto simp: assisted_def same_policy_def)

lemma list_all2_fst: "list_all2 R xs ys \<Longrightarrow> y \<in> set ys \<Longrightarrow> \<exists>x \<in> set xs. R x y"
  by (fastforce simp: list_all2_conv_all_nth in_set_conv_nth)

lemma assist_names:
  assumes "applyLLMAssist lib on tr (ms, cs) fmt st = (c', st')" and "length ms = length cs" and "m' \<in> set (fst c')"
  shows "\<exists>m \<in> set ms. nmName (nxMetadata m') = nmName (nxMetadata m)"
proof (cases "\<exists>t. tr = Some t \<and> on")
  case True
  then obtain t ps where t: "tr = Some t" "on" and ps: "fst (assist_all lib t fmt (zip ms cs) st) = ps" by blast
  then have "fst c' = map fst ps" using assms(1) by (auto simp: applyLLMAssist_def unzip_def split: prod.splits)
  with assms(3) obtain p where p: "p \<in> set ps" "m' = fst p" by auto
  have "list_all2 assisted (zip ms cs) ps"
    by (rule assist_all_assisted [where st' = "snd (assist_all lib t fmt (zip ms cs) st)"]) (simp add: ps [symmetric])
  from list_all2_fst [OF this p(1)] obtain q where "q \<in> set (zip ms cs)" "assisted q p" by auto
  then have "fst q \<in> set ms" "nmName (nxMetadata m') = nmName (nxMetadata (fst q))"
    using p(2) assisted_name [of q p] set_zip_leftD [of "fst q" "snd q" ms cs] by simp_all
  then show ?thesis by blast
next
  case False
  with assms(1) have "c' = (ms, cs)" by (auto simp: applyLLMAssist_def split: option.splits if_splits)
  with assms(3) show ?thesis by auto
qed


end
