(* ===== verification/ImportLoad.thy ===== *)
theory ImportLoad
  imports ImportCmd
begin

text \<open>
  What the policy loader makes of imported files: the converters and \<^verbatim>\<open>writeManifests\<close> of \<^verbatim>\<open>cmd/nixis/import.go\<close> composed with
  \<^verbatim>\<open>internal/bundle/parse.go\<close>, and the places where an imported rule does not mean what it said.
\<close>

section \<open>A written manifest is loaded\<close>

text \<open>The manifest the loader decodes from the YAML of a converted manifest: the fields the importer does not write have their
  zero values.\<close>

definition loaded_form :: "nixisManifest \<Rightarrow> policyManifest" where
  "loaded_form m =
     \<lparr>APIVersion = nxAPIVersion m, Kind = nxKind m, MetaName = nmName (nxMetadata m), SpecDescription = nsDescription (nxSpec m),
      SpecLayer = [], MatchTools = nsTools (nxSpec m), MatchEffects = [], SpecVariables = [],
      SpecValidations = map (\<lambda>v. \<lparr>ValExpression = nvExpression v, ValMessage = nvMessage v, ValAction = nvAction v\<rparr>) (nsValidations (nxSpec m)),
      SpecDefaultAction = nsDefaultAction (nxSpec m), SpecParams = []\<rparr>"

definition the_expression :: "nixisManifest \<Rightarrow> string" where
  "the_expression m = nvExpression (hd (nsValidations (nxSpec m)))"

definition the_action :: "nixisManifest \<Rightarrow> string" where
  "the_action m = nvAction (hd (nsValidations (nxSpec m)))"

lemma inline_no_variables:
  assumes "SpecVariables m = []" and "\<And>k i vs. set (ord k i vs) = set vs"
  shows "inline_expr ord m k e = Some (normalizeExpression e)"
proof -
  have "ord k i [] = []" for i using assms(2) [of k i "[]"] by simp
  then show ?thesis using assms(1) by (simp add: inline_expr_def variable_map_def)
qed

lemma combined_single:
  assumes "template_shaped m" and "the_expression m \<noteq> []" and "\<And>k i vs. set (ord k i vs) = set vs"
  shows "buildCombinedExpression ord (loaded_form m) =
    Some (''!('' @ normalizeExpression (the_expression m) @ '')'', the_action m = ''REQUIRE_APPROVAL'')"
proof -
  obtain v where v: "nsValidations (nxSpec m) = [v]" using assms(1) by (auto simp: template_shaped_def length_Suc_conv)
  have "SpecVariables (loaded_form m) = []" by (simp add: loaded_form_def)
  note inl = inline_no_variables [OF this assms(3)]
  have "SpecValidations (loaded_form m) = [\<lparr>ValExpression = the_expression m, ValMessage = nvMessage v, ValAction = the_action m\<rparr>]"
    using v by (simp add: loaded_form_def the_expression_def the_action_def)
  then show ?thesis using assms(2) by (simp add: buildCombinedExpression_def with_action_def inl negated_def)
qed

text \<open>The codec of policy files: what the encoder wrote behind comment lines is decoded as one document.\<close>

definition yaml_codec :: "CmdLib \<Rightarrow> PolicyLib \<Rightarrow> bool" where
  "yaml_codec lib plib \<longleftrightarrow>
    (\<forall>m data comment source. yamlMarshal lib m = Some data \<longrightarrow> yamlDocs plib (manifest_content comment source data) = ([loaded_form m], False)) \<and>
    (\<forall>path n k i vs. set (iterOrder plib path n k i vs) = set vs)"

definition loaded_template :: "string \<Rightarrow> nixisManifest \<Rightarrow> PolicyTemplate" where
  "loaded_template path m = manifest_template path (loaded_form m) (''!('' @ normalizeExpression (the_expression m) @ '')'') None"

definition loaded_binding :: "nixisManifest \<Rightarrow> PolicyBinding" where
  "loaded_binding m = manifest_binding (loaded_form m) (the_action m = ''REQUIRE_APPROVAL'')"

lemma written_file_parses:
  assumes "yaml_codec lib plib" and "yamlMarshal lib m = Some data" and "fs path = Some (manifest_content comment source data)"
    and "template_shaped m" and "the_expression m \<noteq> []"
  shows "ParsePolicyFileAll plib fs path = Some (Inr ([loaded_template path m], [loaded_binding m]))"
proof -
  have "buildCombinedExpression (iterOrder plib path 0) (loaded_form m) =
      Some (''!('' @ normalizeExpression (the_expression m) @ '')'', the_action m = ''REQUIRE_APPROVAL'')"
    by (rule combined_single) (use assms in \<open>simp_all add: yaml_codec_def\<close>)
  moreover have "Kind (loaded_form m) = ''PolicyTemplate''" "APIVersion (loaded_form m) = ''nixis.io/v1''" "SpecParams (loaded_form m) = []"
    using assms(4) by (simp_all add: loaded_form_def template_shaped_def)
  ultimately show ?thesis
    using assms by (simp add: ParsePolicyFileAll_def yaml_codec_def resolveParams_def loaded_template_def loaded_binding_def)
qed

lemma written_content:
  assumes "write_manifests lib outDir source cs k ms fs = (None, fs')" and "distinct (map (manifest_path outDir) ms)" and "m \<in> set ms"
  shows "\<exists>data comment. yamlMarshal lib m = Some data \<and> fs' (manifest_path outDir m) = Some (manifest_content comment source data)"
  using assms
proof (induction ms arbitrary: k fs)
  case (Cons x ms)
  then obtain data where d: "yamlMarshal lib x = Some data"
    and r: "write_manifests lib outDir source cs (Suc k) ms
      (fs(manifest_path outDir x \<mapsto> manifest_content (comment_at cs k) source data)) = (None, fs')"
    by (auto simp: Let_def split: option.splits if_splits)
  show ?case
  proof (cases "m \<in> set ms")
    case True
    then show ?thesis using Cons.IH [OF r] Cons.prems(2) by simp
  next
    case False
    then have m: "m = x" using Cons.prems(3) by simp
    have "manifest_path outDir x \<notin> manifest_path outDir ` set ms" using Cons.prems(2) by simp
    then have "fs' (manifest_path outDir x) = Some (manifest_content (comment_at cs k) source data)"
      using write_manifests_frame [OF r, of "manifest_path outDir x"] by auto
    with m d show ?thesis by blast
  qed
qed simp


text \<open>The import of a settings file with one deny rule.\<close>

definition demo_rules :: RuleLib where
  "demo_rules =
     \<lparr>jsonSettings = (\<lambda>d. if d = ''deny'' then Some \<lparr>sjAllow = [], sjDeny = [''Bash(rm *)'']\<rparr> else None),
      yamlPolicyLayer = (\<lambda>_. None), yamlGeneric = (\<lambda>_. None), yamlAgentWall = (\<lambda>_. None), yamlMCPVisor = (\<lambda>_. None),
      yamlProbe = (\<lambda>_. None), yamlFalcoItems = (\<lambda>_. None), yamlFalcoRaw = (\<lambda>_. None), yamlCheckov = (\<lambda>_. None), yamlSigma = (\<lambda>_. None),
      yamlDetection = (\<lambda>_. None), yamlKyverno = (\<lambda>_. None), yamlConstraintTemplate = (\<lambda>_. None), yamlConstraint = (\<lambda>_. None),
      selectionOrder = (\<lambda>s. s), listOrder = (\<lambda>s. s)\<rparr>"

definition demo_manifest :: nixisManifest where
  "demo_manifest = fst (settings_manifest ''settings.json'' 0 ''Bash(rm *)'')"

definition demo_cmd :: CmdLib where
  "demo_cmd = \<lparr>httpGet = (\<lambda>_. None), zipEntries = (\<lambda>_. None), tempFile = (\<lambda>_ _. None),
     yamlMarshal = (\<lambda>m. if m = demo_manifest then Some ''policy'' else None), dirOK = (\<lambda>_. True), putOK = (\<lambda>_. True)\<rparr>"

definition demo_plib :: PolicyLib where
  "demo_plib = \<lparr>yamlDocs = (\<lambda>_. ([loaded_form demo_manifest], False)), iterOrder = (\<lambda>_ _ _ _ vs. vs)\<rparr>"

definition demo_flags :: ImportFlags where
  "demo_flags = \<lparr>importOutDir = ''/out'', importDryRun = False, importLLMAssist = False, importTranslator = None\<rparr>"

definition demo_import_state :: llm_state where
  "demo_import_state = \<lparr>lsCalls = 0, lsFiles = [''settings.json'' \<mapsto> ''deny'']\<rparr>"

lemma demo_detected: "detectFormatWithName demo_rules ''settings.json'' ''deny'' = formatSettingsJSON"
  by (simp add: detectFormatWithName_def has_deny_def demo_rules_def)

lemma demo_Base: "Base ''settings.json'' = ''settings.json''"
  by code_simp

lemma demo_converted: "convertFile demo_rules ''deny'' ''settings.json'' = Inr ([demo_manifest], [[]])"
proof -
  have "snd (settings_manifest ''settings.json'' 0 ''Bash(rm *)'') = []" by code_simp
  then show ?thesis
    by (simp add: convertFile_def demo_detected convertSettingsJSON_def demo_Base unzip_def demo_manifest_def) (simp add: demo_rules_def demo_Base unzip_def)
qed

lemma demo_path: "manifest_path ''/out'' demo_manifest = ''/out/settings-deny-001.yaml''"
  by code_simp

lemma demo_written:
  "writeManifests demo_cmd ''/out'' ([demo_manifest], [[]]) ''settings.json'' fs =
    (None, fs(''/out/settings-deny-001.yaml'' \<mapsto> manifest_content [] ''settings.json'' ''policy''))"
  by (simp add: writeManifests_def demo_cmd_def demo_path demo_Base comment_at_def)

lemma demo_import:
  "runImport demo_cmd demo_llm demo_rules demo_flags ''settings.json'' demo_import_state =
    (Imported 1 1, demo_import_state\<lparr>lsFiles := (lsFiles demo_import_state)(''/out/settings-deny-001.yaml'' \<mapsto> manifest_content [] ''settings.json'' ''policy'')\<rparr>)"
proof -
  have "\<not> isGitHubURL ''settings.json''" by code_simp
  moreover have "lsFiles demo_import_state ''settings.json'' = Some ''deny''" by (simp add: demo_import_state_def)
  ultimately show ?thesis
    by (simp add: runImport_def demo_converted assist_def applyLLMAssist_def demo_flags_def deliver_def demo_written)
qed



section \<open>Rules that change their meaning\<close>

definition with_the_action :: "string \<Rightarrow> nixisManifest \<Rightarrow> nixisManifest" where
  "with_the_action a m = m\<lparr>nxSpec := (nxSpec m)\<lparr>nsValidations := map (\<lambda>v. v\<lparr>nvAction := a\<rparr>) (nsValidations (nxSpec m))\<rparr>\<rparr>"

text \<open>An action other than REQUIRE_APPROVAL does not survive loading: a rule to audit, or to allow, is loaded as the rule that
  denies.\<close>

lemma audit_loads_as_deny:
  assumes "template_shaped m" and "a \<noteq> ''REQUIRE_APPROVAL''"
  shows "loaded_template path (with_the_action a m) = loaded_template path (with_the_action ''DENY'' m) \<and>
    loaded_binding (with_the_action a m) = loaded_binding (with_the_action ''DENY'' m)"
proof -
  obtain v where "nsValidations (nxSpec m) = [v]" using assms(1) by (auto simp: template_shaped_def length_Suc_conv)
  then show ?thesis using assms(2)
    by (simp add: loaded_template_def loaded_binding_def with_the_action_def loaded_form_def manifest_template_def manifest_binding_def
        the_expression_def the_action_def first_message_def)
qed

text \<open>A PolicyLayer name is used as a path: the file leaves the output directory.\<close>

lemma policy_name_escapes:
  "manifest_path ''/u/policies/imported'' (template_manifest ''../custom/allow'' [] [] [] [] [] []) = ''/u/policies/custom/allow.yaml''"
  by code_simp

text \<open>A field with both bounds gives two policies of one name, hence of one file: the second one replaces the first.\<close>

lemma agentWall_bounds_share_name:
  "map (\<lambda>p. nmName (nxMetadata (fst p))) (agentWall_field src
      \<lparr>atName = ''db'', atAction = ''allow'', atRisk = [], atParameters = []\<rparr> \<lparr>apName = ''q'', apType = [], apSchema = []\<rparr>
      (''limit'', YMap [(''type'', YStr ''integer''), (''maximum'', YInt 100), (''minimum'', YInt 1)]))
   = [''agentwall-db-q-limit'', ''agentwall-db-q-limit'']"
  by (simp add: agentWall_field_def agentWallFieldCEL_def as_map_def as_string_def or_empty_def Let_def) code_simp

text \<open>A pattern the schema requires becomes a policy that denies what matches it.\<close>

lemma agentWall_pattern_denied:
  "agentWallFieldCEL ''db'' ''q'' ''query'' [(''type'', YStr ''string''), (''pattern'', YStr ''^SELECT'')] =
   ([''tool == '' @ Quote ''db'' @ '' && request.args.query.matches('' @ Quote ''^SELECT'' @ '')''], [])"
  by (simp add: agentWallFieldCEL_def as_string_def or_empty_def on_field_def)

text \<open>A part of a Sigma condition that names no selection is dropped without a comment.\<close>

lemma sigma_part_dropped:
  "translateSigmaCondition id ''a and not b and not 1 of c*'' [(''a'', ''A''), (''b'', ''B''), (''c1'', ''C'')] = (''A && !(B)'', [])"
  by code_simp

text \<open>A selection that tests nothing is true and carries no marker, so its rule denies every call.\<close>

lemma sigma_empty_selection: "translateSigmaSelection name (YMap []) = (''true'', [])"
  by (simp add: translateSigmaSelection_def nonempty_def)

lemma sigma_untranslatable_true:
  "translateSigmaDetection ord [(''sel'', YMap [(''Image'', YStr ''x'')])] ''sel'' =
   (''true'', ''IMPORT_TODO: field '' @ Quote ''Image'' @ '' cannot be mapped to Nixis context'')"
  by (simp add: translateSigmaDetection_def sigma_selections_def translateSigmaSelection_def translateSigmaField_def Split_def
      sigmaToCELField_def ToLower_def ascii_lower_def translateSigmaCondition_def TrimSpace_def Trim_def TrimLeft_def TrimRight_def
      isSpace_def nonempty_def Let_def)

text \<open>A value with a backslash is escaped twice: the literal of the expression holds two.\<close>

lemma ReplaceAll_single: "ReplaceAll s [c] new = concat (map (\<lambda>x. if x = c then new else [x]) s)"
  by (induction s) (auto simp: HasPrefix_def)

lemma sigma_backslash_doubled:
  assumes "backslash \<in> set s"
  shows "read_literal (Quote (escapeStringForCEL s)) = Some (escapeStringForCEL s, []) \<and> escapeStringForCEL s \<noteq> s"
proof -
  have "length s + length (filter (\<lambda>x. x = backslash) s) = length (escapeStringForCEL s)" for s
    unfolding escapeStringForCEL_def ReplaceAll_single by (induction s) auto
  moreover have "filter (\<lambda>x. x = backslash) s \<noteq> []" using assms by (auto simp: filter_empty_conv)
  ultimately have "length (escapeStringForCEL s) \<noteq> length s" by (metis add_cancel_left_right length_0_conv)
  then show ?thesis using read_Quote [of "escapeStringForCEL s" "[]"] by auto
qed

text \<open>Checkov: content that should contain a text is denied without it, content that should match or equal one is denied or
  audited with it.\<close>

lemma checkov_polarity:
  "fst (translateCheckovCondition (CheckovDefinition [] a ''contains'' v [] []) fp) = content_check fp True ''contains'' v"
  "fst (translateCheckovCondition (CheckovDefinition [] a ''equals'' v [] []) fp) = content_check fp False ''contains'' v"
  "fst (translateCheckovCondition (CheckovDefinition [] a ''regex_match'' v [] []) fp) = content_check fp False ''matches'' v"
  by (simp_all add: translateCheckovCondition_def)

text \<open>A constraint is never detected, although the converter has a branch for it.\<close>

lemma constraint_not_detected: "probe_format p = formatOPAGatekeeper \<Longrightarrow> prKind p = ''ConstraintTemplate''"
  by (auto simp: probe_format_def split: if_splits)

text \<open>The second skipped limit replaces the marker of the first.\<close>

lemma skip_comment_overwritten: "cs \<noteq> [] \<Longrightarrow> appendSkipComment (appendSkipComment cs a) b = appendSkipComment cs b"
  by (simp add: appendSkipComment_def list_update_overwrite)

text \<open>The expressions the translator and the repair validate are not the ones the loader builds.\<close>

lemma validated_expression_differs:
  "normaliseCELExpr ''request.session_id'' = ''session_id''" "normalizeExpression ''request.session_id'' = ''request.session_id''"
  by code_simp+

text \<open>The expression put in place of one that cannot be repaired is loaded as a policy that never denies.\<close>

lemma unrepairable_policy_loads_as_allow:
  "template_shaped m \<Longrightarrow> the_expression m = ''false'' \<Longrightarrow> Expression (loaded_template path m) = ''!(false)''"
  by (simp add: loaded_template_def manifest_template_def normalizeExpression_def HasPrefix_def)

end
