(* ===== verification/Spec2Isabelle.thy ===== *)
theory Spec2Isabelle
  imports CasLoop CelFuncs EngineTaint EngineSpawn EnginePolicies RateLimit PidLock StreamHttp Doctor ImportLoad
begin

text \<open>
  A verification development of Nixis, a governance daemon for AI coding agents written in Go.  An IDE calls the
  hook binary before each tool call; the hook asks the daemon over a Unix socket; the daemon evaluates the
  request against compiled policies, information-flow labels, delegation chains and a secret scan, answers
  allow, deny, require approval or audit, writes a hash-chained audit log and streams events to a dashboard.  The
  same engine is reached through an MCP proxy, an Envoy authorization service and a REST endpoint.

  \<^bold>\<open>Theories and sources.\<close>  Every name below \<^verbatim>\<open>src/\<close> is a file; definitions keep the names of the Go functions and types,
  with a prefix where two packages share one.

  \<^item> \<^verbatim>\<open>Prelude\<close>, \<^verbatim>\<open>Bytes\<close>, \<^verbatim>\<open>GoPath\<close>, \<^verbatim>\<open>Regex\<close>: machine words, the functions of the \<^verbatim>\<open>strings\<close>, \<^verbatim>\<open>path/filepath\<close> and \<^verbatim>\<open>encoding/binary\<close> packages
    the sources call, regular expressions, and the locales for observations that only move one way.
  \<^item> \<^verbatim>\<open>Types\<close>: \<^verbatim>\<open>pkg/nixis/types.go\<close>, \<^verbatim>\<open>extract.go\<close>, \<^verbatim>\<open>pkg/policy/types\<close>; decoded JSON.
  \<^item> \<^verbatim>\<open>Lattice\<close>, \<^verbatim>\<open>Sessions\<close>, \<^verbatim>\<open>CasLoop\<close>: \<^verbatim>\<open>internal/ifc\<close>: packed labels, the session registry with standing rules and taint
    history, and its compare-and-swap loops under interference.
  \<^item> \<^verbatim>\<open>Classify\<close>: \<^verbatim>\<open>internal/classify\<close>: the open-addressing verdict table, tiers, argument schemas.
  \<^item> \<^verbatim>\<open>Resource\<close>, \<^verbatim>\<open>Labeler\<close>, \<^verbatim>\<open>Sink\<close>, \<^verbatim>\<open>Secret\<close>, \<^verbatim>\<open>SelfProtect\<close>: \<^verbatim>\<open>internal/resource\<close>, \<^verbatim>\<open>internal/label\<close>, \<^verbatim>\<open>internal/sink\<close>, \<^verbatim>\<open>internal/secret\<close>,
    \<^verbatim>\<open>internal/policy/selfprotect.go\<close>.
  \<^item> \<^verbatim>\<open>Delegation\<close>: \<^verbatim>\<open>internal/delegation\<close>: canonical token bytes, chain validation, ceilings, the registry of chains.
  \<^item> \<^verbatim>\<open>Cel\<close>, \<^verbatim>\<open>CelFuncs\<close>: \<^verbatim>\<open>internal/cel\<close>: compilation with its limits, declarations, activation maps and their pool, the functions of the
    policy language.
  \<^item> \<^verbatim>\<open>Engine\<close> and \<^verbatim>\<open>EngineSafety\<close>, \<^verbatim>\<open>EngineConfine\<close>, \<^verbatim>\<open>EngineTaint\<close>, \<^verbatim>\<open>EngineSpawn\<close>, \<^verbatim>\<open>EnginePolicies\<close>: \<^verbatim>\<open>internal/policy/engine.go\<close>: the
    pipeline of \<^verbatim>\<open>evaluateWithSnapshot\<close> as a list of stages that may only deny or pass, spawn tokens, snapshots, reload.
  \<^item> \<^verbatim>\<open>AuditLog\<close>: \<^verbatim>\<open>internal/audit\<close>: the chain, batches as transactions with faults, the writer loop with restarts.
  \<^item> \<^verbatim>\<open>PolicyFile\<close>, \<^verbatim>\<open>Bundle\<close>: \<^verbatim>\<open>internal/bundle\<close>: manifests, variable inlining, parameters, directories; signed bundles with
    their activation state machine, store and roll-back.
  \<^item> \<^verbatim>\<open>Daemon\<close>, \<^verbatim>\<open>DaemonLabels\<close>, \<^verbatim>\<open>DaemonApi\<close>, \<^verbatim>\<open>DaemonLife\<close>, \<^verbatim>\<open>PidLock\<close>, \<^verbatim>\<open>RateLimit\<close>: \<^verbatim>\<open>internal/daemon\<close>, \<^verbatim>\<open>internal/reload\<close> and \<^verbatim>\<open>cmd/nixis-daemon\<close>:
    framing, the connection handler, modes, approvals, maintenance, health, reload, the directory watcher, start-up, the
    accept loop and the shutdown with the audit writer, the PID lock, the token buckets.
  \<^item> \<^verbatim>\<open>Hook\<close>: \<^verbatim>\<open>cmd/nixis-hook\<close>, composed with the connection handler of the daemon.
  \<^item> \<^verbatim>\<open>Mcp\<close>, \<^verbatim>\<open>FrontEnds\<close>: \<^verbatim>\<open>internal/mcp\<close>, \<^verbatim>\<open>internal/grpc\<close>, \<^verbatim>\<open>internal/daemon/http.go\<close>, \<^verbatim>\<open>pkg/nixis/evaluate.go\<close>.
  \<^item> \<^verbatim>\<open>EventStream\<close>, \<^verbatim>\<open>StreamHttp\<close>: \<^verbatim>\<open>internal/stream\<close>: event hub, clients, limiter and HTTP handlers.
  \<^item> \<^verbatim>\<open>CliAudit\<close>, \<^verbatim>\<open>CliPolicy\<close>: the commands of \<^verbatim>\<open>cmd/nixis\<close> that verify and export the audit log, issue and verify tokens (\<^verbatim>\<open>audit.go\<close>,
    \<^verbatim>\<open>delegation.go\<close>), and those that validate, export, reload, simulate, activate and scan (\<^verbatim>\<open>validate.go\<close>, \<^verbatim>\<open>policy.go\<close>, \<^verbatim>\<open>reload.go\<close>,
    \<^verbatim>\<open>simulate.go\<close>, \<^verbatim>\<open>bundle.go\<close>, \<^verbatim>\<open>scan.go\<close>), composed with the handlers of the daemon.
  \<^item> \<^verbatim>\<open>CliSetup\<close>, \<^verbatim>\<open>CliFiles\<close>, \<^verbatim>\<open>PolicyUpgrade\<close>, \<^verbatim>\<open>CliService\<close>, \<^verbatim>\<open>CliInstall\<close>, \<^verbatim>\<open>Doctor\<close>: installation (\<^verbatim>\<open>setup.go\<close>, \<^verbatim>\<open>uninstall.go\<close>, \<^verbatim>\<open>policy_upgrade.go\<close>,
    \<^verbatim>\<open>setup_linux.go\<close>, \<^verbatim>\<open>setup_darwin.go\<close>), control and diagnosis (\<^verbatim>\<open>daemon_cmd.go\<close>, \<^verbatim>\<open>doctor.go\<close>): settings and shell files, a file system
    with failing calls, atomic copies, service managers, the steps of setup and of its removal, the checks of the doctor.
  \<^item> \<^verbatim>\<open>GoText\<close>: runes, \<^verbatim>\<open>strconv.Quote\<close> with its reader, and the \<^verbatim>\<open>fmt\<close> verbs the importers print with.
  \<^item> \<^verbatim>\<open>Importer\<close>, \<^verbatim>\<open>ImportCheckov\<close>, \<^verbatim>\<open>ImportSigma\<close>, \<^verbatim>\<open>ImportFalco\<close>, \<^verbatim>\<open>ImportFormats\<close>: \<^verbatim>\<open>cmd/nixis/import.go\<close>: one converter per foreign format
    (PolicyLayer, settings files, AgentWall, mcp-visor, catalogs, Checkov, Kyverno, OPA, Sigma, Falco), format detection and
    \<^verbatim>\<open>convertFile\<close>.
  \<^item> \<^verbatim>\<open>ImportCmd\<close>, \<^verbatim>\<open>ImportLoad\<close>: the command of \<^verbatim>\<open>import.go\<close> (local and GitHub sources, zip archives, writing manifests, the
    catalog), and its composition with the policy loader of \<^verbatim>\<open>PolicyFile\<close>.
  \<^item> \<^verbatim>\<open>LlmTranslate\<close>, \<^verbatim>\<open>FixCel\<close>, \<^verbatim>\<open>FixImports\<close>: \<^verbatim>\<open>cmd/nixis/llm_translate.go\<close> and \<^verbatim>\<open>fix_imports.go\<close>: the repair loop against a language model, its
    cache, the repair of escapes in CEL expressions and the rewriting of files that were imported with a gap.

  \<^bold>\<open>State and effects.\<close>  State is a record passed explicitly: the session registry (an association of session ids with
  packed labels), the engine state, the writer, the daemon, the loader, the proxy, the stream server.  Operations of
  one goroutine are functions; where goroutines or processes interleave there is a step relation whose steps are
  the atomic actions of the code (loads and swaps, channel operations, system calls, transactions): \<^verbatim>\<open>cas_step\<close>,
  \<^verbatim>\<open>writer_step\<close>, \<^verbatim>\<open>loader_step\<close>, \<^verbatim>\<open>mcp_step\<close>, \<^verbatim>\<open>stream_step\<close>, \<^verbatim>\<open>lock_step\<close>, \<^verbatim>\<open>life_step\<close>.  The commands of the installer act on a machine:
  files, settings and the trace of programs and signals.  One evaluation of the engine is one step.  Errors
  are values of sum or option types; faults of the environment are arguments.

  \<^bold>\<open>Parameters.\<close>  Code outside the repository is an argument: SHA-256, Ed25519 and token decoding (\<^verbatim>\<open>Crypto\<close>), cel-go
  (\<^verbatim>\<open>CelLib\<close>), the JSON parser and codecs, the YAML decoder and the order of map iteration (\<^verbatim>\<open>PolicyLib\<close>), the secret
  detector, symbolic links and the home directory, file systems, HTTP replies, clocks and random tokens; for the importers
  also the YAML, JSON and TOML decoders, the YAML encoder, archives, names of temporary files and the model's replies; for the
  installer the results of programs and which system calls fail; for the rate limiter the rounding of floating-point numbers.  Where
  a property needs a law of such a parameter (a hash has 32 bytes, a codec round-trips, a key pair verifies what it
  signs) it is a named hypothesis with a witness on a concrete instance.

  \<^bold>\<open>What is shown.\<close>  Safety of the engine: an allowed call passed every layer, a session that read a secret cannot reach
  an external sink without a grant, spawned agents inherit taint and ceilings, labels never go down, concurrent
  elevations are not lost.  End to end: the hook, the MCP proxy and the other front ends let a call through only when
  the engine did, apart from the documented fail-open exits, each of which leaves a log entry.  Configuration: a reload
  is all or nothing, only verified bundles reach the engine, standing rules in a running daemon are bounded,
  policy directories parse to paired templates and bindings.  Records: the audit log is an append-only hash
  chain, tamper-evident up to hash collisions, and accepted by the command-line verifier; clients of the event stream
  get a snapshot and then distinctly numbered events.  Equivalence: the verdict table refines the catalog it is
  built from, the identifier scanner agrees with a reference definition.  Import: files are written only below the output
  directory, what is written loads as policies, finished translations are taken from the cache, repaired files are not
  sent to the model again.  Operation: a shutdown handles every accepted connection and loses no audit record but those
  of failed transactions, and can always complete; a session is granted no more calls than its bucket and the rate
  allow; evaluations that share a pool of maps do not see each other; validation and export predict what a reload does; an upgrade installs the source; uninstalling undoes whatever
  setup did; the diagnosis accepts what setup installs.  Lemmas record behaviours that differ from what comments or
  names promise.

  \<^bold>\<open>Locales.\<close>  \<^verbatim>\<open>high_water_mark\<close> (labels and state ordinals) with \<^verbatim>\<open>cas_high_water\<close> for the concurrent loops, \<^verbatim>\<open>monotone_observation\<close> for
  components whose steps only raise an observation, the staged pipeline of the engine, the reloaders (\<^verbatim>\<open>policy_reloader\<close>,
  \<^verbatim>\<open>reload_service\<close>), \<^verbatim>\<open>front_end\<close>, and \<^verbatim>\<open>service_manager\<close> with its extension \<^verbatim>\<open>service_keeper\<close> for systemd and launchd; each is interpreted on the definitions of the model.

  \<^bold>\<open>Bounds.\<close>  Machine integers are words where the sources' width matters (labels, tokens, hashes, sequence numbers,
  frame lengths).  No fuel is used: \<^verbatim>\<open>replaceIdentifier\<close> is a partial function, shown to return for every non-empty name,
  and probing in the verdict table is bounded by the table and shown to succeed.  The event stream is considered for
  fewer than \<^verbatim>\<open>2^64\<close> steps, the range of its counter.

  \<^bold>\<open>Not modelled.\<close>  Telemetry (set-up of OpenTelemetry and its counters, which have no influence on decisions), TLS, the
  sockets behind the listeners, the delivery of signals, the printing of reports, the embedded adapter catalog (data
  the classifier takes as an argument) and the dashboard, which is not Go.
\<close>

end
